(* ===== verification/Prelude.thy ===== *)
theory Prelude
  imports Main "HOL-Library.AList"
begin

text \<open>
  Shared vocabulary of the development: the exceptions the Python code raises, the
  state-and-exception operations in which its transactions are written, SQL tables as
  association lists in insertion order, and the generic lemmas about all three.
\<close>

named_theorems exec_simps "unfolding rules of the effect combinators"
named_theorems table_simps "lookup laws of the SQL table operations"
named_theorems keeps_intros "which combinators leave a part of the state alone"

section \<open>Values and exceptions\<close>

type_synonym uuid = nat

text \<open>
  An instant in UTC, counted in microseconds from the first instant Python's
  \<open>datetime\<close> can represent (0001-01-01T00:00:00).
\<close>

type_synonym time = int

text \<open>A Python \<open>datetime\<close> argument: its UTC instant (or local reading when naive) and its offset.\<close>

record datetime =
  instant :: time
  utcoffset :: "int option"

datatype error_class =
    ValueError | TypeError | RuntimeError | FileExistsError | FileNotFoundError
  | OperationalError | ConnectionError | TimeoutError | UniqueViolation string
  | LeaseUnavailableError | LeaseOwnershipLostError
  | TableLeaseUnavailableError | TableLeaseOwnershipLostError
  | WatermarkConflictError | WatermarkRewindError | PipelineRunStateError
  | BatchIdentityConflictError | BronzeSchemaContractError | BatchValidationContractError
  | SourceCursorRegressionError | RejectRateExceededError | BronzeCommitVerificationError
  | OrphanReconciliationError | ClientError string "int option" | BotoCoreError
  | WarehouseBuildError string | PublishedWalError | PublishInProgressError | PublishStateError
  | OtherError string

datatype exn = Exn (exn_class: error_class) (exn_message: string)

section \<open>Fallible operations on a state\<close>

type_synonym 'a result = "exn + 'a"
type_synonym ('s, 'a) op = "'s \<Rightarrow> 'a result \<times> 's"

definition returnM :: "'a \<Rightarrow> ('s, 'a) op" where
  "returnM x = (\<lambda>s. (Inr x, s))"

definition raiseM :: "error_class \<Rightarrow> string \<Rightarrow> ('s, 'a) op" where
  "raiseM c m = (\<lambda>s. (Inl (Exn c m), s))"

definition bindM :: "('s, 'a) op \<Rightarrow> ('a \<Rightarrow> ('s, 'b) op) \<Rightarrow> ('s, 'b) op" where
  "bindM m f = (\<lambda>s. case m s of (Inl e, s') \<Rightarrow> (Inl e, s') | (Inr x, s') \<Rightarrow> f x s')"

definition liftM :: "'a result \<Rightarrow> ('s, 'a) op" where
  "liftM r = (\<lambda>s. (r, s))"

definition getM :: "('s \<Rightarrow> 'a) \<Rightarrow> ('s, 'a) op" where
  "getM f = (\<lambda>s. (Inr (f s), s))"

definition modifyM :: "('s \<Rightarrow> 's) \<Rightarrow> ('s, unit) op" where
  "modifyM f = (\<lambda>s. (Inr (), f s))"

definition assertM :: "bool \<Rightarrow> error_class \<Rightarrow> string \<Rightarrow> ('s, unit) op" where
  "assertM b c m = (if b then returnM () else raiseM c m)"

text \<open>
  \<open>with connection, connection.transaction()\<close>: an exception that leaves the block rolls
  every statement of the block back.
\<close>

definition transactionM :: "('s, 'a) op \<Rightarrow> ('s, 'a) op" where
  "transactionM m = (\<lambda>s. case m s of (Inl e, _) \<Rightarrow> (Inl e, s) | (Inr x, s') \<Rightarrow> (Inr x, s'))"

text \<open>\<open>try: m except Exception as error: h(error); raise\<close>, when \<open>h\<close> itself may raise.\<close>

definition onerrorM :: "('s, 'a) op \<Rightarrow> (exn \<Rightarrow> ('s, unit) op) \<Rightarrow> ('s, 'a) op" where
  "onerrorM m h = (\<lambda>s. case m s of
      (Inl e, s') \<Rightarrow> (case h e s' of (Inl e', s'') \<Rightarrow> (Inl e', s'') | (Inr _, s'') \<Rightarrow> (Inl e, s''))
    | (Inr x, s') \<Rightarrow> (Inr x, s'))"

text \<open>\<open>with suppress(Exception): m\<close>.\<close>

definition suppressM :: "('s, 'a) op \<Rightarrow> ('s, unit) op" where
  "suppressM m = (\<lambda>s. (Inr (), snd (m s)))"

text \<open>\<open>try: m finally: h\<close>; an exception of \<open>h\<close> replaces the outcome of \<open>m\<close>.\<close>

definition finallyM :: "('s, 'a) op \<Rightarrow> ('s, unit) op \<Rightarrow> ('s, 'a) op" where
  "finallyM m h = (\<lambda>s. case m s of (r, s') \<Rightarrow>
      (case h s' of (Inl e, s'') \<Rightarrow> (Inl e, s'') | (Inr _, s'') \<Rightarrow> (r, s'')))"

definition is_ok :: "'a result \<times> 's \<Rightarrow> bool" where
  "is_ok r = (case fst r of Inl _ \<Rightarrow> False | Inr _ \<Rightarrow> True)"

fun iterM :: "('a \<Rightarrow> ('s, unit) op) \<Rightarrow> 'a list \<Rightarrow> ('s, unit) op" where
  "iterM f [] = returnM ()"
| "iterM f (x # xs) = bindM (f x) (\<lambda>_. iterM f xs)"

fun mapM :: "('a \<Rightarrow> ('s, 'b) op) \<Rightarrow> 'a list \<Rightarrow> ('s, 'b list) op" where
  "mapM f [] = returnM []"
| "mapM f (x # xs) = bindM (f x) (\<lambda>y. bindM (mapM f xs) (\<lambda>ys. returnM (y # ys)))"

section \<open>SQL tables\<close>

text \<open>
  A table is the list of its rows in insertion order, each with its primary key.
  \<open>insert_row\<close> is \<open>INSERT\<close> under a primary-key constraint, \<open>update_rows\<close> is
  \<open>UPDATE ... WHERE\<close> and \<open>matching\<close> the number of rows such a statement touches
  (\<open>cursor.rowcount\<close>).
\<close>

type_synonym ('k, 'r) table = "('k \<times> 'r) list"

definition insert_row :: "string \<Rightarrow> 'k \<Rightarrow> 'r \<Rightarrow> ('k, 'r) table \<Rightarrow> ('k, 'r) table result" where
  "insert_row constraint k r t =
     (if map_of t k = None then Inr (t @ [(k, r)])
      else Inl (Exn (UniqueViolation constraint) ''duplicate key value violates unique constraint''))"

definition update_rows :: "('k \<Rightarrow> 'r \<Rightarrow> bool) \<Rightarrow> ('r \<Rightarrow> 'r) \<Rightarrow> ('k, 'r) table \<Rightarrow> ('k, 'r) table" where
  "update_rows p f t = map (\<lambda>(k, r). (k, if p k r then f r else r)) t"

definition matching :: "('k \<Rightarrow> 'r \<Rightarrow> bool) \<Rightarrow> ('k, 'r) table \<Rightarrow> nat" where
  "matching p t = length (filter (\<lambda>(k, r). p k r) t)"

text \<open>\<open>UPDATE ... RETURNING\<close> followed by \<open>fetchone()\<close>: the first row the statement matches.\<close>

definition first_match :: "('k \<Rightarrow> 'r \<Rightarrow> bool) \<Rightarrow> ('k, 'r) table \<Rightarrow> 'r option" where
  "first_match p t = (case filter (\<lambda>(k, r). p k r) t of [] \<Rightarrow> None | (_, r) # _ \<Rightarrow> Some r)"

definition pk_ok :: "('k, 'r) table \<Rightarrow> bool" where
  "pk_ok t = distinct (map fst t)"

section \<open>Laws of the effect combinators\<close>

lemma returnM_apply [simp, exec_simps]: "returnM x s = (Inr x, s)"
  by (simp add: returnM_def)

lemma raiseM_apply [simp, exec_simps]: "raiseM c m s = (Inl (Exn c m), s)"
  by (simp add: raiseM_def)

lemma liftM_apply [simp, exec_simps]: "liftM r s = (r, s)"
  by (simp add: liftM_def)

lemma getM_apply [simp, exec_simps]: "getM f s = (Inr (f s), s)"
  by (simp add: getM_def)

lemma modifyM_apply [simp, exec_simps]: "modifyM f s = (Inr (), f s)"
  by (simp add: modifyM_def)

lemma assertM_apply [exec_simps]:
  "assertM b c m s = (if b then (Inr (), s) else (Inl (Exn c m), s))"
  by (simp add: assertM_def)

lemma bindM_Inl [simp]: "m s = (Inl e, s') \<Longrightarrow> bindM m f s = (Inl e, s')"
  by (simp add: bindM_def)

lemma bindM_Inr [simp]: "m s = (Inr x, s') \<Longrightarrow> bindM m f s = f x s'"
  by (simp add: bindM_def)

lemma bindM_return [simp]: "bindM (returnM x) f = f x"
  by (rule ext) simp

lemma bindM_ok:
  "bindM m f s = (Inr y, s'') \<longleftrightarrow> (\<exists>x s'. m s = (Inr x, s') \<and> f x s' = (Inr y, s''))"
  by (auto simp: bindM_def split: prod.splits sum.splits)

lemma bindM_err:
  "bindM m f s = (Inl e, s'') \<longleftrightarrow>
     m s = (Inl e, s'') \<or> (\<exists>x s'. m s = (Inr x, s') \<and> f x s' = (Inl e, s''))"
  by (auto simp: bindM_def split: prod.splits sum.splits)

lemma assertM_ok [simp]: "assertM b c m s = (Inr u, s') \<longleftrightarrow> b \<and> s' = s"
  by (auto simp: assertM_apply)

lemma assertM_err [simp]: "assertM b c m s = (Inl e, s') \<longleftrightarrow> \<not> b \<and> e = Exn c m \<and> s' = s"
  by (auto simp: assertM_apply)

lemma transactionM_ok:
  "transactionM m s = (Inr x, s') \<longleftrightarrow> m s = (Inr x, s')"
  by (auto simp: transactionM_def split: prod.splits sum.splits)

lemma transactionM_err:
  "transactionM m s = (Inl e, s') \<longleftrightarrow> s' = s \<and> (\<exists>t. m s = (Inl e, t))"
  by (auto simp: transactionM_def split: prod.splits sum.splits)

text \<open>Atomicity: a transaction that raises leaves the state as it found it.\<close>

lemma transactionM_rollback: "fst (transactionM m s) = Inl e \<Longrightarrow> snd (transactionM m s) = s"
  by (auto simp: transactionM_def split: prod.splits sum.splits)

lemma suppressM_apply [simp]: "suppressM m s = (Inr (), snd (m s))"
  by (simp add: suppressM_def)

lemma onerrorM_ok: "onerrorM m h s = (Inr x, s') \<longleftrightarrow> m s = (Inr x, s')"
  by (auto simp: onerrorM_def split: prod.splits sum.splits)

lemma finallyM_ok:
  "finallyM m h s = (Inr x, s'') \<longleftrightarrow> (\<exists>s' u. m s = (Inr x, s') \<and> h s' = (Inr u, s''))"
  by (auto simp: finallyM_def split: prod.splits sum.splits)

section \<open>Operations that leave a part of the state alone\<close>

definition keeps :: "('s \<Rightarrow> 'v) \<Rightarrow> ('s, 'a) op \<Rightarrow> bool" where
  "keeps g m \<longleftrightarrow> (\<forall>s. g (snd (m s)) = g s)"

lemma keepsD: "keeps g m \<Longrightarrow> m s = (x, s') \<Longrightarrow> g s' = g s"
  by (metis keeps_def snd_conv)

lemma keeps_basic [keeps_intros]:
  "keeps g (returnM x)" "keeps g (raiseM c msg)" "keeps g (liftM r)" "keeps g (getM f)" "keeps g (assertM b c msg)"
  by (simp_all add: keeps_def assertM_apply)

lemma keeps_modifyM [keeps_intros]: "(\<And>s. g (f s) = g s) \<Longrightarrow> keeps g (modifyM f)"
  by (simp add: keeps_def)

lemma keeps_bindM [keeps_intros]: "keeps g m \<Longrightarrow> (\<And>x. keeps g (f x)) \<Longrightarrow> keeps g (bindM m f)"
  by (auto simp: keeps_def bindM_def split: prod.splits sum.splits) (metis snd_conv)+

lemma keeps_transactionM [keeps_intros]: "keeps g m \<Longrightarrow> keeps g (transactionM m)"
  by (auto simp: keeps_def transactionM_def split: prod.splits sum.splits) (metis snd_conv)

lemma keeps_finallyM [keeps_intros]: "keeps g m \<Longrightarrow> keeps g h \<Longrightarrow> keeps g (finallyM m h)"
  by (auto simp: keeps_def finallyM_def split: prod.splits sum.splits) (metis snd_conv)+

lemma keeps_suppressM [keeps_intros]: "keeps g m \<Longrightarrow> keeps g (suppressM m)"
  by (simp add: keeps_def)

lemma keeps_onerrorM [keeps_intros]: "keeps g m \<Longrightarrow> (\<And>e. keeps g (h e)) \<Longrightarrow> keeps g (onerrorM m h)"
  by (auto simp: keeps_def onerrorM_def split: prod.splits sum.splits) (metis snd_conv)+

lemma keeps_if [keeps_intros]: "(b \<Longrightarrow> keeps g m) \<Longrightarrow> (\<not> b \<Longrightarrow> keeps g n) \<Longrightarrow> keeps g (if b then m else n)"
  by simp

lemma keeps_option [keeps_intros]:
  "(x = None \<Longrightarrow> keeps g m) \<Longrightarrow> (\<And>y. x = Some y \<Longrightarrow> keeps g (f y)) \<Longrightarrow>
     keeps g (case x of None \<Rightarrow> m | Some y \<Rightarrow> f y)"
  by (cases x) auto

lemma keeps_iterM [keeps_intros]: "(\<And>x. keeps g (f x)) \<Longrightarrow> keeps g (iterM f xs)"
  by (induction xs) (auto intro!: keeps_intros)

lemma keeps_mapM [keeps_intros]: "(\<And>x. keeps g (f x)) \<Longrightarrow> keeps g (mapM f xs)"
  by (induction xs) (auto intro!: keeps_intros)

section \<open>Laws of the tables\<close>

lemma map_of_append_new [simp, table_simps]:
  "([k \<mapsto> r] ++ map_of t) x = (case map_of t x of Some v \<Rightarrow> Some v | None \<Rightarrow> if x = k then Some r else None)"
  by (auto simp: map_add_def split: option.splits)

lemma insert_row_ok:
  "insert_row c k r t = Inr t' \<longleftrightarrow> map_of t k = None \<and> t' = t @ [(k, r)]"
  by (auto simp: insert_row_def)

lemma map_of_update_rows [table_simps]:
  "map_of (update_rows p f t) k = map_option (\<lambda>r. if p k r then f r else r) (map_of t k)"
  by (induction t) (auto simp: update_rows_def)

lemma fst_update_rows [table_simps]: "map fst (update_rows p f t) = map fst t"
  by (induction t) (auto simp: update_rows_def)

lemma pk_ok_update_rows [simp]: "pk_ok (update_rows p f t) = pk_ok t"
  by (simp add: pk_ok_def fst_update_rows)

lemma pk_ok_insert_row: "pk_ok t \<Longrightarrow> insert_row c k r t = Inr t' \<Longrightarrow> pk_ok t'"
  by (auto simp: pk_ok_def insert_row_ok map_of_eq_None_iff)

lemma matching_Nil [simp]: "matching p [] = 0"
  by (simp add: matching_def)

lemma matching_Cons [simp]: "matching p ((k, r) # t) = (if p k r then Suc (matching p t) else matching p t)"
  by (simp add: matching_def)

lemma matching_0: "matching p t = 0 \<longleftrightarrow> (\<forall>(k, r) \<in> set t. \<not> p k r)"
  by (auto simp: matching_def filter_empty_conv)

lemma update_rows_none: "matching p t = 0 \<Longrightarrow> update_rows p f t = t"
  by (induction t) (auto simp: update_rows_def split: if_splits)

text \<open>
  A \<open>WHERE\<close> clause that fixes the primary key touches one row exactly when that row exists
  and satisfies the rest of the clause.
\<close>

lemma matching_pk:
  assumes "pk_ok t" and "\<And>k r. p k r \<Longrightarrow> k = x"
  shows "matching p t = (case map_of t x of Some r \<Rightarrow> if p x r then 1 else 0 | None \<Rightarrow> 0)"
  using assms
proof (induction t)
  case Nil
  then show ?case by simp
next
  case (Cons a t)
  obtain k r where a: "a = (k, r)" by (cases a)
  have tail: "matching p t = (case map_of t x of Some r \<Rightarrow> if p x r then 1 else 0 | None \<Rightarrow> 0)"
    using Cons by (simp add: pk_ok_def)
  show ?case
  proof (cases "k = x")
    case True
    with Cons.prems(1) a have "map_of t x = None"
      by (auto simp: pk_ok_def map_of_eq_None_iff)
    with tail a True show ?thesis by simp
  next
    case False
    with Cons.prems(2) a tail show ?thesis by auto
  qed
qed

lemma matching_pk_1:
  assumes "pk_ok t" and "\<And>k r. p k r \<Longrightarrow> k = x"
  shows "matching p t = 1 \<longleftrightarrow> (\<exists>r. map_of t x = Some r \<and> p x r)"
  by (subst matching_pk [OF assms]) (auto split: option.splits)

lemma first_match_Nil [simp]: "first_match p [] = None"
  by (simp add: first_match_def)

lemma first_match_Cons [simp]:
  "first_match p ((k, r) # t) = (if p k r then Some r else first_match p t)"
  by (simp add: first_match_def)

lemma first_match_pk:
  assumes "pk_ok t" and "\<And>k r. p k r \<Longrightarrow> k = x"
  shows "first_match p t = (case map_of t x of Some r \<Rightarrow> if p x r then Some r else None | None \<Rightarrow> None)"
  using assms
proof (induction t)
  case Nil
  then show ?case by simp
next
  case (Cons a t)
  obtain k r where a: "a = (k, r)" by (cases a)
  have tail: "first_match p t = (case map_of t x of Some r \<Rightarrow> if p x r then Some r else None | None \<Rightarrow> None)"
    using Cons by (simp add: pk_ok_def)
  show ?case
  proof (cases "k = x")
    case True
    with Cons.prems(1) a have "map_of t x = None"
      by (auto simp: pk_ok_def map_of_eq_None_iff)
    with tail a True show ?thesis by simp
  next
    case False
    with Cons.prems(2) a tail show ?thesis by auto
  qed
qed

lemma first_match_SomeD: "first_match p t = Some r \<Longrightarrow> \<exists>k. (k, r) \<in> set t \<and> p k r"
  by (induction t) (auto split: if_splits)

lemma matching_ge_1: "map_of t x = Some r \<Longrightarrow> p x r \<Longrightarrow> matching p t \<noteq> 0"
  by (auto simp: matching_0 dest: map_of_SomeD)

lemma map_of_update_rows_other:
  "(\<And>r. \<not> p k r) \<Longrightarrow> map_of (update_rows p f t) k = map_of t k"
  by (cases "map_of t k") (auto simp: map_of_update_rows)

end
