(* ===== verification/Pytime.thy ===== *)
theory Pytime
  imports Prelude
begin

text \<open>
  The part of Python's \<open>datetime\<close>, \<open>uuid\<close> and \<open>str\<close> the pipeline's identifiers rest on:
  the proleptic Gregorian calendar, ISO-8601 and \<open>strftime\<close> printing, ISO-8601 reading,
  fixed-width and plain decimal numerals, \<open>str.strip\<close> and \<open>str.rpartition\<close>.
  Strings are lists of code points below 256; years range over 1000..9999, where
  \<open>strftime\<close> prints four digits.
\<close>

section \<open>Decimal numerals\<close>

definition digit :: "nat \<Rightarrow> char" where
  "digit n = char_of (48 + n mod 10)"

definition digit_value :: "char \<Rightarrow> nat option" where
  "digit_value c = (let k = (of_char c :: nat) in if 48 \<le> k \<and> k \<le> 57 then Some (k - 48) else None)"

fun pad :: "nat \<Rightarrow> nat \<Rightarrow> string" where
  "pad 0 n = []"
| "pad (Suc w) n = pad w (n div 10) @ [digit n]"

fun read_digits :: "nat \<Rightarrow> string \<Rightarrow> nat option" where
  "read_digits acc [] = Some acc"
| "read_digits acc (c # cs) = (case digit_value c of None \<Rightarrow> None | Some d \<Rightarrow> read_digits (10 * acc + d) cs)"

fun show_nat :: "nat \<Rightarrow> string" where
  "show_nat n = (if n < 10 then [digit n] else show_nat (n div 10) @ [digit n])"

declare show_nat.simps [simp del]

definition show_int :: "int \<Rightarrow> string" where
  "show_int i = (if i < 0 then CHR ''-'' # show_nat (nat (- i)) else show_nat (nat i))"

definition hex_digit :: "nat \<Rightarrow> char" where
  "hex_digit n = (let k = n mod 16 in if k < 10 then char_of (48 + k) else char_of (87 + k))"

fun hex :: "nat \<Rightarrow> nat \<Rightarrow> string" where
  "hex 0 n = []"
| "hex (Suc w) n = hex w (n div 16) @ [hex_digit n]"

text \<open>\<open>str(uuid)\<close>: 8-4-4-4-12 hexadecimal digits.\<close>

definition uuid_str :: "uuid \<Rightarrow> string" where
  "uuid_str u = (let h = hex 32 u in
     take 8 h @ ''-'' @ take 4 (drop 8 h) @ ''-'' @ take 4 (drop 12 h) @ ''-'' @
     take 4 (drop 16 h) @ ''-'' @ drop 20 h)"

section \<open>Strings\<close>

definition is_space :: "char \<Rightarrow> bool" where
  "is_space c = (let k = (of_char c :: nat) in k \<in> {9, 10, 11, 12, 13, 28, 29, 30, 31, 32, 133, 160})"

text \<open>\<open>not s.strip()\<close>.\<close>

definition blank :: "string \<Rightarrow> bool" where
  "blank s = list_all is_space s"

definition starts_with :: "string \<Rightarrow> string \<Rightarrow> bool" where
  "starts_with p s = (take (length p) s = p)"

definition ends_with :: "string \<Rightarrow> string \<Rightarrow> bool" where
  "ends_with p s = (length p \<le> length s \<and> drop (length s - length p) s = p)"

text \<open>
  \<open>s.rpartition("__")\<close>: the text before and after the last occurrence of the separator;
  \<open>None\<close> when there is none.
\<close>

fun rpartition2 :: "string \<Rightarrow> (string \<times> string) option" where
  "rpartition2 [] = None"
| "rpartition2 (c # cs) = (case rpartition2 cs of
      Some (h, t) \<Rightarrow> Some (c # h, t)
    | None \<Rightarrow> if c = CHR ''_'' \<and> starts_with ''_'' cs then Some ([], drop 1 cs) else None)"

section \<open>The calendar\<close>

definition day_us :: int where "day_us = 86400 * 1000000"

definition is_leap :: "nat \<Rightarrow> bool" where
  "is_leap y = (y mod 4 = 0 \<and> (y mod 100 \<noteq> 0 \<or> y mod 400 = 0))"

definition days_before_year :: "nat \<Rightarrow> nat" where
  "days_before_year y = (let y' = y - 1 in y' * 365 + y' div 4 - y' div 100 + y' div 400)"

definition month_offset :: "nat \<Rightarrow> nat" where
  "month_offset m = [0, 0, 31, 59, 90, 120, 151, 181, 212, 243, 273, 304, 334] ! m"

definition days_before_month :: "bool \<Rightarrow> nat \<Rightarrow> nat" where
  "days_before_month leap m = month_offset m + (if m > 2 \<and> leap then 1 else 0)"

definition days_in_month :: "bool \<Rightarrow> nat \<Rightarrow> nat" where
  "days_in_month leap m =
     (if m = 2 then (if leap then 29 else 28) else if m \<in> {4, 6, 9, 11} then 30 else 31)"

definition ymd2ord :: "nat \<times> nat \<times> nat \<Rightarrow> nat" where
  "ymd2ord = (\<lambda>(y, m, d). days_before_year y + days_before_month (is_leap y) m + d)"

text \<open>Month and day of the zero-based day \<open>n\<close> of a year.\<close>

definition month_day :: "bool \<Rightarrow> nat \<Rightarrow> nat \<times> nat" where
  "month_day leap n =
     (let m = (n + 50) div 32;
          p = days_before_month leap m
      in if p > n then (m - 1, n - days_before_month leap (m - 1) + 1) else (m, n - p + 1))"

definition ord2ymd :: "nat \<Rightarrow> nat \<times> nat \<times> nat" where
  "ord2ymd ordinal =
     (let n = ordinal - 1;
          n400 = n div 146097; n = n mod 146097;
          n100 = n div 36524; n = n mod 36524;
          n4 = n div 1461; n = n mod 1461;
          n1 = n div 365; n = n mod 365;
          year = n400 * 400 + 1 + n100 * 100 + n4 * 4 + n1
      in if n1 = 4 \<or> n100 = 4 then (year - 1, 12, 31)
         else (year, month_day (n1 = 3 \<and> (n4 \<noteq> 24 \<or> n100 = 3)) n))"

section \<open>Printing and reading instants\<close>

record civil =
  year :: nat
  month :: nat
  day :: nat
  hour :: nat
  minute :: nat
  second :: nat
  micro :: nat

definition civil_of :: "time \<Rightarrow> civil" where
  "civil_of t =
     (let (y, m, d) = ord2ymd (nat (t div day_us) + 1);
          r = nat (t mod day_us);
          s = r div 1000000
      in \<lparr>year = y, month = m, day = d, hour = s div 3600, minute = s div 60 mod 60,
          second = s mod 60, micro = r mod 1000000\<rparr>)"

definition time_of :: "civil \<Rightarrow> time" where
  "time_of c = int (ymd2ord (year c, month c, day c) - 1) * day_us
     + int (((hour c * 60 + minute c) * 60 + second c) * 1000000 + micro c)"

definition valid_civil :: "civil \<Rightarrow> bool" where
  "valid_civil c \<longleftrightarrow> 1 \<le> year c \<and> year c \<le> 9999 \<and> 1 \<le> month c \<and> month c \<le> 12 \<and>
     1 \<le> day c \<and> day c \<le> days_in_month (is_leap (year c)) (month c) \<and>
     hour c < 24 \<and> minute c < 60 \<and> second c < 60 \<and> micro c < 1000000"

text \<open>\<open>t.isoformat()\<close> of a UTC \<open>datetime\<close>.\<close>

definition isoformat :: "time \<Rightarrow> string" where
  "isoformat t = (let c = civil_of t in
     pad 4 (year c) @ ''-'' @ pad 2 (month c) @ ''-'' @ pad 2 (day c) @ ''T'' @
     pad 2 (hour c) @ '':'' @ pad 2 (minute c) @ '':'' @ pad 2 (second c) @
     (if micro c = 0 then [] else ''.'' @ pad 6 (micro c)) @ ''+00:00'')"

text \<open>\<open>t.date().isoformat()\<close> and \<open>f"{t:%Y%m%dT%H%M%SZ}"\<close>.\<close>

definition date_isoformat :: "time \<Rightarrow> string" where
  "date_isoformat t = (let c = civil_of t in pad 4 (year c) @ ''-'' @ pad 2 (month c) @ ''-'' @ pad 2 (day c))"

definition compact_utc :: "time \<Rightarrow> string" where
  "compact_utc t = (let c = civil_of t in
     pad 4 (year c) @ pad 2 (month c) @ pad 2 (day c) @ ''T'' @
     pad 2 (hour c) @ pad 2 (minute c) @ pad 2 (second c) @ ''Z'')"

definition expect :: "string \<Rightarrow> string \<Rightarrow> string option" where
  "expect p s = (if starts_with p s then Some (drop (length p) s) else None)"

definition number :: "nat \<Rightarrow> string \<Rightarrow> (nat \<times> string) option" where
  "number w s = (if length s < w then None
     else map_option (\<lambda>n. (n, drop w s)) (read_digits 0 (take w s)))"

definition read_offset :: "string \<Rightarrow> int option option" where
  "read_offset s =
     (if s = [] then Some None
      else if s = ''Z'' then Some (Some 0)
      else case s of c # s' \<Rightarrow>
        (if c \<noteq> CHR ''+'' \<and> c \<noteq> CHR ''-'' then None
         else Option.bind (number 2 s') (\<lambda>(h, s1).
           Option.bind (expect '':'' s1) (\<lambda>s2. Option.bind (number 2 s2) (\<lambda>(m, s3).
             if s3 = [] \<and> h < 24 \<and> m < 60
             then Some (Some ((if c = CHR ''-'' then -1 else 1) * int (h * 60 + m) * 60000000))
             else None)))))"

text \<open>
  \<open>datetime.fromisoformat(s)\<close> on the extended form \<open>YYYY-MM-DDTHH:MM:SS[.ffffff][offset]\<close>,
  the one the pipeline's metadata is written in; \<open>None\<close> stands for \<open>ValueError\<close>.
  The instant of an aware value is normalized to UTC.
\<close>

definition fromisoformat :: "string \<Rightarrow> datetime option" where
  "fromisoformat s =
     Option.bind (number 4 s) (\<lambda>(y, s). Option.bind (expect ''-'' s) (\<lambda>s.
     Option.bind (number 2 s) (\<lambda>(m, s). Option.bind (expect ''-'' s) (\<lambda>s.
     Option.bind (number 2 s) (\<lambda>(d, s). Option.bind (expect ''T'' s) (\<lambda>s.
     Option.bind (number 2 s) (\<lambda>(h, s). Option.bind (expect '':'' s) (\<lambda>s.
     Option.bind (number 2 s) (\<lambda>(mi, s). Option.bind (expect '':'' s) (\<lambda>s.
     Option.bind (number 2 s) (\<lambda>(se, s).
     Option.bind (if starts_with ''.'' s then number 6 (drop 1 s) else Some (0, s)) (\<lambda>(us, s).
     Option.bind (read_offset s) (\<lambda>off.
       let c = \<lparr>year = y, month = m, day = d, hour = h, minute = mi, second = se, micro = us\<rparr>
       in if valid_civil c
          then Some \<lparr>instant = time_of c - (case off of None \<Rightarrow> 0 | Some o' \<Rightarrow> o'), utcoffset = off\<rparr>
          else None)))))))))))))"

definition supported_time :: "time \<Rightarrow> bool" where
  "supported_time t \<longleftrightarrow> 0 \<le> t \<and> t < 3652059 * day_us"

section \<open>Numerals: lemmas\<close>

lemma digit_value_digit [simp]: "digit_value (digit n) = Some (n mod 10)"
proof -
  have "n mod 10 < 10" by simp
  then have "(48 + n mod 10) mod 256 = 48 + n mod 10" and "48 + n mod 10 \<le> 57" by simp_all
  then show ?thesis by (simp add: digit_def digit_value_def Let_def)
qed

lemma length_pad [simp]: "length (pad w n) = w"
  by (induction w arbitrary: n) auto

lemma read_digits_append:
  "read_digits acc (xs @ ys) = Option.bind (read_digits acc xs) (\<lambda>a. read_digits a ys)"
  by (induction acc xs rule: read_digits.induct) (auto split: option.splits)

lemma read_digits_pad: "n < 10 ^ w \<Longrightarrow> read_digits 0 (pad w n) = Some n"
proof (induction w arbitrary: n)
  case 0
  then show ?case by simp
next
  case (Suc w)
  from Suc.prems have "n div 10 < 10 ^ w" by (simp add: less_mult_imp_div_less mult.commute)
  from Suc.IH [OF this] show ?case by (simp add: read_digits_append)
qed

lemma number_pad [simp]: "n < 10 ^ w \<Longrightarrow> number w (pad w n @ s) = Some (n, s)"
  by (simp add: number_def read_digits_pad)

lemma pad_inject: "n < 10 ^ w \<Longrightarrow> m < 10 ^ w \<Longrightarrow> pad w n = pad w m \<longleftrightarrow> n = m"
  by (metis option.inject read_digits_pad)

lemma starts_with_self [simp]: "starts_with p (p @ s)"
  by (simp add: starts_with_def)

lemma expect_self [simp]: "expect p (p @ s) = Some s"
  by (simp add: expect_def)

lemma expect_Cons [simp]: "expect [c] (c # s) = Some s"
  by (simp add: expect_def starts_with_def)

section \<open>Calendar: lemmas\<close>

text \<open>Month and day of a day of the year are in range and add up to it.\<close>

definition month_day_ok :: "bool \<Rightarrow> nat \<Rightarrow> bool" where
  "month_day_ok leap n = (case month_day leap n of (m, d) \<Rightarrow>
     1 \<le> m \<and> m \<le> 12 \<and> 1 \<le> d \<and> d \<le> days_in_month leap m \<and> days_before_month leap m + d = n + 1)"

lemma month_day_ok:
  assumes "n < (if leap then 366 else 365)"
  shows "month_day_ok leap n"
proof -
  define m where "m = (n + 50) div 32"
  have n: "32 * m \<le> n + 50" "n + 50 < 32 * m + 32"
    unfolding m_def by auto
  with assms have "1 \<le> m" "m \<le> 12"
    by (auto split: if_splits)
  then have "m \<in> {1, 2, 3, 4, 5, 6, 7, 8, 9, 10, 11, 12}"
    unfolding insert_iff empty_iff by presburger
  with n assms show ?thesis
    unfolding month_day_ok_def month_day_def m_def [symmetric]
    by (cases leap) (elim insertE emptyE;
        auto simp: days_before_month_def month_offset_def days_in_month_def)+
qed

lemma year_split:
  fixes n :: nat
  defines "a \<equiv> n div 146097" and "b \<equiv> n mod 146097 div 36524"
    and "c \<equiv> n mod 146097 mod 36524 div 1461" and "d \<equiv> n mod 146097 mod 36524 mod 1461 div 365"
    and "r \<equiv> n mod 146097 mod 36524 mod 1461 mod 365"
  shows "n = a * 146097 + b * 36524 + c * 1461 + d * 365 + r"
    and "b \<le> 4" and "c \<le> 24" and "d \<le> 4" and "r < 365"
    and "b = 4 \<Longrightarrow> c = 0 \<and> d = 0 \<and> r = 0"
    and "d = 4 \<Longrightarrow> r = 0" and "d = 4 \<Longrightarrow> c \<noteq> 24"
proof -
  define n1 n2 n3 where "n1 = n mod 146097" and "n2 = n1 mod 36524" and "n3 = n2 mod 1461"
  note defs = a_def b_def c_def d_def r_def n1_def n2_def n3_def
  have 0: "n = a * 146097 + n1" "n1 < 146097" "n1 = b * 36524 + n2" "n2 < 36524"
    "n2 = c * 1461 + n3" "n3 < 1461" "n3 = d * 365 + r" "r < 365"
    unfolding defs by simp_all
  show "n = a * 146097 + b * 36524 + c * 1461 + d * 365 + r" using 0 by linarith
  show "b \<le> 4" "c \<le> 24" "d \<le> 4" "r < 365" using 0 by linarith+
  show "c = 0 \<and> d = 0 \<and> r = 0" if "b = 4" using 0 that by linarith
  show "r = 0" if "d = 4" using 0 that by linarith
  show "c \<noteq> 24" if "d = 4" using 0 that by linarith
qed

lemma days_before_year_split:
  assumes "b \<le> 3" "c \<le> 24" "d \<le> 3"
  shows "days_before_year (a * 400 + 1 + b * 100 + c * 4 + d) = a * 146097 + b * 36524 + c * 1461 + d * 365"
proof -
  let ?y = "a * 400 + b * 100 + c * 4 + d"
  have "?y div 4 = a * 100 + b * 25 + c"
    using assms by (intro div_nat_eqI) auto
  moreover have "?y div 100 = a * 4 + b"
    using assms by (intro div_nat_eqI) auto
  moreover have "?y div 400 = a"
    using assms by (intro div_nat_eqI) auto
  ultimately show ?thesis by (simp add: days_before_year_def Let_def)
qed

lemma mod_eq_0_at_top:
  fixes x k :: nat
  assumes "0 < x" "x \<le> k"
  shows "x mod k = 0 \<longleftrightarrow> x = k"
  using assms by (cases "x = k") auto

lemma is_leap_split:
  assumes "b \<le> 3" "c \<le> 24" "d \<le> 3"
  shows "is_leap (a * 400 + 1 + b * 100 + c * 4 + d) \<longleftrightarrow> d = 3 \<and> (c \<noteq> 24 \<or> b = 3)"
proof -
  let ?y = "a * 400 + 1 + b * 100 + c * 4 + d"
  have "?y = (1 + d) + (a * 100 + b * 25 + c) * 4" by simp
  then have 4: "?y mod 4 = (1 + d) mod 4" by (simp only: mod_mult_self1)
  have "?y = (1 + c * 4 + d) + (a * 4 + b) * 100" by simp
  then have 100: "?y mod 100 = (1 + c * 4 + d) mod 100" by (simp only: mod_mult_self1)
  have "?y = (1 + b * 100 + c * 4 + d) + a * 400" by simp
  then have 400: "?y mod 400 = (1 + b * 100 + c * 4 + d) mod 400" by (simp only: mod_mult_self1)
  have "(1 + d) mod 4 = 0 \<longleftrightarrow> 1 + d = 4"
    by (rule mod_eq_0_at_top) (use assms in linarith)+
  moreover have "(1 + c * 4 + d) mod 100 = 0 \<longleftrightarrow> 1 + c * 4 + d = 100"
    by (rule mod_eq_0_at_top) (use assms in linarith)+
  moreover have "(1 + b * 100 + c * 4 + d) mod 400 = 0 \<longleftrightarrow> 1 + b * 100 + c * 4 + d = 400"
    by (rule mod_eq_0_at_top) (use assms in linarith)+
  moreover have "1 + c * 4 + d = 100 \<longleftrightarrow> c = 24 \<and> d = 3"
    and "1 + b * 100 + c * 4 + d = 400 \<longleftrightarrow> b = 3 \<and> c = 24 \<and> d = 3"
    using assms by linarith+
  ultimately show ?thesis unfolding is_leap_def 4 100 400 by auto
qed

lemma ord2ymd_ok:
  assumes "1 \<le> k" and "ord2ymd k = (y, m, d)"
  shows "ymd2ord (y, m, d) = k \<and> 1 \<le> m \<and> m \<le> 12 \<and> 1 \<le> d \<and> d \<le> days_in_month (is_leap y) m
    \<and> 1 \<le> y \<and> (k \<le> 3652059 \<longrightarrow> y \<le> 9999)"
proof -
  define n where "n = k - 1"
  define n1 n2 n3 where "n1 = n mod 146097" and "n2 = n1 mod 36524" and "n3 = n2 mod 1461"
  define a b c e r where "a = n div 146097" and "b = n1 div 36524" and "c = n2 div 1461"
    and "e = n3 div 365" and "r = n3 mod 365"
  note defs = a_def b_def c_def e_def r_def n1_def n2_def n3_def
  note split = year_split [of n, folded n1_def n2_def n3_def a_def b_def c_def e_def r_def]
  have k: "k = n + 1" using assms(1) by (simp add: n_def)
  let ?y = "a * 400 + 1 + b * 100 + c * 4 + e"
  have ymd: "ord2ymd k = (if e = 4 \<or> b = 4 then (?y - 1, 12, 31)
      else (?y, month_day (e = 3 \<and> (c \<noteq> 24 \<or> b = 3)) r))"
    unfolding ord2ymd_def Let_def n_def [symmetric] defs by simp
  show ?thesis
  proof (cases "e = 4 \<or> b = 4")
    case True
    then have end_of_year: "y = ?y - 1" "m = 12" "d = 31" using assms(2) ymd by auto
    have r: "r = 0" using True split(6,7) by auto
    have y: "\<exists>b' c'. b' \<le> 3 \<and> c' \<le> 24 \<and> y = a * 400 + 1 + b' * 100 + c' * 4 + 3 \<and>
        (c' \<noteq> 24 \<or> b' = 3) \<and> n = a * 146097 + b' * 36524 + c' * 1461 + 3 * 365 + 365"
    proof (cases "b = 4")
      case True
      with split(1,6) end_of_year r show ?thesis
        by (intro exI [of _ 3] exI [of _ 24]) simp
    next
      case False
      with True have "e = 4" by simp
      with False split(1-3,7,8) end_of_year r show ?thesis
        by (intro exI [of _ b] exI [of _ c]) simp
    qed
    then obtain b' c' where bc: "b' \<le> 3" "c' \<le> 24" "y = a * 400 + 1 + b' * 100 + c' * 4 + 3"
        "c' \<noteq> 24 \<or> b' = 3" "n = a * 146097 + b' * 36524 + c' * 1461 + 3 * 365 + 365" by blast
    have "is_leap y" using is_leap_split [of b' c' 3 a] bc by simp
    moreover have "days_before_year y = a * 146097 + b' * 36524 + c' * 1461 + 3 * 365"
      using days_before_year_split [of b' c' 3 a] bc by simp
    ultimately show ?thesis
      using bc(1,2,3,5) k end_of_year(2,3)
      by (auto simp: ymd2ord_def days_before_month_def month_offset_def days_in_month_def)
  next
    case False
    let ?leap = "e = 3 \<and> (c \<noteq> 24 \<or> b = 3)"
    from False split(2,4) have be: "b \<le> 3" "e \<le> 3" by auto
    from False assms(2) ymd have y: "y = ?y" and md: "month_day ?leap r = (m, d)" by auto
    have leap: "is_leap y = ?leap" using is_leap_split [of b c e a] be split(3) y by simp
    have "month_day_ok ?leap r" using split(5) by (intro month_day_ok) auto
    with md leap have ok: "1 \<le> m" "m \<le> 12" "1 \<le> d" "d \<le> days_in_month (is_leap y) m"
        "days_before_month (is_leap y) m + d = r + 1"
      by (simp_all add: month_day_ok_def)
    moreover have "days_before_year y = a * 146097 + b * 36524 + c * 1461 + e * 365"
      using days_before_year_split [of b c e a] be split(3) y by simp
    ultimately show ?thesis using split(1,3) be k y by (auto simp: ymd2ord_def)
  qed
qed

lemma civil_of_ok:
  assumes "supported_time t"
  shows "valid_civil (civil_of t)" and "time_of (civil_of t) = t"
proof -
  define k where "k = nat (t div day_us) + 1"
  obtain y m d where ymd: "ord2ymd k = (y, m, d)" by (cases "ord2ymd k") auto
  from assms have t: "0 \<le> t" "t < 3652059 * day_us" by (simp_all add: supported_time_def)
  have day: "0 < day_us" by (simp add: day_us_def)
  have "t div day_us < 3652059"
    using t by (simp add: day_us_def)
  then have k: "1 \<le> k" "k \<le> 3652059" by (simp_all add: k_def)
  note ok = ord2ymd_ok [OF k(1) ymd]
  define r where "r = nat (t mod day_us)"
  have r: "r < 86400000000" "t = int (k - 1) * day_us + int r"
    using t day by (auto simp: r_def k_def day_us_def pos_imp_zdiv_nonneg_iff nat_less_iff)
  have c: "civil_of t = \<lparr>year = y, month = m, day = d, hour = r div 1000000 div 3600,
      minute = r div 1000000 div 60 mod 60, second = r div 1000000 mod 60, micro = r mod 1000000\<rparr>"
    using ymd by (simp add: civil_of_def k_def r_def Let_def)
  define s where "s = r div 1000000"
  have s: "s < 86400" "r = s * 1000000 + r mod 1000000" using r(1) by (auto simp: s_def)
  have "s div 3600 < 24" using s(1) by simp
  then show "valid_civil (civil_of t)"
    using ok k(2) by (simp add: c valid_civil_def s_def)
  have "s div 3600 = s div 60 div 60" by (simp add: div_mult2_eq)
  then have "((s div 3600 * 60 + s div 60 mod 60) * 60 + s mod 60) * 1000000 + r mod 1000000 = r"
    using s(2) by simp
  then have "time_of (civil_of t) = int (k - 1) * day_us + int r"
    using ok unfolding c time_of_def s_def by simp
  then show "time_of (civil_of t) = t"
    by (simp only: r(2) [symmetric])
qed

lemma civil_bounds:
  assumes "supported_time t"
  shows "year (civil_of t) < 10 ^ 4" "month (civil_of t) < 10 ^ 2" "day (civil_of t) < 10 ^ 2"
    "hour (civil_of t) < 10 ^ 2" "minute (civil_of t) < 10 ^ 2" "second (civil_of t) < 10 ^ 2"
    "micro (civil_of t) < 10 ^ 6"
  using civil_of_ok(1) [OF assms]
  by (auto simp: valid_civil_def days_in_month_def split: if_splits)

lemma read_offset_utc: "read_offset ''+00:00'' = Some (Some 0)"
  by code_simp

lemma read_offset_Z: "read_offset ''Z'' = Some (Some 0)"
  by code_simp

text \<open>Reading back what \<open>isoformat\<close> prints gives the instant, marked as UTC.\<close>

lemma fromisoformat_isoformat:
  assumes "supported_time t"
  shows "fromisoformat (isoformat t) = Some \<lparr>instant = t, utcoffset = Some 0\<rparr>"
proof -
  obtain y mo d h mi se us where c: "civil_of t = \<lparr>year = y, month = mo, day = d, hour = h,
      minute = mi, second = se, micro = us\<rparr>"
    by (cases "civil_of t")
  from civil_bounds [OF assms] civil_of_ok [OF assms] show ?thesis
    unfolding isoformat_def fromisoformat_def c
    by (cases "us = 0") (simp_all add: Let_def starts_with_def read_offset_utc)
qed

lemma compact_utc_inject:
  assumes "supported_time s" "supported_time t" "compact_utc s = compact_utc t"
  shows "s div 1000000 = t div 1000000"
proof -
  obtain y mo d h mi se us where c: "civil_of s = \<lparr>year = y, month = mo, day = d, hour = h,
      minute = mi, second = se, micro = us\<rparr>"
    by (cases "civil_of s")
  obtain y' mo' d' h' mi' se' us' where c': "civil_of t = \<lparr>year = y', month = mo', day = d', hour = h',
      minute = mi', second = se', micro = us'\<rparr>"
    by (cases "civil_of t")
  have "y = y' \<and> mo = mo' \<and> d = d' \<and> h = h' \<and> mi = mi' \<and> se = se'"
    using assms(3) civil_bounds [OF assms(1)] civil_bounds [OF assms(2)]
    unfolding compact_utc_def c c' Let_def
    by (simp add: append_eq_append_conv pad_inject)
  moreover have us: "us < 1000000" "us' < 1000000"
    using civil_bounds(7) [OF assms(1)] civil_bounds(7) [OF assms(2)] c c' by simp_all
  define x where "x = int (ymd2ord (y, mo, d) - 1) * 86400 + int ((h * 60 + mi) * 60 + se)"
  have "s = x * 1000000 + int us"
    using civil_of_ok(2) [OF assms(1)] by (simp add: c time_of_def day_us_def x_def algebra_simps)
  moreover have "t = x * 1000000 + int us'"
    using civil_of_ok(2) [OF assms(2)] calculation
    by (simp add: c' time_of_def day_us_def x_def algebra_simps)
  ultimately show ?thesis using us by simp
qed

lemma length_compact_utc [simp]: "length (compact_utc t) = 16"
  by (simp add: compact_utc_def Let_def)

section \<open>Separators\<close>

lemma digit_not_underscore [simp]: "digit n \<noteq> CHR ''_''"
proof
  assume "digit n = CHR ''_''"
  then have "digit_value (digit n) = digit_value (CHR ''_'')" by simp
  moreover have "digit_value (CHR ''_'') = None" by code_simp
  ultimately show False by simp
qed

lemma pad_no_underscore [simp]: "CHR ''_'' \<notin> set (pad w n)"
  by (induction w arbitrary: n) (auto dest: sym [of "CHR ''_''"])

lemma compact_utc_no_underscore [simp]: "CHR ''_'' \<notin> set (compact_utc t)"
  by (simp add: compact_utc_def Let_def)

lemma rpartition2_None: "CHR ''_'' \<notin> set s \<Longrightarrow> rpartition2 s = None"
  by (induction s) auto

lemma rpartition2_join:
  assumes "CHR ''_'' \<notin> set t"
  shows "rpartition2 (h @ ''__'' @ t) = Some (h, t)"
proof (induction h)
  case Nil
  have "\<not> starts_with ''_'' t" using assms by (cases t) (auto simp: starts_with_def)
  with assms show ?case by (simp add: rpartition2_None starts_with_def)
next
  case (Cons c h)
  then show ?case by simp
qed

section \<open>Evaluation\<close>

text \<open>
  The calendar on integers, which evaluate in binary where a \<open>nat\<close> is unary: code equations
  for the functions above, equal to them.
\<close>

definition year_and_day :: "int \<Rightarrow> int \<times> bool \<times> int" where
  "year_and_day n =
     (let n400 = n div 146097; n = n mod 146097;
          n100 = n div 36524; n = n mod 36524;
          n4 = n div 1461; n = n mod 1461;
          n1 = n div 365; n = n mod 365;
          year = n400 * 400 + 1 + n100 * 100 + n4 * 4 + n1
      in if n1 = 4 \<or> n100 = 4 then (year - 1, False, -1)
         else (year, n1 = 3 \<and> (n4 \<noteq> 24 \<or> n100 = 3), n))"

lemma ord2ymd_int:
  "ord2ymd (Suc k) = (case year_and_day (int k) of (y, leap, n) \<Rightarrow>
     (nat y, if n < 0 then (12, 31) else month_day leap (nat n)))"
proof -
  define a where "a = k mod 146097"
  define b where "b = a mod 36524"
  define c where "c = b mod 1461"
  have i: "int k mod 146097 = int a" "int k div 146097 = int (k div 146097)"
    "int a mod 36524 = int b" "int a div 36524 = int (a div 36524)"
    "int b mod 1461 = int c" "int b div 1461 = int (b div 1461)"
    "int c mod 365 = int (c mod 365)" "int c div 365 = int (c div 365)"
    by (simp_all add: a_def b_def c_def zmod_int zdiv_int)
  have y: "nat (int x * 400 + 1 + int y * 100 + int z * 4 + int w) = x * 400 + 1 + y * 100 + z * 4 + w"
    "nat (int x * 400 + 1 + int y * 100 + int z * 4 + int w - 1) = x * 400 + 1 + y * 100 + z * 4 + w - 1"
    for x y z w by linarith+
  have lit: "int x = 4 \<longleftrightarrow> x = 4" "int x = 3 \<longleftrightarrow> x = 3" "int x = 24 \<longleftrightarrow> x = 24" for x by linarith+
  show ?thesis
    unfolding ord2ymd_def year_and_day_def Let_def i lit
    unfolding a_def [symmetric] b_def [symmetric] c_def [symmetric] diff_Suc_1
    unfolding a_def [symmetric] b_def [symmetric] c_def [symmetric]
    by (simp only: i lit if_distrib [where f = "\<lambda>x. case x of (y, leap, n) \<Rightarrow> _ y leap n"] prod.case y split: if_splits) simp
qed

lemma civil_of_code [code]:
  "civil_of t = (case year_and_day (max 0 (t div day_us)) of (y, leap, n) \<Rightarrow>
     (case (if n < 0 then (12, 31) else month_day leap (nat n)) of (m, d) \<Rightarrow>
       (let r = t mod day_us; s = r div 1000000
        in \<lparr>year = nat y, month = m, day = d, hour = nat (s div 3600), minute = nat (s div 60 mod 60),
            second = nat (s mod 60), micro = nat (r mod 1000000)\<rparr>)))"
proof -
  have k: "int (nat (t div day_us)) = max 0 (t div day_us)" by simp
  have r: "0 \<le> t mod day_us" by (simp add: day_us_def)
  have s: "nat (t mod day_us) div 1000000 = nat (t mod day_us div 1000000)"
      "nat (t mod day_us) mod 1000000 = nat (t mod day_us mod 1000000)"
    using r by (simp_all add: nat_div_distrib nat_mod_distrib)
  have q: "0 \<le> t mod day_us div 1000000" using r by simp
  show ?thesis
    unfolding civil_of_def Suc_eq_plus1 [symmetric] ord2ymd_int k s Let_def
    using q by (simp add: nat_div_distrib nat_mod_distrib split: prod.splits)
qed

lemma is_leap_code [code]:
  "is_leap y = (let i = int y in i mod 4 = 0 \<and> (i mod 100 \<noteq> 0 \<or> i mod 400 = 0))"
proof -
  have "int y mod 4 = 0 \<longleftrightarrow> y mod 4 = 0" "int y mod 100 = 0 \<longleftrightarrow> y mod 100 = 0" "int y mod 400 = 0 \<longleftrightarrow> y mod 400 = 0"
    by presburger+
  then show ?thesis by (auto simp: is_leap_def Let_def)
qed

definition days_before_year_int :: "int \<Rightarrow> int" where
  "days_before_year_int y = (let y' = max 0 (y - 1) in y' * 365 + y' div 4 - y' div 100 + y' div 400)"

lemma days_before_year_int: "int (days_before_year y) = days_before_year_int (int y)"
proof -
  have "max 0 (int y - 1) = int (y - 1)" by simp
  moreover have "(y - 1) div 100 \<le> (y - 1) * 365 + (y - 1) div 4" by (rule order_trans [of _ "y - 1"]) simp_all
  ultimately show ?thesis
    by (simp add: days_before_year_def days_before_year_int_def Let_def zdiv_int of_nat_diff)
qed

lemma time_of_code [code]:
  "time_of c =
     max 0 (days_before_year_int (int (year c)) + int (days_before_month (is_leap (year c)) (month c)) + int (day c) - 1) * day_us
     + (((int (hour c) * 60 + int (minute c)) * 60 + int (second c)) * 1000000 + int (micro c))"
proof -
  have "int (ymd2ord (year c, month c, day c) - 1) = max 0 (int (ymd2ord (year c, month c, day c)) - 1)" by simp
  then show ?thesis
    by (simp add: time_of_def ymd2ord_def days_before_year_int)
qed

lemma valid_civil_code [code]:
  "valid_civil c = (let y = int (year c) in 1 \<le> y \<and> y \<le> 9999 \<and> 1 \<le> month c \<and> month c \<le> 12 \<and>
     1 \<le> day c \<and> day c \<le> days_in_month (is_leap (year c)) (month c) \<and>
     hour c < 24 \<and> minute c < 60 \<and> second c < 60 \<and> int (micro c) < 1000000)"
  by (auto simp: valid_civil_def Let_def)

end
