(* ===== verification/Contract.thy ===== *)
theory Contract
  imports Pytime
begin

text \<open>
  The static contracts of the nine source tables (src/ingestion/contract): Arrow column
  types, \<open>SourceColumn\<close> and \<open>TableConfig\<close> with the checks of its constructor, the table
  registry, the supported Bronze schema versions, the validation rules and the page size.
\<close>

section \<open>Values a source row can hold\<close>

text \<open>
  \<open>VDecimal n k\<close> is \<open>Decimal\<close> \<open>n / 10^k\<close>; \<open>VObject i\<close> is the bare \<open>object()\<close> of
  identity \<open>i\<close>, which matches no column type.
\<close>

datatype pyvalue =
    VNone | VStr string | VInt int | VBool bool | VDecimal int nat | VTime datetime
  | VUuid uuid | VObject nat

datatype arrow_type = ArrowString | ArrowInt32 | ArrowBool | ArrowTimestampUs | ArrowDecimal_14_2

record source_column =
  col_name :: string
  col_type :: arrow_type
  nullable :: bool
  postgres_uuid :: bool

record arrow_field =
  field_name :: string
  field_type :: arrow_type
  field_nullable :: bool

definition column_field :: "source_column \<Rightarrow> arrow_field" where
  "column_field c = \<lparr>field_name = col_name c, field_type = col_type c, field_nullable = nullable c\<rparr>"

record table_config =
  source_table :: string
  primary_key_columns :: "string list"
  cursor_timestamp_column :: string
  cursor_key_columns :: "string list"
  source_columns :: "source_column list"
  status_domains :: "(string \<times> string list) list"
  numeric_minimums :: "(string \<times> int) list"
  append_only :: bool
  schema_version :: int

section \<open>Schema versions\<close>

definition BRONZE_SCHEMA_VERSION :: int where "BRONZE_SCHEMA_VERSION = 3"

definition SUPPORTED_BRONZE_SCHEMA_VERSIONS :: "int list" where
  "SUPPORTED_BRONZE_SCHEMA_VERSIONS = [3]"

definition assert_supported_schema_version :: "int \<Rightarrow> unit result" where
  "assert_supported_schema_version v =
     (if v \<in> set SUPPORTED_BRONZE_SCHEMA_VERSIONS then Inr ()
      else Inl (Exn BronzeSchemaContractError
        (''SOURCE_CONTRACT_ERROR: unsupported schema_version='' @ show_int v)))"

section \<open>Derived columns of a contract\<close>

definition source_column_names :: "table_config \<Rightarrow> string list" where
  "source_column_names c = map col_name (source_columns c)"

definition cursor_columns :: "table_config \<Rightarrow> string list" where
  "cursor_columns c = cursor_timestamp_column c # cursor_key_columns c"

definition source_schema :: "table_config \<Rightarrow> arrow_field list" where
  "source_schema c = map column_field (source_columns c)"

definition technical_fields :: "arrow_field list" where
  "technical_fields = map (\<lambda>(n, t). \<lparr>field_name = n, field_type = t, field_nullable = False\<rparr>)
     [(''_batch_id'', ArrowString), (''_run_id'', ArrowString), (''_ingested_at'', ArrowTimestampUs),
      (''_source_table'', ArrowString), (''_schema_version'', ArrowInt32)]"

definition bronze_schema :: "table_config \<Rightarrow> arrow_field list" where
  "bronze_schema c = source_schema c @ technical_fields"

text \<open>\<open>TableConfig.__post_init__\<close>, check by check.\<close>

definition table_config_check :: "table_config \<Rightarrow> unit result" where
  "table_config_check c =
     (let names = source_column_names c in
      if blank (source_table c) then Inl (Exn ValueError ''source_table must not be empty'')
      else if primary_key_columns c = [] \<or> cursor_key_columns c = [] then
        Inl (Exn ValueError ''primary_key_columns and cursor_key_columns must not be empty'')
      else if primary_key_columns c \<noteq> cursor_key_columns c then
        Inl (Exn ValueError ''Cursor key columns must contain the complete primary key in order'')
      else case assert_supported_schema_version (schema_version c) of
        Inl e \<Rightarrow> Inl e
      | Inr _ \<Rightarrow>
        (if \<not> distinct names then Inl (Exn ValueError ''Source column names must be unique'')
         else if list_ex (\<lambda>n. n \<notin> set names) (cursor_timestamp_column c # primary_key_columns c) then
           Inl (Exn ValueError ''Cursor and primary key columns must exist in source_columns'')
         else if list_ex (\<lambda>n. n \<notin> set names) (map fst (status_domains c) @ map fst (numeric_minimums c)) then
           Inl (Exn ValueError ''Validation columns must exist in source_columns'')
         else Inr ()))"

section \<open>Column shorthands\<close>

definition col :: "arrow_type \<Rightarrow> bool \<Rightarrow> string \<Rightarrow> bool \<Rightarrow> source_column" where
  "col t u n nl = \<lparr>col_name = n, col_type = t, nullable = nl, postgres_uuid = u\<rparr>"

definition col_text :: "string \<Rightarrow> bool \<Rightarrow> source_column" where "col_text = col ArrowString False"
definition col_uuid :: "string \<Rightarrow> bool \<Rightarrow> source_column" where "col_uuid = col ArrowString True"
definition col_integer :: "string \<Rightarrow> bool \<Rightarrow> source_column" where "col_integer = col ArrowInt32 False"
definition col_boolean :: "string \<Rightarrow> bool \<Rightarrow> source_column" where "col_boolean = col ArrowBool False"
definition col_timestamp :: "string \<Rightarrow> bool \<Rightarrow> source_column" where "col_timestamp = col ArrowTimestampUs False"
definition col_decimal :: "string \<Rightarrow> bool \<Rightarrow> source_column" where "col_decimal = col ArrowDecimal_14_2 False"

section \<open>The nine tables\<close>

definition CUSTOMERS_TABLE :: table_config where
  "CUSTOMERS_TABLE = \<lparr>
     source_table = ''customers'',
     primary_key_columns = [''customer_id''],
     cursor_timestamp_column = ''created_at'',
     cursor_key_columns = [''customer_id''],
     source_columns =
      [col_text ''customer_id'' False,
       col_text ''customer_unique_id'' False,
       col_text ''customer_city'' True,
       col_text ''customer_state'' True,
       col_timestamp ''created_at'' False],
     status_domains = [],
     numeric_minimums = [],
     append_only = False,
     schema_version = BRONZE_SCHEMA_VERSION\<rparr>"

definition CUSTOMER_SUBSCRIPTIONS_TABLE :: table_config where
  "CUSTOMER_SUBSCRIPTIONS_TABLE = \<lparr>
     source_table = ''customer_subscriptions'',
     primary_key_columns = [''subscription_id''],
     cursor_timestamp_column = ''updated_at'',
     cursor_key_columns = [''subscription_id''],
     source_columns =
      [col_uuid ''subscription_id'' False,
       col_text ''customer_unique_id'' False,
       col_text ''subscription_status'' False,
       col_boolean ''auto_renew_enabled'' False,
       col_timestamp ''subscription_started_at'' False,
       col_timestamp ''current_period_started_at'' True,
       col_timestamp ''current_period_ends_at'' True,
       col_timestamp ''billing_due_at'' True,
       col_timestamp ''next_payment_attempt_at'' True,
       col_timestamp ''payment_failed_at'' True,
       col_timestamp ''cancel_requested_at'' True,
       col_timestamp ''ended_at'' True,
       col_timestamp ''status_changed_at'' False,
       col_timestamp ''created_at'' False,
       col_timestamp ''updated_at'' False],
     status_domains = [(''subscription_status'', [''ACTIVE'', ''PAYMENT_FAILED'', ''CANCEL_REQUESTED'', ''CHURNED''])],
     numeric_minimums = [],
     append_only = False,
     schema_version = BRONZE_SCHEMA_VERSION\<rparr>"

definition CUSTOMER_MEMBERSHIP_TIERS_TABLE :: table_config where
  "CUSTOMER_MEMBERSHIP_TIERS_TABLE = \<lparr>
     source_table = ''customer_membership_tiers'',
     primary_key_columns = [''customer_unique_id''],
     cursor_timestamp_column = ''updated_at'',
     cursor_key_columns = [''customer_unique_id''],
     source_columns =
      [col_text ''customer_unique_id'' False,
       col_text ''membership_tier'' False,
       col_timestamp ''created_at'' False,
       col_timestamp ''updated_at'' False],
     status_domains = [(''membership_tier'', [''BRONZE'', ''SILVER'', ''GOLD''])],
     numeric_minimums = [],
     append_only = False,
     schema_version = BRONZE_SCHEMA_VERSION\<rparr>"

definition SUBSCRIPTION_PAYMENTS_TABLE :: table_config where
  "SUBSCRIPTION_PAYMENTS_TABLE = \<lparr>
     source_table = ''subscription_payments'',
     primary_key_columns = [''payment_id''],
     cursor_timestamp_column = ''updated_at'',
     cursor_key_columns = [''payment_id''],
     source_columns =
      [col_uuid ''payment_id'' False,
       col_uuid ''subscription_id'' False,
       col_integer ''billing_cycle_sequence'' False,
       col_integer ''attempt_sequence'' False,
       col_text ''payment_status'' False,
       col_timestamp ''payment_at'' False,
       col_decimal ''payment_value'' False,
       col_text ''currency_code'' False,
       col_timestamp ''billing_period_start_at'' False,
       col_timestamp ''billing_period_end_at'' False,
       col_text ''payment_method_type'' True,
       col_text ''payment_provider'' True,
       col_text ''provider_payment_id'' True,
       col_text ''failure_code'' True,
       col_timestamp ''created_at'' False,
       col_timestamp ''updated_at'' False],
     status_domains = [(''payment_status'', [''completed'', ''failed''])],
     numeric_minimums = [(''billing_cycle_sequence'', 1), (''attempt_sequence'', 1), (''payment_value'', 0)],
     append_only = True,
     schema_version = BRONZE_SCHEMA_VERSION\<rparr>"

definition PRODUCTS_TABLE :: table_config where
  "PRODUCTS_TABLE = \<lparr>
     source_table = ''products'',
     primary_key_columns = [''product_id''],
     cursor_timestamp_column = ''updated_at'',
     cursor_key_columns = [''product_id''],
     source_columns =
      [col_text ''product_id'' False,
       col_text ''product_category_name'' True,
       col_integer ''product_weight_g'' True,
       col_integer ''product_length_cm'' True,
       col_integer ''product_height_cm'' True,
       col_integer ''product_width_cm'' True,
       col_timestamp ''created_at'' False,
       col_timestamp ''updated_at'' False],
     status_domains = [],
     numeric_minimums = [],
     append_only = False,
     schema_version = BRONZE_SCHEMA_VERSION\<rparr>"

definition SELLERS_TABLE :: table_config where
  "SELLERS_TABLE = \<lparr>
     source_table = ''sellers'',
     primary_key_columns = [''seller_id''],
     cursor_timestamp_column = ''updated_at'',
     cursor_key_columns = [''seller_id''],
     source_columns =
      [col_text ''seller_id'' False,
       col_text ''seller_city'' True,
       col_text ''seller_state'' True,
       col_timestamp ''created_at'' False,
       col_timestamp ''updated_at'' False],
     status_domains = [],
     numeric_minimums = [],
     append_only = False,
     schema_version = BRONZE_SCHEMA_VERSION\<rparr>"

definition ORDERS_TABLE :: table_config where
  "ORDERS_TABLE = \<lparr>
     source_table = ''orders'',
     primary_key_columns = [''order_id''],
     cursor_timestamp_column = ''updated_at'',
     cursor_key_columns = [''order_id''],
     source_columns =
      [col_text ''order_id'' False,
       col_text ''customer_id'' False,
       col_text ''order_status'' False,
       col_timestamp ''order_purchase_timestamp'' False,
       col_timestamp ''order_approved_at'' True,
       col_timestamp ''order_delivered_carrier_date'' True,
       col_timestamp ''order_delivered_customer_date'' True,
       col_timestamp ''order_estimated_delivery_date'' True,
       col_timestamp ''created_at'' False,
       col_timestamp ''updated_at'' False],
     status_domains = [(''order_status'', [''created'', ''approved'', ''processing'', ''invoiced'', ''shipped'', ''delivered'', ''canceled'', ''unavailable''])],
     numeric_minimums = [],
     append_only = False,
     schema_version = BRONZE_SCHEMA_VERSION\<rparr>"

definition ORDER_ITEMS_TABLE :: table_config where
  "ORDER_ITEMS_TABLE = \<lparr>
     source_table = ''order_items'',
     primary_key_columns = [''order_id'', ''order_item_id''],
     cursor_timestamp_column = ''created_at'',
     cursor_key_columns = [''order_id'', ''order_item_id''],
     source_columns =
      [col_text ''order_id'' False,
       col_integer ''order_item_id'' False,
       col_text ''product_id'' False,
       col_text ''seller_id'' False,
       col_timestamp ''shipping_limit_date'' False,
       col_decimal ''price'' False,
       col_decimal ''freight_value'' False,
       col_timestamp ''created_at'' False],
     status_domains = [],
     numeric_minimums = [(''order_item_id'', 1), (''price'', 0), (''freight_value'', 0)],
     append_only = True,
     schema_version = BRONZE_SCHEMA_VERSION\<rparr>"

definition ORDER_PAYMENTS_TABLE :: table_config where
  "ORDER_PAYMENTS_TABLE = \<lparr>
     source_table = ''order_payments'',
     primary_key_columns = [''order_id'', ''payment_sequential''],
     cursor_timestamp_column = ''updated_at'',
     cursor_key_columns = [''order_id'', ''payment_sequential''],
     source_columns =
      [col_text ''order_id'' False,
       col_integer ''payment_sequential'' False,
       col_text ''payment_type'' False,
       col_integer ''payment_installments'' True,
       col_decimal ''payment_value'' False,
       col_text ''payment_status'' False,
       col_timestamp ''payment_initiated_at'' True,
       col_timestamp ''payment_completed_at'' True,
       col_timestamp ''payment_failed_at'' True,
       col_timestamp ''payment_refunded_at'' True,
       col_timestamp ''created_at'' False,
       col_timestamp ''updated_at'' False],
     status_domains = [(''payment_status'', [''pending'', ''completed'', ''failed'', ''refunded''])],
     numeric_minimums = [(''payment_sequential'', 1), (''payment_installments'', 0), (''payment_value'', 0)],
     append_only = False,
     schema_version = BRONZE_SCHEMA_VERSION\<rparr>"

definition TABLE_CONFIGS :: "(string \<times> table_config) list" where
  "TABLE_CONFIGS = map (\<lambda>table. (source_table table, table))
     [CUSTOMERS_TABLE,
      CUSTOMER_SUBSCRIPTIONS_TABLE,
      CUSTOMER_MEMBERSHIP_TIERS_TABLE,
      SUBSCRIPTION_PAYMENTS_TABLE,
      PRODUCTS_TABLE,
      SELLERS_TABLE,
      ORDERS_TABLE,
      ORDER_ITEMS_TABLE,
      ORDER_PAYMENTS_TABLE]"

definition table_config :: "string \<Rightarrow> table_config result" where
  "table_config name = (case map_of TABLE_CONFIGS name of
      Some c \<Rightarrow> Inr c
    | None \<Rightarrow> Inl (Exn ValueError (''Unsupported source table: '' @ name)))"

section \<open>Validation rules\<close>

datatype rule_scope = ROW | BATCH

record validation_rule =
  rule_code :: string
  rule_order :: nat
  rule_scope :: rule_scope

definition VALIDATION_RULES :: "validation_rule list" where
  "VALIDATION_RULES = map (\<lambda>(c, n, s). \<lparr>rule_code = c, rule_order = n, rule_scope = s\<rparr>)
     [(''SCHEMA_MISMATCH'', 1, BATCH),
      (''REQUIRED_NULL'', 2, ROW),
      (''TYPE_MISMATCH'', 3, ROW),
      (''KEY_NULL'', 4, ROW),
      (''BATCH_DUPLICATE'', 5, ROW),
      (''STATUS_DOMAIN_INVALID'', 6, ROW),
      (''NUMERIC_RANGE_INVALID'', 7, ROW),
      (''BROKEN_REFERENCE'', 8, ROW),
      (''CURSOR_OUT_OF_RANGE'', 9, BATCH)]"

definition ROW_ERROR_CODES :: "string list" where
  "ROW_ERROR_CODES = map rule_code (filter (\<lambda>r. rule_scope r = ROW) VALIDATION_RULES)"

section \<open>Page size\<close>

text \<open>
  \<open>int(text)\<close>: surrounding white space, one sign, digits with single underscores between them.
\<close>

definition strip :: "string \<Rightarrow> string" where
  "strip s = rev (dropWhile is_space (rev (dropWhile is_space s)))"

fun digit_groups :: "string \<Rightarrow> string option" where
  "digit_groups [] = None"
| "digit_groups [c] = (if digit_value c = None then None else Some [c])"
| "digit_groups (c # d # cs) =
     (if digit_value c = None then None
      else map_option (Cons c) (digit_groups (if d = CHR ''_'' then cs else d # cs)))"

definition py_int :: "string \<Rightarrow> int option" where
  "py_int text =
     (let s = strip text;
          negative = starts_with ''-'' s;
          body = (if negative \<or> starts_with ''+'' s then drop 1 s else s)
      in case digit_groups body of
           None \<Rightarrow> None
         | Some ds \<Rightarrow> map_option (\<lambda>n. if negative then - int n else int n) (read_digits 0 ds))"

definition DEFAULT_INGESTION_PAGE_SIZE :: int where "DEFAULT_INGESTION_PAGE_SIZE = 50000"

definition ingestion_page_size :: "(string \<times> string) list \<Rightarrow> int result" where
  "ingestion_page_size environment =
     (let raw = (case map_of environment ''INGESTION_PAGE_SIZE'' of
                   Some v \<Rightarrow> v | None \<Rightarrow> show_int DEFAULT_INGESTION_PAGE_SIZE)
      in case py_int raw of
           None \<Rightarrow> Inl (Exn ValueError ''INGESTION_PAGE_SIZE must be an integer'')
         | Some n \<Rightarrow> if n \<le> 0 then Inl (Exn ValueError ''INGESTION_PAGE_SIZE must be greater than zero'')
                     else Inr n)"

section \<open>Facts about the registry\<close>

lemmas table_defs =
  CUSTOMERS_TABLE_def
  CUSTOMER_SUBSCRIPTIONS_TABLE_def
  CUSTOMER_MEMBERSHIP_TIERS_TABLE_def
  SUBSCRIPTION_PAYMENTS_TABLE_def
  PRODUCTS_TABLE_def
  SELLERS_TABLE_def
  ORDERS_TABLE_def
  ORDER_ITEMS_TABLE_def
  ORDER_PAYMENTS_TABLE_def

text \<open>Every registered contract passes the checks of its constructor.\<close>

lemma registered_configs_valid:
  "list_all (\<lambda>(name, c). source_table c = name \<and> table_config_check c = Inr ()) TABLE_CONFIGS"
  by code_simp

lemma registry_names_distinct: "distinct (map fst TABLE_CONFIGS)"
  by code_simp

lemma table_config_ok:
  assumes "table_config name = Inr c"
  shows "source_table c = name" and "table_config_check c = Inr ()"
proof -
  from assms have "(name, c) \<in> set TABLE_CONFIGS"
    by (auto simp: table_config_def split: option.splits dest: map_of_SomeD)
  with registered_configs_valid show "source_table c = name" and "table_config_check c = Inr ()"
    by (auto simp: list_all_iff)
qed

lemma table_config_check_ok:
  "table_config_check c = Inr () \<longleftrightarrow>
     \<not> blank (source_table c) \<and> primary_key_columns c \<noteq> [] \<and> primary_key_columns c = cursor_key_columns c \<and>
     schema_version c \<in> set SUPPORTED_BRONZE_SCHEMA_VERSIONS \<and> distinct (source_column_names c) \<and>
     cursor_timestamp_column c \<in> set (source_column_names c) \<and>
     set (primary_key_columns c) \<subseteq> set (source_column_names c) \<and>
     fst ` set (status_domains c) \<subseteq> set (source_column_names c) \<and>
     fst ` set (numeric_minimums c) \<subseteq> set (source_column_names c)"
  by (auto simp: table_config_check_def assert_supported_schema_version_def Let_def list_ex_iff
      split: sum.splits)

end
