(* ===== verification/Metadata.thy ===== *)
theory Metadata
  imports Contract "HOL-Library.Char_ord" "HOL-Library.List_Lexorder" "HOL-Library.Product_Lexorder"
begin

text \<open>
  The ingestion metadata database (src/ingestion/control/metadata.py over
  sql/metadata/003 and 004): composite cursors, the tables, and every transaction that reads
  or writes watermarks and pipeline runs. A transaction is a \<open>transactionM\<close> block, so an
  exception inside it leaves the database unchanged. Rows locked \<open>FOR UPDATE\<close> make the
  transactions on one watermark serial, which is why each is one atomic operation here. The
  \<open>now\<close> argument is the resolved \<open>now or datetime.now(UTC)\<close>.
\<close>

section \<open>Cursors\<close>

datatype key = KInt int | KStr string

text \<open>
  The order of the key columns: integers by value, strings by code point (the C collation
  of the SQL expressions). Keys of one column are always of one kind.
\<close>

instantiation key :: linorder
begin

fun less_eq_key :: "key \<Rightarrow> key \<Rightarrow> bool" where
  "less_eq_key (KInt a) (KInt b) = (a \<le> b)"
| "less_eq_key (KInt a) (KStr b) = True"
| "less_eq_key (KStr a) (KInt b) = False"
| "less_eq_key (KStr a) (KStr b) = (a \<le> b)"

definition less_key :: "key \<Rightarrow> key \<Rightarrow> bool" where
  "less_key a b = (a \<le> b \<and> \<not> b \<le> a)"

instance
proof
  fix x y z :: key
  show "(x < y) = (x \<le> y \<and> \<not> y \<le> x)" by (rule less_key_def)
  show "x \<le> x" by (cases x) auto
  show "x \<le> y \<Longrightarrow> y \<le> z \<Longrightarrow> x \<le> z" by (cases x; cases y; cases z) auto
  show "x \<le> y \<Longrightarrow> y \<le> x \<Longrightarrow> x = y" by (cases x; cases y) auto
  show "x \<le> y \<or> y \<le> x" by (cases x; cases y) auto
qed

end

record cursor_position =
  cp_timestamp :: "time option"
  cp_keys :: "key list"

definition utc :: "time \<Rightarrow> datetime" where
  "utc t = \<lparr>instant = t, utcoffset = Some 0\<rparr>"

definition assert_utc :: "datetime \<Rightarrow> string \<Rightarrow> unit result" where
  "assert_utc d name = (if utcoffset d = Some 0 then Inr ()
     else Inl (Exn ValueError (name @ '' must be normalized to UTC'')))"

definition utc_now :: "datetime \<Rightarrow> time result" where
  "utc_now d = (case assert_utc d ''now'' of Inl e \<Rightarrow> Inl e | Inr _ \<Rightarrow> Inr (instant d))"

fun key_of_value :: "pyvalue \<Rightarrow> key option" where
  "key_of_value (VStr s) = Some (KStr s)"
| "key_of_value (VInt i) = Some (KInt i)"
| "key_of_value _ = None"

fun value_of_key :: "key \<Rightarrow> pyvalue" where
  "value_of_key (KStr s) = VStr s"
| "value_of_key (KInt i) = VInt i"

text \<open>\<open>CursorPosition(timestamp, keys)\<close> with its \<open>__post_init__\<close>.\<close>

definition make_cursor :: "datetime option \<Rightarrow> pyvalue list \<Rightarrow> cursor_position result" where
  "make_cursor timestamp keys = (case timestamp of
      None \<Rightarrow> (if keys \<noteq> [] then Inl (Exn ValueError ''Initial cursor cannot contain keys'')
               else Inr \<lparr>cp_timestamp = None, cp_keys = []\<rparr>)
    | Some d \<Rightarrow> (case assert_utc d ''cursor timestamp'' of
        Inl e \<Rightarrow> Inl e
      | Inr _ \<Rightarrow>
        (if keys = [] then Inl (Exn ValueError ''Non-initial cursor requires complete primary-key tie-breakers'')
         else case those (map key_of_value keys) of
           None \<Rightarrow> Inl (Exn TypeError ''Cursor keys must be strings or integers'')
         | Some ks \<Rightarrow> Inr \<lparr>cp_timestamp = Some (instant d), cp_keys = ks\<rparr>)))"

definition initial_cursor :: cursor_position where
  "initial_cursor = \<lparr>cp_timestamp = None, cp_keys = []\<rparr>"

definition cursor_ok :: "cursor_position \<Rightarrow> bool" where
  "cursor_ok c \<longleftrightarrow> (cp_timestamp c = None \<longleftrightarrow> cp_keys c = [])"

text \<open>The tuple \<open>(timestamp, keys)\<close> a non-initial cursor is compared by.\<close>

definition cursor_rank :: "cursor_position \<Rightarrow> time \<times> key list" where
  "cursor_rank c = (the (cp_timestamp c), cp_keys c)"

definition cursor_is_earlier :: "cursor_position \<Rightarrow> cursor_position \<Rightarrow> bool" where
  "cursor_is_earlier candidate current = (case cp_timestamp current of
      None \<Rightarrow> False
    | Some t \<Rightarrow> (case cp_timestamp candidate of
        None \<Rightarrow> True
      | Some t' \<Rightarrow> (t', cp_keys candidate) < (t, cp_keys current)))"

section \<open>JSON values of the metadata columns\<close>

datatype json = JNull | JBool bool | JInt int | JStr string | JList "json list" | JObj "(string \<times> json) list"

fun json_of_key :: "key \<Rightarrow> json" where
  "json_of_key (KStr s) = JStr s"
| "json_of_key (KInt i) = JInt i"

definition as_json :: "cursor_position \<Rightarrow> json" where
  "as_json c = JList (map json_of_key (cp_keys c))"

definition as_metadata_json :: "cursor_position \<Rightarrow> json" where
  "as_metadata_json c = JObj
     [(''timestamp'', case cp_timestamp c of Some t \<Rightarrow> JStr (isoformat t) | None \<Rightarrow> JNull),
      (''keys'', as_json c)]"

definition cursor_json :: "cursor_position option \<Rightarrow> json option" where
  "cursor_json c = map_option as_metadata_json c"

section \<open>Rows and tables\<close>

record watermark_row =
  wr_timestamp :: "time option"
  wr_keys :: "key list"
  wr_lease_owner :: "uuid option"
  wr_lease_expires_at :: "time option"
  wr_version :: int
  wr_updated_at :: time

datatype run_status = RUNNING | SUCCESS | SUCCESS_NO_DATA | SKIPPED_ALREADY_COMMITTED | FAILED

record run_row =
  rr_pipeline_name :: string
  rr_batch_id :: string
  rr_dag_id :: "string option"
  rr_logical_date :: time
  rr_attempt_number :: int
  rr_started_at :: time
  rr_finished_at :: "time option"
  rr_watermark_before :: json
  rr_extract_upper_bound :: "json option"
  rr_rows_extracted :: int
  rr_rows_valid :: int
  rr_rows_rejected :: int
  rr_rows_loaded :: int
  rr_status :: run_status
  rr_error_type :: "string option"
  rr_error_message :: "string option"

datatype object_status = STAGED | COMMITTED | ORPHANED

record bronze_row =
  br_source_table :: string
  br_batch_id :: string
  br_object_key :: string
  br_manifest_key :: string
  br_schema_version :: int
  br_row_count :: int
  br_content_sha256 :: string
  br_logical_hash :: string
  br_watermark_before :: json
  br_watermark_after :: json
  br_status :: object_status
  br_committed_at :: "time option"

record quarantine_row =
  qr_object_key :: string
  qr_row_count :: int
  qr_error_counts :: "(string \<times> int) list"
  qr_created_at :: time

record source_lease_row =
  sl_owner_type :: "string option"
  sl_owner_id :: "uuid option"
  sl_expires_at :: "time option"
  sl_version :: int
  sl_updated_at :: time

record pipeline_db =
  watermarks :: "(string \<times> string, watermark_row) table"
  pipeline_runs :: "(uuid \<times> string, run_row) table"
  bronze_objects :: "(string, bronze_row) table"
  quarantine_batches :: "(string, quarantine_row) table"
  source_mutation_leases :: "(string, source_lease_row) table"

definition empty_db :: pipeline_db where
  "empty_db = \<lparr>watermarks = [], pipeline_runs = [], bronze_objects = [], quarantine_batches = [],
     source_mutation_leases = []\<rparr>"

section \<open>Inputs of the transactions\<close>

definition assert_nonempty :: "string \<Rightarrow> string \<Rightarrow> nat option \<Rightarrow> unit result" where
  "assert_nonempty value name maximum_length =
     (if value = [] \<or> blank value then Inl (Exn ValueError (name @ '' must not be empty''))
      else case maximum_length of
        None \<Rightarrow> Inr ()
      | Some n \<Rightarrow> if length value > n
          then Inl (Exn ValueError (name @ '' must contain at most '' @ show_nat n @ '' characters''))
          else Inr ())"

definition is_sha256 :: "string \<Rightarrow> bool" where
  "is_sha256 s \<longleftrightarrow> length s = 64 \<and> set s \<subseteq> set ''0123456789abcdef''"

definition assert_sha256 :: "string \<Rightarrow> string \<Rightarrow> unit result" where
  "assert_sha256 value name = (if is_sha256 value then Inr ()
     else Inl (Exn ValueError (name @ '' must be a lowercase SHA-256 hex value'')))"

definition seq :: "unit result \<Rightarrow> 'a result \<Rightarrow> 'a result" where
  "seq a b = (case a of Inl e \<Rightarrow> Inl e | Inr _ \<Rightarrow> b)"

definition require :: "bool \<Rightarrow> string \<Rightarrow> unit result" where
  "require b m = (if b then Inr () else Inl (Exn ValueError m))"

record watermark =
  wm_pipeline_name :: string
  wm_source_table :: string
  wm_cursor :: cursor_position
  wm_version :: int

record pipeline_run =
  run_id :: uuid
  run_pipeline_name :: string
  run_source_table :: string
  run_batch_id :: string
  run_logical_date :: datetime
  run_attempt_number :: int
  run_watermark_before :: cursor_position
  run_extract_upper_bound :: "cursor_position option"
  run_dag_id :: "string option"

definition pipeline_run_check :: "pipeline_run \<Rightarrow> unit result" where
  "pipeline_run_check r =
     seq (assert_nonempty (run_pipeline_name r) ''pipeline_name'' (Some 128))
    (seq (assert_nonempty (run_source_table r) ''source_table'' (Some 64))
    (seq (assert_nonempty (run_batch_id r) ''batch_id'' (Some 192))
    (seq (require (run_attempt_number r > 0) ''attempt_number must be greater than zero'')
    (seq (assert_utc (run_logical_date r) ''logical_date'')
    (case run_dag_id r of None \<Rightarrow> Inr () | Some d \<Rightarrow> assert_nonempty d ''dag_id'' (Some 250))))))"

record verified_bronze_object =
  obj_table_batch_id :: string
  obj_object_key :: string
  obj_manifest_key :: string
  obj_schema_version :: int
  obj_row_count :: int
  obj_content_sha256 :: string
  obj_logical_hash :: string
  obj_watermark_after :: cursor_position

definition verified_bronze_object_check :: "verified_bronze_object \<Rightarrow> unit result" where
  "verified_bronze_object_check b =
     seq (assert_nonempty (obj_table_batch_id b) ''table_batch_id'' (Some 320))
    (seq (assert_nonempty (obj_object_key b) ''object_key'' None)
    (seq (assert_nonempty (obj_manifest_key b) ''manifest_key'' None)
    (seq (require (obj_schema_version b > 0) ''schema_version must be greater than zero'')
    (seq (require (obj_row_count b \<ge> 0) ''row_count cannot be negative'')
    (seq (assert_sha256 (obj_content_sha256 b) ''content_sha256'')
         (assert_sha256 (obj_logical_hash b) ''logical_hash''))))))"

record quarantine_batch =
  q_table_batch_id :: string
  q_object_key :: string
  q_row_count :: int
  q_error_counts :: "(string \<times> int) list"

definition quarantine_batch_check :: "quarantine_batch \<Rightarrow> unit result" where
  "quarantine_batch_check q =
     seq (assert_nonempty (q_table_batch_id q) ''table_batch_id'' (Some 320))
    (seq (assert_nonempty (q_object_key q) ''object_key'' None)
    (require (\<not> (q_row_count q < 0 \<or> list_ex (\<lambda>(code, count). code = [] \<or> count < 0) (q_error_counts q)))
       ''Quarantine counts must be non-negative and named''))"

record table_commit =
  tc_run :: pipeline_run
  tc_object :: verified_bronze_object
  tc_expected_watermark :: watermark
  tc_rows_extracted :: int
  tc_rows_valid :: int
  tc_rows_rejected :: int
  tc_rows_loaded :: int
  tc_lease_owner :: uuid
  tc_quarantine :: "quarantine_batch option"

definition table_commit_check :: "table_commit \<Rightarrow> unit result" where
  "table_commit_check c =
     (let w = tc_expected_watermark c; r = tc_run c in
      seq (require (wm_pipeline_name w = run_pipeline_name r)
             ''Expected watermark pipeline_name differs from the pipeline run'')
     (seq (require (wm_source_table w = run_source_table r)
             ''Expected watermark source_table differs from the pipeline run'')
     (seq (require (wm_cursor w = run_watermark_before r)
             ''Expected watermark cursor differs from the pipeline run'')
     (seq (require (list_all (\<lambda>n. n \<ge> 0)
               [tc_rows_extracted c, tc_rows_valid c, tc_rows_rejected c, tc_rows_loaded c])
             ''Commit row counts must be non-negative integers'')
     (case tc_quarantine c of
        None \<Rightarrow> Inr ()
      | Some q \<Rightarrow>
          seq (require (q_table_batch_id q = obj_table_batch_id (tc_object c))
                 ''Quarantine table_batch_id differs from the Bronze object'')
              (require (q_row_count q = tc_rows_rejected c)
                 ''Quarantine row_count must equal rows_rejected''))))))"

section \<open>Watermark transactions\<close>

definition ensure_watermark_row :: "string \<Rightarrow> string \<Rightarrow> time \<Rightarrow> pipeline_db \<Rightarrow> pipeline_db" where
  "ensure_watermark_row p t now db = (case map_of (watermarks db) (p, t) of
      Some _ \<Rightarrow> db
    | None \<Rightarrow> db\<lparr>watermarks := watermarks db @ [((p, t),
        \<lparr>wr_timestamp = None, wr_keys = [], wr_lease_owner = None, wr_lease_expires_at = None,
         wr_version = 0, wr_updated_at = now\<rparr>)]\<rparr>)"

text \<open>
  \<open>_get_or_create_watermark\<close>: the insert that does nothing on conflict, then the locked read.
  Timestamps come back from the database as UTC values.
\<close>

definition get_or_create_watermark_tx :: "string \<Rightarrow> string \<Rightarrow> time \<Rightarrow> (pipeline_db, watermark) op" where
  "get_or_create_watermark_tx p t now =
     bindM (modifyM (ensure_watermark_row p t now)) (\<lambda>_.
     bindM (getM (\<lambda>db. map_of (watermarks db) (p, t))) (\<lambda>row. case row of
       None \<Rightarrow> raiseM RuntimeError ''Watermark row is missing''
     | Some r \<Rightarrow>
         bindM (liftM (make_cursor (map_option utc (wr_timestamp r)) (map value_of_key (wr_keys r)))) (\<lambda>c.
         returnM \<lparr>wm_pipeline_name = p, wm_source_table = t, wm_cursor = c, wm_version = wr_version r\<rparr>)))"

definition get_or_create_watermark :: "string \<Rightarrow> string \<Rightarrow> datetime \<Rightarrow> (pipeline_db, watermark) op" where
  "get_or_create_watermark p t now =
     bindM (liftM (assert_nonempty p ''pipeline_name'' (Some 128))) (\<lambda>_.
     bindM (liftM (assert_nonempty t ''source_table'' (Some 64))) (\<lambda>_.
     bindM (liftM (utc_now now)) (\<lambda>current_time.
     transactionM (get_or_create_watermark_tx p t current_time))))"

definition update_watermarks ::
    "(string \<times> string \<Rightarrow> watermark_row \<Rightarrow> bool) \<Rightarrow> (watermark_row \<Rightarrow> watermark_row) \<Rightarrow> (pipeline_db, nat) op" where
  "update_watermarks p f =
     (\<lambda>db. (Inr (matching p (watermarks db)), db\<lparr>watermarks := update_rows p f (watermarks db)\<rparr>))"

text \<open>The SQL comparisons \<open>lease_expires_at <= now\<close> and \<open>lease_expires_at > now\<close>: not true on NULL.\<close>

definition lease_expired :: "watermark_row \<Rightarrow> time \<Rightarrow> bool" where
  "lease_expired r now = (case wr_lease_expires_at r of Some e \<Rightarrow> e \<le> now | None \<Rightarrow> False)"

definition lease_unexpired :: "watermark_row \<Rightarrow> time \<Rightarrow> bool" where
  "lease_unexpired r now = (case wr_lease_expires_at r of Some e \<Rightarrow> e > now | None \<Rightarrow> False)"

definition rewind_watermark ::
    "string \<Rightarrow> string \<Rightarrow> uuid \<Rightarrow> int \<Rightarrow> cursor_position \<Rightarrow> datetime \<Rightarrow> (pipeline_db, watermark) op" where
  "rewind_watermark p t owner expected_version c now =
     bindM (liftM (assert_nonempty p ''pipeline_name'' (Some 128))) (\<lambda>_.
     bindM (liftM (assert_nonempty t ''source_table'' (Some 64))) (\<lambda>_.
     bindM (liftM (utc_now now)) (\<lambda>current_time.
     bindM (transactionM (
       bindM (get_or_create_watermark_tx p t current_time) (\<lambda>current.
       bindM (assertM (wm_version current = expected_version) WatermarkConflictError
                ''Watermark changed before rewind'') (\<lambda>_.
       bindM (assertM (cursor_is_earlier c (wm_cursor current)) WatermarkRewindError
                ''Rewind target must be earlier than the current cursor'') (\<lambda>_.
       bindM (update_watermarks
                (\<lambda>k r. k = (p, t) \<and> wr_version r = expected_version \<and> wr_lease_owner r = Some owner \<and>
                   lease_unexpired r current_time)
                (\<lambda>r. r\<lparr>wr_timestamp := cp_timestamp c, wr_keys := cp_keys c,
                       wr_version := wr_version r + 1, wr_updated_at := current_time\<rparr>)) (\<lambda>rowcount.
       assertM (rowcount = 1) TableLeaseOwnershipLostError
         ''Table lease ownership was lost before rewind''))))))
     (\<lambda>_. returnM \<lparr>wm_pipeline_name = p, wm_source_table = t, wm_cursor = c, wm_version = expected_version + 1\<rparr>))))"

section \<open>Pipeline-run transactions\<close>

definition record_started_run :: "pipeline_run \<Rightarrow> datetime \<Rightarrow> (pipeline_db, unit) op" where
  "record_started_run run now =
     bindM (liftM (utc_now now)) (\<lambda>current_time.
     transactionM (\<lambda>db.
       (case insert_row ''pipeline_runs_pkey'' (run_id run, run_source_table run)
          \<lparr>rr_pipeline_name = run_pipeline_name run, rr_batch_id = run_batch_id run,
           rr_dag_id = run_dag_id run, rr_logical_date = instant (run_logical_date run),
           rr_attempt_number = run_attempt_number run, rr_started_at = current_time,
           rr_finished_at = None, rr_watermark_before = as_metadata_json (run_watermark_before run),
           rr_extract_upper_bound = cursor_json (run_extract_upper_bound run),
           rr_rows_extracted = 0, rr_rows_valid = 0, rr_rows_rejected = 0, rr_rows_loaded = 0,
           rr_status = RUNNING, rr_error_type = None, rr_error_message = None\<rparr> (pipeline_runs db)
        of Inl e \<Rightarrow> (Inl e, db) | Inr t \<Rightarrow> (Inr (), db\<lparr>pipeline_runs := t\<rparr>))))"

text \<open>
  \<open>UPDATE pipeline_runs ... WHERE run_id = .. AND source_table = .. AND status = 'RUNNING'\<close>, which
  must touch one row.
\<close>

definition finish_run :: "pipeline_run \<Rightarrow> (run_row \<Rightarrow> run_row) \<Rightarrow> string \<Rightarrow> (pipeline_db, unit) op" where
  "finish_run run f message =
     bindM (\<lambda>db. let p = (\<lambda>k r. k = (run_id run, run_source_table run) \<and> rr_status r = RUNNING) in
         (Inr (matching p (pipeline_runs db)), db\<lparr>pipeline_runs := update_rows p f (pipeline_runs db)\<rparr>))
     (\<lambda>rowcount. assertM (rowcount = 1) PipelineRunStateError message)"

definition record_failed_run ::
    "pipeline_run \<Rightarrow> string \<Rightarrow> string option \<Rightarrow> datetime \<Rightarrow> (pipeline_db, unit) op" where
  "record_failed_run run error_type error_message now =
     bindM (liftM (assert_nonempty error_type ''error_type'' (Some 64))) (\<lambda>_.
     bindM (liftM (utc_now now)) (\<lambda>current_time.
     transactionM (finish_run run
       (\<lambda>r. r\<lparr>rr_finished_at := Some current_time, rr_status := FAILED,
              rr_error_type := Some error_type, rr_error_message := error_message\<rparr>)
       ''Only a RUNNING pipeline run can fail'')))"

definition record_success_no_data_run :: "pipeline_run \<Rightarrow> datetime \<Rightarrow> (pipeline_db, unit) op" where
  "record_success_no_data_run run now =
     bindM (liftM (require (run_extract_upper_bound run = None)
              ''SUCCESS_NO_DATA requires an empty extract_upper_bound'')) (\<lambda>_.
     bindM (liftM (utc_now now)) (\<lambda>current_time.
     transactionM (finish_run run
       (\<lambda>r. r\<lparr>rr_finished_at := Some current_time, rr_status := SUCCESS_NO_DATA\<rparr>)
       ''Only a RUNNING pipeline run can finish with no data'')))"

definition record_skipped_already_committed_run ::
    "pipeline_run \<Rightarrow> int \<Rightarrow> datetime \<Rightarrow> (pipeline_db, unit) op" where
  "record_skipped_already_committed_run run row_count now =
     bindM (liftM (require (\<not> row_count < 0) ''row_count must be non-negative'')) (\<lambda>_.
     bindM (liftM (utc_now now)) (\<lambda>current_time.
     transactionM (finish_run run
       (\<lambda>r. r\<lparr>rr_finished_at := Some current_time, rr_rows_extracted := row_count,
              rr_rows_valid := row_count, rr_rows_loaded := row_count,
              rr_status := SKIPPED_ALREADY_COMMITTED\<rparr>)
       ''Only a RUNNING pipeline run can be skipped'')))"

section \<open>The commit\<close>

definition insert_quarantine :: "quarantine_batch \<Rightarrow> time \<Rightarrow> (pipeline_db, unit) op" where
  "insert_quarantine q now = (\<lambda>db.
     case insert_row ''quarantine_batches_pkey'' (q_table_batch_id q)
            \<lparr>qr_object_key = q_object_key q, qr_row_count = q_row_count q,
             qr_error_counts = q_error_counts q, qr_created_at = now\<rparr> (quarantine_batches db)
     of Inl e \<Rightarrow> (Inl e, db)
      | Inr t \<Rightarrow>
        (if list_ex (\<lambda>(_, row). qr_object_key row = q_object_key q) (quarantine_batches db)
         then (Inl (Exn (UniqueViolation ''quarantine_batches_object_key_key'')
                 ''duplicate key value violates unique constraint''), db)
         else (Inr (), db\<lparr>quarantine_batches := t\<rparr>)))"

definition insert_bronze_object :: "string \<Rightarrow> bronze_row \<Rightarrow> (pipeline_db, unit) op" where
  "insert_bronze_object k row = (\<lambda>db.
     case insert_row ''bronze_objects_pkey'' k row (bronze_objects db)
     of Inl e \<Rightarrow> (Inl e, db)
      | Inr t \<Rightarrow>
        (if list_ex (\<lambda>(_, x). br_object_key x = br_object_key row) (bronze_objects db)
         then (Inl (Exn (UniqueViolation ''bronze_objects_object_key_key'')
                 ''duplicate key value violates unique constraint''), db)
         else (Inr (), db\<lparr>bronze_objects := t\<rparr>)))"

text \<open>The lease test of the commit: \<open>lease_row[0] != owner or lease_row[1] <= now\<close>, short-circuit.\<close>

definition holds_table_lease :: "watermark_row option \<Rightarrow> uuid \<Rightarrow> time \<Rightarrow> bool" where
  "holds_table_lease row owner now = (case row of
      None \<Rightarrow> False
    | Some r \<Rightarrow> wr_lease_owner r = Some owner \<and>
        (case wr_lease_expires_at r of Some e \<Rightarrow> \<not> e \<le> now | None \<Rightarrow> False))"

definition commit_table_run :: "table_commit \<Rightarrow> datetime \<Rightarrow> (pipeline_db, unit) op" where
  "commit_table_run c now =
     (let w = tc_expected_watermark c; r = tc_run c; ob = tc_object c in
      bindM (liftM (utc_now now)) (\<lambda>current_time.
      transactionM (
        bindM (getM (\<lambda>db. map_of (watermarks db) (wm_pipeline_name w, wm_source_table w))) (\<lambda>row.
        bindM (assertM (holds_table_lease row (tc_lease_owner c) current_time) TableLeaseOwnershipLostError
                 ''Table lease ownership was lost before metadata commit'') (\<lambda>_.
        bindM (case tc_quarantine c of None \<Rightarrow> returnM () | Some q \<Rightarrow> insert_quarantine q current_time) (\<lambda>_.
        bindM (insert_bronze_object (obj_table_batch_id ob)
                 \<lparr>br_source_table = run_source_table r, br_batch_id = run_batch_id r,
                  br_object_key = obj_object_key ob, br_manifest_key = obj_manifest_key ob,
                  br_schema_version = obj_schema_version ob, br_row_count = obj_row_count ob,
                  br_content_sha256 = obj_content_sha256 ob, br_logical_hash = obj_logical_hash ob,
                  br_watermark_before = as_metadata_json (run_watermark_before r),
                  br_watermark_after = as_metadata_json (obj_watermark_after ob),
                  br_status = COMMITTED, br_committed_at = Some current_time\<rparr>) (\<lambda>_.
        bindM (finish_run r
                 (\<lambda>x. x\<lparr>rr_finished_at := Some current_time, rr_rows_extracted := tc_rows_extracted c,
                        rr_rows_valid := tc_rows_valid c, rr_rows_rejected := tc_rows_rejected c,
                        rr_rows_loaded := tc_rows_loaded c, rr_status := SUCCESS\<rparr>)
                 ''Only a RUNNING pipeline run can be committed'') (\<lambda>_.
        bindM (update_watermarks
                 (\<lambda>k x. k = (wm_pipeline_name w, wm_source_table w) \<and> wr_version x = wm_version w \<and>
                    wr_timestamp x = cp_timestamp (wm_cursor w) \<and> wr_keys x = cp_keys (wm_cursor w))
                 (\<lambda>x. x\<lparr>wr_timestamp := cp_timestamp (obj_watermark_after ob),
                        wr_keys := cp_keys (obj_watermark_after ob),
                        wr_version := wr_version x + 1, wr_updated_at := current_time\<rparr>)) (\<lambda>rowcount.
        assertM (rowcount = 1) WatermarkConflictError ''Watermark changed before metadata commit'')))))))))"

section \<open>Lemmas\<close>

lemma utc_simps [simp]: "utcoffset (utc t) = Some 0" "instant (utc t) = t"
  by (simp_all add: utc_def)

lemma utc_now_ok [simp]: "utc_now d = Inr t \<longleftrightarrow> utcoffset d = Some 0 \<and> t = instant d"
  by (auto simp: utc_now_def assert_utc_def)

lemma utc_now_utc [simp]: "utc_now (utc t) = Inr t"
  by simp

lemma seq_ok [simp]: "seq a b = Inr x \<longleftrightarrow> a = Inr () \<and> b = Inr x"
  by (cases a) (auto simp: seq_def)

lemma require_ok [simp]: "require b m = Inr u \<longleftrightarrow> b"
  by (auto simp: require_def)

section \<open>Watermark rows\<close>

text \<open>The primary key and the check constraints of the \<open>watermarks\<close> table.\<close>

definition watermark_row_ok :: "watermark_row \<Rightarrow> bool" where
  "watermark_row_ok r \<longleftrightarrow>
     (wr_timestamp r = None \<longleftrightarrow> wr_keys r = []) \<and>
     (wr_lease_owner r = None \<longleftrightarrow> wr_lease_expires_at r = None) \<and> 0 \<le> wr_version r"

definition watermarks_inv :: "pipeline_db \<Rightarrow> bool" where
  "watermarks_inv db \<longleftrightarrow> pk_ok (watermarks db) \<and> list_all (\<lambda>(k, r). watermark_row_ok r) (watermarks db)"

lemma watermark_row_ok_initial [simp]:
  "watermark_row_ok \<lparr>wr_timestamp = None, wr_keys = [], wr_lease_owner = None, wr_lease_expires_at = None,
     wr_version = 0, wr_updated_at = now\<rparr>"
  by (simp add: watermark_row_ok_def)

lemma ensure_watermark_row_inv [simp]: "watermarks_inv (ensure_watermark_row p t now db) = watermarks_inv db"
  by (auto simp: ensure_watermark_row_def watermarks_inv_def pk_ok_def map_of_eq_None_iff split: option.splits)

lemma ensure_watermark_row_present:
  "\<exists>r. map_of (watermarks (ensure_watermark_row p t now db)) (p, t) = Some r"
  by (auto simp: ensure_watermark_row_def split: option.splits)

lemma ensure_watermark_row_lookup:
  "map_of (watermarks (ensure_watermark_row p t now db)) k =
     (case map_of (watermarks db) k of Some r \<Rightarrow> Some r
      | None \<Rightarrow> if k = (p, t) then Some \<lparr>wr_timestamp = None, wr_keys = [], wr_lease_owner = None,
           wr_lease_expires_at = None, wr_version = 0, wr_updated_at = now\<rparr> else None)"
  by (auto simp: ensure_watermark_row_def split: option.splits)

lemma watermarks_inv_lookup:
  "watermarks_inv db \<Longrightarrow> map_of (watermarks db) k = Some r \<Longrightarrow> watermark_row_ok r"
  by (auto simp: watermarks_inv_def list_all_iff dest!: map_of_SomeD)

lemma update_rows_inv:
  assumes "watermarks_inv db" and "\<And>k r. p k r \<Longrightarrow> watermark_row_ok r \<Longrightarrow> watermark_row_ok (f r)"
  shows "watermarks_inv (db\<lparr>watermarks := update_rows p f (watermarks db)\<rparr>)"
  using assms pk_ok_update_rows [of p f "watermarks db"]
  by (auto simp: watermarks_inv_def list_all_iff update_rows_def simp del: pk_ok_update_rows split: prod.splits if_splits)

lemma those_value_of_key [simp]: "those (map key_of_value (map value_of_key ks)) = Some ks"
proof (induction ks)
  case (Cons k ks)
  then show ?case by (cases k) auto
qed simp

lemma make_cursor_row:
  assumes "watermark_row_ok r"
  shows "make_cursor (map_option utc (wr_timestamp r)) (map value_of_key (wr_keys r)) =
    Inr \<lparr>cp_timestamp = wr_timestamp r, cp_keys = wr_keys r\<rparr>"
  using assms those_value_of_key [of "wr_keys r"]
  by (auto simp: make_cursor_def watermark_row_ok_def assert_utc_def simp del: those_value_of_key split: option.splits)

text \<open>Reading a watermark: the row, created when missing, and nothing else changed.\<close>

lemma get_or_create_watermark_tx_apply:
  assumes "watermarks_inv db"
  obtains r where "map_of (watermarks (ensure_watermark_row p t now db)) (p, t) = Some r"
    and "get_or_create_watermark_tx p t now db =
      (Inr \<lparr>wm_pipeline_name = p, wm_source_table = t,
            wm_cursor = \<lparr>cp_timestamp = wr_timestamp r, cp_keys = wr_keys r\<rparr>, wm_version = wr_version r\<rparr>,
       ensure_watermark_row p t now db)"
proof -
  let ?db = "ensure_watermark_row p t now db"
  obtain r where r: "map_of (watermarks ?db) (p, t) = Some r"
    using ensure_watermark_row_present by blast
  have "watermark_row_ok r" using assms r by (auto intro: watermarks_inv_lookup [of ?db])
  with r that show thesis
    by (simp add: get_or_create_watermark_tx_def bindM_def make_cursor_row)
qed

lemma get_or_create_watermark_ok:
  assumes "get_or_create_watermark p t now db = (Inr w, db')" and "watermarks_inv db"
  shows "utcoffset now = Some 0 \<and> db' = ensure_watermark_row p t (instant now) db \<and> watermarks_inv db' \<and>
    wm_pipeline_name w = p \<and> wm_source_table w = t \<and>
    (\<exists>r. map_of (watermarks db') (p, t) = Some r \<and> wm_version w = wr_version r \<and>
      wm_cursor w = \<lparr>cp_timestamp = wr_timestamp r, cp_keys = wr_keys r\<rparr>)"
proof -
  obtain r where "map_of (watermarks (ensure_watermark_row p t (instant now) db)) (p, t) = Some r"
    and "get_or_create_watermark_tx p t (instant now) db =
      (Inr \<lparr>wm_pipeline_name = p, wm_source_table = t,
            wm_cursor = \<lparr>cp_timestamp = wr_timestamp r, cp_keys = wr_keys r\<rparr>, wm_version = wr_version r\<rparr>,
       ensure_watermark_row p t (instant now) db)"
    using assms(2) by (rule get_or_create_watermark_tx_apply)
  with assms show ?thesis
    unfolding get_or_create_watermark_def by (auto simp: bindM_ok transactionM_ok)
qed

lemma get_or_create_watermark_err:
  "get_or_create_watermark p t now db = (Inl e, db') \<Longrightarrow> db' = db"
  unfolding get_or_create_watermark_def by (auto simp: bindM_err transactionM_err)

lemma first_match_at [simp]:
  assumes "watermarks_inv db"
  shows "first_match (\<lambda>k r. k = x \<and> q r) (watermarks db) =
    (case map_of (watermarks db) x of Some r \<Rightarrow> if q r then Some r else None | None \<Rightarrow> None)"
  using assms by (subst first_match_pk [where x = x]) (auto simp: watermarks_inv_def split: option.splits)

lemma matching_at [simp]:
  assumes "watermarks_inv db"
  shows "matching (\<lambda>k r. k = x \<and> q r) (watermarks db) =
    (case map_of (watermarks db) x of Some r \<Rightarrow> if q r then 1 else 0 | None \<Rightarrow> 0)"
  using assms by (subst matching_pk [where x = x]) (auto simp: watermarks_inv_def split: option.splits)

lemma map_of_update_at:
  assumes "map_of t x = Some r" and "q r"
  shows "map_of (update_rows (\<lambda>k r. k = x \<and> q r) f t) = (map_of t)(x \<mapsto> f r)"
  using assms by (auto simp: fun_eq_iff map_of_update_rows option.map_ident split: option.splits)

lemma get_or_create_watermark_progress:
  assumes "watermarks_inv db" "assert_nonempty p ''pipeline_name'' (Some 128) = Inr ()"
    "assert_nonempty t ''source_table'' (Some 64) = Inr ()"
  shows "\<exists>w. get_or_create_watermark p t (utc now) db = (Inr w, ensure_watermark_row p t now db)"
  by (rule get_or_create_watermark_tx_apply [OF assms(1), of p t now])
     (simp add: get_or_create_watermark_def assms bindM_def transactionM_def)

end
