(* ===== verification/Fencing.thy ===== *)
theory Fencing
  imports Metadata
begin

text \<open>
  Two contracts the control plane relies on, stated once: a register whose version tells
  every change of its content apart (the fencing token of the source lease, the
  compare-and-swap version of a watermark), and a time-bounded exclusive lease (the source
  mutation lease, the table lease). The components interpret them on their own operations.
\<close>

section \<open>Versioned registers\<close>

locale versioned_register =
  fixes version_of :: "'s \<Rightarrow> int"
    and content_of :: "'s \<Rightarrow> 'c"
    and step :: "'e \<Rightarrow> 's \<Rightarrow> 's"
    and inv :: "'s \<Rightarrow> bool"
  assumes inv_step: "inv s \<Longrightarrow> inv (step e s)"
    and version_mono: "inv s \<Longrightarrow> version_of s \<le> version_of (step e s)"
    and same_version: "inv s \<Longrightarrow> version_of (step e s) = version_of s \<Longrightarrow> content_of (step e s) = content_of s"
begin

lemma inv_run: "inv s \<Longrightarrow> inv (fold step es s)"
  by (induction es arbitrary: s) (auto simp: inv_step)

lemma version_run_mono: "inv s \<Longrightarrow> version_of s \<le> version_of (fold step es s)"
proof (induction es arbitrary: s)
  case Nil
  then show ?case by simp
next
  case (Cons e es)
  have "version_of s \<le> version_of (step e s)" using Cons.prems by (rule version_mono)
  also have "\<dots> \<le> version_of (fold step es (step e s))" using Cons.IH Cons.prems by (simp add: inv_step)
  finally show ?case by simp
qed

text \<open>A version read twice with one value has not been changed at any point in between.\<close>

lemma unchanged_between:
  assumes "inv s" and "version_of (fold step (es @ es') s) = version_of s"
  shows "version_of (fold step es s) = version_of s \<and> content_of (fold step es s) = content_of s"
  using assms
proof (induction es arbitrary: s)
  case Nil
  then show ?case by simp
next
  case (Cons e es)
  let ?s = "step e s"
  have inv: "inv ?s" using Cons.prems(1) by (rule inv_step)
  have "version_of s \<le> version_of ?s" using Cons.prems(1) by (rule version_mono)
  moreover have "version_of ?s \<le> version_of (fold step (es @ es') ?s)" using inv by (rule version_run_mono)
  ultimately have v: "version_of ?s = version_of s" using Cons.prems(2) by simp
  then have c: "content_of ?s = content_of s" using Cons.prems(1) by (simp add: same_version)
  have "version_of (fold step (es @ es') ?s) = version_of ?s" using Cons.prems(2) v by simp
  from Cons.IH [OF inv this] v c show ?case by simp
qed

lemma compare_and_swap_once:
  assumes "inv s" and "version_of s < version_of (step e s)"
  shows "version_of (fold step es (step e s)) \<noteq> version_of s"
  using assms version_run_mono [of "step e s" es] inv_step [of s e] by auto

end

section \<open>Exclusive leases\<close>

text \<open>
  \<open>holder s t\<close> is the owner whose lease is live at time \<open>t\<close>. Acquiring, checking and
  renewing succeed only for the live holder or, acquiring, when there is none.
\<close>

locale exclusive_lease =
  fixes holder :: "'s \<Rightarrow> time \<Rightarrow> 'o option"
    and acquire :: "'o \<Rightarrow> time \<Rightarrow> int \<Rightarrow> ('s, 'l) op"
    and check :: "'l \<Rightarrow> time \<Rightarrow> ('s, unit) op"
    and renew :: "'l \<Rightarrow> time \<Rightarrow> int \<Rightarrow> ('s, 'l) op"
    and release :: "'l \<Rightarrow> time \<Rightarrow> ('s, unit) op"
    and owner_of :: "'l \<Rightarrow> 'o"
    and valid_owner :: "'o \<Rightarrow> bool"
    and inv :: "'s \<Rightarrow> bool"
  assumes acquire_ok: "inv s \<Longrightarrow> acquire a t d s = (Inr l, s') \<Longrightarrow>
      inv s' \<and> owner_of l = a \<and> (holder s t = None \<or> holder s t = Some a) \<and> holder s' t = Some a"
    and acquire_err: "inv s \<Longrightarrow> acquire a t d s = (Inl e, s') \<Longrightarrow> inv s' \<and> holder s' = holder s"
    and acquire_free: "inv s \<Longrightarrow> 0 < d \<Longrightarrow> valid_owner a \<Longrightarrow> holder s t = None \<or> holder s t = Some a \<Longrightarrow>
      \<exists>l s'. acquire a t d s = (Inr l, s')"
    and check_ok: "inv s \<Longrightarrow> check l t s = (Inr u, s') \<Longrightarrow> s' = s \<and> holder s t = Some (owner_of l)"
    and renew_ok: "inv s \<Longrightarrow> renew l t d s = (Inr l', s') \<Longrightarrow>
      inv s' \<and> owner_of l' = owner_of l \<and> holder s t = Some (owner_of l) \<and> holder s' t = Some (owner_of l)"
    and release_ok: "inv s \<Longrightarrow> release l t s = (Inr u, s') \<Longrightarrow> inv s' \<and> (\<forall>t'. holder s' t' = None)"
    and release_other: "inv s \<Longrightarrow> holder s t = Some a \<Longrightarrow> a \<noteq> owner_of l \<Longrightarrow>
      \<exists>e. release l t s = (Inl e, s)"
begin

text \<open>While \<open>a\<close> is live no other owner acquires, renews, releases or passes the check.\<close>

lemma acquire_excluded:
  assumes "inv s" and "holder s t = Some a" and "b \<noteq> a"
  shows "\<exists>e s'. acquire b t d s = (Inl e, s') \<and> holder s' = holder s"
proof (cases "fst (acquire b t d s)")
  case (Inl e)
  with assms(1) show ?thesis by (metis acquire_err prod.collapse)
next
  case (Inr l)
  then have "acquire b t d s = (Inr l, snd (acquire b t d s))" by (metis prod.collapse)
  from acquire_ok [OF assms(1) this] assms(2,3) show ?thesis by auto
qed

lemma check_excluded:
  assumes "inv s" and "holder s t = Some a" and "owner_of l \<noteq> a"
  shows "\<exists>e s'. check l t s = (Inl e, s')"
proof (cases "fst (check l t s)")
  case (Inl e)
  then show ?thesis by (metis prod.collapse)
next
  case (Inr u)
  then have "check l t s = (Inr u, snd (check l t s))" by (metis prod.collapse)
  from check_ok [OF assms(1) this] assms(2,3) show ?thesis by auto
qed

lemma two_checks_agree:
  assumes "inv s" and "check l t s = (Inr u, s1)" and "check l' t s = (Inr u', s2)"
  shows "owner_of l = owner_of l'"
  using check_ok [OF assms(1,2)] check_ok [OF assms(1,3)] by simp

lemma release_then_acquire:
  assumes "inv s" and "release l t s = (Inr u, s')" and "0 < d" and "valid_owner b"
  shows "\<exists>l' s''. acquire b t' d s' = (Inr l', s'') \<and> holder s'' t' = Some b"
proof -
  from release_ok [OF assms(1,2)] have s': "inv s'" "holder s' t' = None" by auto
  with acquire_free [OF s'(1) assms(3,4), of t'] obtain l' s'' where "acquire b t' d s' = (Inr l', s'')"
    by auto
  with acquire_ok [OF s'(1) this] show ?thesis by auto
qed

end

end
