(* ===== verification/SourceLease.thy ===== *)
theory SourceLease
  imports Fencing
begin

text \<open>
  The global source mutation lease (src/common/lease.py): the one row by which the generator
  and the warehouse exclude each other, with a version that changes at every takeover and
  release.
\<close>

definition RESOURCE_NAME :: string where "RESOURCE_NAME = ''commerce_source''"
definition GENERATOR_OWNER_TYPE :: string where "GENERATOR_OWNER_TYPE = ''GENERATOR''"
definition WAREHOUSE_OWNER_TYPE :: string where "WAREHOUSE_OWNER_TYPE = ''WAREHOUSE''"
definition DEFAULT_LEASE_TTL :: int where "DEFAULT_LEASE_TTL = 30 * 60 * 1000000"

record source_mutation_lease =
  lease_owner_type :: string
  lease_owner_id :: uuid
  lease_expires_at :: time
  lease_version :: int

definition lease_now :: "datetime \<Rightarrow> time result" where
  "lease_now d = (if utcoffset d = Some 0 then Inr (instant d)
     else Inl (Exn ValueError ''Lease time must be normalized to UTC''))"

definition assert_owner_type :: "string \<Rightarrow> unit result" where
  "assert_owner_type ot = (if ot \<in> {GENERATOR_OWNER_TYPE, WAREHOUSE_OWNER_TYPE} then Inr ()
     else Inl (Exn ValueError (''Unsupported lease owner_type: '' @ ot)))"

definition assert_positive_ttl :: "int \<Rightarrow> unit result" where
  "assert_positive_ttl ttl = require (\<not> ttl \<le> 0) ''Lease ttl must be greater than zero''"

text \<open>An unowned row reads as the empty owner, UUID 0 and \<open>datetime.min\<close>.\<close>

definition lease_from_row :: "source_lease_row \<Rightarrow> source_mutation_lease" where
  "lease_from_row r = (case (sl_owner_type r, sl_owner_id r, sl_expires_at r) of
      (Some ot, Some oid, Some e) \<Rightarrow>
        \<lparr>lease_owner_type = ot, lease_owner_id = oid, lease_expires_at = e, lease_version = sl_version r\<rparr>
    | _ \<Rightarrow> \<lparr>lease_owner_type = [], lease_owner_id = 0, lease_expires_at = 0, lease_version = sl_version r\<rparr>)"

definition is_active :: "source_mutation_lease \<Rightarrow> time \<Rightarrow> bool" where
  "is_active l now \<longleftrightarrow> lease_owner_type l \<noteq> [] \<and> lease_expires_at l > now"

definition assert_current_lease ::
    "source_mutation_lease \<Rightarrow> source_mutation_lease \<Rightarrow> time \<Rightarrow> unit result" where
  "assert_current_lease current expected now =
     (if lease_owner_type current \<noteq> lease_owner_type expected \<or> lease_owner_id current \<noteq> lease_owner_id expected
      then Inl (Exn LeaseOwnershipLostError ''Lease owner changed'')
      else if lease_version current \<noteq> lease_version expected
      then Inl (Exn LeaseOwnershipLostError ''Lease version changed'')
      else if \<not> is_active current now then Inl (Exn LeaseOwnershipLostError ''Lease expired'')
      else Inr ())"

text \<open>\<open>_locked_lease\<close> and \<open>_read_lease\<close>.\<close>

definition read_lease :: "(pipeline_db, source_mutation_lease) op" where
  "read_lease = bindM (getM (\<lambda>db. map_of (source_mutation_leases db) RESOURCE_NAME)) (\<lambda>row.
     case row of None \<Rightarrow> raiseM RuntimeError ''Source Mutation Lease row is missing''
     | Some r \<Rightarrow> returnM (lease_from_row r))"

definition update_source_lease :: "int \<Rightarrow> (source_lease_row \<Rightarrow> source_lease_row) \<Rightarrow> (pipeline_db, unit) op" where
  "update_source_lease v f = modifyM (\<lambda>db. db\<lparr>source_mutation_leases :=
     update_rows (\<lambda>k r. k = RESOURCE_NAME \<and> sl_version r = v) f (source_mutation_leases db)\<rparr>)"

text \<open>\<open>INSERT ... ON CONFLICT (resource_name) DO NOTHING\<close>.\<close>

definition ensure_lease_row :: "time \<Rightarrow> pipeline_db \<Rightarrow> pipeline_db" where
  "ensure_lease_row now db = (case map_of (source_mutation_leases db) RESOURCE_NAME of
      Some _ \<Rightarrow> db
    | None \<Rightarrow> db\<lparr>source_mutation_leases := source_mutation_leases db @ [(RESOURCE_NAME,
        \<lparr>sl_owner_type = None, sl_owner_id = None, sl_expires_at = None, sl_version = 0,
         sl_updated_at = now\<rparr>)]\<rparr>)"

definition acquire_source_mutation_lease ::
    "string \<Rightarrow> uuid \<Rightarrow> datetime \<Rightarrow> int \<Rightarrow> (pipeline_db, source_mutation_lease) op" where
  "acquire_source_mutation_lease owner_type owner_id now ttl =
     bindM (liftM (assert_owner_type owner_type)) (\<lambda>_.
     bindM (liftM (lease_now now)) (\<lambda>current_time.
     bindM (liftM (assert_positive_ttl ttl)) (\<lambda>_.
     transactionM (
       bindM (modifyM (ensure_lease_row current_time)) (\<lambda>_.
       bindM read_lease (\<lambda>current.
       if is_active current current_time then
         (if lease_owner_type current = owner_type \<and> lease_owner_id current = owner_id
          then returnM current
          else raiseM LeaseUnavailableError
            (''Source Mutation Lease is held by '' @ lease_owner_type current @ ''/'' @
             uuid_str (lease_owner_id current) @ '' until '' @ isoformat (lease_expires_at current)))
       else
         (let next_version = lease_version current + 1; expires_at = current_time + ttl in
          bindM (update_source_lease (lease_version current)
                   (\<lambda>r. r\<lparr>sl_owner_type := Some owner_type, sl_owner_id := Some owner_id,
                          sl_expires_at := Some expires_at, sl_version := next_version,
                          sl_updated_at := current_time\<rparr>)) (\<lambda>_.
          returnM \<lparr>lease_owner_type = owner_type, lease_owner_id = owner_id,
                   lease_expires_at = expires_at, lease_version = next_version\<rparr>))))))))"

definition renew_source_mutation_lease ::
    "source_mutation_lease \<Rightarrow> datetime \<Rightarrow> int \<Rightarrow> (pipeline_db, source_mutation_lease) op" where
  "renew_source_mutation_lease lease now ttl =
     bindM (liftM (lease_now now)) (\<lambda>current_time.
     bindM (liftM (assert_positive_ttl ttl)) (\<lambda>_.
     bindM (transactionM (
       bindM read_lease (\<lambda>current.
       bindM (liftM (assert_current_lease current lease current_time)) (\<lambda>_.
       update_source_lease (lease_version lease)
         (\<lambda>r. r\<lparr>sl_expires_at := Some (current_time + ttl), sl_updated_at := current_time\<rparr>))))) (\<lambda>_.
     returnM (lease\<lparr>lease_expires_at := current_time + ttl\<rparr>))))"

definition assert_source_mutation_lease ::
    "source_mutation_lease \<Rightarrow> datetime \<Rightarrow> (pipeline_db, unit) op" where
  "assert_source_mutation_lease lease now =
     bindM (liftM (lease_now now)) (\<lambda>current_time.
     bindM read_lease (\<lambda>current. liftM (assert_current_lease current lease current_time)))"

text \<open>
  \<open>fenced_source_commit\<close>: the body runs inside the transaction that holds the row's share
  lock, so no takeover can come between the check and the end of the body.
\<close>

definition fenced_source_commit ::
    "source_mutation_lease \<Rightarrow> datetime \<Rightarrow> (pipeline_db, 'a) op \<Rightarrow> (pipeline_db, 'a) op" where
  "fenced_source_commit lease now body =
     transactionM (
       bindM read_lease (\<lambda>current.
       bindM (liftM (lease_now now)) (\<lambda>current_time.
       bindM (liftM (assert_current_lease current lease current_time)) (\<lambda>_. body))))"

definition release_source_mutation_lease ::
    "source_mutation_lease \<Rightarrow> datetime \<Rightarrow> (pipeline_db, unit) op" where
  "release_source_mutation_lease lease now =
     bindM (liftM (lease_now now)) (\<lambda>current_time.
     transactionM (
       bindM read_lease (\<lambda>current.
       bindM (assertM (\<not> (lease_owner_type current \<noteq> lease_owner_type lease \<or>
                          lease_owner_id current \<noteq> lease_owner_id lease))
                LeaseOwnershipLostError ''Lease owner changed before release'') (\<lambda>_.
       bindM (assertM (lease_version current = lease_version lease)
                LeaseOwnershipLostError ''Lease version changed before release'') (\<lambda>_.
       update_source_lease (lease_version lease)
         (\<lambda>r. r\<lparr>sl_owner_type := None, sl_owner_id := None, sl_expires_at := None,
                sl_version := lease_version lease + 1, sl_updated_at := current_time\<rparr>))))))"

section \<open>Any sequence of lease operations\<close>

datatype lease_event =
    AcquireLease string uuid datetime int
  | RenewLease source_mutation_lease datetime int
  | ReleaseLease source_mutation_lease datetime

fun lease_step :: "lease_event \<Rightarrow> pipeline_db \<Rightarrow> pipeline_db" where
  "lease_step (AcquireLease ot oid now ttl) db = snd (acquire_source_mutation_lease ot oid now ttl db)"
| "lease_step (RenewLease l now ttl) db = snd (renew_source_mutation_lease l now ttl db)"
| "lease_step (ReleaseLease l now) db = snd (release_source_mutation_lease l now db)"

definition current_lease :: "pipeline_db \<Rightarrow> source_mutation_lease" where
  "current_lease db = (case map_of (source_mutation_leases db) RESOURCE_NAME of
      Some r \<Rightarrow> lease_from_row r
    | None \<Rightarrow> \<lparr>lease_owner_type = [], lease_owner_id = 0, lease_expires_at = 0, lease_version = 0\<rparr>)"

definition lease_owner :: "pipeline_db \<Rightarrow> string \<times> uuid" where
  "lease_owner db = (lease_owner_type (current_lease db), lease_owner_id (current_lease db))"

text \<open>The owner whose lease is live at a time, and the table's check constraint.\<close>

definition live_owner :: "pipeline_db \<Rightarrow> time \<Rightarrow> (string \<times> uuid) option" where
  "live_owner db now = (if is_active (current_lease db) now then Some (lease_owner db) else None)"

definition lease_row_ok :: "source_lease_row \<Rightarrow> bool" where
  "lease_row_ok r \<longleftrightarrow>
     sl_owner_type r = None \<and> sl_owner_id r = None \<and> sl_expires_at r = None \<or>
     sl_owner_type r \<in> {Some GENERATOR_OWNER_TYPE, Some WAREHOUSE_OWNER_TYPE} \<and>
     sl_owner_id r \<noteq> None \<and> sl_expires_at r \<noteq> None"

definition source_lease_inv :: "pipeline_db \<Rightarrow> bool" where
  "source_lease_inv db \<longleftrightarrow>
     (case map_of (source_mutation_leases db) RESOURCE_NAME of None \<Rightarrow> True | Some r \<Rightarrow> lease_row_ok r)"

definition acquire_at :: "string \<times> uuid \<Rightarrow> time \<Rightarrow> int \<Rightarrow> (pipeline_db, source_mutation_lease) op" where
  "acquire_at a t d = acquire_source_mutation_lease (fst a) (snd a) (utc t) d"

section \<open>Each operation in terms of the current lease\<close>

lemma owner_type_nonempty: "assert_owner_type ot = Inr u \<Longrightarrow> ot \<noteq> []"
  by (auto simp: assert_owner_type_def GENERATOR_OWNER_TYPE_def WAREHOUSE_OWNER_TYPE_def split: if_splits)

lemma assert_positive_ttl_ok [simp]: "assert_positive_ttl ttl = Inr u \<longleftrightarrow> 0 < ttl"
  by (auto simp: assert_positive_ttl_def require_def)

lemma lease_now_ok [simp]: "lease_now d = Inr t \<longleftrightarrow> utcoffset d = Some 0 \<and> t = instant d"
  by (auto simp: lease_now_def)

lemma current_lease_row:
  "map_of (source_mutation_leases db) RESOURCE_NAME = Some r \<Longrightarrow> current_lease db = lease_from_row r"
  by (simp add: current_lease_def)

lemma lease_version_row [simp]: "lease_version (lease_from_row r) = sl_version r"
  by (simp add: lease_from_row_def split: option.splits)

lemma read_lease_ok:
  "read_lease db = (Inr l, db') \<longleftrightarrow> db' = db \<and> l = current_lease db \<and>
     (\<exists>r. map_of (source_mutation_leases db) RESOURCE_NAME = Some r)"
  by (auto simp: read_lease_def bindM_def current_lease_def split: option.splits)

lemma read_lease_err:
  "read_lease db = (Inl e, db') \<longleftrightarrow> db' = db \<and> map_of (source_mutation_leases db) RESOURCE_NAME = None \<and>
     e = Exn RuntimeError ''Source Mutation Lease row is missing''"
  by (auto simp: read_lease_def bindM_def split: option.splits)

lemma ensure_lease_row [simp]:
  "current_lease (ensure_lease_row now db) = current_lease db"
  "source_lease_inv (ensure_lease_row now db) = source_lease_inv db"
  by (auto simp: ensure_lease_row_def current_lease_def lease_from_row_def
      source_lease_inv_def lease_row_ok_def split: option.splits)

lemma ensure_lease_row_present:
  "\<exists>r. map_of (source_mutation_leases (ensure_lease_row now db)) RESOURCE_NAME = Some r"
  by (auto simp: ensure_lease_row_def split: option.splits)

lemma lease_from_row_unowned: "sl_owner_type r = None \<Longrightarrow> lease_from_row r =
    \<lparr>lease_owner_type = [], lease_owner_id = 0, lease_expires_at = 0, lease_version = sl_version r\<rparr>"
  by (simp add: lease_from_row_def)

lemma lease_from_row_extend:
  assumes "is_active (lease_from_row r) now"
  shows "lease_from_row (r\<lparr>sl_expires_at := Some e, sl_updated_at := u\<rparr>) = (lease_from_row r)\<lparr>lease_expires_at := e\<rparr>"
    and "lease_row_ok r \<Longrightarrow> lease_row_ok (r\<lparr>sl_expires_at := Some e, sl_updated_at := u\<rparr>)"
  using assms by (auto simp: lease_from_row_def is_active_def lease_row_ok_def split: option.splits)

lemma update_source_lease_ok:
  assumes "map_of (source_mutation_leases db) RESOURCE_NAME = Some r"
  shows "update_source_lease (sl_version r) f db =
      (Inr (), db\<lparr>source_mutation_leases := update_rows (\<lambda>k x. k = RESOURCE_NAME \<and> sl_version x = sl_version r) f
          (source_mutation_leases db)\<rparr>)"
    and "current_lease (snd (update_source_lease (sl_version r) f db)) = lease_from_row (f r)"
    and "source_lease_inv (snd (update_source_lease (sl_version r) f db)) = lease_row_ok (f r)"
  using assms by (auto simp: update_source_lease_def current_lease_def map_of_update_rows source_lease_inv_def)

lemma acquire_ok:
  assumes "acquire_source_mutation_lease ot oid now ttl db = (Inr l, db')"
  shows "assert_owner_type ot = Inr () \<and> utcoffset now = Some 0 \<and> 0 < ttl \<and> current_lease db' = l \<and>
    lease_owner_type l = ot \<and> lease_owner_id l = oid \<and>
    (if is_active (current_lease db) (instant now) then l = current_lease db
     else lease_version l = lease_version (current_lease db) + 1 \<and> lease_expires_at l = instant now + ttl)"
proof -
  define db0 where "db0 = ensure_lease_row (instant now) db"
  have cur: "current_lease db0 = current_lease db" by (simp add: db0_def)
  obtain r where row: "map_of (source_mutation_leases db0) RESOURCE_NAME = Some r"
    using ensure_lease_row_present [of "instant now" db] by (auto simp: db0_def)
  have v: "sl_version r = lease_version (current_lease db)" using current_lease_row [OF row] cur by (metis lease_version_row)
  from assms show ?thesis
    unfolding acquire_source_mutation_lease_def
    using cur update_source_lease_ok [OF row, unfolded v]
    by (auto simp: bindM_ok transactionM_ok read_lease_ok Let_def row lease_from_row_def
        simp flip: db0_def split: if_splits)
qed

lemma acquire_err:
  "acquire_source_mutation_lease ot oid now ttl db = (Inl e, db') \<Longrightarrow> db' = db"
  unfolding acquire_source_mutation_lease_def by (auto simp: bindM_err transactionM_err)

lemma acquire_inv:
  assumes "acquire_source_mutation_lease ot oid now ttl db = (Inr l, db')" and "source_lease_inv db"
  shows "source_lease_inv db'"
proof -
  define db0 where "db0 = ensure_lease_row (instant now) db"
  have cur: "current_lease db0 = current_lease db" "source_lease_inv db0" using assms(2) by (simp_all add: db0_def)
  obtain r where row: "map_of (source_mutation_leases db0) RESOURCE_NAME = Some r"
    using ensure_lease_row_present [of "instant now" db] by (auto simp: db0_def)
  have v: "sl_version r = lease_version (current_lease db)" using current_lease_row [OF row] cur by (metis lease_version_row)
  from assms(1) cur show ?thesis
    unfolding acquire_source_mutation_lease_def
    using update_source_lease_ok [OF row, unfolded v]
    by (auto simp: bindM_ok transactionM_ok read_lease_ok Let_def row lease_row_ok_def assert_owner_type_def
        simp flip: db0_def split: if_splits)
qed

lemma assert_current_lease_ok:
  "assert_current_lease current expected now = Inr u \<longleftrightarrow>
     lease_owner_type current = lease_owner_type expected \<and> lease_owner_id current = lease_owner_id expected \<and>
     lease_version current = lease_version expected \<and> is_active current now"
  by (auto simp: assert_current_lease_def)

lemma renew_ok:
  assumes "renew_source_mutation_lease l now ttl db = (Inr l', db')"
  shows "utcoffset now = Some 0 \<and> 0 < ttl \<and> assert_current_lease (current_lease db) l (instant now) = Inr () \<and>
    l' = l\<lparr>lease_expires_at := instant now + ttl\<rparr> \<and> 
    current_lease db' = (current_lease db)\<lparr>lease_expires_at := instant now + ttl\<rparr>"
proof -
  from assms obtain r where row: "map_of (source_mutation_leases db) RESOURCE_NAME = Some r"
    unfolding renew_source_mutation_lease_def by (auto simp: bindM_ok transactionM_ok read_lease_ok)
  from assms show ?thesis
    unfolding renew_source_mutation_lease_def
    by (auto simp: bindM_ok transactionM_ok read_lease_ok assert_current_lease_ok update_source_lease_def
        current_lease_row row map_of_update_rows lease_from_row_extend)
qed

lemma renew_err: "renew_source_mutation_lease l now ttl db = (Inl e, db') \<Longrightarrow> db' = db"
  unfolding renew_source_mutation_lease_def by (auto simp: bindM_err transactionM_err)

lemma renew_inv:
  assumes "renew_source_mutation_lease l now ttl db = (Inr l', db')" and "source_lease_inv db"
  shows "source_lease_inv db'"
proof -
  from assms obtain r where row: "map_of (source_mutation_leases db) RESOURCE_NAME = Some r"
    unfolding renew_source_mutation_lease_def by (auto simp: bindM_ok transactionM_ok read_lease_ok)
  from assms show ?thesis
    unfolding renew_source_mutation_lease_def
    by (auto simp: bindM_ok transactionM_ok read_lease_ok assert_current_lease_ok update_source_lease_def
        current_lease_row row map_of_update_rows lease_from_row_extend source_lease_inv_def)
qed

lemma release_ok:
  assumes "release_source_mutation_lease l now db = (Inr u, db')"
  shows "utcoffset now = Some 0 \<and> lease_owner_type (current_lease db) = lease_owner_type l \<and>
    lease_owner_id (current_lease db) = lease_owner_id l \<and> lease_version (current_lease db) = lease_version l \<and>
    lease_version (current_lease db') = lease_version l + 1 \<and> lease_owner_type (current_lease db') = [] \<and>
    source_lease_inv db'"
proof -
  from assms obtain r where row: "map_of (source_mutation_leases db) RESOURCE_NAME = Some r"
    unfolding release_source_mutation_lease_def by (auto simp: bindM_ok transactionM_ok read_lease_ok)
  from assms show ?thesis
    unfolding release_source_mutation_lease_def
    by (auto simp: bindM_ok transactionM_ok read_lease_ok update_source_lease_def current_lease_row
        map_of_update_rows row lease_from_row_unowned source_lease_inv_def lease_row_ok_def)
qed

lemma release_err: "release_source_mutation_lease l now db = (Inl e, db') \<Longrightarrow> db' = db"
  unfolding release_source_mutation_lease_def by (auto simp: bindM_err transactionM_err)


section \<open>The contracts\<close>

lemma current_lease_live:
  "assert_current_lease (current_lease db) l t = Inr u \<Longrightarrow>
     live_owner db t = Some (lease_owner_type l, lease_owner_id l)"
  by (auto simp: assert_current_lease_ok live_owner_def lease_owner_def)

lemma lease_step_cases:
  "lease_step e db = db
   \<or> (\<exists>ot oid now ttl l. e = AcquireLease ot oid now ttl \<and>
        acquire_source_mutation_lease ot oid now ttl db = (Inr l, lease_step e db))
   \<or> (\<exists>l now ttl l'. e = RenewLease l now ttl \<and>
        renew_source_mutation_lease l now ttl db = (Inr l', lease_step e db))
   \<or> (\<exists>l now u. e = ReleaseLease l now \<and>
        release_source_mutation_lease l now db = (Inr u, lease_step e db))"
proof (cases e)
  case (AcquireLease ot oid now ttl)
  then show ?thesis
    by (cases "acquire_source_mutation_lease ot oid now ttl db"; cases "fst (acquire_source_mutation_lease ot oid now ttl db)")
       (auto dest: acquire_err)
next
  case (RenewLease l now ttl)
  then show ?thesis
    by (cases "renew_source_mutation_lease l now ttl db"; cases "fst (renew_source_mutation_lease l now ttl db)")
       (auto dest: renew_err)
next
  case (ReleaseLease l now)
  then show ?thesis
    by (cases "release_source_mutation_lease l now db"; cases "fst (release_source_mutation_lease l now db)")
       (auto dest: release_err)
qed

interpretation lease_version: versioned_register
  "\<lambda>db. lease_version (current_lease db)" lease_owner lease_step source_lease_inv
proof
  fix s e
  assume inv: "source_lease_inv s"
  show "source_lease_inv (lease_step e s)"
    using lease_step_cases [of e s] inv by (metis acquire_inv renew_inv release_ok)
  show "lease_version (current_lease s) \<le> lease_version (current_lease (lease_step e s))"
    using lease_step_cases [of e s]
    by (auto dest!: acquire_ok renew_ok release_ok split: if_splits)
  show "lease_owner (lease_step e s) = lease_owner s"
    if "lease_version (current_lease (lease_step e s)) = lease_version (current_lease s)"
    using lease_step_cases [of e s] that
    by (auto simp: lease_owner_def dest!: acquire_ok renew_ok release_ok split: if_splits)
qed

lemma acquire_progress:
  assumes "0 < ttl" "assert_owner_type ot = Inr ()"
    and "live_owner db t = None \<or> live_owner db t = Some (ot, oid)"
  shows "\<exists>l db'. acquire_source_mutation_lease ot oid (utc t) ttl db = (Inr l, db')"
proof (cases "acquire_source_mutation_lease ot oid (utc t) ttl db")
  case (Pair x db')
  then show ?thesis
  proof (cases x)
    case (Inl e)
    obtain r where "map_of (source_mutation_leases (ensure_lease_row t db)) RESOURCE_NAME = Some r"
      using ensure_lease_row_present by blast
    with Pair Inl assms show ?thesis
      unfolding acquire_source_mutation_lease_def
      by (auto simp: bindM_err transactionM_err read_lease_err read_lease_ok bindM_ok Let_def utc_def
          live_owner_def lease_owner_def update_source_lease_def lease_now_def assert_positive_ttl_def
          require_def split: if_splits)
  qed auto
qed

lemma assert_source_mutation_lease_ok:
  "assert_source_mutation_lease l now db = (Inr u, db') \<longleftrightarrow>
     db' = db \<and> utcoffset now = Some 0 \<and> assert_current_lease (current_lease db) l (instant now) = Inr () \<and>
     (\<exists>r. map_of (source_mutation_leases db) RESOURCE_NAME = Some r)"
  by (auto simp: assert_source_mutation_lease_def bindM_ok read_lease_ok)

lemma release_error_owner:
  assumes "live_owner db t = Some a" "a \<noteq> (lease_owner_type l, lease_owner_id l)"
  shows "\<exists>e. release_source_mutation_lease l (utc t) db = (Inl e, db)"
proof (cases "release_source_mutation_lease l (utc t) db")
  case (Pair x db')
  show ?thesis
  proof (cases x)
    case (Inl e)
    with Pair release_err show ?thesis by auto
  next
    case (Inr u)
    with Pair release_ok [of l "utc t" db u db'] assms show ?thesis
      by (auto simp: live_owner_def lease_owner_def split: if_splits)
  qed
qed

interpretation source_lease: exclusive_lease
  live_owner acquire_at "\<lambda>l t. assert_source_mutation_lease l (utc t)"
  "\<lambda>l t. renew_source_mutation_lease l (utc t)" "\<lambda>l t. release_source_mutation_lease l (utc t)"
  "\<lambda>l. (lease_owner_type l, lease_owner_id l)" "\<lambda>a. assert_owner_type (fst a) = Inr ()" source_lease_inv
proof
  fix s s' t d e u and a :: "string \<times> uuid" and l l' :: source_mutation_lease
  assume inv: "source_lease_inv s"
  show "source_lease_inv s' \<and> (lease_owner_type l, lease_owner_id l) = a \<and>
      (live_owner s t = None \<or> live_owner s t = Some a) \<and> live_owner s' t = Some a"
    if "acquire_at a t d s = (Inr l, s')"
    using that acquire_ok [of "fst a" "snd a" "utc t" d s l s'] acquire_inv [of "fst a" "snd a" "utc t" d s l s'] inv
    by (cases a) (auto simp: acquire_at_def live_owner_def lease_owner_def is_active_def
        dest: owner_type_nonempty split: if_splits)
  show "source_lease_inv s' \<and> live_owner s' = live_owner s" if "acquire_at a t d s = (Inl e, s')"
    using that inv by (auto simp: acquire_at_def dest: acquire_err)
  show "\<exists>l s'. acquire_at a t d s = (Inr l, s')"
    if "0 < d" "assert_owner_type (fst a) = Inr ()" "live_owner s t = None \<or> live_owner s t = Some a"
    using that acquire_progress [of d "fst a" s t "snd a"] by (simp add: acquire_at_def)
  show "s' = s \<and> live_owner s t = Some (lease_owner_type l, lease_owner_id l)"
    if "assert_source_mutation_lease l (utc t) s = (Inr u, s')"
    using that by (auto simp: assert_source_mutation_lease_ok dest: current_lease_live)
  show "source_lease_inv s' \<and> (lease_owner_type l', lease_owner_id l') = (lease_owner_type l, lease_owner_id l) \<and>
      live_owner s t = Some (lease_owner_type l, lease_owner_id l) \<and>
      live_owner s' t = Some (lease_owner_type l, lease_owner_id l)"
    if "renew_source_mutation_lease l (utc t) d s = (Inr l', s')"
    using renew_ok [OF that] renew_inv [OF that inv]
    by (auto simp: live_owner_def lease_owner_def assert_current_lease_ok is_active_def)
  show "source_lease_inv s' \<and> (\<forall>t'. live_owner s' t' = None)"
    if "release_source_mutation_lease l (utc t) s = (Inr u, s')"
    using release_ok [OF that] by (auto simp: live_owner_def is_active_def)
  show "\<exists>e. release_source_mutation_lease l (utc t) s = (Inl e, s)"
    if "live_owner s t = Some a" "a \<noteq> (lease_owner_type l, lease_owner_id l)"
    using that by (rule release_error_owner)
qed


end
