(* ===== verification/TableLease.thy ===== *)
theory TableLease
  imports SourceLease
begin

text \<open>
  The per-table lease of the warehouse (src/ingestion/control/lease.py), kept in the lease
  columns of the watermark row, and the heartbeat that renews both leases while a run is
  under way.
\<close>

definition DEFAULT_TABLE_LEASE_TTL :: int where "DEFAULT_TABLE_LEASE_TTL = 30 * 60 * 1000000"

record table_lease =
  tl_pipeline_name :: string
  tl_source_table :: string
  tl_owner_id :: uuid
  tl_lease_expires_at :: time
  tl_watermark_version :: int

definition table_lease_now :: "datetime \<Rightarrow> time result" where
  "table_lease_now d = (if utcoffset d = Some 0 then Inr (instant d)
     else Inl (Exn ValueError ''Table lease time must be normalized to UTC''))"

definition assert_positive_table_ttl :: "int \<Rightarrow> unit result" where
  "assert_positive_table_ttl ttl = require (\<not> ttl \<le> 0) ''Table lease ttl must be greater than zero''"

text \<open>\<open>UPDATE watermarks SET ... WHERE ... RETURNING version\<close>, with the row fetched.\<close>

definition update_watermark_returning ::
    "(string \<times> string \<Rightarrow> watermark_row \<Rightarrow> bool) \<Rightarrow> (watermark_row \<Rightarrow> watermark_row) \<Rightarrow>
     (pipeline_db, int option) op" where
  "update_watermark_returning p f =
     (\<lambda>db. (Inr (map_option wr_version (first_match p (watermarks db))),
            db\<lparr>watermarks := update_rows p f (watermarks db)\<rparr>))"

definition acquire_table_lease ::
    "string \<Rightarrow> string \<Rightarrow> uuid \<Rightarrow> datetime \<Rightarrow> int \<Rightarrow> (pipeline_db, table_lease) op" where
  "acquire_table_lease p t owner now ttl =
     bindM (liftM (table_lease_now now)) (\<lambda>current_time.
     bindM (liftM (assert_positive_table_ttl ttl)) (\<lambda>_.
     bindM (get_or_create_watermark p t (utc current_time)) (\<lambda>_.
     let expires_at = current_time + ttl in
     transactionM (
       bindM (update_watermark_returning
         (\<lambda>k r. k = (p, t) \<and> (wr_lease_owner r = None \<or>
            lease_expired r current_time \<or>
            wr_lease_owner r = Some owner))
         (\<lambda>r. r\<lparr>wr_lease_owner := Some owner, wr_lease_expires_at := Some expires_at\<rparr>)) (\<lambda>row.
       case row of
         None \<Rightarrow> raiseM TableLeaseUnavailableError (''Table lease is held for '' @ p @ ''/'' @ t)
       | Some v \<Rightarrow> returnM \<lparr>tl_pipeline_name = p, tl_source_table = t, tl_owner_id = owner,
                             tl_lease_expires_at = expires_at, tl_watermark_version = v\<rparr>)))))"

definition renew_table_lease :: "table_lease \<Rightarrow> datetime \<Rightarrow> int \<Rightarrow> (pipeline_db, table_lease) op" where
  "renew_table_lease lease now ttl =
     bindM (liftM (table_lease_now now)) (\<lambda>current_time.
     bindM (liftM (assert_positive_table_ttl ttl)) (\<lambda>_.
     let expires_at = current_time + ttl in
     transactionM (
       bindM (update_watermark_returning
         (\<lambda>k r. k = (tl_pipeline_name lease, tl_source_table lease) \<and>
            wr_lease_owner r = Some (tl_owner_id lease) \<and>
            lease_unexpired r current_time \<and>
            wr_version r = tl_watermark_version lease)
         (\<lambda>r. r\<lparr>wr_lease_expires_at := Some expires_at\<rparr>)) (\<lambda>row.
       case row of
         None \<Rightarrow> raiseM TableLeaseOwnershipLostError ''Table lease ownership was lost before renewal''
       | Some v \<Rightarrow> returnM (lease\<lparr>tl_lease_expires_at := expires_at, tl_watermark_version := v\<rparr>)))))"

definition assert_table_lease :: "table_lease \<Rightarrow> datetime \<Rightarrow> (pipeline_db, unit) op" where
  "assert_table_lease lease now =
     bindM (liftM (table_lease_now now)) (\<lambda>current_time.
     bindM (getM (\<lambda>db. map_of (watermarks db) (tl_pipeline_name lease, tl_source_table lease))) (\<lambda>row.
     assertM (holds_table_lease row (tl_owner_id lease) current_time \<and>
              (case row of Some r \<Rightarrow> wr_version r = tl_watermark_version lease | None \<Rightarrow> False))
       TableLeaseOwnershipLostError ''Table lease ownership was lost''))"

definition release_table_lease :: "table_lease \<Rightarrow> datetime \<Rightarrow> (pipeline_db, unit) op" where
  "release_table_lease lease now =
     bindM (liftM (table_lease_now now)) (\<lambda>_.
     transactionM (
       bindM (update_watermark_returning
         (\<lambda>k r. k = (tl_pipeline_name lease, tl_source_table lease) \<and>
            wr_lease_owner r = Some (tl_owner_id lease))
         (\<lambda>r. r\<lparr>wr_lease_owner := None, wr_lease_expires_at := None\<rparr>)) (\<lambda>row.
       assertM (row \<noteq> None) TableLeaseOwnershipLostError
         ''Table lease ownership was lost before release'')))"

section \<open>Heartbeat\<close>

record heartbeat =
  hb_source_lease :: source_mutation_lease
  hb_table_lease :: "table_lease option"
  hb_failure :: "exn option"

definition start_heartbeat :: "source_mutation_lease \<Rightarrow> table_lease option \<Rightarrow> heartbeat" where
  "start_heartbeat sl tb = \<lparr>hb_source_lease = sl, hb_table_lease = tb, hb_failure = None\<rparr>"

text \<open>
  One turn of the thread's loop at time \<open>now\<close>: renew the source lease, then the table lease;
  the first exception is kept and ends the loop. The leases are separate transactions, so a
  failing table lease leaves the source lease renewed.
\<close>

definition heartbeat_beat :: "heartbeat \<Rightarrow> datetime \<Rightarrow> pipeline_db \<Rightarrow> heartbeat \<times> pipeline_db" where
  "heartbeat_beat hb now db =
     (if hb_failure hb \<noteq> None then (hb, db)
      else case renew_source_mutation_lease (hb_source_lease hb) now DEFAULT_LEASE_TTL db of
        (Inl e, db') \<Rightarrow> (hb\<lparr>hb_failure := Some e\<rparr>, db')
      | (Inr sl, db') \<Rightarrow>
          (case hb_table_lease hb of
             None \<Rightarrow> (hb\<lparr>hb_source_lease := sl\<rparr>, db')
           | Some tb \<Rightarrow>
               (case renew_table_lease tb now DEFAULT_TABLE_LEASE_TTL db' of
                  (Inl e, db'') \<Rightarrow> (hb\<lparr>hb_source_lease := sl, hb_failure := Some e\<rparr>, db'')
                | (Inr tb', db'') \<Rightarrow> (hb\<lparr>hb_source_lease := sl, hb_table_lease := Some tb'\<rparr>, db''))))"

text \<open>The turns that fall between two points of the main thread.\<close>

fun heartbeat_run :: "heartbeat \<Rightarrow> datetime list \<Rightarrow> pipeline_db \<Rightarrow> heartbeat \<times> pipeline_db" where
  "heartbeat_run hb [] db = (hb, db)"
| "heartbeat_run hb (now # nows) db =
     (case heartbeat_beat hb now db of (hb', db') \<Rightarrow> heartbeat_run hb' nows db')"

definition assert_healthy :: "heartbeat \<Rightarrow> unit result" where
  "assert_healthy hb = (case hb_failure hb of Some e \<Rightarrow> Inl e | None \<Rightarrow> Inr ())"

text \<open>
  \<open>warehouse_source_freeze\<close>: acquire, run the body with the heartbeat turns \<open>prior\<close> and
  \<open>after\<close> it, require a healthy heartbeat twice (in the block and on leaving it), release.
\<close>

definition warehouse_source_freeze ::
    "uuid \<Rightarrow> datetime \<Rightarrow> int \<Rightarrow> datetime list \<Rightarrow> datetime list \<Rightarrow>
     (source_mutation_lease \<Rightarrow> (pipeline_db, 'a) op) \<Rightarrow> (pipeline_db, 'a) op" where
  "warehouse_source_freeze owner now ttl prior after body =
     bindM (liftM (table_lease_now now)) (\<lambda>current_time.
     bindM (acquire_source_mutation_lease WAREHOUSE_OWNER_TYPE owner (utc current_time) ttl) (\<lambda>lease.
     finallyM
       (\<lambda>db. case heartbeat_run (start_heartbeat lease None) prior db of (hb, db1) \<Rightarrow>
          (case body lease db1 of (r, db2) \<Rightarrow>
            (case heartbeat_run hb after db2 of (hb', db3) \<Rightarrow>
              (case assert_healthy hb' of Inl e \<Rightarrow> (Inl e, db3) | Inr _ \<Rightarrow> (r, db3)))))
       (release_source_mutation_lease lease (utc current_time))))"

section \<open>Holders\<close>

definition table_holder :: "string \<Rightarrow> string \<Rightarrow> pipeline_db \<Rightarrow> time \<Rightarrow> uuid option" where
  "table_holder p t db now = (case map_of (watermarks db) (p, t) of
      None \<Rightarrow> None
    | Some r \<Rightarrow> (case (wr_lease_owner r, wr_lease_expires_at r) of
        (Some a, Some e) \<Rightarrow> if e > now then Some a else None
      | _ \<Rightarrow> None))"

section \<open>Lemmas\<close>

lemma table_lease_now_ok [simp]: "table_lease_now d = Inr t \<longleftrightarrow> utcoffset d = Some 0 \<and> t = instant d"
  by (auto simp: table_lease_now_def)

lemma assert_positive_table_ttl_ok [simp]: "assert_positive_table_ttl ttl = Inr u \<longleftrightarrow> 0 < ttl"
  by (auto simp: assert_positive_table_ttl_def)

lemma table_holder_row:
  "map_of (watermarks db) (p, t) = Some r \<Longrightarrow> watermark_row_ok r \<Longrightarrow>
   table_holder p t db now = (case wr_lease_owner r of None \<Rightarrow> None
     | Some a \<Rightarrow> if the (wr_lease_expires_at r) > now then Some a else None)"
  by (auto simp: table_holder_def watermark_row_ok_def split: option.splits)

lemma table_holder_ensure [simp]: "table_holder p t (ensure_watermark_row q u now db) = table_holder p t db"
  by (rule ext) (auto simp: table_holder_def ensure_watermark_row_lookup split: option.splits)

lemma acquire_table_lease_ok:
  assumes "acquire_table_lease p t a now d db = (Inr l, db')" and "watermarks_inv db"
  shows "utcoffset now = Some 0 \<and> 0 < d \<and> watermarks_inv db' \<and> tl_owner_id l = a \<and>
    tl_pipeline_name l = p \<and> tl_source_table l = t \<and> tl_lease_expires_at l = instant now + d \<and>
    (table_holder p t db (instant now) = None \<or> table_holder p t db (instant now) = Some a) \<and>
    (\<exists>r. map_of (watermarks (ensure_watermark_row p t (instant now) db)) (p, t) = Some r \<and>
      tl_watermark_version l = wr_version r \<and>
      map_of (watermarks db') = (map_of (watermarks (ensure_watermark_row p t (instant now) db)))
        ((p, t) \<mapsto> r\<lparr>wr_lease_owner := Some a, wr_lease_expires_at := Some (instant now + d)\<rparr>))"
proof -
  let ?db = "ensure_watermark_row p t (instant now) db"
  from assms(1) obtain w db1 where w1: "get_or_create_watermark p t (utc (instant now)) db = (Inr w, db1)"
    unfolding acquire_table_lease_def by (auto simp: bindM_ok)
  from get_or_create_watermark_ok [OF this assms(2)] have "db1 = ?db" by simp
  with w1 have w: "get_or_create_watermark p t (utc (instant now)) db = (Inr w, ?db)" by simp
  have inv: "watermarks_inv ?db" using assms(2) by simp
  obtain r where r: "map_of (watermarks ?db) (p, t) = Some r" using ensure_watermark_row_present by blast
  have ok: "watermark_row_ok r" using inv r by (rule watermarks_inv_lookup)
  let ?free = "\<lambda>r. wr_lease_owner r = None \<or> lease_expired r (instant now) \<or>
      wr_lease_owner r = Some a"
  let ?f = "\<lambda>r. r\<lparr>wr_lease_owner := Some a, wr_lease_expires_at := Some (instant now + d)\<rparr>"
  from assms(1) have facts: "utcoffset now = Some 0" "0 < d" "?free r" "tl_owner_id l = a" "tl_pipeline_name l = p"
      "tl_source_table l = t" "tl_lease_expires_at l = instant now + d" "tl_watermark_version l = wr_version r"
      "db' = ?db\<lparr>watermarks := update_rows (\<lambda>k r. k = (p, t) \<and> ?free r) ?f (watermarks ?db)\<rparr>"
    unfolding acquire_table_lease_def using w inv r
    by (auto simp: bindM_ok transactionM_ok update_watermark_returning_def Let_def split: option.splits if_splits)
  have "watermarks_inv db'"
    unfolding facts(9) using inv by (rule update_rows_inv) (auto simp: watermark_row_ok_def)
  moreover have "table_holder p t db (instant now) = None \<or> table_holder p t db (instant now) = Some a"
    using facts(3) ok r table_holder_row [OF r ok] table_holder_ensure [of p t p t "instant now" db]
    by (auto simp: watermark_row_ok_def lease_expired_def split: option.splits)
  moreover have "map_of (watermarks db') = (map_of (watermarks ?db))((p, t) \<mapsto> ?f r)"
    unfolding facts(9) using map_of_update_at [OF r, of ?free ?f] facts(3) by simp
  ultimately show ?thesis using facts r by blast
qed

lemma acquire_table_lease_err:
  assumes "acquire_table_lease p t a now d db = (Inl e, db')" and "watermarks_inv db"
  shows "db' = db \<or> db' = ensure_watermark_row p t (instant now) db"
  using assms unfolding acquire_table_lease_def
  by (auto simp: bindM_err bindM_ok transactionM_err Let_def dest: get_or_create_watermark_err
      dest!: get_or_create_watermark_ok)

lemma acquire_table_lease_progress:
  assumes "watermarks_inv db" "assert_nonempty p ''pipeline_name'' (Some 128) = Inr ()"
    "assert_nonempty t ''source_table'' (Some 64) = Inr ()" "0 < d"
    "table_holder p t db now = None \<or> table_holder p t db now = Some a"
  shows "\<exists>l db'. acquire_table_lease p t a (utc now) d db = (Inr l, db')"
proof -
  let ?db = "ensure_watermark_row p t now db"
  obtain w where w: "get_or_create_watermark p t (utc now) db = (Inr w, ?db)"
    using get_or_create_watermark_progress assms(1-3) by blast
  have inv: "watermarks_inv ?db" using assms(1) by simp
  obtain r where r: "map_of (watermarks ?db) (p, t) = Some r" using ensure_watermark_row_present by blast
  have ok: "watermark_row_ok r" using inv r by (rule watermarks_inv_lookup)
  have "wr_lease_owner r = None \<or> lease_expired r now \<or>
      wr_lease_owner r = Some a"
    using assms(5) ok table_holder_row [OF r ok, of now] by (auto simp: watermark_row_ok_def lease_expired_def split: option.splits if_splits)
  with w inv r assms(4) show ?thesis
    unfolding acquire_table_lease_def
    by (auto simp: bindM_def transactionM_def update_watermark_returning_def Let_def table_lease_now_def
        assert_positive_table_ttl_def require_def)
qed

lemma update_watermark_returning_at:
  assumes "watermarks_inv db"
  shows "update_watermark_returning (\<lambda>k r. k = x \<and> q r) f db =
    (Inr (case map_of (watermarks db) x of Some r \<Rightarrow> if q r then Some (wr_version r) else None | None \<Rightarrow> None),
     db\<lparr>watermarks := update_rows (\<lambda>k r. k = x \<and> q r) f (watermarks db)\<rparr>)"
  using assms by (auto simp: update_watermark_returning_def split: option.splits)

text \<open>
  Every lease statement is one conditional update of one watermark row: it succeeds exactly
  when the row exists and passes the condition, and then changes that row alone.
\<close>

lemma renew_table_lease_ok:
  assumes "renew_table_lease l now d db = (Inr l', db')" and "watermarks_inv db"
  shows "utcoffset now = Some 0 \<and> 0 < d \<and> watermarks_inv db' \<and>
    l' = l\<lparr>tl_lease_expires_at := instant now + d\<rparr> \<and>
    (\<exists>r. map_of (watermarks db) (tl_pipeline_name l, tl_source_table l) = Some r \<and>
      wr_version r = tl_watermark_version l \<and> wr_lease_owner r = Some (tl_owner_id l) \<and> lease_unexpired r (instant now) \<and>
      map_of (watermarks db') = (map_of (watermarks db))
        ((tl_pipeline_name l, tl_source_table l) \<mapsto> r\<lparr>wr_lease_expires_at := Some (instant now + d)\<rparr>))"
proof -
  let ?x = "(tl_pipeline_name l, tl_source_table l)"
  let ?q = "\<lambda>r. wr_lease_owner r = Some (tl_owner_id l) \<and> lease_unexpired r (instant now) \<and> wr_version r = tl_watermark_version l"
  let ?f = "\<lambda>r. r\<lparr>wr_lease_expires_at := Some (instant now + d)\<rparr>"
  from assms(1) obtain r where r: "map_of (watermarks db) ?x = Some r" "?q r" and facts: "utcoffset now = Some 0" "0 < d"
      "l' = l\<lparr>tl_lease_expires_at := instant now + d, tl_watermark_version := wr_version r\<rparr>"
    and db': "db' = db\<lparr>watermarks := update_rows (\<lambda>k r. k = ?x \<and> ?q r) ?f (watermarks db)\<rparr>"
    unfolding renew_table_lease_def
    by (auto simp: bindM_ok transactionM_ok update_watermark_returning_at [OF assms(2)] Let_def split: option.splits if_splits)
  have "watermarks_inv db'"
    unfolding db' using assms(2) by (rule update_rows_inv) (auto simp: watermark_row_ok_def)
  moreover have "map_of (watermarks db') = (map_of (watermarks db))(?x \<mapsto> ?f r)"
    unfolding db' using map_of_update_at [OF r(1), of ?q ?f] r(2) by simp
  ultimately show ?thesis using facts r by auto
qed

lemma renew_table_lease_err: "renew_table_lease l now d db = (Inl e, db') \<Longrightarrow> db' = db"
  unfolding renew_table_lease_def by (auto simp: bindM_err transactionM_err Let_def)

lemma assert_table_lease_ok:
  "assert_table_lease l now db = (Inr u, db') \<longleftrightarrow> utcoffset now = Some 0 \<and> db' = db \<and>
    (\<exists>r. map_of (watermarks db) (tl_pipeline_name l, tl_source_table l) = Some r \<and>
      wr_lease_owner r = Some (tl_owner_id l) \<and> lease_unexpired r (instant now) \<and> wr_version r = tl_watermark_version l)"
  by (auto simp: assert_table_lease_def bindM_ok holds_table_lease_def lease_unexpired_def split: option.splits)

lemma assert_table_lease_state: "assert_table_lease l now db = (x, db') \<Longrightarrow> db' = db"
  by (cases x) (auto simp: assert_table_lease_def bindM_ok bindM_err)

lemma release_table_lease_ok:
  assumes "release_table_lease l now db = (Inr u, db')" and "watermarks_inv db"
  shows "utcoffset now = Some 0 \<and> watermarks_inv db' \<and>
    (\<exists>r. map_of (watermarks db) (tl_pipeline_name l, tl_source_table l) = Some r \<and>
      wr_lease_owner r = Some (tl_owner_id l) \<and>
      map_of (watermarks db') = (map_of (watermarks db))
        ((tl_pipeline_name l, tl_source_table l) \<mapsto> r\<lparr>wr_lease_owner := None, wr_lease_expires_at := None\<rparr>))"
proof -
  let ?x = "(tl_pipeline_name l, tl_source_table l)"
  let ?q = "\<lambda>r. wr_lease_owner r = Some (tl_owner_id l)"
  let ?f = "\<lambda>r. r\<lparr>wr_lease_owner := None, wr_lease_expires_at := None\<rparr>"
  from assms(1) obtain r where r: "map_of (watermarks db) ?x = Some r" "?q r" and facts: "utcoffset now = Some 0"
    and db': "db' = db\<lparr>watermarks := update_rows (\<lambda>k r. k = ?x \<and> ?q r) ?f (watermarks db)\<rparr>"
    unfolding release_table_lease_def
    by (auto simp: bindM_ok transactionM_ok update_watermark_returning_at [OF assms(2)] split: option.splits if_splits)
  have "watermarks_inv db'"
    unfolding db' using assms(2) by (rule update_rows_inv) (auto simp: watermark_row_ok_def)
  moreover have "map_of (watermarks db') = (map_of (watermarks db))(?x \<mapsto> ?f r)"
    unfolding db' using map_of_update_at [OF r(1), of ?q ?f] r(2) by simp
  ultimately show ?thesis using facts r by auto
qed

lemma release_table_lease_err: "release_table_lease l now db = (Inl e, db') \<Longrightarrow> db' = db"
  unfolding release_table_lease_def by (auto simp: bindM_err transactionM_err)

section \<open>The contract\<close>

text \<open>A lease on a given table, whatever names its record carries.\<close>

definition lease_on :: "string \<Rightarrow> string \<Rightarrow> table_lease \<Rightarrow> table_lease" where
  "lease_on p t l = l\<lparr>tl_pipeline_name := p, tl_source_table := t\<rparr>"

lemma lease_on_simps [simp]:
  "tl_pipeline_name (lease_on p t l) = p" "tl_source_table (lease_on p t l) = t"
  "tl_owner_id (lease_on p t l) = tl_owner_id l" "tl_watermark_version (lease_on p t l) = tl_watermark_version l"
  by (simp_all add: lease_on_def)

definition lease_names_ok :: "string \<Rightarrow> string \<Rightarrow> bool" where
  "lease_names_ok p t \<longleftrightarrow> assert_nonempty p ''pipeline_name'' (Some 128) = Inr () \<and>
     assert_nonempty t ''source_table'' (Some 64) = Inr ()"

lemma table_holder_at [simp]:
  "map_of (watermarks db) (p, t) = Some r \<Longrightarrow> table_holder p t db now =
     (case wr_lease_owner r of None \<Rightarrow> None | Some a \<Rightarrow> if lease_unexpired r now then Some a else None)"
  by (auto simp: table_holder_def lease_unexpired_def split: option.splits)

interpretation table_lease: exclusive_lease
  "table_holder p t" "\<lambda>a now. acquire_table_lease p t a (utc now)"
  "\<lambda>l now. assert_table_lease (lease_on p t l) (utc now)" "\<lambda>l now. renew_table_lease (lease_on p t l) (utc now)"
  "\<lambda>l now. release_table_lease (lease_on p t l) (utc now)" tl_owner_id "\<lambda>a. lease_names_ok p t" watermarks_inv
  for p t
proof
  fix s s' now d e u a l l'
  assume inv: "watermarks_inv s"
  show "watermarks_inv s' \<and> tl_owner_id l = a \<and>
      (table_holder p t s now = None \<or> table_holder p t s now = Some a) \<and> table_holder p t s' now = Some a"
    if "acquire_table_lease p t a (utc now) d s = (Inr l, s')"
    using acquire_table_lease_ok [OF that inv] by (auto simp: lease_unexpired_def)
  show "watermarks_inv s' \<and> table_holder p t s' = table_holder p t s"
    if "acquire_table_lease p t a (utc now) d s = (Inl e, s')"
    using acquire_table_lease_err [OF that inv] inv by auto
  show "\<exists>l s'. acquire_table_lease p t a (utc now) d s = (Inr l, s')"
    if "0 < d" "lease_names_ok p t" "table_holder p t s now = None \<or> table_holder p t s now = Some a"
    using that inv by (auto simp: lease_names_ok_def intro!: acquire_table_lease_progress)
  show "s' = s \<and> table_holder p t s now = Some (tl_owner_id l)"
    if "assert_table_lease (lease_on p t l) (utc now) s = (Inr u, s')"
    using that by (auto simp: assert_table_lease_ok)
  show "watermarks_inv s' \<and> tl_owner_id l' = tl_owner_id l \<and> table_holder p t s now = Some (tl_owner_id l) \<and>
      table_holder p t s' now = Some (tl_owner_id l)"
    if "renew_table_lease (lease_on p t l) (utc now) d s = (Inr l', s')"
    using renew_table_lease_ok [OF that inv] by (auto simp: lease_unexpired_def)
  show "watermarks_inv s' \<and> (\<forall>t'. table_holder p t s' t' = None)"
    if "release_table_lease (lease_on p t l) (utc now) s = (Inr u, s')"
    using release_table_lease_ok [OF that inv] by auto
  show "\<exists>e. release_table_lease (lease_on p t l) (utc now) s = (Inl e, s)"
    if "table_holder p t s now = Some a" "a \<noteq> tl_owner_id l"
  proof (cases "fst (release_table_lease (lease_on p t l) (utc now) s)")
    case (Inl e)
    with release_table_lease_err show ?thesis by (metis prod.collapse)
  next
    case (Inr u)
    then have "release_table_lease (lease_on p t l) (utc now) s = (Inr u, snd (release_table_lease (lease_on p t l) (utc now) s))"
      by (metis prod.collapse)
    from release_table_lease_ok [OF this inv] that show ?thesis by (auto split: option.splits if_splits)
  qed
qed

end
