(* ===== verification/Commits.thy ===== *)
theory Commits
  imports TableLease
begin

text \<open>
  What each transaction of src/ingestion/control/metadata.py does to the database: the
  constraints of sql/metadata/004 as invariants, the effect of starting, failing, skipping and
  committing a run and of rewinding a watermark, and that every one of them that raises leaves
  the database as it was.
\<close>

section \<open>The constraints of the other tables\<close>

definition run_row_ok :: "run_row \<Rightarrow> bool" where
  "run_row_ok r \<longleftrightarrow>
     (rr_status r = RUNNING \<longleftrightarrow> rr_finished_at r = None) \<and>
     (if rr_status r = FAILED then rr_error_type r \<noteq> None else rr_error_type r = None \<and> rr_error_message r = None)"

definition runs_inv :: "pipeline_db \<Rightarrow> bool" where
  "runs_inv db \<longleftrightarrow> pk_ok (pipeline_runs db) \<and> list_all (\<lambda>(k, r). run_row_ok r) (pipeline_runs db)"

definition bronze_inv :: "pipeline_db \<Rightarrow> bool" where
  "bronze_inv db \<longleftrightarrow> pk_ok (bronze_objects db) \<and> distinct (map (\<lambda>(k, r). br_object_key r) (bronze_objects db)) \<and>
     list_all (\<lambda>(k, r). br_status r = COMMITTED \<and> br_committed_at r \<noteq> None) (bronze_objects db)"

definition quarantine_inv :: "pipeline_db \<Rightarrow> bool" where
  "quarantine_inv db \<longleftrightarrow> pk_ok (quarantine_batches db) \<and>
     distinct (map (\<lambda>(k, r). qr_object_key r) (quarantine_batches db))"

definition db_inv :: "pipeline_db \<Rightarrow> bool" where
  "db_inv db \<longleftrightarrow> watermarks_inv db \<and> runs_inv db \<and> bronze_inv db \<and> quarantine_inv db \<and> source_lease_inv db"

lemmas db_inv_defs = db_inv_def watermarks_inv_def runs_inv_def bronze_inv_def quarantine_inv_def source_lease_inv_def

section \<open>Finishing a run\<close>

definition run_key :: "pipeline_run \<Rightarrow> uuid \<times> string" where
  "run_key r = (run_id r, run_source_table r)"

text \<open>\<open>db'\<close> is \<open>db\<close> with the RUNNING row of \<open>run\<close> rewritten by \<open>f\<close>.\<close>

definition run_ended :: "pipeline_run \<Rightarrow> (run_row \<Rightarrow> run_row) \<Rightarrow> pipeline_db \<Rightarrow> pipeline_db \<Rightarrow> bool" where
  "run_ended run f db db' \<longleftrightarrow> (\<exists>r. map_of (pipeline_runs db) (run_key run) = Some r \<and> rr_status r = RUNNING \<and>
     db' = db\<lparr>pipeline_runs := update_rows (\<lambda>k r. k = run_key run \<and> rr_status r = RUNNING) f (pipeline_runs db)\<rparr>)"

lemma finish_run_ok:
  assumes "finish_run run f m db = (Inr u, db')" and "runs_inv db"
  shows "run_ended run f db db'"
proof -
  let ?p = "\<lambda>k r. k = run_key run \<and> rr_status r = RUNNING"
  from assms(1) have m: "matching ?p (pipeline_runs db) = 1"
    and db': "db' = db\<lparr>pipeline_runs := update_rows ?p f (pipeline_runs db)\<rparr>"
    by (auto simp: finish_run_def bindM_ok run_key_def Let_def)
  have "pk_ok (pipeline_runs db)" using assms(2) by (simp add: runs_inv_def)
  with m db' show ?thesis
    using matching_pk_1 [of "pipeline_runs db" ?p "run_key run"] by (auto simp: run_ended_def)
qed

lemma run_ended_rows:
  assumes "run_ended run f db db'"
  obtains r where "map_of (pipeline_runs db) (run_key run) = Some r" "rr_status r = RUNNING"
    "map_of (pipeline_runs db') = (map_of (pipeline_runs db))(run_key run \<mapsto> f r)"
  using assms map_of_update_at [of "pipeline_runs db" "run_key run" _ "\<lambda>r. rr_status r = RUNNING" f]
  by (auto simp: run_ended_def)

lemma run_ended_frame:
  assumes "run_ended run f db db'"
  shows "watermarks db' = watermarks db \<and> bronze_objects db' = bronze_objects db \<and>
    quarantine_batches db' = quarantine_batches db \<and> source_mutation_leases db' = source_mutation_leases db"
  using assms by (auto simp: run_ended_def)

lemma run_ended_inv:
  assumes "run_ended run f db db'" and "runs_inv db"
    and "\<And>r. rr_status r = RUNNING \<Longrightarrow> run_row_ok r \<Longrightarrow> run_row_ok (f r)"
  shows "runs_inv db'"
  using assms pk_ok_update_rows [of "\<lambda>k r. k = run_key run \<and> rr_status r = RUNNING" f "pipeline_runs db"]
  by (auto simp: run_ended_def runs_inv_def list_all_iff update_rows_def simp del: pk_ok_update_rows
      split: prod.splits if_splits)

lemma db_inv_run_ended:
  assumes "run_ended run f db db'" and "db_inv db"
    and "\<And>r. rr_status r = RUNNING \<Longrightarrow> run_row_ok r \<Longrightarrow> run_row_ok (f r)"
  shows "db_inv db'"
  using run_ended_inv [OF assms(1) _ assms(3)] run_ended_frame [OF assms(1)] assms(2)
  by (simp add: db_inv_defs)

text \<open>The ways out of \<open>RUNNING\<close> other than a commit; each refuses a run that has ended.\<close>

lemma record_failed_run_ok:
  assumes "record_failed_run run et em now db = (Inr u, db')" and "db_inv db"
  shows "db_inv db' \<and> run_ended run
    (\<lambda>r. r\<lparr>rr_finished_at := Some (instant now), rr_status := FAILED, rr_error_type := Some et, rr_error_message := em\<rparr>) db db'"
proof -
  have "runs_inv db" using assms(2) by (simp add: db_inv_def)
  with assms(1) have "run_ended run
    (\<lambda>r. r\<lparr>rr_finished_at := Some (instant now), rr_status := FAILED, rr_error_type := Some et, rr_error_message := em\<rparr>) db db'"
    by (auto simp: record_failed_run_def bindM_ok transactionM_ok intro: finish_run_ok)
  then show ?thesis using db_inv_run_ended [OF _ assms(2)] by (auto simp: run_row_ok_def)
qed

lemma record_success_no_data_run_ok:
  assumes "record_success_no_data_run run now db = (Inr u, db')" and "db_inv db"
  shows "db_inv db' \<and> run_extract_upper_bound run = None \<and> run_ended run
    (\<lambda>r. r\<lparr>rr_finished_at := Some (instant now), rr_status := SUCCESS_NO_DATA\<rparr>) db db'"
proof -
  have "runs_inv db" using assms(2) by (simp add: db_inv_def)
  with assms(1) have "run_extract_upper_bound run = None \<and> run_ended run
    (\<lambda>r. r\<lparr>rr_finished_at := Some (instant now), rr_status := SUCCESS_NO_DATA\<rparr>) db db'"
    by (auto simp: record_success_no_data_run_def bindM_ok transactionM_ok intro: finish_run_ok)
  then show ?thesis using db_inv_run_ended [OF _ assms(2)] by (auto simp: run_row_ok_def)
qed

lemma record_skipped_already_committed_run_ok:
  assumes "record_skipped_already_committed_run run n now db = (Inr u, db')" and "db_inv db"
  shows "db_inv db' \<and> run_ended run
    (\<lambda>r. r\<lparr>rr_finished_at := Some (instant now), rr_rows_extracted := n, rr_rows_valid := n, rr_rows_loaded := n,
           rr_status := SKIPPED_ALREADY_COMMITTED\<rparr>) db db'"
proof -
  have "runs_inv db" using assms(2) by (simp add: db_inv_def)
  with assms(1) have "run_ended run
    (\<lambda>r. r\<lparr>rr_finished_at := Some (instant now), rr_rows_extracted := n, rr_rows_valid := n, rr_rows_loaded := n,
           rr_status := SKIPPED_ALREADY_COMMITTED\<rparr>) db db'"
    by (auto simp: record_skipped_already_committed_run_def bindM_ok transactionM_ok intro: finish_run_ok)
  then show ?thesis using db_inv_run_ended [OF _ assms(2)] by (auto simp: run_row_ok_def)
qed

lemma run_row_ok_running:
  "rr_status r = RUNNING \<Longrightarrow> run_row_ok r \<longleftrightarrow> rr_finished_at r = None \<and> rr_error_type r = None \<and> rr_error_message r = None"
  by (simp add: run_row_ok_def)

lemma record_started_run_ok:
  assumes "record_started_run run now db = (Inr u, db')" and "db_inv db"
  shows "db_inv db' \<and> map_of (pipeline_runs db) (run_key run) = None \<and>
    (\<exists>r. db' = db\<lparr>pipeline_runs := pipeline_runs db @ [(run_key run, r)]\<rparr> \<and> rr_status r = RUNNING \<and>
      rr_started_at r = instant now \<and> rr_watermark_before r = as_metadata_json (run_watermark_before run) \<and>
      rr_extract_upper_bound r = cursor_json (run_extract_upper_bound run))"
  using assms
  by (auto simp: record_started_run_def bindM_ok transactionM_ok insert_row_ok run_key_def db_inv_defs run_row_ok_running
      pk_ok_def map_of_eq_None_iff split: sum.splits)

lemma metadata_err:
  "record_failed_run run et em now db = (Inl e, db') \<Longrightarrow> db' = db"
  "record_success_no_data_run run now db = (Inl e, db') \<Longrightarrow> db' = db"
  "record_skipped_already_committed_run run n now db = (Inl e, db') \<Longrightarrow> db' = db"
  "record_started_run run now db = (Inl e, db') \<Longrightarrow> db' = db"
  "commit_table_run c now db = (Inl e, db') \<Longrightarrow> db' = db"
  "rewind_watermark p t owner v cur now db = (Inl e, db') \<Longrightarrow> db' = db"
  by (auto simp: record_failed_run_def record_success_no_data_run_def record_skipped_already_committed_run_def
      record_started_run_def commit_table_run_def rewind_watermark_def Let_def bindM_err transactionM_err)

section \<open>Rewind\<close>

lemma update_watermarks_at:
  assumes "watermarks_inv db"
  shows "update_watermarks (\<lambda>k r. k = x \<and> q r) f db =
    (Inr (case map_of (watermarks db) x of Some r \<Rightarrow> if q r then 1 else 0 | None \<Rightarrow> 0),
     db\<lparr>watermarks := update_rows (\<lambda>k r. k = x \<and> q r) f (watermarks db)\<rparr>)"
  using assms by (auto simp: update_watermarks_def split: option.splits)

lemma rewind_watermark_ok:
  assumes "rewind_watermark p t owner v c now db = (Inr w, db')" and "watermarks_inv db" and "cursor_ok c"
  shows "utcoffset now = Some 0 \<and> watermarks_inv db' \<and>
    w = \<lparr>wm_pipeline_name = p, wm_source_table = t, wm_cursor = c, wm_version = v + 1\<rparr> \<and>
    (\<exists>r. map_of (watermarks db) (p, t) = Some r \<and> wr_version r = v \<and> wr_lease_owner r = Some owner \<and>
      lease_unexpired r (instant now) \<and>
      cursor_is_earlier c \<lparr>cp_timestamp = wr_timestamp r, cp_keys = wr_keys r\<rparr> \<and>
      db' = db\<lparr>watermarks := watermarks db'\<rparr> \<and>
      map_of (watermarks db') = (map_of (watermarks db))((p, t) \<mapsto> r\<lparr>wr_timestamp := cp_timestamp c,
        wr_keys := cp_keys c, wr_version := v + 1, wr_updated_at := instant now\<rparr>))"
proof -
  let ?q = "\<lambda>r. wr_version r = v \<and> wr_lease_owner r = Some owner \<and> lease_unexpired r (instant now)"
  let ?f = "\<lambda>r. r\<lparr>wr_timestamp := cp_timestamp c, wr_keys := cp_keys c, wr_version := wr_version r + 1,
      wr_updated_at := instant now\<rparr>"
  let ?db = "ensure_watermark_row p t (instant now) db"
  obtain r where r: "map_of (watermarks ?db) (p, t) = Some r" and get: "get_or_create_watermark_tx p t (instant now) db =
      (Inr \<lparr>wm_pipeline_name = p, wm_source_table = t,
            wm_cursor = \<lparr>cp_timestamp = wr_timestamp r, cp_keys = wr_keys r\<rparr>, wm_version = wr_version r\<rparr>, ?db)"
    using assms(2) by (rule get_or_create_watermark_tx_apply)
  have inv: "watermarks_inv ?db" using assms(2) by simp
  from assms(1) get r have q: "?q r" and facts: "utcoffset now = Some 0"
      "w = \<lparr>wm_pipeline_name = p, wm_source_table = t, wm_cursor = c, wm_version = v + 1\<rparr>"
      "cursor_is_earlier c \<lparr>cp_timestamp = wr_timestamp r, cp_keys = wr_keys r\<rparr>"
    and db': "db' = ?db\<lparr>watermarks := update_rows (\<lambda>k r. k = (p, t) \<and> ?q r) ?f (watermarks ?db)\<rparr>"
    unfolding rewind_watermark_def
    by (auto simp: bindM_ok transactionM_ok update_watermarks_at [OF inv] split: if_splits)
  have present: "map_of (watermarks db) (p, t) = Some r"
    using r facts(3) by (auto simp: ensure_watermark_row_lookup cursor_is_earlier_def split: option.splits)
  then have same: "?db = db" by (simp add: ensure_watermark_row_def)
  have "watermarks_inv db'" unfolding db' same using assms(2)
    by (rule update_rows_inv) (use assms(3) in \<open>auto simp: watermark_row_ok_def cursor_ok_def\<close>)
  moreover have "map_of (watermarks db') = (map_of (watermarks db))((p, t) \<mapsto> ?f r)"
    unfolding db' same using map_of_update_at [OF present, of ?q ?f] q by simp
  ultimately show ?thesis using facts present q db' same by auto
qed

section \<open>Commit\<close>

lemma list_ex_rows: "list_ex (\<lambda>(k, r). P k r) t \<longleftrightarrow> (\<exists>k r. (k, r) \<in> set t \<and> P k r)"
  by (auto simp: list_ex_iff)

lemma insert_quarantine_ok:
  assumes "insert_quarantine q now db = (Inr u, db')" and "quarantine_inv db"
  shows "quarantine_inv db' \<and> map_of (quarantine_batches db) (q_table_batch_id q) = None \<and>
    (\<exists>row. db' = db\<lparr>quarantine_batches := quarantine_batches db @ [(q_table_batch_id q, row)]\<rparr> \<and>
      qr_object_key row = q_object_key q \<and> qr_row_count row = q_row_count q)"
  using assms
  by (auto simp: insert_quarantine_def quarantine_inv_def pk_ok_def insert_row_ok map_of_eq_None_iff list_ex_rows
      split: sum.splits if_splits) blast

lemma insert_bronze_object_ok:
  assumes "insert_bronze_object k row db = (Inr u, db')" and "bronze_inv db"
    and "br_status row = COMMITTED" "br_committed_at row \<noteq> None"
  shows "bronze_inv db' \<and> map_of (bronze_objects db) k = None \<and>
    (\<forall>(k, x) \<in> set (bronze_objects db). br_object_key x \<noteq> br_object_key row) \<and>
    db' = db\<lparr>bronze_objects := bronze_objects db @ [(k, row)]\<rparr>"
  using assms
  by (auto simp: insert_bronze_object_def bronze_inv_def pk_ok_def insert_row_ok map_of_eq_None_iff list_ex_rows
      split: sum.splits if_splits) blast

definition committed_row :: "table_commit \<Rightarrow> time \<Rightarrow> bronze_row" where
  "committed_row c now =
     (let r = tc_run c; ob = tc_object c in
      \<lparr>br_source_table = run_source_table r, br_batch_id = run_batch_id r,
       br_object_key = obj_object_key ob, br_manifest_key = obj_manifest_key ob,
       br_schema_version = obj_schema_version ob, br_row_count = obj_row_count ob,
       br_content_sha256 = obj_content_sha256 ob, br_logical_hash = obj_logical_hash ob,
       br_watermark_before = as_metadata_json (run_watermark_before r),
       br_watermark_after = as_metadata_json (obj_watermark_after ob),
       br_status = COMMITTED, br_committed_at = Some now\<rparr>)"

text \<open>The row a successful commit leaves in the watermark's place, and in the run's.\<close>

definition advanced_row :: "table_commit \<Rightarrow> time \<Rightarrow> watermark_row \<Rightarrow> watermark_row" where
  "advanced_row c now x = x\<lparr>wr_timestamp := cp_timestamp (obj_watermark_after (tc_object c)),
     wr_keys := cp_keys (obj_watermark_after (tc_object c)), wr_version := wr_version x + 1, wr_updated_at := now\<rparr>"

definition succeeded_row :: "table_commit \<Rightarrow> time \<Rightarrow> run_row \<Rightarrow> run_row" where
  "succeeded_row c now x = x\<lparr>rr_finished_at := Some now, rr_rows_extracted := tc_rows_extracted c,
     rr_rows_valid := tc_rows_valid c, rr_rows_rejected := tc_rows_rejected c,
     rr_rows_loaded := tc_rows_loaded c, rr_status := SUCCESS\<rparr>"

definition expected_key :: "table_commit \<Rightarrow> string \<times> string" where
  "expected_key c = (wm_pipeline_name (tc_expected_watermark c), wm_source_table (tc_expected_watermark c))"

text \<open>Everything a commit that returns has required and done, table by table.\<close>

definition commit_effect :: "table_commit \<Rightarrow> time \<Rightarrow> pipeline_db \<Rightarrow> pipeline_db \<Rightarrow> bool" where
  "commit_effect c now db db' \<longleftrightarrow>
     (\<exists>r x. map_of (watermarks db) (expected_key c) = Some r \<and>
        wr_lease_owner r = Some (tc_lease_owner c) \<and> lease_unexpired r now \<and>
        wr_version r = wm_version (tc_expected_watermark c) \<and>
        \<lparr>cp_timestamp = wr_timestamp r, cp_keys = wr_keys r\<rparr> = wm_cursor (tc_expected_watermark c) \<and>
        map_of (watermarks db') = (map_of (watermarks db))(expected_key c \<mapsto> advanced_row c now r) \<and>
        map_of (pipeline_runs db) (run_key (tc_run c)) = Some x \<and> rr_status x = RUNNING \<and>
        map_of (pipeline_runs db') = (map_of (pipeline_runs db))(run_key (tc_run c) \<mapsto> succeeded_row c now x)) \<and>
     map_of (bronze_objects db) (obj_table_batch_id (tc_object c)) = None \<and>
     bronze_objects db' = bronze_objects db @ [(obj_table_batch_id (tc_object c), committed_row c now)] \<and>
     (case tc_quarantine c of
        None \<Rightarrow> quarantine_batches db' = quarantine_batches db
      | Some q \<Rightarrow> \<exists>row. quarantine_batches db' = quarantine_batches db @ [(q_table_batch_id q, row)] \<and>
          qr_object_key row = q_object_key q \<and> qr_row_count row = q_row_count q) \<and>
     source_mutation_leases db' = source_mutation_leases db"

lemma case_count:
  "(case m of Some r \<Rightarrow> if q r then 1 else 0 | None \<Rightarrow> 0) = (1::nat) \<Longrightarrow> \<exists>r. m = Some r \<and> q r"
  by (cases m) (auto split: if_splits)

lemma commit_table_run_ok:
  assumes "commit_table_run c now db = (Inr u, db')" and "db_inv db" and "cursor_ok (obj_watermark_after (tc_object c))"
  shows "utcoffset now = Some 0 \<and> db_inv db' \<and> commit_effect c (instant now) db db'"
proof -
  let ?t = "instant now"
  let ?k = "expected_key c"
  let ?q = "\<lambda>x. wr_version x = wm_version (tc_expected_watermark c) \<and>
      wr_timestamp x = cp_timestamp (wm_cursor (tc_expected_watermark c)) \<and>
      wr_keys x = cp_keys (wm_cursor (tc_expected_watermark c))"
  from assms(1) obtain u1 db1 u2 db2 u3 db3 n where utc: "utcoffset now = Some 0"
    and lease: "holds_table_lease (map_of (watermarks db) ?k) (tc_lease_owner c) ?t"
    and s1: "(case tc_quarantine c of None \<Rightarrow> returnM () | Some q \<Rightarrow> insert_quarantine q ?t) db = (Inr u1, db1)"
    and s2: "insert_bronze_object (obj_table_batch_id (tc_object c)) (committed_row c ?t) db1 = (Inr u2, db2)"
    and s3: "finish_run (tc_run c) (succeeded_row c ?t) ''Only a RUNNING pipeline run can be committed'' db2 = (Inr u3, db3)"
    and s4: "update_watermarks (\<lambda>k x. k = ?k \<and> ?q x) (advanced_row c ?t) db3 = (Inr n, db')" and "n = 1"
    unfolding commit_table_run_def Let_def committed_row_def succeeded_row_def [abs_def] advanced_row_def [abs_def] expected_key_def
    by (auto simp: bindM_ok transactionM_ok)
  have inv: "watermarks_inv db" "runs_inv db" "bronze_inv db" "quarantine_inv db" "source_lease_inv db"
    using assms(2) by (simp_all add: db_inv_def)
  have q1: "quarantine_inv db1" "watermarks db1 = watermarks db" "pipeline_runs db1 = pipeline_runs db"
      "bronze_objects db1 = bronze_objects db" "source_mutation_leases db1 = source_mutation_leases db"
    and q1': "case tc_quarantine c of
        None \<Rightarrow> quarantine_batches db1 = quarantine_batches db
      | Some q \<Rightarrow> \<exists>row. quarantine_batches db1 = quarantine_batches db @ [(q_table_batch_id q, row)] \<and>
          qr_object_key row = q_object_key q \<and> qr_row_count row = q_row_count q"
    using s1 inv(4) by (auto dest!: insert_quarantine_ok split: option.splits)
  have "bronze_inv db1" using inv(3) q1(4) by (simp add: bronze_inv_def)
  from insert_bronze_object_ok [OF s2 this]
  have b: "bronze_inv db2" "map_of (bronze_objects db1) (obj_table_batch_id (tc_object c)) = None"
      "db2 = db1\<lparr>bronze_objects := bronze_objects db1 @ [(obj_table_batch_id (tc_object c), committed_row c ?t)]\<rparr>"
    by (auto simp: committed_row_def Let_def)
  have "runs_inv db2" using inv(2) b(3) q1(3) by (simp add: runs_inv_def)
  with s3 have e: "run_ended (tc_run c) (succeeded_row c ?t) db2 db3" by (rule finish_run_ok)
  then obtain x where x: "map_of (pipeline_runs db2) (run_key (tc_run c)) = Some x" "rr_status x = RUNNING"
      "map_of (pipeline_runs db3) = (map_of (pipeline_runs db2))(run_key (tc_run c) \<mapsto> succeeded_row c ?t x)"
    by (rule run_ended_rows)
  have r3: "runs_inv db3"
    using e \<open>runs_inv db2\<close> by (rule run_ended_inv) (auto simp: run_row_ok_def succeeded_row_def)
  note frame = run_ended_frame [OF e]
  have w3: "watermarks_inv db3" using inv(1) frame b(3) q1(2) by (simp add: watermarks_inv_def)
  note s4' = s4 [unfolded update_watermarks_at [OF w3, where x = ?k and q = ?q]]
  from s4' have db': "db' = db3\<lparr>watermarks := update_rows (\<lambda>k x. k = ?k \<and> ?q x) (advanced_row c ?t) (watermarks db3)\<rparr>"
    by (rule Pair_inject) (erule sym)
  from s4' have "(case map_of (watermarks db3) ?k of Some r \<Rightarrow> if ?q r then 1 else 0 | None \<Rightarrow> 0) = n"
    by (rule Pair_inject) simp
  then have "\<exists>r. map_of (watermarks db3) ?k = Some r \<and> ?q r"
    unfolding \<open>n = 1\<close> by (rule case_count)
  then obtain r where r: "map_of (watermarks db3) ?k = Some r" "?q r" by blast
  have w': "watermarks_inv db'" unfolding db' using w3
    by (rule update_rows_inv)
       (use assms(3) in \<open>auto simp: watermark_row_ok_def advanced_row_def cursor_ok_def\<close>)
  have m': "map_of (watermarks db') = (map_of (watermarks db3))(?k \<mapsto> advanced_row c ?t r)"
    unfolding db' using map_of_update_at [OF r(1), of ?q "advanced_row c ?t"] r(2) by simp
  have frame': "watermarks db3 = watermarks db" "pipeline_runs db2 = pipeline_runs db"
      "pipeline_runs db' = pipeline_runs db3"
      "bronze_objects db' = bronze_objects db @ [(obj_table_batch_id (tc_object c), committed_row c ?t)]"
      "quarantine_batches db' = quarantine_batches db1" "source_mutation_leases db' = source_mutation_leases db"
    using frame b(3) q1 db' by simp_all
  have "db_inv db'"
    using w' r3 b(1) q1(1) inv(5) frame frame' b(3) q1
    by (simp add: db_inv_def runs_inv_def bronze_inv_def quarantine_inv_def source_lease_inv_def)
  moreover have "commit_effect c ?t db db'"
  proof -
    have l: "wr_lease_owner r = Some (tc_lease_owner c) \<and> lease_unexpired r ?t"
      using lease r(1) frame'(1) by (simp add: holds_table_lease_def lease_unexpired_def split: option.splits)
    have cur: "\<lparr>cp_timestamp = wr_timestamp r, cp_keys = wr_keys r\<rparr> = wm_cursor (tc_expected_watermark c)"
      using r(2) by simp
    have x': "map_of (pipeline_runs db) (run_key (tc_run c)) = Some x" "rr_status x = RUNNING"
        "map_of (pipeline_runs db') = (map_of (pipeline_runs db))(run_key (tc_run c) \<mapsto> succeeded_row c ?t x)"
      using x frame' by simp_all
    have b': "map_of (bronze_objects db) (obj_table_batch_id (tc_object c)) = None" using b(2) q1(4) by simp
    have q': "case tc_quarantine c of None \<Rightarrow> quarantine_batches db' = quarantine_batches db
      | Some q \<Rightarrow> \<exists>row. quarantine_batches db' = quarantine_batches db @ [(q_table_batch_id q, row)] \<and>
          qr_object_key row = q_object_key q \<and> qr_row_count row = q_row_count q"
      using q1' frame'(5) by (simp split: option.splits)
    show ?thesis
      unfolding commit_effect_def
      using l cur x' b' q' r m' frame'(1,4,6) by (intro conjI exI [of _ r] exI [of _ x]) simp_all
  qed
  ultimately show ?thesis using utc by simp
qed

end
