(* ===== verification/Batch.thy ===== *)
theory Batch
  imports Commits
begin

text \<open>
  Batch identities and the reuse of committed batches (src/ingestion/control/batch.py):
  the deterministic batch id of a DAG run, the table batch id under which a Bronze object is
  committed, and the test by which a re-run recognises a batch that is already there.
\<close>

section \<open>Identities\<close>

record batch_identity =
  bi_dag_id :: string
  bi_logical_date :: datetime

definition batch_identity_check :: "batch_identity \<Rightarrow> unit result" where
  "batch_identity_check b =
     seq (require (\<not> (blank (bi_dag_id b) \<or> length (bi_dag_id b) > 174))
            ''dag_id must contain between 1 and 174 characters'')
         (require (utcoffset (bi_logical_date b) = Some 0) ''logical_date must be normalized to UTC'')"

definition batch_id :: "batch_identity \<Rightarrow> string" where
  "batch_id b = bi_dag_id b @ ''__'' @ compact_utc (instant (bi_logical_date b))"

record table_batch_identity =
  tbi_batch :: batch_identity
  tbi_config :: table_config

definition table_batch :: "batch_identity \<Rightarrow> string \<Rightarrow> table_batch_identity result" where
  "table_batch b name = (case table_config name of
      Inl e \<Rightarrow> Inl e
    | Inr c \<Rightarrow> Inr \<lparr>tbi_batch = b, tbi_config = c\<rparr>)"

definition table_batch_id :: "table_batch_identity \<Rightarrow> string" where
  "table_batch_id i = batch_id (tbi_batch i) @ ''__'' @ source_table (tbi_config i)"

section \<open>Cursors read back from the catalog\<close>

text \<open>\<open>value.get(name)\<close>: a missing member and JSON \<open>null\<close> both read as \<open>None\<close>.\<close>

definition json_get :: "string \<Rightarrow> json \<Rightarrow> json" where
  "json_get name v = (case v of
      JObj ms \<Rightarrow> (case map_of ms name of Some x \<Rightarrow> x | None \<Rightarrow> JNull)
    | _ \<Rightarrow> JNull)"

fun value_of_json :: "json \<Rightarrow> pyvalue" where
  "value_of_json JNull = VNone"
| "value_of_json (JBool b) = VBool b"
| "value_of_json (JInt i) = VInt i"
| "value_of_json (JStr s) = VStr s"
| "value_of_json _ = VObject 0"

text \<open>\<open>astimezone(UTC)\<close>; a naive value is read in the zone of the process.\<close>

definition astimezone_utc :: "(time \<Rightarrow> int) \<Rightarrow> datetime \<Rightarrow> time" where
  "astimezone_utc local_offset d = (case utcoffset d of
      Some _ \<Rightarrow> instant d
    | None \<Rightarrow> instant d - local_offset (instant d))"

definition cursor_from_metadata :: "(time \<Rightarrow> int) \<Rightarrow> json \<Rightarrow> cursor_position result" where
  "cursor_from_metadata local_offset v = (case json_get ''timestamp'' v of
      JNull \<Rightarrow> make_cursor None []
    | JStr s \<Rightarrow> (case json_get ''keys'' v of
        JList ks \<Rightarrow> (case fromisoformat s of
            None \<Rightarrow> Inl (Exn ValueError ''Invalid isoformat string'')
          | Some d \<Rightarrow> make_cursor (Some (utc (astimezone_utc local_offset d))) (map value_of_json ks))
      | _ \<Rightarrow> Inl (Exn TypeError ''Invalid committed batch cursor metadata''))
    | _ \<Rightarrow> Inl (Exn TypeError ''Invalid committed batch cursor metadata''))"

section \<open>Committed batches\<close>

record committed_table_batch =
  cb_identity :: table_batch_identity
  cb_object_key :: string
  cb_manifest_key :: string
  cb_schema_version :: int
  cb_row_count :: int
  cb_watermark_before :: cursor_position
  cb_watermark_after :: cursor_position

definition get_committed_table_batch ::
    "(time \<Rightarrow> int) \<Rightarrow> table_batch_identity \<Rightarrow> (pipeline_db, committed_table_batch option) op" where
  "get_committed_table_batch local_offset identity =
     bindM (getM (\<lambda>db. first_match (\<lambda>k r. k = table_batch_id identity \<and> br_status r = COMMITTED) (bronze_objects db)))
     (\<lambda>row. case row of
        None \<Rightarrow> returnM None
      | Some r \<Rightarrow>
          bindM (liftM (cursor_from_metadata local_offset (br_watermark_before r))) (\<lambda>prior.
          bindM (liftM (cursor_from_metadata local_offset (br_watermark_after r))) (\<lambda>after.
          returnM (Some \<lparr>cb_identity = identity, cb_object_key = br_object_key r,
            cb_manifest_key = br_manifest_key r, cb_schema_version = br_schema_version r,
            cb_row_count = br_row_count r, cb_watermark_before = prior, cb_watermark_after = after\<rparr>))))"

definition assert_reusable_table_batch :: "committed_table_batch \<Rightarrow> watermark \<Rightarrow> int \<Rightarrow> unit result" where
  "assert_reusable_table_batch existing current_watermark version =
     (if cb_schema_version existing \<noteq> version
      then Inl (Exn BatchIdentityConflictError ''Committed batch schema_version differs from the requested schema'')
      else if wm_cursor current_watermark \<noteq> cb_watermark_after existing
      then Inl (Exn BatchIdentityConflictError ''Committed batch range differs from the current watermark'')
      else Inr ())"

section \<open>Lemmas\<close>

lemma value_of_json_of_key [simp]: "value_of_json (json_of_key k) = value_of_key k"
  by (cases k) auto

lemma make_cursor_utc:
  assumes "cursor_ok c" "cp_timestamp c = Some t"
  shows "make_cursor (Some (utc t)) (map value_of_key (cp_keys c)) = Inr c"
  using assms those_value_of_key [of "cp_keys c"]
  by (auto simp: make_cursor_def cursor_ok_def assert_utc_def simp del: those_value_of_key)

text \<open>The cursor written into a catalog row is the cursor read back from it.\<close>

lemma cursor_from_metadata_as_metadata_json:
  assumes "cursor_ok c" and "\<forall>t. cp_timestamp c = Some t \<longrightarrow> supported_time t"
  shows "cursor_from_metadata local_offset (as_metadata_json c) = Inr c"
proof (cases "cp_timestamp c")
  case None
  with assms(1) show ?thesis
    by (simp add: cursor_from_metadata_def as_metadata_json_def json_get_def make_cursor_def cursor_ok_def)
next
  case (Some t)
  then have iso: "fromisoformat (isoformat t) = Some (utc t)"
    using assms(2) fromisoformat_isoformat by (simp add: utc_def)
  have "map value_of_json (map json_of_key (cp_keys c)) = map value_of_key (cp_keys c)" by simp
  with Some iso make_cursor_utc [OF assms(1) Some] show ?thesis
    by (simp add: cursor_from_metadata_def as_metadata_json_def json_get_def as_json_def astimezone_utc_def
        comp_def)
qed

lemma batch_id_eq:
  assumes "batch_id a = batch_id b"
  shows "bi_dag_id a = bi_dag_id b \<and>
    compact_utc (instant (bi_logical_date a)) = compact_utc (instant (bi_logical_date b))"
  using assms append_eq_append_conv [of "bi_dag_id a @ ''__''" "bi_dag_id b @ ''__''"
      "compact_utc (instant (bi_logical_date a))" "compact_utc (instant (bi_logical_date b))"]
  by (simp add: batch_id_def)

text \<open>
  The registered table names; none is the end of another behind the separator, so a table
  batch id can be taken apart.
\<close>

definition table_names :: "string list" where
  "table_names = map fst TABLE_CONFIGS"

lemma suffix_of_longer:
  assumes "x @ a = y @ b" and "length a \<le> length b"
  shows "ends_with a b"
proof -
  from assms have "a = drop (length x) (y @ b)" by (metis append_eq_conv_conj)
  moreover have "length x = length y + (length b - length a)"
    using assms by (metis (no_types, opaque_lifting) add_diff_cancel_right' diff_add_inverse2 le_add_diff_inverse2
        length_append add.assoc)
  ultimately show ?thesis using assms(2) by (simp add: ends_with_def)
qed

lemma registered_name_suffix:
  assumes "a \<in> set table_names" "b \<in> set table_names" "x @ ''__'' @ a = y @ ''__'' @ b"
  shows "a = b \<and> x = y"
proof -
  have "list_all (\<lambda>a. list_all (\<lambda>b. a = b \<or> \<not> ends_with (''__'' @ a) (''__'' @ b)) table_names) table_names"
    by code_simp
  then have names: "ends_with (''__'' @ a) (''__'' @ b) \<Longrightarrow> a = b"
    if "a \<in> set table_names" "b \<in> set table_names" for a b
    using that by (auto simp: list_all_iff)
  have "a = b"
  proof (cases "length a \<le> length b")
    case True
    with suffix_of_longer [OF assms(3)] names assms(1,2) show ?thesis by auto
  next
    case False
    with suffix_of_longer [OF assms(3) [symmetric]] names assms(1,2) show ?thesis by auto
  qed
  with assms(3) show ?thesis by simp
qed

lemma table_config_name: "table_config n = Inr c \<Longrightarrow> source_table c = n \<and> n \<in> set table_names"
  using table_config_ok(1) [of n c]
  by (auto simp: table_config_def table_names_def image_iff split: option.splits dest!: map_of_SomeD intro: bexI [rotated])

lemma table_batch_ok:
  "table_batch b n = Inr i \<longleftrightarrow> (\<exists>c. table_config n = Inr c \<and> i = \<lparr>tbi_batch = b, tbi_config = c\<rparr>)"
  by (auto simp: table_batch_def split: sum.splits)

lemma table_batch_id_eq:
  assumes "table_batch a n = Inr i" "table_batch b m = Inr j" "table_batch_id i = table_batch_id j"
  shows "n = m \<and> batch_id a = batch_id b"
  using assms registered_name_suffix [of n m "batch_id a" "batch_id b"]
  by (auto simp: table_batch_ok table_batch_id_def dest!: table_config_name)

lemma get_committed_table_batch_some:
  assumes "get_committed_table_batch lz i db = (Inr (Some cb), db')" and "pk_ok (bronze_objects db)"
  shows "db' = db \<and> (\<exists>r. map_of (bronze_objects db) (table_batch_id i) = Some r \<and> br_status r = COMMITTED \<and>
    cb_identity cb = i \<and> cb_object_key cb = br_object_key r \<and> cb_manifest_key cb = br_manifest_key r \<and>
    cb_schema_version cb = br_schema_version r \<and> cb_row_count cb = br_row_count r \<and>
    cursor_from_metadata lz (br_watermark_before r) = Inr (cb_watermark_before cb) \<and>
    cursor_from_metadata lz (br_watermark_after r) = Inr (cb_watermark_after cb))"
proof -
  have m: "first_match (\<lambda>k r. k = table_batch_id i \<and> br_status r = COMMITTED) (bronze_objects db) =
      (case map_of (bronze_objects db) (table_batch_id i) of Some r \<Rightarrow> if br_status r = COMMITTED then Some r else None
       | None \<Rightarrow> None)"
    using assms(2) by (subst first_match_pk [where x = "table_batch_id i"]) (auto split: option.splits)
  from assms(1) show ?thesis
    unfolding get_committed_table_batch_def
    by (auto simp: bindM_ok m split: option.splits if_splits)
qed

lemma get_committed_table_batch_none:
  assumes "get_committed_table_batch lz i db = (Inr None, db')" and "bronze_inv db"
  shows "db' = db \<and> map_of (bronze_objects db) (table_batch_id i) = None"
proof -
  have m: "first_match (\<lambda>k r. k = table_batch_id i \<and> br_status r = COMMITTED) (bronze_objects db) =
      (case map_of (bronze_objects db) (table_batch_id i) of Some r \<Rightarrow> if br_status r = COMMITTED then Some r else None
       | None \<Rightarrow> None)"
    using assms(2) by (subst first_match_pk [where x = "table_batch_id i"]) (auto simp: bronze_inv_def split: option.splits)
  from assms show ?thesis
    unfolding get_committed_table_batch_def
    by (auto simp: bindM_ok m bronze_inv_def list_all_iff split: option.splits if_splits dest!: map_of_SomeD)
qed

lemma get_committed_table_batch_state: "get_committed_table_batch lz i db = (x, db') \<Longrightarrow> db' = db"
  by (cases x) (auto simp: get_committed_table_batch_def bindM_ok bindM_err split: option.splits)

end
