(* ===== verification/Extract.thy ===== *)
theory Extract
  imports Batch
begin

text \<open>
  Keyset extraction (src/ingestion/extraction/extract.py): source records and their cursors,
  the SQL of one page and of the fixed upper bound over a snapshot, the page loop, and the
  cursor before a boundary. The snapshot is the result set of the configured columns in
  configured order; REPEATABLE READ makes it one value for the whole extraction.
\<close>

section \<open>Keyset pagination\<close>

text \<open>
  The contract of a page reader: a page is the first \<open>n\<close> rows, in rank order, of those
  above the lower and up to the upper bound.
\<close>

definition past :: "'k::linorder option \<Rightarrow> 'k \<Rightarrow> bool" where
  "past lo k = (case lo of None \<Rightarrow> True | Some l \<Rightarrow> l < k)"

locale keyset_reader =
  fixes rank :: "'r \<Rightarrow> 'k::linorder"
    and fetch :: "'r list \<Rightarrow> 'k option \<Rightarrow> 'k \<Rightarrow> nat \<Rightarrow> 'r list"
  assumes fetch_eq: "fetch rows lo hi n =
      take n (sort_key rank (filter (\<lambda>r. past lo (rank r) \<and> rank r \<le> hi) rows))"
begin

definition in_range :: "'r list \<Rightarrow> 'k option \<Rightarrow> 'k \<Rightarrow> 'r list" where
  "in_range rows lo hi = sort_key rank (filter (\<lambda>r. past lo (rank r) \<and> rank r \<le> hi) rows)"

lemma in_range_sorted: "sorted (map rank (in_range rows lo hi))"
  by (simp add: in_range_def)

lemma set_in_range: "set (in_range rows lo hi) = {r \<in> set rows. past lo (rank r) \<and> rank r \<le> hi}"
  by (auto simp: in_range_def)

lemma in_range_distinct: "distinct (map rank rows) \<Longrightarrow> distinct (map rank (in_range rows lo hi))"
  by (auto simp: in_range_def distinct_map intro: inj_on_subset)

lemma fetch_in_range: "fetch rows lo hi n = take n (in_range rows lo hi)"
  by (simp add: fetch_eq in_range_def)

lemma filter_above_last:
  assumes "sorted (map rank xs)" "distinct (map rank xs)" "0 < n" "n \<le> length xs"
  shows "filter (\<lambda>r. rank (last (take n xs)) < rank r) xs = drop n xs"
proof -
  have last: "last (take n xs) = xs ! (n - 1)"
    using assms(3,4) by (subst last_conv_nth) (auto simp: min_def)
  have strict: "rank (xs ! i) < rank (xs ! j)" if "i < j" "j < length xs" for i j
  proof -
    have "rank (xs ! i) \<le> rank (xs ! j)" using assms(1) that by (simp add: sorted_iff_nth_mono)
    moreover have "rank (xs ! i) \<noteq> rank (xs ! j)"
      using assms(2) that by (auto simp: distinct_conv_nth)
    ultimately show ?thesis by simp
  qed
  have "filter (\<lambda>r. rank (xs ! (n - 1)) < rank r) (take n xs) = []"
  proof (rule filter_False, rule ballI)
    fix r assume "r \<in> set (take n xs)"
    then obtain i where i: "i < n" "i < length xs" "r = xs ! i" by (auto simp: in_set_conv_nth)
    then have "i = n - 1 \<or> i < n - 1" by linarith
    then have "rank r \<le> rank (xs ! (n - 1))"
    proof
      assume "i < n - 1"
      moreover have "n - 1 < length xs" using assms(3,4) by linarith
      ultimately show ?thesis unfolding i(3) by (rule less_imp_le [OF strict])
    qed (simp add: i(3))
    then show "\<not> rank (xs ! (n - 1)) < rank r" by simp
  qed
  moreover have "filter (\<lambda>r. rank (xs ! (n - 1)) < rank r) (drop n xs) = drop n xs"
  proof (rule filter_True, rule ballI)
    fix r assume "r \<in> set (drop n xs)"
    then obtain i where i: "n + i < length xs" "r = xs ! (n + i)"
      by (auto simp: in_set_conv_nth less_diff_conv) (metis add.commute)
    then show "rank (xs ! (n - 1)) < rank r" using strict [of "n - 1" "n + i"] assms(3) by simp
  qed
  ultimately show ?thesis
    by (simp add: last) (metis append_Nil append_take_drop_id filter_append)
qed

text \<open>After a full page the rest of the range is the range above the page's last row.\<close>

lemma in_range_next:
  assumes "distinct (map rank rows)" "0 < n" "n \<le> length (in_range rows lo hi)"
  shows "in_range rows lo hi =
    fetch rows lo hi n @ in_range rows (Some (rank (last (fetch rows lo hi n)))) hi"
proof -
  let ?xs = "in_range rows lo hi"
  define c where "c = rank (last (take n ?xs))"
  have "last (take n ?xs) \<in> set ?xs"
    using assms(2,3) by (metis append_take_drop_id in_set_conv_decomp last_in_set length_0_conv length_take
        min.absorb2 not_gr0 set_append UnCI)
  then have lo: "past lo c" by (auto simp: set_in_range c_def)
  have "drop n ?xs = filter (\<lambda>r. c < rank r) ?xs"
    using filter_above_last [OF in_range_sorted in_range_distinct [OF assms(1)] assms(2,3)] by (simp add: c_def)
  also have "\<dots> = sort_key rank (filter (\<lambda>r. past (Some c) (rank r) \<and> rank r \<le> hi) rows)"
    unfolding in_range_def filter_sort
    using lo by (intro arg_cong [where f = "sort_key rank"])
      (auto simp: past_def intro!: filter_cong split: option.splits)
  finally have "drop n ?xs = in_range rows (Some c) hi" by (simp add: in_range_def)
  then show ?thesis unfolding fetch_in_range c_def by (metis append_take_drop_id)
qed

lemma in_range_short: "length (fetch rows lo hi n) < n \<Longrightarrow> in_range rows lo hi = fetch rows lo hi n"
  by (simp add: fetch_in_range)

end

section \<open>Source records\<close>

record source_record =
  rec_config :: table_config
  rec_values :: "(string \<times> pyvalue) list"
  rec_cursor_override :: "cursor_position option"

text \<open>A dict lookup; a missing key raises \<open>KeyError\<close>.\<close>

definition get_item :: "string \<Rightarrow> (string \<times> 'a) list \<Rightarrow> 'a result" where
  "get_item k d = (case map_of d k of Some v \<Rightarrow> Inr v | None \<Rightarrow> Inl (Exn (OtherError ''KeyError'') k))"

definition columns_by_name :: "table_config \<Rightarrow> (string \<times> source_column) list" where
  "columns_by_name cfg = map (\<lambda>c. (col_name c, c)) (source_columns cfg)"

text \<open>\<open>str(value)\<close> of a UUID-typed column that is not \<open>None\<close>; psycopg returns \<open>UUID\<close> objects there.\<close>

fun str_uuid_value :: "pyvalue \<Rightarrow> pyvalue" where
  "str_uuid_value (VUuid u) = VStr (uuid_str u)"
| "str_uuid_value v = v"

definition cursor_key_value :: "table_config \<Rightarrow> (string \<times> pyvalue) list \<Rightarrow> string \<Rightarrow> key result" where
  "cursor_key_value cfg vs name =
     (case get_item name vs of Inl e \<Rightarrow> Inl e
      | Inr v \<Rightarrow> (case get_item name (columns_by_name cfg) of Inl e \<Rightarrow> Inl e
        | Inr c \<Rightarrow>
          (case key_of_value (if postgres_uuid c \<and> v \<noteq> VNone then str_uuid_value v else v) of
             Some k \<Rightarrow> Inr k
           | None \<Rightarrow> Inl (Exn TypeError ''Source cursor keys must be strings or integers''))))"

fun results :: "'a result list \<Rightarrow> 'a list result" where
  "results [] = Inr []"
| "results (Inl e # rs) = Inl e"
| "results (Inr x # rs) = (case results rs of Inl e \<Rightarrow> Inl e | Inr xs \<Rightarrow> Inr (x # xs))"

definition cursor_key_values :: "table_config \<Rightarrow> (string \<times> pyvalue) list \<Rightarrow> key list result" where
  "cursor_key_values cfg vs = results (map (cursor_key_value cfg vs) (cursor_key_columns cfg))"

definition assert_cursor :: "table_config \<Rightarrow> cursor_position \<Rightarrow> unit result" where
  "assert_cursor cfg c =
     (if cp_timestamp c = None then Inr ()
      else require (length (cp_keys c) = length (cursor_key_columns cfg))
             ''Cursor key count differs from the table primary key'')"

definition source_record_check :: "source_record \<Rightarrow> unit result" where
  "source_record_check r =
     seq (require (map fst (rec_values r) = source_column_names (rec_config r))
            ''Source record columns must match the configured source column order'')
         (case rec_cursor_override r of None \<Rightarrow> Inr () | Some c \<Rightarrow> assert_cursor (rec_config r) c)"

text \<open>\<open>CursorPosition(timestamp, keys)\<close> from the values of one row.\<close>

definition row_cursor :: "datetime option \<Rightarrow> key list \<Rightarrow> cursor_position result" where
  "row_cursor timestamp keys = make_cursor timestamp (map value_of_key keys)"

definition record_cursor :: "source_record \<Rightarrow> cursor_position result" where
  "record_cursor r = (case rec_cursor_override r of
      Some c \<Rightarrow> Inr c
    | None \<Rightarrow>
      (case get_item (cursor_timestamp_column (rec_config r)) (rec_values r) of
         Inl e \<Rightarrow> Inl e
       | Inr (VTime d) \<Rightarrow>
           (case cursor_key_values (rec_config r) (rec_values r) of
              Inl e \<Rightarrow> Inl e
            | Inr ks \<Rightarrow> row_cursor (Some d) ks)
       | Inr _ \<Rightarrow> Inl (Exn TypeError ''Source cursor timestamp must be a datetime'')))"

definition arrow_compatible_values :: "source_record \<Rightarrow> (string \<times> pyvalue) list" where
  "arrow_compatible_values r =
     map (\<lambda>(n, v). (n, case map_of (columns_by_name (rec_config r)) n of
        Some c \<Rightarrow> if postgres_uuid c \<and> v \<noteq> VNone then str_uuid_value v else v
      | None \<Rightarrow> v)) (rec_values r)"

record source_page =
  page_records :: "source_record list"
  page_lower_bound :: cursor_position
  page_extract_upper_bound :: cursor_position

definition source_page_check :: "source_page \<Rightarrow> unit result" where
  "source_page_check p = (case page_records p of
      [] \<Rightarrow> Inl (Exn ValueError ''Source pages must contain at least one record'')
    | r # rs \<Rightarrow> require (list_all (\<lambda>x. rec_config x = rec_config r) (r # rs))
        ''All records in a source page must use the same table config'')"

definition last_cursor :: "source_page \<Rightarrow> cursor_position result" where
  "last_cursor p = record_cursor (last (page_records p))"

section \<open>The SQL of a snapshot\<close>

type_synonym source_row = "pyvalue list"

definition row_values :: "table_config \<Rightarrow> source_row \<Rightarrow> (string \<times> pyvalue) list" where
  "row_values cfg row = zip (source_column_names cfg) row"

text \<open>
  The SQL cursor expression \<open>(timestamp, key COLLATE "C", ...)\<close> of a row. The cursor columns
  are NOT NULL; PostgreSQL orders UUID columns by their bytes, which is the order of their
  printed form.
\<close>

fun sql_key :: "pyvalue \<Rightarrow> key" where
  "sql_key (VStr s) = KStr s"
| "sql_key (VInt i) = KInt i"
| "sql_key (VUuid u) = KStr (uuid_str u)"
| "sql_key _ = KStr []"

fun sql_time :: "pyvalue \<Rightarrow> time" where
  "sql_time (VTime d) = instant d"
| "sql_time _ = 0"

definition column_value :: "table_config \<Rightarrow> source_row \<Rightarrow> string \<Rightarrow> pyvalue" where
  "column_value cfg row name = (case map_of (row_values cfg row) name of Some v \<Rightarrow> v | None \<Rightarrow> VNone)"

definition row_rank :: "table_config \<Rightarrow> source_row \<Rightarrow> time \<times> key list" where
  "row_rank cfg row = (sql_time (column_value cfg row (cursor_timestamp_column cfg)),
     map (\<lambda>n. sql_key (column_value cfg row n)) (cursor_key_columns cfg))"

definition cursor_bound :: "cursor_position \<Rightarrow> (time \<times> key list) option" where
  "cursor_bound c = (case cp_timestamp c of None \<Rightarrow> None | Some t \<Rightarrow> Some (t, cp_keys c))"

text \<open>\<open>WHERE cursor > lower AND cursor <= upper ORDER BY cursor LIMIT n\<close>.\<close>

definition select_page ::
    "table_config \<Rightarrow> source_row list \<Rightarrow> (time \<times> key list) option \<Rightarrow> time \<times> key list \<Rightarrow> nat \<Rightarrow> source_row list" where
  "select_page cfg rows lo hi n =
     take n (sort_key (row_rank cfg)
       (filter (\<lambda>r. past lo (row_rank cfg r) \<and> row_rank cfg r \<le> hi) rows))"

text \<open>\<open>WHERE cond ORDER BY cursor DESC LIMIT 1\<close>.\<close>

definition select_last :: "table_config \<Rightarrow> (source_row \<Rightarrow> bool) \<Rightarrow> source_row list \<Rightarrow> source_row option" where
  "select_last cfg p rows = (case rev (sort_key (row_rank cfg) (filter p rows)) of [] \<Rightarrow> None | r # _ \<Rightarrow> Some r)"

definition row_timestamp :: "table_config \<Rightarrow> source_row \<Rightarrow> datetime option" where
  "row_timestamp cfg row = (case column_value cfg row (cursor_timestamp_column cfg) of VTime d \<Rightarrow> Some d | _ \<Rightarrow> None)"

definition selected_cursor :: "table_config \<Rightarrow> source_row \<Rightarrow> cursor_position result" where
  "selected_cursor cfg row = (case cursor_key_values cfg (row_values cfg row) of
      Inl e \<Rightarrow> Inl e
    | Inr ks \<Rightarrow> row_cursor (row_timestamp cfg row) ks)"

definition fetch_upper_bound ::
    "table_config \<Rightarrow> source_row list \<Rightarrow> cursor_position \<Rightarrow> cursor_position option result" where
  "fetch_upper_bound cfg rows prior =
     (case select_last cfg (\<lambda>r. past (cursor_bound prior) (row_rank cfg r)) rows of
        None \<Rightarrow> Inr None
      | Some row \<Rightarrow> (case selected_cursor cfg row of Inl e \<Rightarrow> Inl e | Inr c \<Rightarrow> Inr (Some c)))"

definition make_source_record :: "table_config \<Rightarrow> source_row \<Rightarrow> source_record result" where
  "make_source_record cfg row =
     (let r = \<lparr>rec_config = cfg, rec_values = row_values cfg row, rec_cursor_override = None\<rparr>
      in case source_record_check r of Inl e \<Rightarrow> Inl e | Inr _ \<Rightarrow> Inr r)"

definition fetch_page ::
    "table_config \<Rightarrow> source_row list \<Rightarrow> cursor_position \<Rightarrow> cursor_position \<Rightarrow> nat \<Rightarrow> source_record list result" where
  "fetch_page cfg rows lower upper page_size =
     results (map (make_source_record cfg)
       (select_page cfg rows (cursor_bound lower) (cursor_rank upper) page_size))"

definition assert_supported_config :: "table_config \<Rightarrow> unit result" where
  "assert_supported_config cfg = (case table_config (source_table cfg) of
      Inl e \<Rightarrow> Inl e
    | Inr c \<Rightarrow> require (c = cfg) ''Table extraction requires a registered table config'')"

definition cursor_before_timestamp ::
    "table_config \<Rightarrow> source_row list \<Rightarrow> datetime \<Rightarrow> cursor_position result" where
  "cursor_before_timestamp cfg rows boundary =
     seq (assert_supported_config cfg)
    (seq (require (utcoffset boundary = Some 0) ''boundary must be a UTC datetime'')
    (case select_last cfg (\<lambda>r. fst (row_rank cfg r) < instant boundary) rows of
       None \<Rightarrow> make_cursor None []
     | Some row \<Rightarrow> selected_cursor cfg row))"

section \<open>The page loop\<close>

record table_snapshot =
  snap_rows :: "source_row list"
  snap_config :: table_config
  snap_watermark_before :: cursor_position
  snap_extract_upper_bound :: "cursor_position option"
  snap_page_size :: nat

definition open_table_snapshot ::
    "(string \<times> string) list \<Rightarrow> source_row list \<Rightarrow> table_config \<Rightarrow> cursor_position \<Rightarrow> int option \<Rightarrow> table_snapshot result" where
  "open_table_snapshot environment rows cfg prior page_size =
     seq (assert_supported_config cfg)
    (seq (assert_cursor cfg prior)
    (case (case page_size of Some n \<Rightarrow> Inr n | None \<Rightarrow> ingestion_page_size environment) of
       Inl e \<Rightarrow> Inl e
     | Inr n \<Rightarrow>
       seq (require (\<not> n \<le> 0) ''page_size must be greater than zero'')
       (case fetch_upper_bound cfg rows prior of
          Inl e \<Rightarrow> Inl e
        | Inr upper \<Rightarrow> Inr \<lparr>snap_rows = rows, snap_config = cfg, snap_watermark_before = prior,
            snap_extract_upper_bound = upper, snap_page_size = nat n\<rparr>)))"

text \<open>
  The generator's loop: the pages it yields and the exception, if any, that ends it. The
  loop has no bound of its own, so its result is optional: \<open>None\<close> is a run that never ends.
\<close>

partial_function (option) pages_from ::
    "table_config \<Rightarrow> source_row list \<Rightarrow> cursor_position \<Rightarrow> nat \<Rightarrow> cursor_position \<Rightarrow> (source_page list \<times> exn option) option" where
  "pages_from cfg rows upper page_size lower =
     (case fetch_page cfg rows lower upper page_size of
        Inl e \<Rightarrow> Some ([], Some e)
      | Inr [] \<Rightarrow> Some ([], None)
      | Inr (r # rs) \<Rightarrow>
         (let page = \<lparr>page_records = r # rs, page_lower_bound = lower, page_extract_upper_bound = upper\<rparr>
          in case source_page_check page of
            Inl e \<Rightarrow> Some ([], Some e)
          | Inr _ \<Rightarrow>
             (if length (r # rs) < page_size then Some ([page], None)
              else case last_cursor page of
                Inl e \<Rightarrow> Some ([page], Some e)
              | Inr c \<Rightarrow> Option.bind (pages_from cfg rows upper page_size c)
                  (\<lambda>(ps, e). Some (page # ps, e)))))"

declare pages_from.simps [code]

definition pages :: "table_snapshot \<Rightarrow> (source_page list \<times> exn option) option" where
  "pages s = (case snap_extract_upper_bound s of
      None \<Rightarrow> Some ([], None)
    | Some upper \<Rightarrow> pages_from (snap_config s) (snap_rows s) upper (snap_page_size s) (snap_watermark_before s))"

interpretation source_reader: keyset_reader "row_rank cfg" "select_page cfg" for cfg
  by unfold_locales (simp add: select_page_def)

section \<open>Well-formed snapshots\<close>

text \<open>
  What the source tables' column types, NOT NULL and primary-key constraints (sql/source/001)
  give for a result set: every configured column has a value, the cursor timestamp is an
  aware UTC value, key columns hold strings, integers or UUIDs, and no two rows share a key.
\<close>

definition key_value_ok :: "source_column \<Rightarrow> pyvalue \<Rightarrow> bool" where
  "key_value_ok c v = (case v of VStr _ \<Rightarrow> True | VInt _ \<Rightarrow> True | VUuid _ \<Rightarrow> postgres_uuid c | _ \<Rightarrow> False)"

definition source_row_ok :: "table_config \<Rightarrow> source_row \<Rightarrow> bool" where
  "source_row_ok cfg row \<longleftrightarrow> length row = length (source_columns cfg) \<and>
     (case column_value cfg row (cursor_timestamp_column cfg) of VTime d \<Rightarrow> utcoffset d = Some 0 | _ \<Rightarrow> False) \<and>
     list_all (\<lambda>n. case map_of (columns_by_name cfg) n of Some c \<Rightarrow> key_value_ok c (column_value cfg row n) | None \<Rightarrow> False)
       (cursor_key_columns cfg)"

definition source_rows_ok :: "table_config \<Rightarrow> source_row list \<Rightarrow> bool" where
  "source_rows_ok cfg rows \<longleftrightarrow> list_all (source_row_ok cfg) rows \<and> distinct (map (\<lambda>r. snd (row_rank cfg r)) rows)"

definition row_position :: "table_config \<Rightarrow> source_row \<Rightarrow> cursor_position" where
  "row_position cfg row = \<lparr>cp_timestamp = Some (fst (row_rank cfg row)), cp_keys = snd (row_rank cfg row)\<rparr>"

definition row_record :: "table_config \<Rightarrow> source_row \<Rightarrow> source_record" where
  "row_record cfg row = \<lparr>rec_config = cfg, rec_values = row_values cfg row, rec_cursor_override = None\<rparr>"

lemma row_position_simps [simp]:
  "cursor_bound (row_position cfg row) = Some (row_rank cfg row)" "cursor_rank (row_position cfg row) = row_rank cfg row"
  by (simp_all add: row_position_def cursor_bound_def cursor_rank_def)

lemma row_record_simps [simp]:
  "rec_config (row_record cfg row) = cfg" "rec_values (row_record cfg row) = row_values cfg row"
  "rec_cursor_override (row_record cfg row) = None"
  by (simp_all add: row_record_def)

lemma results_Inr [simp]: "results (map Inr xs) = Inr xs"
  by (induction xs) auto

lemma results_map_ok: "(\<And>x. x \<in> set xs \<Longrightarrow> f x = Inr (g x)) \<Longrightarrow> results (map f xs) = Inr (map g xs)"
  by (induction xs) auto

lemma map_of_row_values:
  assumes "length row = length (source_columns cfg)" "n \<in> set (source_column_names cfg)"
  shows "map_of (row_values cfg row) n = Some (column_value cfg row n)"
proof -
  have "n \<in> dom (map_of (row_values cfg row))"
    using assms by (simp add: row_values_def source_column_names_def)
  then show ?thesis by (auto simp: column_value_def)
qed

lemma make_source_record_ok:
  "length row = length (source_columns cfg) \<Longrightarrow> make_source_record cfg row = Inr (row_record cfg row)"
  by (simp add: make_source_record_def source_record_check_def row_values_def source_column_names_def
      row_record_def require_def seq_def Let_def)

lemma cursor_key_value_ok:
  assumes "table_config name = Inr cfg" "source_row_ok cfg row" "n \<in> set (cursor_key_columns cfg)"
  shows "cursor_key_value cfg (row_values cfg row) n = Inr (sql_key (column_value cfg row n))"
proof -
  have "n \<in> set (source_column_names cfg)"
    using table_config_ok(2) [OF assms(1)] assms(3) by (auto simp: table_config_check_ok)
  moreover obtain c where "map_of (columns_by_name cfg) n = Some c" "key_value_ok c (column_value cfg row n)"
    using assms(2,3) by (auto simp: source_row_ok_def list_all_iff split: option.splits)
  moreover have "length row = length (source_columns cfg)" using assms(2) by (simp add: source_row_ok_def)
  ultimately show ?thesis
    by (cases "column_value cfg row n")
       (auto simp: cursor_key_value_def get_item_def map_of_row_values key_value_ok_def)
qed

lemma cursor_key_values_ok:
  assumes "table_config name = Inr cfg" "source_row_ok cfg row"
  shows "cursor_key_values cfg (row_values cfg row) = Inr (snd (row_rank cfg row))"
  unfolding cursor_key_values_def row_rank_def
  using results_map_ok [of "cursor_key_columns cfg" "cursor_key_value cfg (row_values cfg row)"
      "\<lambda>n. sql_key (column_value cfg row n)"] cursor_key_value_ok [OF assms]
  by (simp add: comp_def)

lemma row_timestamp_ok:
  assumes "source_row_ok cfg row"
  obtains d where "column_value cfg row (cursor_timestamp_column cfg) = VTime d" "utcoffset d = Some 0"
    "row_timestamp cfg row = Some d" "fst (row_rank cfg row) = instant d"
  using assms by (auto simp: source_row_ok_def row_timestamp_def row_rank_def split: pyvalue.splits)

lemma row_cursor_ok:
  assumes "utcoffset d = Some 0" "ks \<noteq> []"
  shows "row_cursor (Some d) ks = Inr \<lparr>cp_timestamp = Some (instant d), cp_keys = ks\<rparr>"
  using assms those_value_of_key [of ks]
  by (auto simp: row_cursor_def make_cursor_def assert_utc_def simp del: those_value_of_key)

lemma selected_cursor_ok:
  assumes "table_config name = Inr cfg" "source_row_ok cfg row"
  shows "selected_cursor cfg row = Inr (row_position cfg row)"
proof -
  obtain d where d: "utcoffset d = Some 0" "row_timestamp cfg row = Some d" "fst (row_rank cfg row) = instant d"
    using row_timestamp_ok [OF assms(2)] by metis
  have "snd (row_rank cfg row) \<noteq> []"
    using table_config_ok(2) [OF assms(1)] by (auto simp: row_rank_def table_config_check_ok)
  with d show ?thesis
    by (simp add: selected_cursor_def cursor_key_values_ok [OF assms] row_cursor_ok row_position_def)
qed

lemma record_cursor_ok:
  assumes "table_config name = Inr cfg" "source_row_ok cfg row"
  shows "record_cursor (row_record cfg row) = Inr (row_position cfg row)"
proof -
  obtain d where d: "column_value cfg row (cursor_timestamp_column cfg) = VTime d" "utcoffset d = Some 0"
      "fst (row_rank cfg row) = instant d"
    using row_timestamp_ok [OF assms(2)] by metis
  have c: "table_config_check cfg = Inr ()" using assms(1) by (rule table_config_ok)
  then have ne: "snd (row_rank cfg row) \<noteq> []" by (auto simp: row_rank_def table_config_check_ok)
  have "map_of (row_values cfg row) (cursor_timestamp_column cfg) = Some (VTime d)"
    using map_of_row_values [of row cfg "cursor_timestamp_column cfg"] c assms(2) d(1)
    by (simp add: table_config_check_ok source_row_ok_def)
  with d ne show ?thesis
    by (simp add: record_cursor_def get_item_def cursor_key_values_ok [OF assms] row_cursor_ok row_position_def)
qed

lemma source_rows_okD:
  assumes "source_rows_ok cfg rows"
  shows "r \<in> set rows \<Longrightarrow> source_row_ok cfg r" and "distinct (map (row_rank cfg) rows)"
proof -
  show "r \<in> set rows \<Longrightarrow> source_row_ok cfg r" using assms by (simp add: source_rows_ok_def list_all_iff)
  have "distinct (map snd (map (row_rank cfg) rows))" using assms by (simp add: source_rows_ok_def comp_def)
  then show "distinct (map (row_rank cfg) rows)" by (simp only: distinct_map [of snd "map (row_rank cfg) rows"])
qed

lemma fetch_page_ok:
  assumes "source_rows_ok cfg rows"
  shows "fetch_page cfg rows lower upper n =
    Inr (map (row_record cfg) (select_page cfg rows (cursor_bound lower) (cursor_rank upper) n))"
proof -
  have "set (select_page cfg rows (cursor_bound lower) (cursor_rank upper) n) \<subseteq> set rows"
    by (auto simp: select_page_def dest!: in_set_takeD)
  then show ?thesis
    unfolding fetch_page_def
    by (intro results_map_ok make_source_record_ok)
       (use source_rows_okD(1) [OF assms] in \<open>auto simp: source_row_ok_def\<close>)
qed

section \<open>Every row once, in order\<close>

definition extracted_rows :: "table_config \<Rightarrow> source_row list \<Rightarrow> cursor_position \<Rightarrow> cursor_position \<Rightarrow> source_row list" where
  "extracted_rows cfg rows lower upper = source_reader.in_range cfg rows (cursor_bound lower) (cursor_rank upper)"

lemma pages_from_complete:
  assumes "table_config name = Inr cfg" "source_rows_ok cfg rows" "0 < n"
  shows "\<exists>ps. pages_from cfg rows upper n lower = Some (ps, None) \<and>
    concat (map page_records ps) = map (row_record cfg) (extracted_rows cfg rows lower upper) \<and>
    (\<forall>p \<in> set ps. 0 < length (page_records p) \<and> length (page_records p) \<le> n)"
proof (induction "length (extracted_rows cfg rows lower upper)" arbitrary: lower rule: less_induct)
  case less
  let ?S = "select_page cfg rows (cursor_bound lower) (cursor_rank upper) n"
  let ?all = "source_reader.in_range cfg rows (cursor_bound lower) (cursor_rank upper)"
  have sel: "?S = take n ?all" by (rule source_reader.fetch_in_range)
  note step = pages_from.simps [of cfg rows upper n lower] fetch_page_ok [OF assms(2)]
  show ?case
  proof (cases "?S")
    case Nil
    then have "?all = []" using sel assms(3) by auto
    with Nil show ?thesis by (subst step(1)) (simp add: step(2) extracted_rows_def)
  next
    case (Cons r rs)
    define page where "page = \<lparr>page_records = map (row_record cfg) ?S, page_lower_bound = lower,
      page_extract_upper_bound = upper\<rparr>"
    have check: "source_page_check page = Inr ()"
      using Cons by (simp add: source_page_check_def page_def list_all_iff require_def)
    have pages: "pages_from cfg rows upper n lower =
        (if length ?S < n then Some ([page], None)
         else case last_cursor page of Inl e \<Rightarrow> Some ([page], Some e)
           | Inr c \<Rightarrow> Option.bind (pages_from cfg rows upper n c) (\<lambda>(ps, e). Some (page # ps, e)))"
    proof -
      have page: "page = \<lparr>page_records = row_record cfg r # map (row_record cfg) rs, page_lower_bound = lower,
          page_extract_upper_bound = upper\<rparr>"
        using Cons by (simp add: page_def)
      show ?thesis
        unfolding page using Cons check [unfolded page] by (subst step(1)) (simp add: step(2) Let_def)
    qed
    show ?thesis
    proof (cases "length ?S < n")
      case True
      with source_reader.in_range_short have "?all = ?S" by blast
      with True pages Cons show ?thesis by (simp add: page_def extracted_rows_def)
    next
      case False
      then have len: "n \<le> length ?all" using sel by simp
      have ne: "?S \<noteq> []" using Cons by simp
      then have "last ?S \<in> set ?S" by simp
      then have "last ?S \<in> set rows" by (auto simp: select_page_def dest!: in_set_takeD)
      then have "record_cursor (row_record cfg (last ?S)) = Inr (row_position cfg (last ?S))"
        using record_cursor_ok [OF assms(1)] source_rows_okD(1) [OF assms(2)] by blast
      then have c: "last_cursor page = Inr (row_position cfg (last ?S))"
        by (simp add: last_cursor_def page_def last_map [OF ne])
      let ?c = "row_position cfg (last ?S)"
      have split: "extracted_rows cfg rows lower upper = ?S @ extracted_rows cfg rows ?c upper"
        unfolding extracted_rows_def row_position_simps
        using source_reader.in_range_next [OF source_rows_okD(2) [OF assms(2)] assms(3) len] .
      then have "length (extracted_rows cfg rows ?c upper) < length (extracted_rows cfg rows lower upper)"
        using Cons by simp
      from less [OF this] obtain ps where ps: "pages_from cfg rows upper n ?c = Some (ps, None)"
          "concat (map page_records ps) = map (row_record cfg) (extracted_rows cfg rows ?c upper)"
          "\<forall>p \<in> set ps. 0 < length (page_records p) \<and> length (page_records p) \<le> n"
        by blast
      have "pages_from cfg rows upper n lower = Some (page # ps, None)"
        using pages False c ps(1) by simp
      moreover have "length ?S = n" using len sel by simp
      moreover have "concat (map page_records (page # ps)) = map (row_record cfg) (extracted_rows cfg rows lower upper)"
        using ps(2) by (simp add: page_def split)
      ultimately show ?thesis using ps(3) assms(3) by (intro exI [of _ "page # ps"] conjI) (auto simp: page_def)
    qed
  qed
qed


lemma pages_from_finite: 
  assumes "table_config name = Inr cfg" "source_rows_ok cfg rows" "0 < n"
  shows "\<exists>r. pages_from cfg rows upper n lower = Some r"
  using pages_from_complete [OF assms] by blast

section \<open>Bounds\<close>

lemma select_last_None: "select_last cfg p rows = None \<longleftrightarrow> (\<forall>r \<in> set rows. \<not> p r)"
proof -
  have "sort_key (row_rank cfg) (filter p rows) = [] \<longleftrightarrow> filter p rows = []"
    by (metis length_0_conv length_sort)
  then show ?thesis by (auto simp: select_last_def filter_empty_conv split: list.splits)
qed

lemma select_last_Some:
  assumes "select_last cfg p rows = Some r"
  shows "r \<in> set rows \<and> p r \<and> (\<forall>r' \<in> set rows. p r' \<longrightarrow> row_rank cfg r' \<le> row_rank cfg r)"
proof -
  let ?s = "sort_key (row_rank cfg) (filter p rows)"
  from assms obtain ys where "rev ?s = r # ys" by (auto simp: select_last_def split: list.splits)
  then have s: "?s = rev ys @ [r]" by (metis rev.simps(2) rev_rev_ident)
  have set: "set ?s = {x \<in> set rows. p x}" by simp
  have "sorted (map (row_rank cfg) (rev ys @ [r]))" unfolding s [symmetric] by simp
  then have "\<forall>x \<in> set ?s. row_rank cfg x \<le> row_rank cfg r" unfolding s by (auto simp: sorted_append)
  moreover have "r \<in> set ?s" unfolding s by simp
  ultimately show ?thesis using set by auto
qed

text \<open>The upper bound is the greatest cursor above the watermark, when there is one.\<close>

lemma fetch_upper_bound_ok:
  assumes "table_config name = Inr cfg" "source_rows_ok cfg rows"
  shows "fetch_upper_bound cfg rows prior = Inr None \<and>
      (\<forall>r \<in> set rows. \<not> past (cursor_bound prior) (row_rank cfg r)) \<or>
    (\<exists>r \<in> set rows. fetch_upper_bound cfg rows prior = Inr (Some (row_position cfg r)) \<and>
      past (cursor_bound prior) (row_rank cfg r) \<and>
      (\<forall>r' \<in> set rows. row_rank cfg r' \<le> row_rank cfg r))"
proof (cases "select_last cfg (\<lambda>r. past (cursor_bound prior) (row_rank cfg r)) rows")
  case None
  moreover from this have "\<forall>r \<in> set rows. \<not> past (cursor_bound prior) (row_rank cfg r)"
    unfolding select_last_None .
  ultimately show ?thesis by (simp add: fetch_upper_bound_def)
next
  case (Some r)
  from select_last_Some [OF this] have r: "r \<in> set rows" "past (cursor_bound prior) (row_rank cfg r)"
      "\<forall>r' \<in> set rows. past (cursor_bound prior) (row_rank cfg r') \<longrightarrow> row_rank cfg r' \<le> row_rank cfg r" by auto
  have "\<forall>r' \<in> set rows. row_rank cfg r' \<le> row_rank cfg r"
  proof
    fix r' assume "r' \<in> set rows"
    with r show "row_rank cfg r' \<le> row_rank cfg r"
      by (cases "past (cursor_bound prior) (row_rank cfg r')") (auto simp: past_def split: option.splits)
  qed
  with Some r selected_cursor_ok [OF assms(1) source_rows_okD(1) [OF assms(2) r(1)]] show ?thesis
    by (auto simp: fetch_upper_bound_def)
qed

text \<open>With that bound the pages hold every row above the watermark.\<close>

lemma extracted_rows_upper:
  assumes "table_config name = Inr cfg" "source_rows_ok cfg rows"
    and "fetch_upper_bound cfg rows prior = Inr (Some upper)"
  shows "set (extracted_rows cfg rows prior upper) = {r \<in> set rows. past (cursor_bound prior) (row_rank cfg r)}"
  using fetch_upper_bound_ok [OF assms(1,2), of prior] assms(3)
  by (auto simp: extracted_rows_def source_reader.set_in_range)

lemma fetch_upper_bound_again:
  assumes "table_config name = Inr cfg" "source_rows_ok cfg rows"
    and "fetch_upper_bound cfg rows prior = Inr (Some upper)"
  shows "fetch_upper_bound cfg rows upper = Inr None"
proof -
  obtain r where r: "upper = row_position cfg r" "\<forall>r' \<in> set rows. row_rank cfg r' \<le> row_rank cfg r"
    using fetch_upper_bound_ok [OF assms(1,2), of prior] assms(3) by auto
  then have "\<forall>r' \<in> set rows. \<not> past (cursor_bound upper) (row_rank cfg r')"
    by (auto simp: past_def not_less)
  then show ?thesis by (simp add: fetch_upper_bound_def select_last_None [THEN iffD2])
qed

lemma cursor_before_timestamp_ok:
  assumes "table_config name = Inr cfg" "source_rows_ok cfg rows"
    and "cursor_before_timestamp cfg rows boundary = Inr c"
  shows "utcoffset boundary = Some 0 \<and> cursor_ok c \<and>
    (\<forall>r \<in> set rows. past (cursor_bound c) (row_rank cfg r) \<longleftrightarrow> instant boundary \<le> fst (row_rank cfg r))"
proof (cases "select_last cfg (\<lambda>r. fst (row_rank cfg r) < instant boundary) rows")
  case None
  then have "\<forall>r \<in> set rows. instant boundary \<le> fst (row_rank cfg r)"
    unfolding select_last_None by (simp add: not_less)
  moreover from assms(3) have "c = \<lparr>cp_timestamp = None, cp_keys = []\<rparr> \<and> utcoffset boundary = Some 0"
    unfolding cursor_before_timestamp_def None by (simp add: make_cursor_def)
  ultimately show ?thesis by (simp add: cursor_bound_def past_def cursor_ok_def)
next
  case (Some r)
  from select_last_Some [OF this] have r: "r \<in> set rows" "fst (row_rank cfg r) < instant boundary"
      "\<forall>r' \<in> set rows. fst (row_rank cfg r') < instant boundary \<longrightarrow> row_rank cfg r' \<le> row_rank cfg r" by auto
  have ok: "source_row_ok cfg r" using assms(2) r(1) by (rule source_rows_okD)
  have c: "c = row_position cfg r" and utc: "utcoffset boundary = Some 0"
    using assms(3) Some selected_cursor_ok [OF assms(1) ok] by (auto simp: cursor_before_timestamp_def)
  have "snd (row_rank cfg r) \<noteq> []"
    using table_config_ok(2) [OF assms(1)] by (auto simp: row_rank_def table_config_check_ok)
  then have "cursor_ok c" by (simp add: c cursor_ok_def row_position_def)
  moreover have "row_rank cfg r < row_rank cfg r' \<longleftrightarrow> instant boundary \<le> fst (row_rank cfg r')"
    if "r' \<in> set rows" for r'
  proof
    assume "row_rank cfg r < row_rank cfg r'"
    then show "instant boundary \<le> fst (row_rank cfg r')" using r(3) that by (meson leD leI)
  next
    assume "instant boundary \<le> fst (row_rank cfg r')"
    with r(2) have "fst (row_rank cfg r) < fst (row_rank cfg r')" by simp
    then show "row_rank cfg r < row_rank cfg r'" by (simp add: less_prod_def)
  qed
  ultimately show ?thesis using utc by (simp add: c past_def)
qed

end
