(* ===== verification/Validation.thy ===== *)
theory Validation
  imports Extract "HOL-Library.Multiset"
begin

text \<open>
  Row validation (src/ingestion/extraction): the rule checks of validation.py, the parent
  references of references.py, the test corruption of corruption.py and the quarantine rows
  and reject threshold of quarantine.py.
\<close>

section \<open>Type, domain and range checks\<close>

fun matches_arrow_type :: "pyvalue \<Rightarrow> arrow_type \<Rightarrow> bool" where
  "matches_arrow_type (VStr _) ArrowString = True"
| "matches_arrow_type (VInt _) ArrowInt32 = True"
| "matches_arrow_type (VBool _) ArrowBool = True"
| "matches_arrow_type (VDecimal _ _) ArrowDecimal_14_2 = True"
| "matches_arrow_type (VTime d) ArrowTimestampUs = (utcoffset d \<noteq> None)"
| "matches_arrow_type _ _ = False"

definition is_uuid :: "pyvalue \<Rightarrow> bool" where
  "is_uuid v = (case v of VUuid _ \<Rightarrow> True | _ \<Rightarrow> False)"

definition matches_source_column_type :: "pyvalue \<Rightarrow> source_column \<Rightarrow> bool" where
  "matches_source_column_type v c \<longleftrightarrow> (postgres_uuid c \<and> is_uuid v) \<or> matches_arrow_type v (col_type c)"

definition column_errors :: "(string \<times> pyvalue) list \<Rightarrow> source_column \<Rightarrow> string list" where
  "column_errors vs c =
     (let v = (case map_of vs (col_name c) of Some v \<Rightarrow> v | None \<Rightarrow> VNone)
      in if v = VNone then (if nullable c then [] else [''REQUIRED_NULL''])
         else if matches_source_column_type v c then [] else [''TYPE_MISMATCH''])"

definition schema_and_type_errors :: "table_config \<Rightarrow> (string \<times> pyvalue) list \<Rightarrow> string list" where
  "schema_and_type_errors cfg vs =
     (if map fst vs \<noteq> source_column_names cfg then [''SCHEMA_MISMATCH'']
      else concat (map (column_errors vs) (source_columns cfg)))"

text \<open>
  \<open>value < minimum\<close> for a value of a numeric column; the registered minimums are all on
  integer and decimal columns.
\<close>

fun numeric_below :: "pyvalue \<Rightarrow> int \<Rightarrow> bool" where
  "numeric_below (VInt i) m = (i < m)"
| "numeric_below (VDecimal n k) m = (n < m * 10 ^ k)"
| "numeric_below _ _ = False"

definition value_get :: "(string \<times> pyvalue) list \<Rightarrow> string \<Rightarrow> pyvalue" where
  "value_get vs n = (case map_of vs n of Some v \<Rightarrow> v | None \<Rightarrow> VNone)"

definition in_domain :: "pyvalue \<Rightarrow> string list \<Rightarrow> bool" where
  "in_domain v domain = (case v of VStr s \<Rightarrow> s \<in> set domain | _ \<Rightarrow> False)"

definition domain_errors :: "(string \<times> pyvalue) list \<Rightarrow> string \<times> string list \<Rightarrow> string list" where
  "domain_errors vs = (\<lambda>(column, domain).
     (if value_get vs column \<noteq> VNone \<and> \<not> in_domain (value_get vs column) domain
      then [''STATUS_DOMAIN_INVALID''] else []))"

definition range_errors :: "table_config \<Rightarrow> (string \<times> pyvalue) list \<Rightarrow> string \<times> int \<Rightarrow> string list" where
  "range_errors cfg vs = (\<lambda>(column, minimum).
     (case map_of (columns_by_name cfg) column of
        None \<Rightarrow> []
      | Some c \<Rightarrow>
        (if value_get vs column \<noteq> VNone \<and> matches_arrow_type (value_get vs column) (col_type c) \<and>
            numeric_below (value_get vs column) minimum
         then [''NUMERIC_RANGE_INVALID''] else [])))"

definition domain_and_numeric_errors :: "table_config \<Rightarrow> (string \<times> pyvalue) list \<Rightarrow> string list" where
  "domain_and_numeric_errors cfg vs =
     concat (map (domain_errors vs) (status_domains cfg)) @
     concat (map (range_errors cfg vs) (numeric_minimums cfg))"

definition cursor_in_range :: "cursor_position \<Rightarrow> cursor_position \<Rightarrow> cursor_position \<Rightarrow> bool" where
  "cursor_in_range c lower upper =
     (if cp_timestamp c = None then False
      else if cp_timestamp lower \<noteq> None \<and> cursor_rank c \<le> cursor_rank lower then False
      else cursor_rank c \<le> cursor_rank upper)"

section \<open>The pipeline of one batch\<close>

record rejected_record =
  rej_record :: source_record
  rej_ordinal :: nat
  rej_error_codes :: "string list"

record validated_page =
  valid_records :: "source_record list"
  rejected_records :: "rejected_record list"

record validation_pipeline =
  vp_config :: table_config
  vp_watermark_before :: cursor_position
  vp_extract_upper_bound :: cursor_position
  seen_primary_keys :: "pyvalue list list"
  next_ordinal :: nat

definition new_validation_pipeline :: "table_config \<Rightarrow> cursor_position \<Rightarrow> cursor_position \<Rightarrow> validation_pipeline" where
  "new_validation_pipeline cfg prior upper = \<lparr>vp_config = cfg, vp_watermark_before = prior,
     vp_extract_upper_bound = upper, seen_primary_keys = [], next_ordinal = 0\<rparr>"

definition primary_key_of :: "table_config \<Rightarrow> (string \<times> pyvalue) list \<Rightarrow> pyvalue list" where
  "primary_key_of cfg vs = map (value_get vs) (primary_key_columns cfg)"

definition key_error :: "pyvalue list \<Rightarrow> pyvalue list list \<Rightarrow> string list" where
  "key_error pk seen =
     (if VNone \<in> set pk then [''KEY_NULL''] else if pk \<in> set seen then [''BATCH_DUPLICATE''] else [])"

definition validate_record :: "source_record \<Rightarrow> key list list \<Rightarrow> (validation_pipeline, string list) op" where
  "validate_record r broken =
     bindM (getM id) (\<lambda>vp.
     let vs = rec_values r; cfg = vp_config vp; errors = schema_and_type_errors cfg vs in
     bindM (assertM (''SCHEMA_MISMATCH'' \<notin> set errors) BatchValidationContractError
              ''Source schema differs from the configured contract'') (\<lambda>_.
     bindM (liftM (record_cursor r)) (\<lambda>c.
     bindM (assertM (cursor_in_range c (vp_watermark_before vp) (vp_extract_upper_bound vp))
              BatchValidationContractError ''Source record cursor is outside the fixed extraction range'') (\<lambda>_.
     let pk = primary_key_of cfg vs in
     bindM (modifyM (\<lambda>s. if VNone \<notin> set pk \<and> pk \<notin> set (seen_primary_keys vp)
              then s\<lparr>seen_primary_keys := seen_primary_keys s @ [pk]\<rparr> else s)) (\<lambda>_.
     returnM (errors @ key_error pk (seen_primary_keys vp) @ domain_and_numeric_errors cfg vs @
       (if cp_keys c \<in> set broken then [''BROKEN_REFERENCE''] else [])))))))"

text \<open>The loop over the records of a page; \<open>_next_ordinal\<close> advances before the record is checked.\<close>

fun validate_records ::
    "source_record list \<Rightarrow> key list list \<Rightarrow> (validation_pipeline, validated_page) op" where
  "validate_records [] broken = returnM \<lparr>valid_records = [], rejected_records = []\<rparr>"
| "validate_records (r # rs) broken =
     bindM (getM next_ordinal) (\<lambda>ordinal.
     bindM (modifyM (\<lambda>s. s\<lparr>next_ordinal := ordinal + 1\<rparr>)) (\<lambda>_.
     bindM (validate_record r broken) (\<lambda>codes.
     bindM (validate_records rs broken) (\<lambda>p.
     returnM (if codes \<noteq> []
       then p\<lparr>rejected_records := \<lparr>rej_record = r, rej_ordinal = ordinal, rej_error_codes = codes\<rparr> # rejected_records p\<rparr>
       else p\<lparr>valid_records := r # valid_records p\<rparr>)))))"

definition validate_page :: "source_page \<Rightarrow> key list list \<Rightarrow> (validation_pipeline, validated_page) op" where
  "validate_page p broken =
     bindM (getM vp_config) (\<lambda>cfg.
     bindM (assertM (case page_records p of [] \<Rightarrow> False | r # _ \<Rightarrow> rec_config r = cfg)
              ValueError ''Validation page must use the pipeline table config'') (\<lambda>_.
     validate_records (page_records p) broken))"

section \<open>Parent references\<close>

record parent_reference =
  child_column :: string
  parent_table :: string
  parent_column :: string

record broken_reference =
  child_table :: string
  child_cursor :: "key list"
  broken_child_column :: string
  broken_parent_table :: string
  missing_key :: key

definition CHILD_PARENT_REFERENCES :: "(string \<times> parent_reference list) list" where
  "CHILD_PARENT_REFERENCES =
     [(''order_items'',
        [\<lparr>child_column = ''order_id'', parent_table = ''orders'', parent_column = ''order_id''\<rparr>,
         \<lparr>child_column = ''product_id'', parent_table = ''products'', parent_column = ''product_id''\<rparr>,
         \<lparr>child_column = ''seller_id'', parent_table = ''sellers'', parent_column = ''seller_id''\<rparr>]),
      (''order_payments'',
        [\<lparr>child_column = ''order_id'', parent_table = ''orders'', parent_column = ''order_id''\<rparr>])]"

text \<open>
  The parent tables of the same snapshot, as the values of a column of a table. The query
  returns those among the asked keys; \<open>NULL\<close> equals nothing, and psycopg refuses a bare
  object as a parameter.
\<close>

type_synonym parent_tables = "string \<Rightarrow> string \<Rightarrow> pyvalue list"

definition parent_keys :: "parent_tables \<Rightarrow> parent_reference \<Rightarrow> pyvalue list \<Rightarrow> pyvalue list result" where
  "parent_keys parents ref keys =
     (if keys = [] then Inr []
      else if list_ex (\<lambda>v. case v of VObject _ \<Rightarrow> True | _ \<Rightarrow> False) keys
      then Inl (Exn (OtherError ''ProgrammingError'') ''cannot adapt type'')
      else let found = filter (\<lambda>v. v \<noteq> VNone \<and> v \<in> set keys) (parents (parent_table ref) (parent_column ref))
           in if list_ex (\<lambda>v. key_of_value v = None) found
              then Inl (Exn TypeError ''Parent reference keys must be strings or integers'')
              else Inr found)"

definition broken_reference_of ::
    "string \<Rightarrow> parent_reference \<Rightarrow> pyvalue list \<Rightarrow> source_record \<Rightarrow> broken_reference list result" where
  "broken_reference_of table ref present r =
     (case get_item (child_column ref) (rec_values r) of
        Inl e \<Rightarrow> Inl e
      | Inr v \<Rightarrow>
        (if v \<in> set present then Inr []
         else case key_of_value v of
           None \<Rightarrow> Inl (Exn TypeError ''Parent reference keys must be strings or integers'')
         | Some k \<Rightarrow> (case record_cursor r of
             Inl e \<Rightarrow> Inl e
           | Inr c \<Rightarrow> Inr [\<lparr>child_table = table, child_cursor = cp_keys c, broken_child_column = child_column ref,
               broken_parent_table = parent_table ref, missing_key = k\<rparr>])))"

definition broken_for_reference ::
    "parent_tables \<Rightarrow> string \<Rightarrow> source_record list \<Rightarrow> parent_reference \<Rightarrow> broken_reference list result" where
  "broken_for_reference parents table rs ref =
     (case results (map (\<lambda>r. get_item (child_column ref) (rec_values r)) rs) of
        Inl e \<Rightarrow> Inl e
      | Inr keys \<Rightarrow> (case parent_keys parents ref keys of
          Inl e \<Rightarrow> Inl e
        | Inr present \<Rightarrow> map_sum id concat (results (map (broken_reference_of table ref present) rs))))"

definition find_broken_parent_references ::
    "parent_tables \<Rightarrow> table_config \<Rightarrow> source_page \<Rightarrow> broken_reference list result" where
  "find_broken_parent_references parents cfg p =
     (if (case page_records p of [] \<Rightarrow> False | r # _ \<Rightarrow> rec_config r \<noteq> cfg)
      then Inl (Exn ValueError ''Source page config must match the snapshot config'')
      else map_sum id concat
        (results (map (broken_for_reference parents (source_table cfg) (page_records p))
           (case map_of CHILD_PARENT_REFERENCES (source_table cfg) of Some refs \<Rightarrow> refs | None \<Rightarrow> []))))"

section \<open>Deterministic corruption\<close>

definition SUPPORTED_CORRUPTION_KINDS :: "string list" where
  "SUPPORTED_CORRUPTION_KINDS = [''NULL_PRIMARY_KEY'', ''INVALID_STATUS'', ''NEGATIVE_NUMERIC'', ''TYPE_MISMATCH'',
     ''BROKEN_REFERENCE'', ''DUPLICATE_PRIMARY_KEY'']"

type_synonym corruption_plan = "(int \<times> string) list"

definition corruption_plan_check :: "corruption_plan \<Rightarrow> unit result" where
  "corruption_plan_check plan =
     require (\<not> list_ex (\<lambda>(ordinal, kind). ordinal < 0 \<or> kind \<notin> set SUPPORTED_CORRUPTION_KINDS) plan)
       ''Corruption rules must use non-negative ordinals and supported kinds''"

text \<open>\<open>d[k] = v\<close>: in place when the key is there, at the end otherwise.\<close>

definition dict_set :: "string \<Rightarrow> 'a \<Rightarrow> (string \<times> 'a) list \<Rightarrow> (string \<times> 'a) list" where
  "dict_set k v d = (if k \<in> fst ` set d then map (\<lambda>(n, w). (n, if n = k then v else w)) d else d @ [(k, v)])"

text \<open>\<open>SourceRecord(config, values, cursor_override=record.cursor)\<close>.\<close>

definition with_values :: "source_record \<Rightarrow> (string \<times> pyvalue) list \<Rightarrow> source_record result" where
  "with_values r vs = (case record_cursor r of
      Inl e \<Rightarrow> Inl e
    | Inr c \<Rightarrow> (let r' = \<lparr>rec_config = rec_config r, rec_values = vs, rec_cursor_override = Some c\<rparr>
        in case source_record_check r' of Inl e \<Rightarrow> Inl e | Inr _ \<Rightarrow> Inr r'))"

definition child_reference_column :: "source_record \<Rightarrow> string result" where
  "child_reference_column r =
     (if source_table (rec_config r) \<in> {''order_items'', ''order_payments''} then Inr ''order_id''
      else Inl (Exn ValueError ''BROKEN_REFERENCE requires a child table record''))"

definition corrupted_values :: "source_record \<Rightarrow> int \<Rightarrow> string \<Rightarrow> (string \<times> pyvalue) list result" where
  "corrupted_values r ordinal kind =
     (let cfg = rec_config r; vs = rec_values r in
      if kind = ''NULL_PRIMARY_KEY'' then Inr (dict_set (hd (primary_key_columns cfg)) VNone vs)
      else if kind = ''INVALID_STATUS'' then
        (case status_domains cfg of
           [] \<Rightarrow> Inl (Exn ValueError ''INVALID_STATUS requires a configured status domain'')
         | (column, _) # _ \<Rightarrow> Inr (dict_set column (VStr ''__invalid_status__'') vs))
      else if kind = ''NEGATIVE_NUMERIC'' then
        (case numeric_minimums cfg of
           [] \<Rightarrow> Inl (Exn ValueError ''NEGATIVE_NUMERIC requires a configured numeric minimum'')
         | (column, _) # _ \<Rightarrow> Inr (dict_set column (VInt (-1)) vs))
      else if kind = ''TYPE_MISMATCH'' then
        Inr (dict_set (last (primary_key_columns cfg)) (VObject (nat ordinal)) vs)
      else if kind = ''BROKEN_REFERENCE'' then
        map_sum id (\<lambda>column. dict_set column (VStr ''__missing_parent__'') vs) (child_reference_column r)
      else Inr vs)"

definition apply_corruption :: "corruption_plan \<Rightarrow> source_record \<Rightarrow> int \<Rightarrow> source_record result" where
  "apply_corruption plan r ordinal = (case map_of plan ordinal of
      None \<Rightarrow> Inr r
    | Some kind \<Rightarrow>
      (if kind = ''DUPLICATE_PRIMARY_KEY''
       then Inl (Exn ValueError ''DUPLICATE_PRIMARY_KEY needs the previous record; use apply_page'')
       else case corrupted_values r ordinal kind of
         Inl e \<Rightarrow> Inl e
       | Inr vs \<Rightarrow> with_values r vs))"

definition with_primary_key_of :: "source_record \<Rightarrow> source_record \<Rightarrow> source_record result" where
  "with_primary_key_of r previous =
     (case results (map (\<lambda>c. get_item c (rec_values previous)) (primary_key_columns (rec_config r))) of
        Inl e \<Rightarrow> Inl e
      | Inr vs \<Rightarrow> with_values r (fold (\<lambda>(c, v). dict_set c v) (zip (primary_key_columns (rec_config r)) vs) (rec_values r)))"

text \<open>\<open>apply_page\<close>: \<open>previous\<close> is the last record of the output so far.\<close>

fun apply_page ::
    "corruption_plan \<Rightarrow> source_record list \<Rightarrow> int \<Rightarrow> source_record option \<Rightarrow> source_record list result" where
  "apply_page plan [] ordinal previous = Inr []"
| "apply_page plan (r # rs) ordinal previous =
     (case (if map_of plan ordinal \<noteq> Some ''DUPLICATE_PRIMARY_KEY'' then apply_corruption plan r ordinal
            else case previous of
              None \<Rightarrow> Inl (Exn ValueError ''DUPLICATE_PRIMARY_KEY requires a preceding record in the page'')
            | Some p \<Rightarrow> with_primary_key_of r p) of
        Inl e \<Rightarrow> Inl e
      | Inr r' \<Rightarrow> (case apply_page plan rs (ordinal + 1) (Some r') of
          Inl e \<Rightarrow> Inl e
        | Inr rs' \<Rightarrow> Inr (r' # rs')))"

definition inject_corruption ::
    "corruption_plan option \<Rightarrow> source_record list \<Rightarrow> int \<Rightarrow> (source_record list \<times> nat) result" where
  "inject_corruption plan rs first_ordinal = (case plan of
      None \<Rightarrow> Inr (rs, 0)
    | Some p \<Rightarrow>
      (let corrupted = length (filter (\<lambda>i. map_of p (first_ordinal + int i) \<noteq> None) [0..<length rs])
       in map_sum id (\<lambda>out. (out, corrupted)) (apply_page p rs first_ordinal None)))"

section \<open>Canonical JSON\<close>

text \<open>
  \<open>json.dumps(row, default=..., ensure_ascii=False, separators=(",", ":"), sort_keys=True)\<close>.
  A UUID or a bare object reaches the default, which refuses it.
\<close>

definition json_char :: "char \<Rightarrow> string" where
  "json_char c = (let k = (of_char c :: nat) in
     if k = 34 then [CHR 0x5C, CHR 0x22] else if k = 92 then [CHR 0x5C, CHR 0x5C]
     else if k = 10 then [CHR 0x5C, CHR ''n''] else if k = 13 then [CHR 0x5C, CHR ''r'']
     else if k = 9 then [CHR 0x5C, CHR ''t''] else if k = 8 then [CHR 0x5C, CHR ''b'']
     else if k = 12 then [CHR 0x5C, CHR ''f'']
     else if k < 32 then [CHR 0x5C, CHR ''u''] @ hex 4 k else [c])"

definition json_string :: "string \<Rightarrow> string" where
  "json_string s = [CHR 0x22] @ concat (map json_char s) @ [CHR 0x22]"

text \<open>\<open>format(value, "f")\<close>.\<close>

definition format_decimal :: "int \<Rightarrow> nat \<Rightarrow> string" where
  "format_decimal n k = (let a = nat (abs n) in
     (if n < 0 then ''-'' else []) @ show_nat (a div 10 ^ k) @ (if k = 0 then [] else ''.'' @ pad k (a mod 10 ^ k)))"

definition json_of_value :: "(datetime \<Rightarrow> time result) \<Rightarrow> string \<Rightarrow> pyvalue \<Rightarrow> string result" where
  "json_of_value to_utc unsupported v = (case v of
      VNone \<Rightarrow> Inr ''null''
    | VStr s \<Rightarrow> Inr (json_string s)
    | VInt i \<Rightarrow> Inr (show_int i)
    | VBool b \<Rightarrow> Inr (if b then ''true'' else ''false'')
    | VDecimal n k \<Rightarrow> Inr (json_string (format_decimal n k))
    | VTime d \<Rightarrow> map_sum id (\<lambda>t. json_string (isoformat t)) (to_utc d)
    | VUuid _ \<Rightarrow> Inl (Exn TypeError (unsupported @ '': UUID''))
    | VObject _ \<Rightarrow> Inl (Exn TypeError (unsupported @ '': object'')))"

definition join_with :: "string \<Rightarrow> string list \<Rightarrow> string" where
  "join_with sep xs = (case xs of [] \<Rightarrow> [] | x # xs \<Rightarrow> x @ concat (map (\<lambda>y. sep @ y) xs))"

definition canonical_row ::
    "(datetime \<Rightarrow> time result) \<Rightarrow> string \<Rightarrow> (string \<times> pyvalue) list \<Rightarrow> string result" where
  "canonical_row to_utc unsupported row =
     map_sum id (\<lambda>ms. ''{'' @ join_with '','' ms @ ''}'')
       (results (map (\<lambda>(n, v). map_sum id (\<lambda>t. json_string n @ '':'' @ t) (json_of_value to_utc unsupported v))
         (sort_key fst row)))"

section \<open>Quarantine\<close>

record quarantine_context =
  qc_batch_id :: string
  qc_run_id :: uuid
  qc_detected_at :: datetime
  qc_source_table :: string

definition quarantine_context_check :: "quarantine_context \<Rightarrow> unit result" where
  "quarantine_context_check c =
     seq (require (\<not> (blank (qc_batch_id c) \<or> blank (qc_source_table c)))
            ''batch_id and source_table must not be empty'')
         (require (utcoffset (qc_detected_at c) = Some 0) ''detected_at must be normalized to UTC'')"

definition qc_table_batch_id :: "quarantine_context \<Rightarrow> string" where
  "qc_table_batch_id c = qc_batch_id c @ ''__'' @ qc_source_table c"

definition QUARANTINE_RECORD_NAMESPACE :: uuid where
  "QUARANTINE_RECORD_NAMESPACE = 0xa5c4e58cfac75fc593fa35f3f74d6518"

definition quarantine_record_id :: "(uuid \<Rightarrow> string \<Rightarrow> uuid) \<Rightarrow> string \<Rightarrow> int \<Rightarrow> string result" where
  "quarantine_record_id uuid5 batch_key ordinal =
     (if blank batch_key \<or> ordinal < 0
      then Inl (Exn ValueError ''table_batch_id must not be empty and ordinal must be non-negative'')
      else Inr (uuid_str (uuid5 QUARANTINE_RECORD_NAMESPACE (batch_key @ '':'' @ show_int ordinal))))"

record quarantine_parquet_row =
  qp_record_id :: string
  qp_source_table :: string
  qp_batch_id :: string
  qp_run_id :: string
  qp_detected_at :: datetime
  qp_error_codes :: "string list"
  qp_raw_payload :: string

definition quarantine_row ::
    "(time \<Rightarrow> int) \<Rightarrow> (uuid \<Rightarrow> string \<Rightarrow> uuid) \<Rightarrow> quarantine_context \<Rightarrow> rejected_record \<Rightarrow> quarantine_parquet_row result" where
  "quarantine_row local_offset uuid5 c rej =
     (case quarantine_record_id uuid5 (qc_table_batch_id c) (int (rej_ordinal rej)) of
        Inl e \<Rightarrow> Inl e
      | Inr i \<Rightarrow>
        (case canonical_row (\<lambda>d. Inr (astimezone_utc local_offset d)) ''Unsupported quarantine value'' (rec_values (rej_record rej)) of
           Inl e \<Rightarrow> Inl e
         | Inr payload \<Rightarrow> Inr \<lparr>qp_record_id = i, qp_source_table = source_table (rec_config (rej_record rej)),
             qp_batch_id = qc_batch_id c, qp_run_id = uuid_str (qc_run_id c), qp_detected_at = qc_detected_at c,
             qp_error_codes = rej_error_codes rej, qp_raw_payload = payload\<rparr>))"

text \<open>The writer: rows written so far, the \<open>Counter\<close> of error codes, and whether it is closed.\<close>

record quarantine_writer =
  qw_context :: quarantine_context
  qw_rows :: "quarantine_parquet_row list"
  qw_error_counts :: "(string \<times> int) list"
  qw_closed :: bool

definition new_quarantine_writer :: "quarantine_context \<Rightarrow> quarantine_writer" where
  "new_quarantine_writer c = \<lparr>qw_context = c, qw_rows = [], qw_error_counts = [], qw_closed = False\<rparr>"

definition count_code :: "string \<Rightarrow> (string \<times> int) list \<Rightarrow> (string \<times> int) list" where
  "count_code code d = dict_set code ((case map_of d code of Some n \<Rightarrow> n | None \<Rightarrow> 0) + 1) d"

definition write_rejected_records ::
    "(time \<Rightarrow> int) \<Rightarrow> (uuid \<Rightarrow> string \<Rightarrow> uuid) \<Rightarrow> rejected_record list \<Rightarrow> (quarantine_writer, unit) op" where
  "write_rejected_records local_offset uuid5 rejs =
     bindM (getM qw_closed) (\<lambda>closed.
     bindM (assertM (\<not> closed) RuntimeError ''Quarantine Writer is already closed'') (\<lambda>_.
     if rejs = [] then returnM ()
     else bindM (getM qw_context) (\<lambda>c.
       bindM (liftM (results (map (quarantine_row local_offset uuid5 c) rejs))) (\<lambda>rows.
       modifyM (\<lambda>w. w\<lparr>qw_rows := qw_rows w @ rows,
         qw_error_counts := fold count_code (concat (map rej_error_codes rejs)) (qw_error_counts w)\<rparr>)))))"

record quarantine_artifact =
  qa_rows :: "quarantine_parquet_row list"
  qa_row_count :: nat
  qa_error_counts :: "(string \<times> int) list"

definition close_quarantine_writer :: "(quarantine_writer, quarantine_artifact) op" where
  "close_quarantine_writer =
     bindM (getM id) (\<lambda>w.
     bindM (assertM (\<not> qw_closed w) RuntimeError ''Quarantine Writer is already closed'') (\<lambda>_.
     bindM (modifyM (\<lambda>w. w\<lparr>qw_closed := True\<rparr>)) (\<lambda>_.
     returnM \<lparr>qa_rows = qw_rows w, qa_row_count = length (qw_rows w), qa_error_counts = sort_key fst (qw_error_counts w)\<rparr>)))"

text \<open>
  \<open>rejected_rows / total_rows > 0.05\<close>. Both sides are the doubles nearest to the exact
  fractions, so below 2^50 rows the comparison is the one of the fractions.
\<close>

definition assert_reject_rate :: "int \<Rightarrow> int \<Rightarrow> unit result" where
  "assert_reject_rate total_rows rejected_rows =
     (if total_rows < 0 \<or> rejected_rows < 0 \<or> rejected_rows > total_rows
      then Inl (Exn ValueError ''Reject counts must be within the total row count'')
      else if total_rows \<noteq> 0 \<and> 20 * rejected_rows > total_rows
      then Inl (Exn RejectRateExceededError ''Reject rate exceeds 5%'')
      else Inr ())"

section \<open>What validation promises\<close>

text \<open>The contract of one row, independent of the order of the checks.\<close>

definition column_ok :: "(string \<times> pyvalue) list \<Rightarrow> source_column \<Rightarrow> bool" where
  "column_ok vs c \<longleftrightarrow> (if value_get vs (col_name c) = VNone then nullable c
     else matches_source_column_type (value_get vs (col_name c)) c)"

definition row_conforms :: "table_config \<Rightarrow> (string \<times> pyvalue) list \<Rightarrow> bool" where
  "row_conforms cfg vs \<longleftrightarrow> map fst vs = source_column_names cfg \<and>
     list_all (column_ok vs) (source_columns cfg) \<and>
     list_all (\<lambda>(c, domain). value_get vs c = VNone \<or> in_domain (value_get vs c) domain) (status_domains cfg) \<and>
     list_all (\<lambda>(c, m). \<not> numeric_below (value_get vs c) m) (numeric_minimums cfg)"

lemma column_errors_Nil: "column_errors vs c = [] \<longleftrightarrow> column_ok vs c"
  by (simp add: column_errors_def column_ok_def value_get_def Let_def split: option.splits)

lemma schema_and_type_errors_Nil:
  "schema_and_type_errors cfg vs = [] \<longleftrightarrow> map fst vs = source_column_names cfg \<and> list_all (column_ok vs) (source_columns cfg)"
  by (auto simp: schema_and_type_errors_def column_errors_Nil list_all_iff)

lemma domain_errors_Nil:
  "domain_errors vs cd = [] \<longleftrightarrow> (case cd of (c, domain) \<Rightarrow> value_get vs c = VNone \<or> in_domain (value_get vs c) domain)"
  by (cases cd) (auto simp: domain_errors_def)

text \<open>Registered minimums are on numeric columns, so no comparison is skipped for its type.\<close>

definition minimums_numeric :: "table_config \<Rightarrow> bool" where
  "minimums_numeric cfg \<longleftrightarrow> list_all (\<lambda>(n, m). case map_of (columns_by_name cfg) n of
     Some c \<Rightarrow> col_type c \<in> {ArrowInt32, ArrowDecimal_14_2} \<and> \<not> postgres_uuid c | None \<Rightarrow> False) (numeric_minimums cfg)"

lemma registered_minimums_numeric: "list_all (\<lambda>(name, c). minimums_numeric c) TABLE_CONFIGS"
  by code_simp

lemma table_config_minimums: "table_config name = Inr cfg \<Longrightarrow> minimums_numeric cfg"
  using registered_minimums_numeric
  by (auto simp: table_config_def list_all_iff split: option.splits dest!: map_of_SomeD)

lemma range_errors_Nil:
  assumes "minimums_numeric cfg" "cm \<in> set (numeric_minimums cfg)"
    and "list_all (column_ok vs) (source_columns cfg)"
  shows "range_errors cfg vs cm = [] \<longleftrightarrow> (case cm of (c, m) \<Rightarrow> \<not> numeric_below (value_get vs c) m)"
proof -
  obtain n m where cm: "cm = (n, m)" by (cases cm)
  with assms(1,2) obtain c where c: "map_of (columns_by_name cfg) n = Some c"
      "col_type c \<in> {ArrowInt32, ArrowDecimal_14_2}" "\<not> postgres_uuid c"
    by (auto simp: minimums_numeric_def list_all_iff split: option.splits)
  then have "c \<in> set (source_columns cfg)" "col_name c = n"
    by (auto simp: columns_by_name_def dest!: map_of_SomeD)
  with assms(3) have "column_ok vs c" by (simp add: list_all_iff)
  with c \<open>col_name c = n\<close> show ?thesis
    by (cases "value_get vs n") (auto simp: cm range_errors_def column_ok_def matches_source_column_type_def)
qed

lemma row_conforms_errors:
  assumes "table_config name = Inr cfg"
  shows "row_conforms cfg vs \<longleftrightarrow> schema_and_type_errors cfg vs = [] \<and> domain_and_numeric_errors cfg vs = []"
proof (cases "schema_and_type_errors cfg vs = []")
  case False
  then show ?thesis by (auto simp: row_conforms_def schema_and_type_errors_Nil)
next
  case True
  then have cols: "list_all (column_ok vs) (source_columns cfg)" by (simp add: schema_and_type_errors_Nil)
  have "concat (map (range_errors cfg vs) (numeric_minimums cfg)) = [] \<longleftrightarrow>
      list_all (\<lambda>(c, m). \<not> numeric_below (value_get vs c) m) (numeric_minimums cfg)"
    using range_errors_Nil [OF table_config_minimums [OF assms] _ cols] by (auto simp: list_all_iff)
  moreover have "concat (map (domain_errors vs) (status_domains cfg)) = [] \<longleftrightarrow>
      list_all (\<lambda>(c, domain). value_get vs c = VNone \<or> in_domain (value_get vs c) domain) (status_domains cfg)"
    by (auto simp: list_all_iff domain_errors_Nil)
  ultimately show ?thesis using True
    by (simp add: row_conforms_def schema_and_type_errors_Nil domain_and_numeric_errors_def)
qed

definition accepts :: "validation_pipeline \<Rightarrow> key list list \<Rightarrow> source_record \<Rightarrow> bool" where
  "accepts vp broken r \<longleftrightarrow> row_conforms (vp_config vp) (rec_values r) \<and>
     VNone \<notin> set (primary_key_of (vp_config vp) (rec_values r)) \<and>
     primary_key_of (vp_config vp) (rec_values r) \<notin> set (seen_primary_keys vp) \<and>
     (\<forall>c. record_cursor r = Inr c \<longrightarrow> cp_keys c \<notin> set broken)"

text \<open>One record: no error codes exactly when the record is acceptable.\<close>

definition note_key :: "validation_pipeline \<Rightarrow> source_record \<Rightarrow> validation_pipeline" where
  "note_key vp r = (let pk = primary_key_of (vp_config vp) (rec_values r) in
     if VNone \<notin> set pk \<and> pk \<notin> set (seen_primary_keys vp)
     then vp\<lparr>seen_primary_keys := seen_primary_keys vp @ [pk]\<rparr> else vp)"

lemma validate_record_ok:
  assumes "validate_record r broken vp = (Inr codes, vp')" and "table_config name = Inr (vp_config vp)"
  shows "vp' = note_key vp r \<and> (codes = [] \<longleftrightarrow> accepts vp broken r) \<and>
    (\<exists>c. record_cursor r = Inr c \<and> cursor_in_range c (vp_watermark_before vp) (vp_extract_upper_bound vp))"
  using assms(1) row_conforms_errors [OF assms(2), of "rec_values r"]
  by (auto simp: validate_record_def bindM_ok note_key_def accepts_def key_error_def Let_def split: if_splits)

lemma note_key_simps [simp]:
  "vp_config (note_key vp r) = vp_config vp" "vp_watermark_before (note_key vp r) = vp_watermark_before vp"
  "vp_extract_upper_bound (note_key vp r) = vp_extract_upper_bound vp" "next_ordinal (note_key vp r) = next_ordinal vp"
  "set (seen_primary_keys vp) \<subseteq> set (seen_primary_keys (note_key vp r))"
  by (auto simp: note_key_def Let_def)

lemma note_key_accepted:
  "accepts vp broken r \<Longrightarrow> set (seen_primary_keys (note_key vp r)) =
     insert (primary_key_of (vp_config vp) (rec_values r)) (set (seen_primary_keys vp))"
  by (auto simp: note_key_def accepts_def Let_def)

lemma accepts_next_ordinal [simp]: "accepts (vp\<lparr>next_ordinal := n\<rparr>) broken r = accepts vp broken r"
  by (simp add: accepts_def)

text \<open>The records of a page that pass, and those that do not, against the keys seen so far.\<close>

fun accepted :: "validation_pipeline \<Rightarrow> key list list \<Rightarrow> source_record list \<Rightarrow> source_record list" where
  "accepted vp broken [] = []"
| "accepted vp broken (r # rs) =
     (if accepts vp broken r then [r] else []) @ accepted (note_key vp r) broken rs"

fun refused :: "validation_pipeline \<Rightarrow> key list list \<Rightarrow> source_record list \<Rightarrow> nat \<Rightarrow> (source_record \<times> nat) list" where
  "refused vp broken [] n = []"
| "refused vp broken (r # rs) n =
     (if accepts vp broken r then [] else [(r, n)]) @ refused (note_key vp r) broken rs (Suc n)"

definition note_keys :: "validation_pipeline \<Rightarrow> source_record list \<Rightarrow> validation_pipeline" where
  "note_keys vp rs = foldl note_key vp rs"

lemma note_keys_simps [simp]:
  "vp_config (note_keys vp rs) = vp_config vp" "vp_watermark_before (note_keys vp rs) = vp_watermark_before vp"
  "vp_extract_upper_bound (note_keys vp rs) = vp_extract_upper_bound vp"
  by (induction rs arbitrary: vp) (auto simp: note_keys_def)

lemma note_key_next_ordinal: "note_key (vp\<lparr>next_ordinal := n\<rparr>) r = (note_key vp r)\<lparr>next_ordinal := n\<rparr>"
  by (simp add: note_key_def Let_def)

lemma accepted_next_ordinal [simp]: "accepted (vp\<lparr>next_ordinal := n\<rparr>) broken rs = accepted vp broken rs"
  by (induction rs arbitrary: vp) (simp_all add: note_key_next_ordinal)

lemma refused_next_ordinal [simp]: "refused (vp\<lparr>next_ordinal := n\<rparr>) broken rs m = refused vp broken rs m"
  by (induction rs arbitrary: vp m) (simp_all add: note_key_next_ordinal)

lemma note_keys_next_ordinal: "note_keys (vp\<lparr>next_ordinal := n\<rparr>) rs = (note_keys vp rs)\<lparr>next_ordinal := n\<rparr>"
  by (induction rs arbitrary: vp) (simp_all add: note_keys_def note_key_next_ordinal)

definition record_in_range :: "validation_pipeline \<Rightarrow> source_record \<Rightarrow> bool" where
  "record_in_range vp r \<longleftrightarrow> (\<exists>c. record_cursor r = Inr c \<and>
     cursor_in_range c (vp_watermark_before vp) (vp_extract_upper_bound vp))"

lemma record_in_range_note_key [simp]: "record_in_range (note_key vp r) = record_in_range vp"
  "record_in_range (vp\<lparr>next_ordinal := n\<rparr>) = record_in_range vp"
  by (simp_all add: record_in_range_def fun_eq_iff)

lemma validate_records_ok:
  assumes "validate_records rs broken vp = (Inr p, vp')" and "table_config name = Inr (vp_config vp)"
  shows "vp' = (note_keys vp rs)\<lparr>next_ordinal := next_ordinal vp + length rs\<rparr> \<and>
    valid_records p = accepted vp broken rs \<and>
    map (\<lambda>x. (rej_record x, rej_ordinal x)) (rejected_records p) = refused vp broken rs (next_ordinal vp) \<and>
    list_all (\<lambda>x. rej_error_codes x \<noteq> []) (rejected_records p) \<and>
    list_all (record_in_range vp) rs"
  using assms
proof (induction rs arbitrary: vp p vp')
  case Nil
  then show ?case by (auto simp: note_keys_def)
next
  case (Cons r rs)
  let ?vp = "vp\<lparr>next_ordinal := next_ordinal vp + 1\<rparr>"
  from Cons.prems(1) obtain codes vp1 q where r: "validate_record r broken ?vp = (Inr codes, vp1)"
    and rs: "validate_records rs broken vp1 = (Inr q, vp')"
    and p: "p = (if codes \<noteq> []
       then q\<lparr>rejected_records := \<lparr>rej_record = r, rej_ordinal = next_ordinal vp, rej_error_codes = codes\<rparr> # rejected_records q\<rparr>
       else q\<lparr>valid_records := r # valid_records q\<rparr>)"
    by (auto simp: bindM_ok split: if_splits)
  have vp1: "vp1 = (note_key vp r)\<lparr>next_ordinal := next_ordinal vp + 1\<rparr>"
    and codes: "codes = [] \<longleftrightarrow> accepts vp broken r" and cur: "record_in_range vp r"
    using validate_record_ok [OF r, of name] Cons.prems(2) by (auto simp: note_key_next_ordinal record_in_range_def)
  have cfg: "table_config name = Inr (vp_config vp1)" using Cons.prems(2) by (simp add: vp1)
  note IH = Cons.IH [OF rs cfg]
  have "vp' = (note_keys vp (r # rs))\<lparr>next_ordinal := next_ordinal vp + length (r # rs)\<rparr>"
    using IH by (simp add: vp1 note_keys_next_ordinal) (simp add: note_keys_def)
  with IH codes cur show ?case by (simp add: p vp1)
qed

text \<open>
  The accepted records conform and carry pairwise different keys, none of them seen before;
  with the refused ones they are all the records, in order.
\<close>

lemma accepted_ok:
  "(\<forall>r \<in> set (accepted vp broken rs). row_conforms (vp_config vp) (rec_values r)) \<and>
   distinct (map (\<lambda>r. primary_key_of (vp_config vp) (rec_values r)) (accepted vp broken rs)) \<and>
   (\<forall>r \<in> set (accepted vp broken rs). primary_key_of (vp_config vp) (rec_values r) \<notin> set (seen_primary_keys vp))"
proof (induction rs arbitrary: vp)
  case (Cons r rs)
  note IH = Cons.IH [of "note_key vp r", simplified]
  show ?case
  proof (cases "accepts vp broken r")
    case True
    show ?thesis using IH True note_key_accepted [OF True] by (auto simp: accepts_def image_iff)
  next
    case False
    have "primary_key_of (vp_config vp) (rec_values x) \<notin> set (seen_primary_keys vp)"
      if "x \<in> set (accepted (note_key vp r) broken rs)" for x
      using IH that note_key_simps(5) [of vp r] by blast
    with IH False show ?thesis by simp
  qed
qed simp

lemma accepted_keys_seen:
  "r \<in> set (accepted vp broken rs) \<Longrightarrow> primary_key_of (vp_config vp) (rec_values r) \<in> set (seen_primary_keys (note_keys vp rs))"
proof (induction rs arbitrary: vp)
  case (Cons x rs)
  have mono: "set (seen_primary_keys vp) \<subseteq> set (seen_primary_keys (note_keys vp rs))" for vp
    by (induction rs arbitrary: vp) (use note_key_simps(5) in \<open>fastforce simp: note_keys_def\<close>)+
  show ?case
  proof (cases "r \<in> set (accepted (note_key vp x) broken rs)")
    case True
    with Cons.IH [of "note_key vp x"] show ?thesis by (simp add: note_keys_def)
  next
    case False
    with Cons.prems have "r = x" "accepts vp broken x" by (auto split: if_splits)
    with note_key_accepted [of vp broken x] mono [of "note_key vp x"] show ?thesis by (auto simp: note_keys_def)
  qed
qed simp

lemma accepted_refused_mset:
  "mset (accepted vp broken rs) + mset (map fst (refused vp broken rs n)) = mset rs"
  by (induction rs arbitrary: vp n) auto

lemma refused_ordinals:
  "sorted_wrt (<) (map snd (refused vp broken rs n)) \<and>
   (\<forall>(r, i) \<in> set (refused vp broken rs n). n \<le> i \<and> i < n + length rs \<and> rs ! (i - n) = r)"
proof (induction rs arbitrary: vp n)
  case (Cons x rs)
  note IH = Cons.IH [of "note_key vp x" "Suc n"]
  have nth: "(x # rs) ! (i - n) = rs ! (i - Suc n)" if "Suc n \<le> i" for i
  proof -
    from that have "i - n = Suc (i - Suc n)" by simp
    then show ?thesis by simp
  qed
  have tail: "n \<le> i \<and> i < n + length (x # rs) \<and> (x # rs) ! (i - n) = r \<and> n < i"
    if "(r, i) \<in> set (refused (note_key vp x) broken rs (Suc n))" for r i
    using IH that nth [of i] by auto
  then have "\<forall>i \<in> set (map snd (refused (note_key vp x) broken rs (Suc n))). n < i" by auto
  with IH tail show ?case by auto
qed simp

lemma results_Inl: "Inl e \<in> set rs \<Longrightarrow> \<exists>e'. results rs = Inl e'"
proof (induction rs)
  case (Cons r rs)
  then show ?case by (cases r) (auto split: sum.splits)
qed simp

lemma results_ok: "results rs = Inr xs \<longleftrightarrow> rs = map Inr xs"
proof (induction rs arbitrary: xs)
  case (Cons r rs)
  then show ?case by (cases r; cases xs) (auto split: sum.splits)
qed auto

lemma map_sum_Inr_iff [simp]: "map_sum id f x = Inr y \<longleftrightarrow> (\<exists>z. x = Inr z \<and> y = f z)"
  by (cases x) auto

lemma map_sum_Inl_iff [simp]: "map_sum id f x = Inl e \<longleftrightarrow> x = Inl e"
  by (cases x) auto

section \<open>Quarantine and threshold\<close>

lemma assert_reject_rate_ok:
  "assert_reject_rate n k = Inr u \<longleftrightarrow> 0 \<le> k \<and> k \<le> n \<and> 20 * k \<le> n"
  by (auto simp: assert_reject_rate_def)

text \<open>Only UUIDs and bare objects have no JSON form.\<close>

definition json_able :: "pyvalue \<Rightarrow> bool" where
  "json_able v = (case v of VUuid _ \<Rightarrow> False | VObject _ \<Rightarrow> False | _ \<Rightarrow> True)"

lemma json_of_value_ok:
  "(\<exists>t. json_of_value (\<lambda>d. Inr (f d)) m v = Inr t) \<longleftrightarrow> json_able v"
  "json_of_value (\<lambda>d. Inr (f d)) m v = Inl e \<Longrightarrow> exn_class e = TypeError"
  by (auto simp: json_of_value_def json_able_def split: pyvalue.splits)

lemma canonical_row_ok:
  "(\<exists>t. canonical_row (\<lambda>d. Inr (f d)) m row = Inr t) \<longleftrightarrow> list_all (\<lambda>(n, v). json_able v) row"
proof -
  let ?g = "\<lambda>(n, v). map_sum id (\<lambda>t. json_string n @ '':'' @ t) (json_of_value (\<lambda>d. Inr (f d)) m v)"
  have g: "(\<exists>t. ?g nv = Inr t) \<longleftrightarrow> json_able (snd nv)" for nv
    by (cases nv) (simp add: json_of_value_ok)
  show ?thesis
  proof
    assume "\<exists>t. canonical_row (\<lambda>d. Inr (f d)) m row = Inr t"
    then obtain xs where "map ?g (sort_key fst row) = map Inr xs" by (auto simp: canonical_row_def results_ok)
    then have "\<forall>nv \<in> set (map ?g (sort_key fst row)). \<exists>t. nv = Inr t" by auto
    then have "\<forall>nv \<in> set row. \<exists>t. ?g nv = Inr t" by simp
    with g show "list_all (\<lambda>(n, v). json_able v) row" by (auto simp: list_all_iff)
  next
    assume "list_all (\<lambda>(n, v). json_able v) row"
    then have "\<forall>nv \<in> set (sort_key fst row). \<exists>t. ?g nv = Inr t" unfolding g by (auto simp: list_all_iff)
    then obtain h where "\<forall>nv \<in> set (sort_key fst row). ?g nv = Inr (h nv)" by metis
    then have "results (map ?g (sort_key fst row)) = Inr (map h (sort_key fst row))" by (intro results_map_ok) auto
    then show "\<exists>t. canonical_row (\<lambda>d. Inr (f d)) m row = Inr t" by (simp add: canonical_row_def)
  qed
qed

lemma quarantine_row_not_json:
  assumes "\<not> list_all (\<lambda>(n, v). json_able v) (rec_values (rej_record rej))"
  shows "\<exists>e. quarantine_row lz u5 c rej = Inl e"
  using assms canonical_row_ok [of "astimezone_utc lz" "''Unsupported quarantine value''" "rec_values (rej_record rej)"]
  by (auto simp: quarantine_row_def split: sum.splits)

text \<open>
  A rejected record that still holds a UUID, as psycopg returns them for the UUID columns,
  cannot be written to quarantine.
\<close>

lemma write_rejected_records_uuid:
  assumes "rej \<in> set rejs" "(n, VUuid u) \<in> set (rec_values (rej_record rej))" "\<not> qw_closed w"
  shows "\<exists>e. write_rejected_records lz u5 rejs w = (Inl e, w)"
proof -
  have "\<exists>e. quarantine_row lz u5 (qw_context w) rej = Inl e"
    using assms(2) by (intro quarantine_row_not_json) (force simp: list_all_iff json_able_def)
  then obtain e where "Inl e \<in> set (map (quarantine_row lz u5 (qw_context w)) rejs)"
    using assms(1) by (metis image_eqI list.set_map)
  then obtain e' where "results (map (quarantine_row lz u5 (qw_context w)) rejs) = Inl e'"
    using results_Inl by blast
  with assms show ?thesis
    by (auto simp: write_rejected_records_def bindM_def assertM_apply)
qed

lemma map_eq_length: "map f xs = map g ys \<Longrightarrow> length ys = length xs"
  by (metis length_map)

text \<open>What the writer holds after any number of successful pages.\<close>

lemma write_rejected_records_ok:
  assumes "write_rejected_records lz u5 rejs w = (Inr u, w')"
  shows "\<not> qw_closed w \<and> \<not> qw_closed w' \<and> qw_context w' = qw_context w \<and>
    (\<exists>rows. map (quarantine_row lz u5 (qw_context w)) rejs = map Inr rows \<and> qw_rows w' = qw_rows w @ rows \<and>
      length rows = length rejs)"
  using assms
  by (auto simp: write_rejected_records_def bindM_ok results_ok split: if_splits dest: map_eq_length)

lemma close_quarantine_writer_ok:
  "close_quarantine_writer w = (Inr a, w') \<longleftrightarrow> \<not> qw_closed w \<and> w' = w\<lparr>qw_closed := True\<rparr> \<and>
    a = \<lparr>qa_rows = qw_rows w, qa_row_count = length (qw_rows w), qa_error_counts = sort_key fst (qw_error_counts w)\<rparr>"
  by (auto simp: close_quarantine_writer_def bindM_ok)

end
