(* ===== verification/Bronze.thy ===== *)
theory Bronze
  imports Validation
begin

text \<open>
  Bronze and quarantine objects: the object store client of src/ingestion/bronze/storage.py
  with its put-if-absent upload, the Parquet writer and the logical hash of bronze.py, and
  the manifests of manifest.py.

  The S3 service, the byte encodings (Parquet, SHA-256) and Arrow's conversion are not code of
  the repository: they are arguments, with their documented behaviour in \<open>s3_laws\<close> and
  \<open>encoding_ok\<close>. An object's body is the value its bytes encode.
\<close>

section \<open>Objects\<close>

type_synonym parquet_row = "(string \<times> pyvalue) list"

datatype object_body =
    ParquetBody "parquet_row list"
  | QuarantineBody "quarantine_parquet_row list"
  | JsonBody json
  | RawBody string

record object_head =
  content_length :: "int option"
  metadata_sha256 :: "string option"

record s3_object =
  object_body :: object_body
  object_head :: object_head

text \<open>\<open>len\<close> and \<open>hashlib.sha256(...).hexdigest()\<close> of the bytes of a body, and of a text's UTF-8.\<close>

record encoding =
  byte_size :: "object_body \<Rightarrow> int"
  byte_sha256 :: "object_body \<Rightarrow> string"
  text_sha256 :: "string \<Rightarrow> string"

definition encoding_ok :: "encoding \<Rightarrow> bool" where
  "encoding_ok enc \<longleftrightarrow> (\<forall>b. 0 \<le> byte_size enc b \<and> is_sha256 (byte_sha256 enc b)) \<and>
     (\<forall>t. is_sha256 (text_sha256 enc t))"

section \<open>The S3 client\<close>

text \<open>The requests the code makes, on a service state \<open>'s\<close> whose objects \<open>s3_objects\<close> shows.\<close>

record 's s3_client =
  s3_objects :: "'s \<Rightarrow> string \<Rightarrow> s3_object option"
  head_bucket :: "('s, unit) op"
  create_bucket :: "('s, unit) op"
  head_object :: "string \<Rightarrow> ('s, object_head) op"
  put_object :: "string \<Rightarrow> object_body \<Rightarrow> string \<Rightarrow> ('s, unit) op"
  get_object :: "string \<Rightarrow> ('s, object_body) op"
  list_objects :: "string \<Rightarrow> ('s, string list) op"

definition put_head :: "encoding \<Rightarrow> object_body \<Rightarrow> string \<Rightarrow> object_head" where
  "put_head enc b sha = \<lparr>content_length = Some (byte_size enc b), metadata_sha256 = Some sha\<rparr>"

definition put_effect :: "encoding \<Rightarrow> 's s3_client \<Rightarrow> string \<Rightarrow> object_body \<Rightarrow> string \<Rightarrow> 's \<Rightarrow> 's \<Rightarrow> bool" where
  "put_effect enc c k b sha s s' \<longleftrightarrow> s3_objects c s k = None \<and>
     s3_objects c s' = (s3_objects c s)(k \<mapsto> \<lparr>object_body = b, object_head = put_head enc b sha\<rparr>)"

text \<open>
  Documented behaviour of the service: reads change nothing and return what is stored; a PUT
  with \<open>IfNoneMatch="*"\<close> that succeeds created the object; one that fails left the objects
  alone, or created the object and lost the response; it never replaces an object.
\<close>

definition s3_laws :: "encoding \<Rightarrow> 's s3_client \<Rightarrow> bool" where
  "s3_laws enc c \<longleftrightarrow>
     (\<forall>s. s3_objects c (snd (head_bucket c s)) = s3_objects c s) \<and>
     (\<forall>s. s3_objects c (snd (create_bucket c s)) = s3_objects c s) \<and>
     (\<forall>k s. s3_objects c (snd (head_object c k s)) = s3_objects c s) \<and>
     (\<forall>k s h. fst (head_object c k s) = Inr h \<longrightarrow>
        (\<exists>ob. s3_objects c s k = Some ob \<and> h = object_head ob)) \<and>
     (\<forall>k s. s3_objects c (snd (get_object c k s)) = s3_objects c s) \<and>
     (\<forall>k s b. fst (get_object c k s) = Inr b \<longrightarrow> (\<exists>ob. s3_objects c s k = Some ob \<and> b = object_body ob)) \<and>
     (\<forall>p s. s3_objects c (snd (list_objects c p s)) = s3_objects c s) \<and>
     (\<forall>p s ks. fst (list_objects c p s) = Inr ks \<longrightarrow>
        set ks = {k. starts_with p k \<and> s3_objects c s k \<noteq> None}) \<and>
     (\<forall>k b sha s u. fst (put_object c k b sha s) = Inr u \<longrightarrow> put_effect enc c k b sha s (snd (put_object c k b sha s))) \<and>
     (\<forall>k b sha s e. fst (put_object c k b sha s) = Inl e \<longrightarrow>
        s3_objects c (snd (put_object c k b sha s)) = s3_objects c s \<or>
        put_effect enc c k b sha s (snd (put_object c k b sha s)))"

section \<open>Uploads\<close>

record stored_object =
  so_key :: string
  so_size :: int
  so_content_sha256 :: string

definition assert_object_head :: "string \<Rightarrow> object_head \<Rightarrow> int \<Rightarrow> string \<Rightarrow> unit result" where
  "assert_object_head key head expected_size expected_sha256 =
     (if content_length head \<noteq> Some expected_size
      then Inl (Exn RuntimeError (''Object size differs from expected value: '' @ key))
      else if metadata_sha256 head \<noteq> Some expected_sha256
      then Inl (Exn RuntimeError (''Object checksum metadata differs from expected value: '' @ key))
      else Inr ())"

definition is_not_found :: "exn \<Rightarrow> bool" where
  "is_not_found e = (case exn_class e of
      ClientError code _ \<Rightarrow> code \<in> {''404'', ''NoSuchKey'', ''NotFound''}
    | _ \<Rightarrow> False)"

definition ensure_bucket :: "'s s3_client \<Rightarrow> ('s, unit) op" where
  "ensure_bucket c = (\<lambda>s. case head_bucket c s of
      (Inr _, s') \<Rightarrow> (Inr (), s')
    | (Inl e, s') \<Rightarrow>
        (case exn_class e of
           ClientError code _ \<Rightarrow>
             (if code \<in> {''404'', ''NoSuchBucket'', ''NotFound''} then create_bucket c s' else (Inl e, s'))
         | _ \<Rightarrow> (Inl e, s')))"

definition is_precondition_failed :: "exn \<Rightarrow> bool" where
  "is_precondition_failed e = (case exn_class e of ClientError _ status \<Rightarrow> status = Some 412 | _ \<Rightarrow> False)"

definition reject_existing_object :: "'s s3_client \<Rightarrow> string \<Rightarrow> ('s, unit) op" where
  "reject_existing_object c key = (\<lambda>s. case head_object c key s of
      (Inl e, s') \<Rightarrow> (if is_not_found e then (Inr (), s') else (Inl e, s'))
    | (Inr _, s') \<Rightarrow> (Inl (Exn FileExistsError (''Final object already exists: '' @ key)), s'))"

definition put_new :: "'s s3_client \<Rightarrow> string \<Rightarrow> object_body \<Rightarrow> string \<Rightarrow> ('s, unit) op" where
  "put_new c key body sha = (\<lambda>s. case put_object c key body sha s of
      (Inl e, s') \<Rightarrow> (Inl (if is_precondition_failed e
         then Exn FileExistsError (''Final object already exists: '' @ key) else e), s')
    | (Inr u, s') \<Rightarrow> (Inr u, s'))"

definition upload_new :: "encoding \<Rightarrow> 's s3_client \<Rightarrow> string \<Rightarrow> object_body \<Rightarrow> ('s, stored_object) op" where
  "upload_new enc c key body =
     (let size = byte_size enc body; sha = byte_sha256 enc body in
      bindM (assertM (\<not> (key = [] \<or> starts_with ''/'' key)) ValueError
               ''Object key must be a non-empty relative path'') (\<lambda>_.
      bindM (reject_existing_object c key) (\<lambda>_.
      bindM (put_new c key body sha) (\<lambda>_.
      bindM (head_object c key) (\<lambda>head.
      bindM (liftM (assert_object_head key head size sha)) (\<lambda>_.
      returnM \<lparr>so_key = key, so_size = size, so_content_sha256 = sha\<rparr>))))))"

definition stored_object_from_head :: "'s s3_client \<Rightarrow> string \<Rightarrow> ('s, stored_object) op" where
  "stored_object_from_head c key =
     bindM (head_object c key) (\<lambda>head. case (content_length head, metadata_sha256 head) of
       (Some n, Some sha) \<Rightarrow> returnM \<lparr>so_key = key, so_size = n, so_content_sha256 = sha\<rparr>
     | _ \<Rightarrow> raiseM TypeError (''Object HEAD lacks required checksum metadata: '' @ key))"

record verified_parquet_object = stored_object +
  vp_row_count :: nat

definition verify_parquet_object ::
    "encoding \<Rightarrow> 's s3_client \<Rightarrow> stored_object \<Rightarrow> ('s, verified_parquet_object) op" where
  "verify_parquet_object enc c ob =
     bindM (get_object c (so_key ob)) (\<lambda>payload.
     bindM (assertM (byte_sha256 enc payload = so_content_sha256 ob) RuntimeError
              (''Object checksum differs from expected value: '' @ so_key ob)) (\<lambda>_.
     case payload of
       ParquetBody rows \<Rightarrow> returnM \<lparr>so_key = so_key ob, so_size = byte_size enc payload,
         so_content_sha256 = byte_sha256 enc payload, vp_row_count = length rows\<rparr>
     | QuarantineBody rows \<Rightarrow> returnM \<lparr>so_key = so_key ob, so_size = byte_size enc payload,
         so_content_sha256 = byte_sha256 enc payload, vp_row_count = length rows\<rparr>
     | _ \<Rightarrow> raiseM (OtherError ''ArrowInvalid'') ''Parquet magic bytes not found''))"

definition list_object_keys :: "'s s3_client \<Rightarrow> string \<Rightarrow> ('s, string list) op" where
  "list_object_keys c prefix = bindM (list_objects c prefix) (\<lambda>ks. returnM (sort ks))"

section \<open>The Bronze writer\<close>

record bronze_context =
  bc_batch_id :: string
  bc_run_id :: uuid
  bc_ingested_at :: datetime
  bc_source_table :: string
  bc_schema_version :: int

definition bronze_context_check :: "bronze_context \<Rightarrow> unit result" where
  "bronze_context_check c =
     seq (require (\<not> blank (bc_batch_id c)) ''batch_id must not be empty'')
    (seq (require (utcoffset (bc_ingested_at c) = Some 0) ''ingested_at must be normalized to UTC'')
    (seq (require (\<not> blank (bc_source_table c)) ''source_table must not be empty'')
         (require (bc_schema_version c = BRONZE_SCHEMA_VERSION)
            (''Unsupported orders Bronze schema_version: '' @ show_int (bc_schema_version c)))))"

record bronze_writer =
  bw_config :: table_config
  bw_context :: bronze_context
  bw_rows :: "parquet_row list"
  bw_row_count :: nat
  bw_closed :: bool

definition ROW_GROUP_TARGET_ROWS :: int where "ROW_GROUP_TARGET_ROWS = 128000"

definition new_bronze_writer :: "bool \<Rightarrow> table_config \<Rightarrow> bronze_context \<Rightarrow> int \<Rightarrow> bronze_writer result" where
  "new_bronze_writer path_exists cfg c row_group_target_rows =
     (if bc_source_table c \<noteq> source_table cfg
      then Inl (Exn ValueError ''Bronze write context source_table differs from the table config'')
      else if row_group_target_rows \<le> 0
      then Inl (Exn ValueError ''row_group_target_rows must be greater than zero'')
      else if path_exists then Inl (Exn FileExistsError ''Local Bronze Parquet already exists'')
      else Inr \<lparr>bw_config = cfg, bw_context = c, bw_rows = [], bw_row_count = 0, bw_closed = False\<rparr>)"

definition source_record_row :: "bronze_context \<Rightarrow> source_record \<Rightarrow> parquet_row" where
  "source_record_row c r = arrow_compatible_values r @
     [(''_batch_id'', VStr (bc_batch_id c)), (''_run_id'', VStr (uuid_str (bc_run_id c))),
      (''_ingested_at'', VTime (bc_ingested_at c)), (''_source_table'', VStr (bc_source_table c)),
      (''_schema_version'', VInt (bc_schema_version c))]"

text \<open>\<open>to_arrow\<close> is \<open>pa.Table.from_pylist\<close> under the Bronze schema, which may refuse a value.\<close>

type_synonym arrow_conversion = "arrow_field list \<Rightarrow> parquet_row list \<Rightarrow> parquet_row list result"

definition write_records :: "arrow_conversion \<Rightarrow> source_record list \<Rightarrow> (bronze_writer, unit) op" where
  "write_records to_arrow rs =
     bindM (getM id) (\<lambda>w.
     bindM (assertM (\<not> bw_closed w) RuntimeError ''Table Bronze Writer is already closed'') (\<lambda>_.
     if rs = [] then returnM ()
     else
       bindM (assertM (\<not> list_ex (\<lambda>r. rec_config r \<noteq> bw_config w) rs) ValueError
                ''Bronze records must use the writer table config'') (\<lambda>_.
       bindM (liftM (to_arrow (bronze_schema (bw_config w)) (map (source_record_row (bw_context w)) rs))) (\<lambda>rows.
       modifyM (\<lambda>w. w\<lparr>bw_rows := bw_rows w @ rows, bw_row_count := bw_row_count w + length rows\<rparr>)))))"

record bronze_artifact =
  ba_rows :: "parquet_row list"
  ba_row_count :: nat

definition close_bronze_writer :: "(bronze_writer, bronze_artifact) op" where
  "close_bronze_writer =
     bindM (getM id) (\<lambda>w.
     bindM (assertM (\<not> bw_closed w) RuntimeError ''Table Bronze Writer is already closed'') (\<lambda>_.
     bindM (modifyM (\<lambda>w. w\<lparr>bw_closed := True\<rparr>)) (\<lambda>_.
     returnM \<lparr>ba_rows = bw_rows w, ba_row_count = bw_row_count w\<rparr>)))"

section \<open>The logical hash\<close>

definition business_time :: "datetime \<Rightarrow> time result" where
  "business_time d = (if utcoffset d = None
     then Inl (Exn ValueError ''Business timestamp must include a UTC offset'') else Inr (instant d))"

definition business_columns :: "table_config \<Rightarrow> parquet_row \<Rightarrow> parquet_row" where
  "business_columns cfg row = map (\<lambda>n. (n, value_get row n)) (source_column_names cfg)"

definition business_key :: "table_config \<Rightarrow> parquet_row \<Rightarrow> key list" where
  "business_key cfg row = map (\<lambda>n. sql_key (value_get row n)) (primary_key_columns cfg)"

text \<open>The bytes fed to the digest: the source columns in primary-key order, one JSON line each.\<close>

definition logical_text :: "table_config \<Rightarrow> parquet_row list \<Rightarrow> string result" where
  "logical_text cfg rows =
     map_sum id concat (results (map (\<lambda>row. map_sum id (\<lambda>t. t @ [CHR 0x0A])
         (canonical_row business_time ''Unsupported business value'' (business_columns cfg row)))
       (sort_key (business_key cfg) rows)))"

definition table_logical_hash :: "encoding \<Rightarrow> table_config \<Rightarrow> parquet_row list \<Rightarrow> string result" where
  "table_logical_hash enc cfg rows = map_sum id (text_sha256 enc) (logical_text cfg rows)"

section \<open>Manifests\<close>

definition MANIFEST_VERSION :: int where "MANIFEST_VERSION = 1"
definition VERIFIED_OBJECT_STATE :: string where "VERIFIED_OBJECT_STATE = ''VERIFIED''"

record bronze_manifest =
  bm_batch_id :: string
  bm_run_id :: uuid
  bm_source_table :: string
  bm_logical_date :: datetime
  bm_watermark_before :: cursor_position
  bm_extract_upper_bound :: cursor_position
  bm_object_key :: string
  bm_object_size :: int
  bm_content_sha256 :: string
  bm_logical_hash :: string
  bm_row_count :: int
  bm_created_at :: datetime
  bm_schema_version :: int
  bm_manifest_version :: int
  bm_object_state :: string

definition bronze_manifest_check :: "bronze_manifest \<Rightarrow> unit result" where
  "bronze_manifest_check m =
     seq (require (\<not> (blank (bm_batch_id m) \<or> blank (bm_source_table m) \<or> blank (bm_object_key m)))
            ''Manifest identifiers must not be empty'')
    (seq (assert_utc (bm_logical_date m) ''logical_date'')
    (seq (assert_utc (bm_created_at m) ''created_at'')
    (seq (require (\<not> (bm_object_size m < 0 \<or> bm_row_count m < 0)) ''Manifest size and row_count must be non-negative'')
    (seq (require (\<not> (bm_schema_version m \<le> 0 \<or> bm_manifest_version m \<noteq> MANIFEST_VERSION))
            ''Unsupported manifest or schema version'')
    (seq (require (bm_object_state m = VERIFIED_OBJECT_STATE)
            ''Manifest object_state must be VERIFIED before metadata commit'')
    (seq (assert_sha256 (bm_content_sha256 m) ''content_sha256'')
         (assert_sha256 (bm_logical_hash m) ''logical_hash'')))))))"

text \<open>The canonical JSON value; \<open>to_bytes\<close> prints it with sorted members.\<close>

definition bronze_manifest_json :: "bronze_manifest \<Rightarrow> json" where
  "bronze_manifest_json m = JObj
     [(''manifest_version'', JInt (bm_manifest_version m)),
      (''schema_version'', JInt (bm_schema_version m)),
      (''object_state'', JStr (bm_object_state m)),
      (''batch_id'', JStr (bm_batch_id m)),
      (''run_id'', JStr (uuid_str (bm_run_id m))),
      (''source_table'', JStr (bm_source_table m)),
      (''logical_date'', JStr (isoformat (instant (bm_logical_date m)))),
      (''watermark_before'', as_metadata_json (bm_watermark_before m)),
      (''extract_upper_bound'', as_metadata_json (bm_extract_upper_bound m)),
      (''object_key'', JStr (bm_object_key m)),
      (''object_size'', JInt (bm_object_size m)),
      (''content_sha256'', JStr (bm_content_sha256 m)),
      (''logical_hash'', JStr (bm_logical_hash m)),
      (''row_count'', JInt (bm_row_count m)),
      (''created_at'', JStr (isoformat (instant (bm_created_at m))))]"

record quarantine_manifest =
  qm_batch_id :: string
  qm_run_id :: uuid
  qm_source_table :: string
  qm_object_key :: string
  qm_object_size :: int
  qm_content_sha256 :: string
  qm_row_count :: int
  qm_error_counts :: "(string \<times> int) list"
  qm_created_at :: datetime

definition quarantine_manifest_check :: "quarantine_manifest \<Rightarrow> unit result" where
  "quarantine_manifest_check m =
     seq (require (\<not> (blank (qm_batch_id m) \<or> blank (qm_source_table m) \<or> blank (qm_object_key m)))
            ''Quarantine manifest identifiers must not be empty'')
    (seq (require (\<not> (qm_object_size m < 0 \<or> qm_row_count m < 0))
            ''Quarantine manifest size and row_count must be non-negative'')
    (seq (require (\<not> list_ex (\<lambda>(code, count). code = [] \<or> count < 0) (qm_error_counts m))
            ''Quarantine error_counts must contain non-negative named counts'')
    (seq (assert_utc (qm_created_at m) ''created_at'')
         (assert_sha256 (qm_content_sha256 m) ''content_sha256''))))"

definition quarantine_manifest_json :: "quarantine_manifest \<Rightarrow> json" where
  "quarantine_manifest_json m = JObj
     [(''manifest_version'', JInt MANIFEST_VERSION),
      (''object_state'', JStr VERIFIED_OBJECT_STATE),
      (''object_type'', JStr ''QUARANTINE''),
      (''batch_id'', JStr (qm_batch_id m)),
      (''run_id'', JStr (uuid_str (qm_run_id m))),
      (''source_table'', JStr (qm_source_table m)),
      (''object_key'', JStr (qm_object_key m)),
      (''object_size'', JInt (qm_object_size m)),
      (''content_sha256'', JStr (qm_content_sha256 m)),
      (''row_count'', JInt (qm_row_count m)),
      (''error_counts'', JObj (map (\<lambda>(code, n). (code, JInt n)) (sort_key fst (qm_error_counts m)))),
      (''created_at'', JStr (isoformat (instant (qm_created_at m))))]"

section \<open>Reading a manifest back\<close>

text \<open>\<open>json.loads\<close> of a body's bytes.\<close>

definition json_loads :: "object_body \<Rightarrow> json result" where
  "json_loads b = (case b of
      JsonBody j \<Rightarrow> Inr j
    | _ \<Rightarrow> Inl (Exn ValueError ''Expecting value''))"

definition json_item :: "string \<Rightarrow> (string \<times> json) list \<Rightarrow> json result" where
  "json_item name ms = get_item name ms"

text \<open>\<open>value != n\<close> for an integer \<open>n\<close>; Python's booleans are integers.\<close>

definition json_is_int :: "json \<Rightarrow> int \<Rightarrow> bool" where
  "json_is_int j n = (case j of JInt i \<Rightarrow> i = n | JBool b \<Rightarrow> (if b then 1 else 0) = n | _ \<Rightarrow> False)"

fun remove_all :: "string \<Rightarrow> string \<Rightarrow> string" where
  "remove_all p [] = []"
| "remove_all p (c # cs) =
     (if p \<noteq> [] \<and> starts_with p (c # cs) then remove_all p (drop (length p - 1) cs) else c # remove_all p cs)"

definition is_hex :: "char \<Rightarrow> bool" where
  "is_hex c = (let k = (of_char c :: nat) in (48 \<le> k \<and> k \<le> 57) \<or> (65 \<le> k \<and> k \<le> 70) \<or> (97 \<le> k \<and> k \<le> 102))"

text \<open>Digits of \<open>int(text, 16)\<close>: hexadecimal, with single underscores between them.\<close>

fun hex_groups :: "string \<Rightarrow> bool" where
  "hex_groups [] = False"
| "hex_groups [c] = is_hex c"
| "hex_groups (c # d # cs) = (is_hex c \<and> (if d = CHR ''_'' then hex_groups cs else hex_groups (d # cs)))"

definition int16_parses :: "string \<Rightarrow> bool" where
  "int16_parses text =
     (let s = strip text;
          s = (if starts_with ''+'' s then drop 1 s else s);
          s = (if starts_with ''0x'' s \<or> starts_with ''0X'' s
               then (if starts_with ''_'' (drop 2 s) then drop 3 s else drop 2 s) else s)
      in hex_groups s)"

text \<open>\<open>uuid.UUID(text)\<close> succeeds.\<close>

definition strip_braces :: "string \<Rightarrow> string" where
  "strip_braces s = rev (dropWhile (\<lambda>c. c \<in> {CHR ''{'', CHR ''}''}) (rev (dropWhile (\<lambda>c. c \<in> {CHR ''{'', CHR ''}''}) s)))"

definition uuid_parses :: "string \<Rightarrow> bool" where
  "uuid_parses text =
     (let h = remove_all ''-'' (strip_braces (remove_all ''uuid:'' (remove_all ''urn:'' text)))
      in length h = 32 \<and> int16_parses h)"

definition utc_datetime_from_manifest :: "string \<Rightarrow> datetime result" where
  "utc_datetime_from_manifest s = (case fromisoformat s of
      None \<Rightarrow> Inl (Exn ValueError ''Invalid isoformat string'')
    | Some d \<Rightarrow> (if utcoffset d = Some 0 then Inr d
        else Inl (Exn ValueError ''manifest timestamps must be normalized to UTC'')))"

definition cursor_from_manifest_payload :: "json \<Rightarrow> cursor_position result" where
  "cursor_from_manifest_payload v = (case v of
      JObj ms \<Rightarrow>
        (if fst ` set ms \<noteq> {''timestamp'', ''keys''}
         then Inl (Exn ValueError ''manifest cursor must contain timestamp and keys'')
         else case (json_get ''timestamp'' v, json_get ''keys'' v) of
           (JNull, JList ks) \<Rightarrow> make_cursor None (map value_of_json ks)
         | (JStr s, JList ks) \<Rightarrow> (case utc_datetime_from_manifest s of
               Inl e \<Rightarrow> Inl e
             | Inr d \<Rightarrow> make_cursor (Some d) (map value_of_json ks))
         | (JNull, _) \<Rightarrow> Inl (Exn TypeError ''manifest cursor keys must be an array'')
         | (JStr _, _) \<Rightarrow> Inl (Exn TypeError ''manifest cursor keys must be an array'')
         | _ \<Rightarrow> Inl (Exn ValueError ''manifest cursor timestamp must be a UTC string or null''))
    | _ \<Rightarrow> Inl (Exn ValueError ''manifest cursor must contain timestamp and keys''))"

definition json_text_ok :: "json \<Rightarrow> bool" where
  "json_text_ok j = (case j of JStr s \<Rightarrow> \<not> blank s | _ \<Rightarrow> False)"

definition json_count_ok :: "json \<Rightarrow> bool" where
  "json_count_ok j = (case j of JInt i \<Rightarrow> 0 \<le> i | _ \<Rightarrow> False)"

definition json_sha256_ok :: "json \<Rightarrow> bool" where
  "json_sha256_ok j = (case j of JStr s \<Rightarrow> is_sha256 s | _ \<Rightarrow> False)"

definition json_text :: "json \<Rightarrow> string" where
  "json_text j = (case j of JStr s \<Rightarrow> s | _ \<Rightarrow> [])"

definition json_int :: "json \<Rightarrow> int" where
  "json_int j = (case j of JInt i \<Rightarrow> i | _ \<Rightarrow> 0)"

text \<open>\<open>expr\<close> for its exceptions only.\<close>

definition check_of :: "'a result \<Rightarrow> unit result" where
  "check_of r = map_sum id (\<lambda>_. ()) r"

definition assert_bronze_manifest_types :: "json \<Rightarrow> unit result" where
  "assert_bronze_manifest_types p =
     seq (require (list_all (\<lambda>n. json_text_ok (json_get n p))
            [''batch_id'', ''source_table'', ''logical_date'', ''object_key'', ''content_sha256'', ''logical_hash''])
            ''manifest identifiers must be non-empty strings'')
    (seq (require (list_all (\<lambda>n. json_count_ok (json_get n p)) [''object_size'', ''row_count''])
            ''manifest size and row_count must be non-negative integers'')
    (seq (require (case json_get ''schema_version'' p of JInt i \<Rightarrow> 0 < i | _ \<Rightarrow> False)
            ''manifest schema_version must be a positive integer'')
    (seq (require (list_all (\<lambda>n. json_sha256_ok (json_get n p)) [''content_sha256'', ''logical_hash''])
            ''manifest hashes must be a lowercase SHA-256 hex'')
    (seq (check_of (table_config (json_text (json_get ''source_table'' p))))
    (seq (check_of (cursor_from_manifest_payload (json_get ''watermark_before'' p)))
    (seq (check_of (cursor_from_manifest_payload (json_get ''extract_upper_bound'' p)))
         (check_of (utc_datetime_from_manifest (json_text (json_get ''logical_date'' p))))))))))"

definition REQUIRED_BRONZE_MANIFEST_FIELDS :: "string list" where
  "REQUIRED_BRONZE_MANIFEST_FIELDS = [''batch_id'', ''run_id'', ''source_table'', ''logical_date'', ''watermark_before'',
     ''extract_upper_bound'', ''object_key'', ''object_size'', ''content_sha256'', ''logical_hash'', ''row_count'',
     ''schema_version'']"

text \<open>\<open>uuid.UUID(value)\<close>: a JSON \<open>null\<close> raises \<open>TypeError\<close>, other non-strings an \<open>AttributeError\<close>.\<close>

definition check_run_id :: "json \<Rightarrow> unit result" where
  "check_run_id j = (case j of
      JStr s \<Rightarrow> require (uuid_parses s) ''badly formed hexadecimal UUID string''
    | JNull \<Rightarrow> Inl (Exn TypeError ''one of the hex, bytes, bytes_le, fields, or int arguments must be given'')
    | _ \<Rightarrow> Inl (Exn (OtherError ''AttributeError'') ''replace''))"

definition check_manifest_payload :: "json \<Rightarrow> string \<Rightarrow> unit result" where
  "check_manifest_payload p expected_object_key = (case p of
      JObj ms \<Rightarrow>
        (case (json_item ''manifest_version'' ms, json_item ''object_state'' ms, json_item ''object_key'' ms) of
           (Inr v, Inr state, Inr key) \<Rightarrow>
             (if \<not> json_is_int v MANIFEST_VERSION \<or> state \<noteq> JStr VERIFIED_OBJECT_STATE \<or> key \<noteq> JStr expected_object_key
              then Inl (Exn ValueError ''manifest object identity is invalid'')
              else case json_item ''run_id'' ms of
                Inl e \<Rightarrow> Inl e
              | Inr i \<Rightarrow>
                  seq (check_run_id i)
                 (seq (require (list_all (\<lambda>n. n \<in> fst ` set ms) REQUIRED_BRONZE_MANIFEST_FIELDS)
                         ''manifest fields are incomplete'')
                      (assert_bronze_manifest_types p)))
         | _ \<Rightarrow> Inl (Exn (OtherError ''KeyError'') ''manifest object identity''))
    | _ \<Rightarrow> Inl (Exn TypeError ''manifest must be a JSON object''))"

text \<open>\<open>except (KeyError, TypeError, ValueError, JSONDecodeError)\<close> becomes one \<open>ValueError\<close>.\<close>

definition parse_bronze_manifest_payload :: "object_body \<Rightarrow> string \<Rightarrow> json result" where
  "parse_bronze_manifest_payload body expected_object_key =
     (case (case json_loads body of
        Inl e \<Rightarrow> Inl e
      | Inr p \<Rightarrow> (case check_manifest_payload p expected_object_key of Inl e \<Rightarrow> Inl e | Inr _ \<Rightarrow> Inr p)) of
        Inr p \<Rightarrow> Inr p
      | Inl e \<Rightarrow> (if exn_class e \<in> {OtherError ''KeyError'', TypeError, ValueError}
          then Inl (Exn ValueError ''Bronze manifest is invalid'') else Inl e))"

section \<open>Object keys\<close>

definition assert_nonempty_batch_id :: "string \<Rightarrow> unit result" where
  "assert_nonempty_batch_id b = require (\<not> blank b) ''batch_id must not be empty''"

definition object_prefix :: "string \<Rightarrow> string \<Rightarrow> string \<Rightarrow> time \<Rightarrow> string" where
  "object_prefix root table batch date =
     root @ ''/'' @ table @ ''/ingestion_date='' @ date_isoformat date @ ''/batch_id='' @ batch"

definition object_keys ::
    "string \<Rightarrow> string \<Rightarrow> string \<Rightarrow> string \<Rightarrow> datetime \<Rightarrow> (string \<times> string) result" where
  "object_keys root file table batch date =
     seq (check_of (table_config table))
    (seq (assert_nonempty_batch_id batch)
    (seq (assert_utc date ''logical_date'')
    (let prefix = object_prefix root table batch (instant date)
     in Inr (prefix @ ''/'' @ file, prefix @ ''/manifest.json''))))"

definition table_object_keys :: "string \<Rightarrow> string \<Rightarrow> datetime \<Rightarrow> (string \<times> string) result" where
  "table_object_keys = object_keys ''bronze'' ''data.parquet''"

definition quarantine_object_keys :: "string \<Rightarrow> string \<Rightarrow> datetime \<Rightarrow> (string \<times> string) result" where
  "quarantine_object_keys = object_keys ''quarantine'' ''records.parquet''"

section \<open>Uploads: lemmas\<close>

lemma s3_head_state: "s3_laws enc c \<Longrightarrow> head_object c k s = (x, s') \<Longrightarrow> s3_objects c s' = s3_objects c s"
  unfolding s3_laws_def by (metis snd_conv)

lemma s3_bucket_state:
  "s3_laws enc c \<Longrightarrow> head_bucket c s = (x, s') \<Longrightarrow> s3_objects c s' = s3_objects c s"
  "s3_laws enc c \<Longrightarrow> create_bucket c s = (x, s') \<Longrightarrow> s3_objects c s' = s3_objects c s"
  unfolding s3_laws_def by (metis snd_conv)+

lemma ensure_bucket_state:
  assumes "s3_laws enc c" "ensure_bucket c s = (x, s')"
  shows "s3_objects c s' = s3_objects c s"
proof (cases "head_bucket c s")
  case (Pair y s1)
  have s1: "s3_objects c s1 = s3_objects c s" using s3_bucket_state(1) [OF assms(1) Pair] .
  have "s' = s1 \<or> create_bucket c s1 = (x, s')"
    using assms(2) Pair by (auto simp: ensure_bucket_def split: sum.splits error_class.splits if_splits)
  then show ?thesis using s1 s3_bucket_state(2) [OF assms(1)] by auto
qed

lemma s3_head_ok:
  "s3_laws enc c \<Longrightarrow> head_object c k s = (Inr h, s') \<Longrightarrow> \<exists>ob. s3_objects c s k = Some ob \<and> h = object_head ob"
  unfolding s3_laws_def by (metis fst_conv)

lemma s3_get_state: "s3_laws enc c \<Longrightarrow> get_object c k s = (x, s') \<Longrightarrow> s3_objects c s' = s3_objects c s"
  unfolding s3_laws_def by (metis snd_conv)

lemma s3_get_ok:
  "s3_laws enc c \<Longrightarrow> get_object c k s = (Inr b, s') \<Longrightarrow> \<exists>ob. s3_objects c s k = Some ob \<and> b = object_body ob"
  unfolding s3_laws_def by (metis fst_conv)

lemma s3_list_state: "s3_laws enc c \<Longrightarrow> list_objects c k s = (x, s') \<Longrightarrow> s3_objects c s' = s3_objects c s"
  unfolding s3_laws_def by (metis snd_conv)

lemma s3_list_ok:
  "s3_laws enc c \<Longrightarrow> list_objects c p s = (Inr ks, s') \<Longrightarrow> set ks = {k. starts_with p k \<and> s3_objects c s k \<noteq> None}"
  unfolding s3_laws_def by (metis fst_conv)

lemma s3_put_ok: "s3_laws enc c \<Longrightarrow> put_object c k b sha s = (Inr u, s') \<Longrightarrow> put_effect enc c k b sha s s'"
  unfolding s3_laws_def by (metis fst_conv snd_conv)

lemma s3_put_err:
  "s3_laws enc c \<Longrightarrow> put_object c k b sha s = (Inl e, s') \<Longrightarrow>
     s3_objects c s' = s3_objects c s \<or> put_effect enc c k b sha s s'"
  unfolding s3_laws_def by (metis fst_conv snd_conv)

lemmas s3_state = s3_head_state s3_get_state s3_list_state

lemma reject_existing_object_state:
  "s3_laws enc c \<Longrightarrow> reject_existing_object c k s = (x, s') \<Longrightarrow> s3_objects c s' = s3_objects c s"
  by (auto simp: reject_existing_object_def split: prod.splits sum.splits if_splits dest: s3_head_state)

lemma put_new_state:
  "s3_laws enc c \<Longrightarrow> put_new c k b sha s = (x, s') \<Longrightarrow>
     s3_objects c s' = s3_objects c s \<or> put_effect enc c k b sha s s'"
  by (auto simp: put_new_def split: prod.splits sum.splits if_splits dest: s3_put_err s3_put_ok)

lemma put_new_ok: "s3_laws enc c \<Longrightarrow> put_new c k b sha s = (Inr u, s') \<Longrightarrow> put_effect enc c k b sha s s'"
  by (auto simp: put_new_def split: prod.splits sum.splits if_splits dest: s3_put_ok)

text \<open>An upload that returns created a new object with exactly the body it was given.\<close>

lemma upload_new_ok:
  assumes "s3_laws enc c" "upload_new enc c key body s = (Inr so, s')"
  shows "s3_objects c s key = None \<and> s3_objects c s' = (s3_objects c s)(key \<mapsto>
      \<lparr>object_body = body, object_head = put_head enc body (byte_sha256 enc body)\<rparr>) \<and>
    so = \<lparr>so_key = key, so_size = byte_size enc body, so_content_sha256 = byte_sha256 enc body\<rparr>"
  using assms(2)
  by (auto simp: upload_new_def Let_def bindM_ok put_effect_def
      dest!: reject_existing_object_state [OF assms(1)] put_new_ok [OF assms(1)] s3_head_state [OF assms(1)])

text \<open>Whatever an upload does, it at most adds the object at its own key.\<close>

lemma upload_new_state:
  assumes "s3_laws enc c" "upload_new enc c key body s = (x, s')"
  shows "s3_objects c s' = s3_objects c s \<or> put_effect enc c key body (byte_sha256 enc body) s s'"
proof (cases x)
  case (Inl e)
  with assms(2) show ?thesis
    by (auto simp: upload_new_def Let_def bindM_err bindM_ok put_effect_def
        dest!: reject_existing_object_state [OF assms(1)] put_new_state [OF assms(1)] s3_head_state [OF assms(1)])
next
  case (Inr so)
  with upload_new_ok [OF assms(1)] assms(2) show ?thesis by (auto simp: put_effect_def)
qed

lemma upload_new_keeps:
  assumes "s3_laws enc c" "upload_new enc c key body s = (x, s')" "s3_objects c s k = Some ob"
  shows "s3_objects c s' k = Some ob"
  using upload_new_state [OF assms(1,2)] assms(3) by (auto simp: put_effect_def)

lemma upload_new_exists:
  assumes "s3_laws enc c" "s3_objects c s key = Some ob"
  shows "\<exists>e s'. upload_new enc c key body s = (Inl e, s') \<and> s3_objects c s' = s3_objects c s"
proof (cases "upload_new enc c key body s")
  case (Pair x s')
  with upload_new_state [OF assms(1) Pair] upload_new_ok [OF assms(1)] assms(2) show ?thesis
    by (cases x) (auto simp: put_effect_def)
qed

lemma verify_parquet_object_ok:
  assumes "s3_laws enc c" "verify_parquet_object enc c ob s = (Inr v, s')"
  shows "s3_objects c s' = s3_objects c s \<and> so_key v = so_key ob \<and> so_content_sha256 v = so_content_sha256 ob \<and>
    (\<exists>o'. s3_objects c s (so_key ob) = Some o' \<and> byte_sha256 enc (object_body o') = so_content_sha256 ob \<and>
      so_size v = byte_size enc (object_body o') \<and>
      (\<forall>rows. object_body o' = ParquetBody rows \<longrightarrow> vp_row_count v = length rows))"
proof -
  from assms(2) obtain payload where g: "get_object c (so_key ob) s = (Inr payload, s')"
    and sha: "byte_sha256 enc payload = so_content_sha256 ob"
    and v: "so_key v = so_key ob" "so_size v = byte_size enc payload" "so_content_sha256 v = so_content_sha256 ob"
      "\<forall>rows. payload = ParquetBody rows \<longrightarrow> vp_row_count v = length rows"
  proof (unfold verify_parquet_object_def bindM_ok, elim exE conjE, goal_cases)
    case (1 payload s1 u s2)
    then show ?case by (cases payload) auto
  qed
  with s3_get_ok [OF assms(1) g] s3_get_state [OF assms(1) g] show ?thesis by auto
qed

section \<open>The writer: lemmas\<close>

lemma write_records_ok:
  assumes "write_records to_arrow rs w = (Inr u, w')" "bw_row_count w = length (bw_rows w)"
  shows "\<not> bw_closed w' \<and> bw_config w' = bw_config w \<and> bw_context w' = bw_context w \<and>
    bw_row_count w' = length (bw_rows w') \<and>
    (\<exists>rows. bw_rows w' = bw_rows w @ rows \<and>
      (if rs = [] then rows = [] else to_arrow (bronze_schema (bw_config w)) (map (source_record_row (bw_context w)) rs) = Inr rows))"
  using assms by (auto simp: write_records_def bindM_ok split: if_splits)

lemma close_bronze_writer_ok:
  "close_bronze_writer w = (Inr a, w') \<longleftrightarrow> \<not> bw_closed w \<and> w' = w\<lparr>bw_closed := True\<rparr> \<and>
     a = \<lparr>ba_rows = bw_rows w, ba_row_count = bw_row_count w\<rparr>"
  by (auto simp: close_bronze_writer_def bindM_ok)

section \<open>The logical hash: lemmas\<close>

text \<open>The order of the rows in the file does not matter, nor do the technical columns.\<close>

lemma logical_text_order:
  assumes "mset rows = mset rows'" "distinct (map (business_key cfg) rows)"
  shows "logical_text cfg rows = logical_text cfg rows'"
proof -
  have "inj_on (business_key cfg) (set rows)" using assms(2) by (simp add: distinct_map)
  moreover have "mset rows = mset (sort_key (business_key cfg) rows')" using assms(1) by simp
  ultimately have "sort_key (business_key cfg) rows = sort_key (business_key cfg) rows'"
    by (intro sort_key_inj_key_eq) simp_all
  then show ?thesis by (simp add: logical_text_def)
qed

definition same_business :: "table_config \<Rightarrow> parquet_row \<Rightarrow> parquet_row \<Rightarrow> bool" where
  "same_business cfg a b \<longleftrightarrow> business_columns cfg a = business_columns cfg b"

lemma business_columns_value:
  "same_business cfg a b \<Longrightarrow> n \<in> set (source_column_names cfg) \<Longrightarrow> value_get a n = value_get b n"
  by (auto simp: same_business_def business_columns_def)

lemma business_key_same:
  assumes "table_config name = Inr cfg" "same_business cfg a b"
  shows "business_key cfg a = business_key cfg b"
proof -
  have "set (primary_key_columns cfg) \<subseteq> set (source_column_names cfg)"
    using table_config_ok(2) [OF assms(1)] unfolding table_config_check_ok by blast
  then show ?thesis using business_columns_value [OF assms(2)] by (auto simp: business_key_def)
qed

lemma sort_key_list_all2:
  assumes "list_all2 r xs ys" "\<And>x y. r x y \<Longrightarrow> f x = f y"
  shows "list_all2 r (sort_key f xs) (sort_key f ys)"
proof -
  have ins: "list_all2 r (insort_key f x xs) (insort_key f y ys)" if "r x y" "list_all2 r xs ys" for x y xs ys
    using that(2) by (induction rule: list_all2_induct) (use that(1) assms(2) in auto)
  show ?thesis unfolding sort_key_def
    using assms(1) by (induction rule: list_all2_induct) (auto intro: ins)
qed

lemma logical_text_technical:
  assumes "table_config name = Inr cfg" "list_all2 (same_business cfg) rows rows'"
  shows "logical_text cfg rows = logical_text cfg rows'"
proof -
  have "list_all2 (same_business cfg) (sort_key (business_key cfg) rows) (sort_key (business_key cfg) rows')"
    using assms(2) business_key_same [OF assms(1)] by (rule sort_key_list_all2)
  then have "map (business_columns cfg) (sort_key (business_key cfg) rows) =
      map (business_columns cfg) (sort_key (business_key cfg) rows')"
    by (induction rule: list_all2_induct) (auto simp: same_business_def)
  then have "map (f \<circ> business_columns cfg) (sort_key (business_key cfg) rows) =
      map (f \<circ> business_columns cfg) (sort_key (business_key cfg) rows')" for f :: "parquet_row \<Rightarrow> string result"
    by (simp flip: map_map)
  from this [of "\<lambda>r. map_sum id (\<lambda>t. t @ [CHR 0x0A]) (canonical_row business_time ''Unsupported business value'' r)"]
  show ?thesis by (simp add: logical_text_def comp_def)
qed

section \<open>UUIDs in text\<close>

lemma hex_digit_is_hex [simp]: "is_hex (hex_digit n)"
proof -
  have "n mod 16 < 16" by simp
  then show ?thesis
    by (auto simp: hex_digit_def is_hex_def Let_def)
qed

lemma set_hex: "c \<in> set (hex w n) \<Longrightarrow> is_hex c"
  by (induction w arbitrary: n) auto

lemma length_hex [simp]: "length (hex w n) = w"
  by (induction w arbitrary: n) auto

lemma remove_all_absent: "CHR ''u'' \<notin> set s \<Longrightarrow> p = CHR ''u'' # q \<Longrightarrow> remove_all p s = s"
  by (induction s) (auto simp: starts_with_def)

lemma remove_all_single: "remove_all [c] s = filter (\<lambda>d. d \<noteq> c) s"
  by (induction s) (auto simp: starts_with_def)

lemma hex_not_special:
  "is_hex c \<Longrightarrow> c \<noteq> CHR ''u'' \<and> c \<noteq> CHR ''-'' \<and> c \<noteq> CHR ''{'' \<and> c \<noteq> CHR ''}'' \<and> c \<noteq> CHR ''x'' \<and> c \<noteq> CHR ''X'' \<and>
     c \<noteq> CHR ''+'' \<and> \<not> is_space c"
  by (auto simp: is_hex_def is_space_def Let_def)

lemma set_uuid_str: "c \<in> set (uuid_str u) \<Longrightarrow> is_hex c \<or> c = CHR ''-''"
  unfolding uuid_str_def Let_def by (auto dest!: in_set_takeD in_set_dropD intro: set_hex)

lemma dropWhile_none: "(\<forall>c \<in> set s. \<not> P c) \<Longrightarrow> dropWhile P s = s"
  by (cases s) auto

lemma filter_id: "(\<forall>c \<in> set s. P c) \<Longrightarrow> filter P s = s"
  by (rule filter_True) auto

lemma uuid_str_dashless: "filter (\<lambda>d. d \<noteq> CHR ''-'') (uuid_str u) = hex 32 u"
proof -
  define h where "h = hex 32 u"
  have no: "\<forall>c \<in> set h. c \<noteq> CHR ''-''" using set_hex [of _ 32 u] hex_not_special by (auto simp: h_def)
  have part: "filter (\<lambda>d. d \<noteq> CHR ''-'') (take n (drop m h)) = take n (drop m h)" for n m
    using no by (intro filter_True) (auto dest!: in_set_takeD in_set_dropD)
  have part0: "filter (\<lambda>d. d \<noteq> CHR ''-'') (take n h) = take n h" for n using part [of n 0] by simp
  have part1: "filter (\<lambda>d. d \<noteq> CHR ''-'') (drop m h) = drop m h" for m
    using no by (intro filter_True) (auto dest!: in_set_dropD)
  have step: "drop m h = take n (drop m h) @ drop (n + m) h" for n m
    by (metis append_take_drop_id drop_drop)
  have "h = take 8 h @ take 4 (drop 8 h) @ take 4 (drop 12 h) @ take 4 (drop 16 h) @ drop 20 h"
    using step [of 0 8] step [of 8 4] step [of 12 4] step [of 16 4] by simp
  then show ?thesis
    by (simp add: uuid_str_def Let_def part part0 part1 flip: h_def)
qed

lemma hex_groups_hex: "s \<noteq> [] \<Longrightarrow> (\<forall>c \<in> set s. is_hex c) \<Longrightarrow> hex_groups s"
proof (induction s rule: hex_groups.induct)
  case (3 c d cs)
  then show ?case by (auto simp: is_hex_def)
qed auto

lemma uuid_parses_str: "uuid_parses (uuid_str u)"
proof -
  let ?s = "uuid_str u" and ?h = "hex 32 u"
  have u: "CHR ''u'' \<notin> set ?s" using set_uuid_str [of _ u] hex_not_special by auto
  have b: "\<forall>c \<in> set ?s. c \<notin> {CHR ''{'', CHR ''}''}" using set_uuid_str [of _ u] hex_not_special by fastforce
  then have "strip_braces ?s = ?s" by (simp add: strip_braces_def dropWhile_none)
  then have h: "remove_all ''-'' (strip_braces (remove_all ''uuid:'' (remove_all ''urn:'' ?s))) = ?h"
    using u by (simp add: remove_all_absent remove_all_single uuid_str_dashless)
  have hx: "\<forall>c \<in> set ?h. is_hex c" by (auto dest: set_hex)
  have sp: "strip ?h = ?h"
    unfolding strip_def using hx hex_not_special by (simp add: dropWhile_none)
  have "length ?h = Suc (Suc 30)" by simp
  then obtain a b cs where abc: "?h = a # b # cs" unfolding length_Suc_conv by blast
  then have "a \<noteq> CHR ''+''" "b \<noteq> CHR ''x''" "b \<noteq> CHR ''X''" using hx hex_not_special by auto
  then have "int16_parses ?h"
    unfolding int16_parses_def sp Let_def
    using abc hx hex_groups_hex [of ?h] by (simp add: starts_with_def)
  with h show ?thesis by (simp add: uuid_parses_def Let_def)
qed

section \<open>The manifest round trip\<close>

lemma cursor_from_manifest_as_metadata_json:
  assumes "cursor_ok c" and "\<forall>t. cp_timestamp c = Some t \<longrightarrow> supported_time t"
  shows "cursor_from_manifest_payload (as_metadata_json c) = Inr c"
proof (cases "cp_timestamp c")
  case None
  with assms(1) show ?thesis
    by (cases c) (auto simp: cursor_from_manifest_payload_def as_metadata_json_def json_get_def make_cursor_def cursor_ok_def
        as_json_def)
next
  case (Some t)
  then have iso: "fromisoformat (isoformat t) = Some (utc t)"
    using assms(2) fromisoformat_isoformat by (simp add: utc_def)
  have "map value_of_json (map json_of_key (cp_keys c)) = map value_of_key (cp_keys c)" by simp
  with Some iso make_cursor_utc [OF assms(1) Some] show ?thesis
    by (auto simp: cursor_from_manifest_payload_def as_metadata_json_def json_get_def as_json_def
        utc_datetime_from_manifest_def comp_def)
qed

definition manifest_times_ok :: "bronze_manifest \<Rightarrow> bool" where
  "manifest_times_ok m \<longleftrightarrow> supported_time (instant (bm_logical_date m)) \<and>
     (\<forall>t. cp_timestamp (bm_watermark_before m) = Some t \<longrightarrow> supported_time t) \<and>
     (\<forall>t. cp_timestamp (bm_extract_upper_bound m) = Some t \<longrightarrow> supported_time t)"

lemma isoformat_not_blank: "\<not> blank (isoformat t)"
proof -
  have "CHR ''T'' \<in> set (isoformat t)" by (simp add: isoformat_def Let_def)
  moreover have "\<not> is_space (CHR ''T'')" by code_simp
  ultimately show ?thesis by (auto simp: blank_def list_all_iff)
qed

lemma sha256_not_blank: "is_sha256 s \<Longrightarrow> \<not> blank s"
proof -
  assume "is_sha256 s"
  then have len: "length s = 64" and sub: "set s \<subseteq> set ''0123456789abcdef''" by (simp_all only: is_sha256_def)
  from len have "s \<noteq> []" by auto
  then have "hd s \<in> set s" by (rule hd_in_set)
  with sub have "hd s \<in> set ''0123456789abcdef''" by (rule subsetD)
  moreover have "\<forall>c \<in> set ''0123456789abcdef''. \<not> is_space c" by code_simp
  ultimately have "\<not> is_space (hd s)" by (rule bspec [rotated])
  with \<open>hd s \<in> set s\<close> show ?thesis unfolding blank_def list_all_iff by blast
qed

lemma manifest_json_get:
  "json_get ''batch_id'' (bronze_manifest_json m) = JStr (bm_batch_id m)"
  "json_get ''run_id'' (bronze_manifest_json m) = JStr (uuid_str (bm_run_id m))"
  "json_get ''source_table'' (bronze_manifest_json m) = JStr (bm_source_table m)"
  "json_get ''logical_date'' (bronze_manifest_json m) = JStr (isoformat (instant (bm_logical_date m)))"
  "json_get ''watermark_before'' (bronze_manifest_json m) = as_metadata_json (bm_watermark_before m)"
  "json_get ''extract_upper_bound'' (bronze_manifest_json m) = as_metadata_json (bm_extract_upper_bound m)"
  "json_get ''object_key'' (bronze_manifest_json m) = JStr (bm_object_key m)"
  "json_get ''object_size'' (bronze_manifest_json m) = JInt (bm_object_size m)"
  "json_get ''content_sha256'' (bronze_manifest_json m) = JStr (bm_content_sha256 m)"
  "json_get ''logical_hash'' (bronze_manifest_json m) = JStr (bm_logical_hash m)"
  "json_get ''row_count'' (bronze_manifest_json m) = JInt (bm_row_count m)"
  "json_get ''schema_version'' (bronze_manifest_json m) = JInt (bm_schema_version m)"
  by (simp_all add: json_get_def bronze_manifest_json_def)

lemma assert_utc_ok [simp]: "assert_utc d n = Inr u \<longleftrightarrow> utcoffset d = Some 0"
  by (auto simp: assert_utc_def)

lemma check_of_ok [simp]: "check_of r = Inr u \<longleftrightarrow> (\<exists>x. r = Inr x)"
  by (cases r) (auto simp: check_of_def)

lemma assert_sha256_ok [simp]: "assert_sha256 s n = Inr u \<longleftrightarrow> is_sha256 s"
  by (auto simp: assert_sha256_def)

lemma assert_bronze_manifest_types_ok:
  assumes "bronze_manifest_check m = Inr ()" "table_config (bm_source_table m) = Inr cfg"
    "cursor_ok (bm_watermark_before m)" "cursor_ok (bm_extract_upper_bound m)" "manifest_times_ok m"
  shows "assert_bronze_manifest_types (bronze_manifest_json m) = Inr ()"
proof -
  have "fromisoformat (isoformat (instant (bm_logical_date m))) = Some (utc (instant (bm_logical_date m)))"
    using assms(5) fromisoformat_isoformat by (simp add: manifest_times_ok_def utc_def)
  with assms show ?thesis
    by (simp add: assert_bronze_manifest_types_def manifest_json_get json_text_ok_def json_count_ok_def json_sha256_ok_def
        json_text_def bronze_manifest_check_def isoformat_not_blank sha256_not_blank utc_datetime_from_manifest_def
        cursor_from_manifest_as_metadata_json manifest_times_ok_def)
qed

lemma manifest_members:
  "fst ` set (case bronze_manifest_json m of JObj ms \<Rightarrow> ms | _ \<Rightarrow> []) \<supseteq> set REQUIRED_BRONZE_MANIFEST_FIELDS"
  by (simp add: bronze_manifest_json_def REQUIRED_BRONZE_MANIFEST_FIELDS_def)

lemma check_manifest_payload_ok:
  assumes "bronze_manifest_check m = Inr ()" "table_config (bm_source_table m) = Inr cfg"
    "cursor_ok (bm_watermark_before m)" "cursor_ok (bm_extract_upper_bound m)" "manifest_times_ok m"
  shows "check_manifest_payload (bronze_manifest_json m) (bm_object_key m) = Inr ()"
proof -
  have v: "bm_manifest_version m = 1" "bm_object_state m = ''VERIFIED''"
    using assms(1) by (auto simp: bronze_manifest_check_def MANIFEST_VERSION_def VERIFIED_OBJECT_STATE_def)
  obtain ms where ms: "bronze_manifest_json m = JObj ms" by (simp add: bronze_manifest_json_def)
  have items: "json_item ''manifest_version'' ms = Inr (JInt 1)" "json_item ''object_state'' ms = Inr (JStr ''VERIFIED'')"
      "json_item ''object_key'' ms = Inr (JStr (bm_object_key m))" "json_item ''run_id'' ms = Inr (JStr (uuid_str (bm_run_id m)))"
    using ms v by (auto simp: json_item_def get_item_def bronze_manifest_json_def)
  have "list_all (\<lambda>n. n \<in> fst ` set ms) REQUIRED_BRONZE_MANIFEST_FIELDS"
    using manifest_members [of m] ms by (auto simp: list_all_iff)
  with items assert_bronze_manifest_types_ok [OF assms] show ?thesis
    by (simp add: check_manifest_payload_def ms json_is_int_def MANIFEST_VERSION_def VERIFIED_OBJECT_STATE_def
        check_run_id_def uuid_parses_str)
qed

lemma parse_manifest_round_trip:
  assumes "bronze_manifest_check m = Inr ()" "table_config (bm_source_table m) = Inr cfg"
    "cursor_ok (bm_watermark_before m)" "cursor_ok (bm_extract_upper_bound m)" "manifest_times_ok m"
  shows "parse_bronze_manifest_payload (JsonBody (bronze_manifest_json m)) (bm_object_key m) = Inr (bronze_manifest_json m)"
  using check_manifest_payload_ok [OF assms] by (simp add: parse_bronze_manifest_payload_def json_loads_def)

lemma json_count_ok_int: "json_count_ok j \<Longrightarrow> 0 \<le> json_int j"
  by (cases j) (simp_all add: json_count_ok_def json_int_def)

lemma json_sha256_ok_text: "json_sha256_ok j \<Longrightarrow> is_sha256 (json_text j)"
  by (cases j) (simp_all add: json_sha256_ok_def json_text_def)

lemma json_positive: "(case j of JInt i \<Rightarrow> 0 < i | _ \<Rightarrow> False) \<Longrightarrow> 0 < json_int j"
  by (cases j) (simp_all add: json_int_def)

text \<open>What a parsed manifest is known to hold.\<close>

lemma parse_manifest_ok:
  assumes "parse_bronze_manifest_payload body key = Inr p"
  shows "body = JsonBody p \<and> json_get ''object_key'' p = JStr key \<and>
    (\<exists>c. cursor_from_manifest_payload (json_get ''watermark_before'' p) = Inr c) \<and>
    (\<exists>c. cursor_from_manifest_payload (json_get ''extract_upper_bound'' p) = Inr c) \<and>
    (\<exists>cfg. table_config (json_text (json_get ''source_table'' p)) = Inr cfg) \<and>
    0 \<le> json_int (json_get ''row_count'' p) \<and> 0 < json_int (json_get ''schema_version'' p) \<and>
    is_sha256 (json_text (json_get ''content_sha256'' p)) \<and> is_sha256 (json_text (json_get ''logical_hash'' p))"
proof -
  from assms have j: "json_loads body = Inr p" and c: "check_manifest_payload p key = Inr ()"
    by (auto simp: parse_bronze_manifest_payload_def split: sum.splits if_splits)
  from j have "body = JsonBody p" by (auto simp: json_loads_def split: object_body.splits)
  moreover obtain ms where p: "p = JObj ms"
    using c by (cases p) (simp_all add: check_manifest_payload_def)
  moreover obtain v state where items: "json_item ''manifest_version'' ms = Inr v" "json_item ''object_state'' ms = Inr state"
      and k: "json_item ''object_key'' ms = Inr (JStr key)"
    using c unfolding p check_manifest_payload_def
    by (cases "json_item ''manifest_version'' ms"; cases "json_item ''object_state'' ms"; cases "json_item ''object_key'' ms")
       (simp_all split: if_splits)
  moreover have t: "assert_bronze_manifest_types p = Inr ()"
    using c items k unfolding p check_manifest_payload_def by (simp split: if_splits sum.splits)
  moreover from p k have "json_get ''object_key'' p = JStr key"
    by (auto simp: json_get_def json_item_def get_item_def split: option.splits)
  moreover from t have "0 \<le> json_int (json_get ''row_count'' p) \<and> 0 < json_int (json_get ''schema_version'' p) \<and>
      is_sha256 (json_text (json_get ''content_sha256'' p)) \<and> is_sha256 (json_text (json_get ''logical_hash'' p))"
    by (simp add: assert_bronze_manifest_types_def json_count_ok_int json_sha256_ok_text json_positive)
  ultimately show ?thesis using t by (simp add: assert_bronze_manifest_types_def)
qed

section \<open>Object keys: lemmas\<close>

lemma object_keys_ok:
  "object_keys root file table batch date = Inr (k, m) \<longleftrightarrow>
     (\<exists>cfg. table_config table = Inr cfg) \<and> \<not> blank batch \<and> utcoffset date = Some 0 \<and>
     k = object_prefix root table batch (instant date) @ ''/'' @ file \<and>
     m = object_prefix root table batch (instant date) @ ''/manifest.json''"
  by (auto simp: object_keys_def assert_nonempty_batch_id_def Let_def)

end
