(* ===== verification/Recovery.thy ===== *)
theory Recovery
  imports Bronze
begin

text \<open>
  What reads and repairs the committed state: the DuckDB file catalog (bronze/catalog.py), the
  verification of a batch (bronze/verification.py), the reconciliation of orphaned objects
  (bronze/orphan.py) and the bounded rewind (reprocess.py), all under src/ingestion.
\<close>

section \<open>The platform\<close>

text \<open>
  The stores one ingestion process touches: the metadata database, the object store, the local
  Parquet files (by path), the DuckDB catalog, and the heartbeat thread while one runs.
\<close>

record catalog_entry =
  ce_source_table :: string
  ce_schema_version :: int
  ce_batch_id :: string
  ce_committed_at :: "time option"
  ce_row_count :: int
  ce_logical_hash :: string

record 's platform =
  pf_db :: pipeline_db
  pf_s3 :: 's
  pf_files :: "string list"
  pf_catalog :: "(string, catalog_entry) table"
  pf_heartbeat :: "heartbeat option"

definition on_db :: "(pipeline_db, 'a) op \<Rightarrow> ('s platform, 'a) op" where
  "on_db m = (\<lambda>pf. case m (pf_db pf) of (r, db) \<Rightarrow> (r, pf\<lparr>pf_db := db\<rparr>))"

definition on_s3 :: "('s, 'a) op \<Rightarrow> ('s platform, 'a) op" where
  "on_s3 m = (\<lambda>pf. case m (pf_s3 pf) of (r, s) \<Rightarrow> (r, pf\<lparr>pf_s3 := s\<rparr>))"

definition on_catalog :: "((string, catalog_entry) table, 'a) op \<Rightarrow> ('s platform, 'a) op" where
  "on_catalog m = (\<lambda>pf. case m (pf_catalog pf) of (r, t) \<Rightarrow> (r, pf\<lparr>pf_catalog := t\<rparr>))"

section \<open>The file catalog\<close>

definition catalog_entry_of :: "bronze_row \<Rightarrow> string \<times> catalog_entry" where
  "catalog_entry_of r = (br_object_key r, \<lparr>ce_source_table = br_source_table r, ce_schema_version = br_schema_version r,
     ce_batch_id = br_batch_id r, ce_committed_at = br_committed_at r, ce_row_count = br_row_count r,
     ce_logical_hash = br_logical_hash r\<rparr>)"

text \<open>\<open>ORDER BY source_table, committed_at, object_key\<close>.\<close>

definition committed_entries :: "pipeline_db \<Rightarrow> (string \<times> catalog_entry) list" where
  "committed_entries db =
     map (\<lambda>(_, r). catalog_entry_of r)
       (sort_key (\<lambda>(_, r). (br_source_table r, the (br_committed_at r), br_object_key r))
         (filter (\<lambda>(_, r). br_status r = COMMITTED) (bronze_objects db)))"

definition insert_catalog_entry :: "string \<times> catalog_entry \<Rightarrow> ((string, catalog_entry) table, unit) op" where
  "insert_catalog_entry e = (\<lambda>t. case insert_row ''bronze_files_pkey'' (fst e) (snd e) t of
      Inl x \<Rightarrow> (Inl x, t) | Inr t' \<Rightarrow> (Inr (), t'))"

definition sync_bronze_catalog :: "('s platform, (string \<times> catalog_entry) list) op" where
  "sync_bronze_catalog =
     bindM (on_db (getM committed_entries)) (\<lambda>entries.
     bindM (iterM (\<lambda>e. liftM (assert_supported_schema_version (ce_schema_version (snd e)))) entries) (\<lambda>_.
     bindM (on_catalog (transactionM
       (bindM (modifyM (\<lambda>_. [])) (\<lambda>_. iterM insert_catalog_entry entries)))) (\<lambda>_.
     returnM entries)))"

section \<open>Verification of a batch\<close>

record verified_table_batch =
  vt_source_table :: string
  vt_object_key :: "string option"
  vt_row_count :: int

text \<open>\<open>ORDER BY started_at DESC LIMIT 1\<close>; of equal start times the row stored first.\<close>

definition latest_run_status :: "string \<Rightarrow> string \<Rightarrow> pipeline_db \<Rightarrow> run_status option" where
  "latest_run_status batch table db =
     (case sort_key (\<lambda>(_, r). - rr_started_at r)
        (filter (\<lambda>((_, t), r). rr_batch_id r = batch \<and> t = table) (pipeline_runs db)) of
        [] \<Rightarrow> None | (_, r) # _ \<Rightarrow> Some (rr_status r))"

definition verify_table_batch ::
    "(time \<Rightarrow> int) \<Rightarrow> batch_identity \<Rightarrow> string \<Rightarrow> (pipeline_db, verified_table_batch) op" where
  "verify_table_batch lz batch table =
     bindM (liftM (table_batch batch table)) (\<lambda>identity.
     bindM (get_committed_table_batch lz identity) (\<lambda>existing. case existing of
       None \<Rightarrow>
         bindM (getM (latest_run_status (batch_id batch) table)) (\<lambda>status.
         if status = Some SUCCESS_NO_DATA
         then returnM \<lparr>vt_source_table = table, vt_object_key = None, vt_row_count = 0\<rparr>
         else raiseM BronzeCommitVerificationError
           (table @ '' has no COMMITTED bronze object for batch '' @ batch_id batch))
     | Some cb \<Rightarrow>
         bindM (liftM (table_config table)) (\<lambda>cfg.
         bindM (liftM (assert_supported_schema_version (cb_schema_version cb))) (\<lambda>_.
         bindM (assertM (cb_schema_version cb = schema_version cfg) BronzeCommitVerificationError
                  (table @ '' committed schema_version differs from the table contract'')) (\<lambda>_.
         returnM \<lparr>vt_source_table = table, vt_object_key = Some (cb_object_key cb), vt_row_count = cb_row_count cb\<rparr>)))))"

definition verify_bronze_commit ::
    "(time \<Rightarrow> int) \<Rightarrow> batch_identity \<Rightarrow> string list \<Rightarrow> (pipeline_db, verified_table_batch list) op" where
  "verify_bronze_commit lz batch tables = mapM (verify_table_batch lz batch) tables"

section \<open>Orphans\<close>

record orphan_candidate =
  oc_object_key :: string
  oc_manifest_key :: "string option"

text \<open>\<open>key.rsplit("/", 1)[0]\<close>.\<close>

definition parent_path :: "string \<Rightarrow> string" where
  "parent_path key = (if CHR ''/'' \<in> set key
     then rev (drop 1 (dropWhile (\<lambda>c. c \<noteq> CHR ''/'') (rev key))) else key)"

definition orphan_candidate_of :: "string list \<Rightarrow> string \<Rightarrow> orphan_candidate" where
  "orphan_candidate_of keys key = (let m = parent_path key @ ''/manifest.json'' in
     \<lparr>oc_object_key = key, oc_manifest_key = (if m \<in> set keys then Some m else None)\<rparr>)"

definition find_orphan_candidates :: "'s s3_client \<Rightarrow> ('s platform, orphan_candidate list) op" where
  "find_orphan_candidates c =
     bindM (on_db (getM (\<lambda>db. map (\<lambda>(_, r). br_object_key r)
              (filter (\<lambda>(_, r). br_status r = COMMITTED) (bronze_objects db))))) (\<lambda>committed.
     bindM (on_s3 (list_object_keys c ''bronze/'')) (\<lambda>keys.
     returnM (map (orphan_candidate_of keys)
       (filter (\<lambda>k. ends_with ''/data.parquet'' k \<and> k \<notin> set committed) (sort (remdups keys))))))"

text \<open>Python's equality of JSON values: objects compare as dicts, whatever the member order.\<close>

fun json_norm :: "json \<Rightarrow> json" where
  "json_norm (JList js) = JList (map json_norm js)"
| "json_norm (JObj ms) = JObj (sort_key fst (map (\<lambda>(n, j). (n, json_norm j)) ms))"
| "json_norm j = j"

definition json_equal :: "json \<Rightarrow> json \<Rightarrow> bool" where
  "json_equal a b \<longleftrightarrow> json_norm a = json_norm b"

text \<open>\<open>except ValueError\<close> around the parser becomes the reconciliation's own error.\<close>

definition load_manifest :: "encoding \<Rightarrow> 's s3_client \<Rightarrow> orphan_candidate \<Rightarrow> ('s, json) op" where
  "load_manifest enc c cand = (case oc_manifest_key cand of
      None \<Rightarrow> raiseM OrphanReconciliationError ''manifest key is missing''
    | Some key \<Rightarrow>
      bindM (stored_object_from_head c key) (\<lambda>ob.
      bindM (get_object c key) (\<lambda>body.
      bindM (assertM (byte_sha256 enc body = so_content_sha256 ob) OrphanReconciliationError
               ''manifest checksum differs from HEAD'') (\<lambda>_.
      liftM (case parse_bronze_manifest_payload body (oc_object_key cand) of
          Inr p \<Rightarrow> Inr p
        | Inl e \<Rightarrow> if exn_class e = ValueError
            then Inl (Exn OrphanReconciliationError ''Orphan manifest is invalid'') else Inl e)))))"

definition manifest_logical_date :: "json \<Rightarrow> datetime result" where
  "manifest_logical_date m = utc_datetime_from_manifest (json_text (json_get ''logical_date'' m))"

definition quarantine_object_exists :: "'s s3_client \<Rightarrow> json \<Rightarrow> ('s, bool) op" where
  "quarantine_object_exists c m =
     bindM (liftM (manifest_logical_date m)) (\<lambda>d.
     let key = object_prefix ''quarantine'' (json_text (json_get ''source_table'' m))
         (json_text (json_get ''batch_id'' m)) (instant d) @ ''/records.parquet'' in
     bindM (list_object_keys c key) (\<lambda>ks. returnM (key \<in> set ks)))"

text \<open>\<open>_utc_now\<close>: an error of its own when the time is not UTC.\<close>

definition reconciliation_now :: "datetime \<Rightarrow> time result" where
  "reconciliation_now d = (if utcoffset d = Some 0 then Inr (instant d)
     else Inl (Exn ValueError ''Reconciliation time must be normalized to UTC''))"

definition watermark_json :: "watermark_row \<Rightarrow> json" where
  "watermark_json r = as_metadata_json \<lparr>cp_timestamp = wr_timestamp r, cp_keys = wr_keys r\<rparr>"

text \<open>
  The evidence checks before the transaction. The object's HEAD hash is the one its downloaded
  bytes are compared with, and both with the manifest's.
\<close>

definition orphan_evidence ::
    "encoding \<Rightarrow> 's s3_client \<Rightarrow> orphan_candidate \<Rightarrow> ('s, json) op" where
  "orphan_evidence enc c cand =
     bindM (assertM (oc_manifest_key cand \<noteq> None) OrphanReconciliationError
              ''Orphan without a VERIFIED manifest requires manual handling'') (\<lambda>_.
     bindM (load_manifest enc c cand) (\<lambda>m.
     bindM (stored_object_from_head c (oc_object_key cand)) (\<lambda>ob.
     bindM (verify_parquet_object enc c ob) (\<lambda>v.
     bindM (assertM (so_size v = json_int (json_get ''object_size'' m) \<and>
                     so_content_sha256 v = json_text (json_get ''content_sha256'' m))
              OrphanReconciliationError ''Object HEAD or checksum differs from the VERIFIED manifest'') (\<lambda>_.
     bindM (assertM (int (vp_row_count v) = json_int (json_get ''row_count'' m))
              OrphanReconciliationError ''Object row count differs from the VERIFIED manifest'') (\<lambda>_.
     bindM (liftM (table_config (json_text (json_get ''source_table'' m)))) (\<lambda>cfg.
     bindM (liftM (assert_supported_schema_version (json_int (json_get ''schema_version'' m)))) (\<lambda>_.
     bindM (assertM (schema_version cfg = json_int (json_get ''schema_version'' m)) OrphanReconciliationError
              ''Manifest schema version differs from the table contract'') (\<lambda>_.
     bindM (quarantine_object_exists c m) (\<lambda>q.
     bindM (assertM (\<not> q) OrphanReconciliationError ''Orphans with rejects require manual reconciliation'') (\<lambda>_.
     returnM m)))))))))))"

text \<open>A UUID given to PostgreSQL as text; other spellings are a \<open>DataError\<close>.\<close>

definition hex_value :: "char \<Rightarrow> nat" where
  "hex_value c = (let k = (of_char c :: nat) in if k \<le> 57 then k - 48 else if k \<le> 70 then k - 55 else k - 87)"

definition read_hex :: "string \<Rightarrow> nat" where
  "read_hex s = foldl (\<lambda>a c. 16 * a + hex_value c) 0 s"

definition uuid_of_text :: "string \<Rightarrow> uuid result" where
  "uuid_of_text s = (let h = filter (\<lambda>c. c \<noteq> CHR ''-'') (strip_braces s) in
     if length h = 32 \<and> list_all is_hex h then Inr (read_hex h)
     else Inl (Exn (OtherError ''DataError'') ''invalid input syntax for type uuid''))"

text \<open>The manifest, as the transaction reads it.\<close>

record orphan_manifest =
  om_run_id :: uuid
  om_source_table :: string
  om_batch_id :: string
  om_schema_version :: int
  om_row_count :: int
  om_content_sha256 :: string
  om_logical_hash :: string
  om_watermark_before :: json
  om_extract_upper_bound :: json
  om_upper :: cursor_position

definition orphan_manifest_of :: "json \<Rightarrow> orphan_manifest result" where
  "orphan_manifest_of m = (case uuid_of_text (json_text (json_get ''run_id'' m)) of
      Inl e \<Rightarrow> Inl e
    | Inr u \<Rightarrow> (case cursor_from_manifest_payload (json_get ''extract_upper_bound'' m) of
        Inl e \<Rightarrow> Inl e
      | Inr c \<Rightarrow> Inr \<lparr>om_run_id = u, om_source_table = json_text (json_get ''source_table'' m),
          om_batch_id = json_text (json_get ''batch_id'' m), om_schema_version = json_int (json_get ''schema_version'' m),
          om_row_count = json_int (json_get ''row_count'' m),
          om_content_sha256 = json_text (json_get ''content_sha256'' m),
          om_logical_hash = json_text (json_get ''logical_hash'' m),
          om_watermark_before = json_get ''watermark_before'' m,
          om_extract_upper_bound = json_get ''extract_upper_bound'' m, om_upper = c\<rparr>))"

definition orphan_table_batch_id :: "orphan_manifest \<Rightarrow> string" where
  "orphan_table_batch_id m = om_batch_id m @ ''__'' @ om_source_table m"

definition reconciled_row :: "orphan_candidate \<Rightarrow> orphan_manifest \<Rightarrow> time \<Rightarrow> bronze_row" where
  "reconciled_row cand m now =
     \<lparr>br_source_table = om_source_table m, br_batch_id = om_batch_id m, br_object_key = oc_object_key cand,
      br_manifest_key = (case oc_manifest_key cand of Some k \<Rightarrow> k | None \<Rightarrow> []),
      br_schema_version = om_schema_version m, br_row_count = om_row_count m,
      br_content_sha256 = om_content_sha256 m, br_logical_hash = om_logical_hash m,
      br_watermark_before = om_watermark_before m, br_watermark_after = om_extract_upper_bound m,
      br_status = COMMITTED, br_committed_at = Some now\<rparr>"

definition reconciled_run :: "orphan_manifest \<Rightarrow> time \<Rightarrow> run_row \<Rightarrow> run_row" where
  "reconciled_run m now x = x\<lparr>rr_finished_at := Some now, rr_rows_extracted := om_row_count m,
     rr_rows_valid := om_row_count m, rr_rows_rejected := 0, rr_rows_loaded := om_row_count m,
     rr_status := SUCCESS, rr_error_type := None, rr_error_message := None\<rparr>"

definition reconcile_tx :: "orphan_candidate \<Rightarrow> orphan_manifest \<Rightarrow> time \<Rightarrow> (pipeline_db, unit) op" where
  "reconcile_tx cand m now =
     (let run_pk = (om_run_id m, om_source_table m); tbid = orphan_table_batch_id m in
      bindM (getM (\<lambda>db. map_of (pipeline_runs db) run_pk)) (\<lambda>run.
      bindM (assertM (case run of Some r \<Rightarrow> rr_status r = RUNNING | None \<Rightarrow> False) OrphanReconciliationError
               ''Only a crash-interrupted RUNNING pipeline run can be reconciled'') (\<lambda>_.
      bindM (assertM (case run of
                 Some r \<Rightarrow> json_equal (rr_watermark_before r) (om_watermark_before m) \<and>
                   (case rr_extract_upper_bound r of Some u \<Rightarrow> json_equal u (om_extract_upper_bound m) | None \<Rightarrow> False)
               | None \<Rightarrow> False)
               OrphanReconciliationError ''Pipeline run range differs from the orphan manifest'') (\<lambda>_.
      let wk = (case run of Some r \<Rightarrow> rr_pipeline_name r | None \<Rightarrow> [], om_source_table m) in
      bindM (getM (\<lambda>db. map_of (watermarks db) wk)) (\<lambda>w.
      bindM (assertM (case w of Some r \<Rightarrow> json_equal (watermark_json r) (om_watermark_before m) | None \<Rightarrow> False)
               OrphanReconciliationError ''Current watermark differs from the orphan manifest lower bound'') (\<lambda>_.
      bindM (getM (\<lambda>db. map_of (quarantine_batches db) tbid)) (\<lambda>q.
      bindM (assertM (q = None) OrphanReconciliationError ''Orphans with rejects require manual reconciliation'') (\<lambda>_.
      bindM (getM (\<lambda>db. list_ex (\<lambda>(k, r). k = tbid \<or> br_object_key r = oc_object_key cand) (bronze_objects db))) (\<lambda>existing.
      bindM (assertM (\<not> existing) OrphanReconciliationError
               ''Bronze metadata already exists for the orphan candidate'') (\<lambda>_.
      bindM (insert_bronze_object tbid (reconciled_row cand m now)) (\<lambda>_.
      bindM (modifyM (\<lambda>db. db\<lparr>pipeline_runs := update_rows (\<lambda>k r. k = run_pk) (reconciled_run m now) (pipeline_runs db)\<rparr>)) (\<lambda>_.
      bindM (update_watermarks
               (\<lambda>k r. k = wk \<and> Some (wr_version r) = map_option wr_version w)
               (\<lambda>r. r\<lparr>wr_timestamp := cp_timestamp (om_upper m), wr_keys := cp_keys (om_upper m),
                      wr_version := wr_version r + 1, wr_updated_at := now\<rparr>)) (\<lambda>rowcount.
      assertM (rowcount = 1) OrphanReconciliationError
        ''Watermark changed during orphan reconciliation'')))))))))))))"

definition reconcile_orphan ::
    "encoding \<Rightarrow> 's s3_client \<Rightarrow> orphan_candidate \<Rightarrow> datetime \<Rightarrow> ('s platform, unit) op" where
  "reconcile_orphan enc c cand now =
     bindM (liftM (reconciliation_now now)) (\<lambda>current_time.
     bindM (on_s3 (orphan_evidence enc c cand)) (\<lambda>j.
     bindM (liftM (orphan_manifest_of j)) (\<lambda>m.
     on_db (transactionM (reconcile_tx cand m current_time)))))"

section \<open>Rewind\<close>

record rewind_outcome =
  ro_source_table :: string
  ro_pipeline_name :: string
  ro_cursor_before :: cursor_position
  ro_cursor_after :: cursor_position
  ro_version_before :: int
  ro_version_after :: int

text \<open>
  One table of \<open>rewind_tables\<close>. \<open>source\<close> is the table's current snapshot, \<open>owner\<close> the fresh
  UUID; \<open>clock i\<close> the time the \<open>i\<close>-th statement reads from the system.
\<close>

definition rewind_table ::
    "(string \<Rightarrow> source_row list) \<Rightarrow> datetime \<Rightarrow> string option \<Rightarrow> bool \<Rightarrow> string \<Rightarrow> uuid \<Rightarrow> (nat \<Rightarrow> time) \<Rightarrow>
     (pipeline_db, rewind_outcome) op" where
  "rewind_table source boundary pipeline dry_run table owner clock =
     bindM (liftM (table_config table)) (\<lambda>cfg.
     let p = (case pipeline of Some n \<Rightarrow> if n = [] then table @ ''_bronze'' else n | None \<Rightarrow> table @ ''_bronze'') in
     bindM (liftM (cursor_before_timestamp cfg (source table) boundary)) (\<lambda>target.
     bindM (get_or_create_watermark p table (utc (clock 0))) (\<lambda>current.
     if dry_run then
       returnM \<lparr>ro_source_table = table, ro_pipeline_name = p, ro_cursor_before = wm_cursor current,
         ro_cursor_after = target, ro_version_before = wm_version current, ro_version_after = wm_version current\<rparr>
     else
       bindM (acquire_table_lease p table owner (utc (clock 1)) DEFAULT_TABLE_LEASE_TTL) (\<lambda>lease.
       bindM (finallyM
                (rewind_watermark p table (tl_owner_id lease) (tl_watermark_version lease) target (utc (clock 2)))
                (release_table_lease lease (utc (clock 3)))) (\<lambda>rewound.
       returnM \<lparr>ro_source_table = table, ro_pipeline_name = p, ro_cursor_before = wm_cursor current,
         ro_cursor_after = wm_cursor rewound, ro_version_before = wm_version current,
         ro_version_after = wm_version rewound\<rparr>)))))"

definition rewind_tables ::
    "(string \<Rightarrow> source_row list) \<Rightarrow> datetime \<Rightarrow> string option \<Rightarrow> bool \<Rightarrow> (string \<times> uuid \<times> (nat \<Rightarrow> time)) list \<Rightarrow>
     (pipeline_db, rewind_outcome list) op" where
  "rewind_tables source boundary pipeline dry_run tables =
     mapM (\<lambda>(table, owner, clock). rewind_table source boundary pipeline dry_run table owner clock) tables"

section \<open>Reconciliation: lemmas\<close>

text \<open>Everything a reconciliation that returns has required and done.\<close>

definition reconcile_effect ::
    "orphan_candidate \<Rightarrow> orphan_manifest \<Rightarrow> time \<Rightarrow> pipeline_db \<Rightarrow> pipeline_db \<Rightarrow> bool" where
  "reconcile_effect cand m now db db' \<longleftrightarrow>
     (\<exists>x r. map_of (pipeline_runs db) (om_run_id m, om_source_table m) = Some x \<and> rr_status x = RUNNING \<and>
        json_equal (rr_watermark_before x) (om_watermark_before m) \<and>
        map_of (pipeline_runs db') = (map_of (pipeline_runs db))((om_run_id m, om_source_table m) \<mapsto> reconciled_run m now x) \<and>
        map_of (watermarks db) (rr_pipeline_name x, om_source_table m) = Some r \<and>
        json_equal (watermark_json r) (om_watermark_before m) \<and>
        map_of (watermarks db') = (map_of (watermarks db))((rr_pipeline_name x, om_source_table m) \<mapsto>
          r\<lparr>wr_timestamp := cp_timestamp (om_upper m), wr_keys := cp_keys (om_upper m), wr_version := wr_version r + 1,
            wr_updated_at := now\<rparr>)) \<and>
     map_of (bronze_objects db) (orphan_table_batch_id m) = None \<and>
     bronze_objects db' = bronze_objects db @ [(orphan_table_batch_id m, reconciled_row cand m now)] \<and>
     map_of (quarantine_batches db) (orphan_table_batch_id m) = None \<and>
     quarantine_batches db' = quarantine_batches db \<and> source_mutation_leases db' = source_mutation_leases db"

lemma reconcile_tx_ok:
  assumes "reconcile_tx cand m now db = (Inr u, db')" "db_inv db" "cursor_ok (om_upper m)"
  shows "db_inv db' \<and> reconcile_effect cand m now db db'"
proof -
  let ?rk = "(om_run_id m, om_source_table m)" and ?tb = "orphan_table_batch_id m"
  from assms(1) obtain x where x: "map_of (pipeline_runs db) ?rk = Some x" "rr_status x = RUNNING"
      "json_equal (rr_watermark_before x) (om_watermark_before m)"
    by (auto simp: reconcile_tx_def Let_def bindM_ok split: option.splits)
  let ?wk = "(rr_pipeline_name x, om_source_table m)"
  from assms(1) x obtain r where r: "map_of (watermarks db) ?wk = Some r" "json_equal (watermark_json r) (om_watermark_before m)"
    by (auto simp: reconcile_tx_def Let_def bindM_ok split: option.splits)
  let ?f = "\<lambda>r. r\<lparr>wr_timestamp := cp_timestamp (om_upper m), wr_keys := cp_keys (om_upper m), wr_version := wr_version r + 1,
            wr_updated_at := now\<rparr>"
  let ?q = "\<lambda>r'. Some (wr_version r') = Some (wr_version r)"
  from assms(1) obtain db1 where q: "map_of (quarantine_batches db) ?tb = None"
    and ins: "insert_bronze_object ?tb (reconciled_row cand m now) db = (Inr (), db1)"
    and db': "db' = db1\<lparr>pipeline_runs := update_rows (\<lambda>k r. k = ?rk) (reconciled_run m now) (pipeline_runs db1),
        watermarks := update_rows (\<lambda>k r'. k = ?wk \<and> ?q r') ?f (watermarks db1)\<rparr>"
    unfolding reconcile_tx_def Let_def
    by (simp add: bindM_ok x(1) r(1) update_watermarks_def) (elim exE conjE, simp)
  have inv: "watermarks_inv db" "runs_inv db" "bronze_inv db" "quarantine_inv db" "source_lease_inv db"
    using assms(2) by (simp_all add: db_inv_def)
  from insert_bronze_object_ok [OF ins inv(3)]
  have b: "bronze_inv db1" "map_of (bronze_objects db) ?tb = None"
      "db1 = db\<lparr>bronze_objects := bronze_objects db @ [(?tb, reconciled_row cand m now)]\<rparr>"
    by (auto simp: reconciled_row_def)
  have w: "watermarks_inv db'"
  proof -
    have "watermarks_inv (db\<lparr>watermarks := update_rows (\<lambda>k r'. k = ?wk \<and> ?q r') ?f (watermarks db)\<rparr>)"
      using inv(1) by (rule update_rows_inv) (use assms(3) in \<open>auto simp: watermark_row_ok_def cursor_ok_def\<close>)
    then show ?thesis by (simp add: db' b(3) watermarks_inv_def)
  qed
  have rr: "runs_inv db'"
    using inv(2) pk_ok_update_rows [of "\<lambda>k r. k = ?rk" "reconciled_run m now" "pipeline_runs db"]
    by (auto simp: db' b(3) runs_inv_def list_all_iff update_rows_def reconciled_run_def run_row_ok_def
        simp del: pk_ok_update_rows split: prod.splits if_splits)
  have "db_inv db'" using w rr b(1) inv(4,5) by (simp add: db_inv_defs db' b(3))
  moreover have "map_of (pipeline_runs db') = (map_of (pipeline_runs db))(?rk \<mapsto> reconciled_run m now x)"
    using map_of_update_at [OF x(1), of "\<lambda>r. True" "reconciled_run m now"] by (simp add: db' b(3))
  moreover have "map_of (watermarks db') = (map_of (watermarks db))(?wk \<mapsto> ?f r)"
    using map_of_update_at [OF r(1), of ?q ?f] by (simp add: db' b(3))
  ultimately show ?thesis
    unfolding reconcile_effect_def
    using x r q b by (intro conjI exI [of _ x] exI [of _ r]) (simp_all add: db' b(3))
qed

lemma reconcile_needs_running:
  assumes "map_of (pipeline_runs db) (om_run_id m, om_source_table m) = Some x" "rr_status x \<noteq> RUNNING"
  shows "\<exists>e. fst (reconcile_tx cand m now db) = Inl e \<and> exn_class e = OrphanReconciliationError"
  using assms by (simp add: reconcile_tx_def Let_def bindM_def assertM_apply)

end
