(* ===== verification/ControlPlane.thy ===== *)
theory ControlPlane
  imports Recovery
begin

text \<open>
  The control plane as a transition system: any number of processes (ingestion runs, their
  heartbeats, rewinds, orphan reconciliation, the generator's lease) take steps on the metadata
  database in any order, each step one transaction. What holds of every reachable database
  holds whatever the interleaving.
\<close>

section \<open>Steps\<close>

datatype db_event =
    GetWatermark string string datetime
  | AcquireTable string string uuid datetime int
  | RenewTable table_lease datetime int
  | ReleaseTable table_lease datetime
  | Rewind string string uuid int cursor_position datetime
  | StartRun pipeline_run datetime
  | FailRun pipeline_run string "string option" datetime
  | NoDataRun pipeline_run datetime
  | SkipRun pipeline_run int datetime
  | CommitRun table_commit datetime
  | ReconcileOrphan orphan_candidate orphan_manifest datetime
  | SourceLeaseEvent lease_event

text \<open>
  The arguments are values of the code's classes: cursors are built by \<open>CursorPosition\<close>, which
  refuses half-initial ones, and commits by \<open>TableCommit\<close>, whose constructor checks them.
\<close>

fun event_ok :: "db_event \<Rightarrow> bool" where
  "event_ok (Rewind p t owner v c now) = cursor_ok c"
| "event_ok (CommitRun c now) = (cursor_ok (obj_watermark_after (tc_object c)) \<and> table_commit_check c = Inr ())"
| "event_ok (ReconcileOrphan cand m now) = cursor_ok (om_upper m)"
| "event_ok _ = True"

fun db_exec :: "db_event \<Rightarrow> pipeline_db \<Rightarrow> pipeline_db" where
  "db_exec (GetWatermark p t now) db = snd (get_or_create_watermark p t now db)"
| "db_exec (AcquireTable p t owner now ttl) db = snd (acquire_table_lease p t owner now ttl db)"
| "db_exec (RenewTable l now ttl) db = snd (renew_table_lease l now ttl db)"
| "db_exec (ReleaseTable l now) db = snd (release_table_lease l now db)"
| "db_exec (Rewind p t owner v c now) db = snd (rewind_watermark p t owner v c now db)"
| "db_exec (StartRun run now) db = snd (record_started_run run now db)"
| "db_exec (FailRun run et em now) db = snd (record_failed_run run et em now db)"
| "db_exec (NoDataRun run now) db = snd (record_success_no_data_run run now db)"
| "db_exec (SkipRun run n now) db = snd (record_skipped_already_committed_run run n now db)"
| "db_exec (CommitRun c now) db = snd (commit_table_run c now db)"
| "db_exec (ReconcileOrphan cand m now) db =
     snd (bindM (liftM (reconciliation_now now)) (\<lambda>t. transactionM (reconcile_tx cand m t)) db)"
| "db_exec (SourceLeaseEvent e) db = lease_step e db"

inductive db_step :: "pipeline_db \<Rightarrow> db_event \<Rightarrow> pipeline_db \<Rightarrow> bool" where
  step: "event_ok e \<Longrightarrow> db_step db e (db_exec e db)"

inductive reachable :: "pipeline_db \<Rightarrow> bool" where
  initial: "reachable empty_db"
| next_state: "reachable db \<Longrightarrow> db_step db e db' \<Longrightarrow> reachable db'"

inductive_cases db_stepE: "db_step db e db'"
inductive_simps db_step_iff: "db_step db e db'"

section \<open>What one step can do\<close>

text \<open>
  The shape of a step: it leaves the database alone, or it is one of the effects below. Every
  invariant is a case distinction over this relation.
\<close>

definition same_rest :: "pipeline_db \<Rightarrow> pipeline_db \<Rightarrow> bool" where
  "same_rest db db' \<longleftrightarrow> pipeline_runs db' = pipeline_runs db \<and> bronze_objects db' = bronze_objects db \<and>
     quarantine_batches db' = quarantine_batches db"

text \<open>A lease statement: cursors and versions of all rows are kept; new rows are initial.\<close>

definition register_view :: "pipeline_db \<Rightarrow> string \<times> string \<Rightarrow> (int \<times> time option \<times> key list) option" where
  "register_view db k = map_option (\<lambda>r. (wr_version r, wr_timestamp r, wr_keys r)) (map_of (watermarks db) k)"

definition lease_like :: "pipeline_db \<Rightarrow> pipeline_db \<Rightarrow> bool" where
  "lease_like db db' \<longleftrightarrow> same_rest db db' \<and>
     (\<forall>k. register_view db' k = register_view db k \<or>
        (register_view db k = None \<and> register_view db' k = Some (0, None, [])))"

lemma lease_like_refl [simp]: "lease_like db db"
  by (simp add: lease_like_def same_rest_def)

lemma lease_like_ensure [simp]: "lease_like db (ensure_watermark_row p t now db)"
  unfolding lease_like_def same_rest_def register_view_def ensure_watermark_row_lookup
  by (auto simp: ensure_watermark_row_def split: option.splits)

lemma get_or_create_lease_like:
  assumes "watermarks_inv db" "get_or_create_watermark p t now db = (x, db')"
  shows "lease_like db db' \<and> watermarks_inv db'"
proof (cases x)
  case (Inl e)
  from get_or_create_watermark_err [OF assms(2) [unfolded Inl]] assms(1) show ?thesis by simp
next
  case (Inr w)
  from get_or_create_watermark_ok [OF assms(2) [unfolded Inr] assms(1)] show ?thesis by auto
qed

text \<open>All tables but \<open>watermarks\<close>.\<close>

definition rest :: "pipeline_db \<Rightarrow> (uuid \<times> string, run_row) table \<times> (string, bronze_row) table \<times>
    (string, quarantine_row) table \<times> (string, source_lease_row) table" where
  "rest db = (pipeline_runs db, bronze_objects db, quarantine_batches db, source_mutation_leases db)"

lemma keeps_rest [keeps_intros]:
  "keeps rest (update_watermark_returning p f)" "keeps rest (update_watermarks p f)"
  "keeps rest (modifyM (ensure_watermark_row p' t now))"
  by (auto simp: keeps_def rest_def update_watermark_returning_def update_watermarks_def ensure_watermark_row_def
      split: option.splits)

lemmas keeps_tx = keeps_rest keeps_bindM keeps_transactionM keeps_basic keeps_option

lemma keeps_rest_get_or_create_tx: "keeps rest (get_or_create_watermark_tx p t now)"
  unfolding get_or_create_watermark_tx_def by (rule keeps_tx)+

lemma keeps_rest_get_or_create: "keeps rest (get_or_create_watermark p t now)"
  unfolding get_or_create_watermark_def by (rule keeps_rest_get_or_create_tx keeps_tx)+

lemma keeps_rest_acquire: "keeps rest (acquire_table_lease p t a now ttl)"
  unfolding acquire_table_lease_def Let_def by (rule keeps_rest_get_or_create keeps_tx)+

lemma keeps_rest_renew: "keeps rest (renew_table_lease l now ttl)"
  unfolding renew_table_lease_def Let_def by (rule keeps_tx)+

lemma keeps_rest_release: "keeps rest (release_table_lease l now)"
  unfolding release_table_lease_def by (rule keeps_tx)+

lemma keeps_rest_rewind: "keeps rest (rewind_watermark p t a v c now)"
  unfolding rewind_watermark_def by (rule keeps_rest_get_or_create_tx keeps_tx)+

lemma rest_same: "rest db' = rest db \<longleftrightarrow> same_rest db db' \<and> source_mutation_leases db' = source_mutation_leases db"
  by (auto simp: rest_def same_rest_def)

lemma db_inv_rest: "db_inv db \<Longrightarrow> rest db' = rest db \<Longrightarrow> watermarks_inv db' \<Longrightarrow> db_inv db'"
  by (simp add: db_inv_defs rest_def)

lemma lease_like_update:
  assumes "map_of (watermarks db') = (map_of (watermarks db))(k \<mapsto> r')" "map_of (watermarks db) k = Some r"
    and "wr_version r' = wr_version r" "wr_timestamp r' = wr_timestamp r" "wr_keys r' = wr_keys r" "same_rest db db'"
  shows "lease_like db db'"
  using assms by (simp add: lease_like_def register_view_def)

lemma lease_like_trans: "lease_like db db' \<Longrightarrow> lease_like db' db'' \<Longrightarrow> lease_like db db''"
  unfolding lease_like_def same_rest_def by (auto; metis)

lemma acquire_lease_like:
  assumes "db_inv db" "acquire_table_lease p t a now ttl db = (x, db')"
  shows "db_inv db' \<and> lease_like db db' \<and> source_mutation_leases db' = source_mutation_leases db"
proof -
  have inv: "watermarks_inv db" using assms(1) by (simp add: db_inv_def)
  have rest: "rest db' = rest db" using keepsD [OF keeps_rest_acquire assms(2)] .
  show ?thesis
  proof (cases x)
    case (Inl e)
    from acquire_table_lease_err [OF assms(2) [unfolded Inl] inv] inv assms(1) rest show ?thesis
      by (auto simp: rest_same intro: db_inv_rest)
  next
    case (Inr l)
    let ?db = "ensure_watermark_row p t (instant now) db"
    from acquire_table_lease_ok [OF assms(2) [unfolded Inr] inv] obtain r where r:
      "map_of (watermarks ?db) (p, t) = Some r" "watermarks_inv db'"
      "map_of (watermarks db') = (map_of (watermarks ?db))
        ((p, t) \<mapsto> r\<lparr>wr_lease_owner := Some a, wr_lease_expires_at := Some (instant now + ttl)\<rparr>)"
      by blast
    have "same_rest ?db db'" using rest lease_like_ensure [of db p t "instant now"]
      by (auto simp: rest_same same_rest_def lease_like_def)
    then have "lease_like ?db db'" using r by (intro lease_like_update [OF r(3,1)]) simp_all
    then have "lease_like db db'" using lease_like_ensure lease_like_trans by blast
    with rest r(2) assms(1) show ?thesis by (auto simp: rest_same intro: db_inv_rest)
  qed
qed

lemma renew_lease_like:
  assumes "db_inv db" "renew_table_lease l now ttl db = (x, db')"
  shows "db_inv db' \<and> lease_like db db' \<and> source_mutation_leases db' = source_mutation_leases db"
proof (cases x)
  case (Inl e)
  with assms renew_table_lease_err [of l now ttl db e db'] show ?thesis by simp
next
  case (Inr l')
  have inv: "watermarks_inv db" using assms(1) by (simp add: db_inv_def)
  have rest: "rest db' = rest db" using keepsD [OF keeps_rest_renew assms(2)] .
  from renew_table_lease_ok [OF assms(2) [unfolded Inr] inv] obtain r where r:
    "map_of (watermarks db) (tl_pipeline_name l, tl_source_table l) = Some r" "watermarks_inv db'"
    "map_of (watermarks db') = (map_of (watermarks db))
        ((tl_pipeline_name l, tl_source_table l) \<mapsto> r\<lparr>wr_lease_expires_at := Some (instant now + ttl)\<rparr>)"
    by blast
  have "lease_like db db'" using rest r by (intro lease_like_update [OF r(3,1)]) (simp_all add: rest_same)
  with rest r(2) assms(1) show ?thesis by (auto simp: rest_same intro: db_inv_rest)
qed

lemma release_lease_like:
  assumes "db_inv db" "release_table_lease l now db = (x, db')"
  shows "db_inv db' \<and> lease_like db db' \<and> source_mutation_leases db' = source_mutation_leases db"
proof (cases x)
  case (Inl e)
  with assms release_table_lease_err [of l now db e db'] show ?thesis by simp
next
  case (Inr u)
  have inv: "watermarks_inv db" using assms(1) by (simp add: db_inv_def)
  have rest: "rest db' = rest db" using keepsD [OF keeps_rest_release assms(2)] .
  from release_table_lease_ok [OF assms(2) [unfolded Inr] inv] obtain r where r:
    "map_of (watermarks db) (tl_pipeline_name l, tl_source_table l) = Some r" "watermarks_inv db'"
    "map_of (watermarks db') = (map_of (watermarks db))
        ((tl_pipeline_name l, tl_source_table l) \<mapsto> r\<lparr>wr_lease_owner := None, wr_lease_expires_at := None\<rparr>)"
    by blast
  have "lease_like db db'" using rest r by (intro lease_like_update [OF r(3,1)]) (simp_all add: rest_same)
  with rest r(2) assms(1) show ?thesis by (auto simp: rest_same intro: db_inv_rest)
qed

section \<open>Steps on the source lease\<close>

definition ingestion_tables :: "pipeline_db \<Rightarrow> (string \<times> string, watermark_row) table \<times> (uuid \<times> string, run_row) table \<times>
    (string, bronze_row) table \<times> (string, quarantine_row) table" where
  "ingestion_tables db = (watermarks db, pipeline_runs db, bronze_objects db, quarantine_batches db)"

lemma keeps_ingestion_tables [keeps_intros]:
  "keeps ingestion_tables read_lease" "keeps ingestion_tables (update_source_lease v f)"
  "keeps ingestion_tables (modifyM (ensure_lease_row now))"
  by (auto simp: keeps_def ingestion_tables_def read_lease_def bindM_def update_source_lease_def ensure_lease_row_def
      split: option.splits)

lemmas keeps_lease = keeps_ingestion_tables keeps_bindM keeps_transactionM keeps_basic keeps_if

lemma keeps_acquire_source: "keeps ingestion_tables (acquire_source_mutation_lease ot oid now ttl)"
  unfolding acquire_source_mutation_lease_def Let_def by (rule keeps_lease)+

lemma keeps_renew_source: "keeps ingestion_tables (renew_source_mutation_lease l now ttl)"
  unfolding renew_source_mutation_lease_def by (rule keeps_lease)+

lemma keeps_release_source: "keeps ingestion_tables (release_source_mutation_lease l now)"
  unfolding release_source_mutation_lease_def by (rule keeps_lease)+

lemma lease_step_tables: "ingestion_tables (lease_step e db) = ingestion_tables db"
  using lease_step_cases [of e db]
  by (auto dest: keepsD [OF keeps_acquire_source] keepsD [OF keeps_renew_source] keepsD [OF keeps_release_source])

lemma ingestion_tables_lease_like: "ingestion_tables db' = ingestion_tables db \<Longrightarrow> lease_like db db'"
  by (simp add: ingestion_tables_def lease_like_def same_rest_def register_view_def)

lemma ingestion_tables_inv:
  "db_inv db \<Longrightarrow> ingestion_tables db' = ingestion_tables db \<Longrightarrow> source_lease_inv db' \<Longrightarrow> db_inv db'"
  by (simp add: db_inv_defs ingestion_tables_def)

section \<open>The effects of a step\<close>

text \<open>A run is started, or a RUNNING run gets its final row; nothing else changes.\<close>

definition run_effect :: "pipeline_db \<Rightarrow> pipeline_db \<Rightarrow> bool" where
  "run_effect db db' \<longleftrightarrow> watermarks db' = watermarks db \<and> bronze_objects db' = bronze_objects db \<and>
     quarantine_batches db' = quarantine_batches db \<and>
     (\<exists>k r'. map_of (pipeline_runs db') = (map_of (pipeline_runs db))(k \<mapsto> r') \<and>
        (case map_of (pipeline_runs db) k of
           None \<Rightarrow> rr_status r' = RUNNING
         | Some r \<Rightarrow> rr_status r = RUNNING \<and> rr_status r' \<notin> {RUNNING, SUCCESS}))"

definition rewind_effect :: "string \<times> string \<Rightarrow> cursor_position \<Rightarrow> pipeline_db \<Rightarrow> pipeline_db \<Rightarrow> bool" where
  "rewind_effect k c db db' \<longleftrightarrow> same_rest db db' \<and>
     (\<exists>r r'. map_of (watermarks db) k = Some r \<and> map_of (watermarks db') = (map_of (watermarks db))(k \<mapsto> r') \<and>
        cursor_is_earlier c \<lparr>cp_timestamp = wr_timestamp r, cp_keys = wr_keys r\<rparr> \<and>
        wr_version r' = wr_version r + 1 \<and> wr_timestamp r' = cp_timestamp c \<and> wr_keys r' = cp_keys c)"

definition step_effect :: "pipeline_db \<Rightarrow> pipeline_db \<Rightarrow> bool" where
  "step_effect db db' \<longleftrightarrow> lease_like db db' \<or> run_effect db db' \<or>
     (\<exists>c t. commit_effect c t db db' \<and> table_commit_check c = Inr ()) \<or> (\<exists>cand m t. reconcile_effect cand m t db db') \<or>
     (\<exists>k c. rewind_effect k c db db')"

lemma run_ended_effect:
  assumes "run_ended run f db db'" "\<And>r. rr_status (f r) \<notin> {RUNNING, SUCCESS}"
  shows "run_effect db db'"
proof -
  obtain r where r: "map_of (pipeline_runs db) (run_key run) = Some r" "rr_status r = RUNNING"
      "map_of (pipeline_runs db') = (map_of (pipeline_runs db))(run_key run \<mapsto> f r)"
    using assms(1) by (rule run_ended_rows)
  then show ?thesis
    unfolding run_effect_def using run_ended_frame [OF assms(1)] assms(2)
    by (intro conjI exI [of _ "run_key run"] exI [of _ "f r"]) simp_all
qed

lemma started_effect:
  assumes "record_started_run run now db = (Inr u, db')" "db_inv db"
  shows "run_effect db db'"
proof -
  from record_started_run_ok [OF assms] obtain r where r: "map_of (pipeline_runs db) (run_key run) = None"
      "db' = db\<lparr>pipeline_runs := pipeline_runs db @ [(run_key run, r)]\<rparr>" "rr_status r = RUNNING" by auto
  then have "map_of (pipeline_runs db') = (map_of (pipeline_runs db))(run_key run \<mapsto> r)"
    by (auto simp: fun_eq_iff split: option.splits)
  with r show ?thesis unfolding run_effect_def
    by (intro conjI exI [of _ "run_key run"] exI [of _ r]) simp_all
qed

lemma rewind_step_effect:
  assumes "rewind_watermark p t a v c now db = (Inr w, db')" "db_inv db" "cursor_ok c"
  shows "db_inv db' \<and> rewind_effect (p, t) c db db' \<and> source_mutation_leases db' = source_mutation_leases db"
proof -
  have inv: "watermarks_inv db" using assms(2) by (simp add: db_inv_def)
  have rest: "rest db' = rest db" using keepsD [OF keeps_rest_rewind assms(1)] .
  from rewind_watermark_ok [OF assms(1) inv assms(3)] obtain r where r: "watermarks_inv db'"
    "map_of (watermarks db) (p, t) = Some r" "wr_version r = v"
    "cursor_is_earlier c \<lparr>cp_timestamp = wr_timestamp r, cp_keys = wr_keys r\<rparr>"
    "map_of (watermarks db') = (map_of (watermarks db))((p, t) \<mapsto> r\<lparr>wr_timestamp := cp_timestamp c,
        wr_keys := cp_keys c, wr_version := v + 1, wr_updated_at := instant now\<rparr>)"
    by blast
  then have "rewind_effect (p, t) c db db'"
    unfolding rewind_effect_def using rest
    by (intro conjI exI [of _ r] exI [of _ "r\<lparr>wr_timestamp := cp_timestamp c,
        wr_keys := cp_keys c, wr_version := v + 1, wr_updated_at := instant now\<rparr>"]) (simp_all add: rest_same)
  with rest r(1) assms(2) show ?thesis by (auto simp: rest_same intro: db_inv_rest)
qed

lemma result_cases:
  obtains e s' where "m s = (Inl e, s')" | x s' where "m s = (Inr x, s')"
  by (cases "m s"; cases "fst (m s)") auto

text \<open>Every step keeps the constraints and has one of the effects.\<close>

lemma step_effects:
  assumes "db_inv db" "event_ok e"
  shows "db_inv (db_exec e db) \<and> step_effect db (db_exec e db)"
proof (cases e)
  case (GetWatermark p t now)
  obtain x db' where g: "get_or_create_watermark p t now db = (x, db')" by (cases "get_or_create_watermark p t now db")
  have "watermarks_inv db" using assms(1) by (simp add: db_inv_def)
  from get_or_create_lease_like [OF this g] keepsD [OF keeps_rest_get_or_create g] assms(1)
  show ?thesis by (auto simp: GetWatermark g step_effect_def intro: db_inv_rest)
next
  case (AcquireTable p t a now ttl)
  obtain x db' where g: "acquire_table_lease p t a now ttl db = (x, db')" by (cases "acquire_table_lease p t a now ttl db")
  from acquire_lease_like [OF assms(1) g] show ?thesis by (simp add: AcquireTable g step_effect_def)
next
  case (RenewTable l now ttl)
  obtain x db' where g: "renew_table_lease l now ttl db = (x, db')" by (cases "renew_table_lease l now ttl db")
  from renew_lease_like [OF assms(1) g] show ?thesis by (simp add: RenewTable g step_effect_def)
next
  case (ReleaseTable l now)
  obtain x db' where g: "release_table_lease l now db = (x, db')" by (cases "release_table_lease l now db")
  from release_lease_like [OF assms(1) g] show ?thesis by (simp add: ReleaseTable g step_effect_def)
next
  case (Rewind p t a v c now)
  show ?thesis
  proof (rule result_cases [of "rewind_watermark p t a v c now" db])
    fix e s' assume "rewind_watermark p t a v c now db = (Inl e, s')"
    with metadata_err(6) [OF this] assms(1) show ?thesis by (simp add: Rewind step_effect_def)
  next
    fix w s' assume "rewind_watermark p t a v c now db = (Inr w, s')"
    with rewind_step_effect [OF this assms(1)] assms(2) show ?thesis by (auto simp: Rewind step_effect_def)
  qed
next
  case (StartRun run now)
  show ?thesis
  proof (rule result_cases [of "record_started_run run now" db])
    fix e s' assume "record_started_run run now db = (Inl e, s')"
    with metadata_err(4) [OF this] assms(1) show ?thesis by (simp add: StartRun step_effect_def)
  next
    fix u s' assume r: "record_started_run run now db = (Inr u, s')"
    from record_started_run_ok [OF r assms(1)] started_effect [OF r assms(1)] r
    show ?thesis by (simp add: StartRun step_effect_def)
  qed
next
  case (FailRun run et em now)
  show ?thesis
  proof (rule result_cases [of "record_failed_run run et em now" db])
    fix e s' assume "record_failed_run run et em now db = (Inl e, s')"
    with metadata_err(1) [OF this] assms(1) show ?thesis by (simp add: FailRun step_effect_def)
  next
    fix u s' assume r: "record_failed_run run et em now db = (Inr u, s')"
    from record_failed_run_ok [OF r assms(1)] run_ended_effect r
    show ?thesis by (fastforce simp: FailRun step_effect_def)
  qed
next
  case (NoDataRun run now)
  show ?thesis
  proof (rule result_cases [of "record_success_no_data_run run now" db])
    fix e s' assume "record_success_no_data_run run now db = (Inl e, s')"
    with metadata_err(2) [OF this] assms(1) show ?thesis by (simp add: NoDataRun step_effect_def)
  next
    fix u s' assume r: "record_success_no_data_run run now db = (Inr u, s')"
    from record_success_no_data_run_ok [OF r assms(1)] run_ended_effect r
    show ?thesis by (fastforce simp: NoDataRun step_effect_def)
  qed
next
  case (SkipRun run n now)
  show ?thesis
  proof (rule result_cases [of "record_skipped_already_committed_run run n now" db])
    fix e s' assume "record_skipped_already_committed_run run n now db = (Inl e, s')"
    with metadata_err(3) [OF this] assms(1) show ?thesis by (simp add: SkipRun step_effect_def)
  next
    fix u s' assume r: "record_skipped_already_committed_run run n now db = (Inr u, s')"
    from record_skipped_already_committed_run_ok [OF r assms(1)] run_ended_effect r
    show ?thesis by (fastforce simp: SkipRun step_effect_def)
  qed
next
  case (CommitRun c now)
  show ?thesis
  proof (rule result_cases [of "commit_table_run c now" db])
    fix e s' assume "commit_table_run c now db = (Inl e, s')"
    with metadata_err(5) [OF this] assms(1) show ?thesis by (simp add: CommitRun step_effect_def)
  next
    fix u s' assume r: "commit_table_run c now db = (Inr u, s')"
    from commit_table_run_ok [OF r assms(1)] assms(2) r show ?thesis by (auto simp: CommitRun step_effect_def)
  qed
next
  case (ReconcileOrphan cand m now)
  let ?m = "bindM (liftM (reconciliation_now now)) (\<lambda>t. transactionM (reconcile_tx cand m t))"
  show ?thesis
  proof (rule result_cases [of ?m db])
    fix e s' assume "?m db = (Inl e, s')"
    moreover from this have "s' = db" by (auto simp: bindM_err transactionM_err)
    ultimately show ?thesis using assms(1) by (simp add: ReconcileOrphan step_effect_def)
  next
    fix u s' assume r: "?m db = (Inr u, s')"
    then obtain t where "reconcile_tx cand m t db = (Inr u, s')" by (auto simp: bindM_ok transactionM_ok)
    from reconcile_tx_ok [OF this assms(1)] assms(2) r show ?thesis by (auto simp: ReconcileOrphan step_effect_def)
  qed
next
  case (SourceLeaseEvent le)
  have "source_lease_inv (lease_step le db)" using assms(1) lease_version.inv_step by (simp add: db_inv_def)
  then show ?thesis
    using ingestion_tables_inv [OF assms(1) lease_step_tables] ingestion_tables_lease_like [OF lease_step_tables]
    by (simp add: SourceLeaseEvent step_effect_def)
qed

section \<open>Invariants of every interleaving\<close>

definition step_of :: "db_event \<Rightarrow> pipeline_db \<Rightarrow> pipeline_db" where
  "step_of e db = (if event_ok e then db_exec e db else db)"

definition watermark_version :: "string \<times> string \<Rightarrow> pipeline_db \<Rightarrow> int" where
  "watermark_version k db = (case register_view db k of None \<Rightarrow> -1 | Some (v, _) \<Rightarrow> v)"

definition watermark_cursor :: "string \<times> string \<Rightarrow> pipeline_db \<Rightarrow> cursor_position" where
  "watermark_cursor k db = (case register_view db k of
      None \<Rightarrow> initial_cursor | Some (_, t, ks) \<Rightarrow> \<lparr>cp_timestamp = t, cp_keys = ks\<rparr>)"

lemma step_of_effect: "db_inv db \<Longrightarrow> db_inv (step_of e db) \<and> step_effect db (step_of e db)"
  using step_effects [of db e] by (auto simp: step_of_def step_effect_def)

lemma watermark_at:
  assumes "map_of (watermarks db) k = Some r"
  shows "watermark_version k db = wr_version r" "watermark_cursor k db = \<lparr>cp_timestamp = wr_timestamp r, cp_keys = wr_keys r\<rparr>"
  using assms by (simp_all add: watermark_version_def watermark_cursor_def register_view_def)

lemma watermark_upd:
  assumes "map_of (watermarks db') = (map_of (watermarks db))(k \<mapsto> r')"
  shows "watermark_version j db' = (if j = k then wr_version r' else watermark_version j db)"
    and "watermark_cursor j db' = (if j = k then \<lparr>cp_timestamp = wr_timestamp r', cp_keys = wr_keys r'\<rparr> else watermark_cursor j db)"
  using assms by (simp_all add: watermark_version_def watermark_cursor_def register_view_def)

lemma lease_like_watermark:
  assumes "lease_like db db'"
  shows "watermark_cursor k db' = watermark_cursor k db"
    and "watermark_version k db' = watermark_version k db \<or> watermark_version k db = -1 \<and> watermark_version k db' = 0"
proof -
  have "register_view db' k = register_view db k \<or>
      (register_view db k = None \<and> register_view db' k = Some (0, None, []))"
    using assms unfolding lease_like_def by blast
  then show "watermark_cursor k db' = watermark_cursor k db"
    and "watermark_version k db' = watermark_version k db \<or> watermark_version k db = -1 \<and> watermark_version k db' = 0"
    by (auto simp: watermark_cursor_def watermark_version_def initial_cursor_def)
qed

text \<open>The one change a step can make to a watermark: the version goes up by one.\<close>

lemma effect_watermark:
  assumes "step_effect db db'"
  shows "(watermark_cursor k db' = watermark_cursor k db \<and> watermark_version k db' \<ge> watermark_version k db) \<or>
    watermark_version k db' = watermark_version k db + 1"
  using assms unfolding step_effect_def
proof (elim disjE exE conjE)
  assume "lease_like db db'"
  with lease_like_watermark [OF this, of k] show ?thesis by auto
next
  assume "run_effect db db'"
  then show ?thesis by (simp add: run_effect_def watermark_cursor_def watermark_version_def register_view_def)
next
  fix c t assume "commit_effect c t db db'"
  then obtain r where "map_of (watermarks db) (expected_key c) = Some r"
      "map_of (watermarks db') = (map_of (watermarks db))(expected_key c \<mapsto> advanced_row c t r)"
    by (auto simp: commit_effect_def)
  then show ?thesis by (auto simp: watermark_upd watermark_at advanced_row_def)
next
  fix cand m t assume "reconcile_effect cand m t db db'"
  then obtain p r r' where "map_of (watermarks db) p = Some r" "wr_version r' = wr_version r + 1"
      "map_of (watermarks db') = (map_of (watermarks db))(p \<mapsto> r')"
    unfolding reconcile_effect_def by (elim conjE exE) force
  then show ?thesis by (auto simp: watermark_upd watermark_at)
next
  fix j c assume "rewind_effect j c db db'"
  then obtain r r' where "map_of (watermarks db) j = Some r" "wr_version r' = wr_version r + 1"
      "map_of (watermarks db') = (map_of (watermarks db))(j \<mapsto> r')"
    unfolding rewind_effect_def by (elim conjE exE) force
  then show ?thesis by (auto simp: watermark_upd watermark_at)
qed

interpretation watermark: versioned_register "watermark_version k" "watermark_cursor k" step_of db_inv for k
proof
  fix s e assume "db_inv s"
  note eff = step_of_effect [OF this, of e]
  show "db_inv (step_of e s)" using eff by blast
  show "watermark_version k s \<le> watermark_version k (step_of e s)"
    using effect_watermark [of s "step_of e s" k] eff by auto
  show "watermark_cursor k (step_of e s) = watermark_cursor k s"
    if "watermark_version k (step_of e s) = watermark_version k s"
    using effect_watermark [of s "step_of e s" k] eff that by auto
qed

text \<open>Committed objects are only ever added.\<close>

lemma effect_bronze:
  assumes "step_effect db db'"
  shows "\<exists>rows. bronze_objects db' = bronze_objects db @ rows \<and> length rows \<le> 1"
  using assms unfolding step_effect_def
  by (auto simp: lease_like_def same_rest_def run_effect_def commit_effect_def reconcile_effect_def rewind_effect_def)

lemma run_bronze:
  "db_inv db \<Longrightarrow> \<exists>rows. bronze_objects (fold step_of es db) = bronze_objects db @ rows"
proof (induction es arbitrary: db)
  case (Cons e es)
  obtain rows where "bronze_objects (step_of e db) = bronze_objects db @ rows"
    using effect_bronze step_of_effect [OF Cons.prems] by blast
  moreover obtain rows' where "bronze_objects (fold step_of es (step_of e db)) = bronze_objects (step_of e db) @ rows'"
    using Cons.IH step_of_effect [OF Cons.prems] by blast
  ultimately show ?case by simp
qed simp

text \<open>A finished run is never touched again.\<close>

lemma effect_finished:
  assumes "step_effect db db'" "map_of (pipeline_runs db) k = Some r" "rr_status r \<noteq> RUNNING"
  shows "map_of (pipeline_runs db') k = Some r"
  using assms(1) unfolding step_effect_def
proof (elim disjE exE conjE)
  assume "run_effect db db'"
  then obtain j r' where "map_of (pipeline_runs db') = (map_of (pipeline_runs db))(j \<mapsto> r')"
      "case map_of (pipeline_runs db) j of None \<Rightarrow> rr_status r' = RUNNING
         | Some r \<Rightarrow> rr_status r = RUNNING \<and> rr_status r' \<notin> {RUNNING, SUCCESS}"
    unfolding run_effect_def by blast
  with assms(2,3) show ?thesis by (cases "j = k") auto
next
  fix c t assume "commit_effect c t db db'"
  with assms(2,3) show ?thesis unfolding commit_effect_def by (elim conjE exE) (cases "run_key (tc_run c) = k"; simp)
next
  fix cand m t assume "reconcile_effect cand m t db db'"
  with assms(2,3) show ?thesis unfolding reconcile_effect_def
    by (elim conjE exE) (cases "(om_run_id m, om_source_table m) = k"; simp)
qed (use assms(2) in \<open>simp_all add: lease_like_def same_rest_def rewind_effect_def\<close>)

lemma run_finished:
  "db_inv db \<Longrightarrow> map_of (pipeline_runs db) k = Some r \<Longrightarrow> rr_status r \<noteq> RUNNING \<Longrightarrow>
     map_of (pipeline_runs (fold step_of es db)) k = Some r"
proof (induction es arbitrary: db)
  case (Cons e es)
  from step_of_effect [OF Cons.prems(1)] effect_finished [OF _ Cons.prems(2,3)] Cons show ?case by simp
qed simp

text \<open>
  A watermark that moves does so with a new object whose range starts at the old cursor, or
  backwards by a rewind.
\<close>

lemma json_equal_refl [simp]: "json_equal j j"
  by (simp add: json_equal_def)

lemma effect_moves:
  assumes "db_inv db" "event_ok e" "watermark_cursor k (db_exec e db) \<noteq> watermark_cursor k db"
  shows "(\<exists>name row. bronze_objects (db_exec e db) = bronze_objects db @ [(name, row)] \<and> br_status row = COMMITTED \<and>
      json_equal (br_watermark_before row) (as_metadata_json (watermark_cursor k db))) \<or>
    cursor_is_earlier (watermark_cursor k (db_exec e db)) (watermark_cursor k db)"
proof -
  let ?db = "db_exec e db"
  have "step_effect db ?db" using step_effects [OF assms(1,2)] by blast
  then show ?thesis unfolding step_effect_def
  proof (elim disjE exE conjE)
    assume "lease_like db ?db"
    with lease_like_watermark(1) assms(3) show ?thesis by blast
  next
    assume "run_effect db ?db"
    with assms(3) show ?thesis by (simp add: run_effect_def watermark_cursor_def register_view_def)
  next
    fix c t assume c: "commit_effect c t db ?db" and check: "table_commit_check c = Inr ()"
    from c obtain r where r: "map_of (watermarks db) (expected_key c) = Some r"
        "\<lparr>cp_timestamp = wr_timestamp r, cp_keys = wr_keys r\<rparr> = wm_cursor (tc_expected_watermark c)"
        "map_of (watermarks ?db) = (map_of (watermarks db))(expected_key c \<mapsto> advanced_row c t r)"
        "bronze_objects ?db = bronze_objects db @ [(obj_table_batch_id (tc_object c), committed_row c t)]"
      unfolding commit_effect_def by blast
    have k: "k = expected_key c" using assms(3) r(3) by (auto simp: watermark_upd split: if_splits)
    have "run_watermark_before (tc_run c) = wm_cursor (tc_expected_watermark c)"
      using check by (auto simp: table_commit_check_def Let_def)
    with r k show ?thesis by (simp add: committed_row_def Let_def watermark_at)
  next
    fix cand m t assume "reconcile_effect cand m t db ?db"
    then obtain j r r' where r: "map_of (watermarks db) j = Some r" "json_equal (watermark_json r) (om_watermark_before m)"
        "map_of (watermarks ?db) = (map_of (watermarks db))(j \<mapsto> r')"
        "bronze_objects ?db = bronze_objects db @ [(orphan_table_batch_id m, reconciled_row cand m t)]"
      unfolding reconcile_effect_def by (elim conjE exE) metis
    have k: "k = j" using assms(3) r(3) by (auto simp: watermark_upd split: if_splits)
    have "json_equal (om_watermark_before m) (as_metadata_json (watermark_cursor k db))"
      using r(1,2) k by (simp add: watermark_at json_equal_def watermark_json_def)
    with r(4) show ?thesis by (simp add: reconciled_row_def)
  next
    fix j c assume "rewind_effect j c db ?db"
    then obtain r r' where r: "map_of (watermarks db) j = Some r" "map_of (watermarks ?db) = (map_of (watermarks db))(j \<mapsto> r')"
        "cursor_is_earlier c \<lparr>cp_timestamp = wr_timestamp r, cp_keys = wr_keys r\<rparr>"
        "wr_timestamp r' = cp_timestamp c" "wr_keys r' = cp_keys c"
      unfolding rewind_effect_def by (elim conjE exE) metis
    have k: "k = j" using assms(3) r(2) by (auto simp: watermark_upd split: if_splits)
    have "watermark_cursor k ?db = c" using r(2,4,5) k by (simp add: watermark_upd)
    moreover have "watermark_cursor k db = \<lparr>cp_timestamp = wr_timestamp r, cp_keys = wr_keys r\<rparr>"
      using r(1) k by (simp add: watermark_at)
    ultimately show ?thesis using r(3) by simp
  qed
qed

end
