(* ===== verification/Errors.thy ===== *)
theory Errors
  imports Prelude
begin

text \<open>
  The classification of exceptions (src/ingestion/errors.py, src/warehouse/errors.py): the
  error type recorded with a failed run, and whether the orchestrator may retry it.
\<close>

definition DBT_BUILD_ERROR :: string where "DBT_BUILD_ERROR = ''DBT_BUILD_ERROR''"
definition DBT_TEST_ERROR :: string where "DBT_TEST_ERROR = ''DBT_TEST_ERROR''"
definition UNKNOWN_ERROR :: string where "UNKNOWN_ERROR = ''UNKNOWN_ERROR''"

definition WAREHOUSE_ERROR_TYPES :: "string list" where
  "WAREHOUSE_ERROR_TYPES = [DBT_BUILD_ERROR, DBT_TEST_ERROR, UNKNOWN_ERROR]"

text \<open>The \<open>isinstance\<close> tests in their order; the first that matches decides.\<close>

definition classify_error :: "exn \<Rightarrow> string" where
  "classify_error e = (case exn_class e of
      LeaseUnavailableError \<Rightarrow> ''LEASE_UNAVAILABLE''
    | TableLeaseUnavailableError \<Rightarrow> ''LEASE_UNAVAILABLE''
    | PublishInProgressError \<Rightarrow> ''LEASE_UNAVAILABLE''
    | LeaseOwnershipLostError \<Rightarrow> ''LEASE_OWNERSHIP_LOST''
    | TableLeaseOwnershipLostError \<Rightarrow> ''LEASE_OWNERSHIP_LOST''
    | OperationalError \<Rightarrow> ''SOURCE_CONNECTION_ERROR''
    | ConnectionError \<Rightarrow> ''SOURCE_CONNECTION_ERROR''
    | TimeoutError \<Rightarrow> ''SOURCE_CONNECTION_ERROR''
    | BronzeSchemaContractError \<Rightarrow> ''SOURCE_CONTRACT_ERROR''
    | BatchValidationContractError \<Rightarrow> ''SOURCE_CONTRACT_ERROR''
    | SourceCursorRegressionError \<Rightarrow> ''SOURCE_CONTRACT_ERROR''
    | RejectRateExceededError \<Rightarrow> ''VALIDATION_THRESHOLD_EXCEEDED''
    | BronzeCommitVerificationError \<Rightarrow> ''OBJECT_VERIFICATION_ERROR''
    | WatermarkConflictError \<Rightarrow> ''WATERMARK_CONFLICT''
    | BatchIdentityConflictError \<Rightarrow> ''BATCH_IDENTITY_CONFLICT''
    | WarehouseBuildError t \<Rightarrow> t
    | PublishedWalError \<Rightarrow> ''CONFIGURATION_ERROR''
    | ClientError _ _ \<Rightarrow> ''OBJECT_STORAGE_ERROR''
    | BotoCoreError \<Rightarrow> ''OBJECT_STORAGE_ERROR''
    | _ \<Rightarrow> UNKNOWN_ERROR)"

definition RETRYABLE_ERROR_TYPES :: "string list" where
  "RETRYABLE_ERROR_TYPES = [''SOURCE_CONNECTION_ERROR'', ''LEASE_UNAVAILABLE'']"

definition object_storage_http_status :: "exn \<Rightarrow> int option" where
  "object_storage_http_status e = (case exn_class e of ClientError _ status \<Rightarrow> status | _ \<Rightarrow> None)"

definition retryable_http_status :: "int option \<Rightarrow> bool" where
  "retryable_http_status status = (case status of
      None \<Rightarrow> False | Some n \<Rightarrow> n = 429 \<or> (500 \<le> n \<and> n < 600))"

definition is_retryable :: "exn \<Rightarrow> bool" where
  "is_retryable e = (let t = classify_error e in
     if t = ''OBJECT_STORAGE_ERROR'' then retryable_http_status (object_storage_http_status e)
     else t \<in> set RETRYABLE_ERROR_TYPES)"

text \<open>\<open>error_type\<close> fits the column of the run row: not blank, at most 64 characters.\<close>

lemma classify_error_fits:
  assumes "\<And>t. exn_class e = WarehouseBuildError t \<Longrightarrow> t \<in> set WAREHOUSE_ERROR_TYPES"
  shows "classify_error e \<noteq> [] \<and> length (classify_error e) \<le> 64"
  using assms
  by (cases "exn_class e")
     (auto simp: classify_error_def WAREHOUSE_ERROR_TYPES_def DBT_BUILD_ERROR_def DBT_TEST_ERROR_def UNKNOWN_ERROR_def)

lemma is_retryable_iff:
  assumes "\<And>t. exn_class e = WarehouseBuildError t \<Longrightarrow> t \<in> set WAREHOUSE_ERROR_TYPES"
  shows "is_retryable e \<longleftrightarrow>
    exn_class e \<in> {LeaseUnavailableError, TableLeaseUnavailableError, PublishInProgressError,
      OperationalError, ConnectionError, TimeoutError} \<or>
    (\<exists>code n. exn_class e = ClientError code (Some n) \<and> (n = 429 \<or> (500 \<le> n \<and> n < 600)))"
  using assms
  by (cases "exn_class e")
     (auto simp: is_retryable_def classify_error_def object_storage_http_status_def retryable_http_status_def Let_def
        RETRYABLE_ERROR_TYPES_def WAREHOUSE_ERROR_TYPES_def DBT_BUILD_ERROR_def DBT_TEST_ERROR_def UNKNOWN_ERROR_def
        split: option.splits)

end
