(* ===== verification/Effects.thy ===== *)
theory Effects
  imports Prelude
begin

text \<open>
  How an operation may move the state, as a preorder on states: \<open>moves R m\<close> holds when every
  outcome of \<open>m\<close>, an exception included, is \<open>R\<close>-related to the state \<open>m\<close> started in. The
  locale gives the rules that follow the structure of an operation, once for every preorder.
\<close>

definition moves :: "('s \<Rightarrow> 's \<Rightarrow> bool) \<Rightarrow> ('s, 'a) op \<Rightarrow> bool" where
  "moves R m \<longleftrightarrow> (\<forall>s. R s (snd (m s)))"

lemma movesD: "moves R m \<Longrightarrow> m s = (x, s') \<Longrightarrow> R s s'"
  by (metis moves_def snd_conv)

lemma movesI: "(\<And>s x s'. m s = (x, s') \<Longrightarrow> R s s') \<Longrightarrow> moves R m"
  unfolding moves_def by (metis prod.collapse)

text \<open>The outcome of an operation as a value, for the code that runs after it either way.\<close>

definition attemptM :: "('s, 'a) op \<Rightarrow> ('s, 'a result) op" where
  "attemptM m = (\<lambda>s. case m s of (r, s') \<Rightarrow> (Inr r, s'))"

lemma attemptM_apply [simp]: "attemptM m s = (Inr (fst (m s)), snd (m s))"
  by (simp add: attemptM_def split: prod.splits)

locale effect_order =
  fixes R :: "'s \<Rightarrow> 's \<Rightarrow> bool"
  assumes refl: "R s s"
    and trans: "R s s' \<Longrightarrow> R s' s'' \<Longrightarrow> R s s''"
begin

lemma basic:
  "moves R (returnM x)" "moves R (raiseM c msg)" "moves R (liftM r)" "moves R (getM f)" "moves R (assertM b c msg)"
  by (simp_all add: moves_def assertM_apply refl)

lemma modify: "(\<And>s. R s (f s)) \<Longrightarrow> moves R (modifyM f)"
  by (simp add: moves_def)

text \<open>The continuation may use what the first operation established.\<close>

lemma bind:
  assumes "moves R m" and "\<And>x s s'. m s = (Inr x, s') \<Longrightarrow> moves R (f x)"
  shows "moves R (bindM m f)"
proof (rule movesI)
  fix s r t assume r: "bindM m f s = (r, t)"
  obtain y s' where m: "m s = (y, s')" by (cases "m s")
  from movesD [OF assms(1) m] have "R s s'" .
  show "R s t"
  proof (cases y)
    case (Inl e)
    with r m \<open>R s s'\<close> show ?thesis by simp
  next
    case (Inr x)
    with m have "m s = (Inr x, s')" by simp
    from assms(2) [OF this] have "moves R (f x)" .
    with r m Inr have "R s' t" by (simp add: movesD)
    with \<open>R s s'\<close> show ?thesis by (rule trans)
  qed
qed

lemma transaction: "moves R m \<Longrightarrow> moves R (transactionM m)"
  using refl by (auto simp: moves_def transactionM_def split: prod.splits sum.splits) (metis snd_conv)

lemma onerror:
  assumes "moves R m" and "\<And>e. moves R (h e)"
  shows "moves R (onerrorM m h)"
proof (rule movesI)
  fix s r t assume r: "onerrorM m h s = (r, t)"
  obtain y s' where m: "m s = (y, s')" by (cases "m s")
  from movesD [OF assms(1) m] have 1: "R s s'" .
  show "R s t"
  proof (cases y)
    case (Inl e)
    obtain z u where h: "h e s' = (z, u)" by (cases "h e s'")
    have "R s' u" using movesD [OF assms(2) h] .
    moreover have "t = u" using r m Inl h by (cases z) (simp_all add: onerrorM_def)
    ultimately show ?thesis using 1 trans by blast
  next
    case (Inr x)
    with r m 1 show ?thesis by (simp add: onerrorM_def)
  qed
qed

lemma cleanup:
  assumes "moves R m" and "moves R h"
  shows "moves R (finallyM m h)"
proof (rule movesI)
  fix s r t assume r: "finallyM m h s = (r, t)"
  obtain y s' where m: "m s = (y, s')" by (cases "m s")
  obtain z u where h: "h s' = (z, u)" by (cases "h s'")
  have "t = u" using r m h by (cases z) (simp_all add: finallyM_def)
  then show "R s t" using movesD [OF assms(1) m] movesD [OF assms(2) h] trans by blast
qed

lemma suppress: "moves R m \<Longrightarrow> moves R (suppressM m)"
  by (simp add: moves_def)

lemma attempt: "moves R m \<Longrightarrow> moves R (attemptM m)"
  by (simp add: moves_def)

lemma branch: "(b \<Longrightarrow> moves R m) \<Longrightarrow> (\<not> b \<Longrightarrow> moves R n) \<Longrightarrow> moves R (if b then m else n)"
  by simp

lemma option:
  "(x = None \<Longrightarrow> moves R m) \<Longrightarrow> (\<And>y. x = Some y \<Longrightarrow> moves R (f y)) \<Longrightarrow>
     moves R (case x of None \<Rightarrow> m | Some y \<Rightarrow> f y)"
  by (cases x) auto

lemma sum:
  "(\<And>y. x = Inl y \<Longrightarrow> moves R (f y)) \<Longrightarrow> (\<And>y. x = Inr y \<Longrightarrow> moves R (g y)) \<Longrightarrow>
     moves R (case x of Inl y \<Rightarrow> f y | Inr y \<Rightarrow> g y)"
  by (cases x) auto

lemma pair: "(\<And>y z. x = (y, z) \<Longrightarrow> moves R (f y z)) \<Longrightarrow> moves R (case x of (y, z) \<Rightarrow> f y z)"
  by (cases x) auto

lemma iter: "(\<And>x. moves R (f x)) \<Longrightarrow> moves R (iterM f xs)"
  by (induction xs) (auto intro!: basic bind)

lemmas rules = basic bind transaction onerror cleanup suppress attempt branch option sum pair

end

end
