(* ===== verification/Ingest.thy ===== *)
theory Ingest
  imports ControlPlane Errors Effects
begin

text \<open>
  The ingestion of one table (src/ingestion/service.py): the request, the local artifacts, the
  publication of quarantine and Bronze objects, and \<open>ingest_table\<close>, which connects leases,
  heartbeat, snapshot, validation, upload and commit. What surrounds a run is an argument: the
  snapshot's rows, the heartbeat turns and the transactions of other processes that fall
  between two of its own, and the connection faults it meets.
\<close>

section \<open>Requests\<close>

record ingestion_request =
  req_source_table :: string
  req_batch_id :: string
  req_logical_date :: datetime
  req_attempt_number :: int
  req_run_id :: "uuid option"
  req_pipeline_name :: "string option"
  req_page_size :: "int option"
  req_corruption_plan :: "corruption_plan option"

definition request_check :: "ingestion_request \<Rightarrow> unit result" where
  "request_check q =
     seq (check_of (table_config (req_source_table q)))
    (seq (require (\<not> blank (req_batch_id q)) ''batch_id must not be empty'')
    (seq (require (case req_pipeline_name q of None \<Rightarrow> True | Some p \<Rightarrow> \<not> blank p) ''pipeline_name must not be empty'')
    (seq (require (\<not> req_attempt_number q \<le> 0) ''attempt_number must be greater than zero'')
    (seq (assert_utc (req_logical_date q) ''logical_date'')
    (require (case req_page_size q of None \<Rightarrow> True | Some n \<Rightarrow> \<not> n \<le> 0) ''page_size must be greater than zero'')))))"

definition resolved_pipeline_name :: "ingestion_request \<Rightarrow> string" where
  "resolved_pipeline_name q = (case req_pipeline_name q of
      Some p \<Rightarrow> if p \<noteq> [] then p else req_source_table q @ ''_bronze''
    | None \<Rightarrow> req_source_table q @ ''_bronze'')"

text \<open>\<open>for_dag_run\<close>: the batch identity is checked, then the request built from it.\<close>

definition for_dag_run ::
    "string \<Rightarrow> string \<Rightarrow> datetime \<Rightarrow> int \<Rightarrow> uuid option \<Rightarrow> string option \<Rightarrow> int option \<Rightarrow> corruption_plan option \<Rightarrow>
     ingestion_request result" where
  "for_dag_run table dag_id logical_date attempt rid p page_size plan =
     (let b = \<lparr>bi_dag_id = dag_id, bi_logical_date = logical_date\<rparr>;
          q = \<lparr>req_source_table = table, req_batch_id = batch_id b, req_logical_date = logical_date,
               req_attempt_number = attempt, req_run_id = rid, req_pipeline_name = p, req_page_size = page_size,
               req_corruption_plan = plan\<rparr>
      in seq (batch_identity_check b) (seq (request_check q) (Inr q)))"

definition dag_id_from_batch_id :: "string \<Rightarrow> string result" where
  "dag_id_from_batch_id b = (case rpartition2 b of
      None \<Rightarrow> Inl (Exn ValueError ''batch_id must use the standard DAG logical-date format'')
    | Some (dag, timestamp) \<Rightarrow>
        if length timestamp \<noteq> 16
        then Inl (Exn ValueError ''batch_id must use the standard DAG logical-date format'') else Inr dag)"

definition table_batch_identity_of :: "ingestion_request \<Rightarrow> table_config \<Rightarrow> table_batch_identity result" where
  "table_batch_identity_of q cfg = (case dag_id_from_batch_id (req_batch_id q) of
      Inl e \<Rightarrow> Inl e
    | Inr dag \<Rightarrow>
        (let b = \<lparr>bi_dag_id = dag, bi_logical_date = req_logical_date q\<rparr>
         in seq (batch_identity_check b)
           (case table_batch b (source_table cfg) of
              Inl e \<Rightarrow> Inl e
            | Inr i \<Rightarrow> seq (require (batch_id (tbi_batch i) = req_batch_id q)
                (''batch_id must match '' @ [CHR 0x27] @ ''{dag_id}__{logical_date_utc:%Y%m%dT%H%M%SZ}'' @ [CHR 0x27])) (Inr i))))"

record ingestion_result =
  res_run :: pipeline_run
  res_status :: string
  res_object_key :: "string option"
  res_manifest_key :: "string option"
  res_row_count :: int
  res_rows_rejected :: int
  res_rows_corrupted :: int
  res_quarantine_object_key :: "string option"

definition plain_result :: "pipeline_run \<Rightarrow> string \<Rightarrow> ingestion_result" where
  "plain_result run status = \<lparr>res_run = run, res_status = status, res_object_key = None, res_manifest_key = None,
     res_row_count = 0, res_rows_rejected = 0, res_rows_corrupted = 0, res_quarantine_object_key = None\<rparr>"

section \<open>The surroundings of a run\<close>

text \<open>
  The points at which a run talks to a database. A fault at a point is a connection refused
  before the transaction, or a reply lost after it.
\<close>

datatype point =
    ReadWatermark | FindBatch | AcquireSource | AssertSource | AcquireTableLease
  | StartRecord | NoDataHealth | NoDataRecord | WrittenHealth | WrittenSource | WrittenTable
  | UploadedHealth | UploadedSource | UploadedTable | CommitPoint | FailureRecord | LeaveHeartbeat
  | PrestartStart | PrestartFail | PrestartRelease | ReuseStart | ReuseFinish | ReleaseTableLease | ReleaseSource

datatype fault = NoFault | Refused exn | LostReply exn

record 's ingest_env =
  ie_encoding :: encoding
  ie_s3 :: "'s s3_client"
  ie_local_offset :: "time \<Rightarrow> int"
  ie_uuid5 :: "uuid \<Rightarrow> string \<Rightarrow> uuid"
  ie_to_arrow :: arrow_conversion
  ie_environment :: "(string \<times> string) list"
  ie_fresh_run_id :: uuid
  ie_source :: "source_row list result"
  ie_parents :: parent_tables
  ie_fault :: "point \<Rightarrow> fault"
  ie_beats :: "point \<Rightarrow> datetime list"
  ie_others :: "point \<Rightarrow> db_event list"

definition beat_platform :: "datetime list \<Rightarrow> 's platform \<Rightarrow> 's platform" where
  "beat_platform nows pf = (case pf_heartbeat pf of
      None \<Rightarrow> pf
    | Some hb \<Rightarrow> (case heartbeat_run hb nows (pf_db pf) of
        (hb', db) \<Rightarrow> pf\<lparr>pf_heartbeat := Some hb', pf_db := db\<rparr>))"

text \<open>Other processes' transactions, then the turns of this run's own heartbeat thread.\<close>

definition pause :: "'s ingest_env \<Rightarrow> point \<Rightarrow> ('s platform, unit) op" where
  "pause env pt = modifyM (\<lambda>pf. beat_platform (ie_beats env pt)
     (pf\<lparr>pf_db := fold step_of (ie_others env pt) (pf_db pf)\<rparr>))"

definition raise_exn :: "exn \<Rightarrow> ('s, 'a) op" where
  "raise_exn e = liftM (Inl e)"

definition at_point :: "'s ingest_env \<Rightarrow> point \<Rightarrow> (pipeline_db, 'a) op \<Rightarrow> ('s platform, 'a) op" where
  "at_point env pt m = bindM (pause env pt) (\<lambda>_. case ie_fault env pt of
      NoFault \<Rightarrow> on_db m
    | Refused e \<Rightarrow> raise_exn e
    | LostReply e \<Rightarrow> bindM (on_db m) (\<lambda>_. raise_exn e))"

section \<open>Heartbeat scope\<close>

definition check_heartbeat :: "'s ingest_env \<Rightarrow> point \<Rightarrow> ('s platform, unit) op" where
  "check_heartbeat env pt = bindM (pause env pt) (\<lambda>_. (\<lambda>pf. case pf_heartbeat pf of
      None \<Rightarrow> (Inr (), pf)
    | Some hb \<Rightarrow> (assert_healthy hb, pf)))"

text \<open>
  \<open>with LeaseHeartbeat(...)\<close>: leaving joins the thread and raises its failure, whatever the
  body did. The body's value is the flag \<open>run_started\<close> and its own outcome.
\<close>

definition with_heartbeat ::
    "'s ingest_env \<Rightarrow> source_mutation_lease \<Rightarrow> table_lease \<Rightarrow> ('s platform, bool \<times> 'a result) op \<Rightarrow>
     ('s platform, bool \<times> 'a result) op" where
  "with_heartbeat env sl tb body =
     bindM (modifyM (\<lambda>pf. pf\<lparr>pf_heartbeat := Some (start_heartbeat sl (Some tb))\<rparr>)) (\<lambda>_.
     bindM body (\<lambda>(started, r).
     bindM (attemptM (check_heartbeat env LeaveHeartbeat)) (\<lambda>h.
     bindM (modifyM (\<lambda>pf. pf\<lparr>pf_heartbeat := None\<rparr>)) (\<lambda>_.
     returnM (started, case h of Inl e \<Rightarrow> Inl e | Inr _ \<Rightarrow> r)))))"

section \<open>Local artifacts\<close>

definition local_path :: "table_config \<Rightarrow> uuid \<Rightarrow> string \<Rightarrow> string" where
  "local_path cfg rid suffix = source_table cfg @ ''/'' @ uuid_str rid @ suffix"

definition remove_local_artifacts :: "table_config \<Rightarrow> uuid \<Rightarrow> ('s platform, unit) op" where
  "remove_local_artifacts cfg rid = modifyM (\<lambda>pf. pf\<lparr>pf_files :=
     filter (\<lambda>p. p \<noteq> local_path cfg rid ''.parquet'' \<and> p \<noteq> local_path cfg rid ''.quarantine.parquet'') (pf_files pf)\<rparr>)"

definition create_file :: "string \<Rightarrow> ('s platform, unit) op" where
  "create_file path = modifyM (\<lambda>pf. pf\<lparr>pf_files := path # pf_files pf\<rparr>)"

definition open_bronze_writer :: "table_config \<Rightarrow> bronze_context \<Rightarrow> ('s platform, bronze_writer) op" where
  "open_bronze_writer cfg c =
     (let path = local_path cfg (bc_run_id c) ''.parquet'' in
      bindM (liftM (bronze_context_check c)) (\<lambda>_.
      bindM (getM (\<lambda>pf. path \<in> set (pf_files pf))) (\<lambda>exists.
      bindM (liftM (new_bronze_writer exists cfg c ROW_GROUP_TARGET_ROWS)) (\<lambda>w.
      bindM (create_file path) (\<lambda>_. returnM w)))))"

definition open_quarantine_writer :: "table_config \<Rightarrow> quarantine_context \<Rightarrow> ('s platform, quarantine_writer) op" where
  "open_quarantine_writer cfg c =
     (let path = local_path cfg (qc_run_id c) ''.quarantine.parquet'' in
      bindM (liftM (quarantine_context_check c)) (\<lambda>_.
      bindM (getM (\<lambda>pf. path \<in> set (pf_files pf))) (\<lambda>exists.
      bindM (assertM (\<not> exists) FileExistsError ''Local Quarantine Parquet already exists'') (\<lambda>_.
      bindM (create_file path) (\<lambda>_. returnM (new_quarantine_writer c))))))"

text \<open>The variables of the page loop.\<close>

record write_state =
  ws_bronze :: bronze_writer
  ws_quarantine :: "quarantine_writer option"
  ws_validation :: validation_pipeline
  ws_extracted :: nat
  ws_rejected :: nat
  ws_corrupted :: nat

text \<open>A method call on one of the writers: its result and the writer afterwards.\<close>

definition call :: "('w, 'a) op \<Rightarrow> 'w \<Rightarrow> ('a \<times> 'w) result" where
  "call m w = (case m w of (Inl e, _) \<Rightarrow> Inl e | (Inr x, w') \<Rightarrow> Inr (x, w'))"

definition quarantine_rejects ::
    "'s ingest_env \<Rightarrow> table_config \<Rightarrow> quarantine_context \<Rightarrow> rejected_record list \<Rightarrow> quarantine_writer option \<Rightarrow>
     ('s platform, quarantine_writer option) op" where
  "quarantine_rejects env cfg c rejs qw =
     (if rejs = [] then returnM qw
      else bindM (case qw of Some w \<Rightarrow> returnM w | None \<Rightarrow> open_quarantine_writer cfg c) (\<lambda>w.
        bindM (liftM (call (write_rejected_records (ie_local_offset env) (ie_uuid5 env) rejs) w)) (\<lambda>(_, w').
        returnM (Some w'))))"

definition write_page ::
    "'s ingest_env \<Rightarrow> ingestion_request \<Rightarrow> table_config \<Rightarrow> quarantine_context \<Rightarrow> source_page \<Rightarrow> write_state \<Rightarrow>
     ('s platform, write_state) op" where
  "write_page env q cfg c page ws =
     bindM (liftM (inject_corruption (req_corruption_plan q) (page_records page) (int (ws_extracted ws)))) (\<lambda>(rs, corrupted).
     let vpage = \<lparr>page_records = rs, page_lower_bound = page_lower_bound page,
                  page_extract_upper_bound = page_extract_upper_bound page\<rparr> in
     bindM (liftM (source_page_check vpage)) (\<lambda>_.
     bindM (liftM (find_broken_parent_references (ie_parents env) cfg vpage)) (\<lambda>broken.
     bindM (liftM (call (validate_page vpage (map child_cursor broken)) (ws_validation ws))) (\<lambda>(validated, vp).
     bindM (liftM (call (write_records (ie_to_arrow env) (valid_records validated)) (ws_bronze ws))) (\<lambda>(_, bw).
     bindM (quarantine_rejects env cfg c (rejected_records validated) (ws_quarantine ws)) (\<lambda>qw.
     returnM \<lparr>ws_bronze = bw, ws_quarantine = qw, ws_validation = vp,
       ws_extracted = ws_extracted ws + length (page_records page),
       ws_rejected = ws_rejected ws + length (rejected_records validated),
       ws_corrupted = ws_corrupted ws + corrupted\<rparr>))))))"

fun write_pages ::
    "'s ingest_env \<Rightarrow> ingestion_request \<Rightarrow> table_config \<Rightarrow> quarantine_context \<Rightarrow> source_page list \<Rightarrow> write_state \<Rightarrow>
     ('s platform, write_state) op" where
  "write_pages env q cfg c [] ws = returnM ws"
| "write_pages env q cfg c (p # ps) ws =
     bindM (write_page env q cfg c p ws) (\<lambda>ws'. write_pages env q cfg c ps ws')"

record local_artifacts =
  la_bronze :: bronze_artifact
  la_quarantine :: "quarantine_artifact option"
  la_extracted :: nat
  la_rejected :: nat
  la_corrupted :: nat

definition close_writers :: "write_state \<Rightarrow> local_artifacts result" where
  "close_writers ws = (case call close_bronze_writer (ws_bronze ws) of
      Inl e \<Rightarrow> Inl e
    | Inr (b, _) \<Rightarrow>
      (case (case ws_quarantine ws of
               None \<Rightarrow> Inr None
             | Some w \<Rightarrow> map_sum id (\<lambda>(a, _). Some a) (call close_quarantine_writer w)) of
         Inl e \<Rightarrow> Inl e
       | Inr a \<Rightarrow> Inr \<lparr>la_bronze = b, la_quarantine = a, la_extracted = ws_extracted ws,
           la_rejected = ws_rejected ws, la_corrupted = ws_corrupted ws\<rparr>))"

text \<open>
  The pages are produced lazily, so an exception of the reader comes after the pages before it.
  The paths of the code that close the writers on an exception change no file's existence.
\<close>

definition write_local_artifacts ::
    "'s ingest_env \<Rightarrow> table_snapshot \<Rightarrow> cursor_position \<Rightarrow> ingestion_request \<Rightarrow> pipeline_run \<Rightarrow> table_config \<Rightarrow> datetime \<Rightarrow>
     ('s platform, local_artifacts) op" where
  "write_local_artifacts env snap upper q run cfg now =
     bindM (open_bronze_writer cfg \<lparr>bc_batch_id = req_batch_id q, bc_run_id = run_id run, bc_ingested_at = now,
              bc_source_table = source_table cfg, bc_schema_version = BRONZE_SCHEMA_VERSION\<rparr>) (\<lambda>bw.
     let c = \<lparr>qc_batch_id = req_batch_id q, qc_run_id = run_id run, qc_detected_at = now,
              qc_source_table = source_table cfg\<rparr>;
         ws = \<lparr>ws_bronze = bw, ws_quarantine = None,
               ws_validation = new_validation_pipeline cfg (snap_watermark_before snap) upper,
               ws_extracted = 0, ws_rejected = 0, ws_corrupted = 0\<rparr> in
     case pages snap of
       None \<Rightarrow> raiseM (OtherError ''nontermination'') []
     | Some (ps, failure) \<Rightarrow>
         bindM (write_pages env q cfg c ps ws) (\<lambda>ws'.
         case failure of
           Some e \<Rightarrow> raise_exn e
         | None \<Rightarrow> liftM (close_writers ws')))"

section \<open>Publication\<close>

definition upload_and_verify_bronze ::
    "'s ingest_env \<Rightarrow> ingestion_request \<Rightarrow> pipeline_run \<Rightarrow> table_config \<Rightarrow> bronze_artifact \<Rightarrow> datetime \<Rightarrow>
     ('s platform, verified_bronze_object) op" where
  "upload_and_verify_bronze env q run cfg artifact now =
     (let enc = ie_encoding env; c = ie_s3 env in
      case run_extract_upper_bound run of
        None \<Rightarrow> raiseM RuntimeError ''Non-empty uploads require an extract upper bound''
      | Some upper \<Rightarrow>
        bindM (liftM (table_object_keys (source_table cfg) (req_batch_id q) (req_logical_date q))) (\<lambda>(object_key, manifest_key).
        bindM (on_s3 (upload_new enc c object_key (ParquetBody (ba_rows artifact)))) (\<lambda>uploaded.
        bindM (liftM (table_logical_hash enc cfg (ba_rows artifact))) (\<lambda>logical_hash.
        let m = \<lparr>bm_batch_id = req_batch_id q, bm_run_id = run_id run, bm_source_table = source_table cfg,
            bm_logical_date = run_logical_date run, bm_watermark_before = run_watermark_before run,
            bm_extract_upper_bound = upper, bm_object_key = object_key, bm_object_size = so_size uploaded,
            bm_content_sha256 = so_content_sha256 uploaded, bm_logical_hash = logical_hash,
            bm_row_count = int (ba_row_count artifact), bm_created_at = now,
            bm_schema_version = schema_version cfg, bm_manifest_version = MANIFEST_VERSION,
            bm_object_state = VERIFIED_OBJECT_STATE\<rparr>;
          ob = \<lparr>obj_table_batch_id = req_batch_id q @ ''__'' @ source_table cfg, obj_object_key = object_key,
            obj_manifest_key = manifest_key, obj_schema_version = schema_version cfg,
            obj_row_count = int (ba_row_count artifact), obj_content_sha256 = so_content_sha256 uploaded,
            obj_logical_hash = logical_hash, obj_watermark_after = upper\<rparr> in
        bindM (liftM (bronze_manifest_check m)) (\<lambda>_.
        bindM (on_s3 (upload_new enc c manifest_key (JsonBody (bronze_manifest_json m)))) (\<lambda>_.
        bindM (liftM (verified_bronze_object_check ob)) (\<lambda>_.
        returnM ob)))))))"

definition publish_quarantine ::
    "'s ingest_env \<Rightarrow> ingestion_request \<Rightarrow> pipeline_run \<Rightarrow> table_config \<Rightarrow> quarantine_artifact option \<Rightarrow> datetime \<Rightarrow>
     ('s platform, quarantine_batch option) op" where
  "publish_quarantine env q run cfg artifact now = (case artifact of
      None \<Rightarrow> returnM None
    | Some a \<Rightarrow>
      (let enc = ie_encoding env; c = ie_s3 env in
       bindM (liftM (quarantine_object_keys (source_table cfg) (req_batch_id q) (req_logical_date q))) (\<lambda>(object_key, manifest_key).
       bindM (on_s3 (upload_new enc c object_key (QuarantineBody (qa_rows a)))) (\<lambda>uploaded.
       let m = \<lparr>qm_batch_id = req_batch_id q, qm_run_id = run_id run, qm_source_table = source_table cfg,
           qm_object_key = object_key, qm_object_size = so_size uploaded,
           qm_content_sha256 = so_content_sha256 uploaded, qm_row_count = int (qa_row_count a),
           qm_error_counts = qa_error_counts a, qm_created_at = now\<rparr>;
         b = \<lparr>q_table_batch_id = req_batch_id q @ ''__'' @ source_table cfg, q_object_key = object_key,
           q_row_count = int (qa_row_count a), q_error_counts = qa_error_counts a\<rparr> in
       bindM (liftM (quarantine_manifest_check m)) (\<lambda>_.
       bindM (on_s3 (upload_new enc c manifest_key (JsonBody (quarantine_manifest_json m)))) (\<lambda>_.
       bindM (liftM (quarantine_batch_check b)) (\<lambda>_.
       returnM (Some b))))))))"

section \<open>Recorded outcomes\<close>

definition request_run ::
    "ingestion_request \<Rightarrow> table_config \<Rightarrow> uuid \<Rightarrow> cursor_position \<Rightarrow> cursor_position option \<Rightarrow> pipeline_run" where
  "request_run q cfg rid prior upper =
     \<lparr>run_id = rid, run_pipeline_name = resolved_pipeline_name q, run_source_table = source_table cfg,
      run_batch_id = req_batch_id q, run_logical_date = req_logical_date q,
      run_attempt_number = req_attempt_number q, run_watermark_before = prior,
      run_extract_upper_bound = upper, run_dag_id = None\<rparr>"

text \<open>\<open>str(error) or None\<close>.\<close>

definition message_of :: "exn \<Rightarrow> string option" where
  "message_of e = (if exn_message e = [] then None else Some (exn_message e))"

definition record_failure_without_masking ::
    "'s ingest_env \<Rightarrow> pipeline_run \<Rightarrow> exn \<Rightarrow> datetime \<Rightarrow> ('s platform, unit) op" where
  "record_failure_without_masking env run e now =
     suppressM (at_point env FailureRecord (record_failed_run run (classify_error e) (message_of e) now))"

definition record_prestart_failure ::
    "'s ingest_env \<Rightarrow> ingestion_request \<Rightarrow> table_config \<Rightarrow> watermark \<Rightarrow> uuid \<Rightarrow> exn \<Rightarrow> datetime \<Rightarrow> ('s platform, unit) op" where
  "record_prestart_failure env q cfg w rid e now =
     (let run = request_run q cfg rid (wm_cursor w) None in
      bindM (liftM (pipeline_run_check run)) (\<lambda>_.
      suppressM (
        bindM (at_point env PrestartStart (record_started_run run now)) (\<lambda>_.
        at_point env PrestartFail (record_failed_run run (classify_error e) (message_of e) now)))))"

definition reuse_or_reject_committed_batch ::
    "'s ingest_env \<Rightarrow> ingestion_request \<Rightarrow> table_config \<Rightarrow> watermark \<Rightarrow> committed_table_batch \<Rightarrow> datetime \<Rightarrow>
     ('s platform, ingestion_result) op" where
  "reuse_or_reject_committed_batch env q cfg w existing now =
     (let rid = (case req_run_id q of Some u \<Rightarrow> u | None \<Rightarrow> ie_fresh_run_id env) in
      case assert_reusable_table_batch existing w (schema_version cfg) of
        Inl e \<Rightarrow>
          (let run = request_run q cfg rid (wm_cursor w) None in
           bindM (liftM (pipeline_run_check run)) (\<lambda>_.
           bindM (at_point env ReuseStart (record_started_run run now)) (\<lambda>_.
           bindM (at_point env ReuseFinish
                    (record_failed_run run ''BATCH_IDENTITY_CONFLICT'' (Some (exn_message e)) now)) (\<lambda>_.
           raise_exn e))))
      | Inr _ \<Rightarrow>
          (let run = request_run q cfg rid (cb_watermark_before existing) (Some (cb_watermark_after existing)) in
           bindM (liftM (pipeline_run_check run)) (\<lambda>_.
           bindM (at_point env ReuseStart (record_started_run run now)) (\<lambda>_.
           bindM (at_point env ReuseFinish
                    (record_skipped_already_committed_run run (cb_row_count existing) now)) (\<lambda>_.
           returnM \<lparr>res_run = run, res_status = ''SKIPPED_ALREADY_COMMITTED'',
             res_object_key = Some (cb_object_key existing), res_manifest_key = Some (cb_manifest_key existing),
             res_row_count = cb_row_count existing, res_rows_rejected = 0, res_rows_corrupted = 0,
             res_quarantine_object_key = None\<rparr>)))))"

section \<open>The run\<close>

text \<open>
  The \<open>try\<close> whose failure is recorded: from the first page to the commit. The values it
  gathers are those of the \<open>TableCommit\<close> and the count of corrupted rows.
\<close>

definition prepare_commit ::
    "'s ingest_env \<Rightarrow> ingestion_request \<Rightarrow> table_config \<Rightarrow> watermark \<Rightarrow> source_mutation_lease \<Rightarrow> table_lease \<Rightarrow>
     table_snapshot \<Rightarrow> cursor_position \<Rightarrow> pipeline_run \<Rightarrow> datetime \<Rightarrow> ('s platform, table_commit \<times> nat) op" where
  "prepare_commit env q cfg w sl tb snap upper run now =
     bindM (write_local_artifacts env snap upper q run cfg now) (\<lambda>la.
     bindM (check_heartbeat env WrittenHealth) (\<lambda>_.
     bindM (at_point env WrittenSource (assert_source_mutation_lease sl now)) (\<lambda>_.
     bindM (at_point env WrittenTable (assert_table_lease tb now)) (\<lambda>_.
     bindM (liftM (assert_reject_rate (int (la_extracted la)) (int (la_rejected la)))) (\<lambda>_.
     bindM (publish_quarantine env q run cfg (la_quarantine la) now) (\<lambda>quarantine.
     bindM (upload_and_verify_bronze env q run cfg (la_bronze la) now) (\<lambda>ob.
     bindM (check_heartbeat env UploadedHealth) (\<lambda>_.
     bindM (at_point env UploadedSource (assert_source_mutation_lease sl now)) (\<lambda>_.
     bindM (at_point env UploadedTable (assert_table_lease tb now)) (\<lambda>_.
     let c = \<lparr>tc_run = run, tc_object = ob, tc_expected_watermark = w, tc_rows_extracted = int (la_extracted la),
              tc_rows_valid = int (ba_row_count (la_bronze la)), tc_rows_rejected = int (la_rejected la),
              tc_rows_loaded = int (ba_row_count (la_bronze la)), tc_lease_owner = tl_owner_id tb,
              tc_quarantine = quarantine\<rparr> in
     bindM (liftM (table_commit_check c)) (\<lambda>_.
     returnM (c, la_corrupted la))))))))))))"

definition success_result :: "table_commit \<Rightarrow> nat \<Rightarrow> ingestion_result" where
  "success_result c corrupted = \<lparr>res_run = tc_run c, res_status = ''SUCCESS'',
     res_object_key = Some (obj_object_key (tc_object c)), res_manifest_key = Some (obj_manifest_key (tc_object c)),
     res_row_count = obj_row_count (tc_object c), res_rows_rejected = tc_rows_rejected c,
     res_rows_corrupted = int corrupted, res_quarantine_object_key = map_option q_object_key (tc_quarantine c)\<rparr>"

definition write_and_commit ::
    "'s ingest_env \<Rightarrow> ingestion_request \<Rightarrow> table_config \<Rightarrow> watermark \<Rightarrow> source_mutation_lease \<Rightarrow> table_lease \<Rightarrow>
     table_snapshot \<Rightarrow> cursor_position \<Rightarrow> pipeline_run \<Rightarrow> datetime \<Rightarrow> ('s platform, ingestion_result) op" where
  "write_and_commit env q cfg w sl tb snap upper run now =
     bindM (prepare_commit env q cfg w sl tb snap upper run now) (\<lambda>(c, corrupted).
     bindM (at_point env CommitPoint (commit_table_run c now)) (\<lambda>_.
     returnM (success_result c corrupted)))"

definition run_no_data ::
    "'s ingest_env \<Rightarrow> pipeline_run \<Rightarrow> datetime \<Rightarrow> ('s platform, ingestion_result) op" where
  "run_no_data env run now =
     bindM (check_heartbeat env NoDataHealth) (\<lambda>_.
     bindM (at_point env NoDataRecord (record_success_no_data_run run now)) (\<lambda>_.
     returnM (plain_result run ''SUCCESS_NO_DATA'')))"

text \<open>What happens once the run is recorded as started.\<close>

definition started_run ::
    "'s ingest_env \<Rightarrow> ingestion_request \<Rightarrow> table_config \<Rightarrow> watermark \<Rightarrow> source_mutation_lease \<Rightarrow> table_lease \<Rightarrow>
     table_snapshot \<Rightarrow> pipeline_run \<Rightarrow> datetime \<Rightarrow> ('s platform, ingestion_result) op" where
  "started_run env q cfg w sl tb snap run now = (case snap_extract_upper_bound snap of
      None \<Rightarrow> run_no_data env run now
    | Some upper \<Rightarrow>
        onerrorM (write_and_commit env q cfg w sl tb snap upper run now)
          (\<lambda>e. record_failure_without_masking env run e now))"

text \<open>
  \<open>open_table_snapshot\<close>: its own checks come before the connection to the source, which may
  fail. The snapshot is one repeatable-read transaction, so its rows are fixed.
\<close>

definition open_snapshot ::
    "'s ingest_env \<Rightarrow> table_config \<Rightarrow> cursor_position \<Rightarrow> int option \<Rightarrow> table_snapshot result" where
  "open_snapshot env cfg prior page_size =
     (case open_table_snapshot (ie_environment env) (case ie_source env of Inl _ \<Rightarrow> [] | Inr rows \<Rightarrow> rows) cfg prior page_size of
        Inl e \<Rightarrow> Inl e
      | Inr snap \<Rightarrow> (case ie_source env of Inl e \<Rightarrow> Inl e | Inr _ \<Rightarrow> Inr snap))"

definition start_run ::
    "'s ingest_env \<Rightarrow> ingestion_request \<Rightarrow> table_config \<Rightarrow> watermark \<Rightarrow> uuid \<Rightarrow> datetime \<Rightarrow>
     ('s platform, table_snapshot \<times> pipeline_run) op" where
  "start_run env q cfg w rid now =
     bindM (liftM (open_snapshot env cfg (wm_cursor w) (req_page_size q))) (\<lambda>snap.
     let run = request_run q cfg rid (wm_cursor w) (snap_extract_upper_bound snap) in
     bindM (liftM (pipeline_run_check run)) (\<lambda>_.
     bindM (at_point env StartRecord (record_started_run run now)) (\<lambda>_.
     returnM (snap, run))))"

definition snapshot_body ::
    "'s ingest_env \<Rightarrow> ingestion_request \<Rightarrow> table_config \<Rightarrow> watermark \<Rightarrow> source_mutation_lease \<Rightarrow> table_lease \<Rightarrow> uuid \<Rightarrow>
     datetime \<Rightarrow> ('s platform, bool \<times> ingestion_result result) op" where
  "snapshot_body env q cfg w sl tb rid now =
     bindM (attemptM (start_run env q cfg w rid now)) (\<lambda>start. case start of
       Inl e \<Rightarrow> returnM (False, Inl e)
     | Inr (snap, run) \<Rightarrow>
         bindM (attemptM (started_run env q cfg w sl tb snap run now)) (\<lambda>r. returnM (True, r)))"

text \<open>The second \<open>try\<close>: an exception before the start is recorded; the leases are released.\<close>

definition leased_run ::
    "'s ingest_env \<Rightarrow> ingestion_request \<Rightarrow> table_config \<Rightarrow> watermark \<Rightarrow> source_mutation_lease \<Rightarrow> bool \<Rightarrow> table_lease \<Rightarrow>
     uuid \<Rightarrow> datetime \<Rightarrow> ('s platform, ingestion_result) op" where
  "leased_run env q cfg w sl owned tb rid now =
     finallyM
       (bindM (with_heartbeat env sl tb (snapshot_body env q cfg w sl tb rid now)) (\<lambda>(started, r). case r of
          Inr x \<Rightarrow> returnM x
        | Inl e \<Rightarrow> bindM (if started then returnM () else record_prestart_failure env q cfg w rid e now) (\<lambda>_. raise_exn e)))
       (bindM (remove_local_artifacts cfg rid) (\<lambda>_.
        bindM (suppressM (at_point env ReleaseTableLease (release_table_lease tb now))) (\<lambda>_.
        if owned then suppressM (at_point env ReleaseSource (release_source_mutation_lease sl now)) else returnM ())))"

text \<open>
  The first \<open>try\<close>: acquire and check the leases. The handler knows the source lease once it is
  acquired, so the acquisition's own outcome is kept apart from what follows it.
\<close>

definition check_leases ::
    "'s ingest_env \<Rightarrow> ingestion_request \<Rightarrow> table_config \<Rightarrow> source_mutation_lease \<Rightarrow> uuid \<Rightarrow> datetime \<Rightarrow>
     ('s platform, table_lease) op" where
  "check_leases env q cfg sl rid now =
     bindM (assertM (lease_owner_type sl = WAREHOUSE_OWNER_TYPE) ValueError ''ingestion requires a WAREHOUSE source lease'') (\<lambda>_.
     bindM (at_point env AssertSource (assert_source_mutation_lease sl now)) (\<lambda>_.
     at_point env AcquireTableLease
       (acquire_table_lease (resolved_pipeline_name q) (source_table cfg) rid now DEFAULT_TABLE_LEASE_TTL)))"

definition leases_failed ::
    "'s ingest_env \<Rightarrow> ingestion_request \<Rightarrow> table_config \<Rightarrow> watermark \<Rightarrow> source_mutation_lease option \<Rightarrow> uuid \<Rightarrow> exn \<Rightarrow>
     datetime \<Rightarrow> ('s platform, unit) op" where
  "leases_failed env q cfg w acquired rid e now =
     bindM (record_prestart_failure env q cfg w rid e now) (\<lambda>_.
     case acquired of
       Some sl \<Rightarrow> suppressM (at_point env PrestartRelease (release_source_mutation_lease sl now))
     | None \<Rightarrow> returnM ())"

definition new_run ::
    "'s ingest_env \<Rightarrow> ingestion_request \<Rightarrow> table_config \<Rightarrow> watermark \<Rightarrow> source_mutation_lease option \<Rightarrow> uuid \<Rightarrow> datetime \<Rightarrow>
     ('s platform, ingestion_result) op" where
  "new_run env q cfg w given rid now =
     bindM (case given of
         Some sl \<Rightarrow> returnM sl
       | None \<Rightarrow> onerrorM
           (at_point env AcquireSource (acquire_source_mutation_lease WAREHOUSE_OWNER_TYPE rid now DEFAULT_LEASE_TTL))
           (\<lambda>e. leases_failed env q cfg w None rid e now)) (\<lambda>sl.
     bindM (onerrorM (check_leases env q cfg sl rid now)
              (\<lambda>e. leases_failed env q cfg w (if given = None then Some sl else None) rid e now)) (\<lambda>tb.
     leased_run env q cfg w sl (given = None) tb rid now))"

definition ingest_table ::
    "'s ingest_env \<Rightarrow> ingestion_request \<Rightarrow> datetime \<Rightarrow> source_mutation_lease option \<Rightarrow> ('s platform, ingestion_result) op" where
  "ingest_table env q now given =
     (let rid = (case req_run_id q of Some u \<Rightarrow> u | None \<Rightarrow> ie_fresh_run_id env) in
      bindM (liftM (assert_utc now ''now'')) (\<lambda>_.
      bindM (liftM (table_config (req_source_table q))) (\<lambda>cfg.
      bindM (on_s3 (ensure_bucket (ie_s3 env))) (\<lambda>_.
      bindM (at_point env ReadWatermark (get_or_create_watermark (resolved_pipeline_name q) (source_table cfg) now)) (\<lambda>w.
      bindM (liftM (table_batch_identity_of q cfg)) (\<lambda>identity.
      bindM (at_point env FindBatch (get_committed_table_batch (ie_local_offset env) identity)) (\<lambda>existing.
      case existing of
        Some b \<Rightarrow> reuse_or_reject_committed_batch env q cfg w b now
      | None \<Rightarrow> new_run env q cfg w given rid now)))))))"

end
