(* ===== verification/IngestTrace.thy ===== *)
theory IngestTrace
  imports Ingest
begin

text \<open>
  An ingestion run seen from the control plane: whatever it meets, its effect on the metadata
  database is a sequence of steps of the transition system of \<open>ControlPlane\<close>, and its own
  commits are the only ones among them that can move its watermark.
\<close>

section \<open>A run is a sequence of control-plane steps\<close>

text \<open>
  \<open>evolves P\<close>: the database moves by steps of the transition system, all of them events that
  satisfy \<open>P\<close>. \<open>routine\<close> events never move a watermark.
\<close>

definition evolves :: "(db_event \<Rightarrow> bool) \<Rightarrow> 's platform \<Rightarrow> 's platform \<Rightarrow> bool" where
  "evolves P pf pf' \<longleftrightarrow> (\<exists>es. list_all P es \<and> pf_db pf' = fold step_of es (pf_db pf))"

definition routine :: "db_event \<Rightarrow> bool" where
  "routine e = (case e of
      Rewind _ _ _ _ _ _ \<Rightarrow> False | CommitRun _ _ \<Rightarrow> False | ReconcileOrphan _ _ _ \<Rightarrow> False | _ \<Rightarrow> True)"

definition surroundings :: "(db_event \<Rightarrow> bool) \<Rightarrow> 's ingest_env \<Rightarrow> bool" where
  "surroundings P env \<longleftrightarrow> (\<forall>e. routine e \<longrightarrow> P e) \<and> (\<forall>pt. list_all P (ie_others env pt))"

lemma evolves_refl [simp]: "evolves P pf pf"
  unfolding evolves_def by (rule exI [of _ "[]"]) simp

lemma evolves_same: "pf_db pf' = pf_db pf \<Longrightarrow> evolves P pf pf'"
  unfolding evolves_def by (rule exI [of _ "[]"]) simp

lemma evolves_trans: "evolves P pf pf' \<Longrightarrow> evolves P pf' pf'' \<Longrightarrow> evolves P pf pf''"
  unfolding evolves_def by (elim exE conjE) (rule_tac x = "es @ esa" in exI; simp)

interpretation evolution: effect_order "evolves P" for P
  by unfold_locales (auto intro: evolves_trans)

lemma evolves_step: "P e \<Longrightarrow> event_ok e \<Longrightarrow> pf_db pf' = db_exec e (pf_db pf) \<Longrightarrow> evolves P pf pf'"
  unfolding evolves_def by (rule exI [of _ "[e]"]) (simp add: step_of_def)

lemma on_db_apply: "on_db m pf = (fst (m (pf_db pf)), pf\<lparr>pf_db := snd (m (pf_db pf))\<rparr>)"
  by (simp add: on_db_def split: prod.splits)

lemma on_s3_apply: "on_s3 m pf = (fst (m (pf_s3 pf)), pf\<lparr>pf_s3 := snd (m (pf_s3 pf))\<rparr>)"
  by (simp add: on_s3_def split: prod.splits)

lemma moves_event:
  assumes "P e" "event_ok e" "\<And>db. snd (m db) = db_exec e db"
  shows "moves (evolves P) (on_db m)"
  unfolding moves_def using assms by (simp add: on_db_apply evolves_step [of P e])

lemma moves_read: "(\<And>db. snd (m db) = db) \<Longrightarrow> moves (evolves P) (on_db m)"
  unfolding moves_def by (simp add: on_db_apply evolves_same)

lemma moves_outside:
  "moves (evolves P) (on_s3 m')"
  "(\<And>pf. pf_db (f pf) = pf_db pf) \<Longrightarrow> moves (evolves P) (modifyM f)"
  by (simp_all add: moves_def on_s3_apply evolves_same)

lemma beat_evolves:
  assumes "surroundings P env"
  shows "\<exists>es. list_all P es \<and> snd (heartbeat_beat hb now db) = fold step_of es db"
proof -
  have P: "P (SourceLeaseEvent le)" "P (RenewTable tb n ttl)" for le tb n ttl
    using assms by (simp_all add: surroundings_def routine_def)
  let ?r = "SourceLeaseEvent (RenewLease (hb_source_lease hb) now DEFAULT_LEASE_TTL)"
  show ?thesis
  proof (cases "hb_failure hb")
    case (Some e)
    then show ?thesis by (intro exI [of _ "[]"]) (simp add: heartbeat_beat_def)
  next
    case None
    obtain x db' where r: "renew_source_mutation_lease (hb_source_lease hb) now DEFAULT_LEASE_TTL db = (x, db')"
      by (cases "renew_source_mutation_lease (hb_source_lease hb) now DEFAULT_LEASE_TTL db")
    have s: "step_of ?r db = db'" by (simp add: step_of_def r)
    show ?thesis
    proof (cases "hb_table_lease hb")
      case None
      with \<open>hb_failure hb = None\<close> r s P show ?thesis
        by (intro exI [of _ "[?r]"]) (simp add: heartbeat_beat_def split: sum.splits)
    next
      case (Some tb)
      obtain y db'' where t: "renew_table_lease tb now DEFAULT_TABLE_LEASE_TTL db' = (y, db'')"
        by (cases "renew_table_lease tb now DEFAULT_TABLE_LEASE_TTL db'")
      have s': "step_of (RenewTable tb now DEFAULT_TABLE_LEASE_TTL) db' = db''" by (simp add: step_of_def t)
      show ?thesis
      proof (cases x)
        case (Inl e)
        with \<open>hb_failure hb = None\<close> r s P show ?thesis
          by (intro exI [of _ "[?r]"]) (simp add: heartbeat_beat_def)
      next
        case (Inr l)
        with \<open>hb_failure hb = None\<close> Some r s t s' P show ?thesis
          by (intro exI [of _ "[?r, RenewTable tb now DEFAULT_TABLE_LEASE_TTL]"])
             (simp add: heartbeat_beat_def split: sum.splits)
      qed
    qed
  qed
qed

lemma beats_evolve:
  assumes "surroundings P env"
  shows "\<exists>es. list_all P es \<and> snd (heartbeat_run hb nows db) = fold step_of es db"
proof (induction nows arbitrary: hb db)
  case Nil
  show ?case by (intro exI [of _ "[]"]) simp
next
  case (Cons n ns)
  obtain hb' db' where b: "heartbeat_beat hb n db = (hb', db')" by (cases "heartbeat_beat hb n db")
  from beat_evolves [OF assms, of hb n db] b obtain es where es: "list_all P es" "db' = fold step_of es db" by auto
  from Cons [of hb' db'] obtain es' where es': "list_all P es'" "snd (heartbeat_run hb' ns db') = fold step_of es' db'" by auto
  from es es' b show ?case by (intro exI [of _ "es @ es'"]) simp
qed

lemma moves_pause: "surroundings P env \<Longrightarrow> moves (evolves P) (pause env pt)"
proof (rule movesI)
  fix pf :: "'a platform" and x pf' assume env: "surroundings P env" and r: "pause env pt pf = (x, pf')"
  let ?db = "fold step_of (ie_others env pt) (pf_db pf)"
  from env have others: "list_all P (ie_others env pt)" by (simp add: surroundings_def)
  show "evolves P pf pf'"
  proof (cases "pf_heartbeat pf")
    case None
    with r others show ?thesis by (auto simp: pause_def beat_platform_def evolves_def)
  next
    case (Some hb)
    obtain hb' db' where b: "heartbeat_run hb (ie_beats env pt) ?db = (hb', db')"
      by (cases "heartbeat_run hb (ie_beats env pt) ?db")
    from beats_evolve [OF env, of hb "ie_beats env pt" ?db] b obtain es where "list_all P es" "db' = fold step_of es ?db" by auto
    moreover have "pf_db pf' = db'" using r Some b by (auto simp: pause_def beat_platform_def)
    ultimately show ?thesis using others unfolding evolves_def by (intro exI [of _ "ie_others env pt @ es"]) simp
  qed
qed

lemma moves_raise: "moves (evolves P) (raise_exn e)"
  by (simp add: raise_exn_def evolution.basic)

lemma moves_at_point:
  fixes env :: "'s ingest_env" and m :: "(pipeline_db, 'a) op"
  assumes "surroundings P env" "moves (evolves P) (on_db m :: ('s platform, 'a) op)"
  shows "moves (evolves P) (at_point env pt m)"
  unfolding at_point_def
  by (rule evolution.bind [OF moves_pause [OF assms(1)]])
     (use assms(2) in \<open>auto simp: moves_raise evolution.bind split: fault.splits\<close>)

lemma moves_check_heartbeat: "surroundings P env \<Longrightarrow> moves (evolves P) (check_heartbeat env pt)"
  unfolding check_heartbeat_def
  by (rule evolution.bind [OF moves_pause]) (auto simp: moves_def split: option.splits)

lemma routine_events:
  assumes "surroundings P env"
  shows "moves (evolves P) (on_db (get_or_create_watermark p t now))"
    "moves (evolves P) (on_db (acquire_table_lease p t rid now ttl))"
    "moves (evolves P) (on_db (release_table_lease tb now))"
    "moves (evolves P) (on_db (record_started_run run now))"
    "moves (evolves P) (on_db (record_failed_run run et em now))"
    "moves (evolves P) (on_db (record_success_no_data_run run now))"
    "moves (evolves P) (on_db (record_skipped_already_committed_run run n now))"
    "moves (evolves P) (on_db (acquire_source_mutation_lease ot rid now ttl))"
    "moves (evolves P) (on_db (release_source_mutation_lease sl now))"
proof -
  have P: "routine e \<Longrightarrow> P e" for e using assms by (simp add: surroundings_def)
  note event = moves_event [of P, OF P]
  show "moves (evolves P) (on_db (get_or_create_watermark p t now))"
    by (rule event [of "GetWatermark p t now"]) (simp_all add: routine_def)
  show "moves (evolves P) (on_db (acquire_table_lease p t rid now ttl))"
    by (rule event [of "AcquireTable p t rid now ttl"]) (simp_all add: routine_def)
  show "moves (evolves P) (on_db (release_table_lease tb now))"
    by (rule event [of "ReleaseTable tb now"]) (simp_all add: routine_def)
  show "moves (evolves P) (on_db (record_started_run run now))"
    by (rule event [of "StartRun run now"]) (simp_all add: routine_def)
  show "moves (evolves P) (on_db (record_failed_run run et em now))"
    by (rule event [of "FailRun run et em now"]) (simp_all add: routine_def)
  show "moves (evolves P) (on_db (record_success_no_data_run run now))"
    by (rule event [of "NoDataRun run now"]) (simp_all add: routine_def)
  show "moves (evolves P) (on_db (record_skipped_already_committed_run run n now))"
    by (rule event [of "SkipRun run n now"]) (simp_all add: routine_def)
  show "moves (evolves P) (on_db (acquire_source_mutation_lease ot rid now ttl))"
    by (rule event [of "SourceLeaseEvent (AcquireLease ot rid now ttl)"]) (simp_all add: routine_def)
  show "moves (evolves P) (on_db (release_source_mutation_lease sl now))"
    by (rule event [of "SourceLeaseEvent (ReleaseLease sl now)"]) (simp_all add: routine_def)
qed

lemma moves_keeps: "keeps id m \<Longrightarrow> moves (evolves P) (on_db m)"
  by (rule moves_read) (simp add: keeps_def)

lemma reads:
  "moves (evolves P) (on_db (assert_source_mutation_lease sl now))"
  "moves (evolves P) (on_db (assert_table_lease tb now))"
  "moves (evolves P) (on_db (get_committed_table_batch lz i))"
proof -
  show "moves (evolves P) (on_db (assert_source_mutation_lease sl now))"
    unfolding assert_source_mutation_lease_def read_lease_def by (rule moves_keeps, (rule keeps_bindM keeps_basic keeps_option)+)
  show "moves (evolves P) (on_db (assert_table_lease tb now))"
    unfolding assert_table_lease_def by (rule moves_keeps, (rule keeps_bindM keeps_basic)+)
  show "moves (evolves P) (on_db (get_committed_table_batch lz i))"
    unfolding get_committed_table_batch_def by (rule moves_keeps, (rule keeps_bindM keeps_basic keeps_option)+)
qed

section \<open>The whole run, step by step\<close>

text \<open>The commits a request may make.\<close>

definition request_commit :: "ingestion_request \<Rightarrow> table_commit \<Rightarrow> bool" where
  "request_commit q c \<longleftrightarrow> table_commit_check c = Inr () \<and> cursor_ok (obj_watermark_after (tc_object c)) \<and>
     obj_table_batch_id (tc_object c) = req_batch_id q @ ''__'' @ req_source_table q \<and>
     run_batch_id (tc_run c) = req_batch_id q \<and> run_source_table (tc_run c) = req_source_table q \<and>
     run_pipeline_name (tc_run c) = resolved_pipeline_name q"

lemma those_length: "those xs = Some ys \<Longrightarrow> length ys = length xs"
  by (induction xs arbitrary: ys) (auto split: option.splits)

lemma make_cursor_cursor_ok: "make_cursor t vs = Inr c \<Longrightarrow> cursor_ok c"
  unfolding make_cursor_def cursor_ok_def
  by (auto split: option.splits sum.splits if_splits dest: those_length)

lemma open_snapshot_ok:
  assumes "open_snapshot env cfg prior n = Inr snap"
  shows "\<exists>rows. ie_source env = Inr rows \<and> snap_rows snap = rows \<and> snap_config snap = cfg \<and>
      snap_watermark_before snap = prior \<and> 0 < snap_page_size snap \<and>
      fetch_upper_bound cfg rows prior = Inr (snap_extract_upper_bound snap)"
  using assms unfolding open_snapshot_def open_table_snapshot_def seq_def require_def
  by (auto split: sum.splits option.splits if_splits)

lemma open_snapshot_cursor_ok:
  assumes "open_snapshot env cfg prior n = Inr snap" "snap_extract_upper_bound snap = Some u"
  shows "cursor_ok u"
  using open_snapshot_ok [OF assms(1)] assms(2)
  by (auto simp: fetch_upper_bound_def selected_cursor_def row_cursor_def dest: make_cursor_cursor_ok
      split: option.splits sum.splits)

lemma moves_create_file: "moves (evolves P) (create_file path)"
  unfolding create_file_def by (rule moves_outside) simp

lemma moves_open_bronze: "moves (evolves P) (open_bronze_writer cfg c)"
  unfolding open_bronze_writer_def Let_def by (rule evolution.basic evolution.bind moves_create_file)+

lemma moves_open_quarantine: "moves (evolves P) (open_quarantine_writer cfg c)"
  unfolding open_quarantine_writer_def Let_def by (rule evolution.basic evolution.bind moves_create_file)+

lemma moves_quarantine_rejects: "moves (evolves P) (quarantine_rejects env cfg c rejs qw)"
  unfolding quarantine_rejects_def
  by (rule evolution.basic evolution.bind evolution.branch evolution.option evolution.pair moves_open_quarantine)+

lemma moves_write_page: "moves (evolves P) (write_page env q cfg c page ws)"
  unfolding write_page_def Let_def
  by (rule evolution.basic evolution.bind evolution.pair moves_quarantine_rejects)+

lemma moves_write_pages: "moves (evolves P) (write_pages env q cfg c ps ws)"
  by (induction ps arbitrary: ws) (auto intro!: evolution.basic evolution.bind moves_write_page)

lemma moves_write_local: "moves (evolves P) (write_local_artifacts env snap upper q run cfg now)"
  unfolding write_local_artifacts_def Let_def
  by (rule evolution.basic evolution.bind evolution.pair evolution.option moves_open_bronze moves_write_pages moves_raise)+

lemma moves_publish: "moves (evolves P) (publish_quarantine env q run cfg a now)"
  unfolding publish_quarantine_def Let_def
  by (rule evolution.basic evolution.bind evolution.pair evolution.option moves_outside)+

lemma moves_upload: "moves (evolves P) (upload_and_verify_bronze env q run cfg a now)"
  unfolding upload_and_verify_bronze_def Let_def
  by (rule evolution.basic evolution.bind evolution.pair evolution.option moves_outside)+

lemma upload_object:
  assumes "upload_and_verify_bronze env q run cfg a now pf = (Inr ob, pf')"
  shows "obj_table_batch_id ob = req_batch_id q @ ''__'' @ source_table cfg \<and>
    run_extract_upper_bound run = Some (obj_watermark_after ob) \<and> obj_row_count ob = int (ba_row_count a) \<and>
    obj_schema_version ob = schema_version cfg"
  using assms unfolding upload_and_verify_bronze_def
  by (auto simp: Let_def bindM_ok split: option.splits)

lemmas steps = evolution.basic evolution.bind evolution.pair evolution.option evolution.onerror evolution.cleanup
  evolution.suppress evolution.attempt evolution.branch evolution.sum moves_raise moves_at_point
  moves_check_heartbeat routine_events reads

lemma moves_prepare: "surroundings P env \<Longrightarrow> moves (evolves P) (prepare_commit env q cfg w sl tb snap upper run now)"
  unfolding prepare_commit_def Let_def by (assumption | rule steps moves_write_local moves_publish moves_upload)+

lemma moves_prestart: "surroundings P env \<Longrightarrow> moves (evolves P) (record_prestart_failure env q cfg w rid e now)"
  unfolding record_prestart_failure_def Let_def by (assumption | rule steps)+

lemma moves_no_masking: "surroundings P env \<Longrightarrow> moves (evolves P) (record_failure_without_masking env run e now)"
  unfolding record_failure_without_masking_def by (assumption | rule steps)+

lemma moves_reuse: "surroundings P env \<Longrightarrow> moves (evolves P) (reuse_or_reject_committed_batch env q cfg w b now)"
  unfolding reuse_or_reject_committed_batch_def Let_def by (assumption | rule steps)+

lemma moves_no_data: "surroundings P env \<Longrightarrow> moves (evolves P) (run_no_data env run now)"
  unfolding run_no_data_def by (assumption | rule steps)+

lemma moves_start: "surroundings P env \<Longrightarrow> moves (evolves P) (start_run env q cfg w rid now)"
  unfolding start_run_def Let_def by (assumption | rule steps)+

lemma moves_leases_failed: "surroundings P env \<Longrightarrow> moves (evolves P) (leases_failed env q cfg w a rid e now)"
  unfolding leases_failed_def by (assumption | rule steps moves_prestart)+

lemma moves_check_leases: "surroundings P env \<Longrightarrow> moves (evolves P) (check_leases env q cfg sl rid now)"
  unfolding check_leases_def by (assumption | rule steps)+


lemma keeps_s3_on_db: "keeps pf_s3 (on_db m)"
  by (simp add: keeps_def on_db_apply)

lemma beat_platform_s3 [simp]: "pf_s3 (beat_platform nows pf) = pf_s3 pf"
  by (simp add: beat_platform_def split: option.splits prod.splits)

lemma keeps_s3_pause: "keeps pf_s3 (pause env pt)"
  unfolding pause_def by (rule keeps_modifyM) simp

lemma keeps_s3_at_point: "keeps pf_s3 (at_point env pt m)"
  unfolding at_point_def
  by (rule keeps_bindM [OF keeps_s3_pause], cases "ie_fault env pt")
     (auto simp: raise_exn_def intro!: keeps_s3_on_db keeps_bindM keeps_basic)

lemma keeps_s3_check_heartbeat: "keeps pf_s3 (check_heartbeat env pt)"
  unfolding check_heartbeat_def
  by (rule keeps_bindM [OF keeps_s3_pause]) (auto simp: keeps_def split: option.splits)

text \<open>The stages of a preparation that returns.\<close>

lemma prepare_commitE:
  assumes "prepare_commit env q cfg w sl tb snap upper run now pf = (Inr (c, n), pf')"
  obtains la qb ob pf1 pf2 pf3 pf4 where
    "write_local_artifacts env snap upper q run cfg now pf = (Inr la, pf1)"
    "assert_reject_rate (int (la_extracted la)) (int (la_rejected la)) = Inr ()"
    "publish_quarantine env q run cfg (la_quarantine la) now pf2 = (Inr qb, pf3)"
    "upload_and_verify_bronze env q run cfg (la_bronze la) now pf3 = (Inr ob, pf4)"
    "c = \<lparr>tc_run = run, tc_object = ob, tc_expected_watermark = w, tc_rows_extracted = int (la_extracted la),
              tc_rows_valid = int (ba_row_count (la_bronze la)), tc_rows_rejected = int (la_rejected la),
              tc_rows_loaded = int (ba_row_count (la_bronze la)), tc_lease_owner = tl_owner_id tb,
              tc_quarantine = qb\<rparr>"
    "table_commit_check c = Inr ()" "n = la_corrupted la" "pf_s3 pf' = pf_s3 pf4"
  using assms unfolding prepare_commit_def Let_def
  by (simp add: bindM_ok) (elim exE conjE, rule that, assumption+,
      simp_all add: keepsD [OF keeps_s3_check_heartbeat] keepsD [OF keeps_s3_at_point])

lemma prepare_commit_ok:
  assumes "prepare_commit env q cfg w sl tb snap upper run now pf = (Inr (c, n), pf')"
    and "run = request_run q cfg rid (wm_cursor w) (Some upper)" "table_config (req_source_table q) = Inr cfg" "cursor_ok upper"
  shows "request_commit q c \<and> tc_run c = run \<and> obj_watermark_after (tc_object c) = upper"
  using assms(1)
proof (rule prepare_commitE)
  fix la qb ob pf3 pf4
  assume "upload_and_verify_bronze env q run cfg (la_bronze la) now pf3 = (Inr ob, pf4)"
    and "c = \<lparr>tc_run = run, tc_object = ob, tc_expected_watermark = w, tc_rows_extracted = int (la_extracted la),
              tc_rows_valid = int (ba_row_count (la_bronze la)), tc_rows_rejected = int (la_rejected la),
              tc_rows_loaded = int (ba_row_count (la_bronze la)), tc_lease_owner = tl_owner_id tb,
              tc_quarantine = qb\<rparr>" "table_commit_check c = Inr ()"
  with upload_object [OF this(1)] assms(2-4) table_config_ok(1) [OF assms(3)] show ?thesis
    by (simp add: request_commit_def request_run_def)
qed

definition commits_allowed :: "(db_event \<Rightarrow> bool) \<Rightarrow> ingestion_request \<Rightarrow> datetime \<Rightarrow> bool" where
  "commits_allowed P q now \<longleftrightarrow> (\<forall>c. request_commit q c \<longrightarrow> P (CommitRun c now))"

lemma moves_commit:
  assumes "surroundings P env" "commits_allowed P q now" "table_config (req_source_table q) = Inr cfg" "cursor_ok upper"
    and "run = request_run q cfg rid (wm_cursor w) (Some upper)"
  shows "moves (evolves P) (write_and_commit env q cfg w sl tb snap upper run now)"
  unfolding write_and_commit_def
proof (rule evolution.bind [OF moves_prepare [OF assms(1)]], rule evolution.pair, goal_cases)
  case (1 x s s' c n)
  then have "request_commit q c" using prepare_commit_ok assms by blast
  then have "P (CommitRun c now)" "event_ok (CommitRun c now)"
    using assms(2) by (auto simp: commits_allowed_def request_commit_def)
  then have "moves (evolves P) (on_db (commit_table_run c now))" by (rule moves_event) simp
  then show ?case by (intro evolution.bind moves_at_point [OF assms(1)] evolution.basic)
qed

lemma start_run_ok:
  assumes "start_run env q cfg w rid now pf = (Inr (snap, run), pf')"
  shows "open_snapshot env cfg (wm_cursor w) (req_page_size q) = Inr snap \<and>
    run = request_run q cfg rid (wm_cursor w) (snap_extract_upper_bound snap)"
  using assms unfolding start_run_def by (auto simp: Let_def bindM_ok)

lemma moves_started:
  assumes "surroundings P env" "commits_allowed P q now" "table_config (req_source_table q) = Inr cfg"
    and "start_run env q cfg w rid now pf = (Inr (snap, run), pf')"
  shows "moves (evolves P) (started_run env q cfg w sl tb snap run now)"
proof (cases "snap_extract_upper_bound snap")
  case None
  with moves_no_data [OF assms(1)] show ?thesis by (simp add: started_run_def)
next
  case (Some u)
  from start_run_ok [OF assms(4)] Some have s: "open_snapshot env cfg (wm_cursor w) (req_page_size q) = Inr snap"
      "run = request_run q cfg rid (wm_cursor w) (Some u)" by auto
  have "cursor_ok u" using open_snapshot_cursor_ok [OF s(1) Some] .
  from moves_commit [OF assms(1-3) this s(2)] Some show ?thesis
    by (simp add: started_run_def evolution.onerror moves_no_masking [OF assms(1)])
qed

lemma moves_body:
  assumes "surroundings P env" "commits_allowed P q now" "table_config (req_source_table q) = Inr cfg"
  shows "moves (evolves P) (snapshot_body env q cfg w sl tb rid now)"
  unfolding snapshot_body_def
proof (rule evolution.bind, rule evolution.attempt, rule moves_start [OF assms(1)], rule evolution.sum, rule evolution.basic,
    rule evolution.pair, rule evolution.bind, rule evolution.attempt)
  fix x s s' y snap run
  assume "attemptM (start_run env q cfg w rid now) s = (Inr x, s')" "x = Inr y" "y = (snap, run)"
  then have "start_run env q cfg w rid now s = (Inr (snap, run), s')"
    by (metis attemptM_apply prod.collapse prod.inject sum.inject(2))
  from moves_started [OF assms this] show "moves (evolves P) (started_run env q cfg w sl tb snap run now)" .
qed (rule evolution.basic)

lemma moves_with_heartbeat:
  assumes "surroundings P env" "moves (evolves P) body"
  shows "moves (evolves P) (with_heartbeat env sl tb body)"
  unfolding with_heartbeat_def
  by (rule evolution.bind moves_outside evolution.pair evolution.attempt moves_check_heartbeat evolution.basic assms | simp)+

lemma moves_leased:
  assumes "surroundings P env" "commits_allowed P q now" "table_config (req_source_table q) = Inr cfg"
  shows "moves (evolves P) (leased_run env q cfg w sl owned tb rid now)"
proof -
  have files: "moves (evolves P) (remove_local_artifacts cfg rid)"
    unfolding remove_local_artifacts_def by (rule moves_outside) simp
  have body: "moves (evolves P) (with_heartbeat env sl tb (snapshot_body env q cfg w sl tb rid now))"
    by (intro moves_with_heartbeat moves_body assms)
  show ?thesis
    unfolding leased_run_def
    by (rule evolution.cleanup evolution.bind body evolution.pair evolution.sum steps files moves_prestart assms)+
qed

lemma moves_new_run:
  assumes "surroundings P env" "commits_allowed P q now" "table_config (req_source_table q) = Inr cfg"
  shows "moves (evolves P) (new_run env q cfg w given rid now)"
  unfolding new_run_def
  by (rule evolution.bind evolution.option evolution.onerror steps moves_leases_failed moves_check_leases moves_leased assms)+

lemma moves_ingest:
  assumes "surroundings P env" "commits_allowed P q now"
  shows "moves (evolves P) (ingest_table env q now given)"
proof -
  have s: "moves (evolves P) (liftM r)" "moves (evolves P) (on_s3 m)" for r m
    by (rule evolution.basic moves_outside)+
  show ?thesis
    unfolding ingest_table_def Let_def
  proof (rule evolution.bind [OF s(1)], rule evolution.bind [OF s(1)], goal_cases)
    case (1 u s0 s0' cfg s1 s1')
    then have "table_config (req_source_table q) = Inr cfg" by simp
    then show ?case
      by (intro evolution.bind evolution.option evolution.basic moves_at_point routine_events [OF assms(1)] reads moves_outside
          moves_reuse moves_new_run assms)
  qed
qed

section \<open>Who moves a watermark\<close>

definition request_key :: "ingestion_request \<Rightarrow> string \<times> string" where
  "request_key q = (resolved_pipeline_name q, req_source_table q)"

definition request_batch :: "ingestion_request \<Rightarrow> string" where
  "request_batch q = req_batch_id q @ ''__'' @ req_source_table q"

text \<open>Transactions of other processes that leave the request's watermark alone.\<close>

definition foreign :: "ingestion_request \<Rightarrow> db_event \<Rightarrow> bool" where
  "foreign q e = (case e of
      Rewind p t _ _ _ _ \<Rightarrow> (p, t) \<noteq> request_key q
    | CommitRun c _ \<Rightarrow> expected_key c \<noteq> request_key q
    | ReconcileOrphan _ m _ \<Rightarrow> om_source_table m \<noteq> req_source_table q
    | _ \<Rightarrow> True)"

lemma routine_step:
  assumes "routine e" "db_inv db"
  shows "lease_like db (db_exec e db) \<or> run_effect db (db_exec e db)"
proof (cases e)
  case (GetWatermark p t now)
  obtain x db' where "get_or_create_watermark p t now db = (x, db')" by (cases "get_or_create_watermark p t now db")
  with get_or_create_lease_like [OF _ this] assms(2) GetWatermark show ?thesis by (simp add: db_inv_def)
next
  case (AcquireTable p t a now ttl)
  obtain x db' where "acquire_table_lease p t a now ttl db = (x, db')" by (cases "acquire_table_lease p t a now ttl db")
  with acquire_lease_like [OF assms(2) this] AcquireTable show ?thesis by simp
next
  case (RenewTable l now ttl)
  obtain x db' where "renew_table_lease l now ttl db = (x, db')" by (cases "renew_table_lease l now ttl db")
  with renew_lease_like [OF assms(2) this] RenewTable show ?thesis by simp
next
  case (ReleaseTable l now)
  obtain x db' where "release_table_lease l now db = (x, db')" by (cases "release_table_lease l now db")
  with release_lease_like [OF assms(2) this] ReleaseTable show ?thesis by simp
next
  case (StartRun run now)
  show ?thesis
    by (rule result_cases [of "record_started_run run now" db])
       (use metadata_err(4) started_effect [OF _ assms(2)] StartRun in fastforce)+
next
  case (FailRun run et em now)
  show ?thesis
    by (rule result_cases [of "record_failed_run run et em now" db])
       (use metadata_err(1) run_ended_effect record_failed_run_ok [OF _ assms(2)] FailRun in fastforce)+
next
  case (NoDataRun run now)
  show ?thesis
    by (rule result_cases [of "record_success_no_data_run run now" db])
       (use metadata_err(2) run_ended_effect record_success_no_data_run_ok [OF _ assms(2)] NoDataRun in fastforce)+
next
  case (SkipRun run n now)
  show ?thesis
    by (rule result_cases [of "record_skipped_already_committed_run run n now" db])
       (use metadata_err(3) run_ended_effect record_skipped_already_committed_run_ok [OF _ assms(2)] SkipRun in fastforce)+
next
  case (SourceLeaseEvent le)
  then show ?thesis using ingestion_tables_lease_like [OF lease_step_tables] by simp
qed (use assms(1) in \<open>simp_all add: routine_def\<close>)

lemma run_effect_cursor: "run_effect db db' \<Longrightarrow> watermark_cursor k db' = watermark_cursor k db"
  by (simp add: run_effect_def watermark_cursor_def register_view_def)

lemma foreign_step:
  assumes "foreign q e" "db_inv db"
  shows "watermark_cursor (request_key q) (step_of e db) = watermark_cursor (request_key q) db"
proof (cases "event_ok e")
  case False
  then show ?thesis by (simp add: step_of_def)
next
  case ok: True
  show ?thesis
  proof (cases "routine e")
    case True
    have "watermark_cursor (request_key q) (db_exec e db) = watermark_cursor (request_key q) db"
      using routine_step [OF True assms(2)] by (blast intro: lease_like_watermark(1) run_effect_cursor)
    with ok show ?thesis by (simp add: step_of_def)
  next
    case False
    then consider (rewind) p t a v c now where "e = Rewind p t a v c now"
      | (commit) c now where "e = CommitRun c now" | (orphan) cand m now where "e = ReconcileOrphan cand m now"
      by (cases e) (auto simp: routine_def)
    then show ?thesis
    proof cases
      case rewind
      show ?thesis
      proof (rule result_cases [of "rewind_watermark p t a v c now" db])
        fix x s' assume "rewind_watermark p t a v c now db = (Inl x, s')"
        with metadata_err(6) [OF this] ok rewind show ?thesis by (simp add: step_of_def)
      next
        fix w s' assume r: "rewind_watermark p t a v c now db = (Inr w, s')"
        have "rewind_effect (p, t) c db s'" using rewind_step_effect [OF r assms(2)] ok rewind by simp
        then obtain r' where "map_of (watermarks s') = (map_of (watermarks db))((p, t) \<mapsto> r')"
          unfolding rewind_effect_def by blast
        with r rewind ok assms(1) show ?thesis by (simp add: step_of_def watermark_upd foreign_def)
      qed
    next
      case commit
      show ?thesis
      proof (rule result_cases [of "commit_table_run c now" db])
        fix x s' assume "commit_table_run c now db = (Inl x, s')"
        with metadata_err(5) [OF this] ok commit show ?thesis by (simp add: step_of_def)
      next
        fix w s' assume r: "commit_table_run c now db = (Inr w, s')"
        have "commit_effect c (instant now) db s'" using commit_table_run_ok [OF r assms(2)] ok commit by simp
        then obtain r' where "map_of (watermarks s') = (map_of (watermarks db))(expected_key c \<mapsto> r')"
          unfolding commit_effect_def by blast
        with r commit ok assms(1) show ?thesis by (simp add: step_of_def watermark_upd foreign_def)
      qed
    next
      case orphan
      let ?m = "bindM (liftM (reconciliation_now now)) (\<lambda>t. transactionM (reconcile_tx cand m t))"
      show ?thesis
      proof (rule result_cases [of ?m db])
        fix x s' assume x: "?m db = (Inl x, s')"
        then have "s' = db" by (auto simp: bindM_err transactionM_err)
        with x ok orphan show ?thesis by (simp add: step_of_def)
      next
        fix w s' assume r: "?m db = (Inr w, s')"
        then obtain t where "reconcile_tx cand m t db = (Inr w, s')" by (auto simp: bindM_ok transactionM_ok)
        from reconcile_tx_ok [OF this assms(2)] ok orphan obtain p r' where
          "map_of (watermarks s') = (map_of (watermarks db))((p, om_source_table m) \<mapsto> r')"
          unfolding reconcile_effect_def by auto
        with r orphan ok assms(1) show ?thesis
          by (simp add: step_of_def watermark_upd foreign_def request_key_def)
      qed
    qed
  qed
qed

lemma effect_keeps_row: "step_effect db db' \<Longrightarrow> map_of (bronze_objects db) b = Some row \<Longrightarrow> map_of (bronze_objects db') b = Some row"
  using effect_bronze [of db db'] by (auto simp: map_add_def)

text \<open>The trace of a request: foreign steps and its own commits.\<close>

definition of_request :: "ingestion_request \<Rightarrow> datetime \<Rightarrow> db_event \<Rightarrow> bool" where
  "of_request q now e \<longleftrightarrow> foreign q e \<or> (\<exists>c. e = CommitRun c now \<and> request_commit q c)"

definition committed_range :: "ingestion_request \<Rightarrow> pipeline_db \<Rightarrow> pipeline_db \<Rightarrow> bronze_row \<Rightarrow> bool" where
  "committed_range q db db' row \<longleftrightarrow> map_of (bronze_objects db) (request_batch q) = None \<and>
     map_of (bronze_objects db') (request_batch q) = Some row \<and> br_status row = COMMITTED \<and>
     br_batch_id row = req_batch_id q \<and> br_source_table row = req_source_table q \<and>
     br_watermark_before row = as_metadata_json (watermark_cursor (request_key q) db) \<and>
     br_watermark_after row = as_metadata_json (watermark_cursor (request_key q) db')"

lemma request_history:
  assumes "db_inv db" "list_all (of_request q now) es"
  shows "db_inv (fold step_of es db) \<and>
    (watermark_cursor (request_key q) (fold step_of es db) = watermark_cursor (request_key q) db \<or>
     (\<exists>row. committed_range q db (fold step_of es db) row))"
  using assms(2)
proof (induction es rule: rev_induct)
  case Nil
  then show ?case using assms(1) by simp
next
  case (snoc e es)
  let ?d = "fold step_of es db" and ?k = "request_key q"
  from snoc have d: "db_inv ?d" and IH: "watermark_cursor ?k ?d = watermark_cursor ?k db \<or>
     (\<exists>row. committed_range q db ?d row)" by auto
  note eff = step_of_effect [OF d, of e]
  have "watermark_cursor ?k (step_of e ?d) = watermark_cursor ?k db \<or> (\<exists>row. committed_range q db (step_of e ?d) row)"
  proof (cases "watermark_cursor ?k (step_of e ?d) = watermark_cursor ?k ?d")
    case True
    with IH effect_keeps_row [of ?d "step_of e ?d"] eff show ?thesis by (fastforce simp: committed_range_def)
  next
    case False
    with foreign_step [OF _ d] snoc.prems obtain c where c: "e = CommitRun c now" "request_commit q c"
      by (auto simp: of_request_def)
    then have ok: "event_ok e" by (simp add: request_commit_def)
    with False c metadata_err(5) [of c now ?d] obtain u s' where r: "commit_table_run c now ?d = (Inr u, s')"
      by (cases "commit_table_run c now ?d"; cases "fst (commit_table_run c now ?d)") (auto simp: step_of_def)
    then have s': "s' = step_of e ?d" using c ok by (simp add: step_of_def)
    have "commit_effect c (instant now) ?d s'" using commit_table_run_ok [OF r d] c by (simp add: request_commit_def)
    then obtain x where x: "map_of (watermarks ?d) (expected_key c) = Some x"
        "\<lparr>cp_timestamp = wr_timestamp x, cp_keys = wr_keys x\<rparr> = wm_cursor (tc_expected_watermark c)"
        "map_of (watermarks s') = (map_of (watermarks ?d))(expected_key c \<mapsto> advanced_row c (instant now) x)"
        "map_of (bronze_objects ?d) (obj_table_batch_id (tc_object c)) = None"
        "bronze_objects s' = bronze_objects ?d @ [(obj_table_batch_id (tc_object c), committed_row c (instant now))]"
      unfolding commit_effect_def by blast
    have key: "expected_key c = ?k" and tb: "obj_table_batch_id (tc_object c) = request_batch q"
        "run_watermark_before (tc_run c) = wm_cursor (tc_expected_watermark c)"
      using c(2) by (auto simp: request_commit_def expected_key_def request_key_def request_batch_def
          table_commit_check_def Let_def)
    have none: "map_of (bronze_objects ?d) (request_batch q) = None" using x(4) tb by simp
    then have same: "watermark_cursor ?k ?d = watermark_cursor ?k db" using IH by (auto simp: committed_range_def)
    obtain rows where "bronze_objects ?d = bronze_objects db @ rows" using run_bronze [OF assms(1)] by blast
    then have "map_of (bronze_objects db) (request_batch q) = None" using none by (simp add: map_add_def split: option.splits)
    moreover have "watermark_cursor ?k s' = obj_watermark_after (tc_object c)"
      using x(3) key by (simp add: watermark_upd advanced_row_def)
    moreover have "watermark_cursor ?k ?d = wm_cursor (tc_expected_watermark c)"
      using x(1,2) key by (simp add: watermark_at)
    moreover have "map_of (bronze_objects s') (request_batch q) = Some (committed_row c (instant now))"
      using x(5) none tb by simp
    ultimately have "committed_range q db s' (committed_row c (instant now))"
      using same tb(2) c(2) by (simp add: committed_range_def committed_row_def Let_def request_commit_def)
    then show ?thesis using s' by blast
  qed
  then show ?case using eff by simp
qed

lemma surroundings_request:
  assumes "\<And>pt. list_all (foreign q) (ie_others env pt)"
  shows "surroundings (of_request q now) env" "commits_allowed (of_request q now) q now"
proof -
  have "routine e \<Longrightarrow> foreign q e" for e by (simp add: routine_def foreign_def split: db_event.splits)
  moreover have "list_all (of_request q now) (ie_others env pt)" for pt
    using assms [of pt] by (auto simp: list_all_iff of_request_def)
  ultimately show "surroundings (of_request q now) env" by (auto simp: surroundings_def of_request_def)
  show "commits_allowed (of_request q now) q now" by (auto simp: commits_allowed_def of_request_def)
qed

lemma ingest_watermark:
  assumes "db_inv (pf_db pf)" "\<And>pt. list_all (foreign q) (ie_others env pt)" "ingest_table env q now given pf = (r, pf')"
  shows "db_inv (pf_db pf') \<and>
    (watermark_cursor (request_key q) (pf_db pf') = watermark_cursor (request_key q) (pf_db pf) \<or>
     (\<exists>row. committed_range q (pf_db pf) (pf_db pf') row))"
proof -
  from movesD [OF moves_ingest [OF surroundings_request [OF assms(2)]] assms(3)]
  obtain es where "list_all (of_request q now) es" "pf_db pf' = fold step_of es (pf_db pf)"
    unfolding evolves_def by blast
  with request_history [OF assms(1)] show ?thesis by simp
qed

end
