(* ===== verification/IngestOutcome.thy ===== *)
theory IngestOutcome
  imports IngestTrace
begin

text \<open>
  What the results of \<open>ingest_table\<close> stand for, status by status: the stages a returning run
  has been through, the rows its object holds, and what is left behind when it fails.
\<close>

section \<open>Runs that return\<close>

lemma with_heartbeat_ok:
  assumes "with_heartbeat env sl tb body pf = (Inr (st, Inr x), pf')"
  obtains pf1 pf2 where "body (pf\<lparr>pf_heartbeat := Some (start_heartbeat sl (Some tb))\<rparr>) = (Inr (st, Inr x), pf1)"
    "check_heartbeat env LeaveHeartbeat pf1 = (Inr (), pf2)" "pf' = pf2\<lparr>pf_heartbeat := None\<rparr>"
proof -
  let ?s = "pf\<lparr>pf_heartbeat := Some (start_heartbeat sl (Some tb))\<rparr>"
  from assms obtain st' r pf1 where b: "body ?s = (Inr (st', r), pf1)"
    unfolding with_heartbeat_def by (auto simp: bindM_ok)
  obtain h pf2 where h: "check_heartbeat env LeaveHeartbeat pf1 = (h, pf2)" by (cases "check_heartbeat env LeaveHeartbeat pf1")
  from assms b h have "st' = st" "(case h of Inl e \<Rightarrow> Inl e | Inr _ \<Rightarrow> r) = Inr x" "pf' = pf2\<lparr>pf_heartbeat := None\<rparr>"
    unfolding with_heartbeat_def by (auto simp: bindM_ok)
  moreover from this(2) have "r = Inr x" "h = Inr ()" by (cases h; simp)+
  ultimately show thesis using b h that by simp
qed

lemma snapshot_body_ok:
  assumes "snapshot_body env q cfg w sl tb rid now pf = (Inr (st, Inr x), pf')"
  obtains snap run pf1 where "start_run env q cfg w rid now pf = (Inr (snap, run), pf1)"
    "started_run env q cfg w sl tb snap run now pf1 = (Inr x, pf')"
proof -
  obtain r pf1 where s: "start_run env q cfg w rid now pf = (r, pf1)" by (cases "start_run env q cfg w rid now pf")
  show thesis
  proof (cases r)
    case (Inl e)
    with assms s show thesis by (simp add: snapshot_body_def bindM_def)
  next
    case (Inr y)
    obtain snap run where y: "y = (snap, run)" by (cases y)
    obtain r' pf2 where t: "started_run env q cfg w sl tb snap run now pf1 = (r', pf2)"
      by (cases "started_run env q cfg w sl tb snap run now pf1")
    from assms s Inr y t have "r' = Inr x" "pf2 = pf'" by (simp_all add: snapshot_body_def bindM_def)
    with s Inr y t that show thesis by simp
  qed
qed

text \<open>The tail of a run: the heartbeat's end, the local files, the leases.\<close>

definition run_tail :: "'s ingest_env \<Rightarrow> 's platform \<Rightarrow> 's platform \<Rightarrow> bool" where
  "run_tail env pf pf' \<longleftrightarrow> pf_s3 pf' = pf_s3 pf \<and> (\<forall>P. surroundings P env \<longrightarrow> evolves P pf pf')"

lemma leased_run_ok:
  assumes "leased_run env q cfg w sl owned tb rid now pf = (Inr x, pf')"
  obtains snap run pf1 pf2 where
    "start_run env q cfg w rid now (pf\<lparr>pf_heartbeat := Some (start_heartbeat sl (Some tb))\<rparr>) = (Inr (snap, run), pf1)"
    "started_run env q cfg w sl tb snap run now pf1 = (Inr x, pf2)" "run_tail env pf2 pf'"
proof -
  let ?tail = "bindM (remove_local_artifacts cfg rid) (\<lambda>_.
        bindM (suppressM (at_point env ReleaseTableLease (release_table_lease tb now))) (\<lambda>_.
        if owned then suppressM (at_point env ReleaseSource (release_source_mutation_lease sl now)) else returnM ()))"
  from assms obtain st r pf3 pf4 u where w: "with_heartbeat env sl tb (snapshot_body env q cfg w sl tb rid now) pf = (Inr (st, r), pf3)"
      "(case r of Inr x \<Rightarrow> returnM x
        | Inl e \<Rightarrow> bindM (if st then returnM () else record_prestart_failure env q cfg w rid e now) (\<lambda>_. raise_exn e)) pf3 = (Inr x, pf4)"
      and tail: "?tail pf4 = (Inr u, pf')"
    unfolding leased_run_def by (auto simp: finallyM_ok bindM_ok)
  from w(2) have r: "r = Inr x" "pf4 = pf3"
    by (auto simp: raise_exn_def bindM_ok split: sum.splits)
  from with_heartbeat_ok [OF w(1) [unfolded r(1)]] obtain pf1 pf2 where b:
    "snapshot_body env q cfg w sl tb rid now (pf\<lparr>pf_heartbeat := Some (start_heartbeat sl (Some tb))\<rparr>) = (Inr (st, Inr x), pf1)"
    "check_heartbeat env LeaveHeartbeat pf1 = (Inr (), pf2)" "pf3 = pf2\<lparr>pf_heartbeat := None\<rparr>" .
  have "pf_s3 pf2 = pf_s3 pf1" using keepsD [OF keeps_s3_check_heartbeat b(2)] .
  moreover have "keeps pf_s3 ?tail"
    by (rule keeps_bindM keeps_suppressM keeps_s3_at_point keeps_if keeps_basic keeps_modifyM | simp add: remove_local_artifacts_def)+
  then have "pf_s3 pf' = pf_s3 pf3" using keepsD tail r(2) by metis
  ultimately have "pf_s3 pf' = pf_s3 pf1" using b(3) by simp
  moreover have "evolves P pf1 pf'" if P: "surroundings P env" for P
  proof -
    have "moves (evolves P) ?tail"
      by (rule evolution.bind evolution.suppress evolution.branch evolution.basic moves_at_point routine_events P moves_outside
          | simp add: remove_local_artifacts_def)+
    then have "evolves P pf3 pf'" using movesD tail r(2) by metis
    moreover have "evolves P pf1 pf2" using movesD [OF moves_check_heartbeat [OF P] b(2)] .
    moreover have "evolves P pf2 pf3" by (rule evolves_same) (simp add: b(3))
    ultimately show ?thesis using evolves_trans by metis
  qed
  ultimately have "run_tail env pf1 pf'" by (simp add: run_tail_def)
  with snapshot_body_ok [OF b(1)] that show thesis by metis
qed

lemma new_run_ok:
  assumes "new_run env q cfg w given rid now pf = (Inr x, pf')"
  obtains sl tb owned pf1 where "leased_run env q cfg w sl owned tb rid now pf1 = (Inr x, pf')"
    "lease_owner_type sl = WAREHOUSE_OWNER_TYPE" "\<And>P. surroundings P env \<Longrightarrow> evolves P pf pf1"
proof -
  let ?acquire = "case given of
         Some sl \<Rightarrow> returnM sl
       | None \<Rightarrow> onerrorM
           (at_point env AcquireSource (acquire_source_mutation_lease WAREHOUSE_OWNER_TYPE rid now DEFAULT_LEASE_TTL))
           (\<lambda>e. leases_failed env q cfg w None rid e now)"
  from assms obtain sl s tb s' where 1: "?acquire pf = (Inr sl, s)"
    and 2: "check_leases env q cfg sl rid now s = (Inr tb, s')"
    and 3: "leased_run env q cfg w sl (given = None) tb rid now s' = (Inr x, pf')"
    unfolding new_run_def by (auto simp: bindM_ok onerrorM_ok)
  have "evolves P pf s'" if P: "surroundings P env" for P
  proof -
    have "moves (evolves P) ?acquire"
      by (rule evolution.option evolution.onerror steps moves_leases_failed P)+
    from movesD [OF this 1] movesD [OF moves_check_leases [OF P] 2] show ?thesis by (rule evolves_trans)
  qed
  moreover have "lease_owner_type sl = WAREHOUSE_OWNER_TYPE"
    using 2 by (auto simp: check_leases_def bindM_ok)
  ultimately show thesis using 3 that by blast
qed

lemma reuse_status:
  assumes "reuse_or_reject_committed_batch env q cfg w b now pf = (Inr x, pf')"
  shows "res_status x = ''SKIPPED_ALREADY_COMMITTED'' \<and> assert_reusable_table_batch b w (schema_version cfg) = Inr ()"
  using assms unfolding reuse_or_reject_committed_batch_def
  by (auto simp: Let_def bindM_ok raise_exn_def split: sum.splits)

text \<open>What a run that returns has done, by its status.\<close>

lemma ingest_outcome:
  assumes "ingest_table env q now given pf = (Inr x, pf')"
  obtains (skipped) cfg w b pf1 where "res_status x = ''SKIPPED_ALREADY_COMMITTED''" "table_config (req_source_table q) = Inr cfg"
      "reuse_or_reject_committed_batch env q cfg w b now pf1 = (Inr x, pf')"
  | (ran) cfg w sl tb rid snap run pf1 pf2 pf3 where "table_config (req_source_table q) = Inr cfg"
      "start_run env q cfg w rid now pf1 = (Inr (snap, run), pf2)"
      "started_run env q cfg w sl tb snap run now pf2 = (Inr x, pf3)" "run_tail env pf3 pf'"
      "\<And>P. surroundings P env \<Longrightarrow> evolves P pf pf2"
proof -
  let ?rid = "case req_run_id q of Some u \<Rightarrow> u | None \<Rightarrow> ie_fresh_run_id env"
  from assms obtain cfg w identity existing s1 s2 pf1 where c: "table_config (req_source_table q) = Inr cfg"
    "on_s3 (ensure_bucket (ie_s3 env)) pf = (Inr (), s1)"
    "at_point env ReadWatermark (get_or_create_watermark (resolved_pipeline_name q) (source_table cfg) now) s1 = (Inr w, s2)"
    "at_point env FindBatch (get_committed_table_batch (ie_local_offset env) identity) s2 = (Inr existing, pf1)"
    "(case existing of Some b \<Rightarrow> reuse_or_reject_committed_batch env q cfg w b now
      | None \<Rightarrow> new_run env q cfg w given ?rid now) pf1 = (Inr x, pf')"
    unfolding ingest_table_def Let_def by (auto simp: bindM_ok)
  have pf1: "evolves P pf pf1" if P: "surroundings P env" for P
  proof -
    have "evolves P pf s1" using movesD [OF moves_outside(1) c(2)] .
    moreover have "evolves P s1 s2" using movesD [OF moves_at_point [OF P routine_events(1) [OF P]] c(3)] .
    moreover have "evolves P s2 pf1" using movesD [OF moves_at_point [OF P reads(3)] c(4)] .
    ultimately show ?thesis using evolves_trans by metis
  qed
  show thesis
  proof (cases existing)
    case None
    with c(5) have "new_run env q cfg w given ?rid now pf1 = (Inr x, pf')" by simp
    then obtain sl tb owned s where l: "leased_run env q cfg w sl owned tb ?rid now s = (Inr x, pf')"
      and "lease_owner_type sl = WAREHOUSE_OWNER_TYPE" and s: "\<And>P. surroundings P env \<Longrightarrow> evolves P pf1 s"
      by (rule new_run_ok) (rule that)
    from l show thesis
    proof (rule leased_run_ok)
      fix snap run pf2 pf3
      let ?s = "s\<lparr>pf_heartbeat := Some (start_heartbeat sl (Some tb))\<rparr>"
      assume r: "start_run env q cfg w ?rid now ?s = (Inr (snap, run), pf2)"
        "started_run env q cfg w sl tb snap run now pf2 = (Inr x, pf3)" "run_tail env pf3 pf'"
      have "evolves P pf pf2" if P: "surroundings P env" for P
      proof -
        have "evolves P s ?s" by (rule evolves_same) simp
        then show ?thesis using pf1 [OF P] s [OF P] movesD [OF moves_start [OF P] r(1)] evolves_trans by metis
      qed
      with r show thesis by (rule ran [OF c(1)])
    qed
  next
    case (Some b)
    with c reuse_status [of env q cfg w b now pf1 x pf'] show thesis by (intro skipped) auto
  qed
qed

lemma started_run_success:
  assumes "started_run env q cfg w sl tb snap run now pf = (Inr x, pf')" "res_status x = ''SUCCESS''"
  obtains upper c n pf1 pf2 where "snap_extract_upper_bound snap = Some upper"
    "prepare_commit env q cfg w sl tb snap upper run now pf = (Inr (c, n), pf1)"
    "at_point env CommitPoint (commit_table_run c now) pf1 = (Inr (), pf')" "x = success_result c n"
proof (cases "snap_extract_upper_bound snap")
  case None
  with assms show thesis by (auto simp: started_run_def run_no_data_def plain_result_def bindM_ok)
next
  case (Some u)
  with assms(1) obtain c n pf1 where "prepare_commit env q cfg w sl tb snap u run now pf = (Inr (c, n), pf1)"
    "at_point env CommitPoint (commit_table_run c now) pf1 = (Inr (), pf')" "x = success_result c n"
    by (auto simp: started_run_def onerrorM_ok write_and_commit_def bindM_ok)
  with Some that show thesis by blast
qed

lemma at_point_ok:
  assumes "at_point env pt m pf = (Inr x, pf')"
  obtains pf1 where "pause env pt pf = (Inr (), pf1)" "m (pf_db pf1) = (Inr x, pf_db pf')" "pf_s3 pf' = pf_s3 pf"
proof -
  from assms obtain pf1 where p: "pause env pt pf = (Inr (), pf1)"
      "(case ie_fault env pt of NoFault \<Rightarrow> on_db m | Refused e \<Rightarrow> raise_exn e
        | LostReply e \<Rightarrow> bindM (on_db m) (\<lambda>_. raise_exn e)) pf1 = (Inr x, pf')"
    unfolding at_point_def by (auto simp: bindM_ok)
  then have "on_db m pf1 = (Inr x, pf')" by (auto simp: raise_exn_def bindM_ok split: fault.splits)
  then have "m (pf_db pf1) = (Inr x, pf_db pf')" by (auto simp: on_db_apply intro: prod_eqI)
  moreover have "pf_s3 pf' = pf_s3 pf" using keepsD [OF keeps_s3_at_point assms] .
  ultimately show thesis using p(1) that by blast
qed

section \<open>What the page loop writes\<close>

text \<open>Arrow keeps one row per record, converted by \<open>conv\<close> under the schema.\<close>

definition arrow_laws :: "arrow_conversion \<Rightarrow> (arrow_field list \<Rightarrow> parquet_row \<Rightarrow> parquet_row) \<Rightarrow> bool" where
  "arrow_laws to_arrow conv \<longleftrightarrow> (\<forall>sch rs rs'. to_arrow sch rs = Inr rs' \<longrightarrow> rs' = map (conv sch) rs)"

definition committed_rows ::
    "(arrow_field list \<Rightarrow> parquet_row \<Rightarrow> parquet_row) \<Rightarrow> table_config \<Rightarrow> bronze_context \<Rightarrow> source_record list \<Rightarrow> parquet_row list" where
  "committed_rows conv cfg c rs = map (\<lambda>r. conv (bronze_schema cfg) (source_record_row c r)) rs"

text \<open>
  The state of the loop after the records \<open>all\<close>: \<open>good\<close> went to the Bronze file, \<open>bad\<close> to
  quarantine, and between them nothing was lost.
\<close>

definition write_inv ::
    "(arrow_field list \<Rightarrow> parquet_row \<Rightarrow> parquet_row) \<Rightarrow> table_config \<Rightarrow> bronze_context \<Rightarrow>
     source_record list \<Rightarrow> source_record list \<Rightarrow> source_record list \<Rightarrow> write_state \<Rightarrow> bool" where
  "write_inv conv cfg c all good bad ws \<longleftrightarrow>
     mset good + mset bad = mset all \<and> ws_extracted ws = length all \<and> ws_rejected ws = length bad \<and>
     (\<exists>name. table_config name = Inr cfg) \<and> bw_config (ws_bronze ws) = cfg \<and> bw_context (ws_bronze ws) = c \<and>
     bw_rows (ws_bronze ws) = committed_rows conv cfg c good \<and> bw_row_count (ws_bronze ws) = length good \<and>
     vp_config (ws_validation ws) = cfg \<and>
     distinct (map (\<lambda>r. primary_key_of cfg (rec_values r)) good) \<and>
     (\<forall>r \<in> set good. row_conforms cfg (rec_values r) \<and>
        primary_key_of cfg (rec_values r) \<in> set (seen_primary_keys (ws_validation ws))) \<and>
     (case ws_quarantine ws of None \<Rightarrow> bad = [] | Some w \<Rightarrow> length (qw_rows w) = length bad)"

lemma call_ok: "call m w = Inr (x, w') \<longleftrightarrow> m w = (Inr x, w')"
  by (auto simp: call_def split: prod.splits sum.splits)

lemma note_keys_mono: "set (seen_primary_keys vp) \<subseteq> set (seen_primary_keys (note_keys vp rs))"
  by (induction rs arbitrary: vp) (use note_key_simps(5) in \<open>fastforce simp: note_keys_def\<close>)+

lemma arrow_lawsD: "arrow_laws to_arrow conv \<Longrightarrow> to_arrow sch (map f rs) = Inr rs' \<Longrightarrow> rs' = map (\<lambda>r. conv sch (f r)) rs"
  by (fastforce simp: arrow_laws_def)

lemma write_records_rows:
  assumes "arrow_laws to_arrow conv" "write_records to_arrow rs w = (Inr u, w')"
  shows "bw_rows w' = bw_rows w @ committed_rows conv (bw_config w) (bw_context w) rs \<and>
    bw_row_count w' = bw_row_count w + length rs \<and> bw_config w' = bw_config w \<and> bw_context w' = bw_context w"
  using assms(2) by (auto simp: write_records_def bindM_ok committed_rows_def dest!: arrow_lawsD [OF assms(1)] split: if_splits)

lemma quarantine_rejects_ok:
  assumes "quarantine_rejects env cfg c rejs qw pf = (Inr qw', pf')"
    and "case qw of None \<Rightarrow> n = 0 | Some w \<Rightarrow> length (qw_rows w) = n"
  shows "case qw' of None \<Rightarrow> n + length rejs = 0 | Some w \<Rightarrow> length (qw_rows w) = n + length rejs"
proof (cases "rejs = []")
  case True
  with assms show ?thesis by (auto simp: quarantine_rejects_def split: option.splits)
next
  case False
  from assms(1) False obtain w w' s where w: "(case qw of Some w \<Rightarrow> returnM w | None \<Rightarrow> open_quarantine_writer cfg c) pf = (Inr w, s)"
      "write_rejected_records (ie_local_offset env) (ie_uuid5 env) rejs w = (Inr (), w')" "qw' = Some w'"
    by (auto simp: quarantine_rejects_def bindM_ok call_ok)
  have "length (qw_rows w) = n"
    using w(1) assms(2) by (cases qw) (auto simp: open_quarantine_writer_def Let_def bindM_ok new_quarantine_writer_def)
  moreover have "length (qw_rows w') = length (qw_rows w) + length rejs"
    using w(2) False by (auto simp: write_rejected_records_def bindM_ok results_ok dest: arg_cong [where f = length])
  ultimately show ?thesis using w(3) by simp
qed

lemma write_page_ok:
  assumes "write_page env q cfg qc page ws pf = (Inr ws', pf')" "arrow_laws (ie_to_arrow env) conv"
    and "write_inv conv cfg c all good bad ws" "req_corruption_plan q = None"
  shows "\<exists>good' bad'. write_inv conv cfg c (all @ page_records page) good' bad' ws'"
proof -
  obtain name where name: "table_config name = Inr cfg" using assms(3) by (auto simp: write_inv_def)
  from assms(1,4) obtain broken validated vp bw qw s where
    v: "validate_page \<lparr>page_records = page_records page, page_lower_bound = page_lower_bound page,
          page_extract_upper_bound = page_extract_upper_bound page\<rparr> broken (ws_validation ws) = (Inr validated, vp)"
    and b: "write_records (ie_to_arrow env) (valid_records validated) (ws_bronze ws) = (Inr (), bw)"
    and r: "quarantine_rejects env cfg qc (rejected_records validated) (ws_quarantine ws) s = (Inr qw, pf')"
    and ws': "ws' = \<lparr>ws_bronze = bw, ws_quarantine = qw, ws_validation = vp,
       ws_extracted = ws_extracted ws + length (page_records page),
       ws_rejected = ws_rejected ws + length (rejected_records validated),
       ws_corrupted = ws_corrupted ws\<rparr>"
    unfolding write_page_def by (auto simp: Let_def bindM_ok inject_corruption_def call_ok)
  let ?vp = "ws_validation ws" and ?rs = "page_records page"
  have cfg: "vp_config ?vp = cfg" using assms(3) by (simp add: write_inv_def)
  from v have "validate_records ?rs broken ?vp = (Inr validated, vp)"
    by (auto simp: validate_page_def bindM_ok)
  from validate_records_ok [OF this, of name] cfg name have v':
    "vp = (note_keys ?vp ?rs)\<lparr>next_ordinal := next_ordinal ?vp + length ?rs\<rparr>"
    "valid_records validated = accepted ?vp broken ?rs"
    "map (\<lambda>x. (rej_record x, rej_ordinal x)) (rejected_records validated) = refused ?vp broken ?rs (next_ordinal ?vp)"
    by auto
  have rej: "map rej_record (rejected_records validated) = map fst (refused ?vp broken ?rs (next_ordinal ?vp))"
    using arg_cong [OF v'(3), of "map fst"] by (simp add: comp_def)
  define good' where "good' = good @ accepted ?vp broken ?rs"
  define bad' where "bad' = bad @ map fst (refused ?vp broken ?rs (next_ordinal ?vp))"
  have n: "length (rejected_records validated) = length (refused ?vp broken ?rs (next_ordinal ?vp))"
    using arg_cong [OF rej, of length] by simp
  note acc = accepted_ok [of ?vp broken ?rs, unfolded cfg]
  have old: "\<forall>r \<in> set good. primary_key_of cfg (rec_values r) \<in> set (seen_primary_keys ?vp)"
    using assms(3) by (simp add: write_inv_def)
  have keys: "\<forall>r \<in> set good'. primary_key_of cfg (rec_values r) \<in> set (seen_primary_keys vp)"
    using old note_keys_mono [of ?vp ?rs] accepted_keys_seen [of _ ?vp broken ?rs] cfg
    by (auto simp: good'_def v'(1))
  have d: "distinct (map (\<lambda>r. primary_key_of cfg (rec_values r)) good')"
    using assms(3) acc old by (auto simp: good'_def write_inv_def)
  have m: "mset good' + mset bad' = mset (all @ ?rs)"
    using assms(3) accepted_refused_mset [of ?vp broken ?rs "next_ordinal ?vp"]
    by (simp add: good'_def bad'_def write_inv_def ac_simps)
  have quar: "case qw of None \<Rightarrow> bad' = [] | Some w \<Rightarrow> length (qw_rows w) = length bad'"
  proof -
    have "case ws_quarantine ws of None \<Rightarrow> length bad = 0 | Some w \<Rightarrow> length (qw_rows w) = length bad"
      using assms(3) by (simp add: write_inv_def split: option.splits)
    from quarantine_rejects_ok [OF r this] n show ?thesis by (simp add: bad'_def split: option.splits)
  qed
  have conf: "\<forall>r \<in> set good'. row_conforms cfg (rec_values r)"
    using assms(3) acc by (auto simp: good'_def write_inv_def)
  have rows: "bw_rows bw = committed_rows conv cfg c good'" "bw_row_count bw = length good'"
      "bw_config bw = cfg" "bw_context bw = c"
    using write_records_rows [OF assms(2) b] assms(3)
    by (simp_all add: write_inv_def v'(2) good'_def committed_rows_def)
  have "length bad' = ws_rejected ws + length (rejected_records validated)"
    using assms(3) n by (simp add: bad'_def write_inv_def)
  with assms(3) d m quar conf rows keys name cfg have "write_inv conv cfg c (all @ ?rs) good' bad' ws'"
    by (simp add: write_inv_def ws' v'(1))
  then show ?thesis by blast
qed

lemma write_pages_ok:
  assumes "write_pages env q cfg qc ps ws pf = (Inr ws', pf')" "arrow_laws (ie_to_arrow env) conv"
    and "write_inv conv cfg c all good bad ws" "req_corruption_plan q = None"
  shows "\<exists>good' bad'. write_inv conv cfg c (all @ concat (map page_records ps)) good' bad' ws'"
  using assms(1,3)
proof (induction ps arbitrary: ws pf all good bad)
  case Nil
  then show ?case by auto
next
  case (Cons p ps)
  from Cons.prems(1) obtain ws1 pf1 where p: "write_page env q cfg qc p ws pf = (Inr ws1, pf1)"
    "write_pages env q cfg qc ps ws1 pf1 = (Inr ws', pf')" by (auto simp: bindM_ok)
  from write_page_ok [OF p(1) assms(2) Cons.prems(2) assms(4)] obtain g b where
    "write_inv conv cfg c (all @ page_records p) g b ws1" by blast
  from Cons.IH [OF p(2) this] show ?case by simp
qed

definition run_context :: "ingestion_request \<Rightarrow> uuid \<Rightarrow> datetime \<Rightarrow> bronze_context" where
  "run_context q rid now = \<lparr>bc_batch_id = req_batch_id q, bc_run_id = rid, bc_ingested_at = now,
     bc_source_table = req_source_table q, bc_schema_version = BRONZE_SCHEMA_VERSION\<rparr>"

text \<open>How a batch splits the rows of its range.\<close>

definition batch_split :: "table_config \<Rightarrow> source_record list \<Rightarrow> source_record list \<Rightarrow> source_record list \<Rightarrow> bool" where
  "batch_split cfg all good bad \<longleftrightarrow> mset good + mset bad = mset all \<and>
     distinct (map (\<lambda>r. primary_key_of cfg (rec_values r)) good) \<and> (\<forall>r \<in> set good. row_conforms cfg (rec_values r))"

lemma write_local_artifacts_ok:
  assumes "write_local_artifacts env snap upper q run cfg now pf = (Inr la, pf')"
    and "arrow_laws (ie_to_arrow env) conv" "req_corruption_plan q = None" "table_config (req_source_table q) = Inr cfg"
    and "snap_extract_upper_bound snap = Some upper" "snap_config snap = cfg" "source_rows_ok cfg (snap_rows snap)"
    and "0 < snap_page_size snap"
  shows "\<exists>good bad. batch_split cfg (map (row_record cfg)
        (extracted_rows cfg (snap_rows snap) (snap_watermark_before snap) upper)) good bad \<and>
      ba_rows (la_bronze la) = committed_rows conv cfg (run_context q (run_id run) now) good \<and>
      ba_row_count (la_bronze la) = length good \<and> la_rejected la = length bad \<and>
      la_extracted la = length good + length bad \<and>
      (case la_quarantine la of None \<Rightarrow> bad = [] | Some a \<Rightarrow> qa_row_count a = length bad)"
proof -
  let ?c = "run_context q (run_id run) now"
  have name: "source_table cfg = req_source_table q" using table_config_ok(1) [OF assms(4)] .
  obtain ps where ps: "pages snap = Some (ps, None)" "concat (map page_records ps) = map (row_record cfg)
        (extracted_rows cfg (snap_rows snap) (snap_watermark_before snap) upper)"
    using pages_from_complete [OF assms(4,7,8), of upper "snap_watermark_before snap"] assms(5,6) by (auto simp: pages_def)
  from assms(1) obtain bw pf1 ws where
    b: "open_bronze_writer cfg ?c pf = (Inr bw, pf1)" and
    w: "write_pages env q cfg \<lparr>qc_batch_id = req_batch_id q, qc_run_id = run_id run, qc_detected_at = now,
          qc_source_table = source_table cfg\<rparr> ps \<lparr>ws_bronze = bw, ws_quarantine = None,
               ws_validation = new_validation_pipeline cfg (snap_watermark_before snap) upper,
               ws_extracted = 0, ws_rejected = 0, ws_corrupted = 0\<rparr> pf1 = (Inr ws, pf')"
    and cl: "close_writers ws = Inr la"
    unfolding write_local_artifacts_def by (auto simp: Let_def bindM_ok ps(1) name run_context_def)
  have "bw_rows bw = [] \<and> bw_row_count bw = 0 \<and> bw_config bw = cfg \<and> bw_context bw = ?c"
    using b by (auto simp: open_bronze_writer_def Let_def bindM_ok new_bronze_writer_def split: if_splits)
  then have "write_inv conv cfg ?c [] [] [] \<lparr>ws_bronze = bw, ws_quarantine = None,
               ws_validation = new_validation_pipeline cfg (snap_watermark_before snap) upper,
               ws_extracted = 0, ws_rejected = 0, ws_corrupted = 0\<rparr>"
    using assms(4) by (auto simp: write_inv_def committed_rows_def new_validation_pipeline_def)
  from write_pages_ok [OF w assms(2) this assms(3)] ps(2) obtain good bad where
    inv: "write_inv conv cfg ?c (map (row_record cfg)
        (extracted_rows cfg (snap_rows snap) (snap_watermark_before snap) upper)) good bad ws" by auto
  have "length good + length bad = length (map (row_record cfg)
        (extracted_rows cfg (snap_rows snap) (snap_watermark_before snap) upper))"
    using inv unfolding write_inv_def by (metis size_mset size_union)
  with inv have e: "ws_extracted ws = length good + length bad" by (simp add: write_inv_def)
  from cl have la: "la_bronze la = \<lparr>ba_rows = bw_rows (ws_bronze ws), ba_row_count = bw_row_count (ws_bronze ws)\<rparr>"
      "la_extracted la = ws_extracted ws" "la_rejected la = ws_rejected ws"
      "case la_quarantine la of None \<Rightarrow> ws_quarantine ws = None
        | Some a \<Rightarrow> \<exists>w. ws_quarantine ws = Some w \<and> qa_row_count a = length (qw_rows w)"
    by (auto simp: close_writers_def call_ok close_bronze_writer_ok close_quarantine_writer_ok
        split: sum.splits option.splits)
  show ?thesis
    by (rule exI [of _ good], rule exI [of _ bad])
       (use inv e la in \<open>auto simp: write_inv_def batch_split_def split: option.splits\<close>)
qed

section \<open>A successful run\<close>

lemma on_s3_ok: "on_s3 m pf = (Inr x, pf') \<longleftrightarrow> (\<exists>s. m (pf_s3 pf) = (Inr x, s) \<and> pf' = pf\<lparr>pf_s3 := s\<rparr>)"
  by (auto simp: on_s3_def split: prod.splits)

lemma upload_stored:
  assumes "upload_and_verify_bronze env q run cfg a now pf = (Inr ob, pf')" "s3_laws (ie_encoding env) (ie_s3 env)"
  shows "s3_objects (ie_s3 env) (pf_s3 pf') (obj_object_key ob) =
      Some \<lparr>object_body = ParquetBody (ba_rows a), object_head = put_head (ie_encoding env) (ParquetBody (ba_rows a)) (obj_content_sha256 ob)\<rparr>"
  using assms(1) unfolding upload_and_verify_bronze_def
  by (auto simp: Let_def bindM_ok on_s3_ok split: option.splits dest!: upload_new_ok [OF assms(2)])

lemma at_point_evolves:
  assumes "surroundings P env" "pause env pt pf = (Inr (), pf')"
  shows "evolves P pf pf'"
  using movesD [OF moves_pause [OF assms(1)] assms(2)] .

lemma foreign_history:
  assumes "db_inv db" "list_all (foreign q) es"
  shows "watermark_cursor (request_key q) (fold step_of es db) = watermark_cursor (request_key q) db"
  using assms
proof (induction es arbitrary: db)
  case (Cons e es)
  then have "db_inv (step_of e db)" using step_of_effect by blast
  with Cons foreign_step [of q e db] show ?case by simp
qed simp

text \<open>
  What a SUCCESS result stands for: the object and the watermark moved together, the object
  holds exactly the valid rows of the range, and the run is recorded.
\<close>

definition success_facts ::
    "(arrow_field list \<Rightarrow> parquet_row \<Rightarrow> parquet_row) \<Rightarrow> 's ingest_env \<Rightarrow> ingestion_request \<Rightarrow> table_config \<Rightarrow> source_row list \<Rightarrow>
     datetime \<Rightarrow> 's platform \<Rightarrow> 's platform \<Rightarrow> ingestion_result \<Rightarrow> source_record list \<Rightarrow> source_record list \<Rightarrow> bool" where
  "success_facts conv env q cfg rows now pf pf' x good bad \<longleftrightarrow>
     (let k = request_key q; prior = watermark_cursor k (pf_db pf); after = watermark_cursor k (pf_db pf') in
      batch_split cfg (map (row_record cfg) (extracted_rows cfg rows prior after)) good bad \<and>
      20 * length bad \<le> length good + length bad \<and>
      (\<exists>row key sha. committed_range q (pf_db pf) (pf_db pf') row \<and> br_object_key row = key \<and>
        res_object_key x = Some key \<and> br_row_count row = int (length good) \<and> br_content_sha256 row = sha \<and>
        s3_objects (ie_s3 env) (pf_s3 pf') key = Some \<lparr>object_body =
            ParquetBody (committed_rows conv cfg (run_context q (run_id (res_run x)) now) good),
          object_head = put_head (ie_encoding env)
            (ParquetBody (committed_rows conv cfg (run_context q (run_id (res_run x)) now) good)) sha\<rparr>) \<and>
      (\<exists>r. map_of (pipeline_runs (pf_db pf')) (run_key (res_run x)) = Some r \<and> rr_status r = SUCCESS \<and>
        rr_rows_extracted r = int (length good + length bad) \<and> rr_rows_loaded r = int (length good) \<and>
        rr_rows_rejected r = int (length bad)))"

lemma commit_prepared:
  assumes "commit_table_run c now db = (Inr u, db')" "request_commit q c" "db_inv db0" "db = fold step_of es db0"
    and "list_all (foreign q) es"
  shows "committed_range q db0 db' (committed_row c (instant now)) \<and> db_inv db' \<and>
    run_watermark_before (tc_run c) = watermark_cursor (request_key q) db0 \<and>
    watermark_cursor (request_key q) db' = obj_watermark_after (tc_object c) \<and>
    (\<exists>r. map_of (pipeline_runs db') (run_key (tc_run c)) = Some (succeeded_row c (instant now) r))"
proof -
  have inv: "db_inv db" using step_of_effect assms(3) unfolding assms(4) by (induction es rule: rev_induct) auto
  have same: "watermark_cursor (request_key q) db = watermark_cursor (request_key q) db0"
    using foreign_history [OF assms(3,5)] assms(4) by simp
  have "commit_effect c (instant now) db db'" and inv': "db_inv db'"
    using commit_table_run_ok [OF assms(1) inv] assms(2) by (simp_all add: request_commit_def)
  then obtain x r where x: "map_of (watermarks db) (expected_key c) = Some x"
      "\<lparr>cp_timestamp = wr_timestamp x, cp_keys = wr_keys x\<rparr> = wm_cursor (tc_expected_watermark c)"
      "map_of (watermarks db') = (map_of (watermarks db))(expected_key c \<mapsto> advanced_row c (instant now) x)"
      "map_of (bronze_objects db) (obj_table_batch_id (tc_object c)) = None"
      "bronze_objects db' = bronze_objects db @ [(obj_table_batch_id (tc_object c), committed_row c (instant now))]"
      "map_of (pipeline_runs db') = (map_of (pipeline_runs db))(run_key (tc_run c) \<mapsto> succeeded_row c (instant now) r)"
    unfolding commit_effect_def by blast
  have key: "expected_key c = request_key q" "obj_table_batch_id (tc_object c) = request_batch q"
      "run_watermark_before (tc_run c) = wm_cursor (tc_expected_watermark c)"
    using assms(2) by (auto simp: request_commit_def expected_key_def request_key_def request_batch_def
        table_commit_check_def Let_def)
  obtain rows where "bronze_objects db = bronze_objects db0 @ rows" using run_bronze [OF assms(3)] assms(4) by blast
  then have none: "map_of (bronze_objects db0) (request_batch q) = None"
    using x(4) key(2) by (simp add: map_add_def split: option.splits)
  have cur: "watermark_cursor (request_key q) db = wm_cursor (tc_expected_watermark c)"
    using x(1,2) key(1) by (simp add: watermark_at)
  have after: "watermark_cursor (request_key q) db' = obj_watermark_after (tc_object c)"
    using x(3) key(1) by (simp add: watermark_upd advanced_row_def)
  have "map_of (bronze_objects db') (request_batch q) = Some (committed_row c (instant now))"
    using x(4,5) key(2) by simp
  with none cur after same key(3) assms(2) have "committed_range q db0 db' (committed_row c (instant now))"
    by (simp add: committed_range_def committed_row_def Let_def request_commit_def)
  with inv' same cur after key(3) x(6) show ?thesis by auto
qed

lemma surroundings_foreign:
  assumes "\<And>pt. list_all (foreign q) (ie_others env pt)"
  shows "surroundings (foreign q) env"
  using assms by (auto simp: surroundings_def routine_def foreign_def split: db_event.splits)

lemma run_row_stays:
  "db_inv db \<Longrightarrow> map_of (bronze_objects db) b = Some row \<Longrightarrow> map_of (bronze_objects (fold step_of es db)) b = Some row"
  using run_bronze [of db es] by (auto simp: map_add_def)

lemma ingest_success:
  assumes "ingest_table env q now given pf = (Inr x, pf')" "res_status x = ''SUCCESS''"
    and "db_inv (pf_db pf)" "\<And>pt. list_all (foreign q) (ie_others env pt)"
    and "s3_laws (ie_encoding env) (ie_s3 env)" "arrow_laws (ie_to_arrow env) conv" "req_corruption_plan q = None"
    and "table_config (req_source_table q) = Inr cfg" "ie_source env = Inr rows" "source_rows_ok cfg rows"
  shows "\<exists>good bad. success_facts conv env q cfg rows now pf pf' x good bad"
  using assms(1)
proof (rule ingest_outcome)
  assume "res_status x = ''SKIPPED_ALREADY_COMMITTED''"
  with assms(2) show ?thesis by simp
next
  fix cfg' w sl tb rid snap run pf1 pf2 pf3
  assume cfg': "table_config (req_source_table q) = Inr cfg'"
    and start: "start_run env q cfg' w rid now pf1 = (Inr (snap, run), pf2)"
    and body: "started_run env q cfg' w sl tb snap run now pf2 = (Inr x, pf3)"
    and tail: "run_tail env pf3 pf'" and pre: "\<And>P. surroundings P env \<Longrightarrow> evolves P pf pf2"
  have [simp]: "cfg' = cfg" using cfg' assms(8) by simp
  note sur = surroundings_foreign [OF assms(4)]
  from body assms(2) obtain upper c n pf4 where u: "snap_extract_upper_bound snap = Some upper"
    and prep: "prepare_commit env q cfg w sl tb snap upper run now pf2 = (Inr (c, n), pf4)"
    and com: "at_point env CommitPoint (commit_table_run c now) pf4 = (Inr (), pf3)" and x: "x = success_result c n"
    by (auto elim: started_run_success)
  from start_run_ok [OF start] u have run: "open_snapshot env cfg (wm_cursor w) (req_page_size q) = Inr snap"
      "run = request_run q cfg rid (wm_cursor w) (Some upper)" by auto
  have upper_ok: "cursor_ok upper" using open_snapshot_cursor_ok [OF run(1) u] .
  from prepare_commit_ok [OF prep run(2) assms(8) upper_ok] have c: "request_commit q c" "tc_run c = run"
      "obj_watermark_after (tc_object c) = upper" by auto
  from com obtain pf5 where pf5: "pause env CommitPoint pf4 = (Inr (), pf5)"
    "commit_table_run c now (pf_db pf5) = (Inr (), pf_db pf3)" "pf_s3 pf3 = pf_s3 pf4" by (rule at_point_ok)
  have "evolves (foreign q) pf pf5"
    using pre [OF sur] movesD [OF moves_prepare [OF sur] prep] at_point_evolves [OF sur pf5(1)] evolves_trans by metis
  then obtain es where es: "list_all (foreign q) es" "pf_db pf5 = fold step_of es (pf_db pf)"
    unfolding evolves_def by blast
  note fin = commit_prepared [OF pf5(2) c(1) assms(3) es(2,1)]
  from tail sur have "evolves (foreign q) pf3 pf'" by (simp add: run_tail_def)
  then obtain es' where es': "list_all (foreign q) es'" "pf_db pf' = fold step_of es' (pf_db pf3)"
    unfolding evolves_def by blast
  have inv3: "db_inv (pf_db pf3)" using fin by blast
  have after: "watermark_cursor (request_key q) (pf_db pf') = upper"
    using foreign_history [OF inv3 es'(1)] fin c(3) es'(2) by simp
  have range: "committed_range q (pf_db pf) (pf_db pf') (committed_row c (instant now))"
    using fin after c(3) run_row_stays [OF inv3] es'(2) by (auto simp: committed_range_def)
  obtain r where r: "map_of (pipeline_runs (pf_db pf')) (run_key run) = Some (succeeded_row c (instant now) r)"
    using fin c(2) run_finished [OF inv3, of "run_key run" _ es'] es'(2) by (auto simp: succeeded_row_def)
  have prior: "wm_cursor w = watermark_cursor (request_key q) (pf_db pf)"
    using fin c(2) run(2) by (simp add: request_run_def)
  from open_snapshot_ok [OF run(1)] assms(9) have snap: "snap_rows snap = rows" "snap_config snap = cfg"
      "snap_watermark_before snap = wm_cursor w" "0 < snap_page_size snap" by auto
  from prep show ?thesis
  proof (rule prepare_commitE)
    fix la qb ob s1 s2 s3 s4
    assume w: "write_local_artifacts env snap upper q run cfg now pf2 = (Inr la, s1)"
      and rate: "assert_reject_rate (int (la_extracted la)) (int (la_rejected la)) = Inr ()"
      and up: "upload_and_verify_bronze env q run cfg (la_bronze la) now s3 = (Inr ob, s4)"
      and cdef: "c = \<lparr>tc_run = run, tc_object = ob, tc_expected_watermark = w, tc_rows_extracted = int (la_extracted la),
              tc_rows_valid = int (ba_row_count (la_bronze la)), tc_rows_rejected = int (la_rejected la),
              tc_rows_loaded = int (ba_row_count (la_bronze la)), tc_lease_owner = tl_owner_id tb,
              tc_quarantine = qb\<rparr>"
    from write_local_artifacts_ok [OF w assms(6,7,8) u snap(2)] snap assms(10) obtain good bad where g:
      "batch_split cfg (map (row_record cfg) (extracted_rows cfg rows (wm_cursor w) upper)) good bad"
      "ba_rows (la_bronze la) = committed_rows conv cfg (run_context q (run_id run) now) good"
      "ba_row_count (la_bronze la) = length good" "la_rejected la = length bad"
      "la_extracted la = length good + length bad" by auto
    assume "pf_s3 pf4 = pf_s3 s4"
    with upload_stored [OF up assms(5)] tail pf5(3)
    have s3: "s3_objects (ie_s3 env) (pf_s3 pf') (obj_object_key ob) = Some \<lparr>object_body = ParquetBody (ba_rows (la_bronze la)),
        object_head = put_head (ie_encoding env) (ParquetBody (ba_rows (la_bronze la))) (obj_content_sha256 ob)\<rparr>"
      by (simp add: run_tail_def)
    have ob: "obj_row_count ob = int (length good)" using upload_object [OF up] g(3) by simp
    have rate': "20 * length bad \<le> length good + length bad" using rate g(4,5) by (simp add: assert_reject_rate_ok)
    have "success_facts conv env q cfg rows now pf pf' x good bad"
      unfolding success_facts_def Let_def
      using g range r s3 ob rate' prior after x cdef
      by (auto simp: success_result_def committed_row_def succeeded_row_def)
    then show ?thesis by blast
  qed
qed

end
