(* ===== verification/IngestFrames.thy ===== *)
theory IngestFrames
  imports IngestOutcome
begin

text \<open>
  What an ingestion run cannot touch: the objects already stored, and the local files of other
  runs; and what it never leaves behind, its own local files.
\<close>

section \<open>The object store\<close>

text \<open>Objects are only added: no upload replaces or removes one.\<close>

definition s3_grows :: "'s s3_client \<Rightarrow> 's platform \<Rightarrow> 's platform \<Rightarrow> bool" where
  "s3_grows c pf pf' \<longleftrightarrow> (\<forall>k ob. s3_objects c (pf_s3 pf) k = Some ob \<longrightarrow> s3_objects c (pf_s3 pf') k = Some ob)"

interpretation growth: effect_order "s3_grows c" for c
  by unfold_locales (auto simp: s3_grows_def)

lemma grows_keeps: "keeps pf_s3 m \<Longrightarrow> moves (s3_grows c) m"
  by (simp add: moves_def s3_grows_def keeps_def)

lemma grows_upload: "s3_laws enc c \<Longrightarrow> moves (s3_grows c) (on_s3 (upload_new enc c key body))"
  unfolding moves_def s3_grows_def on_s3_apply
  by simp (metis prod.collapse upload_new_keeps)

lemma grows_bucket: "s3_laws enc c \<Longrightarrow> moves (s3_grows c) (on_s3 (ensure_bucket c))"
  unfolding moves_def s3_grows_def on_s3_apply
  by simp (metis prod.collapse ensure_bucket_state)

lemma keeps_raise: "keeps g (raise_exn e)"
  by (simp add: raise_exn_def keeps_basic)

lemma keeps_fault: "keeps g m \<Longrightarrow> keeps g (case f of NoFault \<Rightarrow> m | Refused e \<Rightarrow> raise_exn e | LostReply e \<Rightarrow> bindM m (\<lambda>_. raise_exn e))"
  by (cases f) (auto intro: keeps_bindM keeps_raise)

lemmas grow_steps = growth.basic growth.bind growth.pair growth.option growth.onerror growth.cleanup
  growth.suppress growth.attempt growth.branch growth.sum

lemma grows_plain:
  "moves (s3_grows c) (raise_exn e)" "moves (s3_grows c) (at_point env pt m)" "moves (s3_grows c) (check_heartbeat env pt)"
  "moves (s3_grows c) (create_file path)" "moves (s3_grows c) (remove_local_artifacts cfg rid)"
  "moves (s3_grows c) (modifyM (\<lambda>pf. pf\<lparr>pf_heartbeat := h\<rparr>))"
  by (simp_all add: grows_keeps keeps_raise keeps_s3_at_point keeps_s3_check_heartbeat create_file_def
      remove_local_artifacts_def keeps_modifyM)

lemma grows_write_pages: "moves (s3_grows c) (write_pages env q cfg qc ps ws)"
proof (induction ps arbitrary: ws)
  case (Cons p ps)
  have "moves (s3_grows c) (write_page env q cfg qc p ws)" for ws
    unfolding write_page_def quarantine_rejects_def open_quarantine_writer_def Let_def
    by (rule grow_steps grows_plain)+
  with Cons show ?case by (simp add: growth.bind)
qed (simp add: growth.basic)

lemma grows_prepare:
  assumes "s3_laws (ie_encoding env) (ie_s3 env)"
  shows "moves (s3_grows (ie_s3 env)) (prepare_commit env q cfg w sl tb snap upper run now)"
  unfolding prepare_commit_def write_local_artifacts_def open_bronze_writer_def publish_quarantine_def
    upload_and_verify_bronze_def Let_def
  by (rule grow_steps grows_plain grows_write_pages grows_upload assms)+

lemma grows_prestart: "moves (s3_grows c) (record_prestart_failure env q cfg w rid e now)"
  unfolding record_prestart_failure_def Let_def by (rule grow_steps grows_plain)+

lemma grows_started:
  assumes "s3_laws (ie_encoding env) (ie_s3 env)"
  shows "moves (s3_grows (ie_s3 env)) (started_run env q cfg w sl tb snap run now)"
  unfolding started_run_def run_no_data_def write_and_commit_def record_failure_without_masking_def
  by (rule grow_steps grows_plain grows_prepare assms)+

lemma grows_new_run:
  assumes "s3_laws (ie_encoding env) (ie_s3 env)"
  shows "moves (s3_grows (ie_s3 env)) (new_run env q cfg w given rid now)"
  unfolding new_run_def leases_failed_def check_leases_def leased_run_def with_heartbeat_def snapshot_body_def
    start_run_def Let_def
  by (rule grow_steps grows_plain grows_prestart grows_started assms)+

lemma ingest_grows:
  assumes "s3_laws (ie_encoding env) (ie_s3 env)"
  shows "moves (s3_grows (ie_s3 env)) (ingest_table env q now given)"
  unfolding ingest_table_def reuse_or_reject_committed_batch_def Let_def
  by (rule grow_steps grows_plain grows_bucket grows_new_run assms)+

section \<open>Local files\<close>

lemma keeps_files_on: "keeps pf_files (on_db m)" "keeps pf_files (on_s3 m')"
  by (simp_all add: keeps_def on_db_apply on_s3_apply)

lemma beat_platform_files [simp]: "pf_files (beat_platform nows pf) = pf_files pf"
  by (simp add: beat_platform_def split: option.splits prod.splits)

text \<open>
  \<open>files_within\<close>: other files stay as they are, and files of this run may come and go;
  \<open>files_clean\<close>: at the end none is left that was not there before.
\<close>

definition own_file :: "table_config \<Rightarrow> uuid \<Rightarrow> string \<Rightarrow> bool" where
  "own_file cfg rid p \<longleftrightarrow> p = local_path cfg rid ''.parquet'' \<or> p = local_path cfg rid ''.quarantine.parquet''"

definition files_within :: "table_config \<Rightarrow> uuid \<Rightarrow> 's platform \<Rightarrow> 's platform \<Rightarrow> bool" where
  "files_within cfg rid pf pf' \<longleftrightarrow> (\<forall>p. \<not> own_file cfg rid p \<longrightarrow> (p \<in> set (pf_files pf') \<longleftrightarrow> p \<in> set (pf_files pf)))"

definition files_clean :: "table_config \<Rightarrow> uuid \<Rightarrow> 's platform \<Rightarrow> 's platform \<Rightarrow> bool" where
  "files_clean cfg rid pf pf' \<longleftrightarrow> files_within cfg rid pf pf' \<and> set (pf_files pf') \<subseteq> set (pf_files pf)"

interpretation within: effect_order "files_within cfg rid" for cfg rid
  by unfold_locales (auto simp: files_within_def)

interpretation clean: effect_order "files_clean cfg rid" for cfg rid
  by unfold_locales (auto simp: files_clean_def files_within_def)

lemma within_keeps: "keeps pf_files m \<Longrightarrow> moves (files_within cfg rid) m"
  by (simp add: moves_def files_within_def keeps_def)

lemma clean_keeps: "keeps pf_files m \<Longrightarrow> moves (files_clean cfg rid) m"
  by (simp add: moves_def files_clean_def files_within_def keeps_def)

lemma keeps_files_pause: "keeps pf_files (pause env pt)"
  unfolding pause_def by (rule keeps_modifyM) simp

lemma keeps_files_plain:
  "keeps pf_files (at_point env pt m)" "keeps pf_files (check_heartbeat env pt)"
  "keeps pf_files (modifyM (\<lambda>pf. pf\<lparr>pf_heartbeat := h\<rparr>))"
proof -
  show "keeps pf_files (at_point env pt m)"
    unfolding at_point_def by (rule keeps_bindM keeps_files_pause keeps_fault keeps_raise keeps_files_on)+
  show "keeps pf_files (check_heartbeat env pt)"
    unfolding check_heartbeat_def
    by (rule keeps_bindM [OF keeps_files_pause]) (auto simp: keeps_def split: option.splits)
  show "keeps pf_files (modifyM (\<lambda>pf. pf\<lparr>pf_heartbeat := h\<rparr>))" by (rule keeps_modifyM) simp
qed

lemmas within_steps = within.basic within.bind within.pair within.option within.onerror within.cleanup
  within.suppress within.attempt within.branch within.sum

lemmas clean_steps = clean.basic clean.bind clean.pair clean.option clean.onerror clean.suppress
  clean.attempt clean.branch clean.sum

lemma within_create: "own_file cfg rid path \<Longrightarrow> moves (files_within cfg rid) (create_file path)"
  by (auto simp: create_file_def moves_def files_within_def)

lemma within_writers:
  "moves (files_within cfg rid) (open_bronze_writer cfg \<lparr>bc_batch_id = b, bc_run_id = rid, bc_ingested_at = t,
     bc_source_table = s, bc_schema_version = v\<rparr>)"
  "moves (files_within cfg rid) (open_quarantine_writer cfg \<lparr>qc_batch_id = b, qc_run_id = rid, qc_detected_at = t,
     qc_source_table = s\<rparr>)"
  unfolding open_bronze_writer_def open_quarantine_writer_def Let_def bronze_context.simps quarantine_context.simps
  by (rule within_steps within_create | simp add: own_file_def)+

lemma within_write_local:
  "moves (files_within cfg rid) (write_local_artifacts env snap upper q (request_run q cfg rid prior u) cfg now)"
proof -
  let ?c = "\<lparr>qc_batch_id = req_batch_id q, qc_run_id = rid, qc_detected_at = now, qc_source_table = source_table cfg\<rparr>"
  have page: "moves (files_within cfg rid) (write_page env q cfg ?c p ws)" for p ws
    unfolding write_page_def quarantine_rejects_def Let_def
    by (rule within_steps within_writers)+
  have pages: "moves (files_within cfg rid) (write_pages env q cfg ?c ps ws)" for ps ws
    by (induction ps arbitrary: ws) (auto intro: within.basic within.bind page)
  have rid: "run_id (request_run q cfg rid prior u) = rid" by (simp add: request_run_def)
  show ?thesis
    unfolding write_local_artifacts_def Let_def rid
    by (rule within_steps within_writers pages within_keeps keeps_raise)+
qed

lemma within_prepare:
  "moves (files_within cfg rid) (prepare_commit env q cfg w sl tb snap upper (request_run q cfg rid prior u) now)"
  unfolding prepare_commit_def publish_quarantine_def upload_and_verify_bronze_def Let_def
  by (rule within_steps within_write_local within_keeps keeps_files_plain keeps_files_on)+

lemma within_prestart: "moves (files_within cfg rid) (record_prestart_failure env q cfg w r e now)"
  unfolding record_prestart_failure_def Let_def by (rule within_steps within_keeps keeps_files_plain)+

lemma within_started:
  "moves (files_within cfg rid) (started_run env q cfg w sl tb snap (request_run q cfg rid prior u) now)"
  unfolding started_run_def run_no_data_def write_and_commit_def record_failure_without_masking_def
  by (rule within_steps within_prepare within_keeps keeps_files_plain)+

lemma within_body: "moves (files_within cfg rid) (snapshot_body env q cfg w sl tb rid now)"
  unfolding snapshot_body_def
proof (rule within.bind, goal_cases)
  case 1
  show ?case unfolding start_run_def Let_def by (rule within_steps within_keeps keeps_files_plain)+
next
  case (2 x s s')
  show ?case
  proof (rule within.sum, rule within.basic, rule within.pair)
    fix y snap run assume "x = Inr y" "y = (snap, run)"
    with 2 have "start_run env q cfg w rid now s = (Inr (snap, run), s')"
      by (metis attemptM_apply prod.collapse prod.inject sum.inject(2))
    from start_run_ok [OF this] have run: "run = request_run q cfg rid (wm_cursor w) (snap_extract_upper_bound snap)" by simp
    show "moves (files_within cfg rid) (bindM (attemptM (started_run env q cfg w sl tb snap run now)) (\<lambda>r. returnM (True, r)))"
      unfolding run by (rule within_steps within_started)+
  qed
qed

lemma remove_clean:
  assumes "files_within cfg rid pf pf1" "remove_local_artifacts cfg rid pf1 = (x, pf2)"
  shows "files_clean cfg rid pf pf2"
  using assms by (auto simp: remove_local_artifacts_def files_clean_def files_within_def own_file_def)

lemma finallyM_state: "m s = (y, s1) \<Longrightarrow> h s1 = (z, s2) \<Longrightarrow> snd (finallyM m h s) = s2"
  by (cases z) (simp_all add: finallyM_def)

lemma clean_leased: "moves (files_clean cfg rid) (leased_run env q cfg w sl owned tb rid now)"
proof (rule movesI)
  fix pf x pf'
  let ?main = "bindM (with_heartbeat env sl tb (snapshot_body env q cfg w sl tb rid now)) (\<lambda>(started, r). case r of
          Inr x \<Rightarrow> returnM x
        | Inl e \<Rightarrow> bindM (if started then returnM () else record_prestart_failure env q cfg w rid e now) (\<lambda>_. raise_exn e))"
  let ?release = "bindM (suppressM (at_point env ReleaseTableLease (release_table_lease tb now))) (\<lambda>_.
        if owned then suppressM (at_point env ReleaseSource (release_source_mutation_lease sl now)) else returnM ())"
  assume r: "leased_run env q cfg w sl owned tb rid now pf = (x, pf')"
  have main: "moves (files_within cfg rid) ?main"
    unfolding with_heartbeat_def
    by (rule within_steps within_body within_prestart within_keeps keeps_files_plain keeps_raise)+
  have rel: "keeps pf_files ?release"
    by (rule keeps_bindM keeps_suppressM keeps_files_plain keeps_if keeps_basic)+
  obtain y pf1 where m: "?main pf = (y, pf1)" by (cases "?main pf")
  obtain u pf2 where d: "remove_local_artifacts cfg rid pf1 = (Inr u, pf2)"
    by (cases "remove_local_artifacts cfg rid pf1") (auto simp: remove_local_artifacts_def)
  obtain z pf3 where e: "?release pf2 = (z, pf3)" by (cases "?release pf2")
  let ?tail = "bindM (remove_local_artifacts cfg rid) (\<lambda>_. ?release)"
  have "?tail pf1 = (z, pf3)" using d e by (simp only: bindM_Inr)
  from finallyM_state [where m = ?main and h = ?tail, OF m this] r have "pf' = pf3" unfolding leased_run_def by simp
  moreover have "files_clean cfg rid pf pf2" using remove_clean [OF movesD [OF main m] d] .
  moreover have "files_clean cfg rid pf2 pf3" using movesD [OF clean_keeps [OF rel] e] .
  ultimately show "files_clean cfg rid pf pf'" using clean.trans by blast
qed

lemma ingest_files:
  assumes "table_config (req_source_table q) = Inr cfg"
    and "rid = (case req_run_id q of Some u \<Rightarrow> u | None \<Rightarrow> ie_fresh_run_id env)"
  shows "moves (files_clean cfg rid) (ingest_table env q now given)"
proof -
  have prestart: "moves (files_clean cfg rid) (record_prestart_failure env q cfg' w r e now)" for cfg' w r e
    unfolding record_prestart_failure_def Let_def by (rule clean_steps clean_keeps keeps_files_plain)+
  have new: "moves (files_clean cfg rid) (new_run env q cfg w given rid now)" for w
    unfolding new_run_def leases_failed_def check_leases_def
    by (rule clean_steps clean_leased prestart clean_keeps keeps_files_plain)+
  have reuse: "moves (files_clean cfg rid) (reuse_or_reject_committed_batch env q cfg' w b now)" for cfg' w b
    unfolding reuse_or_reject_committed_batch_def Let_def
    by (rule clean_steps clean_keeps keeps_files_plain keeps_raise)+
  show ?thesis
    unfolding ingest_table_def Let_def assms(2) [symmetric]
  proof (rule clean.bind [OF clean.basic(3)], rule clean.bind [OF clean.basic(3)], goal_cases)
    case (1 u s0 s0' cfg' s1 s1')
    with assms(1) have [simp]: "cfg' = cfg" by simp
    show ?case unfolding \<open>cfg' = cfg\<close>
      by (rule clean_steps new reuse clean_keeps keeps_files_plain keeps_files_on)+
  qed
qed

end
