(* ===== verification/IngestProgress.thy ===== *)
theory IngestProgress
  imports IngestFrames
begin

text \<open>
  That an ingestion run does return: what each stage of \<open>ingest_table\<close> gives when nothing
  stands in its way, up to an undisturbed run on a free table, which ends in SUCCESS, or in
  SUCCESS_NO_DATA when there is no new row. The lemmas follow the stages in the order of the code.
\<close>

section \<open>Undisturbed surroundings\<close>

text \<open>No fault, no heartbeat turn and no other process at any point of the run.\<close>

definition undisturbed :: "'s ingest_env \<Rightarrow> bool" where
  "undisturbed env \<longleftrightarrow> (\<forall>pt. ie_fault env pt = NoFault \<and> ie_beats env pt = [] \<and> ie_others env pt = [])"

lemma beat_platform_Nil [simp]: "beat_platform [] pf = pf"
  by (cases "pf_heartbeat pf") (simp_all add: beat_platform_def)

lemma pause_undisturbed [simp]: "undisturbed env \<Longrightarrow> pause env pt pf = (Inr (), pf)"
  by (simp add: pause_def undisturbed_def)

lemma at_point_undisturbed [simp]: "undisturbed env \<Longrightarrow> at_point env pt m = on_db m"
  by (rule ext) (simp add: at_point_def bindM_def undisturbed_def pause_def)

lemma check_heartbeat_undisturbed:
  assumes "undisturbed env" "pf_heartbeat pf = Some hb" "hb_failure hb = None"
  shows "check_heartbeat env pt pf = (Inr (), pf)"
  using assms by (simp add: check_heartbeat_def bindM_def assert_healthy_def)

section \<open>A responsive object store\<close>

definition s3_responsive :: "encoding \<Rightarrow> 's s3_client \<Rightarrow> bool" where
  "s3_responsive enc c \<longleftrightarrow> s3_laws enc c \<and> (\<forall>s. fst (head_bucket c s) = Inr ()) \<and>
     (\<forall>k s. case s3_objects c s k of
        Some ob \<Rightarrow> fst (head_object c k s) = Inr (object_head ob)
      | None \<Rightarrow> (\<exists>e. fst (head_object c k s) = Inl e \<and> is_not_found e)) \<and>
     (\<forall>k b sha s. s3_objects c s k = None \<longrightarrow> fst (put_object c k b sha s) = Inr ())"

lemma responsive_head:
  assumes "s3_responsive enc c"
  obtains s' where "s3_objects c s k = Some ob \<Longrightarrow> head_object c k s = (Inr (object_head ob), s')"
    "s3_objects c s k = None \<Longrightarrow> \<exists>e. head_object c k s = (Inl e, s') \<and> is_not_found e"
    "s3_objects c s' = s3_objects c s"
proof -
  obtain x s' where h: "head_object c k s = (x, s')" by (cases "head_object c k s")
  have laws: "s3_laws enc c" using assms by (simp add: s3_responsive_def)
  have "case s3_objects c s k of Some ob \<Rightarrow> fst (head_object c k s) = Inr (object_head ob)
      | None \<Rightarrow> (\<exists>e. fst (head_object c k s) = Inl e \<and> is_not_found e)"
    using assms by (simp add: s3_responsive_def)
  with h s3_head_state [OF laws h] show thesis by (intro that [of s']) auto
qed

lemma ensure_bucket_progress:
  assumes "s3_responsive enc c"
  obtains s' where "ensure_bucket c s = (Inr (), s')" "s3_objects c s' = s3_objects c s"
proof -
  have h: "head_bucket c s = (Inr (), snd (head_bucket c s))"
    using assms unfolding s3_responsive_def by (metis prod.collapse)
  moreover have "s3_objects c (snd (head_bucket c s)) = s3_objects c s"
    using assms by (simp add: s3_responsive_def s3_laws_def)
  moreover have "ensure_bucket c s = (Inr (), snd (head_bucket c s))"
    unfolding ensure_bucket_def using h by (metis (mono_tags, lifting) case_prod_conv sum.case(2))
  ultimately show thesis using that by blast
qed

lemma upload_new_progress:
  assumes "s3_responsive enc c" "s3_objects c s key = None" "key \<noteq> []" "\<not> starts_with ''/'' key"
  obtains s' where "upload_new enc c key body s =
      (Inr \<lparr>so_key = key, so_size = byte_size enc body, so_content_sha256 = byte_sha256 enc body\<rparr>, s')"
    "s3_objects c s' = (s3_objects c s)(key \<mapsto>
      \<lparr>object_body = body, object_head = put_head enc body (byte_sha256 enc body)\<rparr>)"
proof -
  let ?ob = "\<lparr>object_body = body, object_head = put_head enc body (byte_sha256 enc body)\<rparr>"
  have laws: "s3_laws enc c" using assms(1) by (simp add: s3_responsive_def)
  obtain s1 where s1: "\<exists>e. head_object c key s = (Inl e, s1) \<and> is_not_found e" "s3_objects c s1 = s3_objects c s"
    using responsive_head [OF assms(1), of s key] assms(2) by metis
  obtain s2 where p: "put_object c key body (byte_sha256 enc body) s1 = (Inr (), s2)"
    using assms(1,2) s1(2) unfolding s3_responsive_def by (metis prod.collapse)
  have "put_effect enc c key body (byte_sha256 enc body) s1 s2"
    using laws p unfolding s3_laws_def by (metis fst_conv snd_conv)
  then have s2: "s3_objects c s2 = (s3_objects c s)(key \<mapsto> ?ob)" using s1(2) by (simp add: put_effect_def)
  obtain s3 where s3: "head_object c key s2 = (Inr (object_head ?ob), s3)" "s3_objects c s3 = s3_objects c s2"
    using responsive_head [OF assms(1), of s2 key ?ob] s2 by (metis fun_upd_same)
  have "reject_existing_object c key s = (Inr (), s1)" using s1(1) by (auto simp: reject_existing_object_def)
  moreover have "put_new c key body (byte_sha256 enc body) s1 = (Inr (), s2)" using p by (simp add: put_new_def)
  moreover have "assert_object_head key (object_head ?ob) (byte_size enc body) (byte_sha256 enc body) = Inr ()"
    by (simp add: assert_object_head_def put_head_def)
  ultimately have "upload_new enc c key body s =
      (Inr \<lparr>so_key = key, so_size = byte_size enc body, so_content_sha256 = byte_sha256 enc body\<rparr>, s3)"
    using s3(1) assms(3,4) by (simp add: upload_new_def Let_def assertM_apply bindM_def)
  with s2 s3(2) that show thesis by simp
qed

section \<open>Validation of clean pages\<close>

text \<open>Every row meets the contract, keys are present and new, and every parent exists.\<close>

definition references_present :: "parent_tables \<Rightarrow> table_config \<Rightarrow> source_record list \<Rightarrow> bool" where
  "references_present parents cfg rs \<longleftrightarrow>
     (\<forall>ref \<in> set (case map_of CHILD_PARENT_REFERENCES (source_table cfg) of Some refs \<Rightarrow> refs | None \<Rightarrow> []).
        (\<forall>v \<in> set (parents (parent_table ref) (parent_column ref)). key_of_value v \<noteq> None) \<and>
        (\<forall>r \<in> set rs. \<exists>v. get_item (child_column ref) (rec_values r) = Inr v \<and> key_of_value v \<noteq> None \<and>
           v \<in> set (parents (parent_table ref) (parent_column ref))))"

lemma broken_for_reference_none:
  assumes "\<forall>v \<in> set (parents (parent_table ref) (parent_column ref)). key_of_value v \<noteq> None"
    and "\<forall>r \<in> set rs. \<exists>v. get_item (child_column ref) (rec_values r) = Inr v \<and> key_of_value v \<noteq> None \<and>
           v \<in> set (parents (parent_table ref) (parent_column ref))"
  shows "broken_for_reference parents table rs ref = Inr []"
proof -
  let ?col = "parents (parent_table ref) (parent_column ref)"
  from assms(2) obtain g where g: "\<And>r. r \<in> set rs \<Longrightarrow> get_item (child_column ref) (rec_values r) = Inr (g r) \<and>
      key_of_value (g r) \<noteq> None \<and> g r \<in> set ?col" by metis
  let ?found = "filter (\<lambda>v. v \<noteq> VNone \<and> v \<in> set (map g rs)) ?col"
  have keys: "results (map (\<lambda>r. get_item (child_column ref) (rec_values r)) rs) = Inr (map g rs)"
    by (rule results_map_ok) (use g in auto)
  have obj: "\<not> list_ex (\<lambda>v. case v of VObject _ \<Rightarrow> True | _ \<Rightarrow> False) (map g rs)"
  proof -
    have "g r \<noteq> VObject n" if "r \<in> set rs" for r n using g [OF that] by auto
    then show ?thesis by (auto simp: list_ex_iff split: pyvalue.splits)
  qed
  have pk: "\<exists>present. parent_keys parents ref (map g rs) = Inr present \<and> (\<forall>r \<in> set rs. g r \<in> set present)"
  proof (cases "rs = []")
    case False
    have "\<not> list_ex (\<lambda>v. key_of_value v = None) ?found" using assms(1) by (auto simp: list_ex_iff)
    moreover have "\<forall>r \<in> set rs. g r \<in> set ?found" using g by auto (metis key_of_value.simps(3) option.distinct(1))
    ultimately show ?thesis using obj False by (simp add: parent_keys_def Let_def)
  qed (simp add: parent_keys_def)
  then obtain present where p: "parent_keys parents ref (map g rs) = Inr present" "\<forall>r \<in> set rs. g r \<in> set present" by blast
  have "results (map (broken_reference_of table ref present) rs) = Inr (map (\<lambda>r. []) rs)"
    by (rule results_map_ok) (use g p(2) in \<open>auto simp: broken_reference_of_def\<close>)
  then show ?thesis by (simp add: broken_for_reference_def keys p(1))
qed

lemma no_broken_references:
  assumes "references_present parents cfg (page_records p)" "list_all (\<lambda>r. rec_config r = cfg) (page_records p)"
  shows "find_broken_parent_references parents cfg p = Inr []"
proof -
  let ?refs = "case map_of CHILD_PARENT_REFERENCES (source_table cfg) of Some refs \<Rightarrow> refs | None \<Rightarrow> []"
  have "results (map (broken_for_reference parents (source_table cfg) (page_records p)) ?refs) = Inr (map (\<lambda>_. []) ?refs)"
    by (rule results_map_ok, rule broken_for_reference_none) (use assms(1) in \<open>auto simp: references_present_def\<close>)
  then show ?thesis using assms(2) by (auto simp: find_broken_parent_references_def split: list.splits)
qed

definition clean_record :: "validation_pipeline \<Rightarrow> source_record \<Rightarrow> bool" where
  "clean_record vp r \<longleftrightarrow> rec_config r = vp_config vp \<and> row_conforms (vp_config vp) (rec_values r) \<and>
     VNone \<notin> set (primary_key_of (vp_config vp) (rec_values r)) \<and> record_in_range vp r"

definition fresh_keys :: "validation_pipeline \<Rightarrow> source_record list \<Rightarrow> bool" where
  "fresh_keys vp rs \<longleftrightarrow> distinct (map (\<lambda>r. primary_key_of (vp_config vp) (rec_values r)) rs) \<and>
     (\<forall>r \<in> set rs. primary_key_of (vp_config vp) (rec_values r) \<notin> set (seen_primary_keys vp))"

text \<open>The pipeline after a page that is all valid.\<close>

definition seen_all :: "validation_pipeline \<Rightarrow> source_record list \<Rightarrow> validation_pipeline" where
  "seen_all vp rs = vp\<lparr>seen_primary_keys := seen_primary_keys vp @ map (\<lambda>r. primary_key_of (vp_config vp) (rec_values r)) rs,
     next_ordinal := next_ordinal vp + length rs\<rparr>"

lemma validate_record_clean:
  assumes "table_config name = Inr (vp_config vp)" "clean_record vp r"
    and "primary_key_of (vp_config vp) (rec_values r) \<notin> set (seen_primary_keys vp)"
  shows "validate_record r [] vp = (Inr [], vp\<lparr>seen_primary_keys := seen_primary_keys vp @
      [primary_key_of (vp_config vp) (rec_values r)]\<rparr>)"
  using assms row_conforms_errors [OF assms(1), of "rec_values r"]
  by (auto simp: validate_record_def bindM_def clean_record_def record_in_range_def Let_def assertM_apply key_error_def)

lemma validate_records_clean:
  assumes "table_config name = Inr (vp_config vp)" "list_all (clean_record vp) rs" "fresh_keys vp rs"
  shows "validate_records rs [] vp = (Inr \<lparr>valid_records = rs, rejected_records = []\<rparr>, seen_all vp rs)"
  using assms
proof (induction rs arbitrary: vp)
  case Nil
  then show ?case by (simp add: seen_all_def)
next
  case (Cons r rs)
  let ?k = "primary_key_of (vp_config vp) (rec_values r)"
  let ?vp = "vp\<lparr>next_ordinal := next_ordinal vp + 1\<rparr>"
  let ?vp' = "?vp\<lparr>seen_primary_keys := seen_primary_keys vp @ [?k]\<rparr>"
  have same: "clean_record ?vp' = clean_record vp" "clean_record ?vp = clean_record vp"
    by (auto simp: clean_record_def record_in_range_def fun_eq_iff)
  have r: "validate_record r [] ?vp = (Inr [], ?vp')"
    using validate_record_clean [of name ?vp r] Cons.prems same by (simp add: fresh_keys_def)
  have "validate_records rs [] ?vp' = (Inr \<lparr>valid_records = rs, rejected_records = []\<rparr>, seen_all ?vp' rs)"
    using Cons.prems same by (intro Cons.IH) (auto simp: fresh_keys_def image_iff)
  moreover have "seen_all ?vp' rs = seen_all vp (r # rs)" by (simp add: seen_all_def)
  ultimately show ?case using r by (simp add: bindM_def)
qed

section \<open>Writing clean pages\<close>

text \<open>
  Arrow accepts rows that meet the contract and gives back a value of the column's type for
  each of them, which the logical hash can print.
\<close>

definition hashable :: "pyvalue \<Rightarrow> bool" where
  "hashable v = (case v of VUuid _ \<Rightarrow> False | VObject _ \<Rightarrow> False | VTime d \<Rightarrow> utcoffset d \<noteq> None | _ \<Rightarrow> True)"

definition arrow_accepts ::
    "arrow_conversion \<Rightarrow> (arrow_field list \<Rightarrow> parquet_row \<Rightarrow> parquet_row) \<Rightarrow> table_config \<Rightarrow> bool" where
  "arrow_accepts to_arrow conv cfg \<longleftrightarrow> (\<forall>c rs. (\<forall>r \<in> set rs. rec_config r = cfg \<and> row_conforms cfg (rec_values r)) \<longrightarrow>
     to_arrow (bronze_schema cfg) (map (source_record_row c) rs) = Inr (committed_rows conv cfg c rs) \<and>
     (\<forall>row \<in> set (committed_rows conv cfg c rs). \<forall>n \<in> set (source_column_names cfg). hashable (value_get row n)))"

lemma json_of_value_hashable:
  "hashable v \<Longrightarrow> \<exists>t. json_of_value business_time m v = Inr t"
  by (auto simp: hashable_def json_of_value_def business_time_def split: pyvalue.splits)

lemma canonical_row_hashable:
  assumes "\<forall>nv \<in> set row. hashable (snd nv)"
  shows "\<exists>t. canonical_row business_time m row = Inr t"
proof -
  let ?g = "\<lambda>(n, v). map_sum id (\<lambda>t. json_string n @ '':'' @ t) (json_of_value business_time m v)"
  have "\<forall>nv \<in> set (sort_key fst row). \<exists>t. ?g nv = Inr t"
    using assms json_of_value_hashable by fastforce
  then obtain h where "\<forall>nv \<in> set (sort_key fst row). ?g nv = Inr (h nv)" by metis
  then have "results (map ?g (sort_key fst row)) = Inr (map h (sort_key fst row))" by (intro results_map_ok) auto
  then show ?thesis by (simp add: canonical_row_def)
qed

lemma table_logical_hash_defined:
  assumes "\<forall>row \<in> set rows. \<forall>n \<in> set (source_column_names cfg). hashable (value_get row n)"
  obtains t where "table_logical_hash enc cfg rows = Inr (text_sha256 enc t)"
proof -
  let ?g = "\<lambda>row. map_sum id (\<lambda>t. t @ [CHR 0x0A])
         (canonical_row business_time ''Unsupported business value'' (business_columns cfg row))"
  have "\<forall>row \<in> set (sort_key (business_key cfg) rows). \<exists>t. ?g row = Inr t"
    using assms canonical_row_hashable by (fastforce simp: business_columns_def)
  then obtain h where "\<forall>row \<in> set (sort_key (business_key cfg) rows). ?g row = Inr (h row)" by metis
  then have "results (map ?g (sort_key (business_key cfg) rows)) = Inr (map h (sort_key (business_key cfg) rows))"
    by (intro results_map_ok) auto
  with that show thesis by (simp add: table_logical_hash_def logical_text_def)
qed

text \<open>The loop's variables after the records \<open>rs\<close>, none rejected.\<close>

definition clean_state ::
    "(arrow_field list \<Rightarrow> parquet_row \<Rightarrow> parquet_row) \<Rightarrow> table_config \<Rightarrow> bronze_context \<Rightarrow> validation_pipeline \<Rightarrow>
     source_record list \<Rightarrow> write_state" where
  "clean_state conv cfg c vp rs =
     \<lparr>ws_bronze = \<lparr>bw_config = cfg, bw_context = c, bw_rows = committed_rows conv cfg c rs, bw_row_count = length rs,
        bw_closed = False\<rparr>,
      ws_quarantine = None, ws_validation = seen_all vp rs, ws_extracted = length rs, ws_rejected = 0, ws_corrupted = 0\<rparr>"

lemma write_records_clean:
  assumes "arrow_accepts to_arrow conv cfg" "\<forall>r \<in> set rs. rec_config r = cfg \<and> row_conforms cfg (rec_values r)"
    and "bw_config w = cfg" "\<not> bw_closed w"
  shows "write_records to_arrow rs w = (Inr (), w\<lparr>bw_rows := bw_rows w @ committed_rows conv cfg (bw_context w) rs,
     bw_row_count := bw_row_count w + length rs\<rparr>)"
proof (cases "rs = []")
  case True
  with assms(4) show ?thesis by (cases w) (simp add: write_records_def bindM_def assertM_apply committed_rows_def)
next
  case False
  have "to_arrow (bronze_schema cfg) (map (source_record_row (bw_context w)) rs) = Inr (committed_rows conv cfg (bw_context w) rs)"
    using assms(1,2) by (simp add: arrow_accepts_def)
  moreover have "\<not> list_ex (\<lambda>r. rec_config r \<noteq> cfg) rs" using assms(2) by (simp add: list_ex_iff)
  ultimately show ?thesis using assms(3,4) False
    by (simp add: write_records_def bindM_def assertM_apply committed_rows_def)
qed

lemma seen_all_append: "seen_all (seen_all vp rs) rs' = seen_all vp (rs @ rs')"
  by (simp add: seen_all_def)

lemma seen_all_keeps [simp]: "vp_config (seen_all vp rs) = vp_config vp" "clean_record (seen_all vp rs) = clean_record vp"
  by (auto simp: seen_all_def clean_record_def record_in_range_def fun_eq_iff)

lemma fresh_keys_append:
  "fresh_keys vp (rs @ rs') \<Longrightarrow> fresh_keys (seen_all vp rs) rs'"
  by (auto simp: fresh_keys_def seen_all_def)

lemma fresh_keys_prefix: "fresh_keys vp (rs @ rs') \<Longrightarrow> fresh_keys vp rs"
  by (auto simp: fresh_keys_def)

definition clean_rows :: "'s ingest_env \<Rightarrow> validation_pipeline \<Rightarrow> source_record list \<Rightarrow> bool" where
  "clean_rows env vp rs \<longleftrightarrow> list_all (clean_record vp) rs \<and> fresh_keys vp rs \<and> references_present (ie_parents env) (vp_config vp) rs"

lemma clean_rows_append:
  "clean_rows env vp (rs @ rs') \<Longrightarrow> clean_rows env vp rs \<and> clean_rows env (seen_all vp rs) rs'"
  by (auto simp: clean_rows_def fresh_keys_append dest: fresh_keys_prefix) (auto simp: references_present_def)

lemma write_page_clean:
  assumes "table_config name = Inr cfg" "vp_config vp = cfg" "arrow_accepts (ie_to_arrow env) conv cfg"
    and "req_corruption_plan q = None" "clean_rows env (seen_all vp rs) (page_records page)" "page_records page \<noteq> []"
  shows "write_page env q cfg qc page (clean_state conv cfg c vp rs) pf =
    (Inr (clean_state conv cfg c vp (rs @ page_records page)), pf)"
proof -
  let ?rs = "page_records page" and ?vp = "seen_all vp rs"
  let ?vpage = "\<lparr>page_records = ?rs, page_lower_bound = page_lower_bound page,
                  page_extract_upper_bound = page_extract_upper_bound page\<rparr>"
  have clean: "list_all (clean_record ?vp) ?rs" "fresh_keys ?vp ?rs" "references_present (ie_parents env) cfg ?rs"
    using assms(2,5) by (simp_all add: clean_rows_def)
  have cfg: "list_all (\<lambda>r. rec_config r = cfg) ?rs" "\<forall>r \<in> set ?rs. rec_config r = cfg \<and> row_conforms cfg (rec_values r)"
    using clean(1) assms(2) by (auto simp: list_all_iff clean_record_def)
  obtain x xs where Cons: "?rs = x # xs" using assms(6) by (cases ?rs) auto
  have check: "source_page_check ?vpage = Inr ()"
    using cfg(1) Cons by (simp add: source_page_check_def require_def list_all_iff)
  have refs: "find_broken_parent_references (ie_parents env) cfg ?vpage = Inr []"
    using no_broken_references [of "ie_parents env" cfg ?vpage] clean(3) cfg(1) by simp
  have "validate_records ?rs [] ?vp = (Inr \<lparr>valid_records = ?rs, rejected_records = []\<rparr>, seen_all ?vp ?rs)"
    using validate_records_clean [of name ?vp ?rs] assms(1,2) clean(1,2) by simp
  then have val: "validate_page ?vpage [] ?vp = (Inr \<lparr>valid_records = ?rs, rejected_records = []\<rparr>, seen_all vp (rs @ ?rs))"
    using Cons cfg(1) assms(2) by (simp add: validate_page_def bindM_def assertM_apply seen_all_append)
  let ?w = "ws_bronze (clean_state conv cfg c vp rs)"
  have "write_records (ie_to_arrow env) ?rs ?w = (Inr (), ws_bronze (clean_state conv cfg c vp (rs @ ?rs)))"
    using write_records_clean [OF assms(3) cfg(2), of ?w] by (simp add: clean_state_def committed_rows_def)
  with val check refs assms(4) show ?thesis
    by (simp add: write_page_def bindM_def inject_corruption_def call_def quarantine_rejects_def Let_def)
       (simp add: clean_state_def)
qed

lemma write_pages_clean:
  assumes "table_config name = Inr cfg" "vp_config vp = cfg" "arrow_accepts (ie_to_arrow env) conv cfg"
    and "req_corruption_plan q = None" "clean_rows env (seen_all vp rs) (concat (map page_records ps))"
    and "\<forall>p \<in> set ps. page_records p \<noteq> []"
  shows "write_pages env q cfg qc ps (clean_state conv cfg c vp rs) pf =
    (Inr (clean_state conv cfg c vp (rs @ concat (map page_records ps))), pf)"
  using assms(5,6)
proof (induction ps arbitrary: rs)
  case (Cons p ps)
  have c: "clean_rows env (seen_all vp rs) (page_records p)"
    "clean_rows env (seen_all vp (rs @ page_records p)) (concat (map page_records ps))"
    using clean_rows_append [of env "seen_all vp rs" "page_records p" "concat (map page_records ps)"] Cons.prems(1)
    by (simp_all add: seen_all_append)
  have "write_page env q cfg qc p (clean_state conv cfg c vp rs) pf =
      (Inr (clean_state conv cfg c vp (rs @ page_records p)), pf)"
    using Cons.prems(2) by (intro write_page_clean [OF assms(1-4) c(1)]) simp
  with Cons.IH [OF c(2)] Cons.prems(2) show ?case by (simp add: bindM_def)
qed simp

section \<open>The batch of an undisturbed run\<close>

definition valid_source :: "'s ingest_env \<Rightarrow> table_config \<Rightarrow> source_row list \<Rightarrow> bool" where
  "valid_source env cfg rows \<longleftrightarrow> source_rows_ok cfg rows \<and>
     (\<forall>row \<in> set rows. row_conforms cfg (row_values cfg row) \<and> VNone \<notin> set (primary_key_of cfg (row_values cfg row))) \<and>
     distinct (map (\<lambda>row. primary_key_of cfg (row_values cfg row)) rows) \<and>
     references_present (ie_parents env) cfg (map (row_record cfg) rows)"

definition batch_records :: "table_config \<Rightarrow> source_row list \<Rightarrow> cursor_position \<Rightarrow> cursor_position \<Rightarrow> source_record list" where
  "batch_records cfg rows prior upper = map (row_record cfg) (extracted_rows cfg rows prior upper)"

lemma extracted_in_range:
  assumes "row \<in> set (extracted_rows cfg rows prior upper)"
  shows "row \<in> set rows \<and> cursor_in_range (row_position cfg row) prior upper"
  using assms
  by (auto simp: extracted_rows_def source_reader.set_in_range cursor_in_range_def past_def cursor_bound_def cursor_rank_def
      row_position_def split: option.splits)

lemma distinct_map_filtered:
  "distinct (map f xs) \<Longrightarrow> distinct (map f (sort_key g (filter P xs)))"
  by (auto simp: distinct_map intro: inj_on_subset)

lemma valid_source_clean:
  assumes "table_config name = Inr cfg" "valid_source env cfg rows"
  shows "clean_rows env (new_validation_pipeline cfg prior upper) (batch_records cfg rows prior upper)"
proof -
  let ?vp = "new_validation_pipeline cfg prior upper" and ?ex = "extracted_rows cfg rows prior upper"
  have vp: "vp_config ?vp = cfg" "vp_watermark_before ?vp = prior" "vp_extract_upper_bound ?vp = upper" "seen_primary_keys ?vp = []"
    by (simp_all add: new_validation_pipeline_def)
  have rows: "source_rows_ok cfg rows" using assms(2) by (simp add: valid_source_def)
  have "clean_record ?vp (row_record cfg row)" if "row \<in> set ?ex" for row
    using extracted_in_range [OF that] record_cursor_ok [OF assms(1) source_rows_okD(1) [OF rows]] assms(2)
    by (auto simp: clean_record_def vp record_in_range_def valid_source_def)
  moreover have "distinct (map (\<lambda>row. primary_key_of cfg (row_values cfg row)) ?ex)"
    using assms(2) unfolding valid_source_def extracted_rows_def source_reader.in_range_def
    by (intro distinct_map_filtered) simp
  moreover have "references_present (ie_parents env) cfg (batch_records cfg rows prior upper)"
    using assms(2) extracted_in_range unfolding valid_source_def references_present_def batch_records_def by fastforce
  ultimately show ?thesis
    by (auto simp: clean_rows_def vp fresh_keys_def batch_records_def list_all_iff comp_def)
qed

lemma registered_names: "table_config name = Inr cfg \<Longrightarrow>
    source_table cfg = name \<and> \<not> blank name \<and> name \<noteq> [] \<and> length name \<le> 64 \<and> 0 < schema_version cfg"
proof -
  assume n: "table_config name = Inr cfg"
  have "list_all (\<lambda>(n, c). \<not> blank n \<and> n \<noteq> [] \<and> length n \<le> 64 \<and> 0 < schema_version c) TABLE_CONFIGS" by code_simp
  with n table_config_ok(1) [OF n] show ?thesis
    by (auto simp: table_config_def list_all_iff split: option.splits dest!: map_of_SomeD)
qed

lemma write_local_artifacts_progress:
  assumes "table_config (req_source_table q) = Inr cfg" "valid_source env cfg rows" "arrow_accepts (ie_to_arrow env) conv cfg"
    and "req_corruption_plan q = None" "\<not> blank (req_batch_id q)" "utcoffset now = Some 0"
    and "snap_rows snap = rows" "snap_config snap = cfg" "0 < snap_page_size snap" "snap_extract_upper_bound snap = Some upper"
    and "local_path cfg (run_id run) ''.parquet'' \<notin> set (pf_files pf)"
  defines "rs \<equiv> batch_records cfg rows (snap_watermark_before snap) upper"
  shows "write_local_artifacts env snap upper q run cfg now pf =
    (Inr \<lparr>la_bronze = \<lparr>ba_rows = committed_rows conv cfg (run_context q (run_id run) now) rs, ba_row_count = length rs\<rparr>,
          la_quarantine = None, la_extracted = length rs, la_rejected = 0, la_corrupted = 0\<rparr>,
     pf\<lparr>pf_files := local_path cfg (run_id run) ''.parquet'' # pf_files pf\<rparr>)"
proof -
  let ?c = "run_context q (run_id run) now"
  let ?vp = "new_validation_pipeline cfg (snap_watermark_before snap) upper"
  let ?pf = "pf\<lparr>pf_files := local_path cfg (run_id run) ''.parquet'' # pf_files pf\<rparr>"
  note name = registered_names [OF assms(1)]
  have ctx: "\<lparr>bc_batch_id = req_batch_id q, bc_run_id = run_id run, bc_ingested_at = now,
              bc_source_table = source_table cfg, bc_schema_version = BRONZE_SCHEMA_VERSION\<rparr> = ?c"
    using name by (simp add: run_context_def)
  have rows: "source_rows_ok cfg rows" using assms(2) by (simp add: valid_source_def)
  obtain ps where ps: "pages snap = Some (ps, None)" "concat (map page_records ps) = rs" "\<forall>p \<in> set ps. page_records p \<noteq> []"
    using pages_from_complete [OF assms(1) rows assms(9), of upper "snap_watermark_before snap"] assms(7,8,10)
    by (auto simp: pages_def rs_def batch_records_def)
  have w: "open_bronze_writer cfg ?c pf = (Inr \<lparr>bw_config = cfg, bw_context = ?c, bw_rows = [], bw_row_count = 0, bw_closed = False\<rparr>, ?pf)"
    using assms(5,6,11) name
    by (simp add: open_bronze_writer_def Let_def bindM_def run_context_def bronze_context_check_def require_def seq_def
        new_bronze_writer_def ROW_GROUP_TARGET_ROWS_def create_file_def)
  have start: "\<lparr>ws_bronze = \<lparr>bw_config = cfg, bw_context = ?c, bw_rows = [], bw_row_count = 0, bw_closed = False\<rparr>,
      ws_quarantine = None, ws_validation = ?vp, ws_extracted = 0, ws_rejected = 0, ws_corrupted = 0\<rparr> = clean_state conv cfg ?c ?vp []"
    by (simp add: clean_state_def committed_rows_def seen_all_def)
  have vp: "vp_config ?vp = cfg" by (simp add: new_validation_pipeline_def)
  have "clean_rows env (seen_all ?vp []) (concat (map page_records ps))"
    using valid_source_clean [OF assms(1,2), of "snap_watermark_before snap" upper] ps(2)
    by (simp add: rs_def seen_all_def)
  from write_pages_clean [OF assms(1) vp assms(3,4) this ps(3), of _ ?c ?pf]
  have "write_pages env q cfg qc ps (clean_state conv cfg ?c ?vp []) ?pf = (Inr (clean_state conv cfg ?c ?vp rs), ?pf)" for qc
    by (simp add: ps(2))
  with w ps(1) show ?thesis
    by (simp add: write_local_artifacts_def bindM_def ctx start Let_def close_writers_def call_def clean_state_def
        close_bronze_writer_def assertM_apply)
qed

section \<open>Publication\<close>

definition bronze_keys :: "ingestion_request \<Rightarrow> string \<times> string" where
  "bronze_keys q = (let p = object_prefix ''bronze'' (req_source_table q) (req_batch_id q) (instant (req_logical_date q))
     in (p @ ''/data.parquet'', p @ ''/manifest.json''))"

lemma bronze_keys_shape:
  "fst (bronze_keys q) \<noteq> snd (bronze_keys q)" "fst (bronze_keys q) \<noteq> []" "snd (bronze_keys q) \<noteq> []"
  "\<not> starts_with ''/'' (fst (bronze_keys q))" "\<not> starts_with ''/'' (snd (bronze_keys q))"
  by (simp_all add: bronze_keys_def Let_def object_prefix_def starts_with_def)

lemma upload_and_verify_progress:
  assumes "s3_responsive (ie_encoding env) (ie_s3 env)" "encoding_ok (ie_encoding env)"
    and "table_config (req_source_table q) = Inr cfg" "request_check q = Inr ()" "length (req_batch_id q) \<le> 192"
    and "utcoffset now = Some 0" "run = request_run q cfg rid prior (Some upper)"
    and "\<forall>row \<in> set (ba_rows a). \<forall>n \<in> set (source_column_names cfg). hashable (value_get row n)"
    and "s3_objects (ie_s3 env) (pf_s3 pf) (fst (bronze_keys q)) = None" "s3_objects (ie_s3 env) (pf_s3 pf) (snd (bronze_keys q)) = None"
  obtains ob s where "upload_and_verify_bronze env q run cfg a now pf = (Inr ob, pf\<lparr>pf_s3 := s\<rparr>)"
    "obj_object_key ob = fst (bronze_keys q)" "obj_watermark_after ob = upper" "obj_table_batch_id ob = request_batch q"
proof -
  let ?enc = "ie_encoding env" and ?c = "ie_s3 env" and ?k = "fst (bronze_keys q)" and ?m = "snd (bronze_keys q)"
  let ?body = "ParquetBody (ba_rows a)"
  note name = registered_names [OF assms(3)]
  have req: "\<not> blank (req_batch_id q)" "utcoffset (req_logical_date q) = Some 0"
    using assms(4) by (auto simp: request_check_def assert_utc_def split: if_splits)
  then have ne: "req_batch_id q \<noteq> []" by (auto simp: blank_def)
  have keys: "table_object_keys (source_table cfg) (req_batch_id q) (req_logical_date q) = Inr (bronze_keys q)"
    using name assms(3) req
    by (simp add: table_object_keys_def object_keys_def seq_def check_of_def assert_nonempty_batch_id_def require_def
        assert_utc_def bronze_keys_def Let_def)
  obtain t where h: "table_logical_hash ?enc cfg (ba_rows a) = Inr (text_sha256 ?enc t)"
    using table_logical_hash_defined [OF assms(8)] by blast
  obtain s1 where up: "upload_new ?enc ?c ?k ?body (pf_s3 pf) =
      (Inr \<lparr>so_key = ?k, so_size = byte_size ?enc ?body, so_content_sha256 = byte_sha256 ?enc ?body\<rparr>, s1)"
    "s3_objects ?c s1 = (s3_objects ?c (pf_s3 pf))(?k \<mapsto> \<lparr>object_body = ?body, object_head = put_head ?enc ?body (byte_sha256 ?enc ?body)\<rparr>)"
    using upload_new_progress [OF assms(1) assms(9) bronze_keys_shape(2,4)] by blast
  have "s3_objects ?c s1 ?m = None" using up(2) assms(10) bronze_keys_shape(1) [of q] by (auto simp: eq_commute)
  then obtain s2 where up2: "\<And>j. \<exists>so s2. upload_new ?enc ?c ?m (JsonBody j) s1 = (Inr so, s2)"
    using upload_new_progress [OF assms(1) _ bronze_keys_shape(3,5)] by metis
  have sha: "is_sha256 (byte_sha256 ?enc ?body)" "is_sha256 (text_sha256 ?enc t)" "0 \<le> byte_size ?enc ?body"
    using assms(2) by (simp_all add: encoding_ok_def)
  have not_space: "\<not> is_space CHR ''b''" "\<not> is_space CHR ''_''" by code_simp+
  define ob where "ob = \<lparr>obj_table_batch_id = req_batch_id q @ ''__'' @ source_table cfg, obj_object_key = ?k,
            obj_manifest_key = ?m, obj_schema_version = schema_version cfg,
            obj_row_count = int (ba_row_count a), obj_content_sha256 = byte_sha256 ?enc ?body,
            obj_logical_hash = text_sha256 ?enc t, obj_watermark_after = upper\<rparr>"
  define m where "m = \<lparr>bm_batch_id = req_batch_id q, bm_run_id = run_id run, bm_source_table = source_table cfg,
            bm_logical_date = run_logical_date run, bm_watermark_before = run_watermark_before run,
            bm_extract_upper_bound = upper, bm_object_key = ?k, bm_object_size = byte_size ?enc ?body,
            bm_content_sha256 = byte_sha256 ?enc ?body, bm_logical_hash = text_sha256 ?enc t,
            bm_row_count = int (ba_row_count a), bm_created_at = now,
            bm_schema_version = schema_version cfg, bm_manifest_version = MANIFEST_VERSION,
            bm_object_state = VERIFIED_OBJECT_STATE\<rparr>"
  have blank: "\<not> blank ?k" "\<not> blank (req_batch_id q @ ''__'' @ source_table cfg)" "\<not> blank ?m"
    using not_space by (simp_all add: blank_def bronze_keys_def Let_def object_prefix_def)
  have mc: "bronze_manifest_check m = Inr ()"
    using sha req name blank assms(6,7)
    by (simp add: bronze_manifest_check_def m_def seq_def require_def assert_utc_def assert_sha256_def request_run_def)
  have oc: "verified_bronze_object_check ob = Inr ()"
    using sha name blank assms(5) ne bronze_keys_shape
    by (simp add: verified_bronze_object_check_def ob_def seq_def require_def assert_nonempty_def assert_sha256_def)
  obtain so s2 where u2: "upload_new ?enc ?c ?m (JsonBody (bronze_manifest_json m)) s1 = (Inr so, s2)" using up2 by blast
  have "upload_and_verify_bronze env q run cfg a now pf = (Inr ob, pf\<lparr>pf_s3 := s2\<rparr>)"
  proof (cases "bronze_keys q")
    case (Pair k l)
    with assms(7) keys up(1) h mc oc u2 show ?thesis
      by (simp add: upload_and_verify_bronze_def Let_def bindM_def request_run_def on_s3_def m_def ob_def)
  qed
  with that show thesis using name by (simp add: ob_def request_batch_def)
qed

section \<open>The control plane of an undisturbed run\<close>

lemma utc_instant: "utcoffset now = Some 0 \<Longrightarrow> utc (instant now) = now"
  by (cases now) (simp add: utc_def)

text \<open>Nothing in the database stands in the way of this run.\<close>

definition startable :: "ingestion_request \<Rightarrow> uuid \<Rightarrow> time \<Rightarrow> pipeline_db \<Rightarrow> bool" where
  "startable q rid t db \<longleftrightarrow> db_inv db \<and> map_of (bronze_objects db) (request_batch q) = None \<and>
     list_all (\<lambda>(k, r). br_object_key r \<noteq> fst (bronze_keys q)) (bronze_objects db) \<and>
     map_of (pipeline_runs db) (rid, req_source_table q) = None \<and>
     live_owner db t = None \<and> table_holder (resolved_pipeline_name q) (req_source_table q) db t = None"

lemma live_owner_row:
  assumes "live_owner db t = Some a"
  obtains r where "map_of (source_mutation_leases db) RESOURCE_NAME = Some r"
  using assms by (auto simp: live_owner_def current_lease_def is_active_def split: option.splits if_splits)

lemma live_owner_same: "source_mutation_leases db' = source_mutation_leases db \<Longrightarrow> live_owner db' = live_owner db"
  by (simp add: live_owner_def current_lease_def lease_owner_def fun_eq_iff)

lemma acquire_source_progress:
  assumes "source_lease_inv db" "live_owner db (instant now) = None" "utcoffset now = Some 0"
  obtains sl db' where "acquire_source_mutation_lease WAREHOUSE_OWNER_TYPE rid now DEFAULT_LEASE_TTL db = (Inr sl, db')"
    "source_lease_inv db'" "ingestion_tables db' = ingestion_tables db" "lease_owner_type sl = WAREHOUSE_OWNER_TYPE"
    "\<And>db''. source_mutation_leases db'' = source_mutation_leases db' \<Longrightarrow> assert_source_mutation_lease sl now db'' = (Inr (), db'')"
proof -
  let ?a = "(WAREHOUSE_OWNER_TYPE, rid)"
  have "(0 :: int) < DEFAULT_LEASE_TTL" by (simp add: DEFAULT_LEASE_TTL_def)
  moreover have "assert_owner_type (fst ?a) = Inr ()" by (simp add: assert_owner_type_def)
  ultimately obtain sl db' where "acquire_at ?a (instant now) DEFAULT_LEASE_TTL db = (Inr sl, db')"
    using source_lease.acquire_free [OF assms(1)] assms(2) by blast
  moreover from source_lease.acquire_ok [OF assms(1) this]
  have live: "live_owner db' (instant now) = Some ?a" "source_lease_inv db'" by auto
  ultimately have acq: "acquire_source_mutation_lease WAREHOUSE_OWNER_TYPE rid now DEFAULT_LEASE_TTL db = (Inr sl, db')"
    by (simp add: acquire_at_def utc_instant [OF assms(3)])
  have sl: "current_lease db' = sl" "lease_owner_type sl = WAREHOUSE_OWNER_TYPE" "lease_owner_id sl = rid"
    using acquire_ok [OF acq] by auto
  have same: "ingestion_tables db' = ingestion_tables db" using keepsD [OF keeps_acquire_source acq] .
  obtain r where r: "map_of (source_mutation_leases db') RESOURCE_NAME = Some r" using live(1) by (rule live_owner_row)
  have "assert_source_mutation_lease sl now db'' = (Inr (), db'')"
    if "source_mutation_leases db'' = source_mutation_leases db'" for db''
  proof -
    have "current_lease db'' = sl" using that sl(1) by (simp add: current_lease_def)
    moreover have "is_active sl (instant now)" using live(1) sl(1) by (simp add: live_owner_def split: if_splits)
    ultimately show ?thesis
      using that r assms(3) by (simp add: assert_source_mutation_lease_ok assert_current_lease_ok)
  qed
  with acq live(2) same sl(2) that show thesis by blast
qed

lemma acquire_table_progress:
  assumes "db_inv db" "table_holder p t db (instant now) = None" "utcoffset now = Some 0"
    and "assert_nonempty p ''pipeline_name'' (Some 128) = Inr ()" "assert_nonempty t ''source_table'' (Some 64) = Inr ()"
    and "map_of (watermarks db) (p, t) = Some r"
  obtains tb db' x where "acquire_table_lease p t rid now DEFAULT_TABLE_LEASE_TTL db = (Inr tb, db')" "db_inv db'"
    "rest db' = rest db" "map_of (watermarks db') (p, t) = Some x" "wr_version x = wr_version r"
    "wr_timestamp x = wr_timestamp r" "wr_keys x = wr_keys r" "wr_lease_owner x = Some rid" "lease_unexpired x (instant now)"
    "tl_owner_id tb = rid"
    "\<And>db''. watermarks db'' = watermarks db' \<Longrightarrow> assert_table_lease tb now db'' = (Inr (), db'')"
proof -
  have inv: "watermarks_inv db" using assms(1) by (simp add: db_inv_def)
  have ttl: "0 < DEFAULT_TABLE_LEASE_TTL" by (simp add: DEFAULT_TABLE_LEASE_TTL_def)
  then obtain tb db' where acq: "acquire_table_lease p t rid now DEFAULT_TABLE_LEASE_TTL db = (Inr tb, db')"
    using acquire_table_lease_progress [OF inv assms(4,5), of DEFAULT_TABLE_LEASE_TTL "instant now" rid] assms(2)
    by (auto simp: utc_instant [OF assms(3)])
  have ens: "ensure_watermark_row p t (instant now) db = db" using assms(6) by (simp add: ensure_watermark_row_def)
  define x where "x = r\<lparr>wr_lease_owner := Some rid, wr_lease_expires_at := Some (instant now + DEFAULT_TABLE_LEASE_TTL)\<rparr>"
  from acquire_table_lease_ok [OF acq inv] assms(6) have ok: "tl_owner_id tb = rid" "tl_pipeline_name tb = p" "tl_source_table tb = t"
    "tl_watermark_version tb = wr_version r" "map_of (watermarks db') (p, t) = Some x"
    by (auto simp: ens x_def)
  have d: "db_inv db'" using acquire_lease_like [OF assms(1) acq] by simp
  have un: "lease_unexpired x (instant now)" using ttl by (simp add: lease_unexpired_def x_def)
  have "assert_table_lease tb now db'' = (Inr (), db'')" if "watermarks db'' = watermarks db'" for db''
    using that ok ttl assms(3)
    by (simp add: assert_table_lease_def bindM_def assertM_apply holds_table_lease_def table_lease_now_def x_def)
  with that [OF acq d keepsD [OF keeps_rest_acquire acq] ok(5) _ _ _ _ un ok(1)] show thesis by (simp add: x_def)
qed

lemma record_started_progress:
  assumes "db_inv db" "map_of (pipeline_runs db) (run_key run) = None" "utcoffset now = Some 0"
  obtains r where "record_started_run run now db = (Inr (), db\<lparr>pipeline_runs := pipeline_runs db @ [(run_key run, r)]\<rparr>)"
    "rr_status r = RUNNING" "db_inv (db\<lparr>pipeline_runs := pipeline_runs db @ [(run_key run, r)]\<rparr>)"
proof -
  obtain x db' where "record_started_run run now db = (x, db')" by (cases "record_started_run run now db")
  moreover from this have "x = Inr ()" using assms(2,3)
    by (auto simp: record_started_run_def bindM_def transactionM_def insert_row_def run_key_def utc_now_def assert_utc_def)
  ultimately have s: "record_started_run run now db = (Inr (), db')" by simp
  from record_started_run_ok [OF s assms(1)] s that show thesis by auto
qed

lemma commit_progress:
  assumes "db_inv db" "utcoffset now = Some 0" "tc_quarantine c = None"
    and "map_of (watermarks db) (expected_key c) = Some x" "wr_lease_owner x = Some (tc_lease_owner c)" "lease_unexpired x (instant now)"
    and "wr_version x = wm_version (tc_expected_watermark c)"
      "wm_cursor (tc_expected_watermark c) = \<lparr>cp_timestamp = wr_timestamp x, cp_keys = wr_keys x\<rparr>"
    and "map_of (bronze_objects db) (obj_table_batch_id (tc_object c)) = None"
      "list_all (\<lambda>(k, r). br_object_key r \<noteq> obj_object_key (tc_object c)) (bronze_objects db)"
    and "map_of (pipeline_runs db) (run_key (tc_run c)) = Some r" "rr_status r = RUNNING"
  shows "\<exists>db'. commit_table_run c now db = (Inr (), db')"
proof -
  let ?k = "expected_key c"
  let ?q = "\<lambda>x. wr_version x = wm_version (tc_expected_watermark c) \<and>
      wr_timestamp x = cp_timestamp (wm_cursor (tc_expected_watermark c)) \<and>
      wr_keys x = cp_keys (wm_cursor (tc_expected_watermark c))"
  let ?t = "instant now"
  have holds: "holds_table_lease (map_of (watermarks db) ?k) (tc_lease_owner c) ?t"
    using assms(4-6) by (auto simp: holds_table_lease_def lease_unexpired_def split: option.splits)
  define db1 where "db1 = db\<lparr>bronze_objects := bronze_objects db @ [(obj_table_batch_id (tc_object c), committed_row c ?t)]\<rparr>"
  have ins: "insert_bronze_object (obj_table_batch_id (tc_object c)) (committed_row c ?t) db = (Inr (), db1)"
    using assms(9,10) by (auto simp: insert_bronze_object_def insert_row_def committed_row_def Let_def db1_def list_all_iff list_ex_iff)
  have runs: "pk_ok (pipeline_runs db1)" using assms(1) by (simp add: db1_def db_inv_def runs_inv_def)
  define db2 where "db2 = db1\<lparr>pipeline_runs := update_rows (\<lambda>k r. k = run_key (tc_run c) \<and> rr_status r = RUNNING)
      (succeeded_row c ?t) (pipeline_runs db1)\<rparr>"
  have "matching (\<lambda>k r. k = run_key (tc_run c) \<and> rr_status r = RUNNING) (pipeline_runs db1) = 1"
    using matching_pk_1 [OF runs, of "\<lambda>k r. k = run_key (tc_run c) \<and> rr_status r = RUNNING" "run_key (tc_run c)"] assms(11,12)
    by (auto simp: db1_def)
  then have fin: "finish_run (tc_run c) (succeeded_row c ?t) ''Only a RUNNING pipeline run can be committed'' db1 = (Inr (), db2)"
    by (simp add: finish_run_def bindM_def run_key_def assertM_apply db2_def Let_def)
  have "watermarks_inv db2" using assms(1) by (simp add: db1_def db2_def db_inv_def watermarks_inv_def)
  from update_watermarks_at [OF this, of ?k ?q "advanced_row c ?t"] assms(4,7,8)
  obtain db3 where upd: "update_watermarks (\<lambda>k x. k = ?k \<and> ?q x) (advanced_row c ?t) db2 = (Inr 1, db3)"
    by (simp add: db1_def db2_def)
  have "commit_table_run c now db = (Inr (), db3)"
    using holds ins fin upd assms(2,3)
    unfolding commit_table_run_def Let_def committed_row_def succeeded_row_def [abs_def] advanced_row_def [abs_def] expected_key_def
    by (simp add: bindM_def transactionM_def assertM_apply utc_now_def assert_utc_def)
  then show ?thesis by blast
qed

definition request_run_id :: "'s ingest_env \<Rightarrow> ingestion_request \<Rightarrow> uuid" where
  "request_run_id env q = (case req_run_id q of Some u \<Rightarrow> u | None \<Rightarrow> ie_fresh_run_id env)"

section \<open>An undisturbed run succeeds\<close>

text \<open>
  A first attempt on a free table: the request is well-formed and names a batch that is not
  committed, both leases are free, and the snapshot is open to the reader.
\<close>

definition ready_to_start ::
    "'s ingest_env \<Rightarrow> ingestion_request \<Rightarrow> table_config \<Rightarrow> source_row list \<Rightarrow> datetime \<Rightarrow> 's platform \<Rightarrow> bool" where
  "ready_to_start env q cfg rows now pf \<longleftrightarrow>
     undisturbed env \<and> s3_responsive (ie_encoding env) (ie_s3 env) \<and>
     table_config (req_source_table q) = Inr cfg \<and> request_check q = Inr () \<and>
     (\<exists>identity. table_batch_identity_of q cfg = Inr identity) \<and> length (req_batch_id q) \<le> 192 \<and>
     \<not> blank (resolved_pipeline_name q) \<and> length (resolved_pipeline_name q) \<le> 128 \<and> utcoffset now = Some 0 \<and>
     startable q (request_run_id env q) (instant now) (pf_db pf) \<and> ie_source env = Inr rows \<and> source_rows_ok cfg rows \<and>
     assert_cursor cfg (watermark_cursor (request_key q) (pf_db pf)) = Inr () \<and>
     (\<exists>n. (case req_page_size q of Some n \<Rightarrow> Inr n | None \<Rightarrow> ingestion_page_size (ie_environment env)) = Inr n \<and> 0 < n)"

text \<open>
  Besides, nothing of the batch is uploaded, no file is left over, every row of the snapshot
  meets the contract, and there is a row past the watermark.
\<close>

definition ready_to_ingest ::
    "'s ingest_env \<Rightarrow> ingestion_request \<Rightarrow> table_config \<Rightarrow> source_row list \<Rightarrow> datetime \<Rightarrow> 's platform \<Rightarrow> bool" where
  "ready_to_ingest env q cfg rows now pf \<longleftrightarrow> ready_to_start env q cfg rows now pf \<and>
     encoding_ok (ie_encoding env) \<and> req_corruption_plan q = None \<and>
     s3_objects (ie_s3 env) (pf_s3 pf) (fst (bronze_keys q)) = None \<and>
     s3_objects (ie_s3 env) (pf_s3 pf) (snd (bronze_keys q)) = None \<and>
     local_path cfg (request_run_id env q) ''.parquet'' \<notin> set (pf_files pf) \<and> valid_source env cfg rows \<and>
     (\<exists>row \<in> set rows. past (cursor_bound (watermark_cursor (request_key q) (pf_db pf))) (row_rank cfg row))"

lemma table_batch_identity_request:
  assumes "table_batch_identity_of q cfg = Inr identity" "table_config (req_source_table q) = Inr cfg"
  shows "table_batch_id identity = request_batch q"
  using assms registered_names [OF assms(2)]
  by (auto simp: table_batch_identity_of_def Let_def table_batch_ok table_batch_id_def request_batch_def
      split: sum.splits)

lemma get_committed_progress:
  assumes "bronze_inv db" "map_of (bronze_objects db) (table_batch_id i) = None"
  shows "get_committed_table_batch lz i db = (Inr None, db)"
proof -
  have "first_match (\<lambda>k r. k = table_batch_id i \<and> br_status r = COMMITTED) (bronze_objects db) = None"
    using assms by (subst first_match_pk [where x = "table_batch_id i"]) (auto simp: bronze_inv_def)
  then show ?thesis by (simp add: get_committed_table_batch_def bindM_def)
qed

lemma open_snapshot_progress:
  assumes "table_config name = Inr cfg" "ie_source env = Inr rows" "source_rows_ok cfg rows" "assert_cursor cfg prior = Inr ()"
    and "(case ps of Some n \<Rightarrow> Inr n | None \<Rightarrow> ingestion_page_size (ie_environment env)) = Inr n" "0 < n"
  obtains snap where "open_snapshot env cfg prior ps = Inr snap"
    "snap_extract_upper_bound snap = None \<longleftrightarrow> (\<forall>row \<in> set rows. \<not> past (cursor_bound prior) (row_rank cfg row))"
proof -
  obtain u where u: "fetch_upper_bound cfg rows prior = Inr u" "u = None \<longleftrightarrow> (\<forall>row \<in> set rows. \<not> past (cursor_bound prior) (row_rank cfg row))"
    using fetch_upper_bound_ok [OF assms(1,3), of prior] by auto
  have "assert_supported_config cfg = Inr ()"
    using assms(1) registered_names [OF assms(1)] by (simp add: assert_supported_config_def require_def)
  with assms(2,4-6) u that show thesis
    by (simp add: open_snapshot_def open_table_snapshot_def seq_def require_def)
qed

text \<open>
  The run up to its start: the leases are held, the run is RUNNING, and whatever the body then
  returns is what \<open>ingest_table\<close> returns. \<open>run_ready\<close> is the state the body starts in.
\<close>

definition run_ready ::
    "'s ingest_env \<Rightarrow> ingestion_request \<Rightarrow> table_config \<Rightarrow> datetime \<Rightarrow> watermark \<Rightarrow> source_mutation_lease \<Rightarrow> table_lease \<Rightarrow>
     pipeline_run \<Rightarrow> 's platform \<Rightarrow> bool" where
  "run_ready env q cfg now w sl tb run pf \<longleftrightarrow>
     pf_heartbeat pf = Some (start_heartbeat sl (Some tb)) \<and>
     assert_source_mutation_lease sl now (pf_db pf) = (Inr (), pf_db pf) \<and>
     assert_table_lease tb now (pf_db pf) = (Inr (), pf_db pf) \<and> db_inv (pf_db pf) \<and>
     (\<exists>x. map_of (watermarks (pf_db pf)) (request_key q) = Some x \<and> wr_lease_owner x = Some (tl_owner_id tb) \<and>
        lease_unexpired x (instant now) \<and>
        w = \<lparr>wm_pipeline_name = resolved_pipeline_name q, wm_source_table = source_table cfg,
          wm_cursor = \<lparr>cp_timestamp = wr_timestamp x, cp_keys = wr_keys x\<rparr>, wm_version = wr_version x\<rparr>) \<and>
     map_of (bronze_objects (pf_db pf)) (request_batch q) = None \<and>
     list_all (\<lambda>(k, r). br_object_key r \<noteq> fst (bronze_keys q)) (bronze_objects (pf_db pf)) \<and>
     (\<exists>r. map_of (pipeline_runs (pf_db pf)) (run_key run) = Some r \<and> rr_status r = RUNNING)"

lemma on_db_progress: "m (pf_db pf) = (Inr x, db) \<Longrightarrow> on_db m pf = (Inr x, pf\<lparr>pf_db := db\<rparr>)"
  by (simp add: on_db_def)

text \<open>From the first page to the commit.\<close>

lemma write_and_commit_progress:
  assumes "undisturbed env" "s3_responsive (ie_encoding env) (ie_s3 env)" "encoding_ok (ie_encoding env)"
    and "table_config (req_source_table q) = Inr cfg" "request_check q = Inr ()" "req_corruption_plan q = None"
    and "length (req_batch_id q) \<le> 192" "utcoffset now = Some 0" "valid_source env cfg rows" "arrow_accepts (ie_to_arrow env) conv cfg"
    and "snap_rows snap = rows" "snap_config snap = cfg" "0 < snap_page_size snap" "snap_extract_upper_bound snap = Some upper"
    and "run = request_run q cfg rid (wm_cursor w) (Some upper)"
    and "local_path cfg rid ''.parquet'' \<notin> set (pf_files pf)"
      "s3_objects (ie_s3 env) (pf_s3 pf) (fst (bronze_keys q)) = None" "s3_objects (ie_s3 env) (pf_s3 pf) (snd (bronze_keys q)) = None"
    and "run_ready env q cfg now w sl tb run pf"
  obtains res pf' where "write_and_commit env q cfg w sl tb snap upper run now pf = (Inr res, pf')"
    "res_status res = ''SUCCESS''" "pf_heartbeat pf' = pf_heartbeat pf"
proof -
  from assms(19) obtain x r where ready: "pf_heartbeat pf = Some (start_heartbeat sl (Some tb))"
    "assert_source_mutation_lease sl now (pf_db pf) = (Inr (), pf_db pf)" "assert_table_lease tb now (pf_db pf) = (Inr (), pf_db pf)"
    "db_inv (pf_db pf)" "map_of (watermarks (pf_db pf)) (request_key q) = Some x" "wr_lease_owner x = Some (tl_owner_id tb)"
    "lease_unexpired x (instant now)" "w = \<lparr>wm_pipeline_name = resolved_pipeline_name q, wm_source_table = source_table cfg,
       wm_cursor = \<lparr>cp_timestamp = wr_timestamp x, cp_keys = wr_keys x\<rparr>, wm_version = wr_version x\<rparr>"
    "map_of (bronze_objects (pf_db pf)) (request_batch q) = None"
    "list_all (\<lambda>(k, r). br_object_key r \<noteq> fst (bronze_keys q)) (bronze_objects (pf_db pf))"
    "map_of (pipeline_runs (pf_db pf)) (run_key run) = Some r" "rr_status r = RUNNING"
    unfolding run_ready_def by blast
  define rs where "rs = batch_records cfg rows (snap_watermark_before snap) upper"
  have rid: "run_id run = rid" using assms(15) by (simp add: request_run_def)
  let ?c = "run_context q rid now"
  let ?la = "\<lparr>la_bronze = \<lparr>ba_rows = committed_rows conv cfg ?c rs, ba_row_count = length rs\<rparr>,
          la_quarantine = None, la_extracted = length rs, la_rejected = 0, la_corrupted = 0\<rparr>"
  let ?pf1 = "pf\<lparr>pf_files := local_path cfg rid ''.parquet'' # pf_files pf\<rparr>"
  have batch: "\<not> blank (req_batch_id q)" using assms(5) by (simp add: request_check_def)
  have w1: "write_local_artifacts env snap upper q run cfg now pf = (Inr ?la, ?pf1)"
    using write_local_artifacts_progress [OF assms(4,9,10,6) batch assms(8,11-14)] assms(16) by (simp add: rid rs_def)
  have "clean_rows env (new_validation_pipeline cfg (snap_watermark_before snap) upper) rs"
    unfolding rs_def by (rule valid_source_clean [OF assms(4,9)])
  then have "\<forall>r \<in> set rs. rec_config r = cfg \<and> row_conforms cfg (rec_values r)"
    by (auto simp: clean_rows_def list_all_iff clean_record_def new_validation_pipeline_def)
  then have hash: "\<forall>row \<in> set (ba_rows (la_bronze ?la)). \<forall>n \<in> set (source_column_names cfg). hashable (value_get row n)"
    using assms(10) by (simp add: arrow_accepts_def)
  have s3: "s3_objects (ie_s3 env) (pf_s3 ?pf1) (fst (bronze_keys q)) = None"
    "s3_objects (ie_s3 env) (pf_s3 ?pf1) (snd (bronze_keys q)) = None" using assms(17,18) by simp_all
  obtain ob s where up: "upload_and_verify_bronze env q run cfg (la_bronze ?la) now ?pf1 = (Inr ob, ?pf1\<lparr>pf_s3 := s\<rparr>)"
    "obj_object_key ob = fst (bronze_keys q)" "obj_watermark_after ob = upper" "obj_table_batch_id ob = request_batch q"
    using upload_and_verify_progress [OF assms(2-5,7,8,15) hash s3] by metis
  let ?pf2 = "?pf1\<lparr>pf_s3 := s\<rparr>"
  define c where "c = \<lparr>tc_run = run, tc_object = ob, tc_expected_watermark = w, tc_rows_extracted = int (length rs),
              tc_rows_valid = int (length rs), tc_rows_rejected = 0, tc_rows_loaded = int (length rs),
              tc_lease_owner = tl_owner_id tb, tc_quarantine = None\<rparr>"
  note name = registered_names [OF assms(4)]
  have "table_commit_check c = Inr ()"
    using assms(15) ready(8) by (simp add: table_commit_check_def c_def Let_def request_run_def seq_def require_def)
  moreover have "check_heartbeat env pt ?pf1 = (Inr (), ?pf1)" "check_heartbeat env pt ?pf2 = (Inr (), ?pf2)" for pt
    using ready(1) by (simp_all add: check_heartbeat_undisturbed [OF assms(1)] start_heartbeat_def)
  ultimately have p: "prepare_commit env q cfg w sl tb snap upper run now pf = (Inr (c, 0), ?pf2)"
    using w1 up(1) assms(1) ready(2,3)
    by (simp add: prepare_commit_def bindM_def on_db_def assert_reject_rate_def publish_quarantine_def Let_def c_def)
  have key: "expected_key c = request_key q" using ready(8) name by (simp add: c_def expected_key_def request_key_def)
  have "\<exists>db'. commit_table_run c now (pf_db pf) = (Inr (), db')"
    using ready(5-12) up(2,4) key
    by (intro commit_progress [OF ready(4) assms(8), of c x r]) (simp_all add: c_def)
  then obtain db' where "commit_table_run c now (pf_db ?pf2) = (Inr (), db')" by auto
  then have "write_and_commit env q cfg w sl tb snap upper run now pf = (Inr (success_result c 0), ?pf2\<lparr>pf_db := db'\<rparr>)"
    using p assms(1) by (simp add: write_and_commit_def bindM_def on_db_def)
  with that show thesis by (simp add: success_result_def)
qed

lemma request_check_ok:
  assumes "request_check q = Inr ()"
  shows "\<not> blank (req_batch_id q)" "0 < req_attempt_number q" "utcoffset (req_logical_date q) = Some 0"
  using assms by (simp_all add: request_check_def assert_utc_def split: if_splits)

lemma started_run_progress:
  assumes "snap_extract_upper_bound snap = Some upper"
    and "write_and_commit env q cfg w sl tb snap upper run now pf = (Inr res, pf')"
  shows "started_run env q cfg w sl tb snap run now pf = (Inr res, pf')"
  using assms by (simp add: started_run_def onerrorM_def)

lemma leased_run_progress:
  assumes "undisturbed env"
    and "start_run env q cfg w rid now (pf\<lparr>pf_heartbeat := Some (start_heartbeat sl (Some tb))\<rparr>) = (Inr (snap, run), pf1)"
    and "started_run env q cfg w sl tb snap run now pf1 = (Inr res, pf2)"
    and "pf_heartbeat pf2 = Some (start_heartbeat sl (Some tb))"
  shows "\<exists>pf'. leased_run env q cfg w sl owned tb rid now pf = (Inr res, pf')"
proof -
  have "check_heartbeat env LeaveHeartbeat pf2 = (Inr (), pf2)"
    by (rule check_heartbeat_undisturbed [OF assms(1,4)]) (simp add: start_heartbeat_def)
  then have "with_heartbeat env sl tb (snapshot_body env q cfg w sl tb rid now) pf = (Inr (True, Inr res), pf2\<lparr>pf_heartbeat := None\<rparr>)"
    using assms(2,3) by (simp add: with_heartbeat_def snapshot_body_def bindM_def)
  then show ?thesis
    by (simp add: leased_run_def finallyM_def bindM_def remove_local_artifacts_def split: if_splits)
qed

lemma run_start_progress:
  assumes "ready_to_start env q cfg rows now pf"
  defines "prior \<equiv> watermark_cursor (request_key q) (pf_db pf)"
  obtains w sl tb snap run pf3 where "open_snapshot env cfg prior (req_page_size q) = Inr snap" "wm_cursor w = prior"
    "snap_extract_upper_bound snap = None \<longleftrightarrow> (\<forall>row \<in> set rows. \<not> past (cursor_bound prior) (row_rank cfg row))"
    "run = request_run q cfg (request_run_id env q) prior (snap_extract_upper_bound snap)" "run_ready env q cfg now w sl tb run pf3"
    "pf_files pf3 = pf_files pf" "s3_objects (ie_s3 env) (pf_s3 pf3) = s3_objects (ie_s3 env) (pf_s3 pf)"
    "\<And>res pf4. started_run env q cfg w sl tb snap run now pf3 = (Inr res, pf4) \<Longrightarrow> pf_heartbeat pf4 = pf_heartbeat pf3 \<Longrightarrow>
       \<exists>pf5. ingest_table env q now None pf = (Inr res, pf5)"
proof -
  let ?rid = "request_run_id env q"
  let ?p = "resolved_pipeline_name q" and ?t = "req_source_table q" and ?k = "request_key q"
  from assms(1) obtain identity n where env: "undisturbed env" "s3_responsive (ie_encoding env) (ie_s3 env)"
    and cfg: "table_config ?t = Inr cfg"
    and req: "request_check q = Inr ()" "table_batch_identity_of q cfg = Inr identity"
      "length (req_batch_id q) \<le> 192" "\<not> blank ?p" "length ?p \<le> 128"
    and now: "utcoffset now = Some 0" and start: "startable q ?rid (instant now) (pf_db pf)"
    and src: "ie_source env = Inr rows" "source_rows_ok cfg rows" "assert_cursor cfg prior = Inr ()"
      "(case req_page_size q of Some n \<Rightarrow> Inr n | None \<Rightarrow> ingestion_page_size (ie_environment env)) = Inr n" "0 < n"
    unfolding ready_to_start_def prior_def by blast
  note name = registered_names [OF cfg]
  have inv: "db_inv (pf_db pf)" using start by (simp add: startable_def)
  then have winv: "watermarks_inv (pf_db pf)" by (simp add: db_inv_def)
  have names: "assert_nonempty ?p ''pipeline_name'' (Some 128) = Inr ()" "assert_nonempty ?t ''source_table'' (Some 64) = Inr ()"
    using req(4,5) name by (auto simp: assert_nonempty_def blank_def)
  obtain s1 where s1: "ensure_bucket (ie_s3 env) (pf_s3 pf) = (Inr (), s1)" "s3_objects (ie_s3 env) s1 = s3_objects (ie_s3 env) (pf_s3 pf)"
    using ensure_bucket_progress [OF env(2)] by blast
  let ?db1 = "ensure_watermark_row ?p ?t (instant now) (pf_db pf)"
  obtain w where w: "get_or_create_watermark ?p ?t now (pf_db pf) = (Inr w, ?db1)"
    using get_or_create_watermark_progress [OF winv names, of "instant now"] by (auto simp: utc_instant [OF now])
  from get_or_create_watermark_ok [OF w winv] obtain r where r: "map_of (watermarks ?db1) ?k = Some r"
    "w = \<lparr>wm_pipeline_name = ?p, wm_source_table = ?t, wm_cursor = \<lparr>cp_timestamp = wr_timestamp r, cp_keys = wr_keys r\<rparr>,
       wm_version = wr_version r\<rparr>" by (auto simp: request_key_def intro: watermark.equality)
  have w_prior: "wm_cursor w = prior"
    using r lease_like_watermark(1) [OF lease_like_ensure, of ?k ?p ?t "instant now" "pf_db pf"]
    by (simp add: prior_def watermark_at)
  have rest1: "rest ?db1 = rest (pf_db pf)" by (auto simp: rest_def ensure_watermark_row_def split: option.splits)
  have inv1: "db_inv ?db1" by (rule db_inv_rest [OF inv rest1]) (simp add: winv)
  have find: "get_committed_table_batch (ie_local_offset env) identity ?db1 = (Inr None, ?db1)"
    using start rest1 table_batch_identity_request [OF req(2) cfg] inv1
    by (intro get_committed_progress) (auto simp: startable_def rest_def db_inv_def)
  have live: "live_owner ?db1 (instant now) = None"
    using start live_owner_same [of ?db1 "pf_db pf"] rest1 by (simp add: startable_def rest_def)
  have sinv: "source_lease_inv ?db1" using inv1 by (simp add: db_inv_def)
  obtain sl db2 where sl: "acquire_source_mutation_lease WAREHOUSE_OWNER_TYPE ?rid now DEFAULT_LEASE_TTL ?db1 = (Inr sl, db2)"
    "source_lease_inv db2" "ingestion_tables db2 = ingestion_tables ?db1" "lease_owner_type sl = WAREHOUSE_OWNER_TYPE"
    "\<And>db''. source_mutation_leases db'' = source_mutation_leases db2 \<Longrightarrow> assert_source_mutation_lease sl now db'' = (Inr (), db'')"
    using acquire_source_progress [OF sinv live now] by metis
  have inv2: "db_inv db2" using ingestion_tables_inv [OF inv1 sl(3,2)] .
  have "watermarks db2 = watermarks ?db1" using sl(3) by (simp add: ingestion_tables_def)
  moreover from this have "table_holder ?p ?t db2 = table_holder ?p ?t ?db1" by (simp add: table_holder_def fun_eq_iff del: table_holder_ensure)
  ultimately have t2: "map_of (watermarks db2) (?p, ?t) = Some r" "table_holder ?p ?t db2 (instant now) = None"
    using r(1) start by (simp_all add: request_key_def startable_def)
  obtain tb db3 x where tb: "acquire_table_lease ?p ?t ?rid now DEFAULT_TABLE_LEASE_TTL db2 = (Inr tb, db3)" "db_inv db3"
    "rest db3 = rest db2" "map_of (watermarks db3) (?p, ?t) = Some x" "wr_version x = wr_version r"
    "wr_timestamp x = wr_timestamp r" "wr_keys x = wr_keys r" "wr_lease_owner x = Some ?rid" "lease_unexpired x (instant now)"
    "tl_owner_id tb = ?rid"
    "\<And>db''. watermarks db'' = watermarks db3 \<Longrightarrow> assert_table_lease tb now db'' = (Inr (), db'')"
    using acquire_table_progress [OF inv2 t2(2) now names t2(1)] by metis
  obtain snap where snap: "open_snapshot env cfg prior (req_page_size q) = Inr snap"
    "snap_extract_upper_bound snap = None \<longleftrightarrow> (\<forall>row \<in> set rows. \<not> past (cursor_bound prior) (row_rank cfg row))"
    using open_snapshot_progress [OF cfg src] by blast
  define run where "run = request_run q cfg ?rid prior (snap_extract_upper_bound snap)"
  have run_ok: "pipeline_run_check run = Inr ()"
    using request_check_ok [OF req(1)] req(3) names name
    by (auto simp: pipeline_run_check_def run_def request_run_def assert_nonempty_def assert_utc_def blank_def)
  have bronze3: "bronze_objects db3 = bronze_objects (pf_db pf)" "pipeline_runs db3 = pipeline_runs (pf_db pf)"
    "source_mutation_leases db3 = source_mutation_leases db2"
    using tb(3) sl(3) rest1 by (simp_all add: rest_def ingestion_tables_def)
  have free: "map_of (pipeline_runs db3) (run_key run) = None"
    using start bronze3 name by (simp add: startable_def run_key_def run_def request_run_def)
  obtain rr where rr: "record_started_run run now db3 = (Inr (), db3\<lparr>pipeline_runs := pipeline_runs db3 @ [(run_key run, rr)]\<rparr>)"
    "rr_status rr = RUNNING" "db_inv (db3\<lparr>pipeline_runs := pipeline_runs db3 @ [(run_key run, rr)]\<rparr>)"
    using record_started_progress [OF tb(2) free now] by metis
  define pf2 where "pf2 = pf\<lparr>pf_s3 := s1, pf_db := db3\<rparr>"
  define pf3 where "pf3 = pf2\<lparr>pf_heartbeat := Some (start_heartbeat sl (Some tb)),
      pf_db := db3\<lparr>pipeline_runs := pipeline_runs db3 @ [(run_key run, rr)]\<rparr>\<rparr>"
  have st: "start_run env q cfg w ?rid now (pf2\<lparr>pf_heartbeat := Some (start_heartbeat sl (Some tb))\<rparr>) = (Inr (snap, run), pf3)"
    using snap(1) run_ok rr(1) env(1) w_prior
    by (simp add: start_run_def bindM_def Let_def run_def [symmetric] on_db_def pf3_def pf2_def)
  have wx: "w = \<lparr>wm_pipeline_name = ?p, wm_source_table = source_table cfg,
         wm_cursor = \<lparr>cp_timestamp = wr_timestamp x, cp_keys = wr_keys x\<rparr>, wm_version = wr_version x\<rparr>"
    using r(2) tb(5-7) name by simp
  have ready: "run_ready env q cfg now w sl tb run pf3"
    unfolding run_ready_def
    using sl(5) tb wx start bronze3 rr(2,3) free
    by (auto simp: pf3_def pf2_def request_key_def startable_def)
  have fin: "\<exists>pf5. ingest_table env q now None pf = (Inr res, pf5)"
    if body: "started_run env q cfg w sl tb snap run now pf3 = (Inr res, pf4)" "pf_heartbeat pf4 = pf_heartbeat pf3" for res pf4
  proof -
    have "pf_heartbeat pf4 = Some (start_heartbeat sl (Some tb))" using body(2) by (simp add: pf3_def)
    from leased_run_progress [OF env(1) st body(1) this, of True]
    obtain pf5 where lr: "leased_run env q cfg w sl True tb ?rid now pf2 = (Inr res, pf5)" by blast
    have chk: "check_leases env q cfg sl ?rid now (pf\<lparr>pf_s3 := s1, pf_db := db2\<rparr>) = (Inr tb, pf2)"
      using sl(4,5) tb(1) env(1) name by (simp add: check_leases_def bindM_def assertM_apply on_db_def pf2_def)
    have "new_run env q cfg w None ?rid now (pf\<lparr>pf_s3 := s1, pf_db := ?db1\<rparr>) = (Inr res, pf5)"
      using sl(1) chk lr env(1) by (simp add: new_run_def bindM_def onerrorM_def on_db_def)
    then have "ingest_table env q now None pf = (Inr res, pf5)"
      using s1(1) w find req(2) cfg env(1) now name
      by (simp add: ingest_table_def Let_def bindM_def on_s3_def on_db_def assert_utc_def request_run_id_def [symmetric])
    then show ?thesis by blast
  qed
  show thesis
    by (rule that [OF snap(1) w_prior snap(2) run_def ready _ _ fin]) (simp_all add: pf3_def pf2_def s1(2))
qed

lemma ingest_progress:
  assumes "ready_to_ingest env q cfg rows now pf" "arrow_accepts (ie_to_arrow env) conv cfg"
  shows "\<exists>x pf'. ingest_table env q now None pf = (Inr x, pf') \<and> res_status x = ''SUCCESS''"
proof -
  let ?prior = "watermark_cursor (request_key q) (pf_db pf)"
  from assms(1) have start: "ready_to_start env q cfg rows now pf"
    and rest: "encoding_ok (ie_encoding env)" "req_corruption_plan q = None"
      "s3_objects (ie_s3 env) (pf_s3 pf) (fst (bronze_keys q)) = None" "s3_objects (ie_s3 env) (pf_s3 pf) (snd (bronze_keys q)) = None"
      "local_path cfg (request_run_id env q) ''.parquet'' \<notin> set (pf_files pf)" "valid_source env cfg rows"
      "\<exists>row \<in> set rows. past (cursor_bound ?prior) (row_rank cfg row)"
    by (simp_all add: ready_to_ingest_def)
  from start have env: "undisturbed env" "s3_responsive (ie_encoding env) (ie_s3 env)" "table_config (req_source_table q) = Inr cfg"
    "request_check q = Inr ()" "length (req_batch_id q) \<le> 192" "utcoffset now = Some 0" "ie_source env = Inr rows"
    by (simp_all add: ready_to_start_def)
  from start obtain w sl tb snap run pf3 where s: "open_snapshot env cfg ?prior (req_page_size q) = Inr snap" "wm_cursor w = ?prior"
    "snap_extract_upper_bound snap = None \<longleftrightarrow> (\<forall>row \<in> set rows. \<not> past (cursor_bound ?prior) (row_rank cfg row))"
    "run = request_run q cfg (request_run_id env q) ?prior (snap_extract_upper_bound snap)" "run_ready env q cfg now w sl tb run pf3"
    "pf_files pf3 = pf_files pf" "s3_objects (ie_s3 env) (pf_s3 pf3) = s3_objects (ie_s3 env) (pf_s3 pf)"
    and fin: "\<And>res pf4. started_run env q cfg w sl tb snap run now pf3 = (Inr res, pf4) \<Longrightarrow> pf_heartbeat pf4 = pf_heartbeat pf3 \<Longrightarrow>
       \<exists>pf5. ingest_table env q now None pf = (Inr res, pf5)"
    by (rule run_start_progress) (rule that)
  from s(3) rest(7) obtain upper where u: "snap_extract_upper_bound snap = Some upper" by auto
  from open_snapshot_ok [OF s(1)] env(7) have snap: "snap_rows snap = rows" "snap_config snap = cfg" "0 < snap_page_size snap" by auto
  have run: "run = request_run q cfg (request_run_id env q) (wm_cursor w) (Some upper)" using s(2,4) u by simp
  obtain res pf4 where wc: "write_and_commit env q cfg w sl tb snap upper run now pf3 = (Inr res, pf4)"
    "res_status res = ''SUCCESS''" "pf_heartbeat pf4 = pf_heartbeat pf3"
    by (rule write_and_commit_progress [OF env(1,2) rest(1) env(3,4) rest(2) env(5,6) rest(6) assms(2) snap u run _ _ _ s(5)])
       (use rest s(6,7) in auto)
  from fin [OF started_run_progress [OF u wc(1)] wc(3)] wc(2) show ?thesis by blast
qed

text \<open>With no row past the watermark the run ends in SUCCESS_NO_DATA.\<close>

lemma finish_run_progress:
  assumes "runs_inv db" "map_of (pipeline_runs db) (run_key run) = Some r" "rr_status r = RUNNING"
  shows "\<exists>db'. finish_run run f m db = (Inr (), db')"
proof -
  have "matching (\<lambda>k r. k = run_key run \<and> rr_status r = RUNNING) (pipeline_runs db) = 1"
    using matching_pk_1 [of "pipeline_runs db" "\<lambda>k r. k = run_key run \<and> rr_status r = RUNNING" "run_key run"] assms
    by (auto simp: runs_inv_def)
  then show ?thesis by (simp add: finish_run_def bindM_def assertM_apply run_key_def Let_def)
qed

lemma ingest_no_data_progress:
  assumes "ready_to_start env q cfg rows now pf"
    and "\<forall>row \<in> set rows. \<not> past (cursor_bound (watermark_cursor (request_key q) (pf_db pf))) (row_rank cfg row)"
  shows "\<exists>x pf'. ingest_table env q now None pf = (Inr x, pf') \<and> res_status x = ''SUCCESS_NO_DATA''"
proof -
  let ?prior = "watermark_cursor (request_key q) (pf_db pf)"
  from assms(1) have env: "undisturbed env" "utcoffset now = Some 0" by (simp_all add: ready_to_start_def)
  from assms(1) obtain w sl tb snap run pf3 where s: "snap_extract_upper_bound snap = None \<longleftrightarrow>
      (\<forall>row \<in> set rows. \<not> past (cursor_bound ?prior) (row_rank cfg row))"
    "run = request_run q cfg (request_run_id env q) ?prior (snap_extract_upper_bound snap)" "run_ready env q cfg now w sl tb run pf3"
    and fin: "\<And>res pf4. started_run env q cfg w sl tb snap run now pf3 = (Inr res, pf4) \<Longrightarrow> pf_heartbeat pf4 = pf_heartbeat pf3 \<Longrightarrow>
       \<exists>pf5. ingest_table env q now None pf = (Inr res, pf5)"
    by (rule run_start_progress) (rule that)
  have none: "snap_extract_upper_bound snap = None" using s(1) assms(2) by simp
  from s(3) obtain r where ready: "pf_heartbeat pf3 = Some (start_heartbeat sl (Some tb))" "db_inv (pf_db pf3)"
    "map_of (pipeline_runs (pf_db pf3)) (run_key run) = Some r" "rr_status r = RUNNING"
    unfolding run_ready_def by blast
  have "runs_inv (pf_db pf3)" using ready(2) by (simp add: db_inv_def)
  from finish_run_progress [OF this ready(3,4), of "\<lambda>r. r\<lparr>rr_finished_at := Some (instant now), rr_status := SUCCESS_NO_DATA\<rparr>"
      "''Only a RUNNING pipeline run can finish with no data''"]
  obtain db' where "record_success_no_data_run run now (pf_db pf3) = (Inr (), db')"
    using s(2) none env(2)
    by (auto simp: record_success_no_data_run_def bindM_def transactionM_def require_def request_run_def utc_now_def assert_utc_def)
  moreover have "check_heartbeat env NoDataHealth pf3 = (Inr (), pf3)"
    by (rule check_heartbeat_undisturbed [OF env(1) ready(1)]) (simp add: start_heartbeat_def)
  ultimately have "started_run env q cfg w sl tb snap run now pf3 = (Inr (plain_result run ''SUCCESS_NO_DATA''), pf3\<lparr>pf_db := db'\<rparr>)"
    using none env(1) by (simp add: started_run_def run_no_data_def bindM_def on_db_def)
  from fin [OF this] show ?thesis by (auto simp: plain_result_def)
qed

end
