(* ===== verification/IngestFailure.thy ===== *)
theory IngestFailure
  imports IngestProgress
begin

text \<open>
  What a failing run leaves in \<open>pipeline_runs\<close>: which transactions can change the row of a run,
  that nothing between its start and its commit does, and that the failure is recorded on it.
\<close>

section \<open>Who touches a run\<close>

text \<open>The transactions that can change the row of a run that exists.\<close>

definition about_run :: "uuid \<times> string \<Rightarrow> db_event \<Rightarrow> bool" where
  "about_run k e = (case e of
      FailRun run _ _ _ \<Rightarrow> run_key run = k
    | NoDataRun run _ \<Rightarrow> run_key run = k
    | SkipRun run _ _ \<Rightarrow> run_key run = k
    | CommitRun c _ \<Rightarrow> run_key (tc_run c) = k
    | ReconcileOrphan _ m _ \<Rightarrow> (om_run_id m, om_source_table m) = k
    | _ \<Rightarrow> False)"

lemma run_ended_other: "run_ended run f db db' \<Longrightarrow> run_key run \<noteq> k \<Longrightarrow> map_of (pipeline_runs db') k = map_of (pipeline_runs db) k"
  by (erule run_ended_rows) simp

lemma other_events_keep_run:
  assumes "db_inv db" "\<not> about_run k e" "map_of (pipeline_runs db) k = Some r"
  shows "map_of (pipeline_runs (step_of e db)) k = Some r"
proof (cases "event_ok e")
  case False
  with assms show ?thesis by (simp add: step_of_def)
next
  case ok: True
  have step: "step_of e db = db_exec e db" using ok by (simp add: step_of_def)
  show ?thesis
  proof (cases e)
    case (FailRun run et em now)
    with assms(2) have k: "run_key run \<noteq> k" by (simp add: about_run_def)
    show ?thesis unfolding step unfolding FailRun db_exec.simps
      by (rule result_cases [of "record_failed_run run et em now" db])
         (use assms(1,3) k in \<open>auto simp: run_ended_other dest!: metadata_err(1) record_failed_run_ok\<close>)
  next
    case (NoDataRun run now)
    with assms(2) have k: "run_key run \<noteq> k" by (simp add: about_run_def)
    show ?thesis unfolding step unfolding NoDataRun db_exec.simps
      by (rule result_cases [of "record_success_no_data_run run now" db])
         (use assms(1,3) k in \<open>auto simp: run_ended_other dest!: metadata_err(2) record_success_no_data_run_ok\<close>)
  next
    case (SkipRun run n now)
    with assms(2) have k: "run_key run \<noteq> k" by (simp add: about_run_def)
    show ?thesis unfolding step unfolding SkipRun db_exec.simps
      by (rule result_cases [of "record_skipped_already_committed_run run n now" db])
         (use assms(1,3) k in \<open>auto simp: run_ended_other dest!: metadata_err(3) record_skipped_already_committed_run_ok\<close>)
  next
    case (StartRun run now)
    show ?thesis unfolding step unfolding StartRun db_exec.simps
      by (rule result_cases [of "record_started_run run now" db])
         (use assms(1,3) in \<open>auto dest!: metadata_err(4) record_started_run_ok\<close>)
  next
    case (CommitRun c now)
    with assms(2) have k: "run_key (tc_run c) \<noteq> k" by (simp add: about_run_def)
    show ?thesis unfolding step unfolding CommitRun db_exec.simps
      by (rule result_cases [of "commit_table_run c now" db])
         (use assms(1,3) ok k CommitRun in \<open>auto simp: commit_effect_def dest!: metadata_err(5) commit_table_run_ok\<close>)
  next
    case (ReconcileOrphan cand m now)
    with assms(2) have k: "(om_run_id m, om_source_table m) \<noteq> k" by (simp add: about_run_def)
    let ?m = "bindM (liftM (reconciliation_now now)) (\<lambda>t. transactionM (reconcile_tx cand m t))"
    show ?thesis unfolding step unfolding ReconcileOrphan db_exec.simps
    proof (rule result_cases [of ?m db])
      fix x s' assume "?m db = (Inl x, s')"
      moreover from this have "s' = db" by (auto simp: bindM_err transactionM_err)
      ultimately show "map_of (pipeline_runs (snd (?m db))) k = Some r" using assms(3) by simp
    next
      fix x s' assume r: "?m db = (Inr x, s')"
      then obtain t where "reconcile_tx cand m t db = (Inr x, s')" by (auto simp: bindM_ok transactionM_ok)
      from reconcile_tx_ok [OF this assms(1)] ok ReconcileOrphan have "reconcile_effect cand m t db s'" by simp
      with r k assms(3) show "map_of (pipeline_runs (snd (?m db))) k = Some r"
        unfolding reconcile_effect_def by (elim conjE exE) simp
    qed
  next
    case (SourceLeaseEvent le)
    with step assms(3) lease_step_tables [of le db] show ?thesis by (simp add: ingestion_tables_def)
  qed (use step assms(3) keeps_rest_get_or_create keeps_rest_acquire keeps_rest_renew keeps_rest_release keeps_rest_rewind in
       \<open>simp_all add: keeps_def rest_def\<close>)
qed

definition run_kept :: "uuid \<times> string \<Rightarrow> 's platform \<Rightarrow> 's platform \<Rightarrow> bool" where
  "run_kept k pf pf' \<longleftrightarrow> (db_inv (pf_db pf) \<longrightarrow> db_inv (pf_db pf') \<and>
     (\<forall>r. map_of (pipeline_runs (pf_db pf)) k = Some r \<longrightarrow> map_of (pipeline_runs (pf_db pf')) k = Some r))"

interpretation run_stays: effect_order "run_kept k" for k
  by unfold_locales (auto simp: run_kept_def)

lemma renewals_keep_runs:
  "pipeline_runs (snd (renew_source_mutation_lease sl now ttl db)) = pipeline_runs db"
  "pipeline_runs (snd (renew_table_lease tb now ttl db)) = pipeline_runs db"
  using keeps_renew_source [of sl now ttl] keeps_rest_renew [of tb now ttl]
  by (simp_all add: keeps_def ingestion_tables_def rest_def)

lemma heartbeat_beat_runs: "pipeline_runs (snd (heartbeat_beat hb now db)) = pipeline_runs db"
proof -
  have s: "renew_source_mutation_lease sl now ttl db = (x, db') \<Longrightarrow> pipeline_runs db' = pipeline_runs db" for sl ttl db x db'
    using renewals_keep_runs(1) [of sl now ttl db] by simp
  have t: "renew_table_lease tb now ttl db = (x, db') \<Longrightarrow> pipeline_runs db' = pipeline_runs db" for tb ttl db x db'
    using renewals_keep_runs(2) [of tb now ttl db] by simp
  show ?thesis
    by (auto simp: heartbeat_beat_def split: prod.split sum.split option.split dest!: s t)
qed

lemma heartbeat_run_runs: "pipeline_runs (snd (heartbeat_run hb nows db)) = pipeline_runs db"
proof (induction nows arbitrary: hb db)
  case (Cons n ns)
  obtain hb' db' where "heartbeat_beat hb n db = (hb', db')" by (cases "heartbeat_beat hb n db")
  with Cons [of hb' db'] heartbeat_beat_runs [of hb n db] show ?case by simp
qed simp

lemma fold_keeps_run:
  "db_inv db \<Longrightarrow> list_all (\<lambda>e. \<not> about_run k e) es \<Longrightarrow> map_of (pipeline_runs db) k = Some r \<Longrightarrow>
    map_of (pipeline_runs (fold step_of es db)) k = Some r"
proof (induction es arbitrary: db)
  case (Cons e es)
  then show ?case using step_of_effect [OF Cons.prems(1), of e] other_events_keep_run [OF Cons.prems(1), of k e r] by simp
qed simp

lemma pause_keeps_run:
  assumes "\<And>pt. list_all (\<lambda>e. \<not> about_run k e) (ie_others env pt)"
  shows "moves (run_kept k) (pause env pt)"
proof (rule movesI)
  fix pf :: "'a platform" and x pf' assume r: "pause env pt pf = (x, pf')"
  have "evolves (\<lambda>_. True) pf pf'"
    using movesD [OF moves_pause r] by (simp add: surroundings_def list_all_iff)
  then have "db_inv (pf_db pf) \<Longrightarrow> db_inv (pf_db pf')" unfolding evolves_def using watermark.inv_run by auto
  moreover have "pipeline_runs (pf_db pf') = pipeline_runs (fold step_of (ie_others env pt) (pf_db pf))"
  proof (cases "pf_heartbeat pf")
    case None
    with r show ?thesis by (auto simp: pause_def beat_platform_def)
  next
    case (Some hb)
    let ?db = "fold step_of (ie_others env pt) (pf_db pf)"
    obtain hb' db' where b: "heartbeat_run hb (ie_beats env pt) ?db = (hb', db')"
      by (cases "heartbeat_run hb (ie_beats env pt) ?db")
    with heartbeat_run_runs [of hb "ie_beats env pt" ?db] r Some show ?thesis by (auto simp: pause_def beat_platform_def)
  qed
  ultimately show "run_kept k pf pf'" using fold_keeps_run [OF _ assms] by (simp add: run_kept_def)
qed

lemma run_kept_outside: "keeps pf_db m \<Longrightarrow> moves (run_kept k) m"
  by (simp add: moves_def run_kept_def keeps_def)

lemma run_kept_read:
  assumes "\<And>pt. list_all (\<lambda>e. \<not> about_run k e) (ie_others env pt)" "keeps id m"
  shows "moves (run_kept k) (at_point env pt m)"
proof -
  have "keeps pf_db (on_db m)" using assms(2) by (simp add: keeps_def on_db_apply)
  then have "keeps pf_db (case ie_fault env pt of NoFault \<Rightarrow> on_db m | Refused e \<Rightarrow> raise_exn e | LostReply e \<Rightarrow> bindM (on_db m) (\<lambda>_. raise_exn e))"
    by (intro keeps_fault)
  then show ?thesis
    unfolding at_point_def by (intro run_stays.bind pause_keeps_run [OF assms(1)] run_kept_outside)
qed

lemma run_kept_check:
  assumes "\<And>pt. list_all (\<lambda>e. \<not> about_run k e) (ie_others env pt)"
  shows "moves (run_kept k) (check_heartbeat env pt)"
  unfolding check_heartbeat_def
  by (intro run_stays.bind pause_keeps_run [OF assms] run_kept_outside) (auto simp: keeps_def split: option.splits)

lemma asserts_keep:
  "keeps id (assert_source_mutation_lease sl now)" "keeps id (assert_table_lease tb now)"
  unfolding assert_source_mutation_lease_def read_lease_def assert_table_lease_def
  by (rule keeps_bindM keeps_basic keeps_option)+

lemma keeps_db_plain:
  "keeps pf_db (on_s3 m)" "keeps pf_db (raise_exn e)" "keeps pf_db (create_file path)"
  by (simp_all add: keeps_def on_s3_apply raise_exn_def create_file_def)

lemma keeps_db_write_local: "keeps pf_db (write_local_artifacts env snap upper q run cfg now)"
proof -
  have open_b: "keeps pf_db (open_bronze_writer cfg c)" for c
    unfolding open_bronze_writer_def Let_def by (rule keeps_bindM keeps_basic keeps_db_plain)+
  have open_q: "keeps pf_db (open_quarantine_writer cfg c)" for c
    unfolding open_quarantine_writer_def Let_def by (rule keeps_bindM keeps_basic keeps_db_plain)+
  have page: "keeps pf_db (write_page env q cfg c p ws)" for c p ws
    unfolding write_page_def quarantine_rejects_def Let_def
    by (auto intro!: keeps_bindM keeps_basic open_q split: option.splits)
  have pages: "keeps pf_db (write_pages env q cfg c ps ws)" for c ps ws
    by (induction ps arbitrary: ws) (auto intro!: keeps_bindM keeps_basic page)
  show ?thesis unfolding write_local_artifacts_def Let_def
    by (auto intro!: keeps_bindM keeps_basic pages open_b keeps_db_plain split: option.splits)
qed

lemma prepare_keeps_run:
  assumes "\<And>pt. list_all (\<lambda>e. \<not> about_run k e) (ie_others env pt)"
  shows "moves (run_kept k) (prepare_commit env q cfg w sl tb snap upper run now)"
proof -
  have pub: "keeps pf_db (publish_quarantine env q run cfg a now)" for a
    unfolding publish_quarantine_def Let_def
    by (auto intro!: keeps_bindM keeps_basic keeps_db_plain split: option.splits)
  have up: "keeps pf_db (upload_and_verify_bronze env q run cfg a now)" for a
    unfolding upload_and_verify_bronze_def Let_def
    by (auto intro!: keeps_bindM keeps_basic keeps_db_plain split: option.splits)
  note P = run_kept_read [OF assms] run_kept_check [OF assms] asserts_keep
  show ?thesis unfolding prepare_commit_def Let_def
    by (rule run_stays.bind run_stays.basic P run_kept_outside keeps_db_write_local pub up)+
qed

lemma commit_point_keeps_run:
  assumes "\<And>pt. list_all (\<lambda>e. \<not> about_run k e) (ie_others env pt)" "\<And>e. ie_fault env CommitPoint \<noteq> LostReply e"
    and "at_point env CommitPoint (commit_table_run c now) pf = (Inl e, pf')"
  shows "run_kept k pf pf'"
proof -
  obtain x pf1 where p: "pause env CommitPoint pf = (x, pf1)" by (cases "pause env CommitPoint pf")
  have kept: "run_kept k pf pf1" using movesD [OF pause_keeps_run [OF assms(1)] p] .
  have "x = Inr ()" using p by (simp add: pause_def)
  with p assms(3) have m: "(case ie_fault env CommitPoint of NoFault \<Rightarrow> on_db (commit_table_run c now) | Refused e \<Rightarrow> raise_exn e
        | LostReply e \<Rightarrow> bindM (on_db (commit_table_run c now)) (\<lambda>_. raise_exn e)) pf1 = (Inl e, pf')"
    by (simp add: at_point_def)
  have "pf_db pf' = pf_db pf1"
  proof (cases "ie_fault env CommitPoint")
    case NoFault
    with m have "fst (commit_table_run c now (pf_db pf1)) = Inl e" "pf_db pf' = snd (commit_table_run c now (pf_db pf1))"
      by (auto simp: on_db_apply)
    then show ?thesis using metadata_err(5) by (metis prod.collapse)
  next
    case (Refused e')
    with m show ?thesis by (simp add: raise_exn_def)
  qed (use assms(2) in blast)
  with kept show ?thesis by (simp add: run_kept_def)
qed

lemma record_failed_progress:
  assumes "runs_inv db" "map_of (pipeline_runs db) (run_key run) = Some r" "rr_status r = RUNNING" "utcoffset now = Some 0"
    and "assert_nonempty et ''error_type'' (Some 64) = Inr ()"
  shows "\<exists>db'. record_failed_run run et em now db = (Inr (), db')"
proof -
  have "matching (\<lambda>k r. k = run_key run \<and> rr_status r = RUNNING) (pipeline_runs db) = 1"
    using matching_pk_1 [of "pipeline_runs db" "\<lambda>k r. k = run_key run \<and> rr_status r = RUNNING" "run_key run"] assms(1-3)
    by (auto simp: runs_inv_def)
  then show ?thesis using assms(4,5)
    by (simp add: record_failed_run_def bindM_def transactionM_def finish_run_def assertM_apply run_key_def utc_now_def assert_utc_def Let_def)
qed

lemma classify_error_recorded:
  assumes "\<And>t. exn_class e \<noteq> WarehouseBuildError t"
  shows "assert_nonempty (classify_error e) ''error_type'' (Some 64) = Inr ()"
proof -
  have fits: "classify_error e \<noteq> [] \<and> length (classify_error e) \<le> 64"
    by (rule classify_error_fits) (use assms in blast)
  have "\<not> is_space (hd (classify_error e))"
    using assms by (cases "exn_class e") (auto simp: classify_error_def UNKNOWN_ERROR_def is_space_def)
  with fits show ?thesis by (cases "classify_error e") (auto simp: assert_nonempty_def blank_def)
qed

end
