(* ===== verification/ControlProperties.thy ===== *)
theory ControlProperties
  imports IngestFailure
begin

text \<open>
  Properties of the control plane (src/ingestion/control, src/common/lease.py): exclusion and
  fencing of the two leases, the commit transaction, and what every interleaving of
  transactions keeps. The witnesses use one started run, \<open>demo_started\<close>, and its commit.
\<close>

section \<open>Leases\<close>

text \<open>
  C11: While the source mutation lease is live for one owner, any other owner's acquisition fails and
  leaves the holder at every time as it was.
\<close>
theorem source_lease_excludes:
  assumes "source_lease_inv db" "live_owner db t = Some a" "b \<noteq> a"
  shows "\<exists>e db'. acquire_source_mutation_lease (fst b) (snd b) (utc t) ttl db = (Inl e, db') \<and> live_owner db' = live_owner db"
  using source_lease.acquire_excluded [OF assms] by (simp add: acquire_at_def)

theorem source_lease_excludes_witness:
  "\<exists>e db'. acquire_source_mutation_lease GENERATOR_OWNER_TYPE 2 (utc 1) 5
      (snd (acquire_source_mutation_lease WAREHOUSE_OWNER_TYPE 1 (utc 0) 5 empty_db)) = (Inl e, db')"
proof -
  let ?db = "snd (acquire_source_mutation_lease WAREHOUSE_OWNER_TYPE 1 (utc 0) 5 empty_db)"
  have "source_lease_inv ?db" "live_owner ?db 1 = Some (WAREHOUSE_OWNER_TYPE, 1)"
    "(GENERATOR_OWNER_TYPE, 2 :: uuid) \<noteq> (WAREHOUSE_OWNER_TYPE, 1)" by code_simp+
  from source_lease_excludes [OF this, of 5] show ?thesis by auto
qed

text \<open>
  C12: Fencing. If the lease version is the same before and after any sequence of lease operations,
  nobody took the lease over at any point in between: the owner is the same throughout.
\<close>
theorem source_lease_fencing:
  assumes "source_lease_inv db"
    and "lease_version (current_lease (fold lease_step (es @ es') db)) = lease_version (current_lease db)"
  shows "lease_owner (fold lease_step es db) = lease_owner db"
  using lease_version.unchanged_between [OF assms] by simp

theorem source_lease_fencing_witness:
  "lease_owner (fold lease_step [RenewLease \<lparr>lease_owner_type = WAREHOUSE_OWNER_TYPE, lease_owner_id = 1,
       lease_expires_at = 5, lease_version = 1\<rparr> (utc 1) 9]
     (snd (acquire_source_mutation_lease WAREHOUSE_OWNER_TYPE 1 (utc 0) 5 empty_db))) = (WAREHOUSE_OWNER_TYPE, 1)"
proof -
  let ?db = "snd (acquire_source_mutation_lease WAREHOUSE_OWNER_TYPE 1 (utc 0) 5 empty_db)"
  let ?e = "RenewLease \<lparr>lease_owner_type = WAREHOUSE_OWNER_TYPE, lease_owner_id = 1,
       lease_expires_at = 5, lease_version = 1\<rparr> (utc 1) 9"
  have "source_lease_inv ?db" by code_simp
  moreover have "lease_version (current_lease (fold lease_step ([?e] @ [AcquireLease GENERATOR_OWNER_TYPE 2 (utc 2) 5]) ?db)) =
      lease_version (current_lease ?db)" by code_simp
  ultimately have "lease_owner (fold lease_step [?e] ?db) = lease_owner ?db" by (rule source_lease_fencing)
  moreover have "lease_owner ?db = (WAREHOUSE_OWNER_TYPE, 1)" by code_simp
  ultimately show ?thesis by simp
qed

text \<open>
  C13: Mutual exclusion of table runs. While a table's lease is live, another owner cannot acquire it,
  and no lease of another owner passes the check made before uploads and the commit.
\<close>
theorem table_lease_excludes:
  assumes "watermarks_inv db" "table_holder p t db now = Some a" "b \<noteq> a"
    and "tl_pipeline_name l = p" "tl_source_table l = t" "tl_owner_id l = b" "lease_names_ok p t"
  shows "(\<exists>e db'. acquire_table_lease p t b (utc now) ttl db = (Inl e, db') \<and> table_holder p t db' = table_holder p t db) \<and>
    (\<exists>e db'. assert_table_lease l (utc now) db = (Inl e, db'))"
proof -
  have "lease_on p t l = l" using assms(4,5) by (simp add: lease_on_def)
  then show ?thesis
    using table_lease.acquire_excluded [of db p t now a b ttl] table_lease.check_excluded [of db p t now a l] assms by auto
qed

theorem table_lease_excludes_witness:
  "(\<exists>e db'. acquire_table_lease ''warehouse'' ''sellers'' 2 (utc 1) 5
       (snd (acquire_table_lease ''warehouse'' ''sellers'' 1 (utc 0) 5 empty_db)) = (Inl e, db') \<and>
     table_holder ''warehouse'' ''sellers'' db' 1 = Some 1)"
proof -
  let ?db = "snd (acquire_table_lease ''warehouse'' ''sellers'' 1 (utc 0) 5 empty_db)"
  let ?l = "\<lparr>tl_pipeline_name = ''warehouse'', tl_source_table = ''sellers'', tl_owner_id = 2,
      tl_lease_expires_at = 9, tl_watermark_version = 0\<rparr>"
  have "watermarks_inv ?db" "table_holder ''warehouse'' ''sellers'' ?db 1 = Some 1" "lease_names_ok ''warehouse'' ''sellers''"
    by code_simp+
  from table_lease_excludes [OF this(1,2) _ _ _ _ this(3), of 2 ?l 5] this(2) show ?thesis by auto
qed

text \<open>A started run with the table's lease, its commit, and the database after it.\<close>

definition demo_started :: pipeline_run where
  "demo_started = \<lparr>run_id = 7, run_pipeline_name = ''warehouse'', run_source_table = ''sellers'',
     run_batch_id = ''warehouse__1'', run_logical_date = utc 0, run_attempt_number = 1,
     run_watermark_before = initial_cursor, run_extract_upper_bound = None, run_dag_id = None\<rparr>"

definition demo_commit :: table_commit where
  "demo_commit = \<lparr>tc_run = demo_started,
     tc_object = \<lparr>obj_table_batch_id = ''warehouse__1__sellers'', obj_object_key = ''bronze/1'', obj_manifest_key = ''manifest/1'',
       obj_schema_version = 1, obj_row_count = 2, obj_content_sha256 = replicate 64 CHR ''0'',
       obj_logical_hash = replicate 64 CHR ''1'', obj_watermark_after = \<lparr>cp_timestamp = Some 3, cp_keys = [KStr ''s2'']\<rparr>\<rparr>,
     tc_expected_watermark = \<lparr>wm_pipeline_name = ''warehouse'', wm_source_table = ''sellers'', wm_cursor = initial_cursor,
       wm_version = 0\<rparr>,
     tc_rows_extracted = 2, tc_rows_valid = 2, tc_rows_rejected = 0, tc_rows_loaded = 2, tc_lease_owner = 7,
     tc_quarantine = None\<rparr>"

definition demo_db :: pipeline_db where
  "demo_db = snd (record_started_run demo_started (utc 0)
     (snd (acquire_table_lease ''warehouse'' ''sellers'' 7 (utc 0) 50 empty_db)))"

lemma demo_db_inv: "db_inv demo_db" by code_simp

lemma demo_commit_ok: "fst (commit_table_run demo_commit (utc 1) demo_db) = Inr ()" by code_simp

text \<open>
  C14: A heartbeat turn that falls after the commit and before the run leaves its scope fails: the
  commit has moved the watermark's version, which the renewal of the table lease requires unchanged.
\<close>
theorem renewal_after_commit_fails:
  assumes "db_inv db" "commit_table_run c now db = (Inr (), db')" "cursor_ok (obj_watermark_after (tc_object c))"
    and "(tl_pipeline_name tb, tl_source_table tb) = expected_key c" "tl_watermark_version tb = wm_version (tc_expected_watermark c)"
    and "0 < ttl" "utcoffset later = Some 0"
  shows "\<exists>m. renew_table_lease tb later ttl db' = (Inl (Exn TableLeaseOwnershipLostError m), db')"
proof -
  from commit_table_run_ok [OF assms(2,1,3)] obtain r where r: "db_inv db'" "wr_version r = wm_version (tc_expected_watermark c)"
    "map_of (watermarks db') (expected_key c) = Some (advanced_row c (instant now) r)"
    unfolding commit_effect_def by auto
  have "watermarks_inv db'" using r(1) by (simp add: db_inv_def)
  then show ?thesis
    using assms(4-7) r
    by (auto simp: renew_table_lease_def Let_def bindM_def transactionM_def table_lease_now_def assert_positive_table_ttl_def
        require_def update_watermark_returning_at advanced_row_def split: option.splits)
qed

theorem renewal_after_commit_fails_witness:
  "\<exists>m. fst (renew_table_lease \<lparr>tl_pipeline_name = ''warehouse'', tl_source_table = ''sellers'', tl_owner_id = 7,
      tl_lease_expires_at = 50, tl_watermark_version = 0\<rparr> (utc 2) 50 (snd (commit_table_run demo_commit (utc 1) demo_db))) =
     Inl (Exn TableLeaseOwnershipLostError m)"
proof -
  let ?l = "\<lparr>tl_pipeline_name = ''warehouse'', tl_source_table = ''sellers'', tl_owner_id = 7,
      tl_lease_expires_at = 50, tl_watermark_version = 0\<rparr>"
  have "commit_table_run demo_commit (utc 1) demo_db = (Inr (), snd (commit_table_run demo_commit (utc 1) demo_db))"
    using demo_commit_ok by (metis prod.collapse)
  from renewal_after_commit_fails [OF demo_db_inv this, of ?l 50 "utc 2"] show ?thesis
    by (auto simp: demo_commit_def cursor_ok_def expected_key_def)
qed

section \<open>Transactions\<close>

text \<open>
  C3: The commit is all or nothing. Either it raises and the database is exactly as before, or the
  lease was live and owned, the watermark was the expected one, and the quarantine row, the Bronze
  row, the run's SUCCESS and the advanced watermark are all there; the constraints of the tables hold
  after it either way.
\<close>
theorem commit_all_or_nothing:
  assumes "db_inv db" "cursor_ok (obj_watermark_after (tc_object c))"
  shows "(\<exists>e. commit_table_run c now db = (Inl e, db)) \<or>
    (\<exists>db'. commit_table_run c now db = (Inr (), db') \<and> db_inv db' \<and> commit_effect c (instant now) db db')"
proof (rule result_cases [of "commit_table_run c now" db])
  fix e s' assume "commit_table_run c now db = (Inl e, s')"
  with metadata_err(5) [OF this] show ?thesis by blast
next
  fix u s' assume r: "commit_table_run c now db = (Inr u, s')"
  from commit_table_run_ok [OF this assms] r show ?thesis by simp
qed

theorem commit_all_or_nothing_witness:
  "\<exists>db'. commit_table_run demo_commit (utc 1) demo_db = (Inr (), db') \<and> commit_effect demo_commit 1 demo_db db'"
proof -
  have "cursor_ok (obj_watermark_after (tc_object demo_commit))" by code_simp
  from commit_all_or_nothing [OF demo_db_inv this, of "utc 1"] demo_commit_ok show ?thesis by auto
qed

text \<open>
  C6: A watermark version is spent once. After a commit, whatever transactions of any process come
  in between, a commit that expects the same version of the same watermark never succeeds.
\<close>
theorem commit_once:
  assumes "db_inv db" "commit_table_run c now db = (Inr (), db')"
    and "cursor_ok (obj_watermark_after (tc_object c))" "cursor_ok (obj_watermark_after (tc_object c'))"
    and "expected_key c' = expected_key c" "wm_version (tc_expected_watermark c') = wm_version (tc_expected_watermark c)"
    and "table_commit_check c = Inr ()"
  shows "\<exists>e. commit_table_run c' later (fold step_of es db') = (Inl e, fold step_of es db')"
proof (rule result_cases [of "commit_table_run c' later" "fold step_of es db'"])
  let ?k = "expected_key c"
  let ?e = "CommitRun c now"
  fix u s' assume r: "commit_table_run c' later (fold step_of es db') = (Inr u, s')"
  have db': "db' = step_of ?e db" using assms(2,3,7) by (simp add: step_of_def)
  from commit_table_run_ok [OF assms(2,1,3)] have "watermark_version ?k db = wm_version (tc_expected_watermark c)"
      "watermark_version ?k db' = wm_version (tc_expected_watermark c) + 1"
    unfolding commit_effect_def by (auto simp: watermark_at watermark_upd advanced_row_def)
  then have v: "watermark_version ?k (fold step_of es db') \<noteq> wm_version (tc_expected_watermark c)"
    using watermark.compare_and_swap_once [OF assms(1), of ?k ?e es] db' by simp
  have "db_inv db'" using commit_table_run_ok [OF assms(2,1,3)] by simp
  then have "db_inv (fold step_of es db')" by (rule watermark.inv_run)
  from commit_table_run_ok [OF r this assms(4)] v assms(5,6) show ?thesis
    unfolding commit_effect_def by (auto simp: watermark_at)
qed (use metadata_err(5) in blast)

theorem commit_once_witness:
  "\<exists>e. fst (commit_table_run (demo_commit\<lparr>tc_object := (tc_object demo_commit)\<lparr>obj_table_batch_id := ''other'',
      obj_object_key := ''bronze/2''\<rparr>\<rparr>) (utc 2) (snd (commit_table_run demo_commit (utc 1) demo_db))) = Inl e"
proof -
  let ?c = "demo_commit\<lparr>tc_object := (tc_object demo_commit)\<lparr>obj_table_batch_id := ''other'', obj_object_key := ''bronze/2''\<rparr>\<rparr>"
  have c: "commit_table_run demo_commit (utc 1) demo_db = (Inr (), snd (commit_table_run demo_commit (utc 1) demo_db))"
    using demo_commit_ok by (metis prod.collapse)
  have "cursor_ok (obj_watermark_after (tc_object demo_commit))" "cursor_ok (obj_watermark_after (tc_object ?c))"
    "expected_key ?c = expected_key demo_commit" "table_commit_check demo_commit = Inr ()"
    "wm_version (tc_expected_watermark ?c) = wm_version (tc_expected_watermark demo_commit)" by code_simp+
  from commit_once [OF demo_db_inv c this(1,2,3,5,4), of "utc 2" "[]"] show ?thesis by auto
qed


definition demo_events :: "db_event list" where
  "demo_events = [AcquireTable ''warehouse'' ''sellers'' 7 (utc 0) 50, StartRun demo_started (utc 0),
     CommitRun demo_commit (utc 1), RenewTable \<lparr>tl_pipeline_name = ''warehouse'', tl_source_table = ''sellers'', tl_owner_id = 7,
       tl_lease_expires_at = 50, tl_watermark_version = 0\<rparr> (utc 2) 50]"

lemma reachable_run: "reachable db \<Longrightarrow> list_all event_ok es \<Longrightarrow> reachable (fold db_exec es db)"
  by (induction es arbitrary: db) (auto intro: reachable.next_state db_step.step)


text \<open>
  C10: History is append-only. Whatever transactions follow, the committed Bronze objects stay, new
  ones come after them, and a run that has finished keeps its row unchanged.
\<close>
theorem history_append_only:
  assumes "db_inv db"
  shows "(\<exists>rows. bronze_objects (fold step_of es db) = bronze_objects db @ rows) \<and>
    (\<forall>k r. map_of (pipeline_runs db) k = Some r \<longrightarrow> rr_status r \<noteq> RUNNING \<longrightarrow>
       map_of (pipeline_runs (fold step_of es db)) k = Some r)"
  using assms by (simp add: run_bronze run_finished)

theorem history_append_only_witness:
  "\<exists>rows. bronze_objects (fold step_of [FailRun demo_started ''UNKNOWN'' None (utc 3)] (snd (commit_table_run demo_commit (utc 1) demo_db)))
     = bronze_objects (snd (commit_table_run demo_commit (utc 1) demo_db)) @ rows"
proof -
  have "db_inv (snd (commit_table_run demo_commit (utc 1) demo_db))" by code_simp
  from history_append_only [OF this] show ?thesis by blast
qed



end
