(* ===== verification/IngestProperties.thy ===== *)
theory IngestProperties
  imports ControlProperties
begin

text \<open>
  Properties of one ingestion run (src/ingestion/service.py) in any surroundings, with the
  concrete platform the witnesses run on.
\<close>

section \<open>A concrete platform\<close>

text \<open>
  An object store kept as an association list, an Arrow that keeps every row, and the
  surroundings of an undisturbed run on them: what the witnesses of the properties use.
\<close>

definition demo_s3 :: "(string \<times> s3_object) list s3_client" where
  "demo_s3 = \<lparr>s3_objects = map_of,
     head_bucket = returnM (), create_bucket = returnM (),
     head_object = (\<lambda>k s. (case map_of s k of Some ob \<Rightarrow> (Inr (object_head ob), s)
       | None \<Rightarrow> (Inl (Exn (ClientError ''404'' (Some 404)) ''Not Found''), s))),
     put_object = (\<lambda>k b sha s. (case map_of s k of
         Some _ \<Rightarrow> (Inl (Exn (ClientError ''PreconditionFailed'' (Some 412)) ''exists''), s)
       | None \<Rightarrow> (Inr (), (k, \<lparr>object_body = b,
           object_head = \<lparr>content_length = Some 1, metadata_sha256 = Some sha\<rparr>\<rparr>) # s))),
     get_object = (\<lambda>k s. (case map_of s k of Some ob \<Rightarrow> (Inr (object_body ob), s)
       | None \<Rightarrow> (Inl (Exn (ClientError ''404'' (Some 404)) ''Not Found''), s))),
     list_objects = (\<lambda>p s. (Inr (filter (starts_with p) (map fst s)), s))\<rparr>"

definition demo_encoding :: encoding where
  "demo_encoding = \<lparr>byte_size = (\<lambda>_. 1), byte_sha256 = (\<lambda>_. replicate 64 CHR ''0''),
     text_sha256 = (\<lambda>_. replicate 64 CHR ''1'')\<rparr>"

lemma demo_s3_laws: "s3_laws demo_encoding demo_s3"
  unfolding s3_laws_def put_effect_def put_head_def demo_s3_def demo_encoding_def
  by (auto split: option.splits intro!: ext simp: image_iff map_of_eq_None_iff dest: map_of_SomeD)

lemma demo_s3_responsive: "s3_responsive demo_encoding demo_s3"
  unfolding s3_responsive_def
  by (auto simp: demo_s3_laws) (auto simp: demo_s3_def is_not_found_def split: option.splits)

lemma demo_encoding_ok: "encoding_ok demo_encoding"
  by (auto simp: encoding_ok_def demo_encoding_def is_sha256_def)

definition demo_rows :: "source_row list" where
  "demo_rows =
     [[VStr ''s1'', VStr ''Seoul'', VStr ''SE'', VTime (utc 0), VTime (utc 0)],
      [VStr ''s2'', VStr ''Busan'', VStr ''BS'', VTime (utc 0), VTime (utc 1)]]"

definition demo_env :: "source_row list result \<Rightarrow> (point \<Rightarrow> fault) \<Rightarrow> (string \<times> s3_object) list ingest_env" where
  "demo_env source fault = \<lparr>ie_encoding = demo_encoding, ie_s3 = demo_s3, ie_local_offset = (\<lambda>_. 0),
     ie_uuid5 = (\<lambda>u s. u + length s), ie_to_arrow = (\<lambda>_ rs. Inr rs), ie_environment = [], ie_fresh_run_id = 7,
     ie_source = source, ie_parents = (\<lambda>_ _. []), ie_fault = fault, ie_beats = (\<lambda>_. []), ie_others = (\<lambda>_. [])\<rparr>"

abbreviation calm_env :: "(string \<times> s3_object) list ingest_env" where
  "calm_env \<equiv> demo_env (Inr demo_rows) (\<lambda>_. NoFault)"

definition demo_request :: ingestion_request where
  "demo_request = \<lparr>req_source_table = ''sellers'', req_batch_id = ''warehouse__00010101T000000Z'',
     req_logical_date = utc 0, req_attempt_number = 1, req_run_id = None,
     req_pipeline_name = None, req_page_size = Some 1, req_corruption_plan = None\<rparr>"

definition demo_platform :: "(string \<times> s3_object) list platform" where
  "demo_platform = \<lparr>pf_db = empty_db, pf_s3 = [], pf_files = [], pf_catalog = [], pf_heartbeat = None\<rparr>"

lemma demo_env_fields [simp]:
  "ie_encoding (demo_env so fa) = demo_encoding" "ie_s3 (demo_env so fa) = demo_s3" "ie_source (demo_env so fa) = so"
  "ie_fault (demo_env so fa) = fa" "ie_others (demo_env so fa) = (\<lambda>_. [])" "ie_beats (demo_env so fa) = (\<lambda>_. [])"
  "ie_to_arrow (demo_env so fa) = (\<lambda>_ rs. Inr rs)" "ie_parents (demo_env so fa) = (\<lambda>_ _. [])" "ie_fresh_run_id (demo_env so fa) = 7"
  by (simp_all add: demo_env_def)

lemma demo_request_fields [simp]:
  "req_source_table demo_request = ''sellers''" "req_run_id demo_request = None" "req_corruption_plan demo_request = None"
  "req_page_size demo_request = Some 1"
  by (simp_all add: demo_request_def)

lemma demo_platform_fields [simp]:
  "pf_db demo_platform = empty_db" "pf_s3 demo_platform = []" "pf_files demo_platform = []"
  by (simp_all add: demo_platform_def)

lemma demo_config: "table_config ''sellers'' = Inr SELLERS_TABLE"
  by code_simp

lemma demo_rows_ok: "source_rows_ok SELLERS_TABLE demo_rows"
  by code_simp

lemma plain_arrow_laws: "arrow_laws (\<lambda>_ rs. Inr rs) (\<lambda>_ r. r)"
  by (simp add: arrow_laws_def)

text \<open>Values that meet the contract can be printed once UUIDs are written as strings.\<close>

lemma source_record_row_value:
  assumes "map fst (rec_values r) = source_column_names (rec_config r)" "n \<in> set (source_column_names (rec_config r))"
  shows "value_get (source_record_row c r) n =
    (case map_of (columns_by_name (rec_config r)) n of
       Some k \<Rightarrow> if postgres_uuid k \<and> value_get (rec_values r) n \<noteq> VNone then str_uuid_value (value_get (rec_values r) n)
         else value_get (rec_values r) n
     | None \<Rightarrow> value_get (rec_values r) n)"
proof -
  have "n \<in> fst ` set (rec_values r)" using assms by (metis list.set_map)
  then obtain v where v: "map_of (rec_values r) n = Some v" by (metis map_of_eq_None_iff option.exhaust)
  have "map_of (map (\<lambda>(n, v). (n, f n v)) vs) n = map_option (f n) (map_of vs n)" for f :: "string \<Rightarrow> pyvalue \<Rightarrow> pyvalue" and vs
    by (induction vs) auto
  with v show ?thesis
    by (simp add: value_get_def source_record_row_def arrow_compatible_values_def map_add_def split: option.splits)
qed

lemma column_by_name:
  assumes "n \<in> set (source_column_names cfg)"
  obtains c where "map_of (columns_by_name cfg) n = Some c" "c \<in> set (source_columns cfg)" "col_name c = n"
proof -
  have "n \<in> fst ` set (columns_by_name cfg)" using assms by (auto simp: columns_by_name_def source_column_names_def image_iff)
  then obtain c where c: "map_of (columns_by_name cfg) n = Some c" by (metis map_of_eq_None_iff option.exhaust)
  moreover from this have "c \<in> set (source_columns cfg)" "col_name c = n"
    by (auto simp: columns_by_name_def dest!: map_of_SomeD)
  ultimately show thesis by (rule that)
qed

lemma conforming_hashable:
  assumes "row_conforms (rec_config r) (rec_values r)" "n \<in> set (source_column_names (rec_config r))"
  shows "hashable (value_get (source_record_row c r) n)"
proof -
  obtain k where k: "map_of (columns_by_name (rec_config r)) n = Some k" "k \<in> set (source_columns (rec_config r))" "col_name k = n"
    using column_by_name [OF assms(2)] by blast
  have "column_ok (rec_values r) k" using assms(1) k(2) by (simp add: row_conforms_def list_all_iff)
  moreover have "map fst (rec_values r) = source_column_names (rec_config r)" using assms(1) by (simp add: row_conforms_def)
  ultimately show ?thesis
    using source_record_row_value [OF _ assms(2), of c] k
    by (cases "value_get (rec_values r) n"; cases "col_type k")
       (auto simp: column_ok_def matches_source_column_type_def hashable_def is_uuid_def split: if_splits)
qed

lemma plain_arrow_accepts: "arrow_accepts (\<lambda>_ rs. Inr rs) (\<lambda>_ r. r) cfg"
  by (auto simp: arrow_accepts_def committed_rows_def conforming_hashable)

lemma demo_start: "source_rows_ok SELLERS_TABLE rows \<Longrightarrow>
    ready_to_start (demo_env (Inr rows) (\<lambda>_. NoFault)) demo_request SELLERS_TABLE rows (utc 2) demo_platform"
proof -
  assume rows: "source_rows_ok SELLERS_TABLE rows"
  have "undisturbed (demo_env (Inr rows) (\<lambda>_. NoFault))" by (simp add: undisturbed_def)
  moreover have "request_check demo_request = Inr ()" "length (req_batch_id demo_request) \<le> 192"
    "\<not> blank (resolved_pipeline_name demo_request)" "length (resolved_pipeline_name demo_request) \<le> 128" by code_simp+
  moreover have "is_ok (table_batch_identity_of demo_request SELLERS_TABLE, ())" by code_simp
  then have "\<exists>identity. table_batch_identity_of demo_request SELLERS_TABLE = Inr identity"
    by (auto simp: is_ok_def split: sum.splits)
  moreover have "startable demo_request 7 2 empty_db"
    by (simp add: startable_def empty_db_def db_inv_defs pk_ok_def live_owner_def current_lease_def is_active_def table_holder_def)
  moreover have "watermark_cursor (request_key demo_request) empty_db = initial_cursor"
    by (simp add: watermark_cursor_def register_view_def empty_db_def)
  moreover have "assert_cursor SELLERS_TABLE initial_cursor = Inr ()" by code_simp
  ultimately show ?thesis
    by (simp add: ready_to_start_def demo_s3_responsive demo_config rows request_run_id_def)
qed

lemma demo_ready: "ready_to_ingest calm_env demo_request SELLERS_TABLE demo_rows (utc 2) demo_platform"
proof -
  have "valid_source calm_env SELLERS_TABLE demo_rows"
  proof -
    have "\<forall>row \<in> set demo_rows. row_conforms SELLERS_TABLE (row_values SELLERS_TABLE row) \<and>
        VNone \<notin> set (primary_key_of SELLERS_TABLE (row_values SELLERS_TABLE row))" by code_simp
    moreover have "distinct (map (\<lambda>row. primary_key_of SELLERS_TABLE (row_values SELLERS_TABLE row)) demo_rows)" by code_simp
    moreover have "map_of CHILD_PARENT_REFERENCES (source_table SELLERS_TABLE) = None" by code_simp
    ultimately show ?thesis using demo_rows_ok by (simp add: valid_source_def references_present_def)
  qed
  moreover have "watermark_cursor (request_key demo_request) empty_db = initial_cursor"
    by (simp add: watermark_cursor_def register_view_def empty_db_def)
  moreover have "\<exists>row \<in> set demo_rows. past (cursor_bound initial_cursor) (row_rank SELLERS_TABLE row)" by code_simp
  moreover have "s3_objects demo_s3 [] k = None" for k by (simp add: demo_s3_def)
  ultimately show ?thesis
    using demo_start [OF demo_rows_ok] by (simp add: ready_to_ingest_def demo_encoding_ok)
qed

section \<open>Properties of a run\<close>






text \<open>
  C5: As long as no other process moves this table's watermark, a run - failed, killed by a lost
  connection or successful - leaves the watermark where it was, or at the end of the range of the
  batch that it committed under its own batch id.
\<close>
theorem ingest_moves_watermark_with_batch:
  assumes "db_inv (pf_db pf)" "\<And>pt. list_all (foreign q) (ie_others env pt)" "ingest_table env q now given pf = (r, pf')"
  shows "watermark_cursor (request_key q) (pf_db pf') = watermark_cursor (request_key q) (pf_db pf) \<or>
     (\<exists>row. committed_range q (pf_db pf) (pf_db pf') row)"
  using ingest_watermark [OF assms] by blast

theorem ingest_moves_watermark_with_batch_witness:
  "\<exists>r pf'. ingest_table (demo_env (Inr demo_rows) (\<lambda>_. LostReply (Exn OperationalError ''lost''))) demo_request (utc 2) None
       demo_platform = (r, pf') \<and>
     (watermark_cursor (request_key demo_request) (pf_db pf') = watermark_cursor (request_key demo_request) empty_db \<or>
      (\<exists>row. committed_range demo_request empty_db (pf_db pf') row))"
proof -
  let ?env = "demo_env (Inr demo_rows) (\<lambda>_. LostReply (Exn OperationalError ''lost''))"
  obtain r pf' where r: "ingest_table ?env demo_request (utc 2) None demo_platform = (r, pf')"
    by (cases "ingest_table ?env demo_request (utc 2) None demo_platform")
  have "db_inv (pf_db demo_platform)" by (simp add: db_inv_defs empty_db_def pk_ok_def)
  from ingest_moves_watermark_with_batch [OF this _ r] r show ?thesis by auto
qed



text \<open>
  C18: A run leaves none of its local Parquet files behind, and touches no other run's.
\<close>
theorem ingest_cleans_local_files:
  assumes "table_config (req_source_table q) = Inr cfg" "rid = (case req_run_id q of Some u \<Rightarrow> u | None \<Rightarrow> ie_fresh_run_id env)"
    and "ingest_table env q now given pf = (r, pf')"
  shows "set (pf_files pf') \<subseteq> set (pf_files pf) \<and>
    (\<forall>p \<in> set (pf_files pf). \<not> own_file cfg rid p \<longrightarrow> p \<in> set (pf_files pf'))"
  using movesD [OF ingest_files [OF assms(1,2)] assms(3)] by (simp add: files_clean_def files_within_def)

theorem ingest_cleans_local_files_witness:
  "pf_files (snd (ingest_table calm_env demo_request (utc 2) None demo_platform)) = []"
proof -
  obtain r pf' where r: "ingest_table calm_env demo_request (utc 2) None demo_platform = (r, pf')"
    by (cases "ingest_table calm_env demo_request (utc 2) None demo_platform")
  have "table_config (req_source_table demo_request) = Inr SELLERS_TABLE" by (simp add: demo_config)
  from ingest_cleans_local_files [OF this refl r] r show ?thesis by simp
qed

text \<open>
  C8: A batch that fails is recorded as failed. When an exception ends the work between the first page
  and the commit, the run's RUNNING row becomes FAILED with the classified error and its message, as
  long as nobody else finishes that run, the commit's reply was not lost and the record itself gets
  through; the exception is raised again unchanged.
\<close>
theorem failed_batch_recorded:
  assumes "started_run env q cfg w sl tb snap run now pf = (Inl e, pf')" "snap_extract_upper_bound snap = Some upper"
    and "db_inv (pf_db pf)" "map_of (pipeline_runs (pf_db pf)) (run_key run) = Some r" "rr_status r = RUNNING"
    and "\<And>pt. list_all (\<lambda>ev. \<not> about_run (run_key run) ev) (ie_others env pt)"
    and "ie_fault env FailureRecord = NoFault" "\<And>e. ie_fault env CommitPoint \<noteq> LostReply e"
    and "utcoffset now = Some 0" "\<And>t. exn_class e \<noteq> WarehouseBuildError t"
  shows "map_of (pipeline_runs (pf_db pf')) (run_key run) = Some (r\<lparr>rr_finished_at := Some (instant now), rr_status := FAILED,
      rr_error_type := Some (classify_error e), rr_error_message := message_of e\<rparr>)"
proof -
  let ?body = "write_and_commit env q cfg w sl tb snap upper run now"
  obtain y pf1 where b: "?body pf = (y, pf1)" by (cases "?body pf")
  let ?rec = "record_failed_run run (classify_error e) (message_of e) now"
  have y: "y = Inl e" and pf': "pf' = snd (at_point env FailureRecord ?rec pf1)"
    using assms(1,2) b by (auto simp: started_run_def onerrorM_def record_failure_without_masking_def split: sum.splits)
  have kept: "run_kept (run_key run) pf pf1"
  proof -
    obtain z pf2 where p: "prepare_commit env q cfg w sl tb snap upper run now pf = (z, pf2)"
      by (cases "prepare_commit env q cfg w sl tb snap upper run now pf")
    have k: "run_kept (run_key run) pf pf2" using movesD [OF prepare_keeps_run [OF assms(6)] p] .
    show ?thesis
    proof (cases z)
      case (Inl e')
      with b p k show ?thesis by (simp add: write_and_commit_def)
    next
      case (Inr cn)
      obtain c n where "cn = (c, n)" by (cases cn)
      with b p Inr y have "at_point env CommitPoint (commit_table_run c now) pf2 = (Inl e, pf1)"
        by (auto simp: write_and_commit_def bindM_err)
      from commit_point_keeps_run [OF assms(6,8) this] k show ?thesis using run_stays.trans by blast
    qed
  qed
  obtain pf3 where p3: "pause env FailureRecord pf1 = (Inr (), pf3)" by (simp add: pause_def)
  have kept3: "run_kept (run_key run) pf pf3"
    using kept movesD [OF pause_keeps_run [OF assms(6)] p3] run_stays.trans by blast
  then have row: "db_inv (pf_db pf3)" "map_of (pipeline_runs (pf_db pf3)) (run_key run) = Some r"
    using assms(3,4) by (simp_all add: run_kept_def)
  have "runs_inv (pf_db pf3)" using row(1) by (simp add: db_inv_def)
  from record_failed_progress [OF this row(2) assms(5,9) classify_error_recorded [OF assms(10)]]
  obtain db' where d: "?rec (pf_db pf3) = (Inr (), db')" by blast
  have "pf_db pf' = db'" unfolding pf' using p3 d assms(7) by (simp add: at_point_def on_db_apply)
  moreover obtain r' where "map_of (pipeline_runs (pf_db pf3)) (run_key run) = Some r'"
    "map_of (pipeline_runs db') = (map_of (pipeline_runs (pf_db pf3)))(run_key run \<mapsto>
      r'\<lparr>rr_finished_at := Some (instant now), rr_status := FAILED, rr_error_type := Some (classify_error e), rr_error_message := message_of e\<rparr>)"
    using record_failed_run_ok [OF d row(1)] run_ended_rows by blast
  ultimately show ?thesis using row(2) by simp
qed

text \<open>
  C16: A run that reports SUCCESS_NO_DATA has seen a snapshot with no row above the watermark it read,
  and its row is SUCCESS_NO_DATA for good.
\<close>
theorem no_data_means_no_rows:
  assumes "ingest_table env q now given pf = (Inr x, pf')" "res_status x = ''SUCCESS_NO_DATA''"
    and "table_config (req_source_table q) = Inr cfg" "ie_source env = Inr rows" "source_rows_ok cfg rows" "db_inv (pf_db pf)"
  shows "(\<forall>row \<in> set rows. \<not> past (cursor_bound (run_watermark_before (res_run x))) (row_rank cfg row)) \<and>
    (\<exists>r. map_of (pipeline_runs (pf_db pf')) (run_key (res_run x)) = Some r \<and> rr_status r = SUCCESS_NO_DATA)"
  using assms(1)
proof (rule ingest_outcome)
  assume "res_status x = ''SKIPPED_ALREADY_COMMITTED''"
  with assms(2) show ?thesis by simp
next
  fix cfg' w sl tb rid snap run pf1 pf2 pf3
  assume cfg': "table_config (req_source_table q) = Inr cfg'"
    and start: "start_run env q cfg' w rid now pf1 = (Inr (snap, run), pf2)"
    and body: "started_run env q cfg' w sl tb snap run now pf2 = (Inr x, pf3)"
    and tail: "run_tail env pf3 pf'" and pre: "\<And>P. surroundings P env \<Longrightarrow> evolves P pf pf2"
  have [simp]: "cfg' = cfg" using cfg' assms(3) by simp
  have sur: "surroundings (\<lambda>_. True) env" by (simp add: surroundings_def list_all_iff)
  have none: "snap_extract_upper_bound snap = None"
  proof (rule ccontr)
    assume "snap_extract_upper_bound snap \<noteq> None"
    then obtain u where "snap_extract_upper_bound snap = Some u" by blast
    with body have "res_status x = ''SUCCESS''"
      by (auto simp: started_run_def onerrorM_ok write_and_commit_def bindM_ok success_result_def)
    with assms(2) show False by simp
  qed
  from start_run_ok [OF start] none have run: "open_snapshot env cfg (wm_cursor w) (req_page_size q) = Inr snap"
    "run = request_run q cfg rid (wm_cursor w) None" by auto
  from open_snapshot_ok [OF run(1)] assms(4) none have "fetch_upper_bound cfg rows (wm_cursor w) = Inr None" by auto
  with fetch_upper_bound_ok [OF assms(3,5), of "wm_cursor w"]
  have "\<forall>row \<in> set rows. \<not> past (cursor_bound (wm_cursor w)) (row_rank cfg row)" by auto
  moreover have x: "res_run x = run" and nd: "\<exists>pf4. check_heartbeat env NoDataHealth pf2 = (Inr (), pf4) \<and>
      at_point env NoDataRecord (record_success_no_data_run run now) pf4 = (Inr (), pf3)"
    using body none by (auto simp: started_run_def run_no_data_def bindM_ok plain_result_def)
  moreover have "\<exists>r. map_of (pipeline_runs (pf_db pf')) (run_key run) = Some r \<and> rr_status r = SUCCESS_NO_DATA"
  proof -
    from nd obtain pf4 pf5 where p: "check_heartbeat env NoDataHealth pf2 = (Inr (), pf4)" "pause env NoDataRecord pf4 = (Inr (), pf5)"
      "record_success_no_data_run run now (pf_db pf5) = (Inr (), pf_db pf3)" by (auto elim: at_point_ok)
    have "evolves (\<lambda>_. True) pf pf5"
      using pre [OF sur] movesD [OF moves_check_heartbeat [OF sur] p(1)] at_point_evolves [OF sur p(2)] evolves_trans by metis
    then have "db_inv (pf_db pf5)" unfolding evolves_def using watermark.inv_run assms(6) by auto
    note nd_ok = record_success_no_data_run_ok [OF p(3) this]
    obtain r where "map_of (pipeline_runs (pf_db pf3)) = (map_of (pipeline_runs (pf_db pf5)))(run_key run \<mapsto>
        r\<lparr>rr_finished_at := Some (instant now), rr_status := SUCCESS_NO_DATA\<rparr>)"
      using nd_ok run_ended_rows by blast
    with nd_ok have r: "db_inv (pf_db pf3)"
      "map_of (pipeline_runs (pf_db pf3)) (run_key run) = Some (r\<lparr>rr_finished_at := Some (instant now), rr_status := SUCCESS_NO_DATA\<rparr>)"
      by simp_all
    obtain es where "pf_db pf' = fold step_of es (pf_db pf3)" using tail sur unfolding run_tail_def evolves_def by blast
    with run_finished [OF r] show ?thesis by simp
  qed
  ultimately show ?thesis using run(2) by (simp add: request_run_def)
qed


theorem no_data_means_no_rows_witness:
  "\<exists>x pf'. ingest_table (demo_env (Inr []) (\<lambda>_. NoFault)) demo_request (utc 2) None demo_platform = (Inr x, pf') \<and>
     (\<exists>r. map_of (pipeline_runs (pf_db pf')) (run_key (res_run x)) = Some r \<and> rr_status r = SUCCESS_NO_DATA)"
proof -
  let ?env = "demo_env (Inr []) (\<lambda>_. NoFault)"
  have ok: "source_rows_ok SELLERS_TABLE []" by (simp add: source_rows_ok_def)
  from ingest_no_data_progress [OF demo_start [OF ok]] obtain x pf' where
    r: "ingest_table ?env demo_request (utc 2) None demo_platform = (Inr x, pf')" "res_status x = ''SUCCESS_NO_DATA''" by auto
  have "db_inv (pf_db demo_platform)" by (simp add: db_inv_defs empty_db_def pk_ok_def)
  from no_data_means_no_rows [OF r _ _ ok this] r show ?thesis by (simp add: demo_config)
qed

text \<open>A started run whose local file is already there, and a platform on which the batch is committed.\<close>

definition demo_upper :: cursor_position where
  "demo_upper = \<lparr>cp_timestamp = Some 1, cp_keys = [KStr ''s2'']\<rparr>"

definition demo_snapshot :: table_snapshot where
  "demo_snapshot = \<lparr>snap_rows = demo_rows, snap_config = SELLERS_TABLE, snap_watermark_before = initial_cursor,
     snap_extract_upper_bound = Some demo_upper, snap_page_size = 1\<rparr>"

definition demo_running :: pipeline_run where
  "demo_running = request_run demo_request SELLERS_TABLE 7 initial_cursor (Some demo_upper)"

definition demo_blocked :: "(string \<times> s3_object) list platform" where
  "demo_blocked = demo_platform\<lparr>pf_db := snd (record_started_run demo_running (utc 0) empty_db),
     pf_files := [local_path SELLERS_TABLE 7 ''.parquet'']\<rparr>"

definition demo_leases :: "source_mutation_lease \<times> table_lease" where
  "demo_leases = (\<lparr>lease_owner_type = WAREHOUSE_OWNER_TYPE, lease_owner_id = 7, lease_expires_at = 9, lease_version = 1\<rparr>,
     \<lparr>tl_pipeline_name = ''sellers_bronze'', tl_source_table = ''sellers'', tl_owner_id = 7, tl_lease_expires_at = 9, tl_watermark_version = 0\<rparr>)"

theorem failed_batch_recorded_witness:
  "map_option (\<lambda>r. (rr_status r, rr_error_type r)) (map_of (pipeline_runs (pf_db (snd (started_run calm_env demo_request SELLERS_TABLE
     \<lparr>wm_pipeline_name = ''sellers_bronze'', wm_source_table = ''sellers'', wm_cursor = initial_cursor, wm_version = 0\<rparr>
     (fst demo_leases) (snd demo_leases) demo_snapshot demo_running (utc 2) demo_blocked)))) (7, ''sellers'')) =
   Some (FAILED, Some (classify_error (Exn FileExistsError ''Local Bronze Parquet already exists'')))"
proof -
  let ?w = "\<lparr>wm_pipeline_name = ''sellers_bronze'', wm_source_table = ''sellers'', wm_cursor = initial_cursor, wm_version = 0\<rparr>"
  let ?m = "started_run calm_env demo_request SELLERS_TABLE ?w (fst demo_leases) (snd demo_leases) demo_snapshot demo_running (utc 2)"
  let ?e = "Exn FileExistsError ''Local Bronze Parquet already exists''"
  have "fst (?m demo_blocked) = Inl ?e" by code_simp
  then obtain pf' where r: "?m demo_blocked = (Inl ?e, pf')" by (metis prod.collapse)
  have row: "map_option rr_status (map_of (pipeline_runs (pf_db demo_blocked)) (run_key demo_running)) = Some RUNNING" by code_simp
  have inv: "db_inv (pf_db demo_blocked)" by code_simp
  have up: "snap_extract_upper_bound demo_snapshot = Some demo_upper" by (simp add: demo_snapshot_def)
  have key: "run_key demo_running = (7, ''sellers'')" by code_simp
  from row obtain r' where r': "map_of (pipeline_runs (pf_db demo_blocked)) (run_key demo_running) = Some r'" "rr_status r' = RUNNING" by auto
  from failed_batch_recorded [OF r up inv r'] r key show ?thesis by simp
qed

definition demo_committed :: "(string \<times> s3_object) list platform" where
  "demo_committed = demo_platform\<lparr>pf_db := empty_db\<lparr>
     watermarks := [((''sellers_bronze'', ''sellers''), \<lparr>wr_timestamp = Some 1, wr_keys = [KStr ''s2''], wr_lease_owner = None,
       wr_lease_expires_at = None, wr_version = 1, wr_updated_at = 2\<rparr>)],
     bronze_objects := [(''warehouse__00010101T000000Z__sellers'', \<lparr>br_source_table = ''sellers'', br_batch_id = ''warehouse__00010101T000000Z'',
       br_object_key = ''bronze/1'', br_manifest_key = ''manifest/1'', br_schema_version = schema_version SELLERS_TABLE, br_row_count = 2,
       br_content_sha256 = replicate 64 CHR ''0'', br_logical_hash = replicate 64 CHR ''1'',
       br_watermark_before = as_metadata_json initial_cursor, br_watermark_after = as_metadata_json demo_upper,
       br_status = COMMITTED, br_committed_at = Some 2\<rparr>)]\<rparr>\<rparr>"


end
