(* ===== verification/GeneratorCore.thy ===== *)
theory GeneratorCore
  imports Validation
begin

text \<open>
  The inputs of a generator run (src/generator/core/config.py), and the identifiers and choices it
  derives from them (src/generator/core/ids.py): everything a run writes is a function of these
  inputs and of what the source database holds. SHA-256 and UUIDv5 are arguments.
\<close>

section \<open>Configuration\<close>

definition GENERATOR_VERSION :: string where "GENERATOR_VERSION = ''1.15.0''"

definition SUPPORTED_GENERATOR_VERSIONS :: "string list" where
  "SUPPORTED_GENERATOR_VERSIONS = [GENERATOR_VERSION]"

definition SUPPORTED_ANOMALY_PROFILES :: "string list" where
  "SUPPORTED_ANOMALY_PROFILES = [''default'', ''late-arrival'', ''membership-change'', ''subscription-active'',
     ''subscription-payment-failed'', ''subscription-cancel-requested'', ''subscription-churned'']"

record generator_config =
  gc_source_snapshot_id :: string
  gc_random_seed :: int
  gc_logical_date :: datetime
  gc_order_count :: int
  gc_anomaly_profile :: string
  gc_generator_version :: string
  gc_progress_time_scale :: int

definition assert_generator_version_supported :: "string \<Rightarrow> unit result" where
  "assert_generator_version_supported v = require (v \<in> set SUPPORTED_GENERATOR_VERSIONS) ''Unsupported generator_version''"

definition generator_config_check :: "generator_config \<Rightarrow> unit result" where
  "generator_config_check c =
     seq (require (\<not> (gc_source_snapshot_id c = [] \<or> length (gc_source_snapshot_id c) > 256))
            ''source_snapshot_id must contain 1 to 256 characters'')
    (seq (require (- (2 ^ 63) \<le> gc_random_seed c \<and> gc_random_seed c < 2 ^ 63) ''random_seed must fit in PostgreSQL BIGINT'')
    (seq (require (utcoffset (gc_logical_date c) \<noteq> None) ''logical_date must include a UTC offset'')
    (seq (require (\<not> gc_order_count c < 0) ''order_count must be zero or greater'')
    (seq (require (gc_anomaly_profile c \<in> set SUPPORTED_ANOMALY_PROFILES) ''Unsupported anomaly_profile'')
    (seq (require (1 \<le> gc_progress_time_scale c \<and> gc_progress_time_scale c < 2 ^ 31)
            ''progress_time_scale must be between 1 and 2147483647'')
    (assert_generator_version_supported (gc_generator_version c)))))))"

definition parse_logical_date :: "string \<Rightarrow> datetime result" where
  "parse_logical_date value = (case fromisoformat value of
      None \<Rightarrow> Inl (Exn ValueError ''--logical-date must be an ISO-8601 timestamp'')
    | Some d \<Rightarrow> (case utcoffset d of
        None \<Rightarrow> Inl (Exn ValueError ''--logical-date must include a UTC offset, for example 2026-09-04T00:00:00Z'')
      | Some _ \<Rightarrow> Inr (utc (instant d))))"

definition config_from_values :: "string \<Rightarrow> int \<Rightarrow> string \<Rightarrow> int \<Rightarrow> string \<Rightarrow> string \<Rightarrow> int \<Rightarrow> generator_config result" where
  "config_from_values snapshot seed logical_date order_count profile version scale =
     (case parse_logical_date logical_date of
        Inl e \<Rightarrow> Inl e
      | Inr d \<Rightarrow>
          (let c = \<lparr>gc_source_snapshot_id = snapshot, gc_random_seed = seed, gc_logical_date = d,
             gc_order_count = order_count, gc_anomaly_profile = profile, gc_generator_version = version,
             gc_progress_time_scale = scale\<rparr>
           in seq (generator_config_check c) (Inr c)))"

definition int_from_environment :: "(string \<times> string) list \<Rightarrow> string \<Rightarrow> int \<Rightarrow> int \<Rightarrow> int result" where
  "int_from_environment environment name default_value minimum =
     (let raw = strip (case map_of environment name of Some v \<Rightarrow> v | None \<Rightarrow> [])
      in if raw = [] then Inr default_value
         else case py_int raw of
           None \<Rightarrow> Inl (Exn ValueError (name @ '' must be an integer''))
         | Some n \<Rightarrow> if n < minimum then Inl (Exn ValueError (name @ '' must be '' @ show_int minimum @ '' or greater''))
                     else Inr n)"

section \<open>Canonical JSON\<close>

text \<open>
  The values the generator hashes. \<open>GTime\<close> is a \<open>datetime\<close>, \<open>GIso\<close> one that was printed with
  \<open>isoformat()\<close> before; a dict is the list of its members in insertion order.
\<close>

datatype gen_value =
    GNone | GStr string | GInt int | GTime datetime | GUuid uuid
  | GList "gen_value list" | GDict "(string \<times> gen_value) list"

text \<open>\<open>d.isoformat()\<close> of an aware value: the local reading and its offset.\<close>

definition isoformat_offset :: "int \<Rightarrow> string" where
  "isoformat_offset off = (let a = nat (abs off) div 1000000; us = nat (abs off) mod 1000000 in
     (if off < 0 then ''-'' else ''+'') @ pad 2 (a div 3600) @ '':'' @ pad 2 (a div 60 mod 60) @
     (if a mod 60 = 0 \<and> us = 0 then [] else '':'' @ pad 2 (a mod 60) @ (if us = 0 then [] else ''.'' @ pad 6 us)))"

definition isoformat_aware :: "datetime \<Rightarrow> string" where
  "isoformat_aware d = (case utcoffset d of
      None \<Rightarrow> butlast (butlast (butlast (butlast (butlast (butlast (isoformat (instant d)))))))
    | Some off \<Rightarrow> (if off = 0 then isoformat (instant d)
        else butlast (butlast (butlast (butlast (butlast (butlast (isoformat (instant d + off))))))) @ isoformat_offset off))"

text \<open>\<open>_canonical_json\<close>; a naive \<open>datetime\<close> reaches \<open>_json_default\<close>, which refuses it.\<close>

fun canonical_json :: "gen_value \<Rightarrow> string result" where
  "canonical_json GNone = Inr ''null''"
| "canonical_json (GStr s) = Inr (json_string s)"
| "canonical_json (GInt n) = Inr (show_int n)"
| "canonical_json (GUuid u) = Inr (json_string (uuid_str u))"
| "canonical_json (GTime d) = (case utcoffset d of
      None \<Rightarrow> Inl (Exn ValueError ''datetime values used for deterministic IDs must include a UTC offset'')
    | Some _ \<Rightarrow> Inr (json_string (isoformat (instant d))))"
| "canonical_json (GList vs) =
     map_sum id (\<lambda>ts. ''['' @ join_with '','' ts @ '']'') (results (map canonical_json vs))"
| "canonical_json (GDict ms) =
     map_sum id (\<lambda>ts. ''{'' @ join_with '','' ts @ ''}'')
       (results (map (\<lambda>(n, t). map_sum id (\<lambda>j. json_string n @ '':'' @ j) t)
          (sort_key fst (map (\<lambda>(n, v). (n, canonical_json v)) ms))))"

section \<open>Identifiers and choices\<close>

text \<open>\<open>sha256\<close> is the digest as a number, \<open>uuid5\<close> the name-based UUID.\<close>

record hashing =
  sha256 :: "string \<Rightarrow> nat"
  uuid5 :: "uuid \<Rightarrow> string \<Rightarrow> uuid"

definition hashing_ok :: "hashing \<Rightarrow> bool" where
  "hashing_ok h \<longleftrightarrow> (\<forall>s. sha256 h s < 2 ^ 256)"

definition GENERATOR_ID_NAMESPACE :: uuid where
  "GENERATOR_ID_NAMESPACE = 0x32db4e671e8c59b887edd69b0518a2e5"

definition deterministic_uuid :: "hashing \<Rightarrow> string \<Rightarrow> gen_value list \<Rightarrow> uuid result" where
  "deterministic_uuid h entity_name components =
     seq (require (entity_name \<noteq> []) ''entity_name must not be empty'')
       (map_sum id (uuid5 h GENERATOR_ID_NAMESPACE)
         (canonical_json (GDict [(''entity_name'', GStr entity_name), (''components'', GList components)])))"

definition logical_hash :: "hashing \<Rightarrow> gen_value \<Rightarrow> string result" where
  "logical_hash h v = map_sum id (\<lambda>t. hex 64 (sha256 h t)) (canonical_json v)"

text \<open>\<open>int(logical_hash(v), 16)\<close>.\<close>

definition hash_number :: "hashing \<Rightarrow> gen_value \<Rightarrow> nat result" where
  "hash_number h v = map_sum id (sha256 h) (canonical_json v)"

definition deterministic_inputs :: "generator_config \<Rightarrow> gen_value" where
  "deterministic_inputs c = GDict
     [(''source_snapshot_id'', GStr (gc_source_snapshot_id c)), (''random_seed'', GInt (gc_random_seed c)),
      (''logical_date'', GStr (isoformat_aware (gc_logical_date c))), (''order_count'', GInt (gc_order_count c)),
      (''anomaly_profile'', GStr (gc_anomaly_profile c)), (''generator_version'', GStr (gc_generator_version c)),
      (''progress_time_scale'', GInt (gc_progress_time_scale c))]"

section \<open>Lemmas\<close>

lemma config_checked:
  assumes "generator_config_check c = Inr ()"
  shows "gc_source_snapshot_id c \<noteq> []" "utcoffset (gc_logical_date c) \<noteq> None" "0 \<le> gc_order_count c"
    "1 \<le> gc_progress_time_scale c" "gc_anomaly_profile c \<in> set SUPPORTED_ANOMALY_PROFILES"
  using assms by (auto simp: generator_config_check_def seq_def require_def split: sum.splits if_splits)

lemma config_from_values_ok:
  assumes "config_from_values snapshot seed logical_date order_count profile version scale = Inr c"
  shows "utcoffset (gc_logical_date c) = Some 0" "generator_config_check c = Inr ()"
  using assms by (auto simp: config_from_values_def parse_logical_date_def seq_def utc_def Let_def split: sum.splits option.splits)

lemma results_total: "(\<And>r. r \<in> set rs \<Longrightarrow> \<exists>t. r = Inr t) \<Longrightarrow> \<exists>ts. results rs = Inr ts"
proof (induction rs)
  case (Cons r rs)
  from Cons.prems [of r] obtain t where "r = Inr t" by auto
  with Cons show ?case by auto
qed simp

text \<open>A value without naive times always has a canonical text, so every choice and identifier is defined.\<close>

fun offsets_known :: "gen_value \<Rightarrow> bool" where
  "offsets_known (GTime d) = (utcoffset d \<noteq> None)"
| "offsets_known (GList vs) = list_all offsets_known vs"
| "offsets_known (GDict ms) = list_all (\<lambda>(_, v). offsets_known v) ms"
| "offsets_known _ = True"

lemma canonical_json_total: "offsets_known v \<Longrightarrow> \<exists>t. canonical_json v = Inr t"
proof (induction v)
  case (GList vs)
  then have "\<exists>ts. results (map canonical_json vs) = Inr ts" by (intro results_total) (auto simp: list_all_iff)
  then show ?case by auto
next
  case (GDict ms)
  let ?f = "\<lambda>(n, t). map_sum id (\<lambda>j. json_string n @ '':'' @ j) t"
  have "\<exists>ts. results (map ?f (sort_key fst (map (\<lambda>(n, v). (n, canonical_json v)) ms))) = Inr ts"
  proof (rule results_total)
    fix r assume "r \<in> set (map ?f (sort_key fst (map (\<lambda>(n, v). (n, canonical_json v)) ms)))"
    then obtain n v where nv: "(n, v) \<in> set ms" "r = ?f (n, canonical_json v)" by auto
    then obtain t where "canonical_json v = Inr t" using GDict by (fastforce simp: list_all_iff)
    with nv show "\<exists>t. r = Inr t" by simp
  qed
  then show ?case by auto
qed auto

lemma offsets_known_inputs [simp]: "offsets_known (deterministic_inputs c)"
  by (simp add: deterministic_inputs_def)

lemma hash_number_total: "offsets_known v \<Longrightarrow> \<exists>n. hash_number h v = Inr n"
  using canonical_json_total [of v] by (auto simp: hash_number_def)

lemma deterministic_uuid_total:
  "entity \<noteq> [] \<Longrightarrow> list_all offsets_known components \<Longrightarrow> \<exists>u. deterministic_uuid h entity components = Inr u"
  using canonical_json_total [of "GDict [(''entity_name'', GStr entity), (''components'', GList components)]"]
  by (auto simp: deterministic_uuid_def seq_def require_def)

end
