(* ===== verification/SourceDb.thy ===== *)
theory SourceDb
  imports GeneratorCore Effects
begin

text \<open>
  The source database the generator mutates (sql/source/001 and 004): its tables with their keys,
  CHECK constraints, foreign keys and unique indexes. Timestamps are instants, amounts
  \<open>NUMERIC(14, 2)\<close> are counted in cents, and a record of the code is a keyed row. A generator run
  is one transaction, so every operation on these tables is a step of that transaction.
\<close>

section \<open>Rows\<close>

record customer_row =
  cu_customer_unique_id :: string
  cu_customer_city :: "string option"
  cu_customer_state :: "string option"
  cu_created_at :: time

record subscription_row =
  su_customer_unique_id :: string
  su_subscription_status :: string
  su_auto_renew_enabled :: bool
  su_subscription_started_at :: time
  su_current_period_started_at :: "time option"
  su_current_period_ends_at :: "time option"
  su_billing_due_at :: "time option"
  su_next_payment_attempt_at :: "time option"
  su_payment_failed_at :: "time option"
  su_cancel_requested_at :: "time option"
  su_ended_at :: "time option"
  su_status_changed_at :: time
  su_created_at :: time
  su_updated_at :: time

record tier_row =
  ti_membership_tier :: string
  ti_created_at :: time
  ti_updated_at :: time

record billing_row =
  bp_subscription_id :: uuid
  bp_billing_cycle_sequence :: int
  bp_attempt_sequence :: int
  bp_payment_status :: string
  bp_payment_at :: time
  bp_payment_value :: int
  bp_currency_code :: string
  bp_billing_period_start_at :: time
  bp_billing_period_end_at :: time
  bp_payment_method_type :: "string option"
  bp_payment_provider :: "string option"
  bp_provider_payment_id :: "string option"
  bp_failure_code :: "string option"
  bp_created_at :: time
  bp_updated_at :: time

record order_row =
  or_customer_id :: string
  or_order_status :: string
  or_order_purchase_timestamp :: time
  or_order_approved_at :: "time option"
  or_order_delivered_carrier_date :: "time option"
  or_order_delivered_customer_date :: "time option"
  or_order_estimated_delivery_date :: "time option"
  or_created_at :: time
  or_updated_at :: time

record item_row =
  it_product_id :: string
  it_seller_id :: string
  it_shipping_limit_date :: time
  it_price :: int
  it_freight_value :: int
  it_created_at :: time

record payment_row =
  pa_payment_type :: string
  pa_payment_installments :: "int option"
  pa_payment_value :: int
  pa_payment_status :: string
  pa_payment_initiated_at :: "time option"
  pa_payment_completed_at :: "time option"
  pa_payment_failed_at :: "time option"
  pa_payment_refunded_at :: "time option"
  pa_created_at :: time
  pa_updated_at :: time

text \<open>Products and sellers are only referenced; a row of \<open>generator_commits\<close> is keyed by its run.\<close>

record commit_row =
  gcm_config :: generator_config
  gcm_result_counts :: "(string \<times> int) list"
  gcm_logical_hash :: string

record source_db =
  customers :: "(string, customer_row) table"
  customer_subscriptions :: "(uuid, subscription_row) table"
  membership_tiers :: "(string, tier_row) table"
  subscription_payments :: "(uuid, billing_row) table"
  products :: "string list"
  sellers :: "string list"
  orders :: "(string, order_row) table"
  order_items :: "(string \<times> int, item_row) table"
  order_payments :: "(string \<times> int, payment_row) table"
  generator_commits :: "(uuid, commit_row) table"

section \<open>Constraints\<close>

abbreviation check_violation :: error_class where
  "check_violation \<equiv> OtherError ''CheckViolation''"

abbreviation foreign_key_violation :: error_class where
  "foreign_key_violation \<equiv> OtherError ''ForeignKeyViolation''"

definition ORDER_STATUSES :: "string list" where
  "ORDER_STATUSES = [''created'', ''approved'', ''processing'', ''invoiced'', ''shipped'', ''delivered'', ''canceled'', ''unavailable'']"

definition order_row_ok :: "order_row \<Rightarrow> bool" where
  "order_row_ok r \<longleftrightarrow> or_order_status r \<in> set ORDER_STATUSES \<and> or_created_at r \<le> or_updated_at r"

definition item_row_ok :: "int \<Rightarrow> item_row \<Rightarrow> bool" where
  "item_row_ok i r \<longleftrightarrow> 0 < i \<and> 0 \<le> it_price r \<and> 0 \<le> it_freight_value r"

definition payment_row_ok :: "int \<Rightarrow> payment_row \<Rightarrow> bool" where
  "payment_row_ok i r \<longleftrightarrow> 0 < i \<and> pa_payment_status r \<in> {''pending'', ''completed'', ''failed'', ''refunded''} \<and>
     (case pa_payment_installments r of None \<Rightarrow> True | Some n \<Rightarrow> 0 \<le> n) \<and> 0 \<le> pa_payment_value r \<and>
     pa_created_at r \<le> pa_updated_at r"

definition tier_row_ok :: "tier_row \<Rightarrow> bool" where
  "tier_row_ok r \<longleftrightarrow> ti_membership_tier r \<in> {''BRONZE'', ''SILVER'', ''GOLD''} \<and> ti_created_at r \<le> ti_updated_at r"

definition present :: "'a option \<Rightarrow> bool" where
  "present x \<longleftrightarrow> x \<noteq> None"

definition later :: "time option \<Rightarrow> time option \<Rightarrow> bool" where
  "later a b = (case (a, b) of (Some s, Some e) \<Rightarrow> s < e | _ \<Rightarrow> True)"

definition subscription_row_ok :: "subscription_row \<Rightarrow> bool" where
  "subscription_row_ok r \<longleftrightarrow>
     su_subscription_status r \<in> {''ACTIVE'', ''PAYMENT_FAILED'', ''CANCEL_REQUESTED'', ''CHURNED''} \<and>
     later (su_current_period_started_at r) (su_current_period_ends_at r) \<and>
     (su_subscription_status r = ''ACTIVE'' \<longrightarrow> present (su_current_period_started_at r) \<and>
        present (su_current_period_ends_at r) \<and> present (su_billing_due_at r) \<and> present (su_next_payment_attempt_at r)) \<and>
     (su_subscription_status r = ''PAYMENT_FAILED'' \<longrightarrow> present (su_payment_failed_at r)) \<and>
     (su_subscription_status r = ''CANCEL_REQUESTED'' \<longrightarrow> \<not> su_auto_renew_enabled r \<and>
        present (su_cancel_requested_at r) \<and> \<not> present (su_next_payment_attempt_at r)) \<and>
     (su_subscription_status r = ''CHURNED'' \<longrightarrow> \<not> su_auto_renew_enabled r \<and> present (su_ended_at r) \<and>
        \<not> present (su_billing_due_at r) \<and> \<not> present (su_next_payment_attempt_at r)) \<and>
     su_created_at r \<le> su_updated_at r \<and> su_subscription_started_at r \<le> su_status_changed_at r \<and>
     su_status_changed_at r \<le> su_updated_at r"

definition billing_row_ok :: "billing_row \<Rightarrow> bool" where
  "billing_row_ok r \<longleftrightarrow> 0 < bp_billing_cycle_sequence r \<and> 0 < bp_attempt_sequence r \<and>
     bp_payment_status r \<in> {''completed'', ''failed''} \<and> 0 \<le> bp_payment_value r \<and>
     bp_billing_period_start_at r < bp_billing_period_end_at r \<and>
     (bp_payment_status r = ''completed'' \<longrightarrow> bp_failure_code r = None) \<and> bp_created_at r \<le> bp_updated_at r"

definition open_contract :: "subscription_row \<Rightarrow> bool" where
  "open_contract r \<longleftrightarrow> su_subscription_status r \<in> {''ACTIVE'', ''PAYMENT_FAILED'', ''CANCEL_REQUESTED''}"

section \<open>Statements\<close>

definition insert_customer :: "string \<times> customer_row \<Rightarrow> (source_db, unit) op" where
  "insert_customer kr =
     bindM (getM (\<lambda>db. insert_row ''customers_pkey'' (fst kr) (snd kr) (customers db))) (\<lambda>t.
     bindM (liftM t) (\<lambda>t. modifyM (\<lambda>db. db\<lparr>customers := t\<rparr>)))"

definition insert_tier :: "string \<times> tier_row \<Rightarrow> (source_db, unit) op" where
  "insert_tier kr =
     bindM (assertM (tier_row_ok (snd kr)) check_violation ''customer_membership_tiers'') (\<lambda>_.
     bindM (getM (\<lambda>db. insert_row ''customer_membership_tiers_pkey'' (fst kr) (snd kr) (membership_tiers db))) (\<lambda>t.
     bindM (liftM t) (\<lambda>t. modifyM (\<lambda>db. db\<lparr>membership_tiers := t\<rparr>))))"

definition update_tier :: "string \<Rightarrow> (tier_row \<Rightarrow> tier_row) \<Rightarrow> (source_db, unit) op" where
  "update_tier k f =
     bindM (getM (\<lambda>db. map_of (membership_tiers db) k)) (\<lambda>row.
     bindM (assertM (case row of None \<Rightarrow> True | Some r \<Rightarrow> tier_row_ok (f r)) check_violation ''customer_membership_tiers'') (\<lambda>_.
     modifyM (\<lambda>db. db\<lparr>membership_tiers := update_rows (\<lambda>k' _. k' = k) f (membership_tiers db)\<rparr>)))"

definition contract_free :: "uuid \<Rightarrow> subscription_row \<Rightarrow> source_db \<Rightarrow> bool" where
  "contract_free k r db \<longleftrightarrow> (open_contract r \<longrightarrow>
     list_all (\<lambda>(k', r'). k' = k \<or> \<not> open_contract r' \<or> su_customer_unique_id r' \<noteq> su_customer_unique_id r)
       (customer_subscriptions db))"

definition insert_subscription :: "uuid \<times> subscription_row \<Rightarrow> (source_db, unit) op" where
  "insert_subscription kr =
     bindM (assertM (subscription_row_ok (snd kr)) check_violation ''customer_subscriptions'') (\<lambda>_.
     bindM (getM (\<lambda>db. insert_row ''customer_subscriptions_pkey'' (fst kr) (snd kr) (customer_subscriptions db))) (\<lambda>t.
     bindM (liftM t) (\<lambda>t.
     bindM (getM (contract_free (fst kr) (snd kr))) (\<lambda>free.
     bindM (assertM free (UniqueViolation ''customer_subscriptions_one_open_contract_idx'') ''duplicate key value'') (\<lambda>_.
     modifyM (\<lambda>db. db\<lparr>customer_subscriptions := t\<rparr>))))))"

definition update_subscription :: "uuid \<Rightarrow> (subscription_row \<Rightarrow> subscription_row) \<Rightarrow> (source_db, unit) op" where
  "update_subscription k f =
     bindM (getM (\<lambda>db. map_of (customer_subscriptions db) k)) (\<lambda>row. case row of
       None \<Rightarrow> returnM ()
     | Some r \<Rightarrow>
         bindM (assertM (subscription_row_ok (f r)) check_violation ''customer_subscriptions'') (\<lambda>_.
         bindM (getM (contract_free k (f r))) (\<lambda>free.
         bindM (assertM free (UniqueViolation ''customer_subscriptions_one_open_contract_idx'') ''duplicate key value'') (\<lambda>_.
         modifyM (\<lambda>db. db\<lparr>customer_subscriptions := update_rows (\<lambda>k' _. k' = k) f (customer_subscriptions db)\<rparr>)))))"

definition billing_unique :: "billing_row \<Rightarrow> source_db \<Rightarrow> bool" where
  "billing_unique r db \<longleftrightarrow> list_all (\<lambda>(_, r').
     \<not> (bp_subscription_id r' = bp_subscription_id r \<and> bp_billing_cycle_sequence r' = bp_billing_cycle_sequence r \<and>
        bp_attempt_sequence r' = bp_attempt_sequence r) \<and>
     \<not> (present (bp_payment_provider r) \<and> present (bp_provider_payment_id r) \<and>
        bp_payment_provider r' = bp_payment_provider r \<and> bp_provider_payment_id r' = bp_provider_payment_id r))
     (subscription_payments db)"

definition insert_billing :: "uuid \<times> billing_row \<Rightarrow> (source_db, unit) op" where
  "insert_billing kr =
     bindM (assertM (billing_row_ok (snd kr)) check_violation ''subscription_payments'') (\<lambda>_.
     bindM (getM (\<lambda>db. insert_row ''subscription_payments_pkey'' (fst kr) (snd kr) (subscription_payments db))) (\<lambda>t.
     bindM (liftM t) (\<lambda>t.
     bindM (getM (billing_unique (snd kr))) (\<lambda>unique.
     bindM (assertM unique (UniqueViolation ''subscription_payments_cycle_attempt_unique'') ''duplicate key value'') (\<lambda>_.
     bindM (getM (\<lambda>db. map_of (customer_subscriptions db) (bp_subscription_id (snd kr)) \<noteq> None)) (\<lambda>known.
     bindM (assertM known foreign_key_violation ''subscription_payments_subscription_id_fkey'') (\<lambda>_.
     modifyM (\<lambda>db. db\<lparr>subscription_payments := t\<rparr>))))))))"

definition insert_order :: "string \<times> order_row \<Rightarrow> (source_db, unit) op" where
  "insert_order kr =
     bindM (assertM (order_row_ok (snd kr)) check_violation ''orders'') (\<lambda>_.
     bindM (getM (\<lambda>db. insert_row ''orders_pkey'' (fst kr) (snd kr) (orders db))) (\<lambda>t.
     bindM (liftM t) (\<lambda>t.
     bindM (getM (\<lambda>db. map_of (customers db) (or_customer_id (snd kr)) \<noteq> None)) (\<lambda>known.
     bindM (assertM known foreign_key_violation ''orders_customer_id_fkey'') (\<lambda>_.
     modifyM (\<lambda>db. db\<lparr>orders := t\<rparr>))))))"

definition update_order :: "string \<Rightarrow> (order_row \<Rightarrow> order_row) \<Rightarrow> (source_db, unit) op" where
  "update_order k f =
     bindM (getM (\<lambda>db. map_of (orders db) k)) (\<lambda>row.
     bindM (assertM (case row of None \<Rightarrow> True | Some r \<Rightarrow> order_row_ok (f r)) check_violation ''orders'') (\<lambda>_.
     modifyM (\<lambda>db. db\<lparr>orders := update_rows (\<lambda>k' _. k' = k) f (orders db)\<rparr>)))"

definition insert_item :: "(string \<times> int) \<times> item_row \<Rightarrow> (source_db, unit) op" where
  "insert_item kr =
     bindM (assertM (item_row_ok (snd (fst kr)) (snd kr)) check_violation ''order_items'') (\<lambda>_.
     bindM (getM (\<lambda>db. insert_row ''order_items_pkey'' (fst kr) (snd kr) (order_items db))) (\<lambda>t.
     bindM (liftM t) (\<lambda>t.
     bindM (getM (\<lambda>db. map_of (orders db) (fst (fst kr)) \<noteq> None \<and>
       it_product_id (snd kr) \<in> set (products db) \<and> it_seller_id (snd kr) \<in> set (sellers db))) (\<lambda>known.
     bindM (assertM known foreign_key_violation ''order_items_fkey'') (\<lambda>_.
     modifyM (\<lambda>db. db\<lparr>order_items := t\<rparr>))))))"

definition insert_payment :: "(string \<times> int) \<times> payment_row \<Rightarrow> (source_db, unit) op" where
  "insert_payment kr =
     bindM (assertM (payment_row_ok (snd (fst kr)) (snd kr)) check_violation ''order_payments'') (\<lambda>_.
     bindM (getM (\<lambda>db. insert_row ''order_payments_pkey'' (fst kr) (snd kr) (order_payments db))) (\<lambda>t.
     bindM (liftM t) (\<lambda>t.
     bindM (getM (\<lambda>db. map_of (orders db) (fst (fst kr)) \<noteq> None)) (\<lambda>known.
     bindM (assertM known foreign_key_violation ''order_payments_order_id_fkey'') (\<lambda>_.
     modifyM (\<lambda>db. db\<lparr>order_payments := t\<rparr>))))))"

definition update_payment :: "string \<times> int \<Rightarrow> (payment_row \<Rightarrow> payment_row) \<Rightarrow> (source_db, unit) op" where
  "update_payment k f =
     bindM (getM (\<lambda>db. map_of (order_payments db) k)) (\<lambda>row.
     bindM (assertM (case row of None \<Rightarrow> True | Some r \<Rightarrow> payment_row_ok (snd k) (f r)) check_violation ''order_payments'') (\<lambda>_.
     modifyM (\<lambda>db. db\<lparr>order_payments := update_rows (\<lambda>k' _. k' = k) f (order_payments db)\<rparr>)))"

section \<open>Persisting records\<close>

text \<open>
  The loop all \<open>persist_...\<close> functions share: each record is handled in turn and counted as
  inserted, updated or skipped.
\<close>

record mutation_result =
  mr_inserted :: nat
  mr_updated :: nat
  mr_skipped :: nat

datatype outcome = Inserted | Updated | Skipped

definition count_outcome :: "outcome \<Rightarrow> mutation_result \<Rightarrow> mutation_result" where
  "count_outcome x m = (case x of
      Inserted \<Rightarrow> m\<lparr>mr_inserted := mr_inserted m + 1\<rparr>
    | Updated \<Rightarrow> m\<lparr>mr_updated := mr_updated m + 1\<rparr>
    | Skipped \<Rightarrow> m\<lparr>mr_skipped := mr_skipped m + 1\<rparr>)"

fun persist_from :: "('r \<Rightarrow> (source_db, outcome) op) \<Rightarrow> mutation_result \<Rightarrow> 'r list \<Rightarrow> (source_db, mutation_result) op" where
  "persist_from f m [] = returnM m"
| "persist_from f m (r # rs) = bindM (f r) (\<lambda>x. persist_from f (count_outcome x m) rs)"

definition no_mutations :: mutation_result where
  "no_mutations = \<lparr>mr_inserted = 0, mr_updated = 0, mr_skipped = 0\<rparr>"

definition persist_each :: "('r \<Rightarrow> (source_db, outcome) op) \<Rightarrow> 'r list \<Rightarrow> (source_db, mutation_result) op" where
  "persist_each f rs = persist_from f no_mutations rs"

text \<open>Insert a missing row, skip an equal one, and hand a different one to \<open>otherwise\<close>.\<close>

definition upsert ::
    "(source_db \<Rightarrow> ('k, 'r) table) \<Rightarrow> ('r \<Rightarrow> unit result) \<Rightarrow> ('k \<times> 'r \<Rightarrow> (source_db, unit) op) \<Rightarrow>
     ('r \<Rightarrow> 'k \<times> 'r \<Rightarrow> (source_db, outcome) op) \<Rightarrow> 'k \<times> 'r \<Rightarrow> (source_db, outcome) op" where
  "upsert tab check ins otherwise kr =
     bindM (getM (\<lambda>db. map_of (tab db) (fst kr))) (\<lambda>existing. case existing of
       None \<Rightarrow> bindM (ins kr) (\<lambda>_. returnM Inserted)
     | Some r \<Rightarrow> bindM (liftM (check r)) (\<lambda>_.
         if r = snd kr then returnM Skipped else otherwise r kr))"

lemma bindM_lift [simp]: "bindM (liftM (Inr x)) f = f x" "bindM (liftM (Inl e)) f = liftM (Inl e)"
  by (rule ext; simp add: bindM_def)+

end
