(* ===== verification/Customers.thy ===== *)
theory Customers
  imports SourceDb
begin

text \<open>
  Customers, subscription contracts and membership tiers (src/generator/customers/customers.py):
  the records the generator plans, the checks of their constructors, the subscription state
  machine, and the statements that store them. Times are instants; the constructors' UTC checks are
  made on the one time that enters from outside, the run's \<open>logical_date\<close>.
\<close>

section \<open>Records\<close>

definition MEMBERSHIP_TIERS :: "string list" where
  "MEMBERSHIP_TIERS = [''BRONZE'', ''SILVER'', ''GOLD'']"

definition SUBSCRIPTION_STATUSES :: "string list" where
  "SUBSCRIPTION_STATUSES = [''ACTIVE'', ''PAYMENT_FAILED'', ''CANCEL_REQUESTED'', ''CHURNED'']"

definition SUBSCRIPTION_PERIOD :: int where "SUBSCRIPTION_PERIOD = 30 * 86400000000"
definition PAYMENT_FAILURE_GRACE_PERIOD :: int where "PAYMENT_FAILURE_GRACE_PERIOD = 7 * 86400000000"
definition PAYMENT_RETRY_DELAY :: int where "PAYMENT_RETRY_DELAY = 2 * 86400000000"

definition ADDRESS_CATALOG :: "(string \<times> string) list" where
  "ADDRESS_CATALOG = [(''sao paulo'', ''SP''), (''rio de janeiro'', ''RJ''), (''curitiba'', ''PR''), (''belo horizonte'', ''MG'')]"

definition upper_char :: "char \<Rightarrow> bool" where
  "upper_char c = (let k = (of_char c :: nat) in \<not> (97 \<le> k \<and> k \<le> 122))"

definition address_check :: "string option \<Rightarrow> string option \<Rightarrow> unit result" where
  "address_check city state =
     seq (require (case city of None \<Rightarrow> False | Some c \<Rightarrow> c \<noteq> [] \<and> \<not> length c > 128)
            ''customer_city must contain 1 to 128 characters'')
    (require (case state of None \<Rightarrow> False | Some s \<Rightarrow> length s = 2 \<and> list_all upper_char s)
       ''customer_state must be a two-character uppercase code'')"

definition id_check :: "string \<Rightarrow> string \<Rightarrow> unit result" where
  "id_check s name = require (\<not> (s = [] \<or> length s > 64)) (name @ '' must contain 1 to 64 characters'')"

definition customer_check :: "string \<times> customer_row \<Rightarrow> unit result" where
  "customer_check c =
     seq (address_check (cu_customer_city (snd c)) (cu_customer_state (snd c)))
    (seq (id_check (fst c) ''customer_id'') (id_check (cu_customer_unique_id (snd c)) ''customer_unique_id''))"

definition subscription_check :: "subscription_row \<Rightarrow> unit result" where
  "subscription_check r =
     seq (id_check (su_customer_unique_id r) ''customer_unique_id'')
    (seq (require (su_subscription_status r \<in> set SUBSCRIPTION_STATUSES) ''Unsupported subscription_status'')
    (seq (require (\<not> su_updated_at r < su_created_at r) ''updated_at must be greater than or equal to created_at'')
    (seq (require (later (su_current_period_started_at r) (su_current_period_ends_at r)) ''current period must end after it starts'')
    (seq (require (\<not> (su_subscription_status r = ''ACTIVE'' \<and>
            (su_current_period_started_at r = None \<or> su_current_period_ends_at r = None \<or> su_billing_due_at r = None \<or>
             su_next_payment_attempt_at r = None))) ''ACTIVE requires a current period and next payment schedule'')
    (seq (require (\<not> (su_subscription_status r = ''PAYMENT_FAILED'' \<and> su_payment_failed_at r = None))
            ''PAYMENT_FAILED requires payment_failed_at'')
    (seq (require (\<not> (su_subscription_status r = ''CANCEL_REQUESTED'' \<and>
            (su_auto_renew_enabled r \<or> su_cancel_requested_at r = None \<or> su_next_payment_attempt_at r \<noteq> None)))
            ''CANCEL_REQUESTED disables renewal and has no next payment attempt'')
    (require (\<not> (su_subscription_status r = ''CHURNED'' \<and>
            (su_auto_renew_enabled r \<or> su_ended_at r = None \<or> su_billing_due_at r \<noteq> None \<or>
             su_next_payment_attempt_at r \<noteq> None)))
       ''CHURNED must be ended with no renewal schedule'')))))))"

definition tier_check :: "string \<times> tier_row \<Rightarrow> unit result" where
  "tier_check t =
     seq (id_check (fst t) ''customer_unique_id'')
    (seq (require (ti_membership_tier (snd t) \<in> set MEMBERSHIP_TIERS) ''Unsupported membership_tier'')
    (require (\<not> ti_updated_at (snd t) < ti_created_at (snd t)) ''updated_at must be greater than or equal to created_at''))"

section \<open>New records\<close>

definition assert_positive_ordinal :: "int \<Rightarrow> unit result" where
  "assert_positive_ordinal n = require (\<not> n < 1) ''order_ordinal must be an integer greater than zero''"

definition deterministic_id :: "hashing \<Rightarrow> generator_config \<Rightarrow> string \<Rightarrow> gen_value list \<Rightarrow> string result" where
  "deterministic_id h cfg entity components =
     map_sum id (hex 32) (deterministic_uuid h entity (deterministic_inputs cfg # components))"

definition address_for :: "hashing \<Rightarrow> generator_config \<Rightarrow> string \<Rightarrow> int \<Rightarrow> (string \<times> string) result" where
  "address_for h cfg address_kind ordinal = map_sum id (\<lambda>n. ADDRESS_CATALOG ! (n mod length ADDRESS_CATALOG))
     (hash_number h (GDict [(''generator_inputs'', deterministic_inputs cfg), (''address_kind'', GStr address_kind),
        (''ordinal'', GInt ordinal)]))"

definition new_order_customer_record ::
    "hashing \<Rightarrow> generator_config \<Rightarrow> string \<Rightarrow> int \<Rightarrow> string \<times> string \<Rightarrow> string \<Rightarrow> (string \<times> customer_row) result" where
  "new_order_customer_record h cfg unique_id ordinal address record_kind =
     (case deterministic_id h cfg record_kind [GStr unique_id, GInt ordinal] of
        Inl e \<Rightarrow> Inl e
      | Inr k \<Rightarrow>
          (let c = (k, \<lparr>cu_customer_unique_id = unique_id, cu_customer_city = Some (fst address),
                 cu_customer_state = Some (snd address), cu_created_at = instant (gc_logical_date cfg)\<rparr>)
           in seq (customer_check c) (seq (assert_utc (gc_logical_date cfg) ''created_at'') (Inr c))))"

definition new_customer_record :: "hashing \<Rightarrow> generator_config \<Rightarrow> int \<Rightarrow> (string \<times> customer_row) result" where
  "new_customer_record h cfg ordinal =
     seq (assert_positive_ordinal ordinal)
       (case deterministic_id h cfg ''customer-unique'' [GInt ordinal] of
          Inl e \<Rightarrow> Inl e
        | Inr unique_id \<Rightarrow> (case address_for h cfg ''new-customer'' ordinal of
            Inl e \<Rightarrow> Inl e
          | Inr address \<Rightarrow> new_order_customer_record h cfg unique_id ordinal address ''new-customer-record''))"

definition new_subscription_record_for_customer :: "hashing \<Rightarrow> string \<Rightarrow> datetime \<Rightarrow> (uuid \<times> subscription_row) result" where
  "new_subscription_record_for_customer h unique_id started =
     (case deterministic_uuid h ''subscription-contract'' [GStr unique_id, GTime started] of
        Inl e \<Rightarrow> Inl e
      | Inr k \<Rightarrow>
          (let t = instant started; due = Some (t + SUBSCRIPTION_PERIOD);
               r = \<lparr>su_customer_unique_id = unique_id, su_subscription_status = ''ACTIVE'', su_auto_renew_enabled = True,
                 su_subscription_started_at = t, su_current_period_started_at = Some t, su_current_period_ends_at = due,
                 su_billing_due_at = due, su_next_payment_attempt_at = due, su_payment_failed_at = None,
                 su_cancel_requested_at = None, su_ended_at = None, su_status_changed_at = t, su_created_at = t,
                 su_updated_at = t\<rparr>
           in seq (assert_utc started ''subscription_started_at'') (seq (subscription_check r) (Inr (k, r)))))"

definition new_subscription_record :: "hashing \<Rightarrow> string \<times> customer_row \<Rightarrow> (uuid \<times> subscription_row) result" where
  "new_subscription_record h c = new_subscription_record_for_customer h (cu_customer_unique_id (snd c)) (utc (cu_created_at (snd c)))"

definition new_membership_tier_record :: "string \<times> customer_row \<Rightarrow> (string \<times> tier_row) result" where
  "new_membership_tier_record c =
     (let t = (cu_customer_unique_id (snd c),
        \<lparr>ti_membership_tier = ''BRONZE'', ti_created_at = cu_created_at (snd c), ti_updated_at = cu_created_at (snd c)\<rparr>)
      in seq (tier_check t) (Inr t))"

section \<open>Tier changes\<close>

definition membership_tier :: "int \<Rightarrow> string result" where
  "membership_tier delivered =
     seq (require (\<not> delivered < 0) ''delivered_order_count must be zero or greater'')
       (Inr (if delivered \<ge> 15 then ''GOLD'' else if delivered \<ge> 5 then ''SILVER'' else ''BRONZE''))"

definition membership_tier_change_records ::
    "generator_config \<Rightarrow> (string \<times> tier_row) list \<Rightarrow> int \<Rightarrow> (string \<times> tier_row) list result" where
  "membership_tier_change_records cfg rs delivered =
     seq (require (rs \<noteq> []) ''Membership tier changes require at least one tier record'')
    (seq (require (card (set (map fst rs)) = 1) ''Membership tier changes must contain exactly one customer_unique_id'')
    (seq (require (length rs = 1) ''Membership tier changes require exactly one person-grain record'')
    (case membership_tier delivered of
       Inl e \<Rightarrow> Inl e
     | Inr target \<Rightarrow>
         (let (k, r) = hd rs in
          if ti_membership_tier r = target then Inr [(k, r)]
          else
            seq (require (\<not> instant (gc_logical_date cfg) \<le> ti_updated_at r)
                   ''logical_date must be greater than updated_at for a membership change'')
           (let r' = (k, r\<lparr>ti_membership_tier := target, ti_updated_at := instant (gc_logical_date cfg)\<rparr>)
            in seq (assert_utc (gc_logical_date cfg) ''updated_at'') (seq (tier_check r') (Inr [r'])))))))"

section \<open>The subscription state machine\<close>

definition SUBSCRIPTION_TARGETS :: "(string \<times> string list) list" where
  "SUBSCRIPTION_TARGETS = [(''ACTIVE'', [''ACTIVE'', ''PAYMENT_FAILED'', ''CANCEL_REQUESTED'']),
     (''PAYMENT_FAILED'', [''ACTIVE'', ''CANCEL_REQUESTED'', ''CHURNED'']),
     (''CANCEL_REQUESTED'', [''ACTIVE'', ''CHURNED'']), (''CHURNED'', [])]"

definition allowed_subscription_targets :: "string \<Rightarrow> string list result" where
  "allowed_subscription_targets status = (case map_of SUBSCRIPTION_TARGETS status of
      None \<Rightarrow> Inl (Exn (OtherError ''KeyError'') status) | Some ss \<Rightarrow> Inr ss)"

definition transition_subscription_record :: "subscription_row \<Rightarrow> string \<Rightarrow> time \<Rightarrow> subscription_row result" where
  "transition_subscription_record r status t =
     (let moved = r\<lparr>su_subscription_status := status, su_status_changed_at := t, su_updated_at := t\<rparr> in
      if status = ''ACTIVE'' then
        Inr (moved\<lparr>su_auto_renew_enabled := True, su_current_period_started_at := Some t,
          su_current_period_ends_at := Some (t + SUBSCRIPTION_PERIOD), su_billing_due_at := Some (t + SUBSCRIPTION_PERIOD),
          su_next_payment_attempt_at := Some (t + SUBSCRIPTION_PERIOD), su_payment_failed_at := None,
          su_cancel_requested_at := None, su_ended_at := None\<rparr>)
      else if status = ''PAYMENT_FAILED'' then
        Inr (moved\<lparr>su_current_period_ends_at := Some (t + PAYMENT_FAILURE_GRACE_PERIOD),
          su_billing_due_at := Some (case su_billing_due_at r of Some d \<Rightarrow> d | None \<Rightarrow> t),
          su_next_payment_attempt_at := Some (t + PAYMENT_RETRY_DELAY), su_payment_failed_at := Some t,
          su_cancel_requested_at := None\<rparr>)
      else if status = ''CANCEL_REQUESTED'' then
        Inr (moved\<lparr>su_auto_renew_enabled := False, su_next_payment_attempt_at := None, su_cancel_requested_at := Some t\<rparr>)
      else if status = ''CHURNED'' then
        (if (case su_current_period_ends_at r of None \<Rightarrow> True | Some e \<Rightarrow> t < e)
         then Inl (Exn ValueError ''CHURNED requires logical_date at or after current_period_ends_at'')
         else Inr (moved\<lparr>su_auto_renew_enabled := False, su_billing_due_at := None, su_next_payment_attempt_at := None,
           su_ended_at := Some t\<rparr>))
      else Inl (Exn ValueError (''Unsupported subscription target: '' @ status)))"

text \<open>\<open>dataclasses.replace\<close> with the run's time runs the constructor's checks again.\<close>

definition checked_subscription :: "generator_config \<Rightarrow> subscription_row \<Rightarrow> subscription_row result" where
  "checked_subscription cfg r = seq (assert_utc (gc_logical_date cfg) ''updated_at'') (seq (subscription_check r) (Inr r))"

definition subscription_transition_records ::
    "generator_config \<Rightarrow> (uuid \<times> subscription_row) list \<Rightarrow> string \<Rightarrow> (uuid \<times> subscription_row) list result" where
  "subscription_transition_records cfg rs status =
     seq (require (length rs = 1) ''Subscription transitions require exactly one person-grain record'')
    (let (k, r) = hd rs in
     seq (require (\<not> instant (gc_logical_date cfg) \<le> su_updated_at r)
            ''logical_date must be greater than updated_at for a subscription transition'')
    (case allowed_subscription_targets (su_subscription_status r) of
       Inl e \<Rightarrow> Inl e
     | Inr targets \<Rightarrow>
         seq (require (status \<in> set targets) ''Unsupported subscription transition'')
        (case transition_subscription_record r status (instant (gc_logical_date cfg)) of
           Inl e \<Rightarrow> Inl e
         | Inr r' \<Rightarrow> map_sum id (\<lambda>r'. [(k, r')]) (checked_subscription cfg r'))))"

section \<open>Storing\<close>

definition persist_customer_records :: "(string \<times> customer_row) list \<Rightarrow> (source_db, mutation_result) op" where
  "persist_customer_records = persist_each (\<lambda>c. upsert customers (\<lambda>r. customer_check (fst c, r)) insert_customer
     (\<lambda>_ _. raiseM ValueError ''Customer accounts are immutable after creation'') c)"

text \<open>\<open>ensure_...\<close>: a row that exists is kept as it is.\<close>

definition ensure_subscription_records :: "(uuid \<times> subscription_row) list \<Rightarrow> (source_db, mutation_result) op" where
  "ensure_subscription_records = persist_each
     (upsert customer_subscriptions subscription_check insert_subscription (\<lambda>_ _. returnM Skipped))"

definition ensure_membership_tier_records :: "(string \<times> tier_row) list \<Rightarrow> (source_db, mutation_result) op" where
  "ensure_membership_tier_records = persist_each (\<lambda>t. upsert membership_tiers (\<lambda>r. tier_check (fst t, r)) insert_tier
     (\<lambda>_ _. returnM Skipped) t)"

definition change_subscription :: "subscription_row \<Rightarrow> uuid \<times> subscription_row \<Rightarrow> (source_db, outcome) op" where
  "change_subscription existing kr =
     (let r = snd kr in
      bindM (assertM (su_created_at r = su_created_at existing) ValueError ''Subscription created_at cannot change'') (\<lambda>_.
      bindM (assertM (\<not> su_updated_at r \<le> su_updated_at existing) ValueError
               ''Subscription changes require an updated_at greater than the current value'') (\<lambda>_.
      bindM (update_subscription (fst kr) (\<lambda>x. x\<lparr>su_subscription_status := su_subscription_status r,
               su_auto_renew_enabled := su_auto_renew_enabled r,
               su_current_period_started_at := su_current_period_started_at r,
               su_current_period_ends_at := su_current_period_ends_at r, su_billing_due_at := su_billing_due_at r,
               su_next_payment_attempt_at := su_next_payment_attempt_at r, su_payment_failed_at := su_payment_failed_at r,
               su_cancel_requested_at := su_cancel_requested_at r, su_ended_at := su_ended_at r,
               su_status_changed_at := su_status_changed_at r, su_updated_at := su_updated_at r\<rparr>)) (\<lambda>_.
      returnM Updated))))"

definition persist_subscription_records :: "(uuid \<times> subscription_row) list \<Rightarrow> (source_db, mutation_result) op" where
  "persist_subscription_records =
     persist_each (upsert customer_subscriptions subscription_check insert_subscription change_subscription)"

definition change_tier :: "tier_row \<Rightarrow> string \<times> tier_row \<Rightarrow> (source_db, outcome) op" where
  "change_tier existing kr =
     (let r = snd kr in
      bindM (assertM (ti_created_at r = ti_created_at existing) ValueError ''Membership tier created_at cannot change'') (\<lambda>_.
      bindM (assertM (\<not> ti_updated_at r \<le> ti_updated_at existing) ValueError
               ''Membership tier changes require an updated_at greater than the current value'') (\<lambda>_.
      bindM (update_tier (fst kr) (\<lambda>x. x\<lparr>ti_membership_tier := ti_membership_tier r, ti_updated_at := ti_updated_at r\<rparr>)) (\<lambda>_.
      returnM Updated))))"

definition persist_membership_tier_records :: "(string \<times> tier_row) list \<Rightarrow> (source_db, mutation_result) op" where
  "persist_membership_tier_records = persist_each (\<lambda>t. upsert membership_tiers (\<lambda>r. tier_check (fst t, r)) insert_tier change_tier t)"

end
