(* ===== verification/Orders.thy ===== *)
theory Orders
  imports SourceDb
begin

text \<open>
  The transitions the generator makes on orders and their payments
  (src/generator/orders/transitions.py): planned from the state read, then stored under the row
  lock when the row is still the one they were planned from.
\<close>

section \<open>Allowed transitions\<close>

definition ORDER_TRANSITIONS :: "(string \<times> string list) list" where
  "ORDER_TRANSITIONS = [(''created'', [''approved'', ''canceled'']), (''approved'', [''shipped'', ''canceled'']),
     (''shipped'', [''delivered'']), (''delivered'', []), (''canceled'', [])]"

definition PAYMENT_TRANSITIONS :: "(string \<times> string list) list" where
  "PAYMENT_TRANSITIONS = [(''pending'', [''completed'', ''failed'']), (''completed'', [''refunded'']),
     (''failed'', []), (''refunded'', [])]"

record order_state =
  os_order_id :: string
  os_order_status :: string
  os_order_approved_at :: "time option"
  os_order_delivered_carrier_date :: "time option"
  os_order_delivered_customer_date :: "time option"
  os_updated_at :: time

record payment_state =
  ps_order_id :: string
  ps_payment_sequential :: int
  ps_payment_status :: string
  ps_payment_initiated_at :: "time option"
  ps_payment_completed_at :: "time option"
  ps_payment_failed_at :: "time option"
  ps_payment_refunded_at :: "time option"
  ps_updated_at :: time

record order_transition =
  ot_order_id :: string
  ot_expected_status :: string
  ot_expected_updated_at :: time
  ot_next_status :: string
  ot_mutation_time :: datetime
  ot_business_event_time :: "datetime option"

record payment_transition =
  pt_order_id :: string
  pt_payment_sequential :: int
  pt_expected_status :: string
  pt_expected_updated_at :: time
  pt_next_status :: string
  pt_mutation_time :: datetime
  pt_business_event_time :: "datetime option"

record transition_result =
  tr_updated :: nat
  tr_skipped :: nat

definition assert_allowed_transition :: "(string \<times> string list) list \<Rightarrow> string \<Rightarrow> string \<Rightarrow> string \<Rightarrow> unit result" where
  "assert_allowed_transition transitions current_status next_status entity =
     require (case map_of transitions current_status of None \<Rightarrow> False | Some allowed \<Rightarrow> next_status \<in> set allowed)
       (''Unsupported '' @ entity @ '' transition: '' @ current_status @ '' -> '' @ next_status)"

text \<open>An aware \<open>mutation_time\<close> is compared with the stored instant.\<close>

definition assert_increasing_mutation_time :: "time \<Rightarrow> datetime \<Rightarrow> unit result" where
  "assert_increasing_mutation_time current mutation =
     seq (assert_utc mutation ''mutation_time'')
       (require (\<not> instant mutation \<le> current) ''mutation_time must be greater than the current updated_at'')"

definition assert_business_event_time :: "datetime \<Rightarrow> datetime \<Rightarrow> unit result" where
  "assert_business_event_time event mutation =
     seq (assert_utc event ''business_event_time'')
       (require (\<not> instant event > instant mutation) ''business_event_time must not be later than mutation_time'')"

definition check_event_time :: "datetime option \<Rightarrow> datetime \<Rightarrow> unit result" where
  "check_event_time event mutation = (case event of None \<Rightarrow> Inr () | Some b \<Rightarrow> assert_business_event_time b mutation)"

definition plan_order_transition :: "order_state \<Rightarrow> string \<Rightarrow> datetime \<Rightarrow> datetime option \<Rightarrow> order_transition result" where
  "plan_order_transition current next_status mutation event =
     seq (assert_allowed_transition ORDER_TRANSITIONS (os_order_status current) next_status ''Order'')
    (seq (assert_increasing_mutation_time (os_updated_at current) mutation)
    (seq (check_event_time event mutation)
    (seq (require (event = None \<or> next_status \<in> {''approved'', ''shipped'', ''delivered''})
            ''business_event_time is only supported for Order event status transitions'')
    (Inr \<lparr>ot_order_id = os_order_id current, ot_expected_status = os_order_status current,
       ot_expected_updated_at = os_updated_at current, ot_next_status = next_status,
       ot_mutation_time = mutation, ot_business_event_time = event\<rparr>))))"

definition plan_payment_transition ::
    "payment_state \<Rightarrow> string \<Rightarrow> datetime \<Rightarrow> datetime option \<Rightarrow> payment_transition result" where
  "plan_payment_transition current next_status mutation event =
     seq (assert_allowed_transition PAYMENT_TRANSITIONS (ps_payment_status current) next_status ''Payment'')
    (seq (assert_increasing_mutation_time (ps_updated_at current) mutation)
    (seq (check_event_time event mutation)
    (seq (require (event = None \<or> next_status \<in> {''completed'', ''failed'', ''refunded''})
            ''business_event_time is only supported for Payment event status transitions'')
    (Inr \<lparr>pt_order_id = ps_order_id current, pt_payment_sequential = ps_payment_sequential current,
       pt_expected_status = ps_payment_status current, pt_expected_updated_at = ps_updated_at current,
       pt_next_status = next_status, pt_mutation_time = mutation, pt_business_event_time = event\<rparr>))))"

section \<open>Reading states\<close>

definition order_state_of :: "string \<Rightarrow> order_row \<Rightarrow> order_state" where
  "order_state_of k r = \<lparr>os_order_id = k, os_order_status = or_order_status r,
     os_order_approved_at = or_order_approved_at r, os_order_delivered_carrier_date = or_order_delivered_carrier_date r,
     os_order_delivered_customer_date = or_order_delivered_customer_date r, os_updated_at = or_updated_at r\<rparr>"

definition payment_state_of :: "string \<times> int \<Rightarrow> payment_row \<Rightarrow> payment_state" where
  "payment_state_of k r = \<lparr>ps_order_id = fst k, ps_payment_sequential = snd k, ps_payment_status = pa_payment_status r,
     ps_payment_initiated_at = pa_payment_initiated_at r, ps_payment_completed_at = pa_payment_completed_at r,
     ps_payment_failed_at = pa_payment_failed_at r, ps_payment_refunded_at = pa_payment_refunded_at r,
     ps_updated_at = pa_updated_at r\<rparr>"

definition fetch_order_state :: "string \<Rightarrow> (source_db, order_state) op" where
  "fetch_order_state k = bindM (getM (\<lambda>db. map_of (orders db) k)) (\<lambda>row. case row of
      None \<Rightarrow> raiseM ValueError (''Order not found: '' @ k)
    | Some r \<Rightarrow> returnM (order_state_of k r))"

definition fetch_payment_state :: "string \<Rightarrow> int \<Rightarrow> (source_db, payment_state) op" where
  "fetch_payment_state k n = bindM (getM (\<lambda>db. map_of (order_payments db) (k, n))) (\<lambda>row. case row of
      None \<Rightarrow> raiseM ValueError (''Payment not found: '' @ k @ ''/'' @ show_int n)
    | Some r \<Rightarrow> returnM (payment_state_of (k, n) r))"

section \<open>Storing transitions\<close>

text \<open>A naive \<open>datetime\<close> never equals a stored, aware one.\<close>

definition is_instant :: "datetime \<Rightarrow> time \<Rightarrow> bool" where
  "is_instant d t \<longleftrightarrow> utcoffset d \<noteq> None \<and> instant d = t"

definition event_time_of :: "datetime option \<Rightarrow> datetime \<Rightarrow> datetime" where
  "event_time_of event mutation = (case event of Some b \<Rightarrow> b | None \<Rightarrow> mutation)"

definition order_state_after :: "order_state \<Rightarrow> string \<Rightarrow> datetime \<Rightarrow> datetime option \<Rightarrow> order_state result" where
  "order_state_after current next_status mutation event =
     seq (assert_allowed_transition ORDER_TRANSITIONS (os_order_status current) next_status ''Order'')
    (seq (assert_increasing_mutation_time (os_updated_at current) mutation)
    (seq (check_event_time event mutation)
    (let at = instant (event_time_of event mutation);
         moved = current\<lparr>os_order_status := next_status, os_updated_at := instant mutation\<rparr> in
     Inr (if next_status = ''approved'' then moved\<lparr>os_order_approved_at := Some at\<rparr>
          else if next_status = ''shipped'' then moved\<lparr>os_order_delivered_carrier_date := Some at\<rparr>
          else if next_status = ''delivered'' then moved\<lparr>os_order_delivered_customer_date := Some at\<rparr>
          else moved))))"

text \<open>A status without an event of its own is compared with the expected time itself.\<close>

definition order_event_matches :: "order_state \<Rightarrow> string \<Rightarrow> datetime \<Rightarrow> bool" where
  "order_event_matches s status at =
     (let recorded = (\<lambda>t. case t of None \<Rightarrow> False | Some t \<Rightarrow> is_instant at t) in
      if status = ''approved'' then recorded (os_order_approved_at s)
      else if status = ''shipped'' then recorded (os_order_delivered_carrier_date s)
      else if status = ''delivered'' then recorded (os_order_delivered_customer_date s) else True)"

definition is_idempotent_order_transition :: "order_state \<Rightarrow> order_transition \<Rightarrow> bool result" where
  "is_idempotent_order_transition current t =
     (if os_order_status current \<noteq> ot_next_status t \<or> \<not> is_instant (ot_mutation_time t) (os_updated_at current) then Inr False
      else seq (require (order_event_matches current (ot_next_status t)
                  (event_time_of (ot_business_event_time t) (ot_mutation_time t)))
               ''Order has different values at the same updated_at cursor'') (Inr True))"

definition assert_expected_order_version :: "order_state \<Rightarrow> order_transition \<Rightarrow> unit result" where
  "assert_expected_order_version current t =
     require (\<not> (os_order_status current \<noteq> ot_expected_status t \<or> os_updated_at current \<noteq> ot_expected_updated_at t))
       ''Order changed after transition planning''"

definition store_order_state :: "order_state \<Rightarrow> (source_db, unit) op" where
  "store_order_state s = update_order (os_order_id s)
     (\<lambda>r. r\<lparr>or_order_status := os_order_status s, or_order_approved_at := os_order_approved_at s,
        or_order_delivered_carrier_date := os_order_delivered_carrier_date s,
        or_order_delivered_customer_date := os_order_delivered_customer_date s, or_updated_at := os_updated_at s\<rparr>)"

definition persist_order_transition :: "order_transition \<Rightarrow> (source_db, transition_result) op" where
  "persist_order_transition t =
     bindM (fetch_order_state (ot_order_id t)) (\<lambda>current.
     bindM (liftM (is_idempotent_order_transition current t)) (\<lambda>same.
     if same then returnM \<lparr>tr_updated = 0, tr_skipped = 1\<rparr>
     else
       bindM (liftM (assert_expected_order_version current t)) (\<lambda>_.
       bindM (liftM (order_state_after current (ot_next_status t) (ot_mutation_time t) (ot_business_event_time t))) (\<lambda>desired.
       bindM (store_order_state desired) (\<lambda>_.
       returnM \<lparr>tr_updated = 1, tr_skipped = 0\<rparr>)))))"

definition apply_order_transition :: "order_transition \<Rightarrow> (source_db, transition_result) op" where
  "apply_order_transition t = transactionM (persist_order_transition t)"

text \<open>\<open>_payment_event_at\<close>: a status that has no event is a \<open>KeyError\<close>.\<close>

definition payment_event_at :: "payment_state \<Rightarrow> string \<Rightarrow> time option result" where
  "payment_event_at s status =
     (if status = ''completed'' then Inr (ps_payment_completed_at s)
      else if status = ''failed'' then Inr (ps_payment_failed_at s)
      else if status = ''refunded'' then Inr (ps_payment_refunded_at s)
      else Inl (Exn (OtherError ''KeyError'') status))"

definition assert_expected_payment_version :: "payment_state \<Rightarrow> payment_transition \<Rightarrow> unit result" where
  "assert_expected_payment_version current t =
     require (\<not> (ps_payment_status current \<noteq> pt_expected_status t \<or> ps_updated_at current \<noteq> pt_expected_updated_at t))
       ''Payment changed after transition planning''"

definition store_payment_state :: "payment_state \<Rightarrow> (source_db, unit) op" where
  "store_payment_state s = update_payment (ps_order_id s, ps_payment_sequential s)
     (\<lambda>r. r\<lparr>pa_payment_status := ps_payment_status s, pa_payment_completed_at := ps_payment_completed_at s,
        pa_payment_failed_at := ps_payment_failed_at s, pa_payment_refunded_at := ps_payment_refunded_at s,
        pa_updated_at := ps_updated_at s\<rparr>)"

definition payment_state_after :: "payment_state \<Rightarrow> payment_transition \<Rightarrow> payment_state" where
  "payment_state_after current t =
     (let at = instant (event_time_of (pt_business_event_time t) (pt_mutation_time t));
          desired = (if pt_next_status t = ''completed'' then current\<lparr>ps_payment_completed_at := Some at\<rparr>
            else if pt_next_status t = ''failed'' then current\<lparr>ps_payment_failed_at := Some at\<rparr>
            else current\<lparr>ps_payment_refunded_at := Some at\<rparr>)
      in desired\<lparr>ps_payment_status := pt_next_status t, ps_updated_at := instant (pt_mutation_time t)\<rparr>)"

definition persist_payment_transition :: "payment_transition \<Rightarrow> (source_db, transition_result) op" where
  "persist_payment_transition t =
     bindM (fetch_payment_state (pt_order_id t) (pt_payment_sequential t)) (\<lambda>current.
     if ps_payment_status current = pt_next_status t \<and> is_instant (pt_mutation_time t) (ps_updated_at current)
     then
       bindM (liftM (payment_event_at current (pt_next_status t))) (\<lambda>recorded.
       bindM (assertM (case recorded of None \<Rightarrow> False
                | Some r \<Rightarrow> is_instant (event_time_of (pt_business_event_time t) (pt_mutation_time t)) r) ValueError
                ''Payment has different values at the same updated_at cursor'') (\<lambda>_.
       returnM \<lparr>tr_updated = 0, tr_skipped = 1\<rparr>))
     else
       bindM (liftM (assert_expected_payment_version current t)) (\<lambda>_.
       bindM (liftM (assert_allowed_transition PAYMENT_TRANSITIONS (ps_payment_status current) (pt_next_status t) ''Payment'')) (\<lambda>_.
       bindM (liftM (assert_increasing_mutation_time (ps_updated_at current) (pt_mutation_time t))) (\<lambda>_.
       bindM (store_payment_state (payment_state_after current t)) (\<lambda>_.
       returnM \<lparr>tr_updated = 1, tr_skipped = 0\<rparr>)))))"

section \<open>What a transition does\<close>

text \<open>The rows a stored transition leaves, as functions of the rows it found.\<close>

definition order_moved :: "string \<Rightarrow> time \<Rightarrow> time \<Rightarrow> order_row \<Rightarrow> order_row" where
  "order_moved status at now r =
     (let r' = r\<lparr>or_order_status := status, or_updated_at := now\<rparr> in
      if status = ''approved'' then r'\<lparr>or_order_approved_at := Some at\<rparr>
      else if status = ''shipped'' then r'\<lparr>or_order_delivered_carrier_date := Some at\<rparr>
      else if status = ''delivered'' then r'\<lparr>or_order_delivered_customer_date := Some at\<rparr> else r')"

definition payment_moved :: "string \<Rightarrow> time \<Rightarrow> time \<Rightarrow> payment_row \<Rightarrow> payment_row" where
  "payment_moved status at now r =
     (let r' = r\<lparr>pa_payment_status := status, pa_updated_at := now\<rparr> in
      if status = ''completed'' then r'\<lparr>pa_payment_completed_at := Some at\<rparr>
      else if status = ''failed'' then r'\<lparr>pa_payment_failed_at := Some at\<rparr>
      else r'\<lparr>pa_payment_refunded_at := Some at\<rparr>)"

definition allowed :: "(string \<times> string list) list \<Rightarrow> string \<Rightarrow> string \<Rightarrow> bool" where
  "allowed transitions s s' \<longleftrightarrow> (case map_of transitions s of None \<Rightarrow> False | Some ss \<Rightarrow> s' \<in> set ss)"

lemma order_allowed_iff: "allowed ORDER_TRANSITIONS s s' \<longleftrightarrow>
    s = ''created'' \<and> s' \<in> {''approved'', ''canceled''} \<or> s = ''approved'' \<and> s' \<in> {''shipped'', ''canceled''} \<or>
    s = ''shipped'' \<and> s' = ''delivered''"
  by (auto simp: allowed_def ORDER_TRANSITIONS_def)

lemma payment_allowed_iff: "allowed PAYMENT_TRANSITIONS s s' \<longleftrightarrow>
    s = ''pending'' \<and> s' \<in> {''completed'', ''failed''} \<or> s = ''completed'' \<and> s' = ''refunded''"
  by (auto simp: allowed_def PAYMENT_TRANSITIONS_def)

lemma assert_allowed_ok [simp]: "assert_allowed_transition tr s s' m = Inr u \<longleftrightarrow> allowed tr s s'"
  by (simp add: assert_allowed_transition_def allowed_def)

lemma assert_utc_iff [simp]: "assert_utc d m = Inr u \<longleftrightarrow> utcoffset d = Some 0"
  by (simp add: assert_utc_def)

lemma increasing_ok [simp]: "assert_increasing_mutation_time t d = Inr u \<longleftrightarrow> utcoffset d = Some 0 \<and> t < instant d"
  by (auto simp: assert_increasing_mutation_time_def)

lemma check_event_ok: "check_event_time ev d = Inr u \<longleftrightarrow>
    (case ev of None \<Rightarrow> True | Some b \<Rightarrow> utcoffset b = Some 0 \<and> instant b \<le> instant d)"
  by (auto simp: check_event_time_def assert_business_event_time_def split: option.splits)

lemma event_time_of_le: "check_event_time ev d = Inr u \<Longrightarrow> instant (event_time_of ev d) \<le> instant d"
  by (auto simp: check_event_ok event_time_of_def split: option.splits)

lemma update_order_ok:
  assumes "map_of (orders db) k = Some r" "order_row_ok (f r)"
  shows "update_order k f db = (Inr (), db\<lparr>orders := update_rows (\<lambda>k' _. k' = k) f (orders db)\<rparr>)"
  using assms by (simp add: update_order_def bindM_def assertM_apply)

lemma update_payment_ok:
  assumes "map_of (order_payments db) k = Some r" "payment_row_ok (snd k) (f r)"
  shows "update_payment k f db = (Inr (), db\<lparr>order_payments := update_rows (\<lambda>k' _. k' = k) f (order_payments db)\<rparr>)"
  using assms by (simp add: update_payment_def bindM_def assertM_apply)

lemma update_rows_at:
  assumes "pk_ok t" "map_of t k = Some r" "f r = g r"
  shows "update_rows (\<lambda>k' _. k' = k) f t = update_rows (\<lambda>k' _. k' = k) g t"
  unfolding update_rows_def
proof (rule map_cong [OF refl], clarify)
  fix k' r' assume "(k', r') \<in> set t"
  with assms(1) have "map_of t k' = Some r'" by (simp add: pk_ok_def)
  with assms(2,3) show "k' = k' \<and> (if k' = k then f r' else r') = (if k' = k then g r' else r')" by auto
qed

definition set_order :: "string \<Rightarrow> order_row \<Rightarrow> source_db \<Rightarrow> source_db" where
  "set_order k r db = db\<lparr>orders := update_rows (\<lambda>k' _. k' = k) (\<lambda>_. r) (orders db)\<rparr>"

definition set_payment :: "string \<times> int \<Rightarrow> payment_row \<Rightarrow> source_db \<Rightarrow> source_db" where
  "set_payment k r db = db\<lparr>order_payments := update_rows (\<lambda>k' _. k' = k) (\<lambda>_. r) (order_payments db)\<rparr>"

lemma order_moved_ok: "order_row_ok r \<Longrightarrow> or_updated_at r \<le> now \<Longrightarrow> s \<in> set ORDER_STATUSES \<Longrightarrow> order_row_ok (order_moved s at now r)"
  by (auto simp: order_row_ok_def order_moved_def Let_def)

lemma payment_moved_ok: "payment_row_ok i r \<Longrightarrow> pa_updated_at r \<le> now \<Longrightarrow> s \<in> {''completed'', ''failed'', ''refunded''} \<Longrightarrow>
    payment_row_ok i (payment_moved s at now r)"
  by (auto simp: payment_row_ok_def payment_moved_def Let_def)

lemma fetch_order_ok: "fetch_order_state k db = (Inr s, db') \<longleftrightarrow>
    db' = db \<and> (\<exists>r. map_of (orders db) k = Some r \<and> s = order_state_of k r)"
  by (auto simp: fetch_order_state_def bindM_ok split: option.splits)

lemma fetch_payment_ok: "fetch_payment_state k n db = (Inr s, db') \<longleftrightarrow>
    db' = db \<and> (\<exists>r. map_of (order_payments db) (k, n) = Some r \<and> s = payment_state_of (k, n) r)"
  by (auto simp: fetch_payment_state_def bindM_ok split: option.splits)

lemma order_state_after_ok:
  "order_state_after (order_state_of k r) s m ev = Inr d \<longleftrightarrow>
     allowed ORDER_TRANSITIONS (or_order_status r) s \<and> utcoffset m = Some 0 \<and> or_updated_at r < instant m \<and>
     check_event_time ev m = Inr () \<and> d = order_state_of k (order_moved s (instant (event_time_of ev m)) (instant m) r)"
  by (auto simp: order_state_after_def Let_def order_state_of_def order_moved_def)

lemma store_order_state_ok:
  assumes "pk_ok (orders db)" "map_of (orders db) k = Some r" "order_row_ok (order_moved s at now r)"
  shows "store_order_state (order_state_of k (order_moved s at now r)) db = (Inr (), set_order k (order_moved s at now r) db)"
proof -
  let ?s = "order_state_of k (order_moved s at now r)"
  let ?f = "\<lambda>r. r\<lparr>or_order_status := os_order_status ?s, or_order_approved_at := os_order_approved_at ?s,
        or_order_delivered_carrier_date := os_order_delivered_carrier_date ?s,
        or_order_delivered_customer_date := os_order_delivered_customer_date ?s, or_updated_at := os_updated_at ?s\<rparr>"
  have f: "?f r = order_moved s at now r" by (simp add: order_state_of_def order_moved_def Let_def)
  have k: "os_order_id ?s = k" by (simp add: order_state_of_def)
  show ?thesis
    unfolding store_order_state_def k
    using update_order_ok [OF assms(2), of ?f] update_rows_at [OF assms(1,2), of ?f "\<lambda>_. order_moved s at now r"] f assms(3)
    by (simp add: set_order_def)
qed

lemma order_state_of_sel [simp]: "os_order_id (order_state_of k r) = k" "os_order_status (order_state_of k r) = or_order_status r"
  "os_updated_at (order_state_of k r) = or_updated_at r"
  by (simp_all add: order_state_of_def)

lemma payment_state_of_sel [simp]: "ps_order_id (payment_state_of k r) = fst k" "ps_payment_sequential (payment_state_of k r) = snd k"
  "ps_payment_status (payment_state_of k r) = pa_payment_status r" "ps_updated_at (payment_state_of k r) = pa_updated_at r"
  by (simp_all add: payment_state_of_def)

definition order_stored :: "order_transition \<Rightarrow> order_row \<Rightarrow> source_db \<Rightarrow> source_db \<Rightarrow> bool" where
  "order_stored t r db db' \<longleftrightarrow> map_of (orders db) (ot_order_id t) = Some r \<and>
     or_order_status r = ot_expected_status t \<and> or_updated_at r = ot_expected_updated_at t \<and>
     allowed ORDER_TRANSITIONS (ot_expected_status t) (ot_next_status t) \<and> ot_expected_updated_at t < instant (ot_mutation_time t) \<and>
     utcoffset (ot_mutation_time t) = Some 0 \<and> check_event_time (ot_business_event_time t) (ot_mutation_time t) = Inr () \<and>
     db' = set_order (ot_order_id t) (order_moved (ot_next_status t)
       (instant (event_time_of (ot_business_event_time t) (ot_mutation_time t))) (instant (ot_mutation_time t)) r) db"

lemma order_stored_I:
  assumes "pk_ok (orders db)" "list_all (\<lambda>(_, r). order_row_ok r) (orders db)" "order_stored t r db db'"
  shows "persist_order_transition t db = (Inr \<lparr>tr_updated = 1, tr_skipped = 0\<rparr>, db')"
proof -
  note t = assms(3) [unfolded order_stored_def]
  let ?r' = "order_moved (ot_next_status t) (instant (event_time_of (ot_business_event_time t) (ot_mutation_time t)))
      (instant (ot_mutation_time t)) r"
  have "order_row_ok r" using assms(2) t by (auto simp: list_all_iff dest: map_of_SomeD)
  then have ok: "order_row_ok ?r'" using t by (intro order_moved_ok) (auto simp: order_allowed_iff ORDER_STATUSES_def)
  have "or_order_status r \<noteq> ot_next_status t" using t by (auto simp: order_allowed_iff)
  then have "is_idempotent_order_transition (order_state_of (ot_order_id t) r) t = Inr False"
    by (simp add: is_idempotent_order_transition_def)
  moreover have "fetch_order_state (ot_order_id t) db = (Inr (order_state_of (ot_order_id t) r), db)" using t by (simp add: fetch_order_ok)
  moreover have "order_state_after (order_state_of (ot_order_id t) r) (ot_next_status t) (ot_mutation_time t) (ot_business_event_time t)
      = Inr (order_state_of (ot_order_id t) ?r')" using t by (simp add: order_state_after_ok)
  moreover have "assert_expected_order_version (order_state_of (ot_order_id t) r) t = Inr ()"
    using t by (simp add: assert_expected_order_version_def)
  moreover have "db' = set_order (ot_order_id t) ?r' db" using t by blast
  ultimately show ?thesis
    using store_order_state_ok [OF assms(1) _ ok, of "ot_order_id t"] t by (simp add: persist_order_transition_def)
qed

text \<open>The two ways a stored transition ends well: already there, or moved from the planned version.\<close>

lemma persist_order_transition_cases:
  assumes "persist_order_transition t db = (Inr x, db')" "pk_ok (orders db)"
  obtains (skipped) r where "x = \<lparr>tr_updated = 0, tr_skipped = 1\<rparr>" "db' = db" "map_of (orders db) (ot_order_id t) = Some r"
      "or_order_status r = ot_next_status t" "is_instant (ot_mutation_time t) (or_updated_at r)"
    | (stored) r where "x = \<lparr>tr_updated = 1, tr_skipped = 0\<rparr>" "order_stored t r db db'"
proof -
  from assms(1) obtain r same where r: "map_of (orders db) (ot_order_id t) = Some r"
      "is_idempotent_order_transition (order_state_of (ot_order_id t) r) t = Inr same"
    by (auto simp: persist_order_transition_def bindM_ok fetch_order_ok)
  show thesis
  proof (cases same)
    case True
    with r have "or_order_status r = ot_next_status t" "is_instant (ot_mutation_time t) (or_updated_at r)"
      by (auto simp: is_idempotent_order_transition_def split: if_splits)
    moreover have "x = \<lparr>tr_updated = 0, tr_skipped = 1\<rparr>" "db' = db"
      using assms(1) r True by (auto simp: persist_order_transition_def bindM_ok fetch_order_ok)
    ultimately show thesis using r(1) skipped by blast
  next
    case False
    from assms(1) r False obtain d where d: "assert_expected_order_version (order_state_of (ot_order_id t) r) t = Inr ()"
        "order_state_after (order_state_of (ot_order_id t) r) (ot_next_status t) (ot_mutation_time t) (ot_business_event_time t) = Inr d"
        "store_order_state d db = (Inr (), db')" "x = \<lparr>tr_updated = 1, tr_skipped = 0\<rparr>"
      by (auto simp: persist_order_transition_def bindM_ok fetch_order_ok)
    let ?r' = "order_moved (ot_next_status t) (instant (event_time_of (ot_business_event_time t) (ot_mutation_time t)))
      (instant (ot_mutation_time t)) r"
    let ?f = "\<lambda>r. r\<lparr>or_order_status := os_order_status d, or_order_approved_at := os_order_approved_at d,
        or_order_delivered_carrier_date := os_order_delivered_carrier_date d,
        or_order_delivered_customer_date := os_order_delivered_customer_date d, or_updated_at := os_updated_at d\<rparr>"
    from d(2) have st: "allowed ORDER_TRANSITIONS (or_order_status r) (ot_next_status t)" "utcoffset (ot_mutation_time t) = Some 0"
        "or_updated_at r < instant (ot_mutation_time t)" "check_event_time (ot_business_event_time t) (ot_mutation_time t) = Inr ()"
        "d = order_state_of (ot_order_id t) ?r'"
      by (simp_all add: order_state_after_ok)
    have f: "?f r = ?r'" unfolding st(5) by (simp add: order_state_of_def order_moved_def Let_def)
    from d(3) r(1) st(5) have "order_row_ok (?f r)" by (auto simp: store_order_state_def update_order_def bindM_ok)
    then have "order_row_ok ?r'" using f by simp
    from store_order_state_ok [OF assms(2) r(1) this] d(3) st(5) have "db' = set_order (ot_order_id t) ?r' db" by simp
    then have "order_stored t r db db'"
      using st r(1) d(1) by (simp add: order_stored_def assert_expected_order_version_def)
    with d(4) show thesis by (rule stored)
  qed
qed

lemma update_order_err: "update_order k f db = (Inl e, db') \<Longrightarrow> db' = db"
  by (auto simp: update_order_def bindM_err)

lemma update_payment_err: "update_payment k f db = (Inl e, db') \<Longrightarrow> db' = db"
  by (auto simp: update_payment_def bindM_err)

lemma fetch_order_err: "fetch_order_state k db = (Inl e, db') \<Longrightarrow> db' = db"
  by (auto simp: fetch_order_state_def bindM_err split: option.splits)

lemma fetch_payment_err: "fetch_payment_state k n db = (Inl e, db') \<Longrightarrow> db' = db"
  by (auto simp: fetch_payment_state_def bindM_err split: option.splits)

lemma persist_order_transition_err: "persist_order_transition t db = (Inl e, db') \<Longrightarrow> db' = db"
  by (auto simp: persist_order_transition_def bindM_err fetch_order_ok store_order_state_def
      dest: update_order_err fetch_order_err split: if_splits)

lemma persist_payment_transition_err: "persist_payment_transition t db = (Inl e, db') \<Longrightarrow> db' = db"
  by (auto simp: persist_payment_transition_def bindM_err fetch_payment_ok store_payment_state_def
      dest: update_payment_err fetch_payment_err split: if_splits)

section \<open>What a payment transition does\<close>

definition payment_stored :: "payment_transition \<Rightarrow> payment_row \<Rightarrow> source_db \<Rightarrow> source_db \<Rightarrow> bool" where
  "payment_stored t r db db' \<longleftrightarrow> map_of (order_payments db) (pt_order_id t, pt_payment_sequential t) = Some r \<and>
     pa_payment_status r = pt_expected_status t \<and> pa_updated_at r = pt_expected_updated_at t \<and>
     allowed PAYMENT_TRANSITIONS (pt_expected_status t) (pt_next_status t) \<and>
     pt_expected_updated_at t < instant (pt_mutation_time t) \<and> utcoffset (pt_mutation_time t) = Some 0 \<and>
     db' = set_payment (pt_order_id t, pt_payment_sequential t) (payment_moved (pt_next_status t)
       (instant (event_time_of (pt_business_event_time t) (pt_mutation_time t))) (instant (pt_mutation_time t)) r) db"

lemma payment_state_after_row:
  "payment_state_after (payment_state_of k r) t = payment_state_of k (payment_moved (pt_next_status t)
     (instant (event_time_of (pt_business_event_time t) (pt_mutation_time t))) (instant (pt_mutation_time t)) r)"
  by (simp add: payment_state_after_def Let_def payment_state_of_def payment_moved_def)

lemma store_payment_state_iff:
  assumes "pk_ok (order_payments db)" "map_of (order_payments db) k = Some r"
  shows "store_payment_state (payment_state_of k (payment_moved s at now r)) db = (Inr (), db') \<longleftrightarrow>
     payment_row_ok (snd k) (payment_moved s at now r) \<and> db' = set_payment k (payment_moved s at now r) db"
proof -
  let ?s = "payment_state_of k (payment_moved s at now r)"
  let ?f = "\<lambda>r. r\<lparr>pa_payment_status := ps_payment_status ?s, pa_payment_completed_at := ps_payment_completed_at ?s,
        pa_payment_failed_at := ps_payment_failed_at ?s, pa_payment_refunded_at := ps_payment_refunded_at ?s,
        pa_updated_at := ps_updated_at ?s\<rparr>"
  have f: "?f r = payment_moved s at now r" by (simp add: payment_state_of_def payment_moved_def Let_def)
  have k: "(ps_order_id ?s, ps_payment_sequential ?s) = k" by simp
  have rows: "update_rows (\<lambda>k' _. k' = k) ?f (order_payments db) =
      update_rows (\<lambda>k' _. k' = k) (\<lambda>_. payment_moved s at now r) (order_payments db)"
    by (rule update_rows_at [OF assms]) (rule f)
  have "store_payment_state ?s db = (if payment_row_ok (snd k) (?f r)
      then (Inr (), db\<lparr>order_payments := update_rows (\<lambda>k' _. k' = k) ?f (order_payments db)\<rparr>)
      else (Inl (Exn check_violation ''order_payments''), db))"
    unfolding store_payment_state_def k update_payment_def by (simp add: bindM_def assertM_apply assms(2))
  then show ?thesis unfolding f rows by (auto simp: set_payment_def)
qed

lemma payment_stored_I:
  assumes "pk_ok (order_payments db)" "list_all (\<lambda>((_, i), r). payment_row_ok i r) (order_payments db)" "payment_stored t r db db'"
  shows "persist_payment_transition t db = (Inr \<lparr>tr_updated = 1, tr_skipped = 0\<rparr>, db')"
proof -
  note t = assms(3) [unfolded payment_stored_def]
  let ?k = "(pt_order_id t, pt_payment_sequential t)"
  let ?r' = "payment_moved (pt_next_status t) (instant (event_time_of (pt_business_event_time t) (pt_mutation_time t)))
      (instant (pt_mutation_time t)) r"
  have "payment_row_ok (snd ?k) r" using assms(2) t by (auto simp: list_all_iff dest: map_of_SomeD)
  then have "payment_row_ok (snd ?k) ?r'" using t by (intro payment_moved_ok) (auto simp: payment_allowed_iff)
  then have st: "store_payment_state (payment_state_of ?k ?r') db = (Inr (), db')"
    using store_payment_state_iff [OF assms(1)] t by blast
  have "ps_payment_status (payment_state_of ?k r) \<noteq> pt_next_status t" using t by (auto simp: payment_allowed_iff)
  moreover have "fetch_payment_state (pt_order_id t) (pt_payment_sequential t) db = (Inr (payment_state_of ?k r), db)"
    using t by (simp add: fetch_payment_ok)
  moreover have "assert_expected_payment_version (payment_state_of ?k r) t = Inr ()"
    "assert_allowed_transition PAYMENT_TRANSITIONS (ps_payment_status (payment_state_of ?k r)) (pt_next_status t) ''Payment'' = Inr ()"
    "assert_increasing_mutation_time (ps_updated_at (payment_state_of ?k r)) (pt_mutation_time t) = Inr ()"
    using t by (simp_all add: assert_expected_payment_version_def)
  ultimately show ?thesis using st by (simp add: persist_payment_transition_def payment_state_after_row)
qed

lemma persist_payment_transition_cases:
  assumes "persist_payment_transition t db = (Inr x, db')" "pk_ok (order_payments db)"
  obtains (skipped) r where "x = \<lparr>tr_updated = 0, tr_skipped = 1\<rparr>" "db' = db"
      "map_of (order_payments db) (pt_order_id t, pt_payment_sequential t) = Some r" "pa_payment_status r = pt_next_status t"
    | (stored) r where "x = \<lparr>tr_updated = 1, tr_skipped = 0\<rparr>" "payment_stored t r db db'"
proof -
  let ?k = "(pt_order_id t, pt_payment_sequential t)"
  from assms(1) obtain r where r: "map_of (order_payments db) ?k = Some r"
    by (auto simp: persist_payment_transition_def bindM_ok fetch_payment_ok)
  show thesis
  proof (cases "pa_payment_status r = pt_next_status t \<and> is_instant (pt_mutation_time t) (pa_updated_at r)")
    case True
    with assms(1) r have "x = \<lparr>tr_updated = 0, tr_skipped = 1\<rparr>" "db' = db"
      by (auto simp: persist_payment_transition_def bindM_ok fetch_payment_ok)
    with r True show thesis using skipped by blast
  next
    case False
    with assms(1) r have st: "assert_expected_payment_version (payment_state_of ?k r) t = Inr ()"
      "allowed PAYMENT_TRANSITIONS (pa_payment_status r) (pt_next_status t)" "utcoffset (pt_mutation_time t) = Some 0"
      "pa_updated_at r < instant (pt_mutation_time t)" "store_payment_state (payment_state_after (payment_state_of ?k r) t) db = (Inr (), db')"
      "x = \<lparr>tr_updated = 1, tr_skipped = 0\<rparr>"
      by (auto simp: persist_payment_transition_def bindM_ok fetch_payment_ok)
    have "payment_stored t r db db'"
      using st(1-5) r store_payment_state_iff [OF assms(2) r]
      by (simp add: payment_stored_def payment_state_after_row assert_expected_payment_version_def)
    with st(6) show thesis by (rule stored)
  qed
qed

section \<open>Planning\<close>

lemma plan_order_ok:
  "plan_order_transition (order_state_of k r) s m ev = Inr t \<longleftrightarrow>
     allowed ORDER_TRANSITIONS (or_order_status r) s \<and> utcoffset m = Some 0 \<and> or_updated_at r < instant m \<and>
     check_event_time ev m = Inr () \<and> (ev = None \<or> s \<in> {''approved'', ''shipped'', ''delivered''}) \<and>
     t = \<lparr>ot_order_id = k, ot_expected_status = or_order_status r, ot_expected_updated_at = or_updated_at r,
       ot_next_status = s, ot_mutation_time = m, ot_business_event_time = ev\<rparr>"
  by (auto simp: plan_order_transition_def)

lemma plan_payment_ok:
  "plan_payment_transition (payment_state_of k r) s m ev = Inr t \<longleftrightarrow>
     allowed PAYMENT_TRANSITIONS (pa_payment_status r) s \<and> utcoffset m = Some 0 \<and> pa_updated_at r < instant m \<and>
     check_event_time ev m = Inr () \<and> (ev = None \<or> s \<in> {''completed'', ''failed'', ''refunded''}) \<and>
     t = \<lparr>pt_order_id = fst k, pt_payment_sequential = snd k, pt_expected_status = pa_payment_status r,
       pt_expected_updated_at = pa_updated_at r, pt_next_status = s, pt_mutation_time = m, pt_business_event_time = ev\<rparr>"
  by (auto simp: plan_payment_transition_def)

lemma set_order_lookup [simp]:
  "map_of (orders (set_order k r db)) k' = (if k' = k \<and> map_of (orders db) k \<noteq> None then Some r else map_of (orders db) k')"
  by (cases "map_of (orders db) k'") (auto simp: set_order_def map_of_update_rows)

lemma set_payment_lookup [simp]:
  "map_of (order_payments (set_payment k r db)) k' =
     (if k' = k \<and> map_of (order_payments db) k \<noteq> None then Some r else map_of (order_payments db) k')"
  by (cases "map_of (order_payments db) k'") (auto simp: set_payment_def map_of_update_rows)

lemma set_order_frame [simp]: "order_payments (set_order k r db) = order_payments db" "pk_ok (orders (set_order k r db)) = pk_ok (orders db)"
  "customers (set_order k r db) = customers db" "order_items (set_order k r db) = order_items db"
  by (simp_all add: set_order_def)

lemma set_payment_frame [simp]: "orders (set_payment k r db) = orders db"
  "pk_ok (order_payments (set_payment k r db)) = pk_ok (order_payments db)"
  "customers (set_payment k r db) = customers db" "order_items (set_payment k r db) = order_items db"
  by (simp_all add: set_payment_def)

text \<open>Storing the same transition again is recognised and changes nothing.\<close>

lemma order_transition_repeats:
  assumes "order_stored t r db db'" "pk_ok (orders db)"
  shows "persist_order_transition t db' = (Inr \<lparr>tr_updated = 0, tr_skipped = 1\<rparr>, db')"
proof -
  note t = assms(1) [unfolded order_stored_def]
  let ?at = "event_time_of (ot_business_event_time t) (ot_mutation_time t)"
  let ?r' = "order_moved (ot_next_status t) (instant ?at) (instant (ot_mutation_time t)) r"
  have aware: "utcoffset ?at \<noteq> None" using t by (auto simp: event_time_of_def check_event_ok split: option.splits)
  have "map_of (orders db') (ot_order_id t) = Some ?r'" using t by simp
  then have f: "fetch_order_state (ot_order_id t) db' = (Inr (order_state_of (ot_order_id t) ?r'), db')" by (simp add: fetch_order_ok)
  have sel: "or_order_status ?r' = ot_next_status t" "or_updated_at ?r' = instant (ot_mutation_time t)"
    by (simp_all add: order_moved_def Let_def)
  have "order_event_matches (order_state_of (ot_order_id t) ?r') (ot_next_status t) ?at"
    using aware by (simp add: order_event_matches_def order_state_of_def order_moved_def Let_def is_instant_def)
  then have "is_idempotent_order_transition (order_state_of (ot_order_id t) ?r') t = Inr True"
    using t sel by (simp add: is_idempotent_order_transition_def is_instant_def)
  with f show ?thesis by (simp add: persist_order_transition_def)
qed

lemma payment_transition_repeats:
  assumes "payment_stored t r db db'" "\<And>b. pt_business_event_time t = Some b \<Longrightarrow> utcoffset b \<noteq> None"
  shows "persist_payment_transition t db' = (Inr \<lparr>tr_updated = 0, tr_skipped = 1\<rparr>, db')"
proof -
  note t = assms(1) [unfolded payment_stored_def]
  let ?k = "(pt_order_id t, pt_payment_sequential t)" and ?at = "event_time_of (pt_business_event_time t) (pt_mutation_time t)"
  let ?r' = "payment_moved (pt_next_status t) (instant ?at) (instant (pt_mutation_time t)) r"
  have aware: "utcoffset ?at \<noteq> None" using t assms(2) by (auto simp: event_time_of_def split: option.splits)
  have "map_of (order_payments db') ?k = Some ?r'" using t by simp
  then have f: "fetch_payment_state (pt_order_id t) (pt_payment_sequential t) db' = (Inr (payment_state_of ?k ?r'), db')"
    by (simp add: fetch_payment_ok)
  have sel: "pa_payment_status ?r' = pt_next_status t" "pa_updated_at ?r' = instant (pt_mutation_time t)"
    by (simp_all add: payment_moved_def Let_def)
  have "payment_event_at (payment_state_of ?k ?r') (pt_next_status t) = Inr (Some (instant ?at))"
    using t by (auto simp: payment_event_at_def payment_state_of_def payment_moved_def Let_def payment_allowed_iff)
  with f sel aware t show ?thesis by (simp add: persist_payment_transition_def is_instant_def)
qed

end
