(* ===== verification/OrderProgress.thy ===== *)
theory OrderProgress
  imports Orders ControlPlane
begin

text \<open>
  The advance of the orders made since the seed (src/generator/orders/order_progress.py and
  existing_orders.py): when each order is due for its next step, and the loop that moves every due
  order and its payments by one step under the source lease.
\<close>

section \<open>Due times\<close>

text \<open>\<open>timedelta / int\<close>: to the nearest microsecond, ties to the even one.\<close>

definition div_half_even :: "int \<Rightarrow> int \<Rightarrow> int" where
  "div_half_even a b = (let q = a div b; r = 2 * (a mod b) in
     if (if 0 < b then b < r else r < b) \<or> r = b \<and> q mod 2 = 1 then q + 1 else q)"

lemma div_half_even_nonneg: "0 \<le> a \<Longrightarrow> 0 < b \<Longrightarrow> 0 \<le> div_half_even a b"
  by (simp add: div_half_even_def Let_def pos_imp_zdiv_nonneg_iff)

lemma div_half_even_1 [simp]: "div_half_even a 1 = a"
  by (simp add: div_half_even_def)

abbreviation minutes :: "int \<Rightarrow> int" where "minutes n \<equiv> n * 60000000"
abbreviation hours :: "int \<Rightarrow> int" where "hours n \<equiv> n * 3600000000"
abbreviation days :: "int \<Rightarrow> int" where "days n \<equiv> n * 86400000000"

text \<open>The dict holds no time, so it always has a hash (\<open>hash_number_total\<close>).\<close>

definition known_number :: "nat result \<Rightarrow> nat" where
  "known_number r = (case r of Inl _ \<Rightarrow> 0 | Inr n \<Rightarrow> n)"

definition order_choice :: "hashing \<Rightarrow> int \<Rightarrow> string \<Rightarrow> string \<Rightarrow> int" where
  "order_choice h seed order_id stage = int (known_number (hash_number h
     (GDict [(''random_seed'', GInt seed), (''order_id'', GStr order_id), (''stage'', GStr stage)])))"

definition stage_delays :: "hashing \<Rightarrow> int \<Rightarrow> string \<Rightarrow> int \<times> int \<times> int" where
  "stage_delays h seed k =
     (minutes (10 + order_choice h seed k ''approved-at'' mod 21),
      hours (36 + order_choice h seed k ''shipped-at'' mod 25),
      days 5 + hours (order_choice h seed k ''delivered-at'' mod 97))"

definition planned_order_times ::
    "hashing \<Rightarrow> int \<Rightarrow> string \<Rightarrow> time \<Rightarrow> int \<Rightarrow> time option \<Rightarrow> time option \<Rightarrow> time \<times> time \<times> time" where
  "planned_order_times h seed k created_at scale approved_at shipped_at =
     (let (approval, shipping, delivery) = stage_delays h seed k;
          approved = created_at + div_half_even approval scale;
          shipped = (case approved_at of Some t \<Rightarrow> t | None \<Rightarrow> approved) + div_half_even shipping scale;
          delivered = (case shipped_at of Some t \<Rightarrow> t | None \<Rightarrow> shipped) + div_half_even delivery scale
      in (approved, shipped, delivered))"

record order_progress_plan =
  op_next_status :: string
  op_business_event_time :: "time option"
  op_payment_status :: "string option"
  op_payment_event_time :: "time option"

definition plan_order_progress ::
    "hashing \<Rightarrow> int \<Rightarrow> string \<Rightarrow> string \<Rightarrow> time \<Rightarrow> time \<Rightarrow> int \<Rightarrow> time option \<Rightarrow> time option \<Rightarrow> order_progress_plan option" where
  "plan_order_progress h seed k status created_at logical_date scale approved_at shipped_at =
     (let (approved, shipped, delivered) = planned_order_times h seed k created_at scale approved_at shipped_at in
      if status = ''created'' \<and> approved \<le> logical_date then
        (if order_choice h seed k ''created-cancel'' mod 1000 < 4
         then Some \<lparr>op_next_status = ''canceled'', op_business_event_time = None, op_payment_status = Some ''failed'',
           op_payment_event_time = Some approved\<rparr>
         else Some \<lparr>op_next_status = ''approved'', op_business_event_time = Some approved,
           op_payment_status = Some ''completed'', op_payment_event_time = Some approved\<rparr>)
      else if status = ''approved'' \<and> shipped \<le> logical_date then
        (if order_choice h seed k ''approved-cancel'' mod 1000 < 2
         then Some \<lparr>op_next_status = ''canceled'', op_business_event_time = None, op_payment_status = Some ''refunded'',
           op_payment_event_time = Some shipped\<rparr>
         else Some \<lparr>op_next_status = ''shipped'', op_business_event_time = Some shipped, op_payment_status = None,
           op_payment_event_time = None\<rparr>)
      else if status = ''shipped'' \<and> delivered \<le> logical_date then
        Some \<lparr>op_next_status = ''delivered'', op_business_event_time = Some delivered, op_payment_status = None,
          op_payment_event_time = None\<rparr>
      else None)"

section \<open>The world of a generator run\<close>

text \<open>
  The two databases, the counters and rows the run collects, and the surroundings: at every turn to
  the metadata database the next entry of the schedule says which transactions other processes
  have made and what the clock reads. The source database is only written by the holder of the
  source lease, so nothing else changes it during the run.
\<close>

record seed_run_row =
  sd_raw_checksum :: string
  sd_seeded_at :: time
  sd_status :: string
  sd_finished_at :: "time option"

record generator_run_row =
  gr_config :: generator_config
  gr_status :: string
  gr_finished_at :: "time option"
  gr_result_counts :: "(string \<times> int) list option"
  gr_logical_hash :: "string option"
  gr_error_message :: "string option"

record gen_world =
  gw_source :: source_db
  gw_pipeline :: pipeline_db
  gw_seed_runs :: "(uuid, seed_run_row) table"
  gw_generator_runs :: "(uuid, generator_run_row) table"
  gw_result_counts :: "(string \<times> int) list"
  gw_logical_rows :: "gen_value list"
  gw_clock :: datetime
  gw_schedule :: "(db_event list \<times> datetime) list"

definition on_source :: "(source_db, 'a) op \<Rightarrow> (gen_world, 'a) op" where
  "on_source m = (\<lambda>w. case m (gw_source w) of (r, db) \<Rightarrow> (r, w\<lparr>gw_source := db\<rparr>))"

definition turn :: "(gen_world, unit) op" where
  "turn = modifyM (\<lambda>w. case gw_schedule w of
      [] \<Rightarrow> w
    | (es, t) # later_turns \<Rightarrow> w\<lparr>gw_pipeline := fold step_of es (gw_pipeline w), gw_clock := t, gw_schedule := later_turns\<rparr>)"

definition on_pipeline :: "(datetime \<Rightarrow> (pipeline_db, 'a) op) \<Rightarrow> (gen_world, 'a) op" where
  "on_pipeline m = bindM turn (\<lambda>_ w. case m (gw_clock w) (gw_pipeline w) of (r, db) \<Rightarrow> (r, w\<lparr>gw_pipeline := db\<rparr>))"

definition add_count :: "string \<Rightarrow> nat \<Rightarrow> (gen_world, unit) op" where
  "add_count name n = modifyM (\<lambda>w. w\<lparr>gw_result_counts :=
     map (\<lambda>(k, v). (k, if k = name then v + int n else v)) (gw_result_counts w)\<rparr>)"

definition add_row :: "gen_value \<Rightarrow> (gen_world, unit) op" where
  "add_row r = modifyM (\<lambda>w. w\<lparr>gw_logical_rows := gw_logical_rows w @ [r]\<rparr>)"

definition time_value :: "time option \<Rightarrow> gen_value" where
  "time_value t = (case t of None \<Rightarrow> GNone | Some t \<Rightarrow> GTime (utc t))"

definition text_value :: "string option \<Rightarrow> gen_value" where
  "text_value s = (case s of None \<Rightarrow> GNone | Some s \<Rightarrow> GStr s)"

section \<open>Advancing the orders\<close>

definition progress_candidates :: "time \<Rightarrow> source_db \<Rightarrow> (string \<times> order_row) list" where
  "progress_candidates seeded_at db = sort_key fst
     (filter (\<lambda>(_, r). seeded_at < or_created_at r \<and> or_order_status r \<in> {''created'', ''approved'', ''shipped''}) (orders db))"

definition payment_sequences :: "string \<Rightarrow> source_db \<Rightarrow> int list" where
  "payment_sequences k db = sort (map (snd \<circ> fst) (filter (\<lambda>((k', _), _). k' = k) (order_payments db)))"

definition advance_payment :: "generator_config \<Rightarrow> string \<Rightarrow> string \<Rightarrow> time option \<Rightarrow> int \<Rightarrow> (gen_world, unit) op" where
  "advance_payment cfg k status at n =
     bindM (on_source (fetch_payment_state k n)) (\<lambda>payment.
     bindM (liftM (plan_payment_transition payment status (gc_logical_date cfg) (map_option utc at))) (\<lambda>t.
     bindM (on_source (persist_payment_transition t)) (\<lambda>r.
     add_count ''payments_updated'' (tr_updated r))))"

definition advance_payments :: "generator_config \<Rightarrow> string \<Rightarrow> string \<Rightarrow> time option \<Rightarrow> (gen_world, unit) op" where
  "advance_payments cfg k status at =
     bindM (getM (\<lambda>w. payment_sequences k (gw_source w))) (\<lambda>ns.
     bindM (assertM (ns \<noteq> []) ValueError (''Generator order has no payment: '' @ k)) (\<lambda>_.
     iterM (advance_payment cfg k status at) ns))"

definition advance_order :: "hashing \<Rightarrow> generator_config \<Rightarrow> source_mutation_lease \<Rightarrow> string \<times> order_row \<Rightarrow> (gen_world, unit) op" where
  "advance_order h cfg lease = (\<lambda>(k, row).
     case plan_order_progress h (gc_random_seed cfg) k (or_order_status row) (or_created_at row)
            (instant (gc_logical_date cfg)) (gc_progress_time_scale cfg) (or_order_approved_at row)
            (or_order_delivered_carrier_date row) of
       None \<Rightarrow> returnM ()
     | Some plan \<Rightarrow>
         bindM (on_source (fetch_order_state k)) (\<lambda>current.
         bindM (liftM (plan_order_transition current (op_next_status plan) (gc_logical_date cfg)
                  (map_option utc (op_business_event_time plan)))) (\<lambda>t.
         bindM (on_pipeline (assert_source_mutation_lease lease)) (\<lambda>_.
         bindM (on_source (persist_order_transition t)) (\<lambda>r.
         bindM (add_count ''orders_updated'' (tr_updated r)) (\<lambda>_.
         bindM (case op_payment_status plan of None \<Rightarrow> returnM ()
                | Some s \<Rightarrow> advance_payments cfg k s (op_payment_event_time plan)) (\<lambda>_.
         add_row (GDict [(''order_id'', GStr k), (''order_status'', GStr (op_next_status plan)),
           (''business_event_time'', time_value (op_business_event_time plan)),
           (''payment_status'', text_value (op_payment_status plan)),
           (''payment_event_time'', time_value (op_payment_event_time plan))]))))))))"

text \<open>\<open>ORDER BY finished_at DESC LIMIT 1\<close>; a successful seed has finished.\<close>

definition latest_seed :: "gen_world \<Rightarrow> seed_run_row option" where
  "latest_seed w = (case sort_key (\<lambda>r. case sd_finished_at r of Some t \<Rightarrow> - t | None \<Rightarrow> 0)
       (filter (\<lambda>r. sd_status r = ''SUCCESS'') (map snd (gw_seed_runs w))) of [] \<Rightarrow> None | r # _ \<Rightarrow> Some r)"

definition run_existing_order_transitions ::
    "hashing \<Rightarrow> generator_config \<Rightarrow> source_mutation_lease \<Rightarrow> (gen_world, unit) op" where
  "run_existing_order_transitions h cfg lease =
     bindM (getM latest_seed) (\<lambda>seed. case seed of
      None \<Rightarrow> raiseM ValueError ''A successful seed run is required before advancing generator orders''
    | Some s \<Rightarrow>
        bindM (getM (\<lambda>w. progress_candidates (sd_seeded_at s) (gw_source w))) (\<lambda>cs.
        iterM (advance_order h cfg lease) cs))"

lemma on_source_ok: "on_source m w = (Inr x, w') \<longleftrightarrow> (\<exists>db. m (gw_source w) = (Inr x, db) \<and> w' = w\<lparr>gw_source := db\<rparr>)"
  by (auto simp: on_source_def split: prod.splits)

section \<open>Orders and payments agree\<close>

text \<open>
  Every order made since the seed has payments, and they are where its status says: pending until
  the approval, completed from then on, failed or refunded once it is canceled. Its event times
  are in order.
\<close>

definition payment_matches :: "string \<Rightarrow> string \<Rightarrow> bool" where
  "payment_matches s p \<longleftrightarrow>
     (s = ''created'' \<longrightarrow> p = ''pending'') \<and> (s \<in> {''approved'', ''shipped'', ''delivered''} \<longrightarrow> p = ''completed'') \<and>
     (s = ''canceled'' \<longrightarrow> p \<in> {''failed'', ''refunded''})"

definition reached :: "string list \<Rightarrow> string \<Rightarrow> time option \<Rightarrow> bool" where
  "reached ss s t \<longleftrightarrow> (s \<in> set ss \<longrightarrow> t \<noteq> None) \<and> (s \<in> {''created'', ''approved'', ''shipped''} - set ss \<longrightarrow> t = None)"

definition not_before :: "time \<Rightarrow> time option \<Rightarrow> bool" where
  "not_before a t = (case t of None \<Rightarrow> True | Some b \<Rightarrow> a \<le> b)"

definition not_after :: "time option \<Rightarrow> time \<Rightarrow> bool" where
  "not_after t b = (case t of None \<Rightarrow> True | Some a \<Rightarrow> a \<le> b)"

definition in_order :: "time option \<Rightarrow> time option \<Rightarrow> bool" where
  "in_order s t = (case (s, t) of (Some a, Some b) \<Rightarrow> a \<le> b | _ \<Rightarrow> True)"

definition timeline_ok :: "order_row \<Rightarrow> bool" where
  "timeline_ok r \<longleftrightarrow>
     reached [''approved'', ''shipped'', ''delivered''] (or_order_status r) (or_order_approved_at r) \<and>
     reached [''shipped'', ''delivered''] (or_order_status r) (or_order_delivered_carrier_date r) \<and>
     reached [''delivered''] (or_order_status r) (or_order_delivered_customer_date r) \<and>
     not_before (or_created_at r) (or_order_approved_at r) \<and>
     in_order (or_order_approved_at r) (or_order_delivered_carrier_date r) \<and>
     in_order (or_order_delivered_carrier_date r) (or_order_delivered_customer_date r) \<and>
     not_after (or_order_approved_at r) (or_updated_at r) \<and> not_after (or_order_delivered_carrier_date r) (or_updated_at r) \<and>
     not_after (or_order_delivered_customer_date r) (or_updated_at r)"

definition order_agrees :: "source_db \<Rightarrow> string \<Rightarrow> order_row \<Rightarrow> bool" where
  "order_agrees db k r \<longleftrightarrow> timeline_ok r \<and> (\<exists>n. map_of (order_payments db) (k, n) \<noteq> None) \<and>
     (\<forall>n p. map_of (order_payments db) (k, n) = Some p \<longrightarrow> payment_matches (or_order_status r) (pa_payment_status p))"

definition orders_agree :: "time \<Rightarrow> source_db \<Rightarrow> bool" where
  "orders_agree seeded_at db \<longleftrightarrow>
     (\<forall>k r. map_of (orders db) k = Some r \<and> seeded_at < or_created_at r \<longrightarrow> order_agrees db k r)"

definition order_tables_ok :: "source_db \<Rightarrow> bool" where
  "order_tables_ok db \<longleftrightarrow> pk_ok (orders db) \<and> pk_ok (order_payments db) \<and>
     list_all (\<lambda>(_, r). order_row_ok r) (orders db) \<and> list_all (\<lambda>((_, i), r). payment_row_ok i r) (order_payments db)"

section \<open>The plan is always allowed\<close>

lemma order_choice_nonneg: "0 \<le> order_choice h seed k s mod n" if "0 < n" for n :: int
  using that by simp

lemma planned_times:
  assumes "planned_order_times h seed k c scale a s = (ta, ts, td)" "1 \<le> scale"
  shows "c \<le> ta" "(case a of Some t \<Rightarrow> t | None \<Rightarrow> ta) \<le> ts" "(case s of Some t \<Rightarrow> t | None \<Rightarrow> ts) \<le> td"
proof -
  have d: "0 \<le> fst (stage_delays h seed k)" "0 \<le> fst (snd (stage_delays h seed k))" "0 \<le> snd (snd (stage_delays h seed k))"
    by (simp_all add: stage_delays_def order_choice_nonneg)
  note q = d [THEN div_half_even_nonneg, of scale]
  show "c \<le> ta" "(case a of Some t \<Rightarrow> t | None \<Rightarrow> ta) \<le> ts" "(case s of Some t \<Rightarrow> t | None \<Rightarrow> ts) \<le> td"
    using assms q by (auto simp: planned_order_times_def Let_def split: prod.splits option.splits)
qed

definition plan_at :: "hashing \<Rightarrow> generator_config \<Rightarrow> string \<Rightarrow> order_row \<Rightarrow> order_progress_plan option" where
  "plan_at h cfg k r = plan_order_progress h (gc_random_seed cfg) k (or_order_status r) (or_created_at r)
     (instant (gc_logical_date cfg)) (gc_progress_time_scale cfg) (or_order_approved_at r) (or_order_delivered_carrier_date r)"

definition progressed_row :: "generator_config \<Rightarrow> order_progress_plan \<Rightarrow> order_row \<Rightarrow> order_row" where
  "progressed_row cfg p r = order_moved (op_next_status p)
     (instant (event_time_of (map_option utc (op_business_event_time p)) (gc_logical_date cfg))) (instant (gc_logical_date cfg)) r"

lemma plan_cases:
  assumes "plan_at h cfg k r = Some p"
  obtains (approve) t where "or_order_status r = ''created''" "op_next_status p \<in> {''approved'', ''canceled''}" "t \<le> instant (gc_logical_date cfg)"
      "op_business_event_time p = (if op_next_status p = ''approved'' then Some t else None)" "op_payment_event_time p = Some t"
      "op_payment_status p = Some (if op_next_status p = ''approved'' then ''completed'' else ''failed'')"
      "1 \<le> gc_progress_time_scale cfg \<Longrightarrow> or_created_at r \<le> t"
    | (ship) t where "or_order_status r = ''approved''" "op_next_status p \<in> {''shipped'', ''canceled''}" "t \<le> instant (gc_logical_date cfg)"
      "op_business_event_time p = (if op_next_status p = ''shipped'' then Some t else None)"
      "op_payment_status p = (if op_next_status p = ''shipped'' then None else Some ''refunded'')"
      "op_payment_event_time p = (if op_next_status p = ''shipped'' then None else Some t)"
      "1 \<le> gc_progress_time_scale cfg \<Longrightarrow> in_order (or_order_approved_at r) (Some t)"
    | (deliver) t where "or_order_status r = ''shipped''" "op_next_status p = ''delivered''" "t \<le> instant (gc_logical_date cfg)"
      "op_business_event_time p = Some t" "op_payment_status p = None"
      "1 \<le> gc_progress_time_scale cfg \<Longrightarrow> in_order (or_order_delivered_carrier_date r) (Some t)"
proof -
  obtain ta ts td where t: "planned_order_times h (gc_random_seed cfg) k (or_created_at r) (gc_progress_time_scale cfg)
      (or_order_approved_at r) (or_order_delivered_carrier_date r) = (ta, ts, td)" by (metis prod_cases3)
  note le = planned_times [OF t]
  consider (1) "or_order_status r = ''created''" "ta \<le> instant (gc_logical_date cfg)"
    | (2) "or_order_status r = ''approved''" "ts \<le> instant (gc_logical_date cfg)"
    | (3) "or_order_status r = ''shipped''" "td \<le> instant (gc_logical_date cfg)"
    using assms t by (auto simp: plan_at_def plan_order_progress_def split: if_splits)
  then show thesis
  proof cases
    case 1
    with assms t le(1) show thesis by (intro approve [of ta]) (auto simp: plan_at_def plan_order_progress_def split: if_splits)
  next
    case 2
    with assms t le(2) show thesis
      by (intro ship [of ts]) (auto simp: plan_at_def plan_order_progress_def in_order_def split: if_splits option.splits)
  next
    case 3
    with assms t le(3) show thesis
      by (intro deliver [of td]) (auto simp: plan_at_def plan_order_progress_def in_order_def split: if_splits option.splits)
  qed
qed

lemma plan_sound:
  assumes "plan_at h cfg k r = Some p" "utcoffset (gc_logical_date cfg) = Some 0"
  shows "allowed ORDER_TRANSITIONS (or_order_status r) (op_next_status p)"
    "check_event_time (map_option utc (op_business_event_time p)) (gc_logical_date cfg) = Inr ()"
    "op_business_event_time p = None \<or> op_next_status p \<in> {''approved'', ''shipped'', ''delivered''}"
    "check_event_time (map_option utc (op_payment_event_time p)) (gc_logical_date cfg) = Inr () \<or> op_payment_status p = None"
    "\<And>s ps. op_payment_status p = Some s \<Longrightarrow> payment_matches (or_order_status r) ps \<Longrightarrow>
       allowed PAYMENT_TRANSITIONS ps s \<and> payment_matches (op_next_status p) s"
    "\<And>ps. op_payment_status p = None \<Longrightarrow> payment_matches (or_order_status r) ps \<Longrightarrow> payment_matches (op_next_status p) ps"
  using assms(1)
  by (cases rule: plan_cases; use assms(2) in \<open>auto simp: order_allowed_iff payment_allowed_iff check_event_ok utc_def
        payment_matches_def split: option.splits\<close>)+

lemma advanced_timeline:
  assumes "plan_at h cfg k r = Some p" "1 \<le> gc_progress_time_scale cfg" "timeline_ok r" "or_updated_at r < instant (gc_logical_date cfg)"
  shows "timeline_ok (progressed_row cfg p r)"
  using assms(1)
proof (cases rule: plan_cases)
  case (approve t)
  with assms(2-4) show ?thesis
    by (auto simp: timeline_ok_def progressed_row_def order_moved_def reached_def not_before_def not_after_def in_order_def
        event_time_of_def utc_def split: option.splits)
next
  case (ship t)
  with assms(2-4) show ?thesis
    by (auto simp: timeline_ok_def progressed_row_def order_moved_def reached_def not_before_def not_after_def in_order_def
        event_time_of_def utc_def split: option.splits)
next
  case (deliver t)
  with assms(2-4) show ?thesis
    by (auto simp: timeline_ok_def progressed_row_def order_moved_def reached_def not_before_def not_after_def in_order_def
        event_time_of_def utc_def split: option.splits)
qed

section \<open>One step of an order\<close>

lemma on_source_apply: "m (gw_source w) = (r, db) \<Longrightarrow> on_source m w = (r, w\<lparr>gw_source := db\<rparr>)"
  by (simp add: on_source_def)

text \<open>The lease stays good: at every turn of the schedule the assertion passes.\<close>

fun lease_held :: "source_mutation_lease \<Rightarrow> pipeline_db \<Rightarrow> datetime \<Rightarrow> (db_event list \<times> datetime) list \<Rightarrow> bool" where
  "lease_held l db t [] = is_ok (assert_source_mutation_lease l t db)"
| "lease_held l db t ((es, t') # s) =
     (is_ok (assert_source_mutation_lease l t' (fold step_of es db)) \<and> lease_held l (fold step_of es db) t' s)"

definition holds_lease :: "source_mutation_lease \<Rightarrow> gen_world \<Rightarrow> bool" where
  "holds_lease l w \<longleftrightarrow> lease_held l (gw_pipeline w) (gw_clock w) (gw_schedule w)"

lemma assert_lease_turn:
  assumes "holds_lease l w"
  shows "\<exists>w'. on_pipeline (assert_source_mutation_lease l) w = (Inr (), w') \<and> holds_lease l w' \<and> gw_source w' = gw_source w"
proof (cases "gw_schedule w")
  case Nil
  with assms have "is_ok (assert_source_mutation_lease l (gw_clock w) (gw_pipeline w))" by (simp add: holds_lease_def)
  then obtain db where "assert_source_mutation_lease l (gw_clock w) (gw_pipeline w) = (Inr (), db)"
    by (cases "assert_source_mutation_lease l (gw_clock w) (gw_pipeline w)") (auto simp: is_ok_def split: sum.splits)
  moreover from this have "db = gw_pipeline w" by (simp add: assert_source_mutation_lease_ok)
  ultimately show ?thesis using assms Nil by (simp add: on_pipeline_def turn_def bindM_def)
next
  case (Cons x s)
  obtain es t where x: "x = (es, t)" by (cases x)
  let ?db = "fold step_of es (gw_pipeline w)"
  from assms Cons x have h: "is_ok (assert_source_mutation_lease l t ?db)" "lease_held l ?db t s" by (simp_all add: holds_lease_def)
  then obtain db where a: "assert_source_mutation_lease l t ?db = (Inr (), db)"
    by (cases "assert_source_mutation_lease l t ?db") (auto simp: is_ok_def split: sum.splits)
  moreover from this have "db = ?db" by (simp add: assert_source_mutation_lease_ok)
  ultimately show ?thesis using Cons x h by (simp add: on_pipeline_def turn_def bindM_def holds_lease_def)
qed

lemma holds_lease_frame [simp]:
  "holds_lease l (w\<lparr>gw_source := db\<rparr>) = holds_lease l w" "holds_lease l (w\<lparr>gw_result_counts := c\<rparr>) = holds_lease l w"
  "holds_lease l (w\<lparr>gw_logical_rows := rs\<rparr>) = holds_lease l w"
  by (simp_all add: holds_lease_def)

definition advanced_payment :: "generator_config \<Rightarrow> string \<Rightarrow> time \<Rightarrow> payment_row \<Rightarrow> payment_row" where
  "advanced_payment cfg s t p = payment_moved s t (instant (gc_logical_date cfg)) p"

lemma payment_moved_status [simp]: "pa_payment_status (payment_moved s at now p) = s"
  by (simp add: payment_moved_def Let_def)

lemma list_all_at: "list_all (\<lambda>(k, r). Q k r) t \<Longrightarrow> Q k r \<Longrightarrow> list_all (\<lambda>(k, r). Q k r) (update_rows (\<lambda>k' _. k' = k) (\<lambda>_. r) t)"
  by (auto simp: update_rows_def list_all_iff)

lemma order_tables_set_payment:
  "order_tables_ok db \<Longrightarrow> payment_row_ok (snd k) p \<Longrightarrow> order_tables_ok (set_payment k p db)"
  unfolding order_tables_ok_def by (cases k) (auto simp: set_payment_def intro!: list_all_at)

lemma order_tables_set_order: "order_tables_ok db \<Longrightarrow> order_row_ok r \<Longrightarrow> order_tables_ok (set_order k r db)"
  unfolding order_tables_ok_def by (auto simp: set_order_def intro!: list_all_at)

lemma advance_payment_step:
  assumes "order_tables_ok (gw_source w)" "map_of (order_payments (gw_source w)) (k, n) = Some p"
    and "allowed PAYMENT_TRANSITIONS (pa_payment_status p) s" "pa_updated_at p < instant (gc_logical_date cfg)"
    and "utcoffset (gc_logical_date cfg) = Some 0" "check_event_time (Some (utc t)) (gc_logical_date cfg) = Inr ()"
  shows "\<exists>w'. advance_payment cfg k s (Some t) n w = (Inr (), w') \<and>
     gw_source w' = set_payment (k, n) (advanced_payment cfg s t p) (gw_source w) \<and> order_tables_ok (gw_source w') \<and>
     (\<forall>l. holds_lease l w \<longrightarrow> holds_lease l w')"
proof -
  let ?db = "gw_source w"
  let ?t = "\<lparr>pt_order_id = k, pt_payment_sequential = n, pt_expected_status = pa_payment_status p, pt_expected_updated_at = pa_updated_at p,
       pt_next_status = s, pt_mutation_time = gc_logical_date cfg, pt_business_event_time = Some (utc t)\<rparr>"
  let ?db' = "set_payment (k, n) (advanced_payment cfg s t p) ?db"
  have s: "s \<in> {''completed'', ''failed'', ''refunded''}" using assms(3) by (auto simp: payment_allowed_iff)
  have "payment_stored ?t p ?db ?db'"
    using assms(2-5) by (simp add: payment_stored_def event_time_of_def advanced_payment_def utc_def)
  then have st: "persist_payment_transition ?t ?db = (Inr \<lparr>tr_updated = 1, tr_skipped = 0\<rparr>, ?db')"
    using assms(1) by (intro payment_stored_I) (auto simp: order_tables_ok_def)
  have plan: "plan_payment_transition (payment_state_of (k, n) p) s (gc_logical_date cfg) (map_option utc (Some t)) = Inr ?t"
    using assms(3-6) s by (simp add: plan_payment_ok)
  have fetch: "on_source (fetch_payment_state k n) w = (Inr (payment_state_of (k, n) p), w)"
    using assms(2) by (simp add: on_source_ok fetch_payment_ok)
  have "payment_row_ok n p" using assms(1,2) by (auto simp: order_tables_ok_def list_all_iff dest!: map_of_SomeD)
  then have "payment_row_ok n (advanced_payment cfg s t p)"
    unfolding advanced_payment_def by (intro payment_moved_ok) (use assms(4) s in auto)
  then have tables: "order_tables_ok ?db'" using assms(1) by (intro order_tables_set_payment) simp_all
  from st fetch plan tables show ?thesis
    by (simp add: advance_payment_def bindM_def on_source_def add_count_def)
qed

lemma advance_payments_loop:
  assumes "order_tables_ok (gw_source w)" "distinct ns"
    and "\<And>n. n \<in> set ns \<Longrightarrow> \<exists>p. map_of (order_payments (gw_source w)) (k, n) = Some p \<and>
        allowed PAYMENT_TRANSITIONS (pa_payment_status p) s \<and> pa_updated_at p < instant (gc_logical_date cfg)"
    and "utcoffset (gc_logical_date cfg) = Some 0" "check_event_time (Some (utc t)) (gc_logical_date cfg) = Inr ()"
  shows "\<exists>w'. iterM (advance_payment cfg k s (Some t)) ns w = (Inr (), w') \<and> order_tables_ok (gw_source w') \<and>
     orders (gw_source w') = orders (gw_source w) \<and> (\<forall>l. holds_lease l w \<longrightarrow> holds_lease l w') \<and>
     (\<forall>k' n. map_of (order_payments (gw_source w')) (k', n) = (if k' = k \<and> n \<in> set ns
        then map_option (advanced_payment cfg s t) (map_of (order_payments (gw_source w)) (k', n))
        else map_of (order_payments (gw_source w)) (k', n)))"
  using assms(1-3)
proof (induction ns arbitrary: w)
  case Nil
  then show ?case by auto
next
  case (Cons n ns)
  obtain p where p: "map_of (order_payments (gw_source w)) (k, n) = Some p" "allowed PAYMENT_TRANSITIONS (pa_payment_status p) s"
      "pa_updated_at p < instant (gc_logical_date cfg)" using Cons.prems(3) by auto
  from advance_payment_step [OF Cons.prems(1) p assms(4,5)] obtain w1 where
    w1: "advance_payment cfg k s (Some t) n w = (Inr (), w1)" "gw_source w1 = set_payment (k, n) (advanced_payment cfg s t p) (gw_source w)"
      "order_tables_ok (gw_source w1)" "\<forall>l. holds_lease l w \<longrightarrow> holds_lease l w1" by blast
  have look: "map_of (order_payments (gw_source w1)) (k', n') = (if k' = k \<and> n' = n then Some (advanced_payment cfg s t p)
      else map_of (order_payments (gw_source w)) (k', n'))" for k' n'
    using w1(2) p(1) by auto
  have "\<exists>p. map_of (order_payments (gw_source w1)) (k, n') = Some p \<and> allowed PAYMENT_TRANSITIONS (pa_payment_status p) s \<and>
      pa_updated_at p < instant (gc_logical_date cfg)" if "n' \<in> set ns" for n'
    using that Cons.prems(2,3) look by auto
  from Cons.IH [OF w1(3) _ this] Cons.prems(2) obtain w2 where
    w2: "iterM (advance_payment cfg k s (Some t)) ns w1 = (Inr (), w2)" "order_tables_ok (gw_source w2)"
      "orders (gw_source w2) = orders (gw_source w1)" "\<forall>l. holds_lease l w1 \<longrightarrow> holds_lease l w2"
      "\<forall>k' n. map_of (order_payments (gw_source w2)) (k', n) = (if k' = k \<and> n \<in> set ns
        then map_option (advanced_payment cfg s t) (map_of (order_payments (gw_source w1)) (k', n))
        else map_of (order_payments (gw_source w1)) (k', n))" by auto
  have "map_of (order_payments (gw_source w2)) (k', n') = (if k' = k \<and> n' \<in> set (n # ns)
        then map_option (advanced_payment cfg s t) (map_of (order_payments (gw_source w)) (k', n'))
        else map_of (order_payments (gw_source w)) (k', n'))" for k' n'
    using w2(5) look p(1) Cons.prems(2) by auto
  moreover have "iterM (advance_payment cfg k s (Some t)) (n # ns) w = (Inr (), w2)" using w1(1) w2(1) by simp
  moreover have "orders (gw_source w2) = orders (gw_source w)" using w2(3) w1(2) by simp
  ultimately show ?case using w1(4) w2(2,4) by blast
qed

lemma set_payment_sequences: "set (payment_sequences k db) = {n. map_of (order_payments db) (k, n) \<noteq> None}"
  by (force simp: payment_sequences_def map_of_eq_None_iff image_iff)

lemma distinct_payment_sequences: "pk_ok (order_payments db) \<Longrightarrow> distinct (payment_sequences k db)"
proof -
  assume pk: "pk_ok (order_payments db)"
  have "inj_on (snd \<circ> fst) (set (filter (\<lambda>((k', _), _). k' = k) (order_payments db)))"
  proof (rule inj_onI)
    fix x y assume a: "x \<in> set (filter (\<lambda>((k', _), _). k' = k) (order_payments db))" "y \<in> set (filter (\<lambda>((k', _), _). k' = k) (order_payments db))"
      "(snd \<circ> fst) x = (snd \<circ> fst) y"
    then have "fst x = fst y" "x \<in> set (order_payments db)" "y \<in> set (order_payments db)" by (auto split: prod.splits)
    with pk show "x = y" by (metis eq_key_imp_eq_value pk_ok_def prod.collapse)
  qed
  moreover have "distinct (filter (\<lambda>((k', _), _). k' = k) (order_payments db))" using pk by (simp add: pk_ok_def distinct_map)
  ultimately show ?thesis by (simp add: payment_sequences_def distinct_map)
qed

lemma plan_payment_times: "plan_at h cfg k r = Some p \<Longrightarrow> op_payment_status p = Some s \<Longrightarrow> \<exists>t. op_payment_event_time p = Some t"
  by (erule plan_cases) (auto split: if_splits)

text \<open>What one step of an order changes: its own row, and its own payments when the plan says so.\<close>

definition advanced :: "generator_config \<Rightarrow> string \<Rightarrow> order_progress_plan option \<Rightarrow> source_db \<Rightarrow> source_db \<Rightarrow> bool" where
  "advanced cfg k plan db db' \<longleftrightarrow>
     (\<forall>k'. map_of (orders db') k' = (case plan of
        Some p \<Rightarrow> if k' = k then map_option (progressed_row cfg p) (map_of (orders db) k') else map_of (orders db) k'
      | None \<Rightarrow> map_of (orders db) k')) \<and>
     (\<forall>k' n. map_of (order_payments db') (k', n) = (case plan of
        Some p \<Rightarrow> (case (op_payment_status p, op_payment_event_time p) of
            (Some s, Some t) \<Rightarrow> if k' = k then map_option (advanced_payment cfg s t) (map_of (order_payments db) (k', n))
              else map_of (order_payments db) (k', n)
          | _ \<Rightarrow> map_of (order_payments db) (k', n))
      | None \<Rightarrow> map_of (order_payments db) (k', n)))"

lemma advance_order_step:
  assumes "order_tables_ok (gw_source w)" "map_of (orders (gw_source w)) k = Some r" "order_agrees (gw_source w) k r"
    and "or_updated_at r < instant (gc_logical_date cfg)"
    and "\<And>n p. map_of (order_payments (gw_source w)) (k, n) = Some p \<Longrightarrow> pa_updated_at p < instant (gc_logical_date cfg)"
    and "utcoffset (gc_logical_date cfg) = Some 0"
  shows "\<not> holds_lease l w \<and> (\<exists>e w'. advance_order h cfg l (k, r) w = (Inl e, w')) \<or>
     (\<exists>w'. advance_order h cfg l (k, r) w = (Inr (), w') \<and> advanced cfg k (plan_at h cfg k r) (gw_source w) (gw_source w') \<and>
       order_tables_ok (gw_source w') \<and> (holds_lease l w \<longrightarrow> holds_lease l w'))"
proof (cases "plan_at h cfg k r")
  case None
  with assms(1) show ?thesis by (auto simp: advance_order_def advanced_def simp flip: plan_at_def)
next
  case (Some p)
  let ?L = "gc_logical_date cfg" and ?db = "gw_source w"
  note sound = plan_sound [OF Some assms(6)]
  let ?t = "\<lparr>ot_order_id = k, ot_expected_status = or_order_status r, ot_expected_updated_at = or_updated_at r,
      ot_next_status = op_next_status p, ot_mutation_time = ?L, ot_business_event_time = map_option utc (op_business_event_time p)\<rparr>"
  let ?db1 = "set_order k (progressed_row cfg p r) ?db"
  have fetch: "on_source (fetch_order_state k) w = (Inr (order_state_of k r), w)" using assms(2) by (simp add: on_source_ok fetch_order_ok)
  have plan: "plan_order_transition (order_state_of k r) (op_next_status p) ?L (map_option utc (op_business_event_time p)) = Inr ?t"
    using sound(1-3) assms(4,6) by (auto simp: plan_order_ok)
  define row where "row = GDict [(''order_id'', GStr k), (''order_status'', GStr (op_next_status p)),
           (''business_event_time'', time_value (op_business_event_time p)),
           (''payment_status'', text_value (op_payment_status p)),
           (''payment_event_time'', time_value (op_payment_event_time p))]"
  obtain y w1 where y: "on_pipeline (assert_source_mutation_lease l) w = (y, w1)"
    by (cases "on_pipeline (assert_source_mutation_lease l) w")
  have src1: "gw_source w1 = ?db" using y
    by (auto simp: on_pipeline_def bindM_def turn_def split: prod.splits list.splits)
  show ?thesis
  proof (cases y)
  case (Inl e)
  then have "\<not> holds_lease l w" using assert_lease_turn [of l w] y by auto
  moreover have "advance_order h cfg l (k, r) w = (Inl e, w1)"
    unfolding advance_order_def prod.case plan_at_def [symmetric] Some option.case(2) row_def [symmetric]
    using fetch plan y Inl by simp
  ultimately show ?thesis by blast
  next
  case (Inr u)
  then have w1: "on_pipeline (assert_source_mutation_lease l) w = (Inr (), w1)" "holds_lease l w \<longrightarrow> holds_lease l w1" "gw_source w1 = ?db"
    using y src1 assert_lease_turn [of l w] by auto
  have "order_stored ?t r ?db ?db1"
    using sound(1,2) assms(2,4,6) by (simp add: order_stored_def progressed_row_def)
  then have st: "persist_order_transition ?t ?db = (Inr \<lparr>tr_updated = 1, tr_skipped = 0\<rparr>, ?db1)"
    using assms(1) by (intro order_stored_I) (auto simp: order_tables_ok_def)
  have "order_row_ok r" using assms(1,2) by (auto simp: order_tables_ok_def list_all_iff dest!: map_of_SomeD)
  then have tables1: "order_tables_ok ?db1" using assms(1,4) sound(1) unfolding progressed_row_def
    by (intro order_tables_set_order order_moved_ok) (auto simp: order_allowed_iff ORDER_STATUSES_def)
  define w2 where "w2 = (snd (add_count ''orders_updated'' 1 (w1\<lparr>gw_source := ?db1\<rparr>)))"
  have w2: "gw_source w2 = ?db1" "holds_lease l w \<longrightarrow> holds_lease l w2" using w1(2) by (simp_all add: w2_def add_count_def)
  let ?pay = "case op_payment_status p of None \<Rightarrow> returnM () | Some s \<Rightarrow> advance_payments cfg k s (op_payment_event_time p)"
  have "\<exists>w3. ?pay w2 = (Inr (), w3) \<and> advanced cfg k (Some p) ?db (gw_source w3) \<and> order_tables_ok (gw_source w3) \<and>
      (holds_lease l w \<longrightarrow> holds_lease l w3)"
  proof (cases "op_payment_status p")
    case None
    then have "advanced cfg k (Some p) ?db ?db1" using assms(2) by (auto simp: advanced_def)
    with None w2 tables1 show ?thesis by simp
  next
    case (Some s)
    obtain t where t: "op_payment_event_time p = Some t" using plan_payment_times [OF \<open>plan_at h cfg k r = Some p\<close> Some] by blast
    let ?ns = "payment_sequences k ?db1"
    have ns: "set ?ns = {n. map_of (order_payments ?db) (k, n) \<noteq> None}" by (simp add: set_payment_sequences)
    have ne: "?ns \<noteq> []" using assms(3) ns by (auto simp: order_agrees_def)
    have dist: "distinct ?ns" using assms(1) by (intro distinct_payment_sequences) (simp add: order_tables_ok_def)
    have each: "\<exists>p. map_of (order_payments (gw_source w2)) (k, n) = Some p \<and> allowed PAYMENT_TRANSITIONS (pa_payment_status p) s \<and>
        pa_updated_at p < instant ?L" if "n \<in> set ?ns" for n
    proof -
      from that ns obtain q where q: "map_of (order_payments ?db) (k, n) = Some q" by auto
      then have "payment_matches (or_order_status r) (pa_payment_status q)" using assms(3) by (auto simp: order_agrees_def)
      with q sound(5) Some assms(5) w2(1) show ?thesis by auto
    qed
    have ct: "check_event_time (Some (utc t)) ?L = Inr ()" using sound(4) Some t by simp
    from advance_payments_loop [OF _ dist each assms(6) ct] tables1 w2(1) obtain w3 where
      w3: "iterM (advance_payment cfg k s (Some t)) ?ns w2 = (Inr (), w3)" "order_tables_ok (gw_source w3)"
        "orders (gw_source w3) = orders ?db1" "\<forall>l. holds_lease l w2 \<longrightarrow> holds_lease l w3"
        "\<forall>k' n. map_of (order_payments (gw_source w3)) (k', n) = (if k' = k \<and> n \<in> set ?ns
          then map_option (advanced_payment cfg s t) (map_of (order_payments ?db) (k', n))
          else map_of (order_payments ?db) (k', n))" by auto
    have "map_of (order_payments (gw_source w3)) (k', n) = (if k' = k
          then map_option (advanced_payment cfg s t) (map_of (order_payments ?db) (k', n))
          else map_of (order_payments ?db) (k', n))" for k' n
      using w3(5) ns by auto
    then have "advanced cfg k (Some p) ?db (gw_source w3)" using Some t w3(3) assms(2) by (auto simp: advanced_def)
    moreover have "?pay w2 = (Inr (), w3)" using Some t w3(1) ne w2(1) by (simp add: advance_payments_def bindM_def assertM_apply)
    ultimately show ?thesis using w3(2,4) w2(2) by blast
  qed
  then obtain w3 where w3: "?pay w2 = (Inr (), w3)" "advanced cfg k (Some p) ?db (gw_source w3)" "order_tables_ok (gw_source w3)"
    "holds_lease l w \<longrightarrow> holds_lease l w3" by blast
  have c: "add_count ''orders_updated'' 1 (w1\<lparr>gw_source := ?db1\<rparr>) = (Inr (), w2)" by (simp add: w2_def add_count_def)
  have s1: "on_source (persist_order_transition ?t) w1 = (Inr \<lparr>tr_updated = 1, tr_skipped = 0\<rparr>, w1\<lparr>gw_source := ?db1\<rparr>)"
    using on_source_apply [of "persist_order_transition ?t" w1] st w1(3) by simp
  have "advance_order h cfg l (k, r) w = add_row row w3"
    unfolding advance_order_def prod.case plan_at_def [symmetric] Some option.case(2) row_def [symmetric]
    using fetch plan w1(1) s1 c w3(1) by simp
  with w3(2-4) Some show ?thesis by (simp add: add_row_def)
  qed
qed

lemma advanced_frame:
  assumes "advanced cfg k plan db db'" "k' \<noteq> k"
  shows "map_of (orders db') k' = map_of (orders db) k'" "map_of (order_payments db') (k', n) = map_of (order_payments db) (k', n)"
  using assms by (auto simp: advanced_def split: option.splits)

text \<open>Agreement survives a step.\<close>

lemma advanced_agrees:
  assumes "advanced cfg k (plan_at h cfg k r) db db'" "map_of (orders db) k = Some r" "order_agrees db k r"
    and "1 \<le> gc_progress_time_scale cfg" "utcoffset (gc_logical_date cfg) = Some 0" "or_updated_at r < instant (gc_logical_date cfg)"
    and "map_of (orders db') k = Some r'"
  shows "order_agrees db' k r'"
proof (cases "plan_at h cfg k r")
  case None
  with assms(1-3,7) show ?thesis by (auto simp: advanced_def order_agrees_def)
next
  case (Some p)
  note sound = plan_sound [OF Some assms(5)]
  have r': "r' = progressed_row cfg p r" using assms(1,2,7) Some by (simp add: advanced_def)
  have tl: "timeline_ok r'" unfolding r' using Some assms(4) _ assms(6)
    by (rule advanced_timeline) (use assms(3) in \<open>simp add: order_agrees_def\<close>)
  have st: "or_order_status r' = op_next_status p" by (simp add: r' progressed_row_def order_moved_def Let_def)
  show ?thesis
  proof (cases "op_payment_status p")
    case None
    then have "map_of (order_payments db') (k, n) = map_of (order_payments db) (k, n)" for n
      using assms(1) Some by (simp add: advanced_def)
    with assms(3) tl st sound(6) [OF None] show ?thesis by (auto simp: order_agrees_def)
  next
    case (Some s)
    obtain t where t: "op_payment_event_time p = Some t" using plan_payment_times [OF \<open>plan_at h cfg k r = Some p\<close> Some] by blast
    have pay: "map_of (order_payments db') (k, n) = map_option (advanced_payment cfg s t) (map_of (order_payments db) (k, n))" for n
      using assms(1) Some t \<open>plan_at h cfg k r = Some p\<close> by (simp add: advanced_def)
    obtain n q where q: "map_of (order_payments db) (k, n) = Some q" using assms(3) by (auto simp: order_agrees_def)
    then have "payment_matches (or_order_status r) (pa_payment_status q)" using assms(3) by (auto simp: order_agrees_def)
    then have "payment_matches (op_next_status p) s" using sound(5) Some by blast
    with q tl st pay show ?thesis by (auto simp: order_agrees_def advanced_payment_def)
  qed
qed

section \<open>The loop\<close>

definition candidate_ready :: "generator_config \<Rightarrow> source_db \<Rightarrow> string \<times> order_row \<Rightarrow> bool" where
  "candidate_ready cfg db = (\<lambda>(k, r). map_of (orders db) k = Some r \<and> order_agrees db k r \<and>
     or_updated_at r < instant (gc_logical_date cfg) \<and>
     (\<forall>n p. map_of (order_payments db) (k, n) = Some p \<longrightarrow> pa_updated_at p < instant (gc_logical_date cfg)))"

lemma candidate_ready_frame:
  assumes "candidate_ready cfg db (k', r')" "advanced cfg k plan db db'" "k' \<noteq> k"
  shows "candidate_ready cfg db' (k', r')"
  using assms(1) advanced_frame [OF assms(2,3)] by (simp add: candidate_ready_def order_agrees_def)

text \<open>The orders the loop may change are its candidates, each by its own plan.\<close>

definition advanced_all ::
    "hashing \<Rightarrow> generator_config \<Rightarrow> (string \<times> order_row) list \<Rightarrow> source_db \<Rightarrow> source_db \<Rightarrow> bool" where
  "advanced_all h cfg cs db db' \<longleftrightarrow>
     (\<forall>k. k \<notin> fst ` set cs \<longrightarrow> map_of (orders db') k = map_of (orders db) k \<and>
        (\<forall>n. map_of (order_payments db') (k, n) = map_of (order_payments db) (k, n))) \<and>
     (\<forall>(k, r) \<in> set cs. \<exists>r'. map_of (orders db') k = Some r' \<and> order_agrees db' k r' \<and>
        r' = (case plan_at h cfg k r of None \<Rightarrow> r | Some p \<Rightarrow> progressed_row cfg p r))"

lemma advance_loop:
  assumes "order_tables_ok (gw_source w)" "distinct (map fst cs)" "\<forall>c \<in> set cs. candidate_ready cfg (gw_source w) c"
    and "utcoffset (gc_logical_date cfg) = Some 0" "1 \<le> gc_progress_time_scale cfg"
  shows "\<not> holds_lease l w \<and> (\<exists>e w'. iterM (advance_order h cfg l) cs w = (Inl e, w')) \<or>
     (\<exists>w'. iterM (advance_order h cfg l) cs w = (Inr (), w') \<and> advanced_all h cfg cs (gw_source w) (gw_source w') \<and>
       order_tables_ok (gw_source w') \<and> (holds_lease l w \<longrightarrow> holds_lease l w'))"
  using assms(1-3)
proof (induction cs arbitrary: w)
  case Nil
  then show ?case by (auto simp: advanced_all_def)
next
  case (Cons c cs)
  obtain k r where c: "c = (k, r)" by (cases c)
  from Cons.prems(3) c have ready: "map_of (orders (gw_source w)) k = Some r" "order_agrees (gw_source w) k r"
      "or_updated_at r < instant (gc_logical_date cfg)"
      "\<And>n p. map_of (order_payments (gw_source w)) (k, n) = Some p \<Longrightarrow> pa_updated_at p < instant (gc_logical_date cfg)"
    by (auto simp: candidate_ready_def)
  from advance_order_step [OF Cons.prems(1) ready(1-3) _ assms(4), of l h] ready(4) consider
    (err) "\<not> holds_lease l w" "\<exists>e w'. advance_order h cfg l (k, r) w = (Inl e, w')"
  | (step) w1 where "advance_order h cfg l (k, r) w = (Inr (), w1)" "advanced cfg k (plan_at h cfg k r) (gw_source w) (gw_source w1)"
      "order_tables_ok (gw_source w1)" "holds_lease l w \<longrightarrow> holds_lease l w1" by blast
  then show ?case
  proof cases
  case err
  then show ?thesis using c by auto
  next
  case (step w1)
  note w1 = step
  have others: "k \<notin> fst ` set cs" "distinct (map fst cs)" using Cons.prems(2) c by auto
  have "\<forall>c \<in> set cs. candidate_ready cfg (gw_source w1) c"
    using Cons.prems(3) others(1) candidate_ready_frame [OF _ w1(2)] by force
  from Cons.IH [OF w1(3) others(2) this] consider
    (err) "\<not> holds_lease l w1" "\<exists>e w'. iterM (advance_order h cfg l) cs w1 = (Inl e, w')"
  | (fin) w2 where "iterM (advance_order h cfg l) cs w1 = (Inr (), w2)" "advanced_all h cfg cs (gw_source w1) (gw_source w2)"
      "order_tables_ok (gw_source w2)" "holds_lease l w1 \<longrightarrow> holds_lease l w2" by blast
  then show ?thesis
  proof cases
  case err
  then show ?thesis using c w1(1,4) by auto
  next
  case (fin w2)
  note w2 = fin
  have same: "map_of (orders (gw_source w2)) k = map_of (orders (gw_source w1)) k"
    "map_of (order_payments (gw_source w2)) (k, n) = map_of (order_payments (gw_source w1)) (k, n)" for n
    using w2(2) others(1) by (auto simp: advanced_all_def)
  have k: "map_of (orders (gw_source w1)) k = Some (case plan_at h cfg k r of None \<Rightarrow> r | Some p \<Rightarrow> progressed_row cfg p r)"
    using w1(2) ready(1) by (auto simp: advanced_def split: option.splits)
  from advanced_agrees [OF w1(2) ready(1,2) assms(5,4) ready(3) this]
  have "order_agrees (gw_source w2) k (case plan_at h cfg k r of None \<Rightarrow> r | Some p \<Rightarrow> progressed_row cfg p r)"
    using same by (simp add: order_agrees_def)
  with k same have "\<exists>r'. map_of (orders (gw_source w2)) k = Some r' \<and> order_agrees (gw_source w2) k r' \<and>
      r' = (case plan_at h cfg k r of None \<Rightarrow> r | Some p \<Rightarrow> progressed_row cfg p r)" by simp
  moreover have "map_of (orders (gw_source w2)) k' = map_of (orders (gw_source w)) k'"
    "map_of (order_payments (gw_source w2)) (k', n) = map_of (order_payments (gw_source w)) (k', n)"
    if "k' \<notin> fst ` set (c # cs)" for k' n
    using that w2(2) advanced_frame [OF w1(2)] c by (auto simp: advanced_all_def)
  ultimately have "advanced_all h cfg (c # cs) (gw_source w) (gw_source w2)"
    using w2(2) c by (auto simp: advanced_all_def)
  with w1(1,4) w2 c show ?thesis by auto
  qed
  qed
qed

text \<open>Every order made since the seed is as new a run finds it.\<close>

definition source_before :: "time \<Rightarrow> source_db \<Rightarrow> bool" where
  "source_before t db \<longleftrightarrow> (\<forall>k r. map_of (orders db) k = Some r \<longrightarrow> or_updated_at r < t) \<and>
     (\<forall>k p. map_of (order_payments db) k = Some p \<longrightarrow> pa_updated_at p < t)"

lemma existing_orders_result:
  assumes "latest_seed w = Some seed" "sd_seeded_at seed = s"
    and "order_tables_ok (gw_source w)" "orders_agree s (gw_source w)" "source_before (instant (gc_logical_date cfg)) (gw_source w)"
    and "utcoffset (gc_logical_date cfg) = Some 0" "1 \<le> gc_progress_time_scale cfg"
  shows "\<not> holds_lease l w \<and> (\<exists>e w'. run_existing_order_transitions h cfg l w = (Inl e, w')) \<or>
     (\<exists>w'. run_existing_order_transitions h cfg l w = (Inr (), w') \<and> order_tables_ok (gw_source w') \<and>
       orders_agree s (gw_source w') \<and> advanced_all h cfg (progress_candidates s (gw_source w)) (gw_source w) (gw_source w') \<and>
       (holds_lease l w \<longrightarrow> holds_lease l w'))"
proof -
  let ?db = "gw_source w" and ?cs = "progress_candidates s (gw_source w)"
  have pk: "pk_ok (orders ?db)" using assms(3) by (simp add: order_tables_ok_def)
  have mem: "(k, r) \<in> set ?cs \<longleftrightarrow> map_of (orders ?db) k = Some r \<and> s < or_created_at r \<and>
      or_order_status r \<in> {''created'', ''approved'', ''shipped''}" for k r
    using pk by (auto simp: progress_candidates_def pk_ok_def dest: map_of_SomeD)
  have "distinct (map fst (filter P (orders ?db)))" for P using pk by (simp add: pk_ok_def distinct_map inj_on_def)
  then have dist: "distinct (map fst ?cs)" by (simp add: progress_candidates_def distinct_map)
  have ready: "\<forall>c \<in> set ?cs. candidate_ready cfg ?db c"
    using assms(4,5) by (auto simp: mem candidate_ready_def orders_agree_def source_before_def)
  have run: "run_existing_order_transitions h cfg l w = iterM (advance_order h cfg l) ?cs w"
    using assms(1,2) by (simp add: run_existing_order_transitions_def)
  from advance_loop [OF assms(3) dist ready assms(6,7)] consider
    (err) "\<not> holds_lease l w" "\<exists>e w'. iterM (advance_order h cfg l) ?cs w = (Inl e, w')"
  | (fin) w' where "iterM (advance_order h cfg l) ?cs w = (Inr (), w')" "advanced_all h cfg ?cs ?db (gw_source w')"
      "order_tables_ok (gw_source w')" "holds_lease l w \<longrightarrow> holds_lease l w'" by blast
  then show ?thesis
  proof cases
  case err
  then show ?thesis by (simp add: run)
  next
  case (fin w')
  note w' = fin
  have "orders_agree s (gw_source w')"
    unfolding orders_agree_def
  proof (intro allI impI)
    fix k r' assume r': "map_of (orders (gw_source w')) k = Some r' \<and> s < or_created_at r'"
    show "order_agrees (gw_source w') k r'"
    proof (cases "k \<in> fst ` set ?cs")
      case True
      with w'(2) r' show ?thesis by (fastforce simp: advanced_all_def)
    next
      case False
      with w'(2) r' assms(4) show ?thesis by (auto simp: advanced_all_def orders_agree_def order_agrees_def)
    qed
  qed
  with w' show ?thesis by (simp add: run)
  qed
qed

text \<open>While the lease holds, the loop cannot fail.\<close>

lemma existing_orders_advance:
  assumes "latest_seed w = Some seed" "sd_seeded_at seed = s"
    and "order_tables_ok (gw_source w)" "orders_agree s (gw_source w)" "source_before (instant (gc_logical_date cfg)) (gw_source w)"
    and "holds_lease l w" "utcoffset (gc_logical_date cfg) = Some 0" "1 \<le> gc_progress_time_scale cfg"
  shows "\<exists>w'. run_existing_order_transitions h cfg l w = (Inr (), w') \<and> order_tables_ok (gw_source w') \<and>
     orders_agree s (gw_source w') \<and> advanced_all h cfg (progress_candidates s (gw_source w)) (gw_source w) (gw_source w') \<and>
     holds_lease l w'"
  using existing_orders_result [OF assms(1-5,7,8), of l h] assms(6) by blast

end
