(* ===== verification/Subscriptions.thy ===== *)
theory Subscriptions
  imports Customers OrderProgress
begin

text \<open>
  Billing of subscription contracts (src/generator/customers/subscription_payments.py and
  subscription_scan.py): the planned payment attempts and their sequence numbers, and the scan that
  ends, bills, realigns or retries every contract that is due at the run's \<open>logical_date\<close>.
\<close>

section \<open>Payment attempts\<close>

definition MONTHLY_SUBSCRIPTION_FEE :: int where "MONTHLY_SUBSCRIPTION_FEE = 2990"
definition PAYMENT_FAILURE_RATE_BASIS_POINTS :: nat where "PAYMENT_FAILURE_RATE_BASIS_POINTS = 1500"

definition billing_check :: "billing_row \<Rightarrow> unit result" where
  "billing_check r =
     seq (require (\<not> (bp_billing_cycle_sequence r < 1 \<or> bp_attempt_sequence r < 1)) ''Billing cycle and attempt sequences must start at one'')
    (seq (require (bp_payment_status r \<in> {''completed'', ''failed''}) (''Unsupported payment_status: '' @ bp_payment_status r))
    (seq (require (\<not> bp_payment_value r < 0) ''payment_value must be zero or greater'')
    (seq (require (length (bp_currency_code r) = 3 \<and> list_all upper_char (bp_currency_code r))
            ''currency_code must be a three-character uppercase ISO code'')
    (seq (require (\<not> (bp_payment_status r = ''completed'' \<and> bp_failure_code r \<noteq> None)) ''Completed payments must not include failure_code'')
    (seq (require (\<not> bp_billing_period_end_at r \<le> bp_billing_period_start_at r) ''billing period must end after it starts'')
    (require (\<not> bp_updated_at r < bp_created_at r) ''updated_at must be greater than or equal to created_at''))))))"

text \<open>\<open>int(digest[:4], 16)\<close>: the leading 16 of 256 bits.\<close>

definition billing_outcome :: "hashing \<Rightarrow> generator_config \<Rightarrow> uuid \<Rightarrow> int \<Rightarrow> int \<Rightarrow> string" where
  "billing_outcome h cfg sid cycle attempt =
     (let digest = known_number (hash_number h (GDict [(''generator_inputs'', deterministic_inputs cfg),
            (''entity'', GStr ''subscription-billing''), (''subscription_id'', GUuid sid),
            (''billing_cycle_sequence'', GInt cycle), (''attempt_sequence'', GInt attempt)]))
      in if digest div 2 ^ 240 mod 10000 < PAYMENT_FAILURE_RATE_BASIS_POINTS then ''failed'' else ''completed'')"

definition billing_uuid :: "hashing \<Rightarrow> string \<Rightarrow> uuid \<Rightarrow> int \<Rightarrow> int \<Rightarrow> uuid result" where
  "billing_uuid h entity sid cycle attempt = deterministic_uuid h entity [GUuid sid, GInt cycle, GInt attempt]"

definition plan_subscription_payment ::
    "hashing \<Rightarrow> generator_config \<Rightarrow> uuid \<Rightarrow> int \<Rightarrow> int \<Rightarrow> time \<Rightarrow> string option \<Rightarrow> (uuid \<times> billing_row) result" where
  "plan_subscription_payment h cfg sid cycle attempt start forced =
     (let status = (case forced of Some s \<Rightarrow> s | None \<Rightarrow> billing_outcome h cfg sid cycle attempt);
          t = instant (gc_logical_date cfg)
      in case billing_uuid h ''subscription-payment'' sid cycle attempt of
        Inl e \<Rightarrow> Inl e
      | Inr k \<Rightarrow> (case billing_uuid h ''subscription-provider-payment'' sid cycle attempt of
          Inl e \<Rightarrow> Inl e
        | Inr provider \<Rightarrow>
            (let r = \<lparr>bp_subscription_id = sid, bp_billing_cycle_sequence = cycle, bp_attempt_sequence = attempt,
                   bp_payment_status = status, bp_payment_at = t, bp_payment_value = MONTHLY_SUBSCRIPTION_FEE,
                   bp_currency_code = ''BRL'', bp_billing_period_start_at = start,
                   bp_billing_period_end_at = start + SUBSCRIPTION_PERIOD, bp_payment_method_type = Some ''credit_card'',
                   bp_payment_provider = Some ''simulator'', bp_provider_payment_id = Some (uuid_str provider),
                   bp_failure_code = (if status = ''failed'' then Some ''DECLINED'' else None), bp_created_at = t,
                   bp_updated_at = t\<rparr>
             in seq (billing_check r) (seq (assert_utc (gc_logical_date cfg) ''payment_at'') (Inr (k, r))))))"

text \<open>\<open>coalesce(max(...), 0)\<close> over the rows selected.\<close>

definition sql_max :: "int list \<Rightarrow> int option" where
  "sql_max xs = (if xs = [] then None else Some (Max (set xs)))"

definition max_or_zero :: "int list \<Rightarrow> int" where
  "max_or_zero xs = (case sql_max xs of None \<Rightarrow> 0 | Some n \<Rightarrow> n)"

definition billings_of :: "uuid \<Rightarrow> source_db \<Rightarrow> billing_row list" where
  "billings_of sid db = filter (\<lambda>r. bp_subscription_id r = sid) (map snd (subscription_payments db))"

definition next_billing_cycle_sequence :: "uuid \<Rightarrow> source_db \<Rightarrow> int" where
  "next_billing_cycle_sequence sid db = max_or_zero (map bp_billing_cycle_sequence (billings_of sid db)) + 1"

definition next_attempt_sequence :: "uuid \<Rightarrow> int \<Rightarrow> source_db \<Rightarrow> int" where
  "next_attempt_sequence sid cycle db =
     max_or_zero (map bp_attempt_sequence (filter (\<lambda>r. bp_billing_cycle_sequence r = cycle) (billings_of sid db))) + 1"

definition latest_completed_billing_period :: "uuid \<Rightarrow> source_db \<Rightarrow> (time \<times> time) option" where
  "latest_completed_billing_period sid db =
     (case sort_key (\<lambda>r. - bp_billing_cycle_sequence r) (sort_key (\<lambda>r. - bp_attempt_sequence r)
             (filter (\<lambda>r. bp_payment_status r = ''completed'') (billings_of sid db))) of
        [] \<Rightarrow> None
      | r # _ \<Rightarrow> Some (bp_billing_period_start_at r, bp_billing_period_end_at r))"

definition persist_subscription_payment :: "uuid \<times> billing_row \<Rightarrow> (source_db, outcome) op" where
  "persist_subscription_payment kr =
     bindM (getM (\<lambda>db. map_of (subscription_payments db) (fst kr))) (\<lambda>existing. case existing of
       Some _ \<Rightarrow> returnM Skipped
     | None \<Rightarrow> bindM (insert_billing kr) (\<lambda>_. returnM Inserted))"

definition persist_subscription_payments :: "(uuid \<times> billing_row) list \<Rightarrow> (source_db, nat) op" where
  "persist_subscription_payments rs = bindM (persist_each persist_subscription_payment rs) (\<lambda>m. returnM (mr_inserted m))"

section \<open>Which contracts are due\<close>

fun check_all :: "('r \<Rightarrow> unit result) \<Rightarrow> 'r list \<Rightarrow> unit result" where
  "check_all f [] = Inr ()"
| "check_all f (r # rs) = seq (f r) (check_all f rs)"

definition at_most :: "time option \<Rightarrow> time \<Rightarrow> bool" where
  "at_most t now = (case t of None \<Rightarrow> False | Some t \<Rightarrow> t \<le> now)"

text \<open>Rows read back become records, whose constructor checks them.\<close>

definition fetch_subscriptions :: "(uuid \<times> subscription_row \<Rightarrow> bool) \<Rightarrow> (source_db, (uuid \<times> subscription_row) list) op" where
  "fetch_subscriptions p =
     bindM (getM (\<lambda>db. sort_key (su_customer_unique_id \<circ> snd) (sort_key fst (filter p (customer_subscriptions db))))) (\<lambda>rs.
     bindM (liftM (check_all (subscription_check \<circ> snd) rs)) (\<lambda>_. returnM rs))"

definition fetch_subscriptions_ordered :: "(source_db, (uuid \<times> subscription_row) list) op" where
  "fetch_subscriptions_ordered = fetch_subscriptions (\<lambda>_. True)"

definition due_subscription :: "time \<Rightarrow> subscription_row \<Rightarrow> bool" where
  "due_subscription now r \<longleftrightarrow> su_updated_at r < now \<and>
     (su_subscription_status r \<in> {''CANCEL_REQUESTED'', ''PAYMENT_FAILED''} \<and> at_most (su_current_period_ends_at r) now \<or>
      su_subscription_status r = ''ACTIVE'' \<and> su_auto_renew_enabled r \<and> at_most (su_next_payment_attempt_at r) now \<or>
      su_subscription_status r = ''PAYMENT_FAILED'' \<and> at_most (su_next_payment_attempt_at r) now)"

definition fetch_due_subscriptions :: "time \<Rightarrow> (source_db, (uuid \<times> subscription_row) list) op" where
  "fetch_due_subscriptions now = fetch_subscriptions (due_subscription now \<circ> snd)"

definition unexpired_completed_period :: "uuid \<Rightarrow> time \<Rightarrow> source_db \<Rightarrow> (time \<times> time) option" where
  "unexpired_completed_period sid now db = (case latest_completed_billing_period sid db of
      None \<Rightarrow> None
    | Some (s, e) \<Rightarrow> if now < e then Some (s, e) else None)"

definition selection :: "hashing \<Rightarrow> generator_config \<Rightarrow> string \<Rightarrow> nat" where
  "selection h cfg entity = known_number (hash_number h
     (GDict [(''generator_inputs'', deterministic_inputs cfg), (''entity'', GStr entity)]))"

definition select_due_subscription_for_failed_profile :: "hashing \<Rightarrow> generator_config \<Rightarrow> (source_db, uuid) op" where
  "select_due_subscription_for_failed_profile h cfg =
     bindM fetch_subscriptions_ordered (\<lambda>rs.
     bindM (getM (\<lambda>db. filter (\<lambda>(k, r). su_subscription_status r = ''ACTIVE'' \<and> su_auto_renew_enabled r \<and>
         su_updated_at r < instant (gc_logical_date cfg) \<and>
         at_most (su_next_payment_attempt_at r) (instant (gc_logical_date cfg)) \<and>
         unexpired_completed_period k (instant (gc_logical_date cfg)) db = None) rs)) (\<lambda>cs.
     bindM (assertM (cs \<noteq> []) ValueError ''subscription-payment-failed requires an ACTIVE subscription due for billing'') (\<lambda>_.
     returnM (fst (cs ! (selection h cfg ''subscription-transition-selection'' mod length cs))))))"

section \<open>The scan\<close>

definition add_subscription_counts :: "mutation_result \<Rightarrow> (gen_world, unit) op" where
  "add_subscription_counts m = bindM (add_count ''subscriptions_updated'' (mr_updated m)) (\<lambda>_.
     add_count ''subscriptions_skipped'' (mr_skipped m))"

definition store_subscriptions :: "(uuid \<times> subscription_row) list \<Rightarrow> (gen_world, unit) op" where
  "store_subscriptions rs = bindM (on_source (persist_subscription_records rs)) add_subscription_counts"

definition subscription_scan_row :: "string \<Rightarrow> string \<Rightarrow> gen_value" where
  "subscription_scan_row unique_id status =
     GDict [(''customer_unique_id'', GStr unique_id), (''scan_subscription_status'', GStr status)]"

definition persist_scan_transition :: "generator_config \<Rightarrow> uuid \<times> subscription_row \<Rightarrow> string \<Rightarrow> (gen_world, unit) op" where
  "persist_scan_transition cfg kr status =
     bindM (liftM (subscription_transition_records cfg [kr] status)) store_subscriptions"

text \<open>A record the scan builds passes the constructor again before it is stored.\<close>

definition store_checked :: "generator_config \<Rightarrow> uuid \<Rightarrow> subscription_row \<Rightarrow> (gen_world, unit) op" where
  "store_checked cfg k r = bindM (liftM (checked_subscription cfg r)) (\<lambda>r. store_subscriptions [(k, r)])"

definition advanced_contract :: "generator_config \<Rightarrow> subscription_row \<Rightarrow> billing_row \<Rightarrow> subscription_row" where
  "advanced_contract cfg r p =
     \<lparr>su_customer_unique_id = su_customer_unique_id r, su_subscription_status = ''ACTIVE'', su_auto_renew_enabled = True,
      su_subscription_started_at = su_subscription_started_at r,
      su_current_period_started_at = Some (bp_billing_period_start_at p),
      su_current_period_ends_at = Some (bp_billing_period_end_at p), su_billing_due_at = Some (bp_billing_period_end_at p),
      su_next_payment_attempt_at = Some (bp_billing_period_end_at p), su_payment_failed_at = None,
      su_cancel_requested_at = None, su_ended_at = None,
      su_status_changed_at = (if su_subscription_status r = ''ACTIVE'' then su_status_changed_at r else instant (gc_logical_date cfg)),
      su_created_at = su_created_at r, su_updated_at = instant (gc_logical_date cfg)\<rparr>"

definition advance_active_billing :: "generator_config \<Rightarrow> uuid \<times> subscription_row \<Rightarrow> billing_row \<Rightarrow> (gen_world, unit) op" where
  "advance_active_billing cfg kr p = store_checked cfg (fst kr) (advanced_contract cfg (snd kr) p)"

definition retried_contract :: "generator_config \<Rightarrow> subscription_row \<Rightarrow> subscription_row" where
  "retried_contract cfg r = r\<lparr>su_next_payment_attempt_at := Some (instant (gc_logical_date cfg) + days 2),
     su_payment_failed_at := Some (instant (gc_logical_date cfg)), su_updated_at := instant (gc_logical_date cfg)\<rparr>"

definition billing_sequences :: "uuid \<times> subscription_row \<Rightarrow> source_db \<Rightarrow> int \<times> int" where
  "billing_sequences kr db =
     (if su_subscription_status (snd kr) = ''PAYMENT_FAILED'' then
        (let cycle = next_billing_cycle_sequence (fst kr) db - 1 in (cycle, next_attempt_sequence (fst kr) cycle db))
      else (next_billing_cycle_sequence (fst kr) db, 1))"

definition billing_start :: "generator_config \<Rightarrow> subscription_row \<Rightarrow> time" where
  "billing_start cfg r = (case su_billing_due_at r of Some d \<Rightarrow> d | None \<Rightarrow> instant (gc_logical_date cfg))"

definition bill_and_transition :: "hashing \<Rightarrow> generator_config \<Rightarrow> uuid \<times> subscription_row \<Rightarrow> string option \<Rightarrow> (gen_world, unit) op" where
  "bill_and_transition h cfg kr forced = (let (k, r) = kr in
     bindM (getM (\<lambda>w. billing_sequences kr (gw_source w))) (\<lambda>(cycle, attempt).
     bindM (liftM (plan_subscription_payment h cfg k cycle attempt (billing_start cfg r) forced)) (\<lambda>payment.
     bindM (on_source (persist_subscription_payments [payment])) (\<lambda>n.
     bindM (add_count ''subscription_payments_inserted'' n) (\<lambda>_.
     bindM (add_row (GDict [(''customer_unique_id'', GStr (su_customer_unique_id r)), (''subscription_id'', GStr (uuid_str k)),
              (''billing_cycle_sequence'', GInt cycle), (''attempt_sequence'', GInt attempt),
              (''payment_status'', GStr (bp_payment_status (snd payment)))])) (\<lambda>_.
     if bp_payment_status (snd payment) = ''completed'' then
       bindM (advance_active_billing cfg kr (snd payment)) (\<lambda>_.
       if su_subscription_status r \<noteq> ''ACTIVE'' then add_row (subscription_scan_row (su_customer_unique_id r) ''ACTIVE'')
       else returnM ())
     else if su_subscription_status r = ''PAYMENT_FAILED'' then store_checked cfg k (retried_contract cfg r)
     else bindM (persist_scan_transition cfg kr ''PAYMENT_FAILED'') (\<lambda>_.
       add_row (subscription_scan_row (su_customer_unique_id r) ''PAYMENT_FAILED''))))))))"

definition realigned_contract :: "generator_config \<Rightarrow> subscription_row \<Rightarrow> time \<times> time \<Rightarrow> subscription_row" where
  "realigned_contract cfg r period = r\<lparr>su_current_period_started_at := Some (fst period),
     su_current_period_ends_at := Some (snd period), su_billing_due_at := Some (snd period),
     su_next_payment_attempt_at := Some (snd period), su_updated_at := instant (gc_logical_date cfg)\<rparr>"

definition scan_subscription :: "hashing \<Rightarrow> generator_config \<Rightarrow> uuid option \<Rightarrow> uuid \<times> subscription_row \<Rightarrow> (gen_world, unit) op" where
  "scan_subscription h cfg forced_id kr =
     (let (k, r) = kr; now = instant (gc_logical_date cfg); status = su_subscription_status r in
      if now \<le> su_updated_at r then returnM ()
      else if status \<in> {''CANCEL_REQUESTED'', ''PAYMENT_FAILED''} \<and> at_most (su_current_period_ends_at r) now then
        bindM (persist_scan_transition cfg kr ''CHURNED'') (\<lambda>_.
        add_row (subscription_scan_row (su_customer_unique_id r) ''CHURNED''))
      else if status = ''ACTIVE'' \<and> su_auto_renew_enabled r \<and> at_most (su_next_payment_attempt_at r) now then
        bindM (getM (\<lambda>w. unexpired_completed_period k now (gw_source w))) (\<lambda>period. case period of
          Some p \<Rightarrow> bindM (store_checked cfg k (realigned_contract cfg r p)) (\<lambda>_.
            add_row (subscription_scan_row (su_customer_unique_id r) ''ACTIVE_REALIGNED''))
        | None \<Rightarrow> bill_and_transition h cfg kr (if Some k = forced_id then Some ''failed'' else None))
      else if status = ''PAYMENT_FAILED'' \<and> at_most (su_next_payment_attempt_at r) now then
        bill_and_transition h cfg kr None
      else returnM ())"

definition run_subscription_expiry_scan :: "hashing \<Rightarrow> generator_config \<Rightarrow> uuid option \<Rightarrow> (gen_world, unit) op" where
  "run_subscription_expiry_scan h cfg forced_id =
     bindM (on_source (fetch_due_subscriptions (instant (gc_logical_date cfg)))) (\<lambda>rs.
     iterM (scan_subscription h cfg forced_id) rs)"

definition forced_failure_row :: "uuid \<Rightarrow> (source_db, gen_value) op" where
  "forced_failure_row sid =
     bindM fetch_subscriptions_ordered (\<lambda>rs. case find (\<lambda>(k, _). k = sid) rs of
       None \<Rightarrow> raiseM (OtherError ''StopIteration'') []
     | Some (_, r) \<Rightarrow> returnM (GDict [(''customer_unique_id'', GStr (su_customer_unique_id r)),
         (''subscription_status'', GStr (su_subscription_status r)),
         (''subscription_updated_at'', GStr (isoformat (su_updated_at r)))]))"

end
