(* ===== verification/Profiles.thy ===== *)
theory Profiles
  imports Subscriptions
begin

text \<open>
  The profiles that change one customer (src/generator/customers/profile_mutations.py): a tier
  change, the start of a contract, a requested cancelation or an end of contract, for the one
  candidate that the hash of the run's inputs selects.
\<close>

definition tier_candidates :: "time \<Rightarrow> source_db \<Rightarrow> (string \<times> tier_row) list" where
  "tier_candidates now db = sort_key fst
     (filter (\<lambda>(_, r). ti_membership_tier r \<in> {''BRONZE'', ''SILVER''} \<and> ti_updated_at r < now) (membership_tiers db))"

definition apply_membership_tier_change :: "hashing \<Rightarrow> generator_config \<Rightarrow> (source_db, mutation_result \<times> gen_value) op" where
  "apply_membership_tier_change h cfg =
     bindM (getM (tier_candidates (instant (gc_logical_date cfg)))) (\<lambda>cs.
     bindM (assertM (cs \<noteq> []) ValueError ''membership-change requires at least one BRONZE or SILVER tier record'') (\<lambda>_.
     bindM (liftM (check_all tier_check cs)) (\<lambda>_.
     let current = cs ! (selection h cfg ''membership-change-selection'' mod length cs);
         delivered = (if ti_membership_tier (snd current) = ''BRONZE'' then 5 else 15) in
     bindM (liftM (membership_tier_change_records cfg [current] delivered)) (\<lambda>changed.
     bindM (persist_membership_tier_records changed) (\<lambda>result.
     returnM (result, GDict [(''customer_unique_id'', GStr (fst current)),
       (''membership_tier'', GStr (ti_membership_tier (snd (hd changed)))),
       (''membership_tier_updated_at'', GStr (isoformat (ti_updated_at (snd (hd changed)))))]))))))"

definition subscription_profile_contract :: "string \<Rightarrow> (string \<times> string list) result" where
  "subscription_profile_contract profile =
     (case map_of [(''subscription-cancel-requested'', (''CANCEL_REQUESTED'', [''ACTIVE'', ''PAYMENT_FAILED''])),
                   (''subscription-churned'', (''CHURNED'', [''PAYMENT_FAILED'', ''CANCEL_REQUESTED'']))] profile of
        None \<Rightarrow> Inl (Exn (OtherError ''KeyError'') profile)
      | Some c \<Rightarrow> Inr c)"

definition customers_without_contract :: "source_db \<Rightarrow> string list" where
  "customers_without_contract db = sort (remdups (filter
     (\<lambda>u. list_all (\<lambda>(_, s). su_customer_unique_id s \<noteq> u \<or> su_subscription_status s = ''CHURNED'') (customer_subscriptions db))
     (map (cu_customer_unique_id \<circ> snd) (customers db))))"

definition start_subscription_contract :: "hashing \<Rightarrow> generator_config \<Rightarrow> (source_db, mutation_result \<times> gen_value) op" where
  "start_subscription_contract h cfg =
     bindM (getM customers_without_contract) (\<lambda>us.
     bindM (assertM (us \<noteq> []) ValueError ''subscription-active requires a customer without an open subscription'') (\<lambda>_.
     bindM (liftM (new_subscription_record_for_customer h
              (us ! (selection h cfg ''subscription-contract-start-selection'' mod length us)) (gc_logical_date cfg))) (\<lambda>kr.
     bindM (persist_subscription_records [kr]) (\<lambda>result.
     returnM (result, GDict [(''customer_unique_id'', GStr (su_customer_unique_id (snd kr))),
       (''subscription_id'', GStr (uuid_str (fst kr))), (''subscription_status'', GStr (su_subscription_status (snd kr))),
       (''subscription_updated_at'', GStr (isoformat (su_updated_at (snd kr))))])))))"

definition transition_candidates :: "string \<Rightarrow> string list \<Rightarrow> time \<Rightarrow> source_db \<Rightarrow> (uuid \<times> subscription_row) list" where
  "transition_candidates target sources now db = sort_key (su_customer_unique_id \<circ> snd)
     (filter (\<lambda>(_, r). su_subscription_status r \<in> set sources \<and> su_updated_at r < now) (customer_subscriptions db))"

definition apply_subscription_transition :: "hashing \<Rightarrow> generator_config \<Rightarrow> (source_db, mutation_result \<times> gen_value) op" where
  "apply_subscription_transition h cfg =
     (if gc_anomaly_profile cfg = ''subscription-active'' then start_subscription_contract h cfg
      else
        bindM (liftM (subscription_profile_contract (gc_anomaly_profile cfg))) (\<lambda>(target, sources).
        bindM (getM (transition_candidates target sources (instant (gc_logical_date cfg)))) (\<lambda>rs.
        bindM (liftM (check_all (subscription_check \<circ> snd) rs)) (\<lambda>_.
        let cs = filter (\<lambda>(_, r). target \<noteq> ''CHURNED'' \<or>
                   at_most (su_current_period_ends_at r) (instant (gc_logical_date cfg))) rs in
        bindM (assertM (cs \<noteq> []) ValueError (gc_anomaly_profile cfg @ '' requires an eligible subscription record'')) (\<lambda>_.
        let current = cs ! (selection h cfg ''subscription-transition-selection'' mod length cs) in
        bindM (liftM (subscription_transition_records cfg [current] target)) (\<lambda>changed.
        bindM (persist_subscription_records changed) (\<lambda>result.
        returnM (result, GDict [(''customer_unique_id'', GStr (su_customer_unique_id (snd current))),
          (''subscription_status'', GStr (su_subscription_status (snd (hd changed)))),
          (''subscription_updated_at'', GStr (isoformat (su_updated_at (snd (hd changed)))))]))))))))"

end
