(* ===== verification/OrderBundles.thy ===== *)
theory OrderBundles
  imports Customers OrderProgress
begin

text \<open>
  New orders (src/generator/orders/orders.py, new_orders.py and the late scenario of scenarios.py):
  the bundle of customer, order, items and payment that a run derives from its configuration, and
  its storage, which inserts what is missing and refuses what differs.
\<close>

section \<open>Bundles\<close>

definition PAYMENT_TYPES :: "string list" where
  "PAYMENT_TYPES = [''credit_card'', ''boleto'', ''voucher'']"

definition ESTIMATED_DELIVERY_DELAY :: int where "ESTIMATED_DELIVERY_DELAY = 7 * 86400000000"

record order_catalog =
  oc_products :: "string list"
  oc_sellers :: "string list"

definition order_catalog_check :: "order_catalog \<Rightarrow> unit result" where
  "order_catalog_check c =
     seq (require (oc_products c \<noteq> []) ''Order generation requires at least one product'')
         (require (oc_sellers c \<noteq> []) ''Order generation requires at least one seller'')"

record order_bundle =
  ob_customer :: "string \<times> customer_row"
  ob_order :: "string \<times> order_row"
  ob_items :: "((string \<times> int) \<times> item_row) list"
  ob_payments :: "((string \<times> int) \<times> payment_row) list"

definition item_total :: "((string \<times> int) \<times> item_row) list \<Rightarrow> int" where
  "item_total items = sum_list (map (\<lambda>(_, i). it_price i + it_freight_value i) items)"

definition order_bundle_check :: "order_bundle \<Rightarrow> unit result" where
  "order_bundle_check b =
     seq (require (or_customer_id (snd (ob_order b)) = fst (ob_customer b)) ''Order customer_id must reference the bundle customer'')
    (seq (require (ob_items b \<noteq> []) ''Order bundles require at least one item'')
    (seq (require (ob_payments b \<noteq> []) ''Order bundles require at least one payment'')
    (seq (require (map (snd \<circ> fst) (ob_items b) = map int [1..<length (ob_items b) + 1]) ''order_item_id values must be sequential from 1'')
    (seq (require (map (snd \<circ> fst) (ob_payments b) = map int [1..<length (ob_payments b) + 1])
            ''payment_sequential values must be sequential from 1'')
    (seq (require (list_all (\<lambda>((k, _), _). k = fst (ob_order b)) (ob_items b)) ''All items must reference the bundle order'')
    (seq (require (list_all (\<lambda>((k, _), _). k = fst (ob_order b)) (ob_payments b)) ''All payments must reference the bundle order'')
    (require (item_total (ob_items b) = sum_list (map (pa_payment_value \<circ> snd) (ob_payments b)))
       ''Payment total must equal item price plus freight total'')))))))"

definition fetch_order_catalog :: "(source_db, order_catalog) op" where
  "fetch_order_catalog =
     bindM (getM (\<lambda>db. \<lparr>oc_products = sort (products db), oc_sellers = sort (sellers db)\<rparr>)) (\<lambda>c.
     bindM (liftM (order_catalog_check c)) (\<lambda>_. returnM c))"

section \<open>Deterministic choices\<close>

definition estimated_delivery_date :: "time \<Rightarrow> int \<Rightarrow> time" where
  "estimated_delivery_date purchase scale = purchase + div_half_even ESTIMATED_DELIVERY_DELAY scale"

definition order_selector :: "hashing \<Rightarrow> generator_config \<Rightarrow> string \<Rightarrow> int list \<Rightarrow> nat" where
  "order_selector h cfg entity components = known_number (hash_number h
     (GDict [(''generator_inputs'', deterministic_inputs cfg), (''entity_name'', GStr entity),
        (''components'', GList (map GInt components))]))"

definition order_amount :: "hashing \<Rightarrow> generator_config \<Rightarrow> string \<Rightarrow> int list \<Rightarrow> int \<Rightarrow> int \<Rightarrow> int" where
  "order_amount h cfg entity components minimum_cents span =
     minimum_cents + int (order_selector h cfg entity components) mod span"

definition new_item_record ::
    "hashing \<Rightarrow> generator_config \<Rightarrow> order_catalog \<Rightarrow> string \<Rightarrow> int \<Rightarrow> int \<Rightarrow> (string \<times> int) \<times> item_row" where
  "new_item_record h cfg catalog k ordinal i =
     ((k, i),
      \<lparr>it_product_id = oc_products catalog ! (order_selector h cfg ''item-product'' [ordinal, i] mod length (oc_products catalog)),
       it_seller_id = oc_sellers catalog ! (order_selector h cfg ''item-seller'' [ordinal, i] mod length (oc_sellers catalog)),
       it_shipping_limit_date = instant (gc_logical_date cfg) +
         div_half_even (days (4 + int (order_selector h cfg ''item-shipping-limit'' [ordinal, i]) mod 6)) (gc_progress_time_scale cfg),
       it_price = order_amount h cfg ''item-price'' [ordinal, i] 1000 99001,
       it_freight_value = order_amount h cfg ''item-freight'' [ordinal, i] 100 9901,
       it_created_at = instant (gc_logical_date cfg)\<rparr>)"

definition with_payment_installments :: "hashing \<Rightarrow> generator_config \<Rightarrow> int \<Rightarrow> payment_row \<Rightarrow> payment_row" where
  "with_payment_installments h cfg ordinal p =
     (if pa_payment_type p \<noteq> ''credit_card'' then p
      else p\<lparr>pa_payment_installments := Some (1 + int (order_selector h cfg ''payment-installments'' [ordinal]) mod 12)\<rparr>)"

definition new_order_row :: "generator_config \<Rightarrow> string \<Rightarrow> order_row" where
  "new_order_row cfg customer_id = (let t = instant (gc_logical_date cfg) in
     \<lparr>or_customer_id = customer_id, or_order_status = ''created'', or_order_purchase_timestamp = t,
      or_order_approved_at = None, or_order_delivered_carrier_date = None, or_order_delivered_customer_date = None,
      or_order_estimated_delivery_date = Some (estimated_delivery_date t (gc_progress_time_scale cfg)),
      or_created_at = t, or_updated_at = t\<rparr>)"

definition new_payment_row :: "hashing \<Rightarrow> generator_config \<Rightarrow> int \<Rightarrow> int \<Rightarrow> payment_row" where
  "new_payment_row h cfg ordinal amount = (let t = instant (gc_logical_date cfg) in
     with_payment_installments h cfg ordinal
      \<lparr>pa_payment_type = PAYMENT_TYPES ! (order_selector h cfg ''payment-type'' [ordinal] mod length PAYMENT_TYPES),
       pa_payment_installments = None, pa_payment_value = amount, pa_payment_status = ''pending'',
       pa_payment_initiated_at = Some t, pa_payment_completed_at = None, pa_payment_failed_at = None,
       pa_payment_refunded_at = None, pa_created_at = t, pa_updated_at = t\<rparr>)"

definition checked_bundle :: "order_bundle \<Rightarrow> order_bundle result" where
  "checked_bundle b = seq (order_bundle_check b) (Inr b)"

definition new_order_bundle ::
    "hashing \<Rightarrow> generator_config \<Rightarrow> string \<times> customer_row \<Rightarrow> order_catalog \<Rightarrow> int \<Rightarrow> order_bundle result" where
  "new_order_bundle h cfg customer catalog ordinal =
     seq (assert_positive_ordinal ordinal)
       (case deterministic_id h cfg ''order'' [GStr (fst customer), GInt ordinal] of
          Inl e \<Rightarrow> Inl e
        | Inr k \<Rightarrow>
            (let count = 1 + order_selector h cfg ''item-count'' [ordinal] mod 3;
                 items = map (\<lambda>i. new_item_record h cfg catalog k ordinal (int i)) [1..<count + 1]
             in checked_bundle \<lparr>ob_customer = customer, ob_order = (k, new_order_row cfg (fst customer)), ob_items = items,
                  ob_payments = [((k, 1), new_payment_row h cfg ordinal (item_total items))]\<rparr>))"

definition assert_past_business_event_time :: "datetime \<Rightarrow> datetime \<Rightarrow> unit result" where
  "assert_past_business_event_time event mutation =
     seq (assert_utc event ''business_event_time'')
       (require (\<not> instant mutation \<le> instant event) ''business_event_time must be earlier than mutation_time for a late scenario'')"

definition late_order_bundle ::
    "hashing \<Rightarrow> generator_config \<Rightarrow> string \<times> customer_row \<Rightarrow> order_catalog \<Rightarrow> int \<Rightarrow> datetime \<Rightarrow> order_bundle result" where
  "late_order_bundle h cfg customer catalog ordinal event =
     seq (assert_past_business_event_time event (gc_logical_date cfg))
       (case new_order_bundle h cfg customer catalog ordinal of
          Inl e \<Rightarrow> Inl e
        | Inr b \<Rightarrow> checked_bundle (b\<lparr>ob_order := (fst (ob_order b), (snd (ob_order b))
            \<lparr>or_order_purchase_timestamp := instant event,
             or_order_estimated_delivery_date := Some (estimated_delivery_date (instant event) (gc_progress_time_scale cfg))\<rparr>)\<rparr>))"

definition delayed_payment_transition :: "payment_state \<Rightarrow> datetime \<Rightarrow> datetime \<Rightarrow> payment_transition result" where
  "delayed_payment_transition current completed_at mutation =
     seq (assert_past_business_event_time completed_at mutation)
       (plan_payment_transition current ''completed'' mutation (Some completed_at))"

definition late_order_update_transition :: "order_state \<Rightarrow> string \<Rightarrow> datetime \<Rightarrow> datetime \<Rightarrow> order_transition result" where
  "late_order_update_transition current status event mutation =
     seq (assert_past_business_event_time event mutation)
       (plan_order_transition current status mutation (Some event))"

section \<open>Storing a bundle\<close>

record bundle_result =
  br_customer :: mutation_result
  br_subscription :: mutation_result
  br_membership_tier :: mutation_result
  br_orders :: mutation_result
  br_items :: mutation_result
  br_payments :: mutation_result

definition persist_order :: "string \<times> order_row \<Rightarrow> (source_db, mutation_result) op" where
  "persist_order r = persist_each (upsert orders (\<lambda>_. Inr ()) insert_order
     (\<lambda>_ _. raiseM ValueError ''Existing order differs from the deterministic expected value'')) [r]"

definition persist_items :: "((string \<times> int) \<times> item_row) list \<Rightarrow> (source_db, mutation_result) op" where
  "persist_items = persist_each (upsert order_items (\<lambda>_. Inr ()) insert_item
     (\<lambda>_ _. raiseM ValueError ''Existing order item differs from the deterministic expected value''))"

definition persist_payments :: "((string \<times> int) \<times> payment_row) list \<Rightarrow> (source_db, mutation_result) op" where
  "persist_payments = persist_each (upsert order_payments (\<lambda>_. Inr ()) insert_payment
     (\<lambda>_ _. raiseM ValueError ''Existing payment differs from the deterministic expected value''))"

definition persist_order_bundle :: "order_bundle \<Rightarrow> (source_db, bundle_result) op" where
  "persist_order_bundle b =
     bindM (persist_customer_records [ob_customer b]) (\<lambda>c.
     bindM (liftM (new_membership_tier_record (ob_customer b))) (\<lambda>tier.
     bindM (ensure_membership_tier_records [tier]) (\<lambda>t.
     bindM (persist_order (ob_order b)) (\<lambda>ord.
     bindM (persist_items (ob_items b)) (\<lambda>i.
     bindM (persist_payments (ob_payments b)) (\<lambda>p.
     returnM \<lparr>br_customer = c, br_subscription = no_mutations, br_membership_tier = t, br_orders = ord, br_items = i,
       br_payments = p\<rparr>))))))"

section \<open>The loop over new orders\<close>

definition bundle_for_profile ::
    "hashing \<Rightarrow> generator_config \<Rightarrow> string \<times> customer_row \<Rightarrow> order_catalog \<Rightarrow> int \<Rightarrow> order_bundle result" where
  "bundle_for_profile h cfg customer catalog ordinal =
     (if gc_anomaly_profile cfg = ''late-arrival''
      then late_order_bundle h cfg customer catalog ordinal
        ((gc_logical_date cfg)\<lparr>instant := instant (gc_logical_date cfg) - days (3 + ordinal mod 3)\<rparr>)
      else new_order_bundle h cfg customer catalog ordinal)"

definition add_mutations :: "string \<Rightarrow> mutation_result \<Rightarrow> (gen_world, unit) op" where
  "add_mutations name m =
     bindM (add_count (name @ ''_inserted'') (mr_inserted m)) (\<lambda>_.
     bindM (add_count (name @ ''_updated'') (mr_updated m)) (\<lambda>_.
     add_count (name @ ''_skipped'') (mr_skipped m)))"

text \<open>Items and new payments have no update counter to add to.\<close>

definition add_mutation_counts :: "bundle_result \<Rightarrow> (gen_world, unit) op" where
  "add_mutation_counts r =
     bindM (add_mutations ''customers'' (br_customer r)) (\<lambda>_.
     bindM (add_mutations ''subscriptions'' (br_subscription r)) (\<lambda>_.
     bindM (add_mutations ''membership_tiers'' (br_membership_tier r)) (\<lambda>_.
     bindM (add_mutations ''orders'' (br_orders r)) (\<lambda>_.
     bindM (add_mutations ''order_items'' (br_items r)) (\<lambda>_.
     add_mutations ''payments'' (br_payments r))))))"

definition create_new_order ::
    "hashing \<Rightarrow> generator_config \<Rightarrow> source_mutation_lease \<Rightarrow> order_catalog \<Rightarrow> int \<Rightarrow> (gen_world, unit) op" where
  "create_new_order h cfg lease catalog ordinal =
     bindM (on_pipeline (assert_source_mutation_lease lease)) (\<lambda>_.
     bindM (liftM (new_customer_record h cfg ordinal)) (\<lambda>customer.
     bindM (liftM (bundle_for_profile h cfg customer catalog ordinal)) (\<lambda>b.
     bindM (on_source (persist_order_bundle b)) (\<lambda>r.
     bindM (add_mutation_counts r) (\<lambda>_.
     add_row (GDict [(''customer_id'', GStr (fst (ob_customer b))), (''order_id'', GStr (fst (ob_order b))),
       (''item_ids'', GList (map (GInt \<circ> snd \<circ> fst) (ob_items b))),
       (''payment_sequences'', GList (map (GInt \<circ> snd \<circ> fst) (ob_payments b)))]))))))"

definition create_new_orders ::
    "hashing \<Rightarrow> generator_config \<Rightarrow> source_mutation_lease \<Rightarrow> order_catalog \<Rightarrow> (gen_world, unit) op" where
  "create_new_orders h cfg lease catalog =
     iterM (create_new_order h cfg lease catalog) (map int [1..<nat (gc_order_count cfg) + 1])"

section \<open>Planned bundles\<close>

lemma deterministic_id_total: "entity \<noteq> [] \<Longrightarrow> list_all offsets_known cs \<Longrightarrow> \<exists>k. deterministic_id h cfg entity cs = Inr k"
  using deterministic_uuid_total [of entity "deterministic_inputs cfg # cs" h] by (auto simp: deterministic_id_def)

lemma order_amount_bounds:
  "0 < span \<Longrightarrow> minimum \<le> order_amount h cfg entity cs minimum span \<and> order_amount h cfg entity cs minimum span < minimum + span"
  by (simp add: order_amount_def)

text \<open>Every planned order passes its own checks, with one to three items in the price range.\<close>

definition item_in_range :: "item_row \<Rightarrow> bool" where
  "item_in_range i \<longleftrightarrow> 1000 \<le> it_price i \<and> it_price i \<le> 100000 \<and> 100 \<le> it_freight_value i \<and> it_freight_value i \<le> 10000"

lemma planned_bundle:
  assumes "1 \<le> n"
  shows "\<exists>b. new_order_bundle h cfg c catalog n = Inr b \<and> order_bundle_check b = Inr () \<and> ob_customer b = c \<and>
    1 \<le> length (ob_items b) \<and> length (ob_items b) \<le> 3 \<and> (\<forall>i \<in> set (ob_items b). item_in_range (snd i)) \<and>
    map (pa_payment_value \<circ> snd) (ob_payments b) = [item_total (ob_items b)]"
proof -
  obtain k where k: "deterministic_id h cfg ''order'' [GStr (fst c), GInt n] = Inr k"
    using deterministic_id_total [of "''order''" "[GStr (fst c), GInt n]" h cfg] by auto
  define count where "count = 1 + order_selector h cfg ''item-count'' [n] mod 3"
  let ?items = "map (\<lambda>i. new_item_record h cfg catalog k n (int i)) [1..<count + 1]"
  define b where "b = \<lparr>ob_customer = c, ob_order = (k, new_order_row cfg (fst c)), ob_items = ?items,
    ob_payments = [((k, 1), new_payment_row h cfg n (item_total ?items))]\<rparr>"
  have count: "1 \<le> count" "count \<le> 3"
    using mod_less_divisor [of 3 "order_selector h cfg ''item-count'' [n]"] by (simp_all add: count_def del: mod_less_divisor)
  have len: "length ?items = count" by simp
  have keys: "map (snd \<circ> fst) ?items = map int [1..<count + 1]" by (simp add: new_item_record_def)
  have owner: "list_all (\<lambda>((k', _), _). k' = k) ?items" by (simp add: list_all_iff new_item_record_def)
  have amount: "pa_payment_value (new_payment_row h cfg n v) = v" for v
    by (simp add: new_payment_row_def with_payment_installments_def Let_def)
  have "?items \<noteq> []" using count(1) len by auto
  then have check: "order_bundle_check b = Inr ()"
    using keys owner len amount by (auto simp: b_def order_bundle_check_def seq_def require_def new_order_row_def Let_def)
  have "item_in_range (snd (new_item_record h cfg catalog k n i))" for i
    using order_amount_bounds [of 99001 1000 h cfg "''item-price''" "[n, i]"] order_amount_bounds [of 9901 100 h cfg "''item-freight''" "[n, i]"]
    by (simp add: item_in_range_def new_item_record_def)
  then have range: "\<forall>i \<in> set (ob_items b). item_in_range (snd i)" by (auto simp: b_def)
  have "new_order_bundle h cfg c catalog n = checked_bundle b"
    using assms k by (simp add: new_order_bundle_def assert_positive_ordinal_def seq_def require_def Let_def b_def count_def)
  also have "\<dots> = Inr b" using check by (simp add: checked_bundle_def seq_def)
  finally show ?thesis using check range count len amount by (intro exI [of _ b]) (simp add: b_def)
qed

end
