(* ===== verification/Killable.thy ===== *)
theory Killable
  imports Effects
begin

text \<open>
  Processes that may be interrupted or killed: \<open>KeyboardInterrupt\<close> is not an \<open>Exception\<close>, and a
  killed process runs no handler at all. The handlers of Python in that setting, with the rules for
  what they leave alone and how they move the state.
\<close>

abbreviation interrupt :: exn where "interrupt \<equiv> Exn (OtherError ''KeyboardInterrupt'') []"
abbreviation kill :: exn where "kill \<equiv> Exn (OtherError ''SIGKILL'') []"

definition py_exception :: "exn \<Rightarrow> bool" where
  "py_exception e \<longleftrightarrow> e \<noteq> interrupt \<and> e \<noteq> kill"

text \<open>\<open>except\<close>, \<open>finally\<close> and \<open>suppress(Exception)\<close>, none of which run in a killed process.\<close>

definition exceptM :: "('s, 'a) op \<Rightarrow> (exn \<Rightarrow> ('s, unit) op) \<Rightarrow> ('s, 'a) op" where
  "exceptM m f = (\<lambda>s. case m s of
      (Inl e, s') \<Rightarrow> if e = kill then (Inl e, s')
        else (case f e s' of (Inl e', s'') \<Rightarrow> (Inl e', s'') | (Inr _, s'') \<Rightarrow> (Inl e, s''))
    | (Inr x, s') \<Rightarrow> (Inr x, s'))"

definition suppress_exceptions :: "('s, unit) op \<Rightarrow> ('s, unit) op" where
  "suppress_exceptions m = (\<lambda>s. case m s of
      (Inl e, s') \<Rightarrow> if py_exception e then (Inr (), s') else (Inl e, s')
    | (Inr x, s') \<Rightarrow> (Inr x, s'))"

definition releasing :: "('s, 'a) op \<Rightarrow> ('s, unit) op \<Rightarrow> ('s, 'a) op" where
  "releasing m release = (\<lambda>s. case exceptM m (\<lambda>_. suppress_exceptions release) s of
      (Inl e, s') \<Rightarrow> (Inl e, s')
    | (Inr x, s') \<Rightarrow> bindM release (\<lambda>_. returnM x) s')"

section \<open>Rules\<close>

lemma keeps_exceptM [keeps_intros]: "keeps g m \<Longrightarrow> (\<And>e. keeps g (h e)) \<Longrightarrow> keeps g (exceptM m h)"
  unfolding keeps_def exceptM_def by (auto split: prod.splits sum.splits) (metis snd_conv)+

lemma keeps_suppress [keeps_intros]: "keeps g m \<Longrightarrow> keeps g (suppress_exceptions m)"
  unfolding keeps_def suppress_exceptions_def by (auto split: prod.splits sum.splits) (metis snd_conv)+

lemma keeps_releasing [keeps_intros]: "keeps g m \<Longrightarrow> keeps g release \<Longrightarrow> keeps g (releasing m release)"
  unfolding releasing_def keeps_def
  using keeps_exceptM [of g m "\<lambda>_. suppress_exceptions release"] keeps_suppress [of g release]
  by (auto simp: keeps_def bindM_def split: prod.splits sum.splits) (metis snd_conv)+

lemma exceptM_cases:
  assumes "exceptM m f w = (x, w')"
  obtains v where "m w = (Inr v, w')" "x = Inr v"
  | e w1 where "m w = (Inl e, w1)" "\<exists>e'. x = Inl e'" "w' = w1 \<or> (\<exists>y. f e w1 = (y, w'))"
  using assms by (auto simp: exceptM_def split: prod.splits sum.splits if_splits)

context effect_order
begin

lemma exceptM: "moves R m \<Longrightarrow> (\<And>e. moves R (h e)) \<Longrightarrow> moves R (exceptM m h)"
proof (rule movesI)
  fix s x s' assume m: "moves R m" and h: "\<And>e. moves R (h e)" and r: "exceptM m h s = (x, s')"
  obtain y s1 where y: "m s = (y, s1)" by (cases "m s")
  have 1: "R s s1" using movesD [OF m y] .
  from r consider "s' = s1" | e z where "h e s1 = (z, s')"
    using y by (auto simp: exceptM_def split: sum.splits if_splits prod.splits)
  then show "R s s'"
  proof cases
    case 2
    from movesD [OF h this] 1 trans show ?thesis by blast
  qed (use 1 in simp)
qed

lemma suppress_exceptions: "moves R m \<Longrightarrow> moves R (suppress_exceptions m)"
  by (auto simp: moves_def suppress_exceptions_def split: prod.splits sum.splits) (metis snd_conv)+

lemma releasing: "moves R m \<Longrightarrow> moves R release \<Longrightarrow> moves R (releasing m release)"
proof (rule movesI)
  fix s x s' assume m: "moves R m" and rel: "moves R release" and r: "releasing m release s = (x, s')"
  let ?e = "exceptM m (\<lambda>_. suppress_exceptions release)"
  obtain y s1 where y: "?e s = (y, s1)" by (cases "?e s")
  have 1: "R s s1" using movesD [OF exceptM [OF m suppress_exceptions [OF rel]] y] .
  show "R s s'"
  proof (cases y)
    case (Inl e)
    with r y 1 show ?thesis by (simp add: releasing_def)
  next
    case (Inr v)
    with r y have "bindM release (\<lambda>_. returnM v) s1 = (x, s')" by (simp add: releasing_def)
    from movesD [OF bind [OF rel basic(1)] this] have "R s1 s'" .
    with 1 show ?thesis by (rule trans)
  qed
qed

end

end
