(* ===== verification/GeneratorService.thy ===== *)
theory GeneratorService
  imports Profiles OrderBundles Killable
begin

text \<open>
  A generator run (src/generator/service.py, core/commits.py and core/metadata.py): one source
  transaction under the source lease, closed by a commit row with the run's inputs and results
  that later runs with the same inputs reuse, and the record of the run in the metadata database.
\<close>

section \<open>Faults\<close>

text \<open>
  Where the surroundings may interrupt a run: before each of its database turns, around the commit
  of the source transaction, and at the end of the fence. \<open>KeyboardInterrupt\<close> is not an
  \<open>Exception\<close>; a killed process runs no handler at all.
\<close>

datatype gen_point =
    ResolveSeed | PrepareMetadata | ReadRuns | AcquireLease | PrepareCommits | ReadCommits | RecordReused | StartRun
  | EnterFence | BeforeCommit | AfterCommit | RecordSuccess | RecordFailure | ReleaseLease

record gen_env =
  ge_hashing :: hashing
  ge_fault :: "gen_point \<Rightarrow> exn option"

definition fault_point :: "gen_env \<Rightarrow> gen_point \<Rightarrow> (gen_world, unit) op" where
  "fault_point env p = (case ge_fault env p of None \<Rightarrow> returnM () | Some e \<Rightarrow> liftM (Inl e))"

definition at_pipeline :: "gen_env \<Rightarrow> gen_point \<Rightarrow> (datetime \<Rightarrow> (pipeline_db, 'a) op) \<Rightarrow> (gen_world, 'a) op" where
  "at_pipeline env p m = bindM (fault_point env p) (\<lambda>_. on_pipeline m)"

section \<open>Run records\<close>

definition same_inputs :: "generator_config \<Rightarrow> generator_config \<Rightarrow> bool" where
  "same_inputs c d \<longleftrightarrow> gc_source_snapshot_id c = gc_source_snapshot_id d \<and> gc_random_seed c = gc_random_seed d \<and>
     instant (gc_logical_date c) = instant (gc_logical_date d) \<and> gc_order_count c = gc_order_count d \<and>
     gc_anomaly_profile c = gc_anomaly_profile d \<and> gc_generator_version c = gc_generator_version d \<and>
     gc_progress_time_scale c = gc_progress_time_scale d"

record generator_result =
  rs_generator_run_id :: uuid
  rs_result_counts :: "(string \<times> int) list"
  rs_logical_content_hash :: string
  rs_reused_successful_run :: bool

definition successful_result :: "generator_config \<Rightarrow> gen_world \<Rightarrow> generator_result option" where
  "successful_result cfg w = (case filter (\<lambda>(_, r). same_inputs (gr_config r) cfg \<and> gr_status r = ''SUCCESS'') (gw_generator_runs w) of
      (k, r) # _ \<Rightarrow> (case (gr_result_counts r, gr_logical_hash r) of
        (Some counts, Some hash) \<Rightarrow> Some \<lparr>rs_generator_run_id = k, rs_result_counts = counts,
          rs_logical_content_hash = hash, rs_reused_successful_run = True\<rparr>
      | _ \<Rightarrow> None)
    | [] \<Rightarrow> None)"

definition committed_result :: "generator_config \<Rightarrow> source_db \<Rightarrow> (uuid \<times> commit_row) option" where
  "committed_result cfg db = find (\<lambda>(_, r). same_inputs (gcm_config r) cfg) (generator_commits db)"

definition record_source_commit ::
    "uuid \<Rightarrow> generator_config \<Rightarrow> (string \<times> int) list \<Rightarrow> string \<Rightarrow> (source_db, unit) op" where
  "record_source_commit rid cfg counts hash =
     bindM (getM (\<lambda>db. insert_row ''generator_commits_pkey'' rid
       \<lparr>gcm_config = cfg, gcm_result_counts = counts, gcm_logical_hash = hash\<rparr> (generator_commits db))) (\<lambda>t.
     bindM (liftM t) (\<lambda>t.
     bindM (getM (\<lambda>db. committed_result cfg db = None)) (\<lambda>free.
     bindM (assertM free (UniqueViolation ''generator_commits_input_unique'') ''duplicate key value'') (\<lambda>_.
     modifyM (\<lambda>db. db\<lparr>generator_commits := t\<rparr>)))))"

definition record_started_generator_run :: "uuid \<Rightarrow> generator_config \<Rightarrow> (gen_world, unit) op" where
  "record_started_generator_run rid cfg =
     bindM (getM (\<lambda>w. insert_row ''generator_runs_pkey'' rid
       \<lparr>gr_config = cfg, gr_status = ''RUNNING'', gr_finished_at = None, gr_result_counts = None, gr_logical_hash = None,
        gr_error_message = None\<rparr> (gw_generator_runs w))) (\<lambda>t.
     bindM (liftM t) (\<lambda>t. modifyM (\<lambda>w. w\<lparr>gw_generator_runs := t\<rparr>)))"

text \<open>The unique index allows one successful row per inputs.\<close>

definition success_free :: "uuid \<Rightarrow> (uuid, generator_run_row) table \<Rightarrow> bool" where
  "success_free rid t = (case map_of t rid of
      None \<Rightarrow> True
    | Some r \<Rightarrow> list_all (\<lambda>(k, r'). k = rid \<or> \<not> (gr_status r' = ''SUCCESS'' \<and> same_inputs (gr_config r') (gr_config r))) t)"

definition record_finished_generator_run ::
    "uuid \<Rightarrow> string \<Rightarrow> (string \<times> int) list option \<Rightarrow> string option \<Rightarrow> string option \<Rightarrow> (gen_world, unit) op" where
  "record_finished_generator_run rid status counts hash message =
     bindM (assertM (status \<in> {''SUCCESS'', ''FAILED''}) ValueError ''Generator completion status must be SUCCESS or FAILED'') (\<lambda>_.
     bindM (assertM (\<not> (status = ''SUCCESS'' \<and> (counts = None \<or> hash = None))) ValueError
              ''Successful generator runs require result_counts and logical_content_hash'') (\<lambda>_.
     bindM turn (\<lambda>_.
     bindM (getM (\<lambda>w. status = ''SUCCESS'' \<longrightarrow> success_free rid (gw_generator_runs w))) (\<lambda>free.
     bindM (assertM free (UniqueViolation ''generator_runs_success_input_unique_v2'') ''duplicate key value'') (\<lambda>_.
     modifyM (\<lambda>w. w\<lparr>gw_generator_runs := update_rows (\<lambda>k _. k = rid) (\<lambda>r. r\<lparr>gr_finished_at := Some (instant (gw_clock w)),
       gr_result_counts := counts, gr_logical_hash := hash, gr_status := status, gr_error_message := message\<rparr>)
       (gw_generator_runs w)\<rparr>))))))"

section \<open>The source transaction\<close>

definition MUTABLE_SOURCE_TABLES :: "string list" where
  "MUTABLE_SOURCE_TABLES = [''customers'', ''customer_subscriptions'', ''customer_membership_tiers'', ''subscription_payments'',
     ''orders'', ''order_items'', ''order_payments'']"

text \<open>The timestamps of one column of a source table.\<close>

definition column_times :: "string \<Rightarrow> string \<Rightarrow> source_db \<Rightarrow> time list" where
  "column_times name column db =
     (if (name, column) = (''customers'', ''created_at'') then map (cu_created_at \<circ> snd) (customers db)
      else if (name, column) = (''customer_subscriptions'', ''updated_at'') then map (su_updated_at \<circ> snd) (customer_subscriptions db)
      else if (name, column) = (''customer_membership_tiers'', ''updated_at'') then map (ti_updated_at \<circ> snd) (membership_tiers db)
      else if (name, column) = (''subscription_payments'', ''updated_at'') then map (bp_updated_at \<circ> snd) (subscription_payments db)
      else if (name, column) = (''orders'', ''updated_at'') then map (or_updated_at \<circ> snd) (orders db)
      else if (name, column) = (''order_items'', ''created_at'') then map (it_created_at \<circ> snd) (order_items db)
      else if (name, column) = (''order_payments'', ''updated_at'') then map (pa_updated_at \<circ> snd) (order_payments db)
      else [])"

definition assert_table_cursor_forward :: "time \<Rightarrow> string \<Rightarrow> (source_db, unit) op" where
  "assert_table_cursor_forward t name =
     bindM (liftM (table_config name)) (\<lambda>c.
     bindM (getM (\<lambda>db. sql_max (column_times name (cursor_timestamp_column c) db))) (\<lambda>m.
     assertM (case m of None \<Rightarrow> True | Some m \<Rightarrow> \<not> t \<le> m) SourceCursorRegressionError
       (''logical_date='' @ isoformat t @ '' must be later than '' @ name @ ''.'' @ cursor_timestamp_column c)))"

definition assert_source_cursor_forward :: "time \<Rightarrow> (source_db, unit) op" where
  "assert_source_cursor_forward t = iterM (assert_table_cursor_forward t) MUTABLE_SOURCE_TABLES"

definition empty_result_counts :: "(string \<times> int) list" where
  "empty_result_counts = map (\<lambda>name. (name, 0))
     [''customers_inserted'', ''customers_updated'', ''customers_skipped'', ''subscriptions_inserted'', ''subscriptions_updated'',
      ''subscriptions_skipped'', ''membership_tiers_inserted'', ''membership_tiers_updated'', ''membership_tiers_skipped'',
      ''subscription_payments_inserted'', ''orders_inserted'', ''orders_updated'', ''orders_skipped'', ''order_items_inserted'',
      ''order_items_skipped'', ''payments_inserted'', ''payments_updated'', ''payments_skipped'']"

definition apply_profile :: "hashing \<Rightarrow> generator_config \<Rightarrow> uuid option \<Rightarrow> (gen_world, unit) op" where
  "apply_profile h cfg forced_id =
     (if gc_anomaly_profile cfg = ''membership-change'' then
        bindM (on_source (apply_membership_tier_change h cfg)) (\<lambda>(m, row).
        bindM (add_mutations ''membership_tiers'' m) (\<lambda>_. add_row row))
      else if starts_with ''subscription-'' (gc_anomaly_profile cfg) \<and> forced_id = None then
        bindM (on_source (apply_subscription_transition h cfg)) (\<lambda>(m, row).
        bindM (add_mutations ''subscriptions'' m) (\<lambda>_. add_row row))
      else returnM ())"

definition content_value :: "generator_config \<Rightarrow> gen_world \<Rightarrow> gen_value" where
  "content_value cfg w = GDict [(''generator_inputs'', deterministic_inputs cfg),
     (''result_counts'', GDict (map (\<lambda>(k, n). (k, GInt n)) (gw_result_counts w))), (''rows'', GList (gw_logical_rows w))]"

text \<open>Everything between the start of the transaction and the fence.\<close>

definition mutate_source :: "hashing \<Rightarrow> generator_config \<Rightarrow> source_mutation_lease \<Rightarrow> uuid \<Rightarrow> (gen_world, (string \<times> int) list \<times> string) op" where
  "mutate_source h cfg lease rid =
     bindM (on_source (assert_source_cursor_forward (instant (gc_logical_date cfg)))) (\<lambda>_.
     bindM (on_source fetch_order_catalog) (\<lambda>catalog.
     bindM (modifyM (\<lambda>w. w\<lparr>gw_result_counts := empty_result_counts, gw_logical_rows := []\<rparr>)) (\<lambda>_.
     bindM (run_existing_order_transitions h cfg lease) (\<lambda>_.
     bindM (create_new_orders h cfg lease catalog) (\<lambda>_.
     bindM (if gc_anomaly_profile cfg = ''subscription-payment-failed''
            then bindM (on_source (select_due_subscription_for_failed_profile h cfg)) (\<lambda>k. returnM (Some k))
            else returnM None) (\<lambda>forced_id.
     bindM (run_subscription_expiry_scan h cfg forced_id) (\<lambda>_.
     bindM (case forced_id of None \<Rightarrow> returnM () | Some k \<Rightarrow> bindM (on_source (forced_failure_row k)) add_row) (\<lambda>_.
     bindM (apply_profile h cfg forced_id) (\<lambda>_.
     bindM (getM (content_value cfg)) (\<lambda>content.
     bindM (liftM (logical_hash h content)) (\<lambda>hash.
     bindM (getM gw_result_counts) (\<lambda>counts.
     bindM (on_source (record_source_commit rid cfg counts hash)) (\<lambda>_.
     returnM (counts, hash))))))))))))))"

text \<open>
  \<open>with source_connection, fence, transaction\<close>: the source transaction commits while the fence
  holds the lease row, so the check and the commit are one step; what comes after the commit
  cannot undo it.
\<close>

definition source_transaction :: "(gen_world, 'a) op \<Rightarrow> (gen_world, 'a) op" where
  "source_transaction m = (\<lambda>w. case m w of
      (Inl e, w') \<Rightarrow> (Inl e, w'\<lparr>gw_source := gw_source w\<rparr>)
    | (Inr x, w') \<Rightarrow> (Inr x, w'))"

definition fence_commit :: "gen_env \<Rightarrow> source_mutation_lease \<Rightarrow> (gen_world, unit) op" where
  "fence_commit env lease =
     bindM (at_pipeline env EnterFence (\<lambda>now. fenced_source_commit lease now (returnM ()))) (\<lambda>_. fault_point env BeforeCommit)"

definition committed_mutation ::
    "gen_env \<Rightarrow> generator_config \<Rightarrow> source_mutation_lease \<Rightarrow> uuid \<Rightarrow> (gen_world, (string \<times> int) list \<times> string) op" where
  "committed_mutation env cfg lease rid =
     bindM (source_transaction (
       bindM (mutate_source (ge_hashing env) cfg lease rid) (\<lambda>r. bindM (fence_commit env lease) (\<lambda>_. returnM r)))) (\<lambda>r.
     bindM (fault_point env AfterCommit) (\<lambda>_. returnM r))"

section \<open>The run\<close>

definition resolve_source_snapshot_id :: "gen_world \<Rightarrow> string result" where
  "resolve_source_snapshot_id w = (case latest_seed w of
      None \<Rightarrow> Inl (Exn ValueError ''A successful seed run is required before running the generator'')
    | Some s \<Rightarrow> Inr (''seed:'' @ sd_raw_checksum s @ '':'' @ isoformat (sd_seeded_at s)))"

definition record_at :: "gen_env \<Rightarrow> gen_point \<Rightarrow> (gen_world, unit) op \<Rightarrow> (gen_world, unit) op" where
  "record_at env p m = bindM (fault_point env p) (\<lambda>_. m)"

definition new_generator_run ::
    "gen_env \<Rightarrow> generator_config \<Rightarrow> source_mutation_lease \<Rightarrow> uuid \<Rightarrow> (gen_world, generator_result) op" where
  "new_generator_run env cfg lease rid =
     bindM (record_at env StartRun (bindM turn (\<lambda>_. record_started_generator_run rid cfg))) (\<lambda>_.
     exceptM
       (bindM (committed_mutation env cfg lease rid) (\<lambda>(counts, hash).
        bindM (record_at env RecordSuccess (record_finished_generator_run rid ''SUCCESS'' (Some counts) (Some hash) None)) (\<lambda>_.
        returnM \<lparr>rs_generator_run_id = rid, rs_result_counts = counts, rs_logical_content_hash = hash,
          rs_reused_successful_run = False\<rparr>)))
       (\<lambda>e. if py_exception e
            then record_at env RecordFailure (record_finished_generator_run rid ''FAILED'' None None (Some (exn_message e)))
            else returnM ()))"

definition run_under_lease ::
    "gen_env \<Rightarrow> generator_config \<Rightarrow> source_mutation_lease \<Rightarrow> uuid \<Rightarrow> (gen_world, generator_result) op" where
  "run_under_lease env cfg lease rid =
     bindM (fault_point env PrepareCommits) (\<lambda>_.
     bindM (fault_point env ReadCommits) (\<lambda>_.
     bindM (getM (\<lambda>w. committed_result cfg (gw_source w))) (\<lambda>committed. case committed of
       Some (k, c) \<Rightarrow>
         bindM (record_at env RecordReused (record_finished_generator_run k ''SUCCESS''
                  (Some (gcm_result_counts c)) (Some (gcm_logical_hash c)) None)) (\<lambda>_.
         returnM \<lparr>rs_generator_run_id = k, rs_result_counts = gcm_result_counts c,
           rs_logical_content_hash = gcm_logical_hash c, rs_reused_successful_run = True\<rparr>)
     | None \<Rightarrow> new_generator_run env cfg lease rid)))"

definition run_generator :: "gen_env \<Rightarrow> generator_config \<Rightarrow> uuid \<Rightarrow> (gen_world, generator_result) op" where
  "run_generator env cfg rid =
     bindM (bindM (fault_point env ResolveSeed) (\<lambda>_. turn)) (\<lambda>_.
     bindM (getM resolve_source_snapshot_id) (\<lambda>expected.
     bindM (liftM expected) (\<lambda>expected.
     bindM (assertM (gc_source_snapshot_id cfg = expected) ValueError
              (''source_snapshot_id differs from the current successful seed snapshot: '' @ expected)) (\<lambda>_.
     bindM (fault_point env PrepareMetadata) (\<lambda>_.
     bindM (fault_point env ReadRuns) (\<lambda>_.
     bindM (getM (successful_result cfg)) (\<lambda>existing. case existing of
       Some r \<Rightarrow> returnM r
     | None \<Rightarrow>
         bindM (at_pipeline env AcquireLease (\<lambda>now. acquire_source_mutation_lease GENERATOR_OWNER_TYPE rid now DEFAULT_LEASE_TTL)) (\<lambda>lease.
         releasing (run_under_lease env cfg lease rid)
           (at_pipeline env ReleaseLease (\<lambda>now. release_source_mutation_lease lease now))))))))))"

end
