(* ===== verification/Stamps.thy ===== *)
theory Stamps
  imports GeneratorService
begin

text \<open>
  What the statements of a generator run may do to the source: rows are added or changed only with
  the run's \<open>logical_date\<close> in their cursor column, none is removed, and products, sellers and the
  commit rows stay. With the check that the date is later than every stored cursor, an incremental
  reader that has read all rows finds exactly the run's rows after its watermark.
\<close>

section \<open>Stamped tables\<close>

definition stamped_table :: "('r \<Rightarrow> time) \<Rightarrow> time \<Rightarrow> ('k, 'r) table \<Rightarrow> ('k, 'r) table \<Rightarrow> bool" where
  "stamped_table cur t T T' \<longleftrightarrow>
     (\<forall>k r. map_of T' k = Some r \<longrightarrow> cur r = t \<or> map_of T k = Some r) \<and>
     (\<forall>k. map_of T k \<noteq> None \<longrightarrow> map_of T' k \<noteq> None)"

lemma stamped_table_refl: "stamped_table cur t T T"
  by (simp add: stamped_table_def)

lemma stamped_table_trans: "stamped_table cur t T T' \<Longrightarrow> stamped_table cur t T' T'' \<Longrightarrow> stamped_table cur t T T''"
  unfolding stamped_table_def by blast

lemma stamped_table_insert: "map_of T (fst kr) = None \<Longrightarrow> cur (snd kr) = t \<Longrightarrow> stamped_table cur t T (T @ [kr])"
  by (cases kr) (auto simp: stamped_table_def map_add_def split: option.splits if_splits)

lemma stamped_table_update: "(\<And>r. cur (f r) = t) \<Longrightarrow> stamped_table cur t T (update_rows (\<lambda>k' _. k' = k) f T)"
  by (auto simp: stamped_table_def table_simps)

definition stamped :: "time \<Rightarrow> source_db \<Rightarrow> source_db \<Rightarrow> bool" where
  "stamped t db db' \<longleftrightarrow>
     stamped_table cu_created_at t (customers db) (customers db') \<and>
     stamped_table su_updated_at t (customer_subscriptions db) (customer_subscriptions db') \<and>
     stamped_table ti_updated_at t (membership_tiers db) (membership_tiers db') \<and>
     stamped_table bp_updated_at t (subscription_payments db) (subscription_payments db') \<and>
     stamped_table or_updated_at t (orders db) (orders db') \<and>
     stamped_table it_created_at t (order_items db) (order_items db') \<and>
     stamped_table pa_updated_at t (order_payments db) (order_payments db') \<and>
     products db' = products db \<and> sellers db' = sellers db \<and> generator_commits db' = generator_commits db"

interpretation stamping: effect_order "stamped t" for t
  by unfold_locales (auto simp: stamped_def stamped_table_refl elim: stamped_table_trans)

lemma stamped_refl [simp]: "stamped t db db"
  by (rule stamping.refl)

lemma stamped_I:
  "stamped_table cu_created_at t (customers db) T1 \<Longrightarrow> stamped t db (db\<lparr>customers := T1\<rparr>)"
  "stamped_table su_updated_at t (customer_subscriptions db) T2 \<Longrightarrow> stamped t db (db\<lparr>customer_subscriptions := T2\<rparr>)"
  "stamped_table ti_updated_at t (membership_tiers db) T3 \<Longrightarrow> stamped t db (db\<lparr>membership_tiers := T3\<rparr>)"
  "stamped_table bp_updated_at t (subscription_payments db) T4 \<Longrightarrow> stamped t db (db\<lparr>subscription_payments := T4\<rparr>)"
  "stamped_table or_updated_at t (orders db) T5 \<Longrightarrow> stamped t db (db\<lparr>orders := T5\<rparr>)"
  "stamped_table it_created_at t (order_items db) T6 \<Longrightarrow> stamped t db (db\<lparr>order_items := T6\<rparr>)"
  "stamped_table pa_updated_at t (order_payments db) T7 \<Longrightarrow> stamped t db (db\<lparr>order_payments := T7\<rparr>)"
  by (simp_all add: stamped_def stamped_table_refl)

section \<open>The statements\<close>

lemma inserts_stamped:
  "cu_created_at (snd c) = t \<Longrightarrow> moves (stamped t) (insert_customer c)"
  "ti_updated_at (snd ti) = t \<Longrightarrow> moves (stamped t) (insert_tier ti)"
  "su_updated_at (snd su) = t \<Longrightarrow> moves (stamped t) (insert_subscription su)"
  "bp_updated_at (snd bp) = t \<Longrightarrow> moves (stamped t) (insert_billing bp)"
  "or_updated_at (snd ord) = t \<Longrightarrow> moves (stamped t) (insert_order ord)"
  "it_created_at (snd it) = t \<Longrightarrow> moves (stamped t) (insert_item it)"
  "pa_updated_at (snd pa) = t \<Longrightarrow> moves (stamped t) (insert_payment pa)"
  by (rule movesI, auto simp: bindM_def assertM_apply insert_row_def stamped_I stamped_table_insert
        insert_customer_def insert_tier_def insert_subscription_def insert_billing_def insert_order_def insert_item_def
        insert_payment_def split: sum.splits if_splits)+

lemma updates_stamped:
  "(\<And>r. su_updated_at (f r) = t) \<Longrightarrow> moves (stamped t) (update_subscription k f)"
  "(\<And>r. ti_updated_at (g r) = t) \<Longrightarrow> moves (stamped t) (update_tier k' g)"
  "(\<And>r. or_updated_at (f' r) = t) \<Longrightarrow> moves (stamped t) (update_order k' f')"
  "(\<And>r. pa_updated_at (g' r) = t) \<Longrightarrow> moves (stamped t) (update_payment n g')"
  by (rule movesI, auto simp: bindM_def assertM_apply stamped_I stamped_table_update
        update_subscription_def update_tier_def update_order_def update_payment_def split: sum.splits if_splits option.splits)+

lemma upsert_stamped:
  assumes "moves (stamped t) (ins kr)" "\<And>r. moves (stamped t) (otherwise r kr)"
  shows "moves (stamped t) (upsert tab check ins otherwise kr)"
  unfolding upsert_def using assms by (auto intro!: stamping.rules)

lemma persist_each_stamped:
  assumes "\<And>r. r \<in> set rs \<Longrightarrow> moves (stamped t) (f r)"
  shows "moves (stamped t) (persist_each f rs)"
proof -
  have "moves (stamped t) (persist_from f m rs)" for m
    using assms by (induction rs arbitrary: m) (auto intro!: stamping.rules)
  then show ?thesis by (simp add: persist_each_def)
qed

lemma persists_stamped:
  "\<forall>c \<in> set cs. cu_created_at (snd c) = t \<Longrightarrow> moves (stamped t) (persist_customer_records cs)"
  "\<forall>s \<in> set ss. su_updated_at (snd s) = t \<Longrightarrow> moves (stamped t) (persist_subscription_records ss)"
  "\<forall>m \<in> set ms. ti_updated_at (snd m) = t \<Longrightarrow> moves (stamped t) (ensure_membership_tier_records ms)"
  "\<forall>m \<in> set ms. ti_updated_at (snd m) = t \<Longrightarrow> moves (stamped t) (persist_membership_tier_records ms)"
  "\<forall>p \<in> set ps. bp_updated_at (snd p) = t \<Longrightarrow> moves (stamped t) (persist_subscription_payments ps)"
  "or_updated_at (snd r) = t \<Longrightarrow> moves (stamped t) (persist_order r)"
  "\<forall>i \<in> set is. it_created_at (snd i) = t \<Longrightarrow> moves (stamped t) (persist_items is)"
  "\<forall>p \<in> set qs. pa_updated_at (snd p) = t \<Longrightarrow> moves (stamped t) (persist_payments qs)"
  unfolding persist_customer_records_def persist_subscription_records_def ensure_membership_tier_records_def
    persist_membership_tier_records_def persist_subscription_payments_def persist_order_def persist_items_def
    persist_payments_def change_subscription_def change_tier_def persist_subscription_payment_def Let_def
  by (auto intro!: stamping.rules persist_each_stamped upsert_stamped inserts_stamped updates_stamped)

lemma order_transition_stamped:
  assumes "instant (ot_mutation_time tr) = t"
  shows "moves (stamped t) (persist_order_transition tr)"
proof -
  have "os_updated_at d = t" if "order_state_after c s (ot_mutation_time tr) ev = Inr d" for c s ev d
    using that assms by (auto simp: order_state_after_def Let_def)
  then have "moves (stamped t) (store_order_state d)" if "order_state_after c s (ot_mutation_time tr) ev = Inr d" for c s ev d
    unfolding store_order_state_def using that by (auto intro!: updates_stamped)
  then show ?thesis unfolding persist_order_transition_def fetch_order_state_def
    by (auto intro!: stamping.rules)
qed

lemma payment_transition_stamped:
  assumes "instant (pt_mutation_time tr) = t"
  shows "moves (stamped t) (persist_payment_transition tr)"
  using assms unfolding persist_payment_transition_def fetch_payment_state_def store_payment_state_def
  by (auto intro!: stamping.rules updates_stamped simp: payment_state_after_def Let_def)

section \<open>The run's operations\<close>

definition world_step :: "time \<Rightarrow> gen_world \<Rightarrow> gen_world \<Rightarrow> bool" where
  "world_step t w w' \<longleftrightarrow> stamped t (gw_source w) (gw_source w') \<and> gw_generator_runs w' = gw_generator_runs w \<and>
     gw_seed_runs w' = gw_seed_runs w"

interpretation world_steps: effect_order "world_step t" for t
  by unfold_locales (auto simp: world_step_def intro: stamping.trans)

lemma on_source_step: "moves (stamped t) m \<Longrightarrow> moves (world_step t) (on_source m)"
  by (rule movesI) (auto simp: on_source_def world_step_def dest: movesD split: prod.splits)

lemma turn_step: "moves (world_step t) turn"
  by (auto simp: turn_def world_step_def split: list.splits intro!: world_steps.modify)

lemma on_pipeline_step: "moves (world_step t) (on_pipeline m)"
  unfolding on_pipeline_def
  by (rule world_steps.bind [OF turn_step], rule movesI) (auto simp: world_step_def split: prod.splits)

lemma counting_steps:
  "moves (world_step t) (add_count name n)" "moves (world_step t) (add_row row)"
  "moves (world_step t) (add_mutations name m)" "moves (world_step t) (add_subscription_counts m)"
  unfolding add_count_def add_row_def add_mutations_def add_subscription_counts_def
  by (auto intro!: world_steps.rules world_steps.modify simp: world_step_def)

lemmas step_rules = world_steps.rules world_steps.iter on_source_step on_pipeline_step counting_steps persists_stamped

lemma existing_orders_step: "moves (world_step (instant (gc_logical_date cfg))) (run_existing_order_transitions h cfg lease)"
proof -
  let ?t = "instant (gc_logical_date cfg)"
  have "moves (world_step ?t) (advance_payment cfg k s at n)" for k s at n
    unfolding advance_payment_def fetch_payment_state_def
    by (auto intro!: step_rules payment_transition_stamped stamping.rules simp: plan_payment_transition_def)
  then have "moves (world_step ?t) (advance_payments cfg k s at)" for k s at
    unfolding advance_payments_def by (auto intro!: step_rules)
  then have "moves (world_step ?t) (advance_order h cfg lease kr)" for kr
    unfolding advance_order_def fetch_order_state_def
    by (auto intro!: step_rules order_transition_stamped stamping.rules simp: plan_order_transition_def split: prod.splits option.splits)
  then show ?thesis unfolding run_existing_order_transitions_def by (auto intro!: step_rules)
qed

section \<open>New orders\<close>

definition bundle_stamped :: "time \<Rightarrow> order_bundle \<Rightarrow> bool" where
  "bundle_stamped t b \<longleftrightarrow> cu_created_at (snd (ob_customer b)) = t \<and> or_updated_at (snd (ob_order b)) = t \<and>
     (\<forall>i \<in> set (ob_items b). it_created_at (snd i) = t) \<and> (\<forall>p \<in> set (ob_payments b). pa_updated_at (snd p) = t)"

lemma new_customer_stamp: "new_customer_record h cfg n = Inr c \<Longrightarrow> cu_created_at (snd c) = instant (gc_logical_date cfg)"
  by (auto simp: new_customer_record_def new_order_customer_record_def Let_def split: sum.splits)

lemma new_bundle_stamped:
  assumes "new_order_bundle h cfg c catalog n = Inr b" "cu_created_at (snd c) = instant (gc_logical_date cfg)"
  shows "bundle_stamped (instant (gc_logical_date cfg)) b"
  using assms by (auto simp: new_order_bundle_def checked_bundle_def bundle_stamped_def new_order_row_def new_item_record_def
      new_payment_row_def with_payment_installments_def Let_def split: sum.splits)

lemma profile_bundle_stamped:
  assumes "bundle_for_profile h cfg c catalog n = Inr b" "cu_created_at (snd c) = instant (gc_logical_date cfg)"
  shows "bundle_stamped (instant (gc_logical_date cfg)) b"
proof (cases "gc_anomaly_profile cfg = ''late-arrival''")
  case True
  with assms obtain b' where b': "new_order_bundle h cfg c catalog n = Inr b'" and "\<exists>p e. b = b'\<lparr>ob_order := (fst (ob_order b'),
      (snd (ob_order b'))\<lparr>or_order_purchase_timestamp := p, or_order_estimated_delivery_date := e\<rparr>)\<rparr>"
    by (auto simp: bundle_for_profile_def late_order_bundle_def checked_bundle_def split: sum.splits)
  with new_bundle_stamped [OF b' assms(2)] show ?thesis by (auto simp: bundle_stamped_def)
next
  case False
  with assms new_bundle_stamped show ?thesis by (auto simp: bundle_for_profile_def)
qed

lemma persist_bundle_stamped:
  assumes "bundle_stamped t b"
  shows "moves (stamped t) (persist_order_bundle b)"
proof -
  have "ti_updated_at (snd tier) = t" if "new_membership_tier_record (ob_customer b) = Inr tier" for tier
    using that assms by (auto simp: new_membership_tier_record_def bundle_stamped_def Let_def)
  with assms show ?thesis unfolding persist_order_bundle_def bundle_stamped_def
    by (auto intro!: stamping.rules persists_stamped)
qed

lemma new_orders_step: "moves (world_step (instant (gc_logical_date cfg))) (create_new_orders h cfg lease catalog)"
proof -
  have "moves (world_step (instant (gc_logical_date cfg))) (create_new_order h cfg lease catalog n)" for n
    unfolding create_new_order_def add_mutation_counts_def
    by (auto intro!: step_rules persist_bundle_stamped dest!: profile_bundle_stamped new_customer_stamp simp del: fst_conv)
  then show ?thesis unfolding create_new_orders_def by (intro world_steps.iter)
qed

section \<open>Contracts and profiles\<close>

lemma checked_subscription_ok [simp]: "checked_subscription cfg r = Inr r' \<longleftrightarrow>
    utcoffset (gc_logical_date cfg) = Some 0 \<and> subscription_check r = Inr () \<and> r' = r"
  by (auto simp: checked_subscription_def)

lemma transition_stamp: "transition_subscription_record r s t = Inr r' \<Longrightarrow> su_updated_at r' = t"
  by (auto simp: transition_subscription_record_def Let_def split: if_splits)

lemma transition_records_stamp:
  assumes "subscription_transition_records cfg [kr] s = Inr rs" "(k', r') \<in> set rs"
  shows "su_updated_at r' = instant (gc_logical_date cfg)"
  using assms by (cases kr) (auto simp: subscription_transition_records_def Let_def dest: transition_stamp split: sum.splits)

lemma fetch_subscriptions_stamped: "moves (stamped t) (fetch_subscriptions p)"
  unfolding fetch_subscriptions_def by (auto intro!: stamping.rules)

lemma store_steps:
  "\<forall>x \<in> set rs. su_updated_at (snd x) = t \<Longrightarrow> moves (world_step t) (store_subscriptions rs)"
  "su_updated_at r = t \<Longrightarrow> moves (world_step t) (store_checked cfg k r)"
  unfolding store_subscriptions_def store_checked_def by (auto intro!: step_rules)

lemma plan_payment_stamp:
  "plan_subscription_payment h cfg k cycle attempt start forced = Inr (k', r) \<Longrightarrow> bp_updated_at r = instant (gc_logical_date cfg)"
  by (auto simp: plan_subscription_payment_def Let_def split: sum.splits)

lemma scan_transition_step: "moves (world_step (instant (gc_logical_date cfg))) (persist_scan_transition cfg kr s)"
  unfolding persist_scan_transition_def by (auto intro!: step_rules store_steps(1) dest: transition_records_stamp)

lemma bill_step: "moves (world_step (instant (gc_logical_date cfg))) (bill_and_transition h cfg kr forced)"
  unfolding bill_and_transition_def advance_active_billing_def Let_def
  by (cases kr) (auto intro!: step_rules store_steps scan_transition_step dest: plan_payment_stamp
      simp: advanced_contract_def retried_contract_def)

lemma scan_step: "moves (world_step (instant (gc_logical_date cfg))) (run_subscription_expiry_scan h cfg forced_id)"
proof -
  have "moves (world_step (instant (gc_logical_date cfg))) (scan_subscription h cfg forced_id kr)" for kr
    unfolding scan_subscription_def Let_def
    by (cases kr) (auto intro!: step_rules store_steps scan_transition_step bill_step simp: realigned_contract_def)
  then show ?thesis unfolding run_subscription_expiry_scan_def fetch_due_subscriptions_def
    by (auto intro!: step_rules fetch_subscriptions_stamped)
qed

lemma tier_change_stamp:
  assumes "membership_tier_change_records cfg [kr] n = Inr rs" "membership_tier n \<noteq> Inr (ti_membership_tier (snd kr))"
  shows "\<forall>x \<in> set rs. ti_updated_at (snd x) = instant (gc_logical_date cfg)"
  using assms by (cases kr) (auto simp: membership_tier_change_records_def Let_def split: sum.splits if_splits)

text \<open>The tier the profile asks for is the next one, so the selected row is never kept as it is.\<close>

lemma tier_profile_stamped: "moves (stamped (instant (gc_logical_date cfg))) (apply_membership_tier_change h cfg)"
proof (rule movesI)
  let ?t = "instant (gc_logical_date cfg)"
  fix db x db' assume run: "apply_membership_tier_change h cfg db = (x, db')"
  let ?cs = "tier_candidates ?t db"
  let ?cur = "?cs ! (selection h cfg ''membership-change-selection'' mod length ?cs)"
  let ?n = "if ti_membership_tier (snd ?cur) = ''BRONZE'' then 5 else 15"
  show "stamped ?t db db'"
  proof (cases "?cs = [] \<or> check_all tier_check ?cs \<noteq> Inr ()")
    case True
    with run show ?thesis by (auto simp: apply_membership_tier_change_def bindM_def assertM_apply split: sum.splits if_splits)
  next
    case False
    then have "?cur \<in> set ?cs" by simp
    then have "ti_membership_tier (snd ?cur) \<in> {''BRONZE'', ''SILVER''}" by (auto simp: tier_candidates_def)
    then have new: "membership_tier ?n \<noteq> Inr (ti_membership_tier (snd ?cur))" by (auto simp: membership_tier_def seq_def require_def)
    show ?thesis
    proof (cases "membership_tier_change_records cfg [?cur] ?n")
      case (Inl e)
      with run False show ?thesis by (auto simp: apply_membership_tier_change_def bindM_def assertM_apply Let_def split: sum.splits if_splits)
    next
      case (Inr rs)
      have "moves (stamped ?t) (persist_membership_tier_records rs)"
        using tier_change_stamp [OF Inr new] by (rule persists_stamped)
      then have "stamped ?t db (snd (persist_membership_tier_records rs db))" by (simp add: moves_def)
      moreover have "db' = snd (persist_membership_tier_records rs db)"
        using run False Inr
        by (auto simp: apply_membership_tier_change_def bindM_def assertM_apply Let_def split: sum.splits if_splits prod.splits)
      ultimately show ?thesis by simp
    qed
  qed
qed

lemma new_subscription_stamp: "new_subscription_record_for_customer h u d = Inr (k, r) \<Longrightarrow> su_updated_at r = instant d"
  by (auto simp: new_subscription_record_for_customer_def Let_def split: sum.splits)

lemma subscription_profile_stamped: "moves (stamped (instant (gc_logical_date cfg))) (apply_subscription_transition h cfg)"
  unfolding apply_subscription_transition_def start_subscription_contract_def Let_def
  by (auto intro!: stamping.rules persists_stamped dest: new_subscription_stamp transition_records_stamp)

lemma profile_step: "moves (world_step (instant (gc_logical_date cfg))) (apply_profile h cfg forced_id)"
  unfolding apply_profile_def
  by (auto intro!: step_rules tier_profile_stamped subscription_profile_stamped)

end
