(* ===== verification/GeneratorRuns.thy ===== *)
theory GeneratorRuns
  imports Stamps
begin

text \<open>
  Whole generator runs: the source is changed all at once or not at all, under the lease, once per
  inputs, and what a run reports is what its commit row says, whatever faults and kills came before.
\<close>

section \<open>The parts that leave a table alone\<close>

definition run_tables :: "gen_world \<Rightarrow> (uuid, generator_run_row) table \<times> (uuid, seed_run_row) table" where
  "run_tables w = (gw_generator_runs w, gw_seed_runs w)"

lemma keeps_step: "moves (world_step t) m \<Longrightarrow> keeps run_tables m"
  unfolding keeps_def moves_def world_step_def run_tables_def by (metis snd_conv)

lemma keeps_source [keeps_intros]: "keeps run_tables (on_source m)"
  by (auto simp: keeps_def on_source_def run_tables_def split: prod.splits)

lemma keeps_pipeline [keeps_intros]: "keeps run_tables (on_pipeline m)" "keeps gw_source (on_pipeline m)"
  by (auto simp: keeps_def on_pipeline_def bindM_def turn_def run_tables_def split: prod.splits list.splits)

lemma keeps_turn [keeps_intros]: "keeps run_tables turn" "keeps gw_source turn"
  by (auto simp: keeps_def turn_def run_tables_def split: list.splits)

lemma keeps_point [keeps_intros]: "keeps g (fault_point env p)"
  by (auto simp: keeps_def fault_point_def split: option.splits)

lemma keeps_at_pipeline [keeps_intros]: "keeps run_tables (at_pipeline env p m)" "keeps gw_source (at_pipeline env p m)"
  unfolding at_pipeline_def by (intro keeps_intros)+

lemma keeps_fence [keeps_intros]: "keeps run_tables (fence_commit env l)" "keeps gw_source (fence_commit env l)"
  unfolding fence_commit_def by (intro keeps_intros)+

lemma keeps_records [keeps_intros]:
  "keeps gw_source (record_started_generator_run rid cfg)"
  "keeps gw_source (record_finished_generator_run rid s counts hash msg)"
  unfolding record_started_generator_run_def record_finished_generator_run_def
  by (auto intro!: keeps_intros keeps_basic)

lemma keeps_mutate: "keeps run_tables (mutate_source h cfg lease rid)"
  unfolding mutate_source_def
  by (intro keeps_intros keeps_basic keeps_step [OF existing_orders_step] keeps_step [OF new_orders_step]
      keeps_step [OF scan_step] keeps_step [OF profile_step] keeps_step [OF counting_steps(2)])
    (auto simp: run_tables_def)

section \<open>The source transaction\<close>

definition new_commit :: "generator_config \<Rightarrow> (string \<times> int) list \<Rightarrow> string \<Rightarrow> commit_row" where
  "new_commit cfg counts hash = \<lparr>gcm_config = cfg, gcm_result_counts = counts, gcm_logical_hash = hash\<rparr>"

definition cursor_forward :: "time \<Rightarrow> source_db \<Rightarrow> bool" where
  "cursor_forward t db \<longleftrightarrow> (\<forall>name \<in> set MUTABLE_SOURCE_TABLES. \<forall>c.
     table_config name = Inr c \<longrightarrow> (\<forall>u \<in> set (column_times name (cursor_timestamp_column c) db). u < t))"

text \<open>What a committed run has done to the source: its stamped rows, and its commit row.\<close>

definition applied_run :: "generator_config \<Rightarrow> uuid \<Rightarrow> commit_row \<Rightarrow> source_db \<Rightarrow> source_db \<Rightarrow> bool" where
  "applied_run cfg rid c db db' \<longleftrightarrow> gcm_config c = cfg \<and> cursor_forward (instant (gc_logical_date cfg)) db \<and>
     committed_result cfg db = None \<and> map_of (generator_commits db) rid = None \<and>
     generator_commits db' = generator_commits db @ [(rid, c)] \<and>
     stamped (instant (gc_logical_date cfg)) db (db'\<lparr>generator_commits := generator_commits db\<rparr>)"

lemma sql_max_less: "(case sql_max xs of None \<Rightarrow> True | Some m \<Rightarrow> \<not> t \<le> m) \<longleftrightarrow> (\<forall>u \<in> set xs. u < t)"
  by (auto simp: sql_max_def not_le)

lemma table_cursor_forward:
  "assert_table_cursor_forward t name db = (Inr u, db') \<longleftrightarrow> db' = db \<and>
     (\<exists>c. table_config name = Inr c \<and> (\<forall>v \<in> set (column_times name (cursor_timestamp_column c) db). v < t))"
  by (auto simp: assert_table_cursor_forward_def bindM_ok sql_max_less)

lemma source_cursor_forward:
  assumes "assert_source_cursor_forward t db = (Inr u, db')"
  shows "db' = db" "cursor_forward t db"
proof -
  have "db' = db \<and> (\<forall>name \<in> set ns. \<forall>c. table_config name = Inr c \<longrightarrow>
      (\<forall>u \<in> set (column_times name (cursor_timestamp_column c) db). u < t))"
    if "iterM (assert_table_cursor_forward t) ns db = (Inr u, db')" for ns u
    using that by (induction ns) (auto simp: bindM_ok table_cursor_forward)
  with assms show "db' = db" "cursor_forward t db" by (auto simp: assert_source_cursor_forward_def cursor_forward_def)
qed

lemma record_commit_ok:
  "record_source_commit rid cfg counts hash db = (Inr u, db') \<longleftrightarrow>
     map_of (generator_commits db) rid = None \<and> committed_result cfg db = None \<and>
     db' = db\<lparr>generator_commits := generator_commits db @ [(rid, new_commit cfg counts hash)]\<rparr>"
  by (auto simp: record_source_commit_def bindM_ok insert_row_ok new_commit_def)

lemma committed_result_stamped: "stamped t db db' \<Longrightarrow> committed_result cfg db' = committed_result cfg db"
  by (simp add: committed_result_def stamped_def)

lemma mutate_source_applies:
  assumes "mutate_source h cfg lease rid w = (Inr (counts, hash), w')"
  shows "applied_run cfg rid (new_commit cfg counts hash) (gw_source w) (gw_source w')"
proof -
  let ?t = "instant (gc_logical_date cfg)"
  let ?forced = "if gc_anomaly_profile cfg = ''subscription-payment-failed''
     then bindM (on_source (select_due_subscription_for_failed_profile h cfg)) (\<lambda>k. returnM (Some k)) else returnM None"
  let ?row = "\<lambda>f. case f of None \<Rightarrow> returnM () | Some k \<Rightarrow> bindM (on_source (forced_failure_row k)) add_row"
  from assms obtain w1 w2 c w3 w4 w5 f w6 w7 w8 w9 where
    steps: "on_source (assert_source_cursor_forward ?t) w = (Inr (), w1)" "on_source fetch_order_catalog w1 = (Inr c, w2)"
      "w3 = w2\<lparr>gw_result_counts := empty_result_counts, gw_logical_rows := []\<rparr>"
      "run_existing_order_transitions h cfg lease w3 = (Inr (), w4)" "create_new_orders h cfg lease c w4 = (Inr (), w5)"
      "?forced w5 = (Inr f, w6)" "run_subscription_expiry_scan h cfg f w6 = (Inr (), w7)" "?row f w7 = (Inr (), w8)"
      "apply_profile h cfg f w8 = (Inr (), w9)" "on_source (record_source_commit rid cfg counts hash) w9 = (Inr (), w')"
    unfolding mutate_source_def by (auto simp: bindM_ok)
  from steps(1) obtain db0 where db0: "assert_source_cursor_forward ?t (gw_source w) = (Inr (), db0)" "w1 = w\<lparr>gw_source := db0\<rparr>"
    by (auto simp: on_source_ok)
  from source_cursor_forward [OF db0(1)] db0(2) have 1: "gw_source w1 = gw_source w" "gw_generator_runs w1 = gw_generator_runs w"
    "gw_seed_runs w1 = gw_seed_runs w" "cursor_forward ?t (gw_source w)" by simp_all
  have "moves (world_step ?t) (on_source fetch_order_catalog)"
    unfolding fetch_order_catalog_def by (auto intro!: step_rules stamping.rules)
  from movesD [OF this steps(2)] have 2: "world_step ?t w1 w2" .
  have 3: "world_step ?t w2 w3" by (simp add: steps(3) world_step_def)
  have "moves (world_step ?t) ?forced"
    unfolding select_due_subscription_for_failed_profile_def fetch_subscriptions_ordered_def
    by (auto intro!: step_rules stamping.rules fetch_subscriptions_stamped)
  from movesD [OF this steps(6)] have 6: "world_step ?t w5 w6" .
  have "moves (world_step ?t) (?row f)"
    unfolding forced_failure_row_def fetch_subscriptions_ordered_def
    by (auto intro!: step_rules stamping.rules fetch_subscriptions_stamped split: option.splits)
  from movesD [OF this steps(8)] have 8: "world_step ?t w7 w8" .
  note path = 2 3 movesD [OF existing_orders_step steps(4)] movesD [OF new_orders_step steps(5)] 6
    movesD [OF scan_step steps(7)] 8 movesD [OF profile_step steps(9)]
  have "world_step ?t w1 w9" using path by (meson world_steps.trans)
  then have st: "stamped ?t (gw_source w) (gw_source w9)" using 1 by (simp add: world_step_def)
  from steps(10) obtain db where db: "record_source_commit rid cfg counts hash (gw_source w9) = (Inr (), db)" "gw_source w' = db"
    by (auto simp: on_source_ok)
  from st have same: "generator_commits (gw_source w9) = generator_commits (gw_source w)" by (simp add: stamped_def)
  from db(1) same committed_result_stamped [OF st, of cfg] have
    "map_of (generator_commits (gw_source w)) rid = None" "committed_result cfg (gw_source w) = None"
    "db = (gw_source w9)\<lparr>generator_commits := generator_commits (gw_source w) @ [(rid, new_commit cfg counts hash)]\<rparr>"
    by (auto simp: record_commit_ok)
  with 1(4) st same db(2) show ?thesis
    by (simp add: applied_run_def new_commit_def) (simp add: stamped_def)
qed

text \<open>When the source has changed, the lease was held as it committed, and the commit row is there.\<close>

definition lease_holds :: "source_mutation_lease \<Rightarrow> gen_world \<Rightarrow> bool" where
  "lease_holds l w \<longleftrightarrow> is_ok (assert_source_mutation_lease l (gw_clock w) (gw_pipeline w))"

lemma fenced_ok: "fenced_source_commit l now (returnM ()) db = (Inr u, db') \<Longrightarrow>
    db' = db \<and> assert_source_mutation_lease l now db = (Inr (), db)"
  by (auto simp: fenced_source_commit_def transactionM_ok bindM_ok assert_source_mutation_lease_def read_lease_ok)

lemma on_pipeline_ok:
  assumes "on_pipeline m w = (Inr x, w')"
  obtains w1 db where "turn w = (Inr (), w1)" "m (gw_clock w1) (gw_pipeline w1) = (Inr x, db)" "w' = w1\<lparr>gw_pipeline := db\<rparr>"
proof -
  from assms obtain w1 where w1: "turn w = (Inr (), w1)" and r: "(case m (gw_clock w1) (gw_pipeline w1) of
      (r, db) \<Rightarrow> (r, w1\<lparr>gw_pipeline := db\<rparr>)) = (Inr x, w')" by (auto simp: on_pipeline_def bindM_ok)
  obtain y db where "m (gw_clock w1) (gw_pipeline w1) = (y, db)" by (cases "m (gw_clock w1) (gw_pipeline w1)")
  with w1 r that show ?thesis by auto
qed

lemma point_state: "snd (fault_point env p w) = w"
  by (simp add: fault_point_def split: option.splits)

lemma point_ok [simp]: "fault_point env p w = (Inr u, w') \<longleftrightarrow> ge_fault env p = None \<and> w' = w"
  by (auto simp: fault_point_def split: option.splits)

lemma fence_commit_ok:
  assumes "fence_commit env l w = (Inr u, w')"
  shows "lease_holds l w'" "gw_source w' = gw_source w"
proof -
  from assms have "on_pipeline (\<lambda>now. fenced_source_commit l now (returnM ())) w = (Inr (), w')"
    by (auto simp: fence_commit_def at_pipeline_def bindM_ok)
  then obtain w1 db where "fenced_source_commit l (gw_clock w1) (returnM ()) (gw_pipeline w1) = (Inr (), db)"
    "w' = w1\<lparr>gw_pipeline := db\<rparr>" by (rule on_pipeline_ok)
  then show "lease_holds l w'" by (auto simp: lease_holds_def is_ok_def dest!: fenced_ok)
  show "gw_source w' = gw_source w" using keepsD [OF keeps_fence(2) assms] .
qed

lemma committed_mutation_cases:
  assumes "committed_mutation env cfg lease rid w = (r, w')"
  shows "run_tables w' = run_tables w \<and>
    (gw_source w' = gw_source w \<and> (\<exists>e. r = Inl e) \<or>
     (\<exists>counts hash. applied_run cfg rid (new_commit cfg counts hash) (gw_source w) (gw_source w') \<and> lease_holds lease w' \<and>
        (r = Inr (counts, hash) \<or> (\<exists>e. r = Inl e))))"
proof -
  let ?m = "bindM (mutate_source (ge_hashing env) cfg lease rid) (\<lambda>r. bindM (fence_commit env lease) (\<lambda>_. returnM r))"
  obtain x w1 where m: "?m w = (x, w1)" by (cases "?m w")
  have "keeps run_tables ?m" by (intro keeps_intros keeps_basic keeps_mutate)
  from keepsD [OF this m] have rt: "run_tables w1 = run_tables w" .
  show ?thesis
  proof (cases x)
    case (Inl e)
    with m assms have "r = Inl e" "w' = w1\<lparr>gw_source := gw_source w\<rparr>"
      by (auto simp: committed_mutation_def source_transaction_def bindM_def)
    with rt show ?thesis by (simp add: run_tables_def)
  next
    case (Inr cd)
    obtain counts hash where cd: "cd = (counts, hash)" by (cases cd)
    from m Inr cd obtain w2 where "mutate_source (ge_hashing env) cfg lease rid w = (Inr (counts, hash), w2)"
      and fc: "fence_commit env lease w2 = (Inr (), w1)"
      by (auto simp: bindM_ok)
    then have ap: "applied_run cfg rid (new_commit cfg counts hash) (gw_source w) (gw_source w1)"
      using mutate_source_applies fence_commit_ok by metis
    have after: "committed_mutation env cfg lease rid w = bindM (fault_point env AfterCommit) (\<lambda>_. returnM (counts, hash)) w1"
      using m Inr cd by (simp add: committed_mutation_def source_transaction_def bindM_def)
    then have "w' = w1" "r = Inr (counts, hash) \<or> (\<exists>e. r = Inl e)"
      using assms by (auto simp: bindM_def fault_point_def split: option.splits)
    with rt ap fence_commit_ok(1) [OF fc] show ?thesis by blast
  qed
qed

section \<open>Runs and commits agree\<close>

text \<open>
  Every commit row has its run row, every successful run row has the commit it reports, and no two
  commits have the same inputs.
\<close>

definition run_matches :: "generator_run_row \<Rightarrow> commit_row \<Rightarrow> bool" where
  "run_matches r c \<longleftrightarrow> gr_config r = gcm_config c \<and> gr_result_counts r = Some (gcm_result_counts c) \<and>
     gr_logical_hash r = Some (gcm_logical_hash c)"

definition runs_agree :: "source_db \<Rightarrow> (uuid, generator_run_row) table \<Rightarrow> bool" where
  "runs_agree db runs \<longleftrightarrow> pk_ok (generator_commits db) \<and> pk_ok runs \<and>
     (\<forall>k c. map_of (generator_commits db) k = Some c \<longrightarrow> (\<exists>r. map_of runs k = Some r \<and> gr_config r = gcm_config c)) \<and>
     (\<forall>k r. map_of runs k = Some r \<and> gr_status r = ''SUCCESS'' \<longrightarrow>
        (\<exists>c. map_of (generator_commits db) k = Some c \<and> run_matches r c)) \<and>
     (\<forall>k c k' c'. map_of (generator_commits db) k = Some c \<and> map_of (generator_commits db) k' = Some c' \<and>
        same_inputs (gcm_config c) (gcm_config c') \<longrightarrow> k = k')"

definition generator_runs_inv :: "gen_world \<Rightarrow> bool" where
  "generator_runs_inv w \<longleftrightarrow> runs_agree (gw_source w) (gw_generator_runs w)"

definition reported :: "generator_config \<Rightarrow> generator_result \<Rightarrow> source_db \<Rightarrow> bool" where
  "reported cfg res db \<longleftrightarrow> (\<exists>c. map_of (generator_commits db) (rs_generator_run_id res) = Some c \<and>
     same_inputs (gcm_config c) cfg \<and> rs_result_counts res = gcm_result_counts c \<and>
     rs_logical_content_hash res = gcm_logical_hash c)"

lemma same_inputs_refl [simp]: "same_inputs c c"
  by (simp add: same_inputs_def)

lemma same_inputs_sym: "same_inputs c d \<Longrightarrow> same_inputs d c"
  by (simp add: same_inputs_def)

lemma committed_result_Some: "committed_result cfg db = Some (k, c) \<Longrightarrow> pk_ok (generator_commits db) \<Longrightarrow>
    map_of (generator_commits db) k = Some c \<and> same_inputs (gcm_config c) cfg"
  by (auto simp: committed_result_def find_Some_iff pk_ok_def) (metis nth_mem)

lemma committed_result_None: "committed_result cfg db = None \<Longrightarrow> map_of (generator_commits db) k = Some c \<Longrightarrow>
    \<not> same_inputs (gcm_config c) cfg"
  by (auto simp: committed_result_def find_None_iff dest: map_of_SomeD)

lemma runs_agreeD:
  assumes "runs_agree db runs"
  shows "pk_ok (generator_commits db)" "pk_ok runs"
    "map_of (generator_commits db) k = Some c \<Longrightarrow> \<exists>r. map_of runs k = Some r \<and> gr_config r = gcm_config c"
    "map_of runs k = Some r \<Longrightarrow> gr_status r = ''SUCCESS'' \<Longrightarrow> \<exists>c. map_of (generator_commits db) k = Some c \<and> run_matches r c"
    "map_of (generator_commits db) k = Some c \<Longrightarrow> map_of (generator_commits db) k' = Some c' \<Longrightarrow>
      same_inputs (gcm_config c) (gcm_config c') \<Longrightarrow> k = k'"
  using assms unfolding runs_agree_def by blast+

lemma runs_agreeI:
  assumes "pk_ok (generator_commits db)" "pk_ok runs"
    and "\<And>k c. map_of (generator_commits db) k = Some c \<Longrightarrow> \<exists>r. map_of runs k = Some r \<and> gr_config r = gcm_config c"
    and "\<And>k r. map_of runs k = Some r \<Longrightarrow> gr_status r = ''SUCCESS'' \<Longrightarrow>
      \<exists>c. map_of (generator_commits db) k = Some c \<and> run_matches r c"
    and "\<And>k c k' c'. map_of (generator_commits db) k = Some c \<Longrightarrow> map_of (generator_commits db) k' = Some c' \<Longrightarrow>
      same_inputs (gcm_config c) (gcm_config c') \<Longrightarrow> k = k'"
  shows "runs_agree db runs"
  unfolding runs_agree_def using assms by blast

lemma runs_agree_start:
  assumes "runs_agree db runs" "map_of runs rid = None" "gr_status r \<noteq> ''SUCCESS''"
  shows "runs_agree db (runs @ [(rid, r)])"
proof (rule runs_agreeI)
  note inv = runs_agreeD [OF assms(1)]
  have look: "map_of (runs @ [(rid, r)]) k = (if k = rid then Some r else map_of runs k)" for k
    using assms(2) by (auto simp: map_add_def split: option.splits)
  show "pk_ok (generator_commits db)" by (rule inv(1))
  show "pk_ok (runs @ [(rid, r)])" using inv(2) assms(2) by (auto simp: pk_ok_def map_of_eq_None_iff)
  show "\<exists>r'. map_of (runs @ [(rid, r)]) k = Some r' \<and> gr_config r' = gcm_config c"
    if "map_of (generator_commits db) k = Some c" for k c
    using inv(3) [OF that] assms(2) unfolding look by auto
  show "\<exists>c. map_of (generator_commits db) k = Some c \<and> run_matches r' c"
    if "map_of (runs @ [(rid, r)]) k = Some r'" "gr_status r' = ''SUCCESS''" for k r'
    using that assms(3) inv(4) unfolding look by (auto split: if_splits)
  show "k = k'" if "map_of (generator_commits db) k = Some c" "map_of (generator_commits db) k' = Some c'"
      "same_inputs (gcm_config c) (gcm_config c')" for k c k' c'
    using inv(5) that .
qed

definition finish_row :: "time \<Rightarrow> string \<Rightarrow> (string \<times> int) list option \<Rightarrow> string option \<Rightarrow> string option \<Rightarrow> generator_run_row \<Rightarrow> generator_run_row" where
  "finish_row t s counts hash msg r = r\<lparr>gr_finished_at := Some t, gr_result_counts := counts, gr_logical_hash := hash,
     gr_status := s, gr_error_message := msg\<rparr>"

lemma runs_agree_finish:
  assumes "runs_agree db runs"
    and "s = ''SUCCESS'' \<Longrightarrow> \<exists>c. map_of (generator_commits db) k = Some c \<and> counts = Some (gcm_result_counts c) \<and>
      hash = Some (gcm_logical_hash c)"
  shows "runs_agree db (update_rows (\<lambda>k' _. k' = k) (finish_row t s counts hash msg) runs)"
proof -
  let ?runs = "update_rows (\<lambda>k' _. k' = k) (finish_row t s counts hash msg) runs"
  have look: "map_of ?runs k' = (if k' = k then map_option (finish_row t s counts hash msg) (map_of runs k) else map_of runs k')" for k'
    by (simp add: map_of_update_rows option.map_id0 [unfolded id_def])
  have cfg: "gr_config (finish_row t s counts hash msg r) = gr_config r" for r by (simp add: finish_row_def)
  have "\<exists>c. map_of (generator_commits db) k' = Some c \<and> run_matches r c" if "map_of ?runs k' = Some r" "gr_status r = ''SUCCESS''" for k' r
  proof (cases "k' = k")
    case True
    with that obtain r0 where r0: "map_of runs k = Some r0" "r = finish_row t s counts hash msg r0" by (auto simp: look)
    with that have "s = ''SUCCESS''" by (simp add: finish_row_def)
    with assms(2) obtain c where c: "map_of (generator_commits db) k = Some c" "counts = Some (gcm_result_counts c)"
      "hash = Some (gcm_logical_hash c)" by blast
    moreover from assms(1) c(1) r0(1) have "gr_config r0 = gcm_config c" unfolding runs_agree_def by (metis option.inject)
    ultimately show ?thesis using True r0(2) by (simp add: run_matches_def finish_row_def)
  next
    case False
    with that assms(1) show ?thesis by (auto simp: look runs_agree_def)
  qed
  note ok = this and inv = runs_agreeD [OF assms(1)]
  show ?thesis
  proof (rule runs_agreeI)
    show "pk_ok (generator_commits db)" "pk_ok ?runs" using inv(1,2) by simp_all
    show "\<exists>r. map_of ?runs k' = Some r \<and> gr_config r = gcm_config c" if "map_of (generator_commits db) k' = Some c" for k' c
      using inv(3) [OF that] cfg unfolding look by auto
    show "k1 = k2" if "map_of (generator_commits db) k1 = Some c1" "map_of (generator_commits db) k2 = Some c2"
        "same_inputs (gcm_config c1) (gcm_config c2)" for k1 c1 k2 c2
      using inv(5) that .
  qed (rule ok)
qed

lemma runs_agree_commit:
  assumes "runs_agree db runs" "applied_run cfg rid c db db'" "map_of runs rid = Some r" "gr_config r = cfg" "gr_status r \<noteq> ''SUCCESS''"
  shows "runs_agree db' runs"
proof -
  from assms(2) have c: "gcm_config c = cfg" "committed_result cfg db = None" "map_of (generator_commits db) rid = None"
    "generator_commits db' = generator_commits db @ [(rid, c)]" by (auto simp: applied_run_def)
  have look: "map_of (generator_commits db') k = (if k = rid then Some c else map_of (generator_commits db) k)" for k
    using c(3,4) by (auto simp: map_add_def split: option.splits)
  have pk: "pk_ok (generator_commits db')" using c(3,4) assms(1) by (auto simp: runs_agree_def pk_ok_def map_of_eq_None_iff)
  have new: "\<not> same_inputs (gcm_config c') cfg" if "map_of (generator_commits db) k = Some c'" for k c'
    using committed_result_None [OF c(2) that] .
  note inv = runs_agreeD [OF assms(1)]
  show ?thesis
  proof (rule runs_agreeI)
    show "pk_ok (generator_commits db')" "pk_ok runs" using pk inv(2) by simp_all
    show "\<exists>r. map_of runs k = Some r \<and> gr_config r = gcm_config c1" if "map_of (generator_commits db') k = Some c1" for k c1
      using that inv(3) [of k c1] assms(3,4) c(1) unfolding look by (auto split: if_splits)
    show "\<exists>c. map_of (generator_commits db') k = Some c \<and> run_matches r1 c"
      if "map_of runs k = Some r1" "gr_status r1 = ''SUCCESS''" for k r1
      using inv(4) [OF that] that assms(3,5) unfolding look by auto
    show "k = k'" if "map_of (generator_commits db') k = Some c1" "map_of (generator_commits db') k' = Some c2"
        "same_inputs (gcm_config c1) (gcm_config c2)" for k c1 k' c2
      using that inv(5) [of k c1 k' c2] new [of k c1] new [of k' c2] c(1) unfolding look
      by (auto split: if_splits dest: same_inputs_sym)
  qed
qed

section \<open>Whole runs\<close>

lemma record_finished_cases:
  assumes "record_finished_generator_run rid s counts hash msg w = (x, w')"
  shows "gw_source w' = gw_source w" "gw_generator_runs w' = gw_generator_runs w \<or>
    (\<exists>t. gw_generator_runs w' = update_rows (\<lambda>k _. k = rid) (finish_row t s counts hash msg) (gw_generator_runs w))"
proof -
  show "gw_source w' = gw_source w" using keepsD [OF keeps_records(2) assms] .
  obtain w1 where t: "turn w = (Inr (), w1)" by (simp add: turn_def)
  then have "gw_generator_runs w1 = gw_generator_runs w" using keepsD [OF keeps_turn(1)] by (metis run_tables_def prod.inject)
  then show "gw_generator_runs w' = gw_generator_runs w \<or>
    (\<exists>t. gw_generator_runs w' = update_rows (\<lambda>k _. k = rid) (finish_row t s counts hash msg) (gw_generator_runs w))"
    using assms t unfolding record_finished_generator_run_def finish_row_def
    by (auto simp: bindM_def assertM_apply split: if_splits)
qed

lemma record_finished_agrees:
  assumes "record_finished_generator_run k s counts hash msg w = (x, w')" "generator_runs_inv w"
    and "s = ''SUCCESS'' \<Longrightarrow> \<exists>c. map_of (generator_commits (gw_source w)) k = Some c \<and> counts = Some (gcm_result_counts c) \<and>
      hash = Some (gcm_logical_hash c)"
  shows "generator_runs_inv w'"
  using record_finished_cases [OF assms(1)] runs_agree_finish assms(2,3) unfolding generator_runs_inv_def by metis

lemma record_at_cases: "record_at env p m w = (x, w') \<Longrightarrow> (\<exists>e. x = Inl e \<and> w' = w) \<or> m w = (x, w')"
  by (auto simp: record_at_def bindM_def fault_point_def split: option.splits)

lemma releasing_cases:
  assumes "releasing m release w = (x, w')" "keeps g release"
  obtains y w1 where "m w = (y, w1)" "g w' = g w1" "\<And>v. x = Inr v \<Longrightarrow> y = Inr v"
proof -
  obtain y w1 where m: "m w = (y, w1)" by (cases "m w")
  have k: "g w2 = g w1" if "release w1 = (z, w2)" for z w2 using keepsD [OF assms(2) that] .
  have s: "g w2 = g w1" if "suppress_exceptions release w1 = (z, w2)" for z w2
    using keepsD [OF keeps_suppress [OF assms(2)] that] .
  show thesis
  proof (cases y)
    case (Inl e)
    then have "g w' = g w1 \<and> (\<forall>v. x \<noteq> Inr v)" using assms(1) m s
      by (auto simp: releasing_def exceptM_def split: if_splits prod.splits sum.splits)
    then show thesis using that [OF m] by auto
  next
    case (Inr v)
    then have "bindM release (\<lambda>_. returnM v) w1 = (x, w')" using assms(1) m by (simp add: releasing_def exceptM_def)
    then have "g w' = g w1 \<and> (x = Inr v \<or> (\<exists>e. x = Inl e))" using k by (auto simp: bindM_def split: prod.splits sum.splits)
    then show thesis using that [OF m] Inr by auto
  qed
qed

text \<open>What a run may leave behind, whatever its outcome \<open>x\<close>.\<close>

definition run_outcome :: "generator_config \<Rightarrow> uuid \<Rightarrow> generator_result result \<Rightarrow> gen_world \<Rightarrow> gen_world \<Rightarrow> bool" where
  "run_outcome cfg rid x w w' \<longleftrightarrow> generator_runs_inv w' \<and>
     (gw_source w' = gw_source w \<or> (\<exists>c. applied_run cfg rid c (gw_source w) (gw_source w'))) \<and>
     (\<forall>res. x = Inr res \<longrightarrow> reported cfg res (gw_source w'))"

lemma runs_inv_frame: "generator_runs_inv w \<Longrightarrow> gw_source w' = gw_source w \<Longrightarrow> gw_generator_runs w' = gw_generator_runs w \<Longrightarrow> generator_runs_inv w'"
  by (simp add: generator_runs_inv_def)

lemma applied_commit: "applied_run cfg rid c db db' \<Longrightarrow> map_of (generator_commits db') rid = Some c \<and> gcm_config c = cfg"
  by (auto simp: applied_run_def map_add_def split: option.splits)

lemma committed_run_outcome:
  assumes "generator_runs_inv w" "map_of (gw_generator_runs w) rid = Some r" "gr_config r = cfg" "gr_status r \<noteq> ''SUCCESS''"
    and "bindM (committed_mutation env cfg lease rid) (\<lambda>(counts, hash).
        bindM (record_at env RecordSuccess (record_finished_generator_run rid ''SUCCESS'' (Some counts) (Some hash) None)) (\<lambda>_.
        returnM \<lparr>rs_generator_run_id = rid, rs_result_counts = counts, rs_logical_content_hash = hash,
          rs_reused_successful_run = False\<rparr>)) w = (x, w')"
  shows "run_outcome cfg rid x w w'"
proof -
  obtain y w1 where cm: "committed_mutation env cfg lease rid w = (y, w1)" by (cases "committed_mutation env cfg lease rid w")
  note cases = committed_mutation_cases [OF cm]
  from cases have runs: "gw_generator_runs w1 = gw_generator_runs w" by (simp add: run_tables_def)
  have inv1: "generator_runs_inv w1"
  proof (cases "gw_source w1 = gw_source w")
    case False
    with cases obtain c where "applied_run cfg rid c (gw_source w) (gw_source w1)" by blast
    from runs_agree_commit [OF _ this assms(2-4)] show ?thesis using assms(1) runs by (simp add: generator_runs_inv_def)
  qed (use assms(1) runs in \<open>simp add: generator_runs_inv_def\<close>)
  have src1: "gw_source w1 = gw_source w \<or> (\<exists>c. applied_run cfg rid c (gw_source w) (gw_source w1))" using cases by blast
  show ?thesis
  proof (cases y)
    case (Inl e)
    with assms(5) cm have "x = Inl e" "w' = w1" by (auto simp: bindM_def)
    with inv1 src1 show ?thesis by (simp add: run_outcome_def)
  next
    case (Inr p)
    obtain counts hash where p: "p = (counts, hash)" by (cases p)
    with Inr cases have ap: "applied_run cfg rid (new_commit cfg counts hash) (gw_source w) (gw_source w1)" by auto
    note row = applied_commit [OF ap]
    obtain z w2 where rec: "record_at env RecordSuccess (record_finished_generator_run rid ''SUCCESS'' (Some counts) (Some hash) None) w1 = (z, w2)"
      by (cases "record_at env RecordSuccess (record_finished_generator_run rid ''SUCCESS'' (Some counts) (Some hash) None) w1")
    have w2: "generator_runs_inv w2 \<and> gw_source w2 = gw_source w1"
      using record_at_cases [OF rec]
    proof
      assume r: "record_finished_generator_run rid ''SUCCESS'' (Some counts) (Some hash) None w1 = (z, w2)"
      from record_finished_agrees [OF r inv1] row record_finished_cases(1) [OF r] show ?thesis by (auto simp: new_commit_def)
    qed (use inv1 in simp)
    have fin: "w' = w2" "x = Inr res \<Longrightarrow> res = \<lparr>rs_generator_run_id = rid, rs_result_counts = counts,
        rs_logical_content_hash = hash, rs_reused_successful_run = False\<rparr>" for res
      using assms(5) cm Inr p rec by (auto simp: bindM_def split: sum.splits)
    show ?thesis unfolding run_outcome_def using fin w2 ap row
      by (auto simp: reported_def new_commit_def)
  qed
qed

lemma run_outcome_trans:
  assumes "gw_source w1 = gw_source w" "run_outcome cfg rid x w1 w2" "gw_source w' = gw_source w2" "generator_runs_inv w'"
    and "\<And>res. y = Inr res \<Longrightarrow> x = Inr res"
  shows "run_outcome cfg rid y w w'"
  using assms by (auto simp: run_outcome_def)

lemma new_generator_run_outcome:
  assumes "generator_runs_inv w" "new_generator_run env cfg lease rid w = (x, w')"
  shows "run_outcome cfg rid x w w'"
proof -
  let ?start = "record_at env StartRun (bindM turn (\<lambda>_. record_started_generator_run rid cfg))"
  let ?row = "\<lparr>gr_config = cfg, gr_status = ''RUNNING'', gr_finished_at = None, gr_result_counts = None, gr_logical_hash = None,
    gr_error_message = None\<rparr>"
  obtain z w1 where st: "?start w = (z, w1)" by (cases "?start w")
  have "keeps gw_source ?start" unfolding record_at_def by (intro keeps_intros)
  from keepsD [OF this st] have src1: "gw_source w1 = gw_source w" .
  have turn: "gw_generator_runs (snd (turn w)) = gw_generator_runs w"
    using keepsD [OF keeps_turn(1), of w] by (cases "turn w") (simp add: run_tables_def)
  have runs1: "(\<exists>e. z = Inl e) \<and> gw_generator_runs w1 = gw_generator_runs w \<or>
      map_of (gw_generator_runs w) rid = None \<and> gw_generator_runs w1 = gw_generator_runs w @ [(rid, ?row)]"
    using record_at_cases [OF st] turn
    by (auto simp: record_started_generator_run_def bindM_def turn_def insert_row_def split: if_splits sum.splits)
  then have inv1: "generator_runs_inv w1" using assms(1) src1 runs_agree_start [of "gw_source w" "gw_generator_runs w" rid ?row]
    by (auto simp: generator_runs_inv_def)
  show ?thesis
  proof (cases z)
    case (Inl e)
    with assms(2) st have "x = Inl e" "w' = w1" by (auto simp: new_generator_run_def bindM_def)
    with inv1 src1 show ?thesis by (simp add: run_outcome_def)
  next
    case (Inr u)
    with runs1 have row: "map_of (gw_generator_runs w1) rid = Some ?row" by auto
    from assms(2) st Inr have "exceptM
       (bindM (committed_mutation env cfg lease rid) (\<lambda>(counts, hash).
        bindM (record_at env RecordSuccess (record_finished_generator_run rid ''SUCCESS'' (Some counts) (Some hash) None)) (\<lambda>_.
        returnM \<lparr>rs_generator_run_id = rid, rs_result_counts = counts, rs_logical_content_hash = hash,
          rs_reused_successful_run = False\<rparr>)))
       (\<lambda>e. if py_exception e
            then record_at env RecordFailure (record_finished_generator_run rid ''FAILED'' None None (Some (exn_message e)))
            else returnM ()) w1 = (x, w')" by (simp add: new_generator_run_def)
    then show ?thesis
    proof (cases rule: exceptM_cases)
      case (1 v)
      from committed_run_outcome [OF inv1 row _ _ 1(1)] have "run_outcome cfg rid (Inr v) w1 w'" by simp
      then show ?thesis using src1 1(2) by (simp add: run_outcome_def)
    next
      case (2 e w2)
      from committed_run_outcome [OF inv1 row _ _ 2(1)] have o2: "run_outcome cfg rid (Inl e) w1 w2" by simp
      have "generator_runs_inv w' \<and> gw_source w' = gw_source w2"
      proof (cases "w' = w2 \<or> \<not> py_exception e")
        case True
        with 2(3) o2 show ?thesis by (auto simp: run_outcome_def)
      next
        case False
        with 2(3) obtain y where "record_at env RecordFailure (record_finished_generator_run rid ''FAILED'' None None (Some (exn_message e))) w2 = (y, w')"
          by auto
        from record_at_cases [OF this] False have
          r: "record_finished_generator_run rid ''FAILED'' None None (Some (exn_message e)) w2 = (y, w')" by auto
        show ?thesis using record_finished_agrees [OF r] record_finished_cases(1) [OF r] o2 by (simp add: run_outcome_def)
      qed
      then show ?thesis using run_outcome_trans [OF src1 o2] 2(2) by auto
    qed
  qed
qed

lemma run_under_lease_outcome:
  assumes "generator_runs_inv w" "run_under_lease env cfg lease rid w = (x, w')"
  shows "run_outcome cfg rid x w w'"
proof (cases "ge_fault env PrepareCommits = None \<and> ge_fault env ReadCommits = None")
  case False
  with assms show ?thesis by (auto simp: run_under_lease_def bindM_def fault_point_def run_outcome_def split: option.splits)
next
  case True
  then have p: "fault_point env PrepareCommits = returnM ()" "fault_point env ReadCommits = returnM ()" by (simp_all add: fault_point_def)
  show ?thesis
  proof (cases "committed_result cfg (gw_source w)")
    case None
    with p assms(2) have "new_generator_run env cfg lease rid w = (x, w')" by (simp add: run_under_lease_def bindM_def)
    then show ?thesis by (rule new_generator_run_outcome [OF assms(1)])
  next
    case (Some kc)
    obtain k c where kc: "kc = (k, c)" by (cases kc)
    have row: "map_of (generator_commits (gw_source w)) k = Some c" "same_inputs (gcm_config c) cfg"
      using committed_result_Some [of cfg "gw_source w" k c] Some kc assms(1) by (auto simp: generator_runs_inv_def runs_agree_def)
    let ?fin = "record_finished_generator_run k ''SUCCESS'' (Some (gcm_result_counts c)) (Some (gcm_logical_hash c)) None"
    obtain y w1 where rec: "record_at env RecordReused ?fin w = (y, w1)" by (cases "record_at env RecordReused ?fin w")
    have w1: "generator_runs_inv w1 \<and> gw_source w1 = gw_source w"
      using record_at_cases [OF rec]
    proof
      assume r: "?fin w = (y, w1)"
      from record_finished_agrees [OF r assms(1)] row record_finished_cases(1) [OF r] show ?thesis by auto
    qed (use assms(1) in simp)
    have "w' = w1" "x = Inr res \<Longrightarrow> res = \<lparr>rs_generator_run_id = k, rs_result_counts = gcm_result_counts c,
         rs_logical_content_hash = gcm_logical_hash c, rs_reused_successful_run = True\<rparr>" for res
      using assms(2) p Some kc rec by (auto simp: run_under_lease_def bindM_def split: sum.splits)
    with w1 row show ?thesis by (auto simp: run_outcome_def reported_def)
  qed
qed

lemma successful_result_reported:
  assumes "generator_runs_inv w" "successful_result cfg w = Some res"
  shows "reported cfg res (gw_source w)"
proof -
  from assms(2) obtain k r where kr: "(k, r) \<in> set (gw_generator_runs w)" "same_inputs (gr_config r) cfg" "gr_status r = ''SUCCESS''"
    and res: "(case (gr_result_counts r, gr_logical_hash r) of
        (Some counts, Some hash) \<Rightarrow> Some \<lparr>rs_generator_run_id = k, rs_result_counts = counts,
          rs_logical_content_hash = hash, rs_reused_successful_run = True\<rparr>
      | _ \<Rightarrow> None) = Some res"
    by (auto simp: successful_result_def filter_eq_Cons_iff split: list.splits) blast
  note inv = assms(1) [unfolded generator_runs_inv_def]
  from kr(1) runs_agreeD(2) [OF inv] have "map_of (gw_generator_runs w) k = Some r" by (simp add: pk_ok_def)
  from runs_agreeD(4) [OF inv this kr(3)] obtain c where "map_of (generator_commits (gw_source w)) k = Some c" "run_matches r c"
    by blast
  with kr(2) res show ?thesis by (auto simp: reported_def run_matches_def)
qed

lemma run_generator_outcome:
  assumes "generator_runs_inv w" "run_generator env cfg rid w = (x, w')"
  shows "run_outcome cfg rid x w w'"
proof -
  obtain w1 where t: "turn w = (Inr (), w1)" by (simp add: turn_def)
  have w1: "gw_source w1 = gw_source w" "gw_generator_runs w1 = gw_generator_runs w"
    using keepsD [OF keeps_turn(1) t] keepsD [OF keeps_turn(2) t] by (simp_all add: run_tables_def)
  with assms(1) have inv1: "generator_runs_inv w1" by (simp add: generator_runs_inv_def)
  have early: "run_outcome cfg rid x w w'" if "w' = w \<or> w' = w1" "\<And>res. x \<noteq> Inr res"
    using that assms(1) inv1 w1 by (auto simp: run_outcome_def)
  let ?acq = "at_pipeline env AcquireLease (\<lambda>now. acquire_source_mutation_lease GENERATOR_OWNER_TYPE rid now DEFAULT_LEASE_TTL)"
  let ?rel = "\<lambda>lease. at_pipeline env ReleaseLease (\<lambda>now. release_source_mutation_lease lease now)"
  show ?thesis
  proof (cases "ge_fault env ResolveSeed = None \<and> resolve_source_snapshot_id w1 = Inr (gc_source_snapshot_id cfg) \<and>
      ge_fault env PrepareMetadata = None \<and> ge_fault env ReadRuns = None")
    case False
    then have "(w' = w \<or> w' = w1) \<and> (\<forall>res. x \<noteq> Inr res)" using assms(2) t
      by (auto simp: run_generator_def bindM_def fault_point_def assertM_apply split: option.splits sum.splits if_splits)
    then show ?thesis using early by blast
  next
    case True
    then have run: "(case successful_result cfg w1 of Some r \<Rightarrow> returnM r
      | None \<Rightarrow> bindM ?acq (\<lambda>lease. releasing (run_under_lease env cfg lease rid) (?rel lease))) w1 = (x, w')"
      using assms(2) t by (auto simp: run_generator_def bindM_def fault_point_def assertM_apply split: option.splits sum.splits if_splits)
    show ?thesis
    proof (cases "successful_result cfg w1")
      case (Some r)
      with run have "x = Inr r" "w' = w1" by auto
      with Some inv1 w1 successful_result_reported [OF inv1 Some] show ?thesis by (simp add: run_outcome_def)
    next
      case None
      obtain y w2 where acq: "?acq w1 = (y, w2)" by (cases "?acq w1")
      have w2: "gw_source w2 = gw_source w" "gw_generator_runs w2 = gw_generator_runs w"
        using keepsD [OF keeps_at_pipeline(1) acq] keepsD [OF keeps_at_pipeline(2) acq] w1 by (simp_all add: run_tables_def)
      with assms(1) have inv2: "generator_runs_inv w2" by (simp add: generator_runs_inv_def)
      show ?thesis
      proof (cases y)
        case (Inl e)
        with run None acq have "x = Inl e" "w' = w2" by (auto simp: bindM_def)
        with inv2 w2 show ?thesis by (simp add: run_outcome_def)
      next
        case (Inr lease)
        let ?obs = "\<lambda>w. (run_tables w, gw_source w)"
        have keep: "keeps ?obs (?rel lease)"
          using keeps_at_pipeline [of env ReleaseLease "\<lambda>now. release_source_mutation_lease lease now"] by (simp add: keeps_def)
        from run None acq Inr have "releasing (run_under_lease env cfg lease rid) (?rel lease) w2 = (x, w')"
          by (simp add: bindM_def)
        then obtain z w3 where z: "run_under_lease env cfg lease rid w2 = (z, w3)" "?obs w' = ?obs w3" "\<And>v. x = Inr v \<Longrightarrow> z = Inr v"
          by (rule releasing_cases [OF _ keep]) blast
        from run_under_lease_outcome [OF inv2 z(1)] have oc: "run_outcome cfg rid z w2 w3" .
        moreover from oc z(2) have "generator_runs_inv w'" by (simp add: run_outcome_def generator_runs_inv_def run_tables_def)
        ultimately show ?thesis using z w2(1) by (intro run_outcome_trans [of w2 w cfg rid z w3]) auto
      qed
    qed
  qed
qed

text \<open>Any sequence of runs, each with its own faults and kills.\<close>

fun run_all :: "(gen_env \<times> generator_config \<times> uuid) list \<Rightarrow> gen_world \<Rightarrow> gen_world" where
  "run_all [] w = w"
| "run_all ((env, cfg, rid) # rs) w = run_all rs (snd (run_generator env cfg rid w))"

lemma run_all_inv: "generator_runs_inv w \<Longrightarrow> generator_runs_inv (run_all rs w)"
proof (induction rs arbitrary: w)
  case (Cons r rs)
  obtain env cfg rid where r: "r = (env, cfg, rid)" by (cases r)
  obtain x w1 where "run_generator env cfg rid w = (x, w1)" by (cases "run_generator env cfg rid w")
  with run_generator_outcome [OF Cons.prems this] Cons.IH r show ?case by (simp add: run_outcome_def)
qed simp

lemma applied_run_keeps_commit:
  "applied_run cfg rid c db db' \<Longrightarrow> map_of (generator_commits db) k = Some c' \<Longrightarrow> map_of (generator_commits db') k = Some c'"
  by (auto simp: applied_run_def map_add_def split: option.splits)

lemma run_all_keeps_commit:
  "generator_runs_inv w \<Longrightarrow> map_of (generator_commits (gw_source w)) k = Some c \<Longrightarrow>
     map_of (generator_commits (gw_source (run_all rs w))) k = Some c"
proof (induction rs arbitrary: w)
  case (Cons r rs)
  obtain env cfg rid where r: "r = (env, cfg, rid)" by (cases r)
  obtain x w1 where run: "run_generator env cfg rid w = (x, w1)" by (cases "run_generator env cfg rid w")
  from run_generator_outcome [OF Cons.prems(1) run] Cons.prems(2) have
    "generator_runs_inv w1" "map_of (generator_commits (gw_source w1)) k = Some c"
    by (auto simp: run_outcome_def dest: applied_run_keeps_commit)
  with Cons.IH run r show ?case by simp
qed simp

text \<open>Two runs with the same inputs, however far apart, report the same commit.\<close>

lemma same_inputs_trans: "same_inputs a b \<Longrightarrow> same_inputs b c \<Longrightarrow> same_inputs a c"
  by (simp add: same_inputs_def)

lemma reports_agree:
  assumes "generator_runs_inv w" "run_generator env1 cfg1 rid1 w = (Inr r1, w1)" "run_generator env2 cfg2 rid2 (run_all rs w1) = (Inr r2, w2)"
    and "same_inputs cfg1 cfg2"
  shows "rs_generator_run_id r2 = rs_generator_run_id r1 \<and> rs_result_counts r2 = rs_result_counts r1 \<and>
    rs_logical_content_hash r2 = rs_logical_content_hash r1 \<and> gw_source w2 = gw_source (run_all rs w1)"
proof -
  note o1 = run_generator_outcome [OF assms(1,2)]
  then have inv1: "generator_runs_inv w1" and inv: "generator_runs_inv (run_all rs w1)" using run_all_inv by (auto simp: run_outcome_def)
  from o1 obtain c1 where c1: "map_of (generator_commits (gw_source w1)) (rs_generator_run_id r1) = Some c1"
    "same_inputs (gcm_config c1) cfg1" "rs_result_counts r1 = gcm_result_counts c1" "rs_logical_content_hash r1 = gcm_logical_hash c1"
    by (auto simp: run_outcome_def reported_def)
  note kept = run_all_keeps_commit [OF inv1 c1(1), of rs]
  note o2 = run_generator_outcome [OF inv assms(3)]
  have same: "same_inputs (gcm_config c1) cfg2" using c1(2) assms(4) by (rule same_inputs_trans)
  have src: "gw_source w2 = gw_source (run_all rs w1)"
    using o2 committed_result_None [OF _ kept, of cfg2] same by (auto simp: run_outcome_def applied_run_def)
  from o2 obtain c2 where c2: "map_of (generator_commits (gw_source w2)) (rs_generator_run_id r2) = Some c2"
    "same_inputs (gcm_config c2) cfg2" "rs_result_counts r2 = gcm_result_counts c2" "rs_logical_content_hash r2 = gcm_logical_hash c2"
    by (auto simp: run_outcome_def reported_def)
  have "same_inputs (gcm_config c2) (gcm_config c1)" using c2(2) same same_inputs_sym same_inputs_trans by blast
  from runs_agreeD(5) [OF inv [unfolded generator_runs_inv_def] _ kept this] c2(1) src have "rs_generator_run_id r2 = rs_generator_run_id r1" by simp
  with c1 c2 kept src show ?thesis by simp
qed

end
