(* ===== verification/OrderRuns.thy ===== *)
theory OrderRuns
  imports GeneratorRuns
begin

text \<open>
  Orders and payments across whole runs: existing orders advance with their payments, new orders
  come with one pending payment, and no other part of a run touches either table.
\<close>

section \<open>The views\<close>

definition order_view :: "source_db \<Rightarrow> (string, order_row) table \<times> (string \<times> int, payment_row) table" where
  "order_view db = (orders db, order_payments db)"

definition payments_owned :: "source_db \<Rightarrow> bool" where
  "payments_owned db \<longleftrightarrow> (\<forall>k n. map_of (order_payments db) (k, n) \<noteq> None \<longrightarrow> map_of (orders db) k \<noteq> None)"

definition orders_ok :: "time \<Rightarrow> source_db \<Rightarrow> bool" where
  "orders_ok s db \<longleftrightarrow> order_tables_ok db \<and> orders_agree s db \<and> payments_owned db"

lemma orders_ok_view: "order_view db' = order_view db \<Longrightarrow> orders_ok s db' = orders_ok s db"
  by (simp add: order_view_def orders_ok_def order_tables_ok_def orders_agree_def order_agrees_def payments_owned_def)

lemma keeps_update [keeps_intros]:
  "keeps order_view (insert_customer c)" "keeps order_view (insert_tier ti)" "keeps order_view (update_tier k f)"
  "keeps order_view (insert_subscription su)" "keeps order_view (update_subscription sk g)"
  "keeps order_view (insert_billing bp)" "keeps order_view (insert_item it)"
  unfolding insert_customer_def insert_tier_def update_tier_def insert_subscription_def update_subscription_def
    insert_billing_def insert_item_def
  by (intro keeps_intros keeps_basic; simp add: order_view_def)+

lemma keeps_upsert [keeps_intros]:
  "keeps g (ins kr) \<Longrightarrow> (\<And>r. keeps g (otherwise r kr)) \<Longrightarrow> keeps g (upsert tab check ins otherwise kr)"
  unfolding upsert_def by (intro keeps_intros keeps_basic) auto

lemma keeps_persist_each [keeps_intros]: "(\<And>r. keeps g (f r)) \<Longrightarrow> keeps g (persist_each f rs)"
proof -
  assume f: "\<And>r. keeps g (f r)"
  have "keeps g (persist_from f m rs)" for m
    by (induction rs arbitrary: m) (auto intro!: keeps_intros keeps_basic f)
  then show ?thesis by (simp add: persist_each_def)
qed

lemma keeps_persists [keeps_intros]:
  "keeps order_view (persist_customer_records cs)" "keeps order_view (ensure_membership_tier_records ms)"
  "keeps order_view (persist_membership_tier_records ms)" "keeps order_view (persist_subscription_records ss)"
  "keeps order_view (persist_subscription_payments ps)" "keeps order_view (persist_items is)"
  unfolding persist_customer_records_def ensure_membership_tier_records_def persist_membership_tier_records_def
    persist_subscription_records_def persist_subscription_payments_def persist_items_def
    change_tier_def change_subscription_def persist_subscription_payment_def Let_def
  by (intro keeps_intros keeps_basic)+

section \<open>New orders\<close>

text \<open>A bundle as the run plans it: a created order with one pending payment.\<close>

definition fresh_bundle :: "order_bundle \<Rightarrow> bool" where
  "fresh_bundle b \<longleftrightarrow> (let (k, r) = ob_order b in
     or_order_status r = ''created'' \<and> or_order_approved_at r = None \<and> or_order_delivered_carrier_date r = None \<and>
     or_order_delivered_customer_date r = None \<and>
     (\<exists>p. ob_payments b = [((k, 1), p)] \<and> pa_payment_status p = ''pending''))"

lemma new_bundle_fresh: "new_order_bundle h cfg c catalog n = Inr b \<Longrightarrow> fresh_bundle b"
  by (auto simp: new_order_bundle_def checked_bundle_def fresh_bundle_def new_order_row_def
      new_payment_row_def with_payment_installments_def Let_def split: sum.splits)

lemma profile_bundle_fresh:
  assumes "bundle_for_profile h cfg c catalog n = Inr b"
  shows "fresh_bundle b"
proof (cases "gc_anomaly_profile cfg = ''late-arrival''")
  case True
  with assms obtain b' where b': "new_order_bundle h cfg c catalog n = Inr b'" and "\<exists>p e. b = b'\<lparr>ob_order := (fst (ob_order b'),
      (snd (ob_order b'))\<lparr>or_order_purchase_timestamp := p, or_order_estimated_delivery_date := e\<rparr>)\<rparr>"
    by (auto simp: bundle_for_profile_def late_order_bundle_def checked_bundle_def split: sum.splits)
  with new_bundle_fresh [OF b'] show ?thesis by (auto simp: fresh_bundle_def split: prod.splits)
next
  case False
  with assms new_bundle_fresh show ?thesis by (auto simp: bundle_for_profile_def)
qed

lemma persist_order_ok:
  assumes "persist_order (k, r) db = (Inr m, db')"
  shows "map_of (orders db) k = Some r \<and> db' = db \<or>
    map_of (orders db) k = None \<and> order_row_ok r \<and> db' = db\<lparr>orders := orders db @ [(k, r)]\<rparr>"
  using assms by (auto simp: persist_order_def persist_each_def upsert_def bindM_ok insert_order_def insert_row_ok
      split: option.splits if_splits)

lemma persist_payment_ok:
  assumes "persist_payments [(kn, p)] db = (Inr m, db')"
  shows "map_of (order_payments db) kn = Some p \<and> db' = db \<or>
    map_of (order_payments db) kn = None \<and> payment_row_ok (snd kn) p \<and>
      db' = db\<lparr>order_payments := order_payments db @ [(kn, p)]\<rparr>"
  using assms by (auto simp: persist_payments_def persist_each_def upsert_def bindM_ok insert_payment_def insert_row_ok
      split: option.splits if_splits)

lemma map_of_snoc: "map_of t k = None \<Longrightarrow> map_of (t @ [(k, r)]) k' = (if k' = k then Some r else map_of t k')"
  by (auto simp: map_add_def split: option.splits)

lemma pk_snoc: "pk_ok t \<Longrightarrow> map_of t k = None \<Longrightarrow> pk_ok (t @ [(k, r)])"
  by (auto simp: pk_ok_def map_of_eq_None_iff)

lemma new_order_agrees:
  assumes "orders_ok s db" "map_of (orders db) k = Some r \<and> db1 = db \<or>
      map_of (orders db) k = None \<and> order_row_ok r \<and> db1 = db\<lparr>orders := orders db @ [(k, r)]\<rparr>"
    and "map_of (order_payments db1) kn = Some p \<and> db2 = db1 \<or>
      map_of (order_payments db1) kn = None \<and> payment_row_ok (snd kn) p \<and>
      db2 = db1\<lparr>order_payments := order_payments db1 @ [(kn, p)]\<rparr>"
    and "kn = (k, 1)" "or_order_status r = ''created''" "timeline_ok r" "pa_payment_status p = ''pending''"
  shows "orders_ok s db2"
proof -
  from assms(1) have ok: "order_tables_ok db" "orders_agree s db" "payments_owned db" by (auto simp: orders_ok_def)
  have os: "map_of (orders db2) k' = (if k' = k then Some r else map_of (orders db) k')" for k'
    using assms(2,3) by (auto simp: map_of_snoc split: option.splits)
  have ps: "map_of (order_payments db2) kn' = (if kn' = kn then Some p else map_of (order_payments db) kn')" for kn'
    using assms(2,3) by (auto simp: map_of_snoc split: option.splits)
  have "order_tables_ok db2" using ok(1) assms(2,3) by (auto simp: order_tables_ok_def pk_snoc)
  moreover have "payments_owned db2" using ok(3) assms(4) unfolding payments_owned_def os ps by auto
  moreover have "orders_agree s db2"
    unfolding orders_agree_def
  proof (intro allI impI)
    fix k' r' assume r': "map_of (orders db2) k' = Some r' \<and> s < or_created_at r'"
    show "order_agrees db2 k' r'"
    proof (cases "k' = k")
      case True
      with r' os have r: "r' = r" by simp
      have "pa_payment_status q = ''pending''" if "map_of (order_payments db2) (k, n) = Some q" for n q
      proof (cases "(k, n) = kn")
        case False
        with that have q: "map_of (order_payments db) (k, n) = Some q" by (simp add: ps)
        with ok(3) have "map_of (orders db) k \<noteq> None" by (auto simp: payments_owned_def)
        with assms(2) have "map_of (orders db) k = Some r" by auto
        with ok(2) r r' True have "order_agrees db k r" by (auto simp: orders_agree_def)
        with q assms(5) show ?thesis by (auto simp: order_agrees_def payment_matches_def)
      qed (use that assms(7) ps in simp)
      then show ?thesis using True r assms(4-6) ps [of "(k, 1)"] by (auto simp: order_agrees_def payment_matches_def)
    next
      case False
      with r' ok(2) os have "order_agrees db k' r'" by (auto simp: orders_agree_def)
      with False assms(4) ps show ?thesis by (simp add: order_agrees_def)
    qed
  qed
  ultimately show ?thesis by (simp add: orders_ok_def)
qed

lemma persist_bundle_orders:
  assumes "persist_order_bundle b db = (Inr m, db')" "fresh_bundle b" "orders_ok s db"
  shows "orders_ok s db'"
proof -
  obtain k r where kr: "ob_order b = (k, r)" by (cases "ob_order b")
  with assms(2) obtain p where b: "ob_payments b = [((k, 1), p)]" "pa_payment_status p = ''pending''" "or_order_status r = ''created''"
    and tl: "timeline_ok r"
    by (auto simp: fresh_bundle_def timeline_ok_def reached_def not_before_def in_order_def not_after_def)
  from assms(1) b(1) kr obtain c db1 ti t db2 o1 db3 i db4 p1 where
    c: "persist_customer_records [ob_customer b] db = (Inr c, db1)" and t: "ensure_membership_tier_records [ti] db1 = (Inr t, db2)"
    and ord: "persist_order (k, r) db2 = (Inr o1, db3)" and i: "persist_items (ob_items b) db3 = (Inr i, db4)"
    and p: "persist_payments [((k, 1), p)] db4 = (Inr p1, db')"
    by (auto simp: persist_order_bundle_def bindM_ok)
  have "order_view db2 = order_view db" using keepsD [OF keeps_persists(1) c] keepsD [OF keeps_persists(2) t] by simp
  with assms(3) have ok2: "orders_ok s db2" using orders_ok_view by blast
  have v: "order_view db4 = order_view db3" using keepsD [OF keeps_persists(6) i] .
  from persist_payment_ok [OF p] v have pay: "map_of (order_payments db3) (k, 1) = Some p \<and> order_view db' = order_view db3 \<or>
      map_of (order_payments db3) (k, 1) = None \<and> payment_row_ok 1 p \<and>
      order_view db' = order_view (db3\<lparr>order_payments := order_payments db3 @ [((k, 1), p)]\<rparr>)"
    by (auto simp: order_view_def)
  define db5 where "db5 = (if map_of (order_payments db3) (k, 1) = None then db3\<lparr>order_payments := order_payments db3 @ [((k, 1), p)]\<rparr> else db3)"
  from pay have "map_of (order_payments db3) (k, 1) = Some p \<and> db5 = db3 \<or>
      map_of (order_payments db3) (k, 1) = None \<and> payment_row_ok (snd (k, 1 :: int)) p \<and>
      db5 = db3\<lparr>order_payments := order_payments db3 @ [((k, 1), p)]\<rparr>" and v5: "order_view db' = order_view db5"
    by (auto simp: db5_def)
  from new_order_agrees [OF ok2 persist_order_ok [OF ord] this(1) refl b(3) tl b(2)] v5 show ?thesis
    using orders_ok_view by blast
qed

section \<open>A whole transaction\<close>

text \<open>What the orders of a world satisfy, relative to its last seed, and the operations that keep it.\<close>

definition world_orders :: "gen_world \<Rightarrow> bool" where
  "world_orders w \<longleftrightarrow> (case latest_seed w of None \<Rightarrow> True | Some s \<Rightarrow> orders_ok (sd_seeded_at s) (gw_source w))"

definition orders_stay :: "gen_world \<Rightarrow> gen_world \<Rightarrow> bool" where
  "orders_stay w w' \<longleftrightarrow> gw_seed_runs w' = gw_seed_runs w \<and> (world_orders w \<longrightarrow> world_orders w')"

interpretation orders_stay: effect_order orders_stay
  by unfold_locales (auto simp: orders_stay_def)

lemma latest_seed_frame: "gw_seed_runs w' = gw_seed_runs w \<Longrightarrow> latest_seed w' = latest_seed w"
  by (simp add: latest_seed_def)

lemma orders_stay_view:
  "gw_seed_runs w' = gw_seed_runs w \<Longrightarrow> order_view (gw_source w') = order_view (gw_source w) \<Longrightarrow> orders_stay w w'"
  using orders_ok_view [of "gw_source w'" "gw_source w"] latest_seed_frame [of w' w]
  by (simp add: orders_stay_def world_orders_def split: option.splits)

lemma source_stays: "keeps order_view m \<Longrightarrow> moves orders_stay (on_source m)"
  by (rule movesI) (auto simp: on_source_def intro!: orders_stay_view dest: keepsD split: prod.splits)

lemma other_stays:
  "moves orders_stay turn" "moves orders_stay (on_pipeline m)" "moves orders_stay (fault_point env p)"
  "moves orders_stay (add_count name n)" "moves orders_stay (add_row row)" "moves orders_stay (add_mutations name mr)"
  "moves orders_stay (add_subscription_counts mr)"
proof -
  have turn: "orders_stay w (snd (turn w))" for w
    by (auto simp: turn_def intro!: orders_stay_view split: list.splits)
  then show "moves orders_stay turn" by (simp add: moves_def)
  then show "moves orders_stay (on_pipeline m)"
    unfolding on_pipeline_def by (rule orders_stay.bind) (auto intro!: movesI orders_stay_view split: prod.splits)
  show "moves orders_stay (fault_point env p)" by (auto simp: fault_point_def intro!: orders_stay.rules split: option.splits)
  have count: "moves orders_stay (add_count name n)" for name n
    unfolding add_count_def by (auto intro!: orders_stay.modify orders_stay_view)
  then show "moves orders_stay (add_count name n)" "moves orders_stay (add_mutations name mr)" "moves orders_stay (add_subscription_counts mr)"
    unfolding add_mutations_def add_subscription_counts_def by (auto intro!: orders_stay.rules)
  show "moves orders_stay (add_row row)" unfolding add_row_def by (auto intro!: orders_stay.modify orders_stay_view)
qed

lemmas stay_rules = orders_stay.rules orders_stay.iter source_stays other_stays

lemma keeps_reads [keeps_intros]:
  "keeps g (fetch_subscriptions p)" "keeps g fetch_order_catalog"
  unfolding fetch_subscriptions_def fetch_order_catalog_def by (intro keeps_intros keeps_basic)+

lemma keeps_profiles [keeps_intros]:
  "keeps order_view (apply_membership_tier_change h cfg)" "keeps order_view (apply_subscription_transition h cfg)"
  unfolding apply_membership_tier_change_def apply_subscription_transition_def start_subscription_contract_def Let_def
  by (auto intro!: keeps_intros keeps_basic split: prod.splits)

lemma scan_stays: "moves orders_stay (run_subscription_expiry_scan h cfg forced_id)"
proof -
  have store: "moves orders_stay (store_subscriptions rs)" "moves orders_stay (store_checked cfg k r)" for rs k r
    unfolding store_subscriptions_def store_checked_def by (auto intro!: stay_rules keeps_persists)
  have trans: "moves orders_stay (persist_scan_transition cfg kr s)" for kr s
    unfolding persist_scan_transition_def by (auto intro!: stay_rules store)
  have bill: "moves orders_stay (bill_and_transition h cfg kr forced)" for kr forced
    unfolding bill_and_transition_def advance_active_billing_def Let_def
    by (cases kr) (auto intro!: stay_rules store trans keeps_persists)
  have "moves orders_stay (scan_subscription h cfg forced_id kr)" for kr
    unfolding scan_subscription_def Let_def by (cases kr) (auto intro!: stay_rules store trans bill)
  then show ?thesis unfolding run_subscription_expiry_scan_def fetch_due_subscriptions_def
    by (auto intro!: stay_rules keeps_reads)
qed

lemma profile_stays: "moves orders_stay (apply_profile h cfg forced_id)"
  unfolding apply_profile_def by (auto intro!: stay_rules keeps_profiles)

text \<open>
  Storing a bundle leaves the invariant only at its end: a failure in the middle is undone by the
  transaction. \<open>yields R m\<close> says what \<open>m\<close> does when it succeeds.
\<close>

definition yields :: "('s \<Rightarrow> 's \<Rightarrow> bool) \<Rightarrow> ('s, 'a) op \<Rightarrow> bool" where
  "yields R m \<longleftrightarrow> (\<forall>s x s'. m s = (Inr x, s') \<longrightarrow> R s s')"

lemma yieldsI: "(\<And>s x s'. m s = (Inr x, s') \<Longrightarrow> R s s') \<Longrightarrow> yields R m"
  by (simp add: yields_def)

lemma yieldsD: "yields R m \<Longrightarrow> m s = (Inr x, s') \<Longrightarrow> R s s'"
  by (simp add: yields_def)

context effect_order
begin

lemma yields_moves: "moves R m \<Longrightarrow> yields R m"
  by (auto simp: yields_def dest: movesD)

lemma yields_bind:
  assumes "yields R m" "\<And>x s s'. m s = (Inr x, s') \<Longrightarrow> yields R (f x)"
  shows "yields R (bindM m f)"
proof (rule yieldsI)
  fix s y s' assume "bindM m f s = (Inr y, s')"
  then obtain x s1 where "m s = (Inr x, s1)" "f x s1 = (Inr y, s')" by (auto simp: bindM_ok)
  with assms show "R s s'" by (meson trans yieldsD)
qed

lemma yields_iter: "(\<And>x. yields R (f x)) \<Longrightarrow> yields R (iterM f xs)"
  by (induction xs) (simp_all add: yields_moves basic yields_bind)

end

lemma bundle_yields: "fresh_bundle b \<Longrightarrow> yields orders_stay (on_source (persist_order_bundle b))"
  by (rule yieldsI) (auto simp: on_source_ok orders_stay_def world_orders_def latest_seed_def
      intro: persist_bundle_orders split: option.splits list.splits)

lemma new_orders_yield: "yields orders_stay (create_new_orders h cfg lease catalog)"
proof -
  have counts: "moves orders_stay (add_mutation_counts r)" for r
    unfolding add_mutation_counts_def by (auto intro!: stay_rules)
  have "yields orders_stay (create_new_order h cfg lease catalog n)" for n
    unfolding create_new_order_def
    by (auto intro!: orders_stay.yields_bind bundle_yields orders_stay.yields_moves [OF counts]
        orders_stay.yields_moves [OF other_stays(2)] orders_stay.yields_moves [OF other_stays(5)]
        orders_stay.yields_moves [OF orders_stay.basic(3)] dest: profile_bundle_fresh)
  then show ?thesis unfolding create_new_orders_def by (rule orders_stay.yields_iter)
qed

section \<open>Existing orders\<close>

lemma table_times:
  assumes "cursor_forward t db"
  shows "map_of (orders db) k = Some r \<Longrightarrow> or_updated_at r < t" "map_of (order_payments db) kn = Some p \<Longrightarrow> pa_updated_at p < t"
proof -
  have cols: "table_config ''orders'' = Inr ORDERS_TABLE" "table_config ''order_payments'' = Inr ORDER_PAYMENTS_TABLE"
    by code_simp+
  have cur: "cursor_timestamp_column ORDERS_TABLE = ''updated_at''" "cursor_timestamp_column ORDER_PAYMENTS_TABLE = ''updated_at''"
    by (simp_all add: ORDERS_TABLE_def ORDER_PAYMENTS_TABLE_def)
  have "\<forall>u \<in> set (column_times ''orders'' ''updated_at'' db). u < t" "\<forall>u \<in> set (column_times ''order_payments'' ''updated_at'' db). u < t"
    using assms cols cur by (auto simp: cursor_forward_def MUTABLE_SOURCE_TABLES_def)
  then show "map_of (orders db) k = Some r \<Longrightarrow> or_updated_at r < t" "map_of (order_payments db) kn = Some p \<Longrightarrow> pa_updated_at p < t"
    by (auto simp: column_times_def dest!: map_of_SomeD)
qed

lemma cursor_forward_before: "cursor_forward t db \<Longrightarrow> source_before t db"
  using table_times by (auto simp: source_before_def)

lemma existing_orders_stay:
  assumes "run_existing_order_transitions h cfg l w = (Inr u, w')" "cursor_forward (instant (gc_logical_date cfg)) (gw_source w)"
    and "utcoffset (gc_logical_date cfg) = Some 0" "1 \<le> gc_progress_time_scale cfg"
  shows "orders_stay w w'"
proof -
  have seeds: "gw_seed_runs w' = gw_seed_runs w" using movesD [OF existing_orders_step assms(1)] by (simp add: world_step_def)
  have "world_orders w'" if w: "world_orders w"
  proof (cases "latest_seed w")
    case None
    with latest_seed_frame [OF seeds] show ?thesis by (simp add: world_orders_def)
  next
    case (Some s)
    with w have ok: "order_tables_ok (gw_source w)" "orders_agree (sd_seeded_at s) (gw_source w)" "payments_owned (gw_source w)"
      by (simp_all add: world_orders_def orders_ok_def)
    from existing_orders_result [OF Some refl ok(1,2) cursor_forward_before [OF assms(2)] assms(3,4), of l h] assms(1) have
      w': "order_tables_ok (gw_source w')" "orders_agree (sd_seeded_at s) (gw_source w')"
        "advanced_all h cfg (progress_candidates (sd_seeded_at s) (gw_source w)) (gw_source w) (gw_source w')" by auto
    have "payments_owned (gw_source w')"
      unfolding payments_owned_def
    proof (intro allI impI)
      fix k n assume p: "map_of (order_payments (gw_source w')) (k, n) \<noteq> None"
      show "map_of (orders (gw_source w')) k \<noteq> None"
      proof (cases "k \<in> fst ` set (progress_candidates (sd_seeded_at s) (gw_source w))")
        case True
        with w'(3) show ?thesis by (fastforce simp: advanced_all_def)
      next
        case False
        with w'(3) p ok(3) show ?thesis by (auto simp: advanced_all_def payments_owned_def)
      qed
    qed
    with w' Some latest_seed_frame [OF seeds] show ?thesis by (simp add: world_orders_def orders_ok_def)
  qed
  with seeds show ?thesis by (simp add: orders_stay_def)
qed

section \<open>Whole runs\<close>

definition config_ok :: "generator_config \<Rightarrow> bool" where
  "config_ok cfg \<longleftrightarrow> utcoffset (gc_logical_date cfg) = Some 0 \<and> 1 \<le> gc_progress_time_scale cfg"

lemma parsed_config_ok: "config_from_values snapshot seed date n profile version scale = Inr cfg \<Longrightarrow> config_ok cfg"
  using config_from_values_ok config_checked(4) by (auto simp: config_ok_def)

lemma mutate_source_stays:
  assumes "config_ok cfg" "mutate_source h cfg lease rid w = (Inr r, w')"
  shows "orders_stay w w'"
proof -
  let ?t = "instant (gc_logical_date cfg)"
  let ?later = "\<lambda>c. bindM (create_new_orders h cfg lease c) (\<lambda>_.
     bindM (if gc_anomaly_profile cfg = ''subscription-payment-failed''
            then bindM (on_source (select_due_subscription_for_failed_profile h cfg)) (\<lambda>k. returnM (Some k))
            else returnM None) (\<lambda>forced_id.
     bindM (run_subscription_expiry_scan h cfg forced_id) (\<lambda>_.
     bindM (case forced_id of None \<Rightarrow> returnM () | Some k \<Rightarrow> bindM (on_source (forced_failure_row k)) add_row) (\<lambda>_.
     bindM (apply_profile h cfg forced_id) (\<lambda>_.
     bindM (getM (content_value cfg)) (\<lambda>content.
     bindM (liftM (logical_hash h content)) (\<lambda>hash.
     bindM (getM gw_result_counts) (\<lambda>counts.
     bindM (on_source (record_source_commit rid cfg counts hash)) (\<lambda>_.
     returnM (counts, hash))))))))))"
  from assms(2) obtain w1 w2 c w3 w4 where
    steps: "on_source (assert_source_cursor_forward ?t) w = (Inr (), w1)" "on_source fetch_order_catalog w1 = (Inr c, w2)"
      "w3 = w2\<lparr>gw_result_counts := empty_result_counts, gw_logical_rows := []\<rparr>"
      "run_existing_order_transitions h cfg lease w3 = (Inr (), w4)"
    and later: "?later c w4 = (Inr r, w')"
    unfolding mutate_source_def by (auto simp: bindM_ok simp del: split_paired_All split_paired_Ex)
  from steps(1) obtain db0 where db0: "assert_source_cursor_forward ?t (gw_source w) = (Inr (), db0)" "w1 = w\<lparr>gw_source := db0\<rparr>"
    by (auto simp: on_source_ok)
  with source_cursor_forward [OF db0(1)] have 1: "w1 = w" "cursor_forward ?t (gw_source w)" by simp_all
  have 2: "gw_source w2 = gw_source w" "gw_seed_runs w2 = gw_seed_runs w" using steps(2) 1
    by (auto simp: on_source_ok fetch_order_catalog_def bindM_ok)
  have 3: "orders_stay w w3" by (rule orders_stay_view) (simp_all add: steps(3) 2)
  have 4: "orders_stay w3 w4"
    using assms(1) 1(2) 2(1) steps(3) by (intro existing_orders_stay [OF steps(4)]) (auto simp: config_ok_def)
  have commit: "keeps order_view (record_source_commit rid cfg counts hash)" for counts hash
    unfolding record_source_commit_def by (intro keeps_intros keeps_basic) (simp add: order_view_def)
  have sel: "keeps order_view (select_due_subscription_for_failed_profile h cfg)" "keeps order_view (forced_failure_row k)" for k
    unfolding select_due_subscription_for_failed_profile_def forced_failure_row_def fetch_subscriptions_ordered_def
    by (auto intro!: keeps_intros keeps_basic split: option.splits)
  have "yields orders_stay (?later c)"
    by (intro orders_stay.yields_bind [OF new_orders_yield] orders_stay.yields_moves orders_stay.bind scan_stays profile_stays
        orders_stay.branch orders_stay.option orders_stay.basic source_stays sel commit other_stays)
  from yieldsD [of orders_stay "?later c" w4 r w', OF this later] have "orders_stay w4 w'" .
  with 3 4 show ?thesis by (meson orders_stay.trans)
qed

lemma run_generator_stays:
  assumes "config_ok cfg"
  shows "moves orders_stay (run_generator env cfg rid)"
proof -
  have fin: "moves orders_stay (record_finished_generator_run k s counts hash msg)" for k s counts hash msg
    unfolding record_finished_generator_run_def
    by (intro orders_stay.rules other_stays orders_stay.modify orders_stay_view) simp_all
  have start: "moves orders_stay (record_started_generator_run rid cfg)"
    unfolding record_started_generator_run_def
    by (intro orders_stay.rules orders_stay.modify orders_stay_view) simp_all
  have fence: "moves orders_stay (fence_commit env l)" for l
    unfolding fence_commit_def at_pipeline_def by (intro orders_stay.rules other_stays)
  have tx: "moves orders_stay (committed_mutation env cfg l rid)" for l
    unfolding committed_mutation_def
  proof (rule orders_stay.bind)
    let ?m = "bindM (mutate_source (ge_hashing env) cfg l rid) (\<lambda>r. bindM (fence_commit env l) (\<lambda>_. returnM r))"
    have keep: "keeps run_tables ?m" by (intro keeps_intros keeps_basic keeps_mutate)
    have ok: "yields orders_stay ?m"
      by (intro orders_stay.yields_bind [of "mutate_source (ge_hashing env) cfg l rid"] orders_stay.yields_moves
          orders_stay.bind fence orders_stay.basic yieldsI mutate_source_stays [OF assms])
    show "moves orders_stay (source_transaction ?m)"
    proof (rule movesI)
      fix w x w' assume st: "source_transaction ?m w = (x, w')"
      obtain y w1 where y: "?m w = (y, w1)" by (cases "?m w")
      show "orders_stay w w'"
      proof (cases y)
        case (Inl e)
        with st y have "w' = w1\<lparr>gw_source := gw_source w\<rparr>" by (simp add: source_transaction_def)
        moreover have "gw_seed_runs w1 = gw_seed_runs w" using keepsD [OF keep y] by (simp add: run_tables_def)
        ultimately show ?thesis by (intro orders_stay_view) simp_all
      next
        case (Inr r)
        with st y have "w' = w1" by (simp add: source_transaction_def)
        with yieldsD [OF ok] y Inr show ?thesis by simp
      qed
    qed
  qed (auto intro!: orders_stay.rules other_stays)
  have new: "moves orders_stay (new_generator_run env cfg l rid)" for l
    unfolding new_generator_run_def record_at_def
    by (auto intro!: orders_stay.rules orders_stay.exceptM other_stays start fin tx)
  show ?thesis
    unfolding run_generator_def run_under_lease_def record_at_def at_pipeline_def
    by (auto intro!: orders_stay.rules orders_stay.releasing other_stays fin new)
qed

end
