(* ===== verification/ContractRuns.thy ===== *)
theory ContractRuns
  imports Stamps
begin

text \<open>
  The expiry scan on a source whose contracts are in order: it cannot fail, it handles every contract
  that is due exactly once, touches no other, and leaves the contracts in order again.
\<close>

section \<open>Contracts in order\<close>

text \<open>
  Beyond the table's CHECKs: the period has begun, an active contract is due when its next attempt
  is, and a failed one was due before it failed.
\<close>

definition contract_ok :: "subscription_row \<Rightarrow> bool" where
  "contract_ok r \<longleftrightarrow> subscription_row_ok r \<and> su_customer_unique_id r \<noteq> [] \<and> length (su_customer_unique_id r) \<le> 64 \<and>
     (case su_current_period_started_at r of None \<Rightarrow> True | Some t \<Rightarrow> t \<le> su_updated_at r) \<and>
     (su_subscription_status r = ''ACTIVE'' \<longrightarrow> su_billing_due_at r = su_next_payment_attempt_at r) \<and>
     (su_subscription_status r = ''PAYMENT_FAILED'' \<longrightarrow> at_most (su_billing_due_at r) (su_updated_at r))"

definition open_unique :: "source_db \<Rightarrow> bool" where
  "open_unique db \<longleftrightarrow> (\<forall>k r k' r'. map_of (customer_subscriptions db) k = Some r \<and>
     map_of (customer_subscriptions db) k' = Some r' \<and> open_contract r \<and> open_contract r' \<and>
     su_customer_unique_id r = su_customer_unique_id r' \<longrightarrow> k = k')"

definition contracts_ok :: "source_db \<Rightarrow> bool" where
  "contracts_ok db \<longleftrightarrow> pk_ok (customer_subscriptions db) \<and> open_unique db \<and>
     (\<forall>k r. map_of (customer_subscriptions db) k = Some r \<longrightarrow> contract_ok r \<and>
        (su_subscription_status r = ''PAYMENT_FAILED'' \<longrightarrow> billings_of k db \<noteq> [])) \<and>
     (\<forall>(_, p) \<in> set (subscription_payments db). billing_row_ok p \<and> bp_billing_period_start_at p \<le> bp_updated_at p)"

lemma contract_check: "contract_ok r \<Longrightarrow> subscription_check r = Inr ()"
  by (auto simp: contract_ok_def subscription_row_ok_def subscription_check_def id_check_def SUBSCRIPTION_STATUSES_def present_def)

lemma contract_okD:
  assumes "contracts_ok db" "map_of (customer_subscriptions db) k = Some r"
  shows "contract_ok r" "su_subscription_status r = ''PAYMENT_FAILED'' \<Longrightarrow> billings_of k db \<noteq> []"
  using assms by (auto simp: contracts_ok_def)

definition set_contract :: "uuid \<Rightarrow> subscription_row \<Rightarrow> source_db \<Rightarrow> source_db" where
  "set_contract k r db = db\<lparr>customer_subscriptions := update_rows (\<lambda>k' _. k' = k) (\<lambda>_. r) (customer_subscriptions db)\<rparr>"

lemma set_contract_lookup:
  "map_of (customer_subscriptions (set_contract k r db)) k' =
     (if k' = k then map_option (\<lambda>_. r) (map_of (customer_subscriptions db) k) else map_of (customer_subscriptions db) k')"
  by (simp add: set_contract_def map_of_update_rows option.map_id0 [unfolded id_def])

lemma set_contract_frame [simp]:
  "subscription_payments (set_contract k r db) = subscription_payments db" "billings_of k' (set_contract k r db) = billings_of k' db"
  by (simp_all add: set_contract_def billings_of_def)

text \<open>A changed contract that keeps its identity is stored.\<close>

definition same_contract :: "subscription_row \<Rightarrow> subscription_row \<Rightarrow> bool" where
  "same_contract r r' \<longleftrightarrow> su_customer_unique_id r' = su_customer_unique_id r \<and>
     su_subscription_started_at r' = su_subscription_started_at r \<and> su_created_at r' = su_created_at r"

lemma persist_contract:
  assumes "contracts_ok db" "map_of (customer_subscriptions db) k = Some r" "open_contract r" "same_contract r r'"
    and "subscription_row_ok r'" "su_updated_at r < su_updated_at r'"
  shows "persist_subscription_records [(k, r')] db = (Inr \<lparr>mr_inserted = 0, mr_updated = 1, mr_skipped = 0\<rparr>, set_contract k r' db)"
proof -
  let ?f = "\<lambda>x. x\<lparr>su_subscription_status := su_subscription_status r',
               su_auto_renew_enabled := su_auto_renew_enabled r',
               su_current_period_started_at := su_current_period_started_at r',
               su_current_period_ends_at := su_current_period_ends_at r', su_billing_due_at := su_billing_due_at r',
               su_next_payment_attempt_at := su_next_payment_attempt_at r', su_payment_failed_at := su_payment_failed_at r',
               su_cancel_requested_at := su_cancel_requested_at r', su_ended_at := su_ended_at r',
               su_status_changed_at := su_status_changed_at r', su_updated_at := su_updated_at r'\<rparr>"
  have pk: "pk_ok (customer_subscriptions db)" using assms(1) by (simp add: contracts_ok_def)
  have f: "?f r = r'" using assms(4) by (simp add: same_contract_def)
  have free: "contract_free k r' db"
    unfolding contract_free_def list_all_iff
  proof (intro impI ballI, clarify)
    fix k' s assume "(k', s) \<in> set (customer_subscriptions db)" "k' \<noteq> k" "open_contract s"
      and same: "su_customer_unique_id s = su_customer_unique_id r'"
    moreover from this pk have "map_of (customer_subscriptions db) k' = Some s" by (simp add: pk_ok_def)
    moreover have "open_unique db" using assms(1) by (simp add: contracts_ok_def)
    ultimately show False using assms(2-4) unfolding open_unique_def same_contract_def by metis
  qed
  have upd: "update_rows (\<lambda>k' _. k' = k) ?f (customer_subscriptions db) = update_rows (\<lambda>k' _. k' = k) (\<lambda>_. r') (customer_subscriptions db)"
    using update_rows_at [OF pk assms(2), of ?f "\<lambda>_. r'"] f by simp
  have "r \<noteq> r'" using assms(6) by auto
  moreover have "subscription_check r = Inr ()" using contract_okD(1) [OF assms(1,2)] contract_check by blast
  ultimately have "upsert customer_subscriptions subscription_check insert_subscription change_subscription (k, r') db =
      change_subscription r (k, r') db"
    using assms(2) by (simp add: upsert_def bindM_def)
  also have "\<dots> = (Inr Updated, set_contract k r' db)"
  proof -
    have "update_subscription k ?f db = (Inr (), set_contract k r' db)"
      using assms(2,5) free upd by (simp add: f update_subscription_def bindM_def assertM_apply set_contract_def)
    with assms(4,6) show ?thesis by (simp add: change_subscription_def bindM_def assertM_apply same_contract_def Let_def)
  qed
  finally show ?thesis
    by (simp add: persist_subscription_records_def persist_each_def bindM_def count_outcome_def no_mutations_def)
qed

lemma contracts_ok_set:
  assumes "contracts_ok db" "map_of (customer_subscriptions db) k = Some r" "open_contract r" "same_contract r r'" "contract_ok r'"
    and "su_subscription_status r' = ''PAYMENT_FAILED'' \<Longrightarrow> billings_of k db \<noteq> []"
  shows "contracts_ok (set_contract k r' db)"
proof -
  have "open_unique (set_contract k r' db)"
    using assms(1-4) unfolding contracts_ok_def open_unique_def set_contract_lookup same_contract_def
    by (auto split: if_splits)
  with assms show ?thesis
    unfolding contracts_ok_def set_contract_lookup by (auto simp: set_contract_def billings_of_def split: if_splits)
qed

section \<open>Payment rows\<close>

definition billing_id :: "hashing \<Rightarrow> string \<Rightarrow> uuid \<Rightarrow> int \<times> int \<Rightarrow> uuid" where
  "billing_id h entity k ca = (case billing_uuid h entity k (fst ca) (snd ca) of Inl _ \<Rightarrow> 0 | Inr u \<Rightarrow> u)"

lemma billing_uuid_id: "entity \<noteq> [] \<Longrightarrow> billing_uuid h entity k c a = Inr (billing_id h entity k (c, a))"
  using deterministic_uuid_total [of entity "[GUuid k, GInt c, GInt a]" h] by (auto simp: billing_id_def billing_uuid_def)

definition payment_id_of :: "hashing \<Rightarrow> source_db \<Rightarrow> uuid \<times> subscription_row \<Rightarrow> uuid" where
  "payment_id_of h db kr = billing_id h ''subscription-payment'' (fst kr) (billing_sequences kr db)"

definition provider_id_of :: "hashing \<Rightarrow> source_db \<Rightarrow> uuid \<times> subscription_row \<Rightarrow> string" where
  "provider_id_of h db kr = uuid_str (billing_id h ''subscription-provider-payment'' (fst kr) (billing_sequences kr db))"

text \<open>The identifiers of the attempts a scan would make are new: UUIDv5 does not collide on them.\<close>

definition attempt_ids_free :: "hashing \<Rightarrow> source_db \<Rightarrow> (uuid \<times> subscription_row) list \<Rightarrow> bool" where
  "attempt_ids_free h db krs \<longleftrightarrow>
     distinct (map (payment_id_of h db) krs) \<and> distinct (map (provider_id_of h db) krs) \<and>
     list_all (\<lambda>kr. payment_id_of h db kr \<notin> fst ` set (subscription_payments db) \<and>
       Some (provider_id_of h db kr) \<notin> (bp_provider_payment_id \<circ> snd) ` set (subscription_payments db)) krs"

lemma sql_max_ge: "x \<in> set xs \<Longrightarrow> x \<le> max_or_zero xs"
  by (auto simp: max_or_zero_def sql_max_def)

lemma max_or_zero_nonneg: "\<forall>x \<in> set xs. 0 \<le> x \<Longrightarrow> 0 \<le> max_or_zero xs"
  by (auto simp: max_or_zero_def sql_max_def)

lemma sql_max_in: "xs \<noteq> [] \<Longrightarrow> max_or_zero xs \<in> set xs"
  by (simp add: max_or_zero_def sql_max_def)

text \<open>The sequence numbers of an attempt are positive and not taken.\<close>

lemma billing_sequences_ok:
  assumes "contracts_ok db" "su_subscription_status r = ''PAYMENT_FAILED'' \<Longrightarrow> billings_of k db \<noteq> []"
    and "billing_sequences (k, r) db = (c, a)"
  shows "1 \<le> c" "1 \<le> a"
    "\<And>p. p \<in> set (billings_of k db) \<Longrightarrow> \<not> (bp_billing_cycle_sequence p = c \<and> bp_attempt_sequence p = a)"
proof -
  have pos: "0 < bp_billing_cycle_sequence p" "0 < bp_attempt_sequence p" if "p \<in> set (billings_of k db)" for p
    using that assms(1) by (auto simp: contracts_ok_def billings_of_def billing_row_ok_def)
  have nn: "0 \<le> max_or_zero (map bp_billing_cycle_sequence (billings_of k db))"
    using pos(1) by (intro max_or_zero_nonneg) force
  have na: "0 \<le> max_or_zero (map bp_attempt_sequence (filter P (billings_of k db)))" for P
    using pos(2) by (intro max_or_zero_nonneg) force
  have "1 \<le> c \<and> 1 \<le> a \<and> (\<forall>p \<in> set (billings_of k db). \<not> (bp_billing_cycle_sequence p = c \<and> bp_attempt_sequence p = a))"
  proof (cases "su_subscription_status r = ''PAYMENT_FAILED''")
    case True
    then have c: "c = max_or_zero (map bp_billing_cycle_sequence (billings_of k db))"
      and a: "a = max_or_zero (map bp_attempt_sequence (filter (\<lambda>p. bp_billing_cycle_sequence p = c) (billings_of k db))) + 1"
      using assms(3) by (auto simp: billing_sequences_def next_billing_cycle_sequence_def next_attempt_sequence_def Let_def)
    have "c \<in> set (map bp_billing_cycle_sequence (billings_of k db))" unfolding c using assms(2) [OF True] by (intro sql_max_in) simp
    with pos(1) have "1 \<le> c" by force
    moreover have "bp_attempt_sequence p < a" if "p \<in> set (billings_of k db)" "bp_billing_cycle_sequence p = c" for p
      using sql_max_ge [of "bp_attempt_sequence p" "map bp_attempt_sequence (filter (\<lambda>p. bp_billing_cycle_sequence p = c) (billings_of k db))"]
        that a by auto
    ultimately show ?thesis using na a by fastforce
  next
    case False
    then have c: "c = max_or_zero (map bp_billing_cycle_sequence (billings_of k db)) + 1" and a: "a = 1"
      using assms(3) by (auto simp: billing_sequences_def next_billing_cycle_sequence_def)
    have "bp_billing_cycle_sequence p < c" if "p \<in> set (billings_of k db)" for p
      using sql_max_ge [of "bp_billing_cycle_sequence p" "map bp_billing_cycle_sequence (billings_of k db)"] that c by auto
    with nn c a show ?thesis by fastforce
  qed
  then show "1 \<le> c" "1 \<le> a"
    "\<And>p. p \<in> set (billings_of k db) \<Longrightarrow> \<not> (bp_billing_cycle_sequence p = c \<and> bp_attempt_sequence p = a)" by auto
qed

lemma plan_attempt_ok:
  assumes "1 \<le> c" "1 \<le> a" "utcoffset (gc_logical_date cfg) = Some 0" "forced \<in> {None, Some ''failed''}"
  shows "\<exists>p. plan_subscription_payment h cfg k c a start forced = Inr (billing_id h ''subscription-payment'' k (c, a), p) \<and>
     billing_row_ok p \<and> bp_subscription_id p = k \<and> bp_billing_cycle_sequence p = c \<and> bp_attempt_sequence p = a \<and>
     bp_provider_payment_id p = Some (uuid_str (billing_id h ''subscription-provider-payment'' k (c, a))) \<and>
     bp_payment_provider p \<noteq> None \<and> bp_billing_period_start_at p = start \<and> bp_billing_period_end_at p = start + SUBSCRIPTION_PERIOD \<and>
     bp_updated_at p = instant (gc_logical_date cfg)"
  using assms billing_uuid_id [of "''subscription-payment''" h k c a] billing_uuid_id [of "''subscription-provider-payment''" h k c a]
  by (auto simp: plan_subscription_payment_def billing_outcome_def Let_def billing_check_def billing_row_ok_def
      MONTHLY_SUBSCRIPTION_FEE_def SUBSCRIPTION_PERIOD_def upper_char_def)

definition add_payment :: "uuid \<times> billing_row \<Rightarrow> source_db \<Rightarrow> source_db" where
  "add_payment kp db = db\<lparr>subscription_payments := subscription_payments db @ [kp]\<rparr>"

lemma add_payment_frame [simp]:
  "customer_subscriptions (add_payment kp db) = customer_subscriptions db"
  "subscription_payments (add_payment kp db) = subscription_payments db @ [kp]"
  "billings_of k (add_payment kp db) = billings_of k db @ (if bp_subscription_id (snd kp) = k then [snd kp] else [])"
  by (simp_all add: add_payment_def billings_of_def)

lemma persist_payment:
  assumes "map_of (customer_subscriptions db) k \<noteq> None" "bp_subscription_id p = k" "billing_row_ok p"
    and "i \<notin> fst ` set (subscription_payments db)" "bp_provider_payment_id p \<notin> (bp_provider_payment_id \<circ> snd) ` set (subscription_payments db)"
    and "\<And>q. q \<in> set (billings_of k db) \<Longrightarrow> \<not> (bp_billing_cycle_sequence q = bp_billing_cycle_sequence p \<and>
      bp_attempt_sequence q = bp_attempt_sequence p)"
  shows "persist_subscription_payments [(i, p)] db = (Inr 1, add_payment (i, p) db)"
proof -
  have "map_of (subscription_payments db) i = None" using assms(4) by (simp add: map_of_eq_None_iff)
  moreover have "billing_unique p db"
    using assms(2,5,6) by (fastforce simp: billing_unique_def list_all_iff billings_of_def image_iff)
  ultimately have "insert_billing (i, p) db = (Inr (), add_payment (i, p) db)"
    using assms(1-3) by (auto simp: insert_billing_def bindM_def assertM_apply insert_row_def add_payment_def)
  with \<open>map_of (subscription_payments db) i = None\<close> show ?thesis
    by (simp add: persist_subscription_payments_def persist_each_def persist_subscription_payment_def bindM_def count_outcome_def
        no_mutations_def)
qed

lemma contracts_ok_payment:
  assumes "contracts_ok db" "billing_row_ok p" "bp_billing_period_start_at p \<le> bp_updated_at p"
  shows "contracts_ok (add_payment (i, p) db)"
  using assms unfolding contracts_ok_def open_unique_def by auto

section \<open>One contract\<close>

text \<open>What the scan does with a due contract: its row \<open>r\<close> becomes \<open>r'\<close> at the run's time, with the payments \<open>ps\<close>.\<close>

definition scanned :: "time \<Rightarrow> uuid \<Rightarrow> subscription_row \<Rightarrow> subscription_row \<Rightarrow> (uuid \<times> billing_row) list \<Rightarrow> source_db \<Rightarrow> source_db \<Rightarrow> bool" where
  "scanned now k r r' ps db db' \<longleftrightarrow> same_contract r r' \<and> contract_ok r' \<and> su_updated_at r' = now \<and>
     db' = set_contract k r' (fold add_payment ps db) \<and> (\<forall>p \<in> set ps. bp_subscription_id (snd p) = k \<and> bp_updated_at (snd p) = now)"

lemma store_contract:
  assumes "contracts_ok (gw_source w)" "map_of (customer_subscriptions (gw_source w)) k = Some r" "open_contract r" "same_contract r r'"
    and "contract_ok r'" "su_updated_at r < su_updated_at r'"
  shows "\<exists>w'. store_subscriptions [(k, r')] w = (Inr (), w') \<and> gw_source w' = set_contract k r' (gw_source w)"
    "utcoffset (gc_logical_date cfg) = Some 0 \<Longrightarrow>
     \<exists>w'. store_checked cfg k r' w = (Inr (), w') \<and> gw_source w' = set_contract k r' (gw_source w)"
proof -
  have row: "subscription_row_ok r'" using assms(5) by (simp add: contract_ok_def)
  from persist_contract [OF assms(1-4) row assms(6)] show 1:
    "\<exists>w'. store_subscriptions [(k, r')] w = (Inr (), w') \<and> gw_source w' = set_contract k r' (gw_source w)"
    by (simp add: store_subscriptions_def on_source_def bindM_def add_subscription_counts_def add_count_def)
  show "\<exists>w'. store_checked cfg k r' w = (Inr (), w') \<and> gw_source w' = set_contract k r' (gw_source w)"
    if "utcoffset (gc_logical_date cfg) = Some 0"
  proof -
    have "checked_subscription cfg r' = Inr r'" using that contract_check [OF assms(5)] by simp
    with 1 show ?thesis by (simp add: store_checked_def)
  qed
qed

lemma subscription_allowed_iff: "allowed SUBSCRIPTION_TARGETS s s' \<longleftrightarrow>
    s = ''ACTIVE'' \<and> s' \<in> {''ACTIVE'', ''PAYMENT_FAILED'', ''CANCEL_REQUESTED''} \<or>
    s = ''PAYMENT_FAILED'' \<and> s' \<in> {''ACTIVE'', ''CANCEL_REQUESTED'', ''CHURNED''} \<or>
    s = ''CANCEL_REQUESTED'' \<and> s' \<in> {''ACTIVE'', ''CHURNED''}"
  by (auto simp: allowed_def SUBSCRIPTION_TARGETS_def)

lemma transition_contract:
  assumes "contract_ok r" "su_updated_at r < now" "allowed SUBSCRIPTION_TARGETS (su_subscription_status r) s"
    and "transition_subscription_record r s now = Inr r'"
    and "s = ''PAYMENT_FAILED'' \<Longrightarrow> at_most (su_billing_due_at r) now"
  shows "same_contract r r' \<and> contract_ok r' \<and> su_updated_at r' = now \<and> su_subscription_status r' = s"
proof -
  from assms(1,2) have base: "su_created_at r \<le> now" "su_subscription_started_at r \<le> now" "su_customer_unique_id r \<noteq> []"
    "length (su_customer_unique_id r) \<le> 64" "\<And>t. su_current_period_started_at r = Some t \<Longrightarrow> t \<le> now"
    "later (su_current_period_started_at r) (su_current_period_ends_at r)"
    by (auto simp: contract_ok_def subscription_row_ok_def)
  note defs = same_contract_def contract_ok_def subscription_row_ok_def present_def
  from assms(3) consider "s = ''ACTIVE''" | "s = ''PAYMENT_FAILED''" "su_subscription_status r = ''ACTIVE''"
    | "s = ''CANCEL_REQUESTED''" | "s = ''CHURNED''"
    by (auto simp: subscription_allowed_iff)
  then show ?thesis
  proof cases
    case 1
    with assms(4) have "r' = r\<lparr>su_subscription_status := s, su_status_changed_at := now, su_updated_at := now,
        su_auto_renew_enabled := True, su_current_period_started_at := Some now,
        su_current_period_ends_at := Some (now + SUBSCRIPTION_PERIOD), su_billing_due_at := Some (now + SUBSCRIPTION_PERIOD),
        su_next_payment_attempt_at := Some (now + SUBSCRIPTION_PERIOD), su_payment_failed_at := None,
        su_cancel_requested_at := None, su_ended_at := None\<rparr>"
      by (simp add: transition_subscription_record_def Let_def)
    with 1 base show ?thesis by (simp add: defs later_def SUBSCRIPTION_PERIOD_def)
  next
    case 2
    from assms(5) 2(1) obtain d where d: "su_billing_due_at r = Some d" "d \<le> now" by (auto simp: at_most_def split: option.splits)
    from 2 d assms(4) have "r' = r\<lparr>su_subscription_status := s, su_status_changed_at := now, su_updated_at := now,
        su_current_period_ends_at := Some (now + PAYMENT_FAILURE_GRACE_PERIOD), su_billing_due_at := Some d,
        su_next_payment_attempt_at := Some (now + PAYMENT_RETRY_DELAY), su_payment_failed_at := Some now,
        su_cancel_requested_at := None\<rparr>"
      by (simp add: transition_subscription_record_def Let_def)
    with 2 d base show ?thesis
      by (cases "su_current_period_started_at r") (auto simp: defs later_def at_most_def PAYMENT_FAILURE_GRACE_PERIOD_def)
  next
    case 3
    with assms(4) have "r' = r\<lparr>su_subscription_status := s, su_status_changed_at := now, su_updated_at := now,
        su_auto_renew_enabled := False, su_next_payment_attempt_at := None, su_cancel_requested_at := Some now\<rparr>"
      by (simp add: transition_subscription_record_def Let_def)
    with 3 base show ?thesis by (cases "su_current_period_started_at r") (simp_all add: defs)
  next
    case 4
    with assms(4) have "r' = r\<lparr>su_subscription_status := s, su_status_changed_at := now, su_updated_at := now,
        su_auto_renew_enabled := False, su_billing_due_at := None, su_next_payment_attempt_at := None, su_ended_at := Some now\<rparr>"
      by (simp add: transition_subscription_record_def Let_def split: if_splits)
    with 4 base show ?thesis by (cases "su_current_period_started_at r") (simp_all add: defs)
  qed
qed

lemma transition_records:
  assumes "contract_ok r" "su_updated_at r < instant (gc_logical_date cfg)" "utcoffset (gc_logical_date cfg) = Some 0"
    and "allowed SUBSCRIPTION_TARGETS (su_subscription_status r) s"
    and "transition_subscription_record r s (instant (gc_logical_date cfg)) = Inr r'"
    and "s = ''PAYMENT_FAILED'' \<Longrightarrow> at_most (su_billing_due_at r) (instant (gc_logical_date cfg))"
  shows "subscription_transition_records cfg [(k, r)] s = Inr [(k, r')]"
proof -
  have "contract_ok r'" using transition_contract [OF assms(1,2,4,5,6)] by blast
  from contract_check [OF this] assms show ?thesis
    by (auto simp: subscription_transition_records_def allowed_subscription_targets_def allowed_def seq_def require_def Let_def
        checked_subscription_def assert_utc_def split: option.splits)
qed

text \<open>A bill: the attempt is recorded, and the contract moves by its result.\<close>

lemma bill_contract:
  assumes "contracts_ok (gw_source w)" "map_of (customer_subscriptions (gw_source w)) k = Some r"
    and "su_subscription_status r \<in> {''ACTIVE'', ''PAYMENT_FAILED''}" "at_most (su_billing_due_at r) (instant (gc_logical_date cfg))"
    and "su_updated_at r < instant (gc_logical_date cfg)" "utcoffset (gc_logical_date cfg) = Some 0"
    and "forced \<in> {None, Some ''failed''}" "attempt_ids_free h (gw_source w) [(k, r)]"
  shows "\<exists>w' r' p. bill_and_transition h cfg (k, r) forced w = (Inr (), w') \<and> contracts_ok (gw_source w') \<and>
     scanned (instant (gc_logical_date cfg)) k r r' [(payment_id_of h (gw_source w) (k, r), p)] (gw_source w) (gw_source w') \<and>
     bp_provider_payment_id p = Some (provider_id_of h (gw_source w) (k, r))"
proof -
  let ?db = "gw_source w" and ?now = "instant (gc_logical_date cfg)"
  note cok = contract_okD [OF assms(1,2)]
  obtain c a where ca: "billing_sequences (k, r) ?db = (c, a)" by (cases "billing_sequences (k, r) ?db")
  note seqs = billing_sequences_ok [OF assms(1) cok(2) ca]
  let ?i = "payment_id_of h ?db (k, r)"
  from plan_attempt_ok [OF seqs(1,2) assms(6,7), of h k "billing_start cfg r"] obtain p where
    plan: "plan_subscription_payment h cfg k c a (billing_start cfg r) forced = Inr (?i, p)" and p: "billing_row_ok p"
      "bp_subscription_id p = k" "bp_billing_cycle_sequence p = c" "bp_attempt_sequence p = a"
      "bp_provider_payment_id p = Some (provider_id_of h ?db (k, r))" "bp_billing_period_start_at p = billing_start cfg r"
      "bp_billing_period_end_at p = billing_start cfg r + SUBSCRIPTION_PERIOD" "bp_updated_at p = ?now"
    by (auto simp: payment_id_of_def provider_id_of_def ca)
  have start: "billing_start cfg r \<le> ?now" using assms(4) by (auto simp: billing_start_def at_most_def split: option.splits)
  let ?db1 = "add_payment (?i, p) ?db"
  have st: "persist_subscription_payments [(?i, p)] ?db = (Inr 1, ?db1)"
    using assms(2,8) p seqs(3) by (intro persist_payment) (auto simp: attempt_ids_free_def)
  have ok1: "contracts_ok ?db1" using assms(1) p start by (intro contracts_ok_payment) auto
  have row1: "map_of (customer_subscriptions ?db1) k = Some r" using assms(2) by simp
  have opn: "open_contract r" using assms(3) by (auto simp: open_contract_def)
  define w2 where "w2 = snd (bindM (add_count ''subscription_payments_inserted'' 1) (\<lambda>_.
     add_row (GDict [(''customer_unique_id'', GStr (su_customer_unique_id r)), (''subscription_id'', GStr (uuid_str k)),
              (''billing_cycle_sequence'', GInt c), (''attempt_sequence'', GInt a),
              (''payment_status'', GStr (bp_payment_status p))])) (w\<lparr>gw_source := ?db1\<rparr>))"
  have w2: "gw_source w2 = ?db1" by (simp add: w2_def bindM_def add_count_def add_row_def)
  let ?after = "if bp_payment_status p = ''completed'' then
       bindM (advance_active_billing cfg (k, r) p) (\<lambda>_.
       if su_subscription_status r \<noteq> ''ACTIVE'' then add_row (subscription_scan_row (su_customer_unique_id r) ''ACTIVE'')
       else returnM ())
     else if su_subscription_status r = ''PAYMENT_FAILED'' then store_checked cfg k (retried_contract cfg r)
     else bindM (persist_scan_transition cfg (k, r) ''PAYMENT_FAILED'') (\<lambda>_.
       add_row (subscription_scan_row (su_customer_unique_id r) ''PAYMENT_FAILED''))"
  have run: "bill_and_transition h cfg (k, r) forced w = ?after w2"
    using ca plan st
    by (simp add: bill_and_transition_def on_source_def bindM_def w2_def add_count_def add_row_def)
  have stored: "\<exists>w' r' p. bill_and_transition h cfg (k, r) forced w = (Inr (), w') \<and> contracts_ok (gw_source w') \<and>
       scanned ?now k r r' [(?i, p)] ?db (gw_source w') \<and> bp_provider_payment_id p = Some (provider_id_of h ?db (k, r))"
    if "same_contract r r'" "contract_ok r'" "su_updated_at r' = ?now" "?after w2 = (Inr (), w3)" "gw_source w3 = set_contract k r' ?db1" for r' w3
  proof -
    have "contracts_ok (set_contract k r' ?db1)"
      using p(2) by (intro contracts_ok_set [OF ok1 row1 opn that(1,2)]) simp
    with that run p(2,5,8) show ?thesis by (auto simp: scanned_def intro!: exI [of _ w3])
  qed
  consider (completed) "bp_payment_status p = ''completed''"
    | (again) "bp_payment_status p \<noteq> ''completed''" "su_subscription_status r = ''PAYMENT_FAILED''"
    | (failed) "bp_payment_status p \<noteq> ''completed''" "su_subscription_status r = ''ACTIVE''" using assms(3) by auto
  then show ?thesis
  proof cases
    case completed
    let ?r' = "advanced_contract cfg r p"
    have r': "same_contract r ?r'" "contract_ok ?r'" "su_updated_at ?r' = ?now"
      using cok(1) p start assms(5)
      by (auto simp: advanced_contract_def same_contract_def contract_ok_def subscription_row_ok_def present_def later_def SUBSCRIPTION_PERIOD_def)
    from store_contract(2) [of w2 k r ?r' cfg] ok1 row1 opn r' assms(5,6) w2 obtain w3 where
      "store_checked cfg k ?r' w2 = (Inr (), w3)" "gw_source w3 = set_contract k ?r' ?db1" by auto
    then have "?after w2 = (Inr (), w3) \<or> (\<exists>w4. ?after w2 = (Inr (), w4) \<and> gw_source w4 = set_contract k ?r' ?db1)"
      using completed by (simp add: advance_active_billing_def bindM_def add_row_def)
    then show ?thesis using stored [OF r'] \<open>gw_source w3 = _\<close> by blast
  next
    case again
    let ?r' = "retried_contract cfg r"
    have r': "same_contract r ?r'" "contract_ok ?r'" "su_updated_at ?r' = ?now"
      using cok(1) assms(4,5) again(2)
      by (auto simp: retried_contract_def same_contract_def contract_ok_def subscription_row_ok_def present_def later_def split: option.splits)
    from store_contract(2) [of w2 k r ?r' cfg] ok1 row1 opn r' assms(5,6) w2 obtain w3 where
      w3: "store_checked cfg k ?r' w2 = (Inr (), w3)" "gw_source w3 = set_contract k ?r' ?db1" by auto
    show ?thesis by (rule stored [OF r']) (use w3 again in auto)
  next
    case failed
    have al: "allowed SUBSCRIPTION_TARGETS (su_subscription_status r) ''PAYMENT_FAILED''"
      using failed(2) by (simp add: allowed_def SUBSCRIPTION_TARGETS_def)
    obtain r' where tr: "transition_subscription_record r ''PAYMENT_FAILED'' ?now = Inr r'"
      by (auto simp: transition_subscription_record_def Let_def)
    from transition_contract [OF cok(1) assms(5) al tr] assms(4) have
      r': "same_contract r r'" "contract_ok r'" "su_updated_at r' = ?now" by auto
    from transition_records [OF cok(1) assms(5,6) al tr] assms(4) have
      rec: "subscription_transition_records cfg [(k, r)] ''PAYMENT_FAILED'' = Inr [(k, r')]" by auto
    from store_contract(1) [of w2 k r r'] ok1 row1 opn r' assms(5) w2 obtain w3 where
      w3: "store_subscriptions [(k, r')] w2 = (Inr (), w3)" "gw_source w3 = set_contract k r' ?db1" by auto
    then have "\<exists>w4. ?after w2 = (Inr (), w4) \<and> gw_source w4 = set_contract k r' ?db1"
      using failed rec by (simp add: persist_scan_transition_def bindM_def add_row_def)
    then show ?thesis using stored [OF r'] by blast
  qed
qed

definition payments_before :: "time \<Rightarrow> source_db \<Rightarrow> bool" where
  "payments_before now db \<longleftrightarrow> (\<forall>(_, p) \<in> set (subscription_payments db). bp_updated_at p \<le> now)"

lemma completed_period:
  assumes "contracts_ok db" "payments_before now db" "unexpired_completed_period k now db = Some (s, e)"
  shows "s < e" "s \<le> now" "now < e"
proof -
  let ?l = "sort_key (\<lambda>r. - bp_billing_cycle_sequence r) (sort_key (\<lambda>r. - bp_attempt_sequence r)
     (filter (\<lambda>r. bp_payment_status r = ''completed'') (billings_of k db)))"
  from assms(3) obtain p ps where l: "?l = p # ps" and se: "s = bp_billing_period_start_at p" "e = bp_billing_period_end_at p" "now < e"
    by (auto simp: unexpired_completed_period_def latest_completed_billing_period_def split: list.splits if_splits option.splits)
  have "p \<in> set ?l" unfolding l by simp
  then have "p \<in> set (billings_of k db)" by simp
  then obtain i where "(i, p) \<in> set (subscription_payments db)" by (auto simp: billings_of_def)
  with assms(1,2) se show "s < e" "s \<le> now" "now < e"
    by (fastforce simp: contracts_ok_def billing_row_ok_def payments_before_def)+
qed

text \<open>Whatever the state, a due contract is handled: ended, realigned or billed.\<close>

lemma scan_contract:
  assumes "contracts_ok (gw_source w)" "map_of (customer_subscriptions (gw_source w)) k = Some r"
    and "due_subscription (instant (gc_logical_date cfg)) r" "payments_before (instant (gc_logical_date cfg)) (gw_source w)"
    and "utcoffset (gc_logical_date cfg) = Some 0" "attempt_ids_free h (gw_source w) [(k, r)]"
  shows "\<exists>w' r' ps. scan_subscription h cfg forced_id (k, r) w = (Inr (), w') \<and> contracts_ok (gw_source w') \<and>
     scanned (instant (gc_logical_date cfg)) k r r' ps (gw_source w) (gw_source w') \<and>
     (ps = [] \<or> (\<exists>p. ps = [(payment_id_of h (gw_source w) (k, r), p)] \<and>
       bp_provider_payment_id p = Some (provider_id_of h (gw_source w) (k, r))))"
proof -
  let ?db = "gw_source w" and ?now = "instant (gc_logical_date cfg)"
  note cok = contract_okD [OF assms(1,2)]
  have before: "su_updated_at r < ?now" using assms(3) by (simp add: due_subscription_def)
  have opn: "open_contract r" using assms(3) by (auto simp: due_subscription_def open_contract_def)
  have stored: ?thesis
    if "same_contract r r'" "contract_ok r'" "su_updated_at r' = ?now" "scan_subscription h cfg forced_id (k, r) w = (Inr (), w3)"
      "gw_source w3 = set_contract k r' ?db" "su_subscription_status r' \<noteq> ''PAYMENT_FAILED''" for r' w3
  proof -
    have "contracts_ok (set_contract k r' ?db)" using that(6) by (intro contracts_ok_set [OF assms(1,2) opn that(1,2)]) simp
    moreover have "scanned ?now k r r' [] ?db (gw_source w3)" using that by (simp add: scanned_def)
    ultimately show ?thesis using that(4,5) by (intro exI [of _ w3] exI [of _ r'] exI [of _ "[]"]) simp
  qed
  let ?ended = "su_subscription_status r \<in> {''CANCEL_REQUESTED'', ''PAYMENT_FAILED''} \<and> at_most (su_current_period_ends_at r) ?now"
  show ?thesis
  proof (cases ?ended)
    case True
    then obtain e where e: "su_current_period_ends_at r = Some e" "e \<le> ?now" by (auto simp: at_most_def split: option.splits)
    obtain r' where tr: "transition_subscription_record r ''CHURNED'' ?now = Inr r'"
      using e by (auto simp: transition_subscription_record_def Let_def)
    have al: "allowed SUBSCRIPTION_TARGETS (su_subscription_status r) ''CHURNED''" using True by (auto simp: subscription_allowed_iff)
    from transition_contract [OF cok(1) before al tr] have r': "same_contract r r'" "contract_ok r'" "su_updated_at r' = ?now"
      "su_subscription_status r' \<noteq> ''PAYMENT_FAILED''" by auto
    from transition_records [OF cok(1) before assms(5) al tr] have
      rec: "subscription_transition_records cfg [(k, r)] ''CHURNED'' = Inr [(k, r')]" by simp
    from store_contract(1) [OF assms(1,2) opn r'(1,2)] r'(3) before obtain w3 where
      "store_subscriptions [(k, r')] w = (Inr (), w3)" "gw_source w3 = set_contract k r' ?db" by auto
    then have "\<exists>w4. scan_subscription h cfg forced_id (k, r) w = (Inr (), w4) \<and> gw_source w4 = set_contract k r' ?db"
      using True before rec by (simp add: scan_subscription_def persist_scan_transition_def Let_def bindM_def add_row_def not_le)
    with stored [OF r'(1-3) _ _ r'(4)] show ?thesis by blast
  next
    case False
    with assms(3) have st: "su_subscription_status r = ''ACTIVE'' \<and> su_auto_renew_enabled r \<and> at_most (su_next_payment_attempt_at r) ?now \<or>
        su_subscription_status r = ''PAYMENT_FAILED'' \<and> at_most (su_next_payment_attempt_at r) ?now"
      by (auto simp: due_subscription_def)
    have billed: ?thesis if "scan_subscription h cfg forced_id (k, r) w = bill_and_transition h cfg (k, r) forced w"
      "forced \<in> {None, Some ''failed''}" for forced
    proof -
      have "at_most (su_billing_due_at r) ?now"
        using st cok(1) before by (auto simp: contract_ok_def at_most_def split: option.splits)
      from bill_contract [OF assms(1,2) _ this before assms(5) that(2) assms(6)] st that(1) show ?thesis by fastforce
    qed
    show ?thesis
    proof (cases "su_subscription_status r = ''ACTIVE''")
      case True
      show ?thesis
      proof (cases "unexpired_completed_period k ?now ?db")
        case None
        have "scan_subscription h cfg forced_id (k, r) w =
            bill_and_transition h cfg (k, r) (if Some k = forced_id then Some ''failed'' else None) w"
          using True st False before None by (simp add: scan_subscription_def Let_def bindM_def not_le)
        then show ?thesis by (rule billed) simp
      next
        case (Some p)
        obtain s e where p: "p = (s, e)" by (cases p)
        note period = completed_period [OF assms(1,4) Some [unfolded p]]
        let ?r' = "realigned_contract cfg r p"
        from cok(1) have "su_created_at r \<le> ?now" "su_subscription_started_at r \<le> su_status_changed_at r" "su_status_changed_at r \<le> ?now"
          "su_customer_unique_id r \<noteq> []" "length (su_customer_unique_id r) \<le> 64"
          using before by (auto simp: contract_ok_def subscription_row_ok_def)
        then have r': "same_contract r ?r'" "contract_ok ?r'" "su_updated_at ?r' = ?now" "su_subscription_status ?r' \<noteq> ''PAYMENT_FAILED''"
          using True period by (simp_all add: realigned_contract_def p same_contract_def contract_ok_def subscription_row_ok_def present_def later_def)
        from store_contract(2) [OF assms(1,2) opn r'(1,2)] r'(3) before assms(5) obtain w3 where
          "store_checked cfg k ?r' w = (Inr (), w3)" "gw_source w3 = set_contract k ?r' ?db" by auto
        then have "\<exists>w4. scan_subscription h cfg forced_id (k, r) w = (Inr (), w4) \<and> gw_source w4 = set_contract k ?r' ?db"
          using True st before Some by (simp add: scan_subscription_def Let_def bindM_def add_row_def not_le)
        with stored [OF r'(1-3) _ _ r'(4)] show ?thesis by blast
      qed
    next
      case not_active: False
      have "scan_subscription h cfg forced_id (k, r) w = bill_and_transition h cfg (k, r) None w"
        using not_active st False before by (auto simp: scan_subscription_def Let_def not_le)
      then show ?thesis by (rule billed) simp
    qed
  qed
qed

section \<open>All contracts\<close>

lemma fold_add_payment [simp]:
  "customer_subscriptions (fold add_payment ps db) = customer_subscriptions db"
  "subscription_payments (fold add_payment ps db) = subscription_payments db @ ps"
  by (induction ps arbitrary: db) auto

lemma scanned_lookup:
  assumes "scanned now k r r' ps db db'" "map_of (customer_subscriptions db) k = Some r"
  shows "map_of (customer_subscriptions db') k' = (if k' = k then Some r' else map_of (customer_subscriptions db) k')"
    "subscription_payments db' = subscription_payments db @ ps" "k' \<noteq> k \<Longrightarrow> billings_of k' db' = billings_of k' db"
proof -
  from assms(1) have db': "db' = set_contract k r' (fold add_payment ps db)" and ps: "\<forall>p \<in> set ps. bp_subscription_id (snd p) = k"
    by (auto simp: scanned_def)
  show "map_of (customer_subscriptions db') k' = (if k' = k then Some r' else map_of (customer_subscriptions db) k')"
    using assms(2) by (auto simp: db' set_contract_lookup)
  show pay: "subscription_payments db' = subscription_payments db @ ps" by (simp add: db')
  show "billings_of k' db' = billings_of k' db" if "k' \<noteq> k"
  proof -
    have "filter (\<lambda>p. bp_subscription_id p = k') (map snd ps) = []" using ps that by (auto simp: filter_empty_conv)
    then show ?thesis by (simp add: billings_of_def pay)
  qed
qed

lemma ids_frame:
  assumes "scanned now k r r' ps db db'" "map_of (customer_subscriptions db) k = Some r" "k' \<noteq> k"
  shows "payment_id_of h db' (k', s) = payment_id_of h db (k', s)" "provider_id_of h db' (k', s) = provider_id_of h db (k', s)"
proof -
  have "billing_sequences (k', s) db' = billing_sequences (k', s) db"
    using scanned_lookup(3) [OF assms]
    by (simp add: billing_sequences_def next_billing_cycle_sequence_def next_attempt_sequence_def)
  then show "payment_id_of h db' (k', s) = payment_id_of h db (k', s)" "provider_id_of h db' (k', s) = provider_id_of h db (k', s)"
    by (simp_all add: payment_id_of_def provider_id_of_def)
qed

lemma attempt_ids_rest:
  assumes "attempt_ids_free h db ((k, r) # krs)" "k \<notin> fst ` set krs" "scanned now k r r' ps db db'"
    and "map_of (customer_subscriptions db) k = Some r"
    and "ps = [] \<or> (\<exists>p. ps = [(payment_id_of h db (k, r), p)] \<and> bp_provider_payment_id p = Some (provider_id_of h db (k, r)))"
  shows "attempt_ids_free h db' krs"
proof -
  have same: "payment_id_of h db' kr = payment_id_of h db kr" "provider_id_of h db' kr = provider_id_of h db kr" if "kr \<in> set krs" for kr
    using ids_frame [OF assms(3,4), of "fst kr" h "snd kr"] that assms(2) by (cases kr; force)+
  have maps: "map (payment_id_of h db') krs = map (payment_id_of h db) krs" "map (provider_id_of h db') krs = map (provider_id_of h db) krs"
    using same by auto
  have pay: "subscription_payments db' = subscription_payments db @ ps" by (rule scanned_lookup(2) [OF assms(3,4)])
  from assms(1) have free: "payment_id_of h db kr \<noteq> payment_id_of h db (k, r)" "provider_id_of h db kr \<noteq> provider_id_of h db (k, r)"
    if "kr \<in> set krs" for kr
  proof -
    from assms(1) have "payment_id_of h db (k, r) \<notin> payment_id_of h db ` set krs"
      "provider_id_of h db (k, r) \<notin> provider_id_of h db ` set krs" by (simp_all add: attempt_ids_free_def)
    then show "payment_id_of h db kr \<noteq> payment_id_of h db (k, r)" "provider_id_of h db kr \<noteq> provider_id_of h db (k, r)"
      using that by (metis imageI)+
  qed
  show ?thesis
    unfolding attempt_ids_free_def maps pay list_all_iff
    using assms(1,5) free same by (auto simp: attempt_ids_free_def list_all_iff)
qed

lemma scan_loop:
  assumes "contracts_ok (gw_source w)" "distinct (map fst krs)" "payments_before (instant (gc_logical_date cfg)) (gw_source w)"
    and "\<forall>(k, r) \<in> set krs. map_of (customer_subscriptions (gw_source w)) k = Some r \<and> due_subscription (instant (gc_logical_date cfg)) r"
    and "attempt_ids_free h (gw_source w) krs" "utcoffset (gc_logical_date cfg) = Some 0"
  shows "\<exists>w'. iterM (scan_subscription h cfg forced_id) krs w = (Inr (), w') \<and> contracts_ok (gw_source w') \<and>
     (\<forall>(k, r) \<in> set krs. \<exists>r'. map_of (customer_subscriptions (gw_source w')) k = Some r' \<and> same_contract r r' \<and>
        su_updated_at r' = instant (gc_logical_date cfg)) \<and>
     (\<forall>k. k \<notin> fst ` set krs \<longrightarrow> map_of (customer_subscriptions (gw_source w')) k = map_of (customer_subscriptions (gw_source w)) k)"
  using assms(1-5)
proof (induction krs arbitrary: w)
  case (Cons kr krs)
  obtain k r where kr: "kr = (k, r)" by (cases kr)
  from Cons.prems(4) kr have row: "map_of (customer_subscriptions (gw_source w)) k = Some r" "due_subscription (instant (gc_logical_date cfg)) r"
    by auto
  have one: "attempt_ids_free h (gw_source w) [(k, r)]" using Cons.prems(5) kr by (auto simp: attempt_ids_free_def)
  from scan_contract [OF Cons.prems(1) row Cons.prems(3) assms(6) one, of forced_id] obtain w1 r' ps where
    w1: "scan_subscription h cfg forced_id (k, r) w = (Inr (), w1)" "contracts_ok (gw_source w1)"
      "scanned (instant (gc_logical_date cfg)) k r r' ps (gw_source w) (gw_source w1)"
      "ps = [] \<or> (\<exists>p. ps = [(payment_id_of h (gw_source w) (k, r), p)] \<and>
       bp_provider_payment_id p = Some (provider_id_of h (gw_source w) (k, r)))" by blast
  have k: "k \<notin> fst ` set krs" "distinct (map fst krs)" using Cons.prems(2) kr by auto
  note look = scanned_lookup [OF w1(3) row(1)]
  have before: "payments_before (instant (gc_logical_date cfg)) (gw_source w1)"
    using Cons.prems(3) w1(3) by (auto simp: payments_before_def look(2) scanned_def)
  have rows: "\<forall>(k, r) \<in> set krs. map_of (customer_subscriptions (gw_source w1)) k = Some r \<and> due_subscription (instant (gc_logical_date cfg)) r"
  proof (intro ballI, clarify)
    fix k2 r2 assume in2: "(k2, r2) \<in> set krs"
    with k(1) have "k2 \<noteq> k" by force
    with in2 Cons.prems(4) look(1) [of k2] show "map_of (customer_subscriptions (gw_source w1)) k2 = Some r2 \<and>
        due_subscription (instant (gc_logical_date cfg)) r2" by auto
  qed
  have free: "attempt_ids_free h (gw_source w1) krs"
    using attempt_ids_rest [OF _ k(1) w1(3) row(1) w1(4)] Cons.prems(5) kr by simp
  from Cons.IH [OF w1(2) k(2) before rows free] obtain w2 where
    w2: "iterM (scan_subscription h cfg forced_id) krs w1 = (Inr (), w2)" "contracts_ok (gw_source w2)"
      "\<forall>(k, r) \<in> set krs. \<exists>r'. map_of (customer_subscriptions (gw_source w2)) k = Some r' \<and> same_contract r r' \<and>
        su_updated_at r' = instant (gc_logical_date cfg)"
      "\<forall>k. k \<notin> fst ` set krs \<longrightarrow> map_of (customer_subscriptions (gw_source w2)) k = map_of (customer_subscriptions (gw_source w1)) k"
    by blast
  have "map_of (customer_subscriptions (gw_source w2)) k = Some r'" using w2(4) k(1) look(1) by simp
  moreover have "same_contract r r'" "su_updated_at r' = instant (gc_logical_date cfg)" using w1(3) by (auto simp: scanned_def)
  ultimately show ?case using w1(1) w2 look(1) kr by (intro exI [of _ w2]) auto
qed auto

text \<open>The scan: never fails, every due contract is handled at the run's time, no other one changes.\<close>

lemma expiry_scan_complete:
  assumes "contracts_ok (gw_source w)" "payments_before (instant (gc_logical_date cfg)) (gw_source w)"
    and "utcoffset (gc_logical_date cfg) = Some 0"
    and "attempt_ids_free h (gw_source w)
      (sort_key (su_customer_unique_id \<circ> snd) (sort_key fst (filter (due_subscription (instant (gc_logical_date cfg)) \<circ> snd)
        (customer_subscriptions (gw_source w)))))"
  shows "\<exists>w'. run_subscription_expiry_scan h cfg forced_id w = (Inr (), w') \<and> contracts_ok (gw_source w') \<and>
     (\<forall>k r. map_of (customer_subscriptions (gw_source w)) k = Some r \<longrightarrow>
        (if due_subscription (instant (gc_logical_date cfg)) r
         then \<exists>r'. map_of (customer_subscriptions (gw_source w')) k = Some r' \<and> same_contract r r' \<and>
           su_updated_at r' = instant (gc_logical_date cfg)
         else map_of (customer_subscriptions (gw_source w')) k = Some r))"
proof -
  let ?db = "gw_source w" and ?now = "instant (gc_logical_date cfg)"
  let ?rs = "sort_key (su_customer_unique_id \<circ> snd) (sort_key fst (filter (due_subscription ?now \<circ> snd) (customer_subscriptions ?db)))"
  have pk: "pk_ok (customer_subscriptions ?db)" using assms(1) by (simp add: contracts_ok_def)
  have mem: "(k, r) \<in> set ?rs \<longleftrightarrow> map_of (customer_subscriptions ?db) k = Some r \<and> due_subscription ?now r" for k r
    using pk by (auto simp: pk_ok_def dest: map_of_SomeD)
  have "distinct (map fst (filter P (customer_subscriptions ?db)))" for P using pk by (simp add: pk_ok_def distinct_map inj_on_def)
  then have dist: "distinct (map fst ?rs)" by (simp add: distinct_map)
  have "check_all (subscription_check \<circ> snd) rs = Inr ()" if "\<forall>(k, r) \<in> set rs. contract_ok r" for rs
    using that by (induction rs) (auto simp: contract_check)
  then have checked: "check_all (subscription_check \<circ> snd) ?rs = Inr ()"
    using contract_okD(1) [OF assms(1)] mem by blast
  have run: "run_subscription_expiry_scan h cfg forced_id w = iterM (scan_subscription h cfg forced_id) ?rs w"
    using checked by (simp add: run_subscription_expiry_scan_def fetch_due_subscriptions_def fetch_subscriptions_def on_source_def bindM_def)
  from scan_loop [OF assms(1) dist assms(2) _ assms(4,3), of forced_id] mem obtain w' where
    w': "iterM (scan_subscription h cfg forced_id) ?rs w = (Inr (), w')" "contracts_ok (gw_source w')"
      "\<forall>(k, r) \<in> set ?rs. \<exists>r'. map_of (customer_subscriptions (gw_source w')) k = Some r' \<and> same_contract r r' \<and> su_updated_at r' = ?now"
      "\<forall>k. k \<notin> fst ` set ?rs \<longrightarrow> map_of (customer_subscriptions (gw_source w')) k = map_of (customer_subscriptions ?db) k"
    by blast
  have "if due_subscription ?now r
         then \<exists>r'. map_of (customer_subscriptions (gw_source w')) k = Some r' \<and> same_contract r r' \<and> su_updated_at r' = ?now
         else map_of (customer_subscriptions (gw_source w')) k = Some r"
    if r: "map_of (customer_subscriptions ?db) k = Some r" for k r
  proof (cases "due_subscription ?now r")
    case True
    with r mem w'(3) show ?thesis by auto
  next
    case False
    with r mem have "k \<notin> fst ` set ?rs" by fastforce
    with w'(4) r False show ?thesis by simp
  qed
  with w'(1,2) show ?thesis unfolding run by blast
qed

end
