(* ===== verification/GeneratorProperties.thy ===== *)
theory GeneratorProperties
  imports OrderRuns ContractRuns
begin

text \<open>
  Properties of the source generator (src/generator): what any sequence of runs keeps, whatever
  faults and kills they meet, what a run is certain to do, and what it cannot do. The concrete
  source below has one order and one contract that are due.
\<close>

section \<open>A concrete source\<close>

definition demo_hashing :: hashing where
  "demo_hashing = \<lparr>sha256 = (\<lambda>_. 5), uuid5 = (\<lambda>_ _. 6)\<rparr>"

definition demo_config :: generator_config where
  "demo_config = \<lparr>gc_source_snapshot_id = ''seed:c:0001-01-01T00:00:00+00:00'', gc_random_seed = 1,
     gc_logical_date = utc (40 * 86400000000), gc_order_count = 0, gc_anomaly_profile = ''default'',
     gc_generator_version = GENERATOR_VERSION, gc_progress_time_scale = 1\<rparr>"

definition demo_order :: order_row where
  "demo_order = \<lparr>or_customer_id = ''c1'', or_order_status = ''created'', or_order_purchase_timestamp = 86400000000,
     or_order_approved_at = None, or_order_delivered_carrier_date = None, or_order_delivered_customer_date = None,
     or_order_estimated_delivery_date = None, or_created_at = 86400000000, or_updated_at = 86400000000\<rparr>"

definition demo_payment :: payment_row where
  "demo_payment = \<lparr>pa_payment_type = ''boleto'', pa_payment_installments = None, pa_payment_value = 1100,
     pa_payment_status = ''pending'', pa_payment_initiated_at = Some 86400000000, pa_payment_completed_at = None,
     pa_payment_failed_at = None, pa_payment_refunded_at = None, pa_created_at = 86400000000, pa_updated_at = 86400000000\<rparr>"

definition demo_contract :: subscription_row where
  "demo_contract = \<lparr>su_customer_unique_id = ''u1'', su_subscription_status = ''ACTIVE'', su_auto_renew_enabled = True,
     su_subscription_started_at = 0, su_current_period_started_at = Some 0, su_current_period_ends_at = Some SUBSCRIPTION_PERIOD,
     su_billing_due_at = Some SUBSCRIPTION_PERIOD, su_next_payment_attempt_at = Some SUBSCRIPTION_PERIOD,
     su_payment_failed_at = None, su_cancel_requested_at = None, su_ended_at = None, su_status_changed_at = 0,
     su_created_at = 0, su_updated_at = 0\<rparr>"

definition demo_source :: source_db where
  "demo_source = \<lparr>customers = [(''c1'', \<lparr>cu_customer_unique_id = ''u1'', cu_customer_city = Some ''curitiba'',
       cu_customer_state = Some ''PR'', cu_created_at = 0\<rparr>)],
     customer_subscriptions = [(5, demo_contract)], membership_tiers = [], subscription_payments = [], products = [''p1''],
     sellers = [''s1''], orders = [(''o1'', demo_order)], order_items = [], order_payments = [((''o1'', 1), demo_payment)],
     generator_commits = []\<rparr>"

definition demo_world :: gen_world where
  "demo_world = \<lparr>gw_source = demo_source, gw_pipeline = empty_db,
     gw_seed_runs = [(1, \<lparr>sd_raw_checksum = ''c'', sd_seeded_at = 0, sd_status = ''SUCCESS'', sd_finished_at = Some 1\<rparr>)],
     gw_generator_runs = [], gw_result_counts = [], gw_logical_rows = [], gw_clock = utc 0, gw_schedule = []\<rparr>"

definition demo_gen_env :: "(gen_point \<Rightarrow> exn option) \<Rightarrow> gen_env" where
  "demo_gen_env f = \<lparr>ge_hashing = demo_hashing, ge_fault = f\<rparr>"

lemma demo_runs_inv: "generator_runs_inv demo_world"
  by (simp add: generator_runs_inv_def runs_agree_def demo_world_def demo_source_def pk_ok_def)

definition demo_quiet :: gen_world where
  "demo_quiet = demo_world\<lparr>gw_source := demo_source\<lparr>customer_subscriptions := []\<rparr>\<rparr>"

lemma demo_quiet_inv: "generator_runs_inv demo_quiet"
  by (simp add: generator_runs_inv_def runs_agree_def demo_quiet_def demo_world_def demo_source_def pk_ok_def)

definition demo_done :: gen_world where
  "demo_done = demo_quiet
     \<lparr>gw_source := demo_source\<lparr>customer_subscriptions := [], generator_commits := [(9, new_commit demo_config [] ''5'')]\<rparr>,
      gw_generator_runs := [(9, \<lparr>gr_config = demo_config, gr_status = ''SUCCESS'', gr_finished_at = Some 0,
        gr_result_counts = Some [], gr_logical_hash = Some ''5'', gr_error_message = None\<rparr>)]\<rparr>"

lemma demo_done_inv: "generator_runs_inv demo_done"
  by (auto simp: generator_runs_inv_def runs_agree_def demo_done_def new_commit_def run_matches_def pk_ok_def split: if_splits)

lemma demo_orders: "world_orders demo_world" "world_orders demo_quiet"
  by (auto simp: world_orders_def latest_seed_def demo_world_def demo_quiet_def demo_source_def demo_order_def demo_payment_def
      orders_ok_def order_tables_ok_def order_row_ok_def payment_row_ok_def ORDER_STATUSES_def pk_ok_def orders_agree_def
      order_agrees_def timeline_ok_def reached_def not_before_def in_order_def not_after_def payment_matches_def payments_owned_def)

lemma demo_config_ok: "config_ok demo_config"
  by (simp add: config_ok_def demo_config_def utc_def)

lemma is_okE:
  assumes "is_ok r"
  obtains v where "r = (Inr v, snd r)"
  using assms by (cases r; cases "fst r") (auto simp: is_ok_def)

section \<open>Any sequence of runs\<close>

text \<open>
  C19: After any sequence of generator runs, interrupted or killed at any point, every order made
  since the seed has its payments in the state its own status says: pending before the approval,
  completed after it, failed or refunded once canceled, with its event times in order.
\<close>
theorem generator_orders_agree:
  assumes "world_orders w" "\<forall>(env, cfg, rid) \<in> set rs. config_ok cfg"
  shows "world_orders (run_all rs w)"
  using assms
proof (induction rs arbitrary: w)
  case (Cons r rs)
  obtain env cfg rid where r: "r = (env, cfg, rid)" by (cases r)
  have "moves orders_stay (run_generator env cfg rid)" using Cons.prems(2) r by (intro run_generator_stays) auto
  then have "world_orders (snd (run_generator env cfg rid w))" using Cons.prems(1) by (simp add: moves_def orders_stay_def)
  with Cons.IH Cons.prems(2) r show ?case by simp
qed simp

theorem generator_orders_agree_witness:
  "world_orders (run_all [(demo_gen_env ((\<lambda>_. None)(BeforeCommit := Some kill)), demo_config, 8),
     (demo_gen_env (\<lambda>_. None), demo_config, 9)] demo_quiet)"
  by (rule generator_orders_agree [OF demo_orders(2)]) (simp add: demo_config_ok)

text \<open>
  C20: A run applies its inputs all at once or not at all. Whatever interrupts it, the source is
  as it was, or it has every change of the run together with the commit row that describes it; this
  happens only when no run with the same inputs was committed before, and only with a
  \<open>logical_date\<close> later than every cursor in the source. A result that is returned is the one its
  commit row holds.
\<close>
theorem generator_applies_once:
  assumes "generator_runs_inv w" "run_generator env cfg rid w = (x, w')"
  shows "generator_runs_inv w' \<and>
    (gw_source w' = gw_source w \<or>
     (\<exists>c. gcm_config c = cfg \<and> committed_result cfg (gw_source w) = None \<and>
        generator_commits (gw_source w') = generator_commits (gw_source w) @ [(rid, c)] \<and>
        cursor_forward (instant (gc_logical_date cfg)) (gw_source w))) \<and>
    (\<forall>res. x = Inr res \<longrightarrow> reported cfg res (gw_source w'))"
  using run_generator_outcome [OF assms] by (auto simp: run_outcome_def applied_run_def)

theorem generator_applies_once_witness:
  "\<exists>x w'. run_generator (demo_gen_env (\<lambda>_. None)) demo_config 9 demo_quiet = (x, w') \<and> generator_runs_inv w' \<and> is_ok (x, w')"
proof -
  obtain x w' where run: "run_generator (demo_gen_env (\<lambda>_. None)) demo_config 9 demo_quiet = (x, w')"
    by (cases "run_generator (demo_gen_env (\<lambda>_. None)) demo_config 9 demo_quiet")
  have "is_ok (run_generator (demo_gen_env (\<lambda>_. None)) demo_config 9 demo_quiet)" by code_simp
  with run generator_applies_once [OF demo_quiet_inv run] show ?thesis by simp
qed

text \<open>
  C21: Two runs with the same inputs report the same run, counts and content hash, with any runs,
  failures and kills in between, and the second one leaves the source as it is.
\<close>
theorem generator_rerun_reuses:
  assumes "generator_runs_inv w" "run_generator env1 cfg1 rid1 w = (Inr r1, w1)"
    and "run_generator env2 cfg2 rid2 (run_all rs w1) = (Inr r2, w2)" "same_inputs cfg1 cfg2"
  shows "rs_generator_run_id r2 = rs_generator_run_id r1 \<and> rs_result_counts r2 = rs_result_counts r1 \<and>
    rs_logical_content_hash r2 = rs_logical_content_hash r1 \<and> gw_source w2 = gw_source (run_all rs w1)"
  using reports_agree [OF assms] .

theorem generator_rerun_reuses_witness:
  "\<exists>r1 w1 r2 w2. run_generator (demo_gen_env (\<lambda>_. None)) demo_config 10 demo_done = (Inr r1, w1) \<and>
     run_generator (demo_gen_env (\<lambda>_. None)) demo_config 11 w1 = (Inr r2, w2) \<and>
     rs_generator_run_id r2 = rs_generator_run_id r1 \<and> gw_source w2 = gw_source w1"
proof -
  let ?run = "run_generator (demo_gen_env (\<lambda>_. None)) demo_config"
  have "is_ok (?run 10 demo_done)" by code_simp
  then obtain r1 where r1: "?run 10 demo_done = (Inr r1, snd (?run 10 demo_done))" by (rule is_okE)
  have "is_ok (?run 11 (snd (?run 10 demo_done)))" by code_simp
  then obtain r2 where "?run 11 (snd (?run 10 demo_done)) = (Inr r2, snd (?run 11 (snd (?run 10 demo_done))))" by (rule is_okE)
  with r1 obtain w1 w2 where run: "?run 10 demo_done = (Inr r1, w1)" "?run 11 w1 = (Inr r2, w2)" by blast
  with generator_rerun_reuses [of demo_done _ demo_config 10 r1 w1 _ demo_config 11 "[]" r2 w2] demo_done_inv
  show ?thesis by auto
qed

section \<open>The lease and the cursors\<close>

text \<open>
  C22: The source transaction commits only while the run holds the source lease: if the source has
  changed, the lease the run acquired was current and unexpired at the clock that the fence read, and
  the fence's lock kept it so until the commit.
\<close>
theorem source_commits_under_lease:
  assumes "committed_mutation env cfg lease rid w = (x, w')" "gw_source w' \<noteq> gw_source w"
  shows "lease_holds lease w'"
  using committed_mutation_cases [OF assms(1)] assms(2) by blast

definition demo_lease :: "source_mutation_lease \<times> gen_world" where
  "demo_lease = (\<lparr>lease_owner_type = GENERATOR_OWNER_TYPE, lease_owner_id = 9, lease_expires_at = DEFAULT_LEASE_TTL, lease_version = 1\<rparr>,
     demo_quiet\<lparr>gw_pipeline := snd (acquire_source_mutation_lease GENERATOR_OWNER_TYPE 9 (utc 0) DEFAULT_LEASE_TTL empty_db)\<rparr>)"

theorem source_commits_under_lease_witness:
  "\<exists>x w'. committed_mutation (demo_gen_env (\<lambda>_. None)) demo_config (fst demo_lease) 9 (snd demo_lease) = (x, w') \<and>
     gw_source w' \<noteq> gw_source (snd demo_lease) \<and> lease_holds (fst demo_lease) w'"
proof -
  let ?r = "committed_mutation (demo_gen_env (\<lambda>_. None)) demo_config (fst demo_lease) 9 (snd demo_lease)"
  obtain x w' where run: "?r = (x, w')" by (cases ?r)
  have "generator_commits (gw_source (snd ?r)) \<noteq> generator_commits (gw_source (snd demo_lease))" by code_simp
  with run have "gw_source w' \<noteq> gw_source (snd demo_lease)" by auto
  with run source_commits_under_lease [OF run this] show ?thesis by blast
qed

text \<open>Rows of a table that a run has added or changed, and the old ones.\<close>

definition newer_rows :: "('r \<Rightarrow> time) \<Rightarrow> ('k, 'r) table \<Rightarrow> ('k, 'r) table \<Rightarrow> bool" where
  "newer_rows cur T T' \<longleftrightarrow> (\<forall>k r. map_of T' k = Some r \<and> map_of T k \<noteq> Some r \<longrightarrow> (\<forall>(_, old) \<in> set T. cur old < cur r)) \<and>
     (\<forall>k. map_of T k \<noteq> None \<longrightarrow> map_of T' k \<noteq> None)"

lemma stamped_newer:
  assumes "stamped_table cur t T T'" "\<forall>u \<in> set T. cur (snd u) < t"
  shows "newer_rows cur T T'"
  using assms unfolding newer_rows_def stamped_table_def by fastforce

lemma cursor_columns_of:
  assumes "cursor_forward t db"
  shows "\<forall>u \<in> set (map (cu_created_at \<circ> snd) (customers db)). u < t" "\<forall>u \<in> set (map (su_updated_at \<circ> snd) (customer_subscriptions db)). u < t"
    "\<forall>u \<in> set (map (ti_updated_at \<circ> snd) (membership_tiers db)). u < t" "\<forall>u \<in> set (map (bp_updated_at \<circ> snd) (subscription_payments db)). u < t"
    "\<forall>u \<in> set (map (or_updated_at \<circ> snd) (orders db)). u < t" "\<forall>u \<in> set (map (it_created_at \<circ> snd) (order_items db)). u < t"
    "\<forall>u \<in> set (map (pa_updated_at \<circ> snd) (order_payments db)). u < t"
proof -
  have col: "map_sum id cursor_timestamp_column (table_config ''customers'') = Inr ''created_at''"
    "map_sum id cursor_timestamp_column (table_config ''customer_subscriptions'') = Inr ''updated_at''"
    "map_sum id cursor_timestamp_column (table_config ''customer_membership_tiers'') = Inr ''updated_at''"
    "map_sum id cursor_timestamp_column (table_config ''subscription_payments'') = Inr ''updated_at''"
    "map_sum id cursor_timestamp_column (table_config ''orders'') = Inr ''updated_at''"
    "map_sum id cursor_timestamp_column (table_config ''order_items'') = Inr ''created_at''"
    "map_sum id cursor_timestamp_column (table_config ''order_payments'') = Inr ''updated_at''"
    by code_simp+
  have "\<forall>u \<in> set (column_times name column db). u < t"
    if "map_sum id cursor_timestamp_column (table_config name) = Inr column" "name \<in> set MUTABLE_SOURCE_TABLES" for name column
    using assms that by (cases "table_config name") (auto simp: cursor_forward_def)
  note all = this [OF col(1)] this [OF col(2)] this [OF col(3)] this [OF col(4)] this [OF col(5)] this [OF col(6)] this [OF col(7)]
  show "\<forall>u \<in> set (map (cu_created_at \<circ> snd) (customers db)). u < t" "\<forall>u \<in> set (map (su_updated_at \<circ> snd) (customer_subscriptions db)). u < t"
    "\<forall>u \<in> set (map (ti_updated_at \<circ> snd) (membership_tiers db)). u < t" "\<forall>u \<in> set (map (bp_updated_at \<circ> snd) (subscription_payments db)). u < t"
    "\<forall>u \<in> set (map (or_updated_at \<circ> snd) (orders db)). u < t" "\<forall>u \<in> set (map (it_created_at \<circ> snd) (order_items db)). u < t"
    "\<forall>u \<in> set (map (pa_updated_at \<circ> snd) (order_payments db)). u < t"
    using all by (simp_all add: column_times_def MUTABLE_SOURCE_TABLES_def)
qed

text \<open>
  C23: No row of the source can be missed by an incremental reader: whatever a run adds or changes,
  in any of the seven tables, has a cursor later than every cursor the table held before, and no row
  disappears.
\<close>
theorem generator_rows_newer:
  assumes "generator_runs_inv w" "run_generator env cfg rid w = (x, w')"
  shows "newer_rows cu_created_at (customers (gw_source w)) (customers (gw_source w')) \<and>
    newer_rows su_updated_at (customer_subscriptions (gw_source w)) (customer_subscriptions (gw_source w')) \<and>
    newer_rows ti_updated_at (membership_tiers (gw_source w)) (membership_tiers (gw_source w')) \<and>
    newer_rows bp_updated_at (subscription_payments (gw_source w)) (subscription_payments (gw_source w')) \<and>
    newer_rows or_updated_at (orders (gw_source w)) (orders (gw_source w')) \<and>
    newer_rows it_created_at (order_items (gw_source w)) (order_items (gw_source w')) \<and>
    newer_rows pa_updated_at (order_payments (gw_source w)) (order_payments (gw_source w'))"
proof -
  from run_generator_outcome [OF assms] have "gw_source w' = gw_source w \<or> (\<exists>c. applied_run cfg rid c (gw_source w) (gw_source w'))"
    by (simp add: run_outcome_def)
  then show ?thesis
  proof
    assume "\<exists>c. applied_run cfg rid c (gw_source w) (gw_source w')"
    then have cf: "cursor_forward (instant (gc_logical_date cfg)) (gw_source w)"
      and st: "stamped (instant (gc_logical_date cfg)) (gw_source w) ((gw_source w')\<lparr>generator_commits := generator_commits (gw_source w)\<rparr>)"
      by (auto simp: applied_run_def)
    note cols = cursor_columns_of [OF cf]
    from st show ?thesis unfolding stamped_def
      using cols by (auto intro: stamped_newer)
  qed (simp add: newer_rows_def)
qed

theorem generator_rows_newer_witness:
  "newer_rows or_updated_at (orders (gw_source demo_quiet))
     (orders (gw_source (snd (run_generator (demo_gen_env (\<lambda>_. None)) demo_config 9 demo_quiet))))"
  using generator_rows_newer [OF demo_quiet_inv prod.collapse [symmetric]] by blast

section \<open>Recovery\<close>

lemma fault_free [simp]: "ge_fault env p = None \<Longrightarrow> fault_point env p = returnM ()"
  by (simp add: fault_point_def)

lemma calm_turn [simp]: "gw_schedule w = [] \<Longrightarrow> turn w = (Inr (), w)"
  by (simp add: turn_def)

lemma release_progress:
  assumes "current_lease db = l" "lease_owner_type l \<noteq> []" "utcoffset now = Some 0"
  shows "\<exists>db'. release_source_mutation_lease l now db = (Inr (), db')"
proof -
  obtain r where row: "map_of (source_mutation_leases db) RESOURCE_NAME = Some r"
    using assms(1,2) by (cases "map_of (source_mutation_leases db) RESOURCE_NAME") (auto simp: current_lease_def)
  then have "read_lease db = (Inr l, db)" using assms(1) by (simp add: read_lease_ok current_lease_def)
  with assms(3) show ?thesis
    by (simp add: release_source_mutation_lease_def bindM_def transactionM_def assertM_apply lease_now_def update_source_lease_def)
qed

text \<open>Recording a commit again as the result of its run succeeds, because no other run can have the inputs.\<close>

lemma finish_committed:
  assumes "generator_runs_inv w" "map_of (generator_commits (gw_source w)) k = Some c" "gw_schedule w = []"
  shows "\<exists>w'. record_finished_generator_run k ''SUCCESS'' (Some (gcm_result_counts c)) (Some (gcm_logical_hash c)) None w = (Inr (), w') \<and>
     (\<exists>r. map_of (gw_generator_runs w') k = Some r \<and> gr_status r = ''SUCCESS'') \<and> gw_schedule w' = [] \<and>
     gw_pipeline w' = gw_pipeline w \<and> gw_clock w' = gw_clock w \<and> gw_source w' = gw_source w"
proof -
  note inv = runs_agreeD [OF assms(1) [unfolded generator_runs_inv_def]]
  from inv(3) [OF assms(2)] obtain r where r: "map_of (gw_generator_runs w) k = Some r" "gr_config r = gcm_config c" by blast
  have "success_free k (gw_generator_runs w)"
    unfolding success_free_def r(1) option.case(2) list_all_iff
  proof (clarify, rule ccontr)
    fix k' r' assume k': "(k', r') \<in> set (gw_generator_runs w)" "k' \<noteq> k" "gr_status r' = ''SUCCESS''" "same_inputs (gr_config r') (gr_config r)"
    from k'(1) inv(2) have "map_of (gw_generator_runs w) k' = Some r'" by (simp add: pk_ok_def)
    from inv(4) [OF this k'(3)] obtain c' where "map_of (generator_commits (gw_source w)) k' = Some c'" "run_matches r' c'" by blast
    with inv(5) [OF _ assms(2), of k' c'] k'(2,4) r(2) show False by (auto simp: run_matches_def)
  qed
  then show ?thesis using assms(3) r(1)
    by (auto simp: record_finished_generator_run_def bindM_def assertM_apply map_of_update_rows)
qed

text \<open>
  C24: A run that was killed after its commit is not lost and not repeated: the next undisturbed run
  with the same inputs, once the old lease has ended, returns the committed counts and hash, records
  the run as successful, and leaves the source as it is.
\<close>
theorem killed_run_recovers:
  assumes "generator_runs_inv w" "committed_result cfg (gw_source w) = Some (k, c)" "\<forall>p. ge_fault env p = None"
    and "gw_schedule w = []" "utcoffset (gw_clock w) = Some 0" "resolve_source_snapshot_id w = Inr (gc_source_snapshot_id cfg)"
    and "live_owner (gw_pipeline w) (instant (gw_clock w)) = None"
  shows "\<exists>res w' r. run_generator env cfg rid w = (Inr res, w') \<and> rs_generator_run_id res = k \<and>
     rs_result_counts res = gcm_result_counts c \<and> rs_logical_content_hash res = gcm_logical_hash c \<and>
     gw_source w' = gw_source w \<and> map_of (gw_generator_runs w') k = Some r \<and> gr_status r = ''SUCCESS''"
proof -
  have cm: "map_of (generator_commits (gw_source w)) k = Some c" "same_inputs (gcm_config c) cfg"
    using committed_result_Some [OF assms(2)] assms(1) by (auto simp: generator_runs_inv_def runs_agree_def)
  have clock: "gw_clock w = utc (instant (gw_clock w))" using assms(5) by (cases "gw_clock w") (simp add: utc_def)
  show ?thesis
  proof (cases "successful_result cfg w")
    case (Some res)
    then have run: "run_generator env cfg rid w = (Inr res, w)"
      using assms(3,4,6) by (simp add: run_generator_def bindM_def assertM_apply)
    from successful_result_reported [OF assms(1) Some] obtain c' where
      c': "map_of (generator_commits (gw_source w)) (rs_generator_run_id res) = Some c'" "same_inputs (gcm_config c') cfg"
        "rs_result_counts res = gcm_result_counts c'" "rs_logical_content_hash res = gcm_logical_hash c'" by (auto simp: reported_def)
    have "same_inputs (gcm_config c') (gcm_config c)" using c'(2) cm(2) same_inputs_sym same_inputs_trans by blast
    from runs_agreeD(5) [OF assms(1) [unfolded generator_runs_inv_def] c'(1) cm(1) this] have id: "rs_generator_run_id res = k" .
    from Some obtain r where "(k, r) \<in> set (gw_generator_runs w)" "gr_status r = ''SUCCESS''"
      using id by (auto simp: successful_result_def filter_eq_Cons_iff split: list.splits option.splits) blast
    moreover have "pk_ok (gw_generator_runs w)" using assms(1) by (simp add: generator_runs_inv_def runs_agree_def)
    ultimately show ?thesis using run c' cm id by (auto simp: pk_ok_def)
  next
    case None
    have "assert_owner_type GENERATOR_OWNER_TYPE = Inr ()" "0 < DEFAULT_LEASE_TTL"
      by (simp_all add: assert_owner_type_def DEFAULT_LEASE_TTL_def)
    from acquire_progress [OF this(2,1), of "gw_pipeline w" "instant (gw_clock w)" rid] assms(7) clock obtain l db1 where
      acq: "acquire_source_mutation_lease GENERATOR_OWNER_TYPE rid (gw_clock w) DEFAULT_LEASE_TTL (gw_pipeline w) = (Inr l, db1)"
      by auto
    from acquire_ok [OF acq] have l: "current_lease db1 = l" "lease_owner_type l \<noteq> []" by (auto simp: GENERATOR_OWNER_TYPE_def)
    let ?w1 = "w\<lparr>gw_pipeline := db1\<rparr>"
    have inv1: "generator_runs_inv ?w1" using assms(1) by (simp add: generator_runs_inv_def)
    from finish_committed [OF inv1, of k c] cm(1) assms(4) obtain w2 r where
      fin: "record_finished_generator_run k ''SUCCESS'' (Some (gcm_result_counts c)) (Some (gcm_logical_hash c)) None ?w1 = (Inr (), w2)"
      and w2: "map_of (gw_generator_runs w2) k = Some r" "gr_status r = ''SUCCESS''" "gw_schedule w2 = []" "gw_pipeline w2 = db1"
        "gw_clock w2 = gw_clock w" "gw_source w2 = gw_source w" by auto
    from release_progress [OF l, of "gw_clock w"] assms(5) obtain db2 where
      rel: "release_source_mutation_lease l (gw_clock w) db1 = (Inr (), db2)" by blast
    let ?res = "\<lparr>rs_generator_run_id = k, rs_result_counts = gcm_result_counts c, rs_logical_content_hash = gcm_logical_hash c,
      rs_reused_successful_run = True\<rparr>"
    have under: "run_under_lease env cfg l rid ?w1 = (Inr ?res, w2)"
      using assms(2,3) fin by (simp add: run_under_lease_def bindM_def record_at_def)
    have "run_generator env cfg rid w = (Inr ?res, w2\<lparr>gw_pipeline := db2\<rparr>)"
      using assms(3,4,6) None acq under rel w2
      by (simp add: run_generator_def bindM_def assertM_apply at_pipeline_def on_pipeline_def releasing_def exceptM_def)
    with w2 show ?thesis by simp
  qed
qed

text \<open>What a kill right after the commit leaves: the commit row, a run still RUNNING, and an expired lease.\<close>

definition demo_killed :: gen_world where
  "demo_killed = demo_done
     \<lparr>gw_generator_runs := [(9, \<lparr>gr_config = demo_config, gr_status = ''RUNNING'', gr_finished_at = None,
        gr_result_counts = None, gr_logical_hash = None, gr_error_message = None\<rparr>)],
      gw_pipeline := snd (acquire_source_mutation_lease GENERATOR_OWNER_TYPE 9 (utc 0) DEFAULT_LEASE_TTL empty_db),
      gw_clock := utc (2 * DEFAULT_LEASE_TTL)\<rparr>"

theorem killed_run_recovers_witness:
  "\<exists>k c res w'. committed_result demo_config (gw_source demo_killed) = Some (k, c) \<and>
     run_generator (demo_gen_env (\<lambda>_. None)) demo_config 10 demo_killed = (Inr res, w') \<and> rs_generator_run_id res = k"
proof -
  have inv: "generator_runs_inv demo_killed"
    by (auto simp: generator_runs_inv_def runs_agree_def demo_killed_def demo_done_def new_commit_def pk_ok_def split: if_splits)
  have "committed_result demo_config (gw_source demo_killed) \<noteq> None" by code_simp
  then obtain k c where c: "committed_result demo_config (gw_source demo_killed) = Some (k, c)" by auto
  have "gw_schedule demo_killed = []" "utcoffset (gw_clock demo_killed) = Some 0"
    "resolve_source_snapshot_id demo_killed = Inr (gc_source_snapshot_id demo_config)"
    "live_owner (gw_pipeline demo_killed) (instant (gw_clock demo_killed)) = None" by code_simp+
  with killed_run_recovers [OF inv c, of "demo_gen_env (\<lambda>_. None)" 10] c show ?thesis by (auto simp: demo_gen_env_def)
qed

section \<open>What a run is certain to do\<close>




lemma demo_contracts_ok: "contracts_ok (gw_source demo_world)"
  by (auto simp: contracts_ok_def demo_world_def demo_source_def pk_ok_def open_unique_def contract_ok_def subscription_row_ok_def
      demo_contract_def present_def later_def SUBSCRIPTION_PERIOD_def split: if_splits)


text \<open>
  C27: A new order can always be planned and always satisfies its own checks: one to three items
  numbered from 1, each from 10.00 to 1000.00 with a freight from 1.00 to 100.00, and one payment of
  exactly their total.
\<close>
theorem planned_orders_in_range:
  assumes "1 \<le> n"
  shows "\<exists>b. new_order_bundle h cfg c catalog n = Inr b \<and> order_bundle_check b = Inr () \<and> ob_customer b = c \<and>
    1 \<le> length (ob_items b) \<and> length (ob_items b) \<le> 3 \<and> (\<forall>i \<in> set (ob_items b). item_in_range (snd i)) \<and>
    map (pa_payment_value \<circ> snd) (ob_payments b) = [item_total (ob_items b)]"
  by (rule planned_bundle [OF assms])

theorem planned_orders_in_range_witness:
  "\<exists>b. new_order_bundle demo_hashing demo_config (''c1'', snd (hd (customers demo_source)))
      \<lparr>oc_products = [''p1''], oc_sellers = [''s1'']\<rparr> 1 = Inr b \<and> order_bundle_check b = Inr ()"
  using planned_orders_in_range [of 1] by blast

text \<open>
  Storing an order transition twice is storing it once: whatever the first time did, the second
  one finds the row with the status and the time of the transition, counts it as skipped and changes
  nothing.
\<close>
lemma order_transition_idempotent:
  assumes "persist_order_transition t db = (Inr x, db')" "pk_ok (orders db)"
  shows "persist_order_transition t db' = (Inr \<lparr>tr_updated = 0, tr_skipped = 1\<rparr>, db')"
proof (cases rule: persist_order_transition_cases [OF assms])
  case (1 r)
  with assms(1) show ?thesis by simp
next
  case (2 r)
  from order_transition_repeats [OF 2(2) assms(2)] show ?thesis .
qed

definition demo_transition :: order_transition where
  "demo_transition = \<lparr>ot_order_id = ''o1'', ot_expected_status = ''created'', ot_expected_updated_at = 86400000000,
     ot_next_status = ''approved'', ot_mutation_time = utc 172800000000, ot_business_event_time = None\<rparr>"

lemma order_transition_idempotent_witness:
  "persist_order_transition demo_transition (snd (persist_order_transition demo_transition demo_source)) =
     (Inr \<lparr>tr_updated = 0, tr_skipped = 1\<rparr>, snd (persist_order_transition demo_transition demo_source))"
proof -
  have "is_ok (persist_order_transition demo_transition demo_source)" by code_simp
  then obtain x where "persist_order_transition demo_transition demo_source =
      (Inr x, snd (persist_order_transition demo_transition demo_source))" by (rule is_okE)
  moreover have "pk_ok (orders demo_source)" by (simp add: demo_source_def pk_ok_def)
  ultimately show ?thesis by (rule order_transition_idempotent)
qed

end
