(* ===== verification/DataProperties.thy ===== *)
theory DataProperties
  imports IngestProperties
begin

text \<open>
  Properties of the data an ingestion run reads, names and writes: the contracts of the tables,
  the page loop, batch identities, cursors and manifests as they are stored, content hashes, the
  retry decision and the reconciliation of orphaned objects.
\<close>

section \<open>Contracts\<close>

definition contract_well_formed :: "string \<times> table_config \<Rightarrow> bool" where
  "contract_well_formed = (\<lambda>(name, c). source_table c = name \<and> table_config_check c = Inr () \<and>
     distinct (map field_name (bronze_schema c)) \<and>
     list_all (\<lambda>n. list_all (\<lambda>k. col_name k = n \<longrightarrow> \<not> nullable k) (source_columns c)) (cursor_columns c) \<and>
     list_all (\<lambda>k. col_name k = cursor_timestamp_column c \<longrightarrow> col_type k = ArrowTimestampUs) (source_columns c))"


section \<open>The page loop\<close>

text \<open>The pages against the query they stand for: everything past the watermark, in cursor order.\<close>

definition rows_past :: "table_config \<Rightarrow> source_row list \<Rightarrow> cursor_position \<Rightarrow> source_row list" where
  "rows_past cfg rows prior = sort_key (row_rank cfg) (filter (\<lambda>r. past (cursor_bound prior) (row_rank cfg r)) rows)"

lemma extracted_rows_past:
  assumes "table_config name = Inr cfg" "source_rows_ok cfg rows" "fetch_upper_bound cfg rows prior = Inr (Some upper)"
  shows "extracted_rows cfg rows prior upper = rows_past cfg rows prior"
proof -
  have "r \<in> set rows \<Longrightarrow> row_rank cfg r \<le> cursor_rank upper" for r
    using fetch_upper_bound_ok [OF assms(1,2), of prior] assms(3) by auto
  then show ?thesis
    unfolding extracted_rows_def source_reader.in_range_def rows_past_def
    by (intro arg_cong [where f = "sort_key (row_rank cfg)"] filter_cong) auto
qed

lemma opened_snapshot:
  assumes "open_table_snapshot environment rows cfg prior page_size = Inr s"
  shows "0 < snap_page_size s \<and> table_config (source_table cfg) = Inr cfg \<and> snap_rows s = rows \<and> snap_config s = cfg \<and>
    snap_watermark_before s = prior \<and> fetch_upper_bound cfg rows prior = Inr (snap_extract_upper_bound s)"
  using assms unfolding open_table_snapshot_def assert_supported_config_def
  by (auto split: sum.splits)

text \<open>
  C36: The page loop ends on every snapshot: its pages, each with at least one and at most
  \<open>page_size\<close> rows, put together are every row past the watermark exactly once and in cursor order,
  and a snapshot taken again at the upper bound has nothing to read.
\<close>

theorem snapshot_pages_complete:
  assumes "open_table_snapshot environment rows cfg prior page_size = Inr s" "source_rows_ok cfg rows"
  shows "\<exists>ps. pages s = Some (ps, None) \<and>
    concat (map page_records ps) = map (row_record cfg) (rows_past cfg rows prior) \<and>
    list_all (\<lambda>p. 0 < length (page_records p) \<and> length (page_records p) \<le> snap_page_size s) ps \<and>
    fetch_upper_bound cfg rows (case snap_extract_upper_bound s of None \<Rightarrow> prior | Some c \<Rightarrow> c) = Inr None"
proof -
  from opened_snapshot [OF assms(1)] have n: "0 < snap_page_size s" "table_config (source_table cfg) = Inr cfg"
      "fetch_upper_bound cfg rows prior = Inr (snap_extract_upper_bound s)"
    and f: "snap_rows s = rows" "snap_config s = cfg" "snap_watermark_before s = prior" by auto
  show ?thesis
  proof (cases "snap_extract_upper_bound s")
    case None
    with n(3) fetch_upper_bound_ok [OF n(2) assms(2), of prior] have "rows_past cfg rows prior = []"
      by (auto simp: rows_past_def filter_empty_conv)
    with None n(3) show ?thesis by (simp add: pages_def)
  next
    case (Some upper)
    with n(3) have up: "fetch_upper_bound cfg rows prior = Inr (Some upper)" by simp
    from pages_from_complete [OF n(2) assms(2) n(1), of upper prior] Some show ?thesis
      by (auto simp: pages_def f extracted_rows_past [OF n(2) assms(2) up] fetch_upper_bound_again [OF n(2) assms(2) up]
          list_all_iff)
  qed
qed

theorem snapshot_pages_complete_witness:
  "\<exists>ps. pages \<lparr>snap_rows = demo_rows, snap_config = SELLERS_TABLE,
      snap_watermark_before = \<lparr>cp_timestamp = None, cp_keys = []\<rparr>,
      snap_extract_upper_bound = Some (row_position SELLERS_TABLE (demo_rows ! 1)), snap_page_size = 1\<rparr> = Some (ps, None) \<and>
    concat (map page_records ps) = map (row_record SELLERS_TABLE) demo_rows"
proof -
  let ?s = "\<lparr>snap_rows = demo_rows, snap_config = SELLERS_TABLE,
      snap_watermark_before = \<lparr>cp_timestamp = None, cp_keys = []\<rparr>,
      snap_extract_upper_bound = Some (row_position SELLERS_TABLE (demo_rows ! 1)), snap_page_size = 1\<rparr>"
  have "open_table_snapshot [] demo_rows SELLERS_TABLE \<lparr>cp_timestamp = None, cp_keys = []\<rparr> (Some 1) = Inr ?s"
    by code_simp
  moreover have "rows_past SELLERS_TABLE demo_rows \<lparr>cp_timestamp = None, cp_keys = []\<rparr> = demo_rows"
    by code_simp
  ultimately show ?thesis using snapshot_pages_complete [OF _ demo_rows_ok, of "[]"] by fastforce
qed

section \<open>Identities\<close>

text \<open>The compact form has whole seconds.\<close>

lemma compact_utc_by_second:
  "compact_utc t = (case ord2ymd (nat (t div 1000000 div 86400) + 1) of (y, m, d) \<Rightarrow>
     (\<lambda>s. pad 4 y @ pad 2 m @ pad 2 d @ ''T'' @ pad 2 (s div 3600) @ pad 2 (s div 60 mod 60) @ pad 2 (s mod 60) @ ''Z'')
       (nat (t div 1000000 mod 86400)))"
proof -
  have day: "t div day_us = t div 1000000 div 86400"
    by (simp only: day_us_def zdiv_zmult2_eq [symmetric]) simp
  have "t mod day_us = 1000000 * (t div 1000000 mod 86400) + t mod 1000000"
    using zmod_zmult2_eq [of 86400 t 1000000] by (simp add: day_us_def)
  then have "t mod day_us div 1000000 = t div 1000000 mod 86400" by simp
  moreover have "nat (t mod day_us) div 1000000 = nat (t mod day_us div 1000000)"
    by (simp add: nat_div_distrib day_us_def)
  ultimately have sec: "nat (t mod day_us) div 1000000 = nat (t div 1000000 mod 86400)" by simp
  show ?thesis
    by (cases "ord2ymd (nat (t div 1000000 div 86400) + 1)")
       (simp only: compact_utc_def civil_of_def Let_def day sec prod.case civil.simps)
qed

lemma compact_utc_seconds: "s div 1000000 = t div 1000000 \<Longrightarrow> compact_utc s = compact_utc t"
  by (simp only: compact_utc_by_second)

text \<open>
  C37: Two ingested batches have the same table batch id, and so the same catalog row and object
  keys, only when they are of the same table and DAG and of the same second of the logical date.
\<close>

theorem table_batch_id_identifies:
  assumes "table_batch a n = Inr i" "table_batch b m = Inr j"
    and "supported_time (instant (bi_logical_date a))" "supported_time (instant (bi_logical_date b))"
  shows "table_batch_id i = table_batch_id j \<longleftrightarrow>
    n = m \<and> bi_dag_id a = bi_dag_id b \<and>
    instant (bi_logical_date a) div 1000000 = instant (bi_logical_date b) div 1000000"
    (is "?L \<longleftrightarrow> ?R")
proof
  assume ?L
  with table_batch_id_eq [OF assms(1,2)] have same: "n = m" "batch_id a = batch_id b" by auto
  then have "bi_dag_id a = bi_dag_id b \<and> compact_utc (instant (bi_logical_date a)) = compact_utc (instant (bi_logical_date b))"
    using append_eq_append_conv [of "''__'' @ compact_utc (instant (bi_logical_date a))"
        "''__'' @ compact_utc (instant (bi_logical_date b))" "bi_dag_id a" "bi_dag_id b"]
    by (simp add: batch_id_def)
  with compact_utc_inject [OF assms(3,4)] same show ?R by auto
next
  assume ?R
  then have "compact_utc (instant (bi_logical_date a)) = compact_utc (instant (bi_logical_date b))"
    using compact_utc_seconds by blast
  with \<open>?R\<close> assms(1,2) show ?L by (auto simp: table_batch_ok table_batch_id_def batch_id_def)
qed

theorem table_batch_id_identifies_witness:
  "table_batch_id \<lparr>tbi_batch = \<lparr>bi_dag_id = ''warehouse'', bi_logical_date = utc 0\<rparr>, tbi_config = SELLERS_TABLE\<rparr> =
   table_batch_id \<lparr>tbi_batch = \<lparr>bi_dag_id = ''warehouse'', bi_logical_date = utc 999999\<rparr>, tbi_config = SELLERS_TABLE\<rparr>"
  using table_batch_id_identifies [of "\<lparr>bi_dag_id = ''warehouse'', bi_logical_date = utc 0\<rparr>" "''sellers''" _
      "\<lparr>bi_dag_id = ''warehouse'', bi_logical_date = utc 999999\<rparr>" "''sellers''"]
  by (simp add: table_batch_def demo_config supported_time_def day_us_def utc_def)

section \<open>Stored cursors and manifests\<close>

definition cursor_storable :: "cursor_position \<Rightarrow> bool" where
  "cursor_storable c \<longleftrightarrow> cursor_ok c \<and> (case cp_timestamp c of None \<Rightarrow> True | Some t \<Rightarrow> supported_time t)"

text \<open>
  C38: A cursor written into the catalog or a manifest is read back as the same cursor, timestamp
  to the microsecond and keys with their types, by the catalog's reader in any local time zone and by
  the manifest's.
\<close>

theorem stored_cursor_round_trip:
  assumes "cursor_storable c"
  shows "cursor_from_metadata local_offset (as_metadata_json c) = Inr c \<and>
    cursor_from_manifest_payload (as_metadata_json c) = Inr c"
proof -
  from assms have "cursor_ok c" "\<forall>t. cp_timestamp c = Some t \<longrightarrow> supported_time t"
    by (auto simp: cursor_storable_def)
  then show ?thesis
    using cursor_from_metadata_as_metadata_json cursor_from_manifest_as_metadata_json by blast
qed

theorem stored_cursor_round_trip_witness:
  "cursor_from_metadata (\<lambda>_. 540) (as_metadata_json \<lparr>cp_timestamp = Some 63000000000000001, cp_keys = [KStr ''o1'', KInt 2]\<rparr>) =
   Inr \<lparr>cp_timestamp = Some 63000000000000001, cp_keys = [KStr ''o1'', KInt 2]\<rparr>"
  using stored_cursor_round_trip [of "\<lparr>cp_timestamp = Some 63000000000000001, cp_keys = [KStr ''o1'', KInt 2]\<rparr>" "\<lambda>_. 540"]
  by (simp add: cursor_storable_def cursor_ok_def supported_time_def day_us_def)

definition manifest_storable :: "bronze_manifest \<Rightarrow> bool" where
  "manifest_storable m \<longleftrightarrow> bronze_manifest_check m = Inr () \<and> bm_source_table m \<in> set table_names \<and>
     supported_time (instant (bm_logical_date m)) \<and> cursor_storable (bm_watermark_before m) \<and>
     cursor_storable (bm_extract_upper_bound m)"

lemma table_names_config: "n \<in> set table_names \<Longrightarrow> \<exists>c. table_config n = Inr c"
  unfolding table_names_def table_config_def
  using map_of_eq_None_iff [of TABLE_CONFIGS n] by (cases "map_of TABLE_CONFIGS n") auto

text \<open>
  C39: Every manifest that a run writes is accepted by the reader that recovery uses, under the key
  of its own object, and gives back the run, the batch and both cursors.
\<close>

theorem manifest_round_trip:
  assumes "manifest_storable m"
  shows "\<exists>j. parse_bronze_manifest_payload (JsonBody (bronze_manifest_json m)) (bm_object_key m) = Inr j \<and>
    cursor_from_manifest_payload (json_get ''watermark_before'' j) = Inr (bm_watermark_before m) \<and>
    cursor_from_manifest_payload (json_get ''extract_upper_bound'' j) = Inr (bm_extract_upper_bound m) \<and>
    json_get ''run_id'' j = JStr (uuid_str (bm_run_id m)) \<and> json_get ''batch_id'' j = JStr (bm_batch_id m) \<and>
    utc_datetime_from_manifest (json_text (json_get ''logical_date'' j)) = Inr (utc (instant (bm_logical_date m)))"
proof -
  obtain cfg where cfg: "table_config (bm_source_table m) = Inr cfg"
    using assms table_names_config by (auto simp: manifest_storable_def)
  from assms have c: "bronze_manifest_check m = Inr ()" "cursor_ok (bm_watermark_before m)"
      "cursor_ok (bm_extract_upper_bound m)" "manifest_times_ok m"
    by (auto simp: manifest_storable_def cursor_storable_def manifest_times_ok_def)
  have "fromisoformat (isoformat (instant (bm_logical_date m))) = Some (utc (instant (bm_logical_date m)))"
    using assms fromisoformat_isoformat by (simp add: manifest_storable_def utc_def)
  then show ?thesis
    using parse_manifest_round_trip [OF c(1) cfg c(2-4)] c
    by (auto simp: manifest_json_get cursor_from_manifest_as_metadata_json manifest_times_ok_def json_text_def
        utc_datetime_from_manifest_def)
qed

definition demo_manifest :: bronze_manifest where
  "demo_manifest = \<lparr>bm_batch_id = ''warehouse__1'', bm_run_id = 7, bm_source_table = ''sellers'', bm_logical_date = utc 0,
     bm_watermark_before = \<lparr>cp_timestamp = None, cp_keys = []\<rparr>,
     bm_extract_upper_bound = \<lparr>cp_timestamp = Some 1, cp_keys = [KStr ''s2'']\<rparr>, bm_object_key = ''bronze/1'',
     bm_object_size = 1, bm_content_sha256 = replicate 64 CHR ''0'', bm_logical_hash = replicate 64 CHR ''1'',
     bm_row_count = 2, bm_created_at = utc 2, bm_schema_version = 3, bm_manifest_version = 1, bm_object_state = ''VERIFIED''\<rparr>"

theorem manifest_round_trip_witness:
  "\<exists>j. parse_bronze_manifest_payload (JsonBody (bronze_manifest_json demo_manifest)) ''bronze/1'' = Inr j \<and>
    json_get ''batch_id'' j = JStr ''warehouse__1''"
proof -
  have "manifest_storable demo_manifest" by code_simp
  from manifest_round_trip [OF this] show ?thesis by (auto simp: demo_manifest_def)
qed

section \<open>Content hashes\<close>

text \<open>
  C40: The logical hash of a batch depends on its business content only: rows read in another order,
  by another run, at another time, hash to the same value.
\<close>

theorem logical_hash_content_only:
  assumes "table_config name = Inr cfg" "distinct (map (business_key cfg) rows)"
    and "mset rows = mset reread" "list_all2 (same_business cfg) reread rows'"
  shows "table_logical_hash enc cfg rows = table_logical_hash enc cfg rows'"
  using logical_text_order [OF assms(3,2)] logical_text_technical [OF assms(1,4)]
  by (simp add: table_logical_hash_def)

theorem logical_hash_content_only_witness:
  "table_logical_hash demo_encoding SELLERS_TABLE
     [[(''seller_id'', VStr ''s1''), (''_run_id'', VStr ''r1'')], [(''seller_id'', VStr ''s2''), (''_run_id'', VStr ''r1'')]] =
   table_logical_hash demo_encoding SELLERS_TABLE
     [[(''seller_id'', VStr ''s2''), (''_run_id'', VStr ''r2'')], [(''seller_id'', VStr ''s1''), (''_run_id'', VStr ''r2'')]]"
proof (rule logical_hash_content_only [OF demo_config])
  let ?r = "[[(''seller_id'', VStr ''s2''), (''_run_id'', VStr ''r1'')], [(''seller_id'', VStr ''s1''), (''_run_id'', VStr ''r1'')]]"
  show "mset [[(''seller_id'', VStr ''s1''), (''_run_id'', VStr ''r1'')], [(''seller_id'', VStr ''s2''), (''_run_id'', VStr ''r1'')]] =
      mset ?r" by simp
  show "distinct (map (business_key SELLERS_TABLE)
     [[(''seller_id'', VStr ''s1''), (''_run_id'', VStr ''r1'')], [(''seller_id'', VStr ''s2''), (''_run_id'', VStr ''r1'')]])"
    by code_simp
  show "list_all2 (same_business SELLERS_TABLE) ?r
     [[(''seller_id'', VStr ''s2''), (''_run_id'', VStr ''r2'')], [(''seller_id'', VStr ''s1''), (''_run_id'', VStr ''r2'')]]"
    by code_simp
qed

section \<open>Retry decisions\<close>

text \<open>
  The orchestrator retries exactly the failures that waiting can cure: a lease another process
  holds, a connection or database that does not answer, and an object store that throttles or
  reports a server error. Every other exception, a lost lease included, is final.
\<close>

lemma retry_iff_transient:
  assumes "\<And>t. exn_class e = WarehouseBuildError t \<Longrightarrow> t \<in> set WAREHOUSE_ERROR_TYPES"
  shows "is_retryable e \<longleftrightarrow>
    exn_class e \<in> {LeaseUnavailableError, TableLeaseUnavailableError, PublishInProgressError,
      OperationalError, ConnectionError, TimeoutError} \<or>
    (\<exists>code n. exn_class e = ClientError code (Some n) \<and> (n = 429 \<or> (500 \<le> n \<and> n < 600)))"
  using assms by (rule is_retryable_iff)

lemma retry_iff_transient_witness:
  "is_retryable (Exn (ClientError ''SlowDown'' (Some 503)) []) \<and> \<not> is_retryable (Exn LeaseOwnershipLostError [])"
  using retry_iff_transient [of "Exn (ClientError ''SlowDown'' (Some 503)) []"] retry_iff_transient [of "Exn LeaseOwnershipLostError []"]
  by simp

end
