(* ===== verification/Publish.thy ===== *)
theory Publish
  imports Recovery Errors Effects
begin

text \<open>
  The publication table (src/warehouse/publish_metadata.py over
  sql/metadata/005_create_mart_publish_runs.sql): its rows and constraints, every transaction on
  it, and the two facts the publication rests on - the constraints survive every transaction, and
  a run's row only moves forward from BUILDING to PUBLISHING to PUBLISHED, or to FAILED.
\<close>

section \<open>Rows and constraints\<close>

record file_identity =
  fi_inode :: int
  fi_mtime_ns :: int

datatype publish_status = BUILDING | PUBLISHING | PUBLISHED | PUBLISH_FAILED

definition ACTIVE_STATUSES :: "publish_status list" where
  "ACTIVE_STATUSES = [BUILDING, PUBLISHING]"

record publish_row =
  pr_pipeline_name :: string
  pr_batch_id :: "string option"
  pr_dag_run_id :: "string option"
  pr_dbt_invocation_id :: "string option"
  pr_status :: publish_status
  pr_error_type :: "string option"
  pr_error_message :: "string option"
  pr_previous_publish_run_id :: "uuid option"
  pr_mart_hashes :: "(string \<times> string) list option"
  pr_mart_row_counts :: "(string \<times> int) list option"
  pr_published_inode :: "int option"
  pr_published_mtime_ns :: "int option"
  pr_tests_passed :: int
  pr_tests_failed :: int
  pr_failed_path :: "string option"
  pr_started_at :: time
  pr_heartbeat_at :: "time option"
  pr_finished_at :: "time option"

type_synonym publish_table = "(uuid, publish_row) table"

definition pr_active :: "publish_row \<Rightarrow> bool" where
  "pr_active r \<longleftrightarrow> pr_status r \<in> set ACTIVE_STATUSES"

definition fits_in :: "nat \<Rightarrow> string option \<Rightarrow> bool" where
  "fits_in n s = (case s of None \<Rightarrow> True | Some t \<Rightarrow> length t \<le> n)"

definition int_fits :: "nat \<Rightarrow> int \<Rightarrow> bool" where
  "int_fits bits n \<longleftrightarrow> - (2 ^ (bits - 1)) \<le> n \<and> n < 2 ^ (bits - 1)"

text \<open>The widths of the columns.\<close>

definition publish_row_fits :: "publish_row \<Rightarrow> bool" where
  "publish_row_fits r \<longleftrightarrow>
     fits_in 128 (Some (pr_pipeline_name r)) \<and> fits_in 192 (pr_batch_id r) \<and> fits_in 250 (pr_dag_run_id r) \<and>
     fits_in 64 (pr_dbt_invocation_id r) \<and> fits_in 64 (pr_error_type r) \<and>
     int_fits 32 (pr_tests_passed r) \<and> int_fits 32 (pr_tests_failed r) \<and>
     (case pr_published_inode r of None \<Rightarrow> True | Some n \<Rightarrow> int_fits 64 n) \<and>
     (case pr_published_mtime_ns r of None \<Rightarrow> True | Some n \<Rightarrow> int_fits 64 n)"

text \<open>The CHECK constraints.\<close>

definition publish_row_ok :: "publish_row \<Rightarrow> bool" where
  "publish_row_ok r \<longleftrightarrow>
     pr_pipeline_name r \<noteq> [] \<and> 0 \<le> pr_tests_passed r \<and> 0 \<le> pr_tests_failed r \<and>
     (pr_active r \<longleftrightarrow> pr_finished_at r = None) \<and>
     (if pr_status r = PUBLISH_FAILED then (\<exists>t. pr_error_type r = Some t \<and> t \<noteq> [])
      else pr_error_type r = None \<and> pr_error_message r = None) \<and>
     (pr_status r \<in> {PUBLISHING, PUBLISHED} \<longrightarrow> pr_mart_hashes r \<noteq> None \<and> pr_mart_row_counts r \<noteq> None)"

lemma publish_row_ok_code [code]:
  "publish_row_ok r \<longleftrightarrow>
     pr_pipeline_name r \<noteq> [] \<and> 0 \<le> pr_tests_passed r \<and> 0 \<le> pr_tests_failed r \<and>
     (pr_active r \<longleftrightarrow> pr_finished_at r = None) \<and>
     (if pr_status r = PUBLISH_FAILED then (case pr_error_type r of None \<Rightarrow> False | Some t \<Rightarrow> t \<noteq> [])
      else pr_error_type r = None \<and> pr_error_message r = None) \<and>
     (pr_status r \<in> {PUBLISHING, PUBLISHED} \<longrightarrow> pr_mart_hashes r \<noteq> None \<and> pr_mart_row_counts r \<noteq> None)"
  by (auto simp: publish_row_ok_def split: option.splits)

section \<open>Transactions\<close>

record publish_run =
  pub_publish_run_id :: uuid
  pub_pipeline_name :: string
  pub_batch_id :: "string option"
  pub_dag_run_id :: "string option"

record publish_record =
  rec_publish_run_id :: uuid
  rec_status :: publish_status
  rec_started_at :: time
  rec_previous_publish_run_id :: "uuid option"
  rec_mart_hashes :: "(string \<times> string) list option"
  rec_error_type :: "string option"
  rec_published_identity :: "file_identity option"

definition record_of_row :: "uuid \<times> publish_row \<Rightarrow> publish_record" where
  "record_of_row = (\<lambda>(k, r). \<lparr>rec_publish_run_id = k, rec_status = pr_status r, rec_started_at = pr_started_at r,
     rec_previous_publish_run_id = pr_previous_publish_run_id r, rec_mart_hashes = pr_mart_hashes r,
     rec_error_type = pr_error_type r,
     rec_published_identity = (case (pr_published_inode r, pr_published_mtime_ns r) of
        (Some i, Some m) \<Rightarrow> Some \<lparr>fi_inode = i, fi_mtime_ns = m\<rparr> | _ \<Rightarrow> None)\<rparr>)"

text \<open>\<open>WHERE status = 'PUBLISHED' ORDER BY finished_at DESC, started_at DESC LIMIT 1\<close>.\<close>

definition latest_published :: "publish_table \<Rightarrow> (uuid \<times> publish_row) option" where
  "latest_published t =
     (case sort_key (\<lambda>(_, r). (- the (pr_finished_at r), - pr_started_at r))
        (filter (\<lambda>(_, r). pr_status r = PUBLISHED) t) of
        [] \<Rightarrow> None | x # _ \<Rightarrow> Some x)"

definition new_publish_row :: "publish_run \<Rightarrow> uuid option \<Rightarrow> time \<Rightarrow> publish_row" where
  "new_publish_row run previous now = \<lparr>pr_pipeline_name = pub_pipeline_name run, pr_batch_id = pub_batch_id run,
     pr_dag_run_id = pub_dag_run_id run, pr_dbt_invocation_id = None, pr_status = BUILDING, pr_error_type = None,
     pr_error_message = None, pr_previous_publish_run_id = previous, pr_mart_hashes = None, pr_mart_row_counts = None,
     pr_published_inode = None, pr_published_mtime_ns = None, pr_tests_passed = 0, pr_tests_failed = 0,
     pr_failed_path = None, pr_started_at = now, pr_heartbeat_at = Some now, pr_finished_at = None\<rparr>"

text \<open>
  The single INSERT: column widths and CHECK constraints come before the unique indexes, and the
  primary key before the index that allows one active row.
\<close>

definition start_publish_run :: "publish_run \<Rightarrow> time \<Rightarrow> (publish_table, publish_record) op" where
  "start_publish_run run now =
     bindM (getM (\<lambda>t. new_publish_row run (map_option fst (latest_published t)) now)) (\<lambda>row.
     bindM (assertM (publish_row_fits row) (OtherError ''DataError'') ''value too long'') (\<lambda>_.
     bindM (assertM (publish_row_ok row) (OtherError ''CheckViolation'') ''new row violates a check constraint'') (\<lambda>_.
     bindM (getM (\<lambda>t. map_of t (pub_publish_run_id run) = None)) (\<lambda>free.
     bindM (assertM free (UniqueViolation ''mart_publish_runs_pkey'') ''duplicate key value violates unique constraint'') (\<lambda>_.
     bindM (getM (\<lambda>t. list_ex (\<lambda>(_, r). pr_active r) t)) (\<lambda>busy.
     bindM (assertM (\<not> busy) PublishInProgressError ''Another mart publish run is active'') (\<lambda>_.
     bindM (modifyM (\<lambda>t. t @ [(pub_publish_run_id run, row)])) (\<lambda>_.
     returnM (record_of_row (pub_publish_run_id run, row))))))))))"

text \<open>\<open>UPDATE mart_publish_runs SET ... WHERE ...\<close>: the keys of the rows it changed.\<close>

definition update_publish :: "(uuid \<Rightarrow> publish_row \<Rightarrow> bool) \<Rightarrow> (publish_row \<Rightarrow> publish_row) \<Rightarrow> (publish_table, uuid list) op" where
  "update_publish p f =
     bindM (getM (filter (\<lambda>(k, r). p k r))) (\<lambda>rows.
     bindM (assertM (list_all (\<lambda>(_, r). publish_row_fits (f r)) rows) (OtherError ''DataError'') ''value out of range'') (\<lambda>_.
     bindM (assertM (list_all (\<lambda>(_, r). publish_row_ok (f r)) rows) (OtherError ''CheckViolation'')
              ''new row violates a check constraint'') (\<lambda>_.
     bindM (modifyM (update_rows p f)) (\<lambda>_.
     returnM (map fst rows)))))"

definition publish_transition ::
    "uuid \<Rightarrow> publish_status list \<Rightarrow> (publish_row \<Rightarrow> publish_row) \<Rightarrow> (publish_table, unit) op" where
  "publish_transition rid expected f = transactionM
     (bindM (update_publish (\<lambda>k r. k = rid \<and> pr_status r \<in> set expected) f) (\<lambda>ids.
      assertM (length ids = 1) PublishStateError (''Publish run '' @ uuid_str rid @ '' is not in an expected status'')))"

definition record_dbt_result :: "uuid \<Rightarrow> string option \<Rightarrow> int \<Rightarrow> int \<Rightarrow> (publish_table, unit) op" where
  "record_dbt_result rid invocation_id passed failed = publish_transition rid [BUILDING]
     (\<lambda>r. r\<lparr>pr_dbt_invocation_id := invocation_id, pr_tests_passed := passed, pr_tests_failed := failed\<rparr>)"

definition mark_publishing ::
    "uuid \<Rightarrow> (string \<times> string) list \<Rightarrow> (string \<times> int) list \<Rightarrow> file_identity \<Rightarrow> (publish_table, unit) op" where
  "mark_publishing rid hashes counts identity = publish_transition rid [BUILDING]
     (\<lambda>r. r\<lparr>pr_status := PUBLISHING, pr_mart_hashes := Some hashes, pr_mart_row_counts := Some counts,
        pr_published_inode := Some (fi_inode identity), pr_published_mtime_ns := Some (fi_mtime_ns identity)\<rparr>)"

definition mark_published :: "uuid \<Rightarrow> time \<Rightarrow> (publish_table, unit) op" where
  "mark_published rid now = publish_transition rid [PUBLISHING]
     (\<lambda>r. r\<lparr>pr_status := PUBLISHED, pr_finished_at := Some now\<rparr>)"

definition ERROR_MESSAGE_LIMIT :: nat where "ERROR_MESSAGE_LIMIT = 4000"

definition mark_failed :: "uuid \<Rightarrow> string \<Rightarrow> string \<Rightarrow> string option \<Rightarrow> time \<Rightarrow> (publish_table, unit) op" where
  "mark_failed rid error_type message failed_path now = publish_transition rid ACTIVE_STATUSES
     (\<lambda>r. r\<lparr>pr_status := PUBLISH_FAILED, pr_error_type := Some error_type,
        pr_error_message := Some (take ERROR_MESSAGE_LIMIT message), pr_failed_path := failed_path,
        pr_finished_at := Some now\<rparr>)"

definition record_failed_path :: "uuid \<Rightarrow> string \<Rightarrow> (publish_table, unit) op" where
  "record_failed_path rid path = publish_transition rid [PUBLISH_FAILED] (\<lambda>r. r\<lparr>pr_failed_path := Some path\<rparr>)"

definition get_publish_run :: "uuid \<Rightarrow> (publish_table, publish_record option) op" where
  "get_publish_run rid = getM (\<lambda>t. map_option (\<lambda>r. record_of_row (rid, r)) (map_of t rid))"

definition get_latest_publish_run :: "(publish_table, publish_record option) op" where
  "get_latest_publish_run = getM (\<lambda>t. map_option record_of_row (latest_published t))"

definition signal_of :: "publish_row \<Rightarrow> time" where
  "signal_of r = (case pr_heartbeat_at r of Some h \<Rightarrow> h | None \<Rightarrow> pr_started_at r)"

definition stale :: "time \<Rightarrow> publish_row \<Rightarrow> bool" where
  "stale stale_before r \<longleftrightarrow> pr_active r \<and> signal_of r < stale_before"

definition stale_active_runs :: "time \<Rightarrow> (publish_table, publish_record list) op" where
  "stale_active_runs stale_before = getM (\<lambda>t. map record_of_row
     (sort_key (\<lambda>(_, r). pr_started_at r) (filter (\<lambda>(_, r). stale stale_before r) t)))"

definition touch_publish_run :: "uuid \<Rightarrow> time \<Rightarrow> (publish_table, bool) op" where
  "touch_publish_run rid now =
     bindM (update_publish (\<lambda>k r. k = rid \<and> pr_active r) (\<lambda>r. r\<lparr>pr_heartbeat_at := Some now\<rparr>)) (\<lambda>ids.
     returnM (length ids = 1))"

definition ABANDONED_MESSAGE :: string where "ABANDONED_MESSAGE = ''abandoned''"
definition RECLAIMED_MESSAGE :: string where "RECLAIMED_MESSAGE = ''abandoned: reclaimed by same DAG run retry''"

definition close_stale_run :: "uuid \<Rightarrow> bool \<Rightarrow> time \<Rightarrow> time \<Rightarrow> (publish_table, bool) op" where
  "close_stale_run rid published stale_before now =
     bindM (update_publish (\<lambda>k r. k = rid \<and> stale stale_before r)
       (\<lambda>r. r\<lparr>pr_status := (if published then PUBLISHED else PUBLISH_FAILED), pr_finished_at := Some now,
          pr_error_type := (if published then None else Some UNKNOWN_ERROR),
          pr_error_message := (if published then None else Some ABANDONED_MESSAGE)\<rparr>)) (\<lambda>ids.
     returnM (length ids = 1))"

definition close_dag_run_building :: "string \<Rightarrow> string \<Rightarrow> time \<Rightarrow> (publish_table, uuid list) op" where
  "close_dag_run_building pipeline dag_run now =
     update_publish (\<lambda>_ r. pr_status r = BUILDING \<and> pr_pipeline_name r = pipeline \<and> pr_dag_run_id r = Some dag_run)
       (\<lambda>r. r\<lparr>pr_status := PUBLISH_FAILED, pr_error_type := Some UNKNOWN_ERROR,
          pr_error_message := Some RECLAIMED_MESSAGE, pr_finished_at := Some now\<rparr>)"

definition assert_no_active_publish :: "(publish_table, unit) op" where
  "assert_no_active_publish = bindM (getM (filter (\<lambda>(_, r). pr_active r))) (\<lambda>rows. case rows of
      [] \<Rightarrow> returnM ()
    | (k, _) # _ \<Rightarrow> raiseM PublishInProgressError (''Mart publish run '' @ uuid_str k @ '' is active''))"

section \<open>What every transaction keeps\<close>

definition known_run :: "publish_table \<Rightarrow> uuid option \<Rightarrow> bool" where
  "known_run t p = (case p of None \<Rightarrow> True | Some k \<Rightarrow> map_of t k \<noteq> None)"

lemma known_run_mono: "known_run t p \<Longrightarrow> (\<And>k. map_of t k \<noteq> None \<Longrightarrow> map_of t' k \<noteq> None) \<Longrightarrow> known_run t' p"
  by (auto simp: known_run_def split: option.splits)

definition publish_inv :: "publish_table \<Rightarrow> bool" where
  "publish_inv t \<longleftrightarrow> pk_ok t \<and> list_all (\<lambda>(_, r). publish_row_fits r \<and> publish_row_ok r) t \<and>
     length (filter (\<lambda>(_, r). pr_active r) t) \<le> 1 \<and>
     list_all (\<lambda>(_, r). known_run t (pr_previous_publish_run_id r)) t"

text \<open>
  How one row may change. What the publication checked - hashes, counts and the identity of the
  file - is fixed once the row is PUBLISHING, and a finished row only gains the path of its
  quarantined build.
\<close>

definition fixed_part :: "publish_row \<Rightarrow> string \<times> string option \<times> string option \<times> uuid option \<times> time" where
  "fixed_part r = (pr_pipeline_name r, pr_batch_id r, pr_dag_run_id r, pr_previous_publish_run_id r, pr_started_at r)"

definition checked_part ::
    "publish_row \<Rightarrow> (string \<times> string) list option \<times> (string \<times> int) list option \<times> int option \<times> int option" where
  "checked_part r = (pr_mart_hashes r, pr_mart_row_counts r, pr_published_inode r, pr_published_mtime_ns r)"

definition without_path :: "publish_row \<Rightarrow> publish_row" where
  "without_path r = r\<lparr>pr_failed_path := None\<rparr>"

definition row_forward :: "publish_row \<Rightarrow> publish_row \<Rightarrow> bool" where
  "row_forward r r' \<longleftrightarrow> fixed_part r' = fixed_part r \<and>
     (pr_status r = BUILDING \<or> pr_status r' \<noteq> BUILDING \<and> checked_part r' = checked_part r) \<and>
     (pr_active r \<or> r' = r \<or> pr_status r = PUBLISH_FAILED \<and> without_path r' = without_path r)"

lemma row_forward_refl: "row_forward r r"
  by (simp add: row_forward_def)

lemma without_path_status: "without_path r' = without_path r \<Longrightarrow> pr_status r' = pr_status r"
  by (drule arg_cong [where f = pr_status]) (simp add: without_path_def)

lemma row_forward_trans: "row_forward r r' \<Longrightarrow> row_forward r' r'' \<Longrightarrow> row_forward r r''"
  unfolding row_forward_def by (metis without_path_status pr_active_def)

definition publish_step :: "publish_table \<Rightarrow> publish_table \<Rightarrow> bool" where
  "publish_step t t' \<longleftrightarrow> (publish_inv t \<longrightarrow> publish_inv t') \<and>
     (\<forall>k r. map_of t k = Some r \<longrightarrow> (\<exists>r'. map_of t' k = Some r' \<and> row_forward r r'))"

interpretation publish_order: effect_order publish_step
proof
  show "publish_step t t" for t by (auto simp: publish_step_def intro: row_forward_refl)
  show "publish_step t t''" if "publish_step t t'" "publish_step t' t''" for t t' t''
    using that unfolding publish_step_def by (meson row_forward_trans)
qed

lemma filter_update_rows_le:
  assumes "\<And>k r. p k r \<Longrightarrow> q (f r) \<Longrightarrow> q r"
  shows "length (filter (\<lambda>(_, r). q r) (update_rows p f t)) \<le> length (filter (\<lambda>(_, r). q r) t)"
  using assms by (induction t) (auto simp: update_rows_def le_SucI split: if_splits)

lemma update_publish_moves:
  assumes "\<And>k r. p k r \<Longrightarrow> row_forward r (f r)" and "\<And>k r. p k r \<Longrightarrow> pr_active (f r) \<Longrightarrow> pr_active r"
  shows "moves publish_step (update_publish p f)"
proof (rule movesI)
  fix t x t' assume u: "update_publish p f t = (x, t')"
  show "publish_step t t'"
  proof (cases "t' = t")
    case True
    then show ?thesis by (simp add: publish_order.refl)
  next
    case False
    with u have t': "t' = update_rows p f t"
      and ok: "list_all (\<lambda>(_, r). publish_row_fits (f r) \<and> publish_row_ok (f r)) (filter (\<lambda>(k, r). p k r) t)"
      by (auto simp: update_publish_def bindM_def assertM_apply list_all_iff split: if_splits)
    have rows: "\<exists>r'. map_of t' k = Some r' \<and> row_forward r r'" if "map_of t k = Some r" for k r
      using that assms(1) by (auto simp: t' map_of_update_rows row_forward_refl)
    have inv: "publish_inv t'" if inv: "publish_inv t"
      unfolding publish_inv_def
    proof (intro conjI)
      show "pk_ok t'" using inv by (simp add: t' publish_inv_def)
      show "list_all (\<lambda>(_, r). publish_row_fits r \<and> publish_row_ok r) t'"
        using inv ok by (fastforce simp: t' publish_inv_def update_rows_def list_all_iff)
      show "length (filter (\<lambda>(_, r). pr_active r) t') \<le> 1"
        using inv filter_update_rows_le [of p pr_active f t] assms(2) by (force simp: t' publish_inv_def)
      show "list_all (\<lambda>(_, r). known_run t' (pr_previous_publish_run_id r)) t'"
      proof (unfold list_all_iff, clarify)
        fix k r' assume "(k, r') \<in> set t'"
        then obtain r where r: "(k, r) \<in> set t" "pr_previous_publish_run_id r' = pr_previous_publish_run_id r"
          using assms(1) by (auto simp: t' update_rows_def row_forward_def fixed_part_def split: if_splits)
        with inv have "known_run t (pr_previous_publish_run_id r')" by (auto simp: publish_inv_def list_all_iff)
        then show "known_run t' (pr_previous_publish_run_id r')"
          by (rule known_run_mono) (simp add: t' map_of_update_rows)
      qed
    qed
    from rows inv show ?thesis by (auto simp: publish_step_def)
  qed
qed

lemma latest_published_in: "latest_published t = Some x \<Longrightarrow> x \<in> set t"
proof -
  assume a: "latest_published t = Some x"
  let ?s = "sort_key (\<lambda>(_, r). (- the (pr_finished_at r), - pr_started_at r)) (filter (\<lambda>(_, r). pr_status r = PUBLISHED) t)"
  from a have "x \<in> set ?s" by (cases ?s) (simp_all add: latest_published_def)
  then show "x \<in> set t" by simp
qed

lemma start_publish_run_ok:
  assumes "start_publish_run run now t = (Inr x, t')"
  defines "row \<equiv> new_publish_row run (map_option fst (latest_published t)) now"
  shows "t' = t @ [(pub_publish_run_id run, row)]" "map_of t (pub_publish_run_id run) = None"
    "filter (\<lambda>(_, r). pr_active r) t = []" "publish_row_fits row" "publish_row_ok row"
    "x = record_of_row (pub_publish_run_id run, row)"
  using assms by (auto simp: start_publish_run_def bindM_ok list_ex_iff filter_empty_conv)

lemma start_publish_run_err: "start_publish_run run now t = (Inl e, t') \<Longrightarrow> t' = t"
  by (auto simp: start_publish_run_def bindM_err)

lemma start_publish_moves: "moves publish_step (start_publish_run run now)"
proof (rule movesI)
  fix t x t' assume s: "start_publish_run run now t = (x, t')"
  show "publish_step t t'"
  proof (cases x)
    case (Inl e)
    from start_publish_run_err [OF s [unfolded Inl]] show ?thesis by (simp add: publish_order.refl)
  next
    case (Inr y)
    note new = start_publish_run_ok [OF s [unfolded Inr]]
    have "publish_inv t'" if inv: "publish_inv t"
    proof -
      have mono: "map_of t k \<noteq> None \<Longrightarrow> map_of t' k \<noteq> None" for k by (auto simp: new(1))
      have "known_run t (map_option fst (latest_published t))"
        using latest_published_in [of t] by (force split: option.splits simp: known_run_def map_of_eq_None_iff)
      then have fk: "known_run t' (map_option fst (latest_published t))" using mono by (rule known_run_mono)
      have old: "known_run t' (pr_previous_publish_run_id r)" if "(k, r) \<in> set t" for k r
      proof -
        have "known_run t (pr_previous_publish_run_id r)" using inv that by (auto simp: publish_inv_def list_all_iff)
        then show ?thesis using mono by (rule known_run_mono)
      qed
      show ?thesis
        unfolding publish_inv_def
      proof (intro conjI)
        show "pk_ok t'" using inv new(1,2) by (auto simp: publish_inv_def pk_ok_def map_of_eq_None_iff)
        show "list_all (\<lambda>(_, r). publish_row_fits r \<and> publish_row_ok r) t'"
          using inv new(1,4,5) by (simp add: publish_inv_def)
        show "length (filter (\<lambda>(_, r). pr_active r) t') \<le> 1" using new(1,3) by simp
        show "list_all (\<lambda>(_, r). known_run t' (pr_previous_publish_run_id r)) t'"
          using old fk by (auto simp: list_all_iff new(1) new_publish_row_def)
      qed
    qed
    then show ?thesis using new(1,2) by (auto simp: publish_step_def row_forward_refl)
  qed
qed

lemma transition_moves:
  assumes "\<And>r. pr_status r \<in> set expected \<Longrightarrow> row_forward r (f r)"
    and "\<And>r. pr_status r \<in> set expected \<Longrightarrow> pr_active (f r) \<Longrightarrow> pr_active r"
  shows "moves publish_step (publish_transition rid expected f)"
  unfolding publish_transition_def by (intro publish_order.rules update_publish_moves) (auto simp: assms)

lemmas publish_row_defs = row_forward_def fixed_part_def checked_part_def without_path_def pr_active_def ACTIVE_STATUSES_def stale_def

lemma transitions_move:
  "moves publish_step (record_dbt_result rid i p fl)" "moves publish_step (mark_publishing rid h c fi)"
  "moves publish_step (mark_published rid now)" "moves publish_step (mark_failed rid ty m path now)"
  "moves publish_step (record_failed_path rid failed)"
  unfolding record_dbt_result_def mark_publishing_def mark_published_def mark_failed_def record_failed_path_def
  by (rule transition_moves; simp add: publish_row_defs)+

lemma updates_move:
  "moves publish_step (touch_publish_run rid now)" "moves publish_step (close_stale_run rid published sb now)"
  "moves publish_step (close_dag_run_building pipeline dag now)"
  unfolding touch_publish_run_def close_stale_run_def close_dag_run_building_def
  by (intro publish_order.bind publish_order.basic update_publish_moves; auto simp: publish_row_defs)+

lemma reads_move:
  "moves publish_step (get_publish_run rid)" "moves publish_step get_latest_publish_run"
  "moves publish_step (stale_active_runs sb)" "moves publish_step assert_no_active_publish"
proof -
  show "moves publish_step assert_no_active_publish"
    by (auto simp: assert_no_active_publish_def moves_def publish_order.refl split: list.splits)
qed (simp_all add: get_publish_run_def get_latest_publish_run_def stale_active_runs_def publish_order.basic)

lemmas publish_moves = start_publish_moves transitions_move updates_move reads_move

section \<open>What each transaction does\<close>

lemma update_publish_ok:
  "update_publish p f t = (Inr ids, t') \<longleftrightarrow> t' = update_rows p f t \<and> ids = map fst (filter (\<lambda>(k, r). p k r) t) \<and>
     (\<forall>(k, r) \<in> set t. p k r \<longrightarrow> publish_row_fits (f r) \<and> publish_row_ok (f r))"
  by (auto simp: update_publish_def bindM_ok list_all_iff)

lemma update_publish_err: "update_publish p f t = (Inl e, t') \<Longrightarrow> t' = t"
  by (auto simp: update_publish_def bindM_err)

lemma filter_fst_pk:
  assumes "pk_ok t"
  shows "filter (\<lambda>(k, r). k = rid \<and> q r) t = (case map_of t rid of Some r \<Rightarrow> if q r then [(rid, r)] else [] | None \<Rightarrow> [])"
  using assms
proof (induction t)
  case (Cons x t)
  obtain k r where x: "x = (k, r)" by (cases x)
  have pk: "pk_ok t" "k \<notin> fst ` set t" using Cons.prems x by (auto simp: pk_ok_def)
  show ?case
  proof (cases "k = rid")
    case True
    then have "map_of t rid = None" using pk by (simp add: map_of_eq_None_iff)
    with Cons.IH [OF pk(1)] x True show ?thesis by simp
  next
    case False
    with Cons.IH [OF pk(1)] x show ?thesis by simp
  qed
qed simp

text \<open>A transition succeeds exactly on a row in an expected status whose new values the table accepts.\<close>

lemma transition_ok:
  assumes "pk_ok t"
  shows "publish_transition rid expected f t = (Inr (), t') \<longleftrightarrow>
    (\<exists>r. map_of t rid = Some r \<and> pr_status r \<in> set expected \<and> publish_row_fits (f r) \<and> publish_row_ok (f r) \<and>
       t' = update_rows (\<lambda>k r. k = rid \<and> pr_status r \<in> set expected) f t)"
proof -
  note flt = filter_fst_pk [OF assms, of rid "\<lambda>r. pr_status r \<in> set expected"]
  show ?thesis
  proof (cases "map_of t rid")
    case None
    then show ?thesis using flt by (auto simp: publish_transition_def transactionM_ok bindM_ok update_publish_ok)
  next
    case (Some r)
    have "(\<forall>(k, r) \<in> set t. k = rid \<and> pr_status r \<in> set expected \<longrightarrow> publish_row_fits (f r) \<and> publish_row_ok (f r)) \<longleftrightarrow>
        list_all (\<lambda>(_, r). publish_row_fits (f r) \<and> publish_row_ok (f r)) (filter (\<lambda>(k, r). k = rid \<and> pr_status r \<in> set expected) t)"
      by (auto simp: list_all_iff)
    with Some flt show ?thesis by (auto simp: publish_transition_def transactionM_ok bindM_ok update_publish_ok)
  qed
qed

lemma transition_err: "publish_transition rid expected f t = (Inl e, t') \<Longrightarrow> t' = t"
  by (auto simp: publish_transition_def transactionM_err)

lemma transition_row:
  assumes "pk_ok t" "publish_transition rid expected f t = (Inr (), t')"
  obtains r where "map_of t rid = Some r" "pr_status r \<in> set expected" "map_of t' = (map_of t)(rid \<mapsto> f r)"
    "publish_row_fits (f r)" "publish_row_ok (f r)"
proof -
  from assms obtain r where r: "map_of t rid = Some r" "pr_status r \<in> set expected" "publish_row_fits (f r)" "publish_row_ok (f r)"
    "t' = update_rows (\<lambda>k r. k = rid \<and> pr_status r \<in> set expected) f t" using transition_ok by blast
  have "map_of t' = (map_of t)(rid \<mapsto> f r)"
  proof
    fix k show "map_of t' k = ((map_of t)(rid \<mapsto> f r)) k"
      using r by (cases "map_of t k") (auto simp: map_of_update_rows)
  qed
  with r that show ?thesis by blast
qed

end
