(* ===== verification/Marts.thy ===== *)
theory Marts
  imports GeneratorCore Errors
begin

text \<open>
  What the warehouse publication checks of a build: the canonical rows and their running hash
  (src/common/row_hash.py), the hashes and row counts of the marts (src/warehouse/mart_hash.py), the
  variables handed to dbt (src/warehouse/dbt_vars.py) and the reading of its results
  (src/warehouse/dbt_runner.py). SHA-256 and the answers of DuckDB and dbt are parameters.
\<close>

section \<open>Canonical rows\<close>

text \<open>
  The values a mart row holds; \<open>MDate\<close> is a day by its first instant, \<open>MOther\<close> a value of a type
  that has no JSON form.
\<close>

datatype mart_value =
    MNone | MStr string | MInt int | MBool bool | MDecimal int nat | MTime datetime | MDate time | MUuid uuid | MOther string

definition json_default :: "mart_value \<Rightarrow> string result" where
  "json_default v = (case v of
      MTime d \<Rightarrow> (if utcoffset d = None then
          (if instant d = 0 then Inr ''-infinity''
           else if instant d = 3652059 * day_us - 1 then Inr ''infinity''
           else Inl (Exn ValueError ''Mart timestamp must include a UTC offset''))
        else Inr (isoformat (instant d)))
    | MDate t \<Rightarrow> Inr (date_isoformat t)
    | MDecimal n k \<Rightarrow> Inr (format_decimal n k)
    | MUuid u \<Rightarrow> Inr (uuid_str u)
    | MOther name \<Rightarrow> Inl (Exn TypeError (''Unsupported mart value: '' @ name))
    | _ \<Rightarrow> Inl (Exn TypeError ''Unsupported mart value''))"

definition json_value :: "mart_value \<Rightarrow> string result" where
  "json_value v = (case v of
      MNone \<Rightarrow> Inr ''null''
    | MStr s \<Rightarrow> Inr (json_string s)
    | MInt i \<Rightarrow> Inr (show_int i)
    | MBool b \<Rightarrow> Inr (if b then ''true'' else ''false'')
    | _ \<Rightarrow> map_sum id json_string (json_default v))"

definition canonical_row_json :: "(string \<times> mart_value) list \<Rightarrow> string result" where
  "canonical_row_json row =
     map_sum id (\<lambda>ms. ''{'' @ join_with '','' ms @ ''}'')
       (results (map (\<lambda>(n, v). map_sum id (\<lambda>t. json_string n @ '':'' @ t) (json_value v)) (sort_key fst row)))"

text \<open>\<open>dict(zip(names, row, strict=True))\<close>: of two columns with one name the last value stays.\<close>

definition row_dict :: "string list \<Rightarrow> mart_value list \<Rightarrow> (string \<times> mart_value) list result" where
  "row_dict names row =
     (if length names \<noteq> length row then Inl (Exn ValueError ''zip() arguments have different lengths'')
      else Inr (fold (\<lambda>(n, v). dict_set n v) (zip names row) []))"

definition row_line :: "string list \<Rightarrow> mart_value list \<Rightarrow> string result" where
  "row_line names row = (case row_dict names row of
      Inl e \<Rightarrow> Inl e
    | Inr d \<Rightarrow> map_sum id (\<lambda>t. t @ [CHR 0x0A]) (canonical_row_json d))"

section \<open>The running hash\<close>

definition ROW_BATCH_SIZE :: nat where "ROW_BATCH_SIZE = 10000"

text \<open>
  The loop over \<open>fetchmany(batch_size)\<close>: \<open>rows\<close> is what the cursor still holds, \<open>bytes\<close> what the
  digest has been fed, \<open>n\<close> the rows counted.
\<close>

fun hash_batch :: "string list \<Rightarrow> mart_value list list \<Rightarrow> string \<times> nat \<Rightarrow> (string \<times> nat) result" where
  "hash_batch names [] (bytes, n) = Inr (bytes, n)"
| "hash_batch names (row # rows) (bytes, n) = (case row_line names row of
      Inl e \<Rightarrow> Inl e
    | Inr t \<Rightarrow> hash_batch names rows (bytes @ t, n + 1))"

function hash_loop :: "string list \<Rightarrow> nat \<Rightarrow> mart_value list list \<Rightarrow> string \<times> nat \<Rightarrow> (string \<times> nat) result" where
  "hash_loop names batch_size rows acc =
     (if take batch_size rows = [] then Inr acc
      else case hash_batch names (take batch_size rows) acc of
        Inl e \<Rightarrow> Inl e
      | Inr acc' \<Rightarrow> hash_loop names batch_size (drop batch_size rows) acc')"
  by pat_completeness auto

termination by (relation "measure (\<lambda>(_, _, rows, _). length rows)") auto

declare hash_loop.simps [simp del]

definition hash_cursor_rows :: "(string \<Rightarrow> string) \<Rightarrow> nat \<Rightarrow> string list \<times> mart_value list list \<Rightarrow> (string \<times> nat) result" where
  "hash_cursor_rows sha batch_size = (\<lambda>(names, rows).
     map_sum id (\<lambda>(bytes, n). (sha bytes, n)) (hash_loop names batch_size rows ([], 0)))"

section \<open>The marts\<close>

record mart_target =
  mt_schema :: string
  mt_model :: string
  mt_order_by :: "string list"

definition mart_relation :: "mart_target \<Rightarrow> string" where
  "mart_relation t = mt_schema t @ ''.'' @ mt_model t"

definition mart_target :: "string \<Rightarrow> string \<Rightarrow> string list \<Rightarrow> mart_target" where
  "mart_target s m ks = \<lparr>mt_schema = s, mt_model = m, mt_order_by = ks\<rparr>"

definition MART_HASH_TARGETS :: "mart_target list" where
  "MART_HASH_TARGETS =
     [mart_target ''dimensions'' ''dim_customer'' [''customer_key''],
      mart_target ''dimensions'' ''dim_date'' [''date_key''],
      mart_target ''dimensions'' ''dim_product'' [''product_id''],
      mart_target ''dimensions'' ''dim_seller'' [''seller_id''],
      mart_target ''dimensions'' ''dim_subscription'' [''subscription_key''],
      mart_target ''facts'' ''fct_order'' [''order_id''],
      mart_target ''facts'' ''fct_order_item'' [''order_id'', ''order_item_id''],
      mart_target ''facts'' ''fct_order_payment'' [''order_id'', ''payment_sequence''],
      mart_target ''facts'' ''fct_subscription_payment'' [''payment_id'']]"

text \<open>
  \<open>query t\<close> is the database's answer to \<open>SELECT * FROM t ORDER BY ...\<close>: column names and rows, or
  the error of a relation that is missing.
\<close>

type_synonym mart_query = "mart_target \<Rightarrow> (string list \<times> mart_value list list) result"

definition hash_and_count :: "(string \<Rightarrow> string) \<Rightarrow> mart_query \<Rightarrow> mart_target \<Rightarrow> (string \<times> nat) result" where
  "hash_and_count sha query t = (case query t of
      Inl e \<Rightarrow> Inl e
    | Inr answer \<Rightarrow> hash_cursor_rows sha ROW_BATCH_SIZE answer)"

definition mart_logical_hash :: "(string \<Rightarrow> string) \<Rightarrow> mart_query \<Rightarrow> mart_target \<Rightarrow> string result" where
  "mart_logical_hash sha query t = map_sum id fst (hash_and_count sha query t)"

fun mart_hashes_and_row_counts ::
    "(string \<Rightarrow> string) \<Rightarrow> mart_query \<Rightarrow> mart_target list \<Rightarrow> ((string \<times> string) list \<times> (string \<times> int) list) result" where
  "mart_hashes_and_row_counts sha query [] = Inr ([], [])"
| "mart_hashes_and_row_counts sha query (t # ts) = (case hash_and_count sha query t of
      Inl e \<Rightarrow> Inl e
    | Inr (hash, n) \<Rightarrow> map_sum id (\<lambda>(hs, ns). ((mart_relation t, hash) # hs, (mart_relation t, int n) # ns))
        (mart_hashes_and_row_counts sha query ts))"

definition mart_logical_hashes :: "(string \<Rightarrow> string) \<Rightarrow> mart_query \<Rightarrow> mart_target list \<Rightarrow> (string \<times> string) list result" where
  "mart_logical_hashes sha query ts = map_sum id fst (mart_hashes_and_row_counts sha query ts)"

definition target_for :: "string \<Rightarrow> mart_target result" where
  "target_for relation = (case find (\<lambda>t. mart_relation t = relation) MART_HASH_TARGETS of
      None \<Rightarrow> Inl (Exn (OtherError ''KeyError'') (''Unknown mart relation: '' @ relation))
    | Some t \<Rightarrow> Inr t)"

definition mismatched_relations :: "(string \<times> string) list \<Rightarrow> (string \<times> string) list \<Rightarrow> string list" where
  "mismatched_relations left right =
     sort (filter (\<lambda>n. map_of left n \<noteq> map_of right n) (remdups (map fst left @ map fst right)))"

section \<open>dbt variables\<close>

fun duckdb_type :: "arrow_type \<Rightarrow> string" where
  "duckdb_type ArrowString = ''varchar''"
| "duckdb_type ArrowInt32 = ''integer''"
| "duckdb_type ArrowBool = ''boolean''"
| "duckdb_type ArrowTimestampUs = ''timestamptz''"
| "duckdb_type ArrowDecimal_14_2 = ''decimal(14, 2)''"

definition RESERVED_VARS :: "string list" where
  "RESERVED_VARS = [''bronze_schemas'', ''bronze_schema_versions'']"

text \<open>The value that is printed as JSON; the caller's variables follow the two reserved ones.\<close>

definition dbt_vars_json :: "(string \<times> json) list \<Rightarrow> json result" where
  "dbt_vars_json extra =
     seq (require (filter (\<lambda>n. n \<in> set RESERVED_VARS) (map fst extra) = []) ''Reserved dbt vars cannot be overridden'')
       (Inr (JObj ([(''bronze_schemas'', JObj (map (\<lambda>(name, c). (name,
            JList (map (\<lambda>f. JList [JStr (field_name f), JStr (duckdb_type (field_type f))]) (bronze_schema c)))) TABLE_CONFIGS)),
          (''bronze_schema_versions'', JList (map JInt (sort SUPPORTED_BRONZE_SCHEMA_VERSIONS)))] @ extra)))"

section \<open>dbt results\<close>

record dbt_node =
  dn_unique_id :: string
  dn_status :: string

record dbt_run_results =
  rr_invocation_id :: "string option"
  rr_results :: "dbt_node list"

record dbt_run_result =
  dr_returncode :: int
  dr_invocation_id :: "string option"
  dr_tests_passed :: int
  dr_tests_failed :: int
  dr_error_type :: "string option"
  dr_failed_nodes :: "string list"
  dr_output :: string

definition OUTPUT_LIMIT :: nat where "OUTPUT_LIMIT = 4000"

definition BUILD_NODE_PREFIXES :: "string list" where
  "BUILD_NODE_PREFIXES = [''model.'', ''seed.'', ''snapshot.'']"

definition TEST_NODE_PREFIXES :: "string list" where
  "TEST_NODE_PREFIXES = [''test.'', ''unit_test.'']"

definition FAILED_STATUSES :: "string list" where
  "FAILED_STATUSES = [''error'', ''fail'']"

definition has_prefix :: "string list \<Rightarrow> string \<Rightarrow> bool" where
  "has_prefix ps s = list_ex (\<lambda>p. starts_with p s) ps"

definition test_node :: "dbt_node \<Rightarrow> bool" where
  "test_node n = has_prefix TEST_NODE_PREFIXES (dn_unique_id n)"

definition failed_node :: "dbt_node \<Rightarrow> bool" where
  "failed_node n \<longleftrightarrow> dn_status n \<in> set FAILED_STATUSES"

definition run_succeeded :: "dbt_run_result \<Rightarrow> bool" where
  "run_succeeded r \<longleftrightarrow> dr_returncode r = 0 \<and> dr_error_type r = None"

definition classify_dbt_failure :: "dbt_node list \<Rightarrow> string" where
  "classify_dbt_failure ns =
     (if list_ex (\<lambda>n. has_prefix BUILD_NODE_PREFIXES (dn_unique_id n) \<and> dn_status n = ''error'') ns then DBT_BUILD_ERROR
      else if list_ex (\<lambda>n. test_node n \<and> failed_node n) ns then DBT_TEST_ERROR
      else DBT_BUILD_ERROR)"

text \<open>\<open>run_results.json\<close>, when dbt wrote one.\<close>

definition parse_run_results :: "dbt_run_results option \<Rightarrow> int \<Rightarrow> string \<Rightarrow> dbt_run_result" where
  "parse_run_results payload returncode output =
     (let ns = (case payload of None \<Rightarrow> [] | Some p \<Rightarrow> rr_results p);
          tests = filter test_node ns;
          failed_tests = length (filter failed_node tests);
          failed_nodes = map dn_unique_id (filter failed_node ns);
          failed = (returncode \<noteq> 0 \<or> failed_nodes \<noteq> [])
      in \<lparr>dr_returncode = returncode, dr_invocation_id = (case payload of None \<Rightarrow> None | Some p \<Rightarrow> rr_invocation_id p),
          dr_tests_passed = int (length tests) - int failed_tests, dr_tests_failed = int failed_tests,
          dr_error_type = (if failed then Some (classify_dbt_failure ns) else None), dr_failed_nodes = failed_nodes,
          dr_output = drop (length output - OUTPUT_LIMIT) output\<rparr>)"

record dbt_command =
  dc_arguments :: "string list"
  dc_warehouse_path :: string
  dc_variables :: json

text \<open>
  \<open>process\<close> is the dbt process: the file it leaves under the target path, its exit code, and what it
  printed on its two outputs.
\<close>

definition run_dbt_build ::
    "(dbt_command \<Rightarrow> dbt_run_results option \<times> int \<times> string \<times> string) \<Rightarrow> string \<Rightarrow> string \<Rightarrow> string \<Rightarrow> string \<Rightarrow>
     string list \<Rightarrow> (string \<times> json) list \<Rightarrow> dbt_run_result result" where
  "run_dbt_build process executable project_dir build_path target_path extra_args dbt_vars =
     seq (require (\<not> list_ex (\<lambda>a. a = ''--vars'' \<or> starts_with ''--vars='' a) extra_args)
            ''Pass variables through dbt_vars, not extra_args --vars'')
    (case dbt_vars_json dbt_vars of
       Inl e \<Rightarrow> Inl e
     | Inr variables \<Rightarrow>
       (case process \<lparr>dc_arguments = [executable, ''build'', ''--project-dir'', project_dir, ''--profiles-dir'', project_dir,
               ''--target-path'', target_path] @ extra_args @ [''--vars''],
             dc_warehouse_path = build_path, dc_variables = variables\<rparr> of
          (payload, returncode, out, err) \<Rightarrow> Inr (parse_run_results payload returncode (out @ [CHR 0x0A] @ err))))"

section \<open>Hashing by batches\<close>

text \<open>The hash as a function of the rows: no batches, no running state.\<close>

definition row_lines :: "string list \<Rightarrow> mart_value list list \<Rightarrow> string result" where
  "row_lines names rows = map_sum id concat (results (map (row_line names) rows))"

lemma hash_batch_lines:
  "hash_batch names rows (bytes, n) = map_sum id (\<lambda>t. (bytes @ t, n + length rows)) (row_lines names rows)"
proof (induction rows arbitrary: bytes n)
  case Nil
  then show ?case by (simp add: row_lines_def)
next
  case (Cons row rows)
  show ?case
  proof (cases "row_line names row")
    case (Inl e)
    then show ?thesis by (simp add: row_lines_def)
  next
    case (Inr t)
    with Cons.IH show ?thesis
      by (cases "results (map (row_line names) rows)") (simp_all add: row_lines_def)
  qed
qed

lemma row_lines_append:
  "row_lines names (xs @ ys) = (case row_lines names xs of
     Inl e \<Rightarrow> Inl e | Inr s \<Rightarrow> map_sum id (\<lambda>t. s @ t) (row_lines names ys))"
proof (induction xs)
  case Nil
  show ?case by (cases "results (map (row_line names) ys)") (simp_all add: row_lines_def)
next
  case (Cons x xs)
  then show ?case
    by (cases "row_line names x"; cases "results (map (row_line names) xs)";
        cases "results (map (row_line names) ys)"; cases "results (map (row_line names) (xs @ ys))")
       (simp_all add: row_lines_def)
qed

lemma hash_loop_lines:
  assumes "0 < batch_size"
  shows "hash_loop names batch_size rows (bytes, n) = map_sum id (\<lambda>t. (bytes @ t, n + length rows)) (row_lines names rows)"
proof (induction "length rows" arbitrary: rows bytes n rule: less_induct)
  case less
  let ?a = "take batch_size rows" and ?b = "drop batch_size rows"
  show ?case
  proof (cases "rows = []")
    case True
    then show ?thesis by (simp add: hash_loop.simps row_lines_def)
  next
    case False
    with assms have ne: "?a \<noteq> []" and shorter: "length ?b < length rows" by auto
    have whole: "row_lines names rows = row_lines names (?a @ ?b)" by simp
    show ?thesis
    proof (cases "row_lines names ?a")
      case (Inl e)
      with ne show ?thesis unfolding whole row_lines_append by (simp add: hash_loop.simps [of names batch_size rows] hash_batch_lines)
    next
      case (Inr s)
      have "hash_loop names batch_size rows (bytes, n) = hash_loop names batch_size ?b (bytes @ s, n + length ?a)"
        using ne Inr by (simp add: hash_loop.simps [of names batch_size rows] hash_batch_lines)
      also have "\<dots> = map_sum id (\<lambda>t. ((bytes @ s) @ t, (n + length ?a) + length ?b)) (row_lines names ?b)"
        by (rule less.hyps [OF shorter])
      also have "(n + length ?a) + length ?b = n + length rows" by simp
      finally show ?thesis unfolding whole row_lines_append by (cases "row_lines names ?b") (simp_all add: Inr)
    qed
  qed
qed

lemma hash_cursor_rows_lines:
  assumes "0 < batch_size"
  shows "hash_cursor_rows sha batch_size (names, rows) = map_sum id (\<lambda>t. (sha t, length rows)) (row_lines names rows)"
  by (cases "row_lines names rows") (simp_all add: hash_cursor_rows_def hash_loop_lines [OF assms])

section \<open>Reading dbt results\<close>

text \<open>A run succeeded exactly when dbt said so and no node failed; then no test failed.\<close>

lemma parse_succeeded:
  "run_succeeded (parse_run_results payload returncode output) \<longleftrightarrow>
     returncode = 0 \<and> (case payload of None \<Rightarrow> True | Some p \<Rightarrow> list_all (\<lambda>n. \<not> failed_node n) (rr_results p))"
  by (cases payload) (auto simp: run_succeeded_def parse_run_results_def Let_def list_all_iff filter_empty_conv)

lemma parse_succeeded_tests:
  assumes "run_succeeded (parse_run_results payload returncode output)"
  shows "dr_tests_failed (parse_run_results payload returncode output) = 0"
  using assms unfolding parse_succeeded
  by (cases payload) (auto simp: parse_run_results_def Let_def list_all_iff filter_empty_conv)

lemma failed_tests_le: "length (filter (\<lambda>n. test_node n \<and> failed_node n) ns) \<le> length (filter test_node ns)"
  using length_filter_le [of failed_node "filter test_node ns"] by (simp add: conj_commute)

lemma parse_bounds:
  "0 \<le> dr_tests_passed (parse_run_results payload returncode output)"
  "0 \<le> dr_tests_failed (parse_run_results payload returncode output)"
  "length (dr_output (parse_run_results payload returncode output)) \<le> OUTPUT_LIMIT"
  using failed_tests_le by (auto simp: parse_run_results_def Let_def of_nat_diff)

lemma classified_known: "classify_dbt_failure ns \<in> set WAREHOUSE_ERROR_TYPES"
  by (simp add: classify_dbt_failure_def WAREHOUSE_ERROR_TYPES_def)

lemma mismatched_none: "set (mismatched_relations left right) = {n. map_of left n \<noteq> map_of right n}"
  by (auto simp: mismatched_relations_def map_of_eq_None_iff) (metis domIff dom_map_of_conv_image_fst)+

end
