(* ===== verification/Warehouse.thy ===== *)
theory Warehouse
  imports Publish Marts Killable
begin

text \<open>
  The publication of the warehouse file (src/warehouse/publish.py, duckdb_files.py and
  publish_heartbeat.py): a build file is copied from the published one, brought up to date by dbt,
  hashed, recorded and renamed over the published path; failed builds are quarantined, and runs that
  stopped are recovered from their rows and the identity of the published file. The contents of a
  DuckDB file and what DuckDB and dbt do to it are parameters.
\<close>

section \<open>The files\<close>

text \<open>
  \<open>WarehousePaths\<close>: the published file, one build file and one quarantined file per run. A file may
  have a WAL beside it, and a run a target directory of dbt. Modification times are counted in
  nanoseconds; the clock of the model reads microseconds.
\<close>

datatype warehouse_path = PublishedFile | BuildFile uuid | FailedFile uuid

definition path_string :: "string \<Rightarrow> warehouse_path \<Rightarrow> string" where
  "path_string root p = (case p of
      PublishedFile \<Rightarrow> root @ ''/warehouse.duckdb''
    | BuildFile k \<Rightarrow> root @ ''/build/'' @ uuid_str k @ ''.duckdb''
    | FailedFile k \<Rightarrow> root @ ''/failed/'' @ uuid_str k @ ''.duckdb'')"

record 'c stored_file =
  sf_identity :: file_identity
  sf_content :: 'c

record 'c disk =
  dk_files :: "(warehouse_path, 'c stored_file) table"
  dk_wals :: "warehouse_path list"
  dk_targets :: "uuid list"

definition file_at :: "'c disk \<Rightarrow> warehouse_path \<Rightarrow> 'c stored_file option" where
  "file_at d p = map_of (dk_files d) p"

definition inodes :: "'c disk \<Rightarrow> int list" where
  "inodes d = map (fi_inode \<circ> sf_identity \<circ> snd) (dk_files d)"

definition drop_file :: "warehouse_path \<Rightarrow> 'c disk \<Rightarrow> 'c disk" where
  "drop_file p d = d\<lparr>dk_files := filter (\<lambda>(q, _). q \<noteq> p) (dk_files d)\<rparr>"

definition put_file :: "warehouse_path \<Rightarrow> 'c stored_file \<Rightarrow> 'c disk \<Rightarrow> 'c disk" where
  "put_file p f d = d\<lparr>dk_files := (p, f) # filter (\<lambda>(q, _). q \<noteq> p) (dk_files d)\<rparr>"

definition set_wal :: "warehouse_path \<Rightarrow> bool \<Rightarrow> 'c disk \<Rightarrow> 'c disk" where
  "set_wal p b d = d\<lparr>dk_wals := (if b then [p] else []) @ removeAll p (dk_wals d)\<rparr>"

text \<open>Writing keeps the inode of a file that exists and takes a fresh one otherwise.\<close>

definition write_file :: "(int list \<Rightarrow> int) \<Rightarrow> time \<Rightarrow> warehouse_path \<Rightarrow> 'c \<Rightarrow> 'c disk \<Rightarrow> 'c disk" where
  "write_file fresh now p c d = put_file p
     \<lparr>sf_identity = \<lparr>fi_inode = (case file_at d p of Some f \<Rightarrow> fi_inode (sf_identity f) | None \<Rightarrow> fresh (inodes d)),
        fi_mtime_ns = now * 1000\<rparr>, sf_content = c\<rparr> d"

definition missing_file :: "warehouse_path \<Rightarrow> exn" where
  "missing_file p = Exn FileNotFoundError (path_string [] p)"

text \<open>\<open>os.replace\<close>, \<open>os.utime\<close>, \<open>os.stat\<close> and \<open>unlink(missing_ok=True)\<close>.\<close>

definition os_replace :: "warehouse_path \<Rightarrow> warehouse_path \<Rightarrow> ('c disk, unit) op" where
  "os_replace p q = (\<lambda>d. case file_at d p of
      None \<Rightarrow> (Inl (missing_file p), d)
    | Some f \<Rightarrow> (Inr (), put_file q f (drop_file p d)))"

definition os_utime :: "warehouse_path \<Rightarrow> time \<Rightarrow> ('c disk, unit) op" where
  "os_utime p now = (\<lambda>d. case file_at d p of
      None \<Rightarrow> (Inl (missing_file p), d)
    | Some f \<Rightarrow> (Inr (), put_file p (f\<lparr>sf_identity := (sf_identity f)\<lparr>fi_mtime_ns := now * 1000\<rparr>\<rparr>) d))"

definition file_identity :: "warehouse_path \<Rightarrow> ('c disk, file_identity) op" where
  "file_identity p = (\<lambda>d. (case file_at d p of None \<Rightarrow> Inl (missing_file p) | Some f \<Rightarrow> Inr (sf_identity f), d))"

definition file_exists :: "warehouse_path \<Rightarrow> ('c disk, bool) op" where
  "file_exists p = getM (\<lambda>d. file_at d p \<noteq> None)"

definition wal_exists :: "warehouse_path \<Rightarrow> ('c disk, bool) op" where
  "wal_exists p = getM (\<lambda>d. p \<in> set (dk_wals d))"

definition unlink :: "warehouse_path \<Rightarrow> ('c disk, unit) op" where
  "unlink p = modifyM (drop_file p)"

definition remove_target :: "uuid \<Rightarrow> ('c disk, unit) op" where
  "remove_target k = modifyM (\<lambda>d. d\<lparr>dk_targets := removeAll k (dk_targets d)\<rparr>)"

section \<open>The world of a publication\<close>

text \<open>
  What DuckDB and dbt do to the contents of a file: each operation gives the contents it leaves and
  whether a WAL stays behind. Opening a file that is missing creates it.
\<close>

record 'c engine =
  en_root :: string
  en_inode :: "int list \<Rightarrow> int"
  en_sync :: "'c option \<Rightarrow> exn option \<times> 'c \<times> bool"
  en_dbt :: "'c option \<Rightarrow> dbt_run_result result \<times> 'c option \<times> bool"
  en_checkpoint :: "'c option \<Rightarrow> exn option \<times> 'c \<times> bool"
  en_query :: "'c \<Rightarrow> mart_query"
  en_sha :: "string \<Rightarrow> string"
  en_targets :: "mart_target list"

text \<open>
  Every contact with the database or the disk is a \<open>contact\<close>: the next entry of the schedule says what
  other processes have done to both, what the clock reads, whether the heartbeat thread beats, and
  whether the call is interrupted before it has an effect. \<open>wh_steps\<close> is a ghost: the steps this
  process has made, each with the state before and after it.
\<close>

type_synonym 'c shared = "publish_table \<times> 'c disk"

record 'c wh_turn =
  wt_others :: "'c shared \<Rightarrow> 'c shared"
  wt_clock :: time
  wt_beat :: bool
  wt_fault :: "exn option"

record 'c wh_world =
  wh_runs :: publish_table
  wh_disk :: "'c disk"
  wh_clock :: time
  wh_heartbeat :: "(uuid \<times> bool) option"
  wh_schedule :: "'c wh_turn list"
  wh_steps :: "('c shared \<times> 'c shared) list"

definition shared :: "'c wh_world \<Rightarrow> 'c shared" where
  "shared w = (wh_runs w, wh_disk w)"

definition own_step :: "'c shared \<Rightarrow> 'c wh_world \<Rightarrow> 'c wh_world" where
  "own_step x w = w\<lparr>wh_runs := fst x, wh_disk := snd x, wh_steps := wh_steps w @ [(shared w, x)]\<rparr>"

text \<open>The heartbeat thread: it stops for good once a touch finds the run not active any more.\<close>

definition beat :: "'c wh_world \<Rightarrow> 'c wh_world" where
  "beat w = (case wh_heartbeat w of
      Some (rid, False) \<Rightarrow> (case touch_publish_run rid (wh_clock w) (wh_runs w) of
          (Inr alive, t) \<Rightarrow> (own_step (t, wh_disk w) w)\<lparr>wh_heartbeat := Some (rid, \<not> alive)\<rparr>
        | (Inl _, _) \<Rightarrow> w)
    | _ \<Rightarrow> w)"

definition other_step :: "'c wh_turn \<Rightarrow> 'c wh_world \<Rightarrow> 'c wh_world" where
  "other_step t w = (let x = wt_others t (shared w) in
     w\<lparr>wh_runs := fst x, wh_disk := snd x, wh_clock := wt_clock t, wh_schedule := tl (wh_schedule w)\<rparr>)"

definition contact :: "('c wh_world, unit) op" where
  "contact = (\<lambda>w. case wh_schedule w of
      [] \<Rightarrow> (Inr (), w)
    | t # _ \<Rightarrow> (let w1 = other_step t w; w2 = (if wt_beat t then beat w1 else w1) in
        (case wt_fault t of None \<Rightarrow> (Inr (), w2) | Some e \<Rightarrow> (Inl e, w2))))"

definition runs_now :: "(time \<Rightarrow> (publish_table, 'a) op) \<Rightarrow> ('c wh_world, 'a) op" where
  "runs_now m = (\<lambda>w. case m (wh_clock w) (wh_runs w) of (r, t) \<Rightarrow> (r, own_step (t, wh_disk w) w))"

definition disk_now :: "(time \<Rightarrow> ('c disk, 'a) op) \<Rightarrow> ('c wh_world, 'a) op" where
  "disk_now m = (\<lambda>w. case m (wh_clock w) (wh_disk w) of (r, d) \<Rightarrow> (r, own_step (wh_runs w, d) w))"

definition on_runs :: "(time \<Rightarrow> (publish_table, 'a) op) \<Rightarrow> ('c wh_world, 'a) op" where
  "on_runs m = bindM contact (\<lambda>_. runs_now m)"

definition on_disk :: "(time \<Rightarrow> ('c disk, 'a) op) \<Rightarrow> ('c wh_world, 'a) op" where
  "on_disk m = bindM contact (\<lambda>_. disk_now m)"

definition now_utc :: "('c wh_world, time) op" where
  "now_utc = bindM contact (\<lambda>_. getM wh_clock)"

text \<open>\<open>publish_heartbeat\<close>: a last touch when the stage succeeded and the run was not lost.\<close>

definition stop_heartbeat :: "'c wh_world \<Rightarrow> 'c wh_world" where
  "stop_heartbeat w = w\<lparr>wh_heartbeat := None\<rparr>"

definition heartbeat_lost :: "'c wh_world \<Rightarrow> bool" where
  "heartbeat_lost w \<longleftrightarrow> (case wh_heartbeat w of Some (_, lost) \<Rightarrow> lost | None \<Rightarrow> False)"

definition last_pulse :: "uuid \<Rightarrow> bool \<Rightarrow> ('c wh_world, unit) op" where
  "last_pulse rid lost = (if lost then returnM ()
     else suppress_exceptions (bindM (on_runs (\<lambda>now. touch_publish_run rid now)) (\<lambda>_. returnM ())))"

definition publish_heartbeat :: "uuid \<Rightarrow> ('c wh_world, 'a) op \<Rightarrow> ('c wh_world, 'a) op" where
  "publish_heartbeat rid body =
     bindM (modifyM (\<lambda>w. w\<lparr>wh_heartbeat := Some (rid, False)\<rparr>)) (\<lambda>_ w.
     case body w of
       (Inl e, w') \<Rightarrow> (Inl e, stop_heartbeat w')
     | (Inr x, w') \<Rightarrow> bindM (last_pulse rid (heartbeat_lost w')) (\<lambda>_. returnM x) (stop_heartbeat w'))"

section \<open>Failed builds\<close>

definition FAILED_BUILD_RETENTION :: nat where "FAILED_BUILD_RETENTION = 3"

definition isolate_build :: "'c engine \<Rightarrow> uuid \<Rightarrow> time \<Rightarrow> ('c wh_world, string option) op" where
  "isolate_build en rid now =
     bindM (on_disk (\<lambda>_. file_exists (BuildFile rid))) (\<lambda>found.
     if \<not> found then returnM None
     else
       bindM (on_disk (\<lambda>_. os_replace (BuildFile rid) (FailedFile rid))) (\<lambda>_.
       bindM (on_disk (\<lambda>_. wal_exists (BuildFile rid))) (\<lambda>wal.
       bindM (if wal then on_disk (\<lambda>_. modifyM (set_wal (FailedFile rid) True \<circ> set_wal (BuildFile rid) False))
              else returnM ()) (\<lambda>_.
       bindM (on_disk (\<lambda>_. os_utime (FailedFile rid) now)) (\<lambda>_.
       returnM (Some (path_string (en_root en) (FailedFile rid))))))))"

text \<open>The failed builds, newest first; listing them and reading their times is one step.\<close>

definition failed_builds :: "'c disk \<Rightarrow> warehouse_path list" where
  "failed_builds d = map fst (sort_key (\<lambda>(_, f). - fi_mtime_ns (sf_identity f))
     (filter (\<lambda>(p, _). case p of FailedFile _ \<Rightarrow> True | _ \<Rightarrow> False) (dk_files d)))"

definition prune_build :: "warehouse_path \<Rightarrow> ('c wh_world, unit) op" where
  "prune_build p = bindM (on_disk (\<lambda>_. unlink p)) (\<lambda>_. on_disk (\<lambda>_. modifyM (set_wal p False)))"

definition prune_failed_builds :: "nat \<Rightarrow> ('c wh_world, unit) op" where
  "prune_failed_builds keep =
     bindM (on_disk (\<lambda>_. getM failed_builds)) (\<lambda>builds. iterM prune_build (drop keep builds))"

section \<open>Recovery\<close>

definition PUBLISH_LEASE :: time where "PUBLISH_LEASE = 5 * 60 * 1000000"

definition published_identity_matches :: "file_identity option \<Rightarrow> ('c disk, bool) op" where
  "published_identity_matches recorded = getM (\<lambda>d. recorded \<noteq> None \<and> map_option sf_identity (file_at d PublishedFile) = recorded)"

definition clean_failed_recovery :: "'c engine \<Rightarrow> time \<Rightarrow> uuid \<Rightarrow> ('c wh_world, unit) op" where
  "clean_failed_recovery en now rid =
     bindM (isolate_build en rid now) (\<lambda>path.
     bindM (case path of None \<Rightarrow> returnM () | Some p \<Rightarrow> on_runs (\<lambda>_. record_failed_path rid p)) (\<lambda>_.
     bindM (prune_failed_builds FAILED_BUILD_RETENTION) (\<lambda>_.
     on_disk (\<lambda>_. remove_target rid))))"

definition recover_run :: "'c engine \<Rightarrow> time \<Rightarrow> publish_record \<Rightarrow> ('c wh_world, uuid list) op" where
  "recover_run en now record = (let rid = rec_publish_run_id record in
     bindM (if rec_status record = PUBLISHING
            then on_disk (\<lambda>_. published_identity_matches (rec_published_identity record)) else returnM False) (\<lambda>published.
     bindM (on_runs (\<lambda>_. close_stale_run rid published (now - PUBLISH_LEASE) now)) (\<lambda>closed.
     if \<not> closed then returnM []
     else
       bindM (if published
              then bindM (on_disk (\<lambda>_. unlink (BuildFile rid))) (\<lambda>_. on_disk (\<lambda>_. remove_target rid))
              else clean_failed_recovery en now rid) (\<lambda>_.
       returnM [rid]))))"

definition reclaim_runs :: "'c engine \<Rightarrow> time \<Rightarrow> publish_run option \<Rightarrow> ('c wh_world, uuid list) op" where
  "reclaim_runs en now reclaim = (case reclaim of
      None \<Rightarrow> returnM []
    | Some run \<Rightarrow> (case pub_dag_run_id run of
        None \<Rightarrow> returnM []
      | Some dag_run \<Rightarrow>
          bindM (on_runs (\<lambda>_. close_dag_run_building (pub_pipeline_name run) dag_run now)) (\<lambda>ids.
          bindM (iterM (clean_failed_recovery en now) ids) (\<lambda>_. returnM ids))))"

definition recover_incomplete_publishes ::
    "'c engine \<Rightarrow> time \<Rightarrow> publish_run option \<Rightarrow> ('c wh_world, uuid list) op" where
  "recover_incomplete_publishes en now reclaim =
     bindM (reclaim_runs en now reclaim) (\<lambda>reclaimed.
     bindM (on_runs (\<lambda>_. stale_active_runs (now - PUBLISH_LEASE))) (\<lambda>records.
     bindM (mapM (recover_run en now) records) (\<lambda>recovered.
     returnM (reclaimed @ concat recovered))))"

section \<open>The stages\<close>

definition fail_run :: "'c engine \<Rightarrow> uuid \<Rightarrow> string \<Rightarrow> string \<Rightarrow> ('c wh_world, unit) op" where
  "fail_run en rid error_type message =
     bindM now_utc (\<lambda>now.
     bindM (isolate_build en rid now) (\<lambda>path.
     bindM (on_runs (\<lambda>_. mark_failed rid error_type (if message = [] then error_type else message) path now)) (\<lambda>_.
     bindM (prune_failed_builds FAILED_BUILD_RETENTION) (\<lambda>_.
     on_disk (\<lambda>_. remove_target rid)))))"

definition failing :: "'c engine \<Rightarrow> uuid \<Rightarrow> exn \<Rightarrow> ('c wh_world, unit) op" where
  "failing en rid e = (if py_exception e then fail_run en rid (classify_error e) (exn_message e) else returnM ())"

text \<open>One call that works on the contents of the build file.\<close>

definition work_on_build ::
    "'c engine \<Rightarrow> uuid \<Rightarrow> ('c option \<Rightarrow> 'a result \<times> 'c option \<times> bool) \<Rightarrow> ('c wh_world, 'a) op" where
  "work_on_build en rid work = on_disk (\<lambda>now d.
     case work (map_option sf_content (file_at d (BuildFile rid))) of
       (r, None, _) \<Rightarrow> (r, d)
     | (r, Some c, wal) \<Rightarrow> (r, set_wal (BuildFile rid) wal (write_file (en_inode en) now (BuildFile rid) c d)))"

definition opened :: "exn option \<times> 'c \<times> bool \<Rightarrow> unit result \<times> 'c option \<times> bool" where
  "opened = (\<lambda>(e, c, wal). (case e of None \<Rightarrow> Inr () | Some e \<Rightarrow> Inl e, Some c, wal))"

definition copy_published :: "'c engine \<Rightarrow> uuid \<Rightarrow> ('c wh_world, unit) op" where
  "copy_published en rid = on_disk (\<lambda>now d. case file_at d PublishedFile of
      None \<Rightarrow> (Inr (), d)
    | Some f \<Rightarrow> (Inr (), write_file (en_inode en) now (BuildFile rid) (sf_content f) d))"

definition prepare_build :: "'c engine \<Rightarrow> uuid \<Rightarrow> ('c wh_world, unit) op" where
  "prepare_build en rid =
     bindM (on_disk (\<lambda>_. wal_exists PublishedFile)) (\<lambda>wal.
     bindM (assertM (\<not> wal) PublishedWalError ''Published warehouse has a WAL'') (\<lambda>_.
     bindM (copy_published en rid) (\<lambda>_.
     work_on_build en rid (opened \<circ> en_sync en))))"

definition prepare_warehouse_build :: "'c engine \<Rightarrow> publish_run \<Rightarrow> ('c wh_world, string) op" where
  "prepare_warehouse_build en run = (let rid = pub_publish_run_id run in
     bindM now_utc (\<lambda>now.
     bindM contact (\<lambda>_.
     bindM (recover_incomplete_publishes en now (Some run)) (\<lambda>_.
     bindM (on_runs (\<lambda>_. start_publish_run run now)) (\<lambda>_.
     publish_heartbeat rid
       (bindM (exceptM (prepare_build en rid) (failing en rid)) (\<lambda>_.
        returnM (path_string (en_root en) (BuildFile rid)))))))))"

definition run_dbt :: "'c engine \<Rightarrow> uuid \<Rightarrow> ('c wh_world, dbt_run_result) op" where
  "run_dbt en rid =
     bindM (work_on_build en rid (en_dbt en)) (\<lambda>result.
     bindM (on_disk (\<lambda>_. modifyM (\<lambda>d. d\<lparr>dk_targets := List.insert rid (dk_targets d)\<rparr>))) (\<lambda>_.
     bindM (on_runs (\<lambda>_. record_dbt_result rid (dr_invocation_id result) (dr_tests_passed result) (dr_tests_failed result))) (\<lambda>_.
     returnM result)))"

definition FAILED_NODE_LIMIT :: nat where "FAILED_NODE_LIMIT = 20"

definition failure_summary :: "string \<Rightarrow> dbt_run_result \<Rightarrow> string" where
  "failure_summary error_type result =
     error_type @ '': failed nodes: '' @
     (let nodes = join_with '', '' (take FAILED_NODE_LIMIT (dr_failed_nodes result)) in if nodes = [] then ''none'' else nodes) @
     [CHR 0x0A] @ dr_output result"

definition failure_type :: "dbt_run_result \<Rightarrow> string" where
  "failure_type result = (case dr_error_type result of
      None \<Rightarrow> DBT_BUILD_ERROR | Some t \<Rightarrow> if t = [] then DBT_BUILD_ERROR else t)"

definition build_warehouse :: "'c engine \<Rightarrow> uuid \<Rightarrow> ('c wh_world, dbt_run_result) op" where
  "build_warehouse en rid =
     bindM (exceptM (publish_heartbeat rid (run_dbt en rid)) (failing en rid)) (\<lambda>result.
     if run_succeeded result then returnM result
     else
       bindM (fail_run en rid (failure_type result) (failure_summary (failure_type result) result)) (\<lambda>_.
       raiseM (WarehouseBuildError (failure_type result)) (failure_summary (failure_type result) result)))"

record publish_outcome =
  po_publish_run_id :: uuid
  po_previous_publish_run_id :: "uuid option"
  po_mart_hashes :: "(string \<times> string) list"
  po_mart_row_counts :: "(string \<times> int) list"
  po_changed_relations :: "string list"
  po_published_identity :: file_identity

definition build_hashes ::
    "'c engine \<Rightarrow> 'c \<Rightarrow> ((string \<times> string) list \<times> (string \<times> int) list) result" where
  "build_hashes en c = mart_hashes_and_row_counts (en_sha en) (en_query en c) (en_targets en)"

definition hash_build :: "'c engine \<Rightarrow> uuid \<Rightarrow> ('c disk, (string \<times> string) list \<times> (string \<times> int) list) op" where
  "hash_build en rid = (\<lambda>d. (case file_at d (BuildFile rid) of
      None \<Rightarrow> Inl (Exn (OtherError ''IOException'') (path_string (en_root en) (BuildFile rid)))
    | Some f \<Rightarrow> build_hashes en (sf_content f), d))"

definition swap_build ::
    "'c engine \<Rightarrow> uuid \<Rightarrow> ('c wh_world, (string \<times> string) list \<times> (string \<times> int) list \<times> file_identity) op" where
  "swap_build en rid =
     bindM (work_on_build en rid (opened \<circ> en_checkpoint en)) (\<lambda>_.
     bindM (on_disk (\<lambda>_. wal_exists (BuildFile rid))) (\<lambda>wal.
     bindM (assertM (\<not> wal) PublishedWalError ''Build warehouse still has a WAL'') (\<lambda>_.
     bindM (on_disk (\<lambda>_. hash_build en rid)) (\<lambda>(hashes, counts).
     bindM (on_disk (\<lambda>_. file_identity (BuildFile rid))) (\<lambda>identity.
     bindM (on_runs (\<lambda>_. mark_publishing rid hashes counts identity)) (\<lambda>_.
     bindM (on_disk (\<lambda>_. os_replace (BuildFile rid) PublishedFile)) (\<lambda>_.
     bindM contact (\<lambda>_.
     bindM now_utc (\<lambda>now.
     bindM (on_runs (\<lambda>_. mark_published rid now)) (\<lambda>_.
     returnM (hashes, counts, identity)))))))))))"

definition failing_unless_swapped :: "'c engine \<Rightarrow> uuid \<Rightarrow> exn \<Rightarrow> ('c wh_world, unit) op" where
  "failing_unless_swapped en rid e =
     (if py_exception e
      then bindM (on_disk (\<lambda>_. file_exists (BuildFile rid))) (\<lambda>found.
        if found then fail_run en rid (classify_error e) (exn_message e) else returnM ())
      else returnM ())"

definition previous_hashes :: "publish_record \<Rightarrow> ('c wh_world, (string \<times> string) list) op" where
  "previous_hashes record = (case rec_previous_publish_run_id record of
      None \<Rightarrow> returnM []
    | Some k \<Rightarrow> bindM (on_runs (\<lambda>_. get_publish_run k)) (\<lambda>previous.
        returnM (case previous of None \<Rightarrow> [] | Some p \<Rightarrow> (case rec_mart_hashes p of None \<Rightarrow> [] | Some h \<Rightarrow> h))))"

definition publish_build :: "'c engine \<Rightarrow> uuid \<Rightarrow> ('c wh_world, publish_outcome) op" where
  "publish_build en rid =
     bindM (on_runs (\<lambda>_. get_publish_run rid)) (\<lambda>record. case record of
       None \<Rightarrow> raiseM PublishStateError (''Publish run '' @ uuid_str rid @ '' does not exist'')
     | Some record \<Rightarrow>
         bindM (exceptM (publish_heartbeat rid (swap_build en rid)) (failing_unless_swapped en rid)) (\<lambda>(hashes, counts, identity).
         bindM (on_disk (\<lambda>_. remove_target rid)) (\<lambda>_.
         bindM (previous_hashes record) (\<lambda>earlier.
         returnM \<lparr>po_publish_run_id = rid, po_previous_publish_run_id = rec_previous_publish_run_id record,
           po_mart_hashes = hashes, po_mart_row_counts = counts, po_changed_relations = mismatched_relations earlier hashes,
           po_published_identity = identity\<rparr>))))"

definition publish_warehouse :: "'c engine \<Rightarrow> publish_run \<Rightarrow> ('c wh_world, publish_outcome) op" where
  "publish_warehouse en run =
     bindM (prepare_warehouse_build en run) (\<lambda>_.
     bindM (build_warehouse en (pub_publish_run_id run)) (\<lambda>_.
     publish_build en (pub_publish_run_id run)))"

end
