(* ===== verification/WarehouseRuns.thy ===== *)
theory WarehouseRuns
  imports Warehouse
begin

text \<open>
  What a publication keeps, whatever other processes do at its turns and wherever it is interrupted
  or killed: the published file is always one that a run hashed and recorded before it was put in
  place. The proof is by rely and guarantee: a process may rely on the others to leave its own row and
  build alone, and each of its own steps gives the others the same.
\<close>

section \<open>Specifications of operations\<close>

text \<open>From \<open>P\<close>, a result \<open>x\<close> comes with \<open>Q x\<close> and an exception with \<open>E\<close>.\<close>

definition triple :: "('s \<Rightarrow> bool) \<Rightarrow> ('s, 'a) op \<Rightarrow> ('a \<Rightarrow> 's \<Rightarrow> bool) \<Rightarrow> ('s \<Rightarrow> bool) \<Rightarrow> bool" where
  "triple P m Q E \<longleftrightarrow> (\<forall>w x w'. P w \<longrightarrow> m w = (x, w') \<longrightarrow> (case x of Inr v \<Rightarrow> Q v w' | Inl _ \<Rightarrow> E w'))"

lemma tripleI:
  "(\<And>w v w'. P w \<Longrightarrow> m w = (Inr v, w') \<Longrightarrow> Q v w') \<Longrightarrow> (\<And>w e w'. P w \<Longrightarrow> m w = (Inl e, w') \<Longrightarrow> E w') \<Longrightarrow> triple P m Q E"
  by (auto simp: triple_def split: sum.splits)

lemma triple_ok: "triple P m Q E \<Longrightarrow> P w \<Longrightarrow> m w = (Inr v, w') \<Longrightarrow> Q v w'"
  by (fastforce simp: triple_def)

lemma triple_err: "triple P m Q E \<Longrightarrow> P w \<Longrightarrow> m w = (Inl e, w') \<Longrightarrow> E w'"
  by (fastforce simp: triple_def)

lemma triple_weaken:
  assumes "triple P m Q E" "\<And>w. P' w \<Longrightarrow> P w" "\<And>v w. Q v w \<Longrightarrow> Q' v w" "\<And>w. E w \<Longrightarrow> E' w"
  shows "triple P' m Q' E'"
  using assms triple_ok [OF assms(1)] triple_err [OF assms(1)] by (intro tripleI) blast+

lemma triple_return: "(\<And>w. P w \<Longrightarrow> Q v w) \<Longrightarrow> triple P (returnM v) Q E"
  by (auto intro: tripleI)

lemma triple_assert: "(\<And>w. P w \<Longrightarrow> E w) \<Longrightarrow> triple P (assertM b c msg) (\<lambda>_ w. P w \<and> b) E"
  by (auto intro: tripleI)

lemma triple_raise: "(\<And>w. P w \<Longrightarrow> E w) \<Longrightarrow> triple P (raiseM c msg) Q E"
  by (auto intro: tripleI)

lemma triple_bind: "triple P m R E \<Longrightarrow> (\<And>v. triple (R v) (f v) Q E) \<Longrightarrow> triple P (bindM m f) Q E"
  by (rule tripleI) (auto simp: bindM_ok bindM_err dest: triple_ok triple_err)

lemma triple_if: "(b \<Longrightarrow> triple P m Q E) \<Longrightarrow> (\<not> b \<Longrightarrow> triple P n Q E) \<Longrightarrow> triple P (if b then m else n) Q E"
  by simp

lemma triple_option:
  "(x = None \<Longrightarrow> triple P m Q E) \<Longrightarrow> (\<And>y. x = Some y \<Longrightarrow> triple P (f y) Q E) \<Longrightarrow>
     triple P (case x of None \<Rightarrow> m | Some y \<Rightarrow> f y) Q E"
  by (cases x) auto

lemma triple_except:
  assumes "triple P m Q E" "\<And>e. triple E (h e) (\<lambda>_. E) E"
  shows "triple P (exceptM m h) Q E"
proof (rule tripleI)
  fix w v w' assume "P w" "exceptM m h w = (Inr v, w')"
  then show "Q v w'"
    using triple_ok [OF assms(1)] by (auto simp: exceptM_def split: prod.splits sum.splits if_splits)
next
  fix w e w' assume w: "P w" "exceptM m h w = (Inl e, w')"
  obtain x w1 where m: "m w = (x, w1)" by (cases "m w")
  with w obtain e1 where e1: "x = Inl e1" by (cases x) (auto simp: exceptM_def)
  with m w(1) have E: "E w1" using triple_err [OF assms(1)] by blast
  obtain y w2 where h: "h e1 w1 = (y, w2)" by (cases "h e1 w1")
  have E2: "E w2" using triple_ok [OF assms(2) E] triple_err [OF assms(2) E] h by (cases y) auto
  have "w' = w1 \<or> w' = w2"
    using w(2) unfolding exceptM_def m e1 by (auto simp: h split: if_splits sum.splits)
  with E E2 show "E w'" by blast
qed

lemma triple_suppress: "triple P m (\<lambda>_. P) P \<Longrightarrow> triple P (suppress_exceptions m) (\<lambda>_. P) P"
  unfolding triple_def suppress_exceptions_def
  by (auto split: prod.splits sum.splits if_splits)

lemma triple_iter: "(\<And>x. triple P (f x) (\<lambda>_. P) P) \<Longrightarrow> triple P (iterM f xs) (\<lambda>_. P) P"
  by (induction xs) (auto intro: triple_return triple_bind)

lemma triple_map: "(\<And>x. triple P (f x) (\<lambda>_. P) P) \<Longrightarrow> triple P (mapM f xs) (\<lambda>_. P) P"
  by (induction xs) (auto intro!: triple_return triple_bind)

section \<open>The disk\<close>

definition disk_ok :: "'c disk \<Rightarrow> bool" where
  "disk_ok d \<longleftrightarrow> pk_ok (dk_files d) \<and> distinct (inodes d)"

lemma map_of_filter_key: "map_of (filter (\<lambda>(q, _). q \<noteq> p) t) k = (if k = p then None else map_of t k)"
  by (induction t) auto

lemma file_at_changes [simp]:
  "file_at (drop_file p d) q = (if q = p then None else file_at d q)"
  "file_at (put_file p f d) q = (if q = p then Some f else file_at d q)"
  "file_at (set_wal p b d) q = file_at d q"
  by (auto simp: file_at_def drop_file_def put_file_def set_wal_def map_of_filter_key)

lemma disk_ok_same_files: "dk_files d' = dk_files d \<Longrightarrow> disk_ok d' = disk_ok d"
  by (simp add: disk_ok_def inodes_def)

lemma set_wal_files [simp]: "dk_files (set_wal p b d) = dk_files d"
  by (simp add: set_wal_def)

lemma set_wal_ok [simp]: "disk_ok (set_wal p b d) = disk_ok d"
  by (rule disk_ok_same_files) simp

lemma distinct_map_filter: "distinct (map f xs) \<Longrightarrow> distinct (map f (filter p xs))"
  by (induction xs) auto

lemma disk_ok_drop: "disk_ok d \<Longrightarrow> disk_ok (drop_file p d)"
  by (simp add: disk_ok_def pk_ok_def inodes_def drop_file_def distinct_map_filter)

lemma disk_ok_put:
  assumes "disk_ok d" "fi_inode (sf_identity f) \<notin> set (inodes (drop_file p d))"
  shows "disk_ok (put_file p f d)"
  using disk_ok_drop [OF assms(1), of p] assms(2)
  by (auto simp: disk_ok_def pk_ok_def inodes_def drop_file_def put_file_def)

lemma inode_of_other:
  assumes "disk_ok d" "file_at d p = Some f"
  shows "fi_inode (sf_identity f) \<notin> set (inodes (drop_file p d))"
proof
  assume "fi_inode (sf_identity f) \<in> set (inodes (drop_file p d))"
  then obtain q g where g: "(q, g) \<in> set (dk_files d)" "q \<noteq> p" "fi_inode (sf_identity g) = fi_inode (sf_identity f)"
    by (auto simp: inodes_def drop_file_def)
  have f: "(p, f) \<in> set (dk_files d)" using assms(2) by (auto simp: file_at_def dest: map_of_SomeD)
  have "inj_on (fi_inode \<circ> sf_identity \<circ> snd) (set (dk_files d))"
    using assms(1) by (simp add: disk_ok_def inodes_def distinct_map)
  with f g show False by (auto dest!: inj_onD [where x = "(q, g)" and y = "(p, f)"])
qed

lemma inodes_drop: "set (inodes (drop_file p d)) \<subseteq> set (inodes d)"
  by (auto simp: inodes_def drop_file_def)

definition engine_ok :: "'c engine \<Rightarrow> bool" where
  "engine_ok en \<longleftrightarrow> (\<forall>used. en_inode en used \<notin> set used)"

lemma disk_ok_write:
  assumes "engine_ok en" "disk_ok d"
  shows "disk_ok (write_file (en_inode en) now p c d)"
  unfolding write_file_def
proof (rule disk_ok_put [OF assms(2)], cases "file_at d p")
  case None
  with assms(1) inodes_drop [of p d] show "fi_inode (sf_identity \<lparr>sf_identity = \<lparr>fi_inode =
      (case file_at d p of None \<Rightarrow> en_inode en (inodes d) | Some f \<Rightarrow> fi_inode (sf_identity f)), fi_mtime_ns = now * 1000\<rparr>,
      sf_content = c\<rparr>) \<notin> set (inodes (drop_file p d))" by (auto simp: engine_ok_def)
next
  case (Some f)
  with inode_of_other [OF assms(2) Some] show "fi_inode (sf_identity \<lparr>sf_identity = \<lparr>fi_inode =
      (case file_at d p of None \<Rightarrow> en_inode en (inodes d) | Some f \<Rightarrow> fi_inode (sf_identity f)), fi_mtime_ns = now * 1000\<rparr>,
      sf_content = c\<rparr>) \<notin> set (inodes (drop_file p d))" by simp
qed

lemma file_at_write [simp]: "q \<noteq> p \<Longrightarrow> file_at (write_file fresh now p c d) q = file_at d q"
  by (simp add: write_file_def)

lemma disk_ok_replace:
  assumes "disk_ok d" "file_at d p = Some f"
  shows "disk_ok (put_file q f (drop_file p d))"
proof (rule disk_ok_put [OF disk_ok_drop [OF assms(1)]])
  show "fi_inode (sf_identity f) \<notin> set (inodes (drop_file q (drop_file p d)))"
    using inode_of_other [OF assms] inodes_drop [of q "drop_file p d"] by blast
qed

lemma disk_ok_utime:
  assumes "disk_ok d" "file_at d p = Some f"
  shows "disk_ok (put_file p (f\<lparr>sf_identity := (sf_identity f)\<lparr>fi_mtime_ns := n\<rparr>\<rparr>) d)"
  using inode_of_other [OF assms] by (intro disk_ok_put assms(1)) simp

section \<open>The invariant\<close>

text \<open>A row describes a file when it holds its identity and the hashes of its contents.\<close>

definition describes :: "'c engine \<Rightarrow> publish_row \<Rightarrow> 'c stored_file \<Rightarrow> bool" where
  "describes en r f \<longleftrightarrow>
     pr_published_inode r = Some (fi_inode (sf_identity f)) \<and> pr_published_mtime_ns r = Some (fi_mtime_ns (sf_identity f)) \<and>
     (case (pr_mart_hashes r, pr_mart_row_counts r) of
        (Some hs, Some ns) \<Rightarrow> build_hashes en (sf_content f) = Inr (hs, ns) | _ \<Rightarrow> False)"

lemma describes_checked: "checked_part r' = checked_part r \<Longrightarrow> describes en r' f = describes en r f"
  by (simp add: describes_def checked_part_def)

definition published_recorded :: "'c engine \<Rightarrow> 'c shared \<Rightarrow> bool" where
  "published_recorded en = (\<lambda>(t, d). \<forall>f. file_at d PublishedFile = Some f \<longrightarrow>
     (\<exists>k r. map_of t k = Some r \<and> describes en r f))"

definition builds_recorded :: "'c engine \<Rightarrow> 'c shared \<Rightarrow> bool" where
  "builds_recorded en = (\<lambda>(t, d). \<forall>k r f. map_of t k = Some r \<longrightarrow> pr_mart_hashes r \<noteq> None \<longrightarrow>
     file_at d (BuildFile k) = Some f \<longrightarrow> describes en r f)"

text \<open>The state every process keeps; new files take inodes that are not in use.\<close>

definition warehouse_inv :: "'c engine \<Rightarrow> 'c shared \<Rightarrow> bool" where
  "warehouse_inv en x \<longleftrightarrow> engine_ok en \<and> publish_inv (fst x) \<and> disk_ok (snd x) \<and> published_recorded en x \<and> builds_recorded en x \<and>
     (\<forall>k r. map_of (fst x) k = Some r \<longrightarrow> pr_status r = BUILDING \<longrightarrow> pr_mart_hashes r = None)"

text \<open>A step leaves run \<open>k\<close> alone when it keeps what its row records and at most takes its build away.\<close>

definition leaves :: "uuid \<Rightarrow> 'c shared \<Rightarrow> 'c shared \<Rightarrow> bool" where
  "leaves k x y \<longleftrightarrow>
     map_option checked_part (map_of (fst y) k) = map_option checked_part (map_of (fst x) k) \<and>
     (file_at (snd y) (BuildFile k) = file_at (snd x) (BuildFile k) \<or> file_at (snd y) (BuildFile k) = None)"

lemma leaves_refl: "leaves k x x"
  by (simp add: leaves_def)

text \<open>
  What run \<open>rid\<close> relies on, and what it guarantees to every other run; it is the \<open>sole\<close> publisher
  when nobody else touches the published file or its build.
\<close>

definition rely :: "bool \<Rightarrow> 'c engine \<Rightarrow> uuid \<Rightarrow> 'c shared \<Rightarrow> 'c shared \<Rightarrow> bool" where
  "rely sole en rid x y \<longleftrightarrow> warehouse_inv en y \<and> publish_step (fst x) (fst y) \<and> leaves rid x y \<and>
     (sole \<longrightarrow> file_at (snd y) PublishedFile = file_at (snd x) PublishedFile \<and>
       file_at (snd y) (BuildFile rid) = file_at (snd x) (BuildFile rid))"

definition guarantee :: "'c engine \<Rightarrow> uuid \<Rightarrow> 'c shared \<Rightarrow> 'c shared \<Rightarrow> bool" where
  "guarantee en rid x y \<longleftrightarrow> warehouse_inv en y \<and> publish_step (fst x) (fst y) \<and> (\<forall>k. k \<noteq> rid \<longrightarrow> leaves k x y)"

lemma guarantee_refl: "warehouse_inv en x \<Longrightarrow> guarantee en rid x x"
  by (simp add: guarantee_def leaves_refl publish_order.refl)

lemma guarantee_gives_rely: "guarantee en rid x y \<Longrightarrow> k \<noteq> rid \<Longrightarrow> rely False en k x y"
  by (simp add: guarantee_def rely_def)

definition trusted :: "bool \<Rightarrow> 'c engine \<Rightarrow> uuid \<Rightarrow> 'c wh_world \<Rightarrow> bool" where
  "trusted sole en rid w \<longleftrightarrow> warehouse_inv en (shared w) \<and>
     (\<forall>t \<in> set (wh_schedule w). \<forall>x. warehouse_inv en x \<longrightarrow> rely sole en rid x (wt_others t x)) \<and>
     (\<forall>(x, y) \<in> set (wh_steps w). guarantee en rid x y)"

definition holds :: "bool \<Rightarrow> 'c engine \<Rightarrow> uuid \<Rightarrow> ('c shared \<Rightarrow> bool) \<Rightarrow> 'c wh_world \<Rightarrow> bool" where
  "holds sole en rid p w \<longleftrightarrow> trusted sole en rid w \<and> p (shared w)"

abbreviation safe :: "bool \<Rightarrow> 'c engine \<Rightarrow> uuid \<Rightarrow> 'c wh_world \<Rightarrow> bool" where
  "safe sole en rid \<equiv> holds sole en rid (\<lambda>_. True)"

text \<open>Facts that other processes cannot take from run \<open>rid\<close>.\<close>

definition stable :: "bool \<Rightarrow> 'c engine \<Rightarrow> uuid \<Rightarrow> ('c shared \<Rightarrow> bool) \<Rightarrow> bool" where
  "stable sole en rid p \<longleftrightarrow> (\<forall>x y. warehouse_inv en x \<longrightarrow> p x \<longrightarrow> rely sole en rid x y \<longrightarrow> p y)"

section \<open>Table steps\<close>

definition checked_kept :: "publish_table \<Rightarrow> publish_table \<Rightarrow> bool" where
  "checked_kept t t' \<longleftrightarrow> (\<forall>k. map_option checked_part (map_of t' k) = map_option checked_part (map_of t k))"

lemma update_publish_kept:
  assumes "update_publish p f t = (x, t')" "\<And>r. checked_part (f r) = checked_part r"
  shows "checked_kept t t'"
proof (cases x)
  case (Inl e)
  with update_publish_err [of p f t] assms(1) show ?thesis by (auto simp: checked_kept_def)
next
  case (Inr ids)
  with assms have "t' = update_rows p f t" by (simp add: update_publish_ok)
  then show ?thesis
    unfolding checked_kept_def using assms(2) by (auto simp: map_of_update_rows option.map_comp comp_def intro!: option.map_cong)
qed

lemma transition_kept:
  assumes "publish_transition rid expected f t = (x, t')" "\<And>r. checked_part (f r) = checked_part r"
  shows "checked_kept t t'"
proof (cases x)
  case (Inl e)
  with transition_err [of rid expected f t] assms(1) show ?thesis by (auto simp: checked_kept_def)
next
  case (Inr u)
  with assms(1) obtain ids where "update_publish (\<lambda>k r. k = rid \<and> pr_status r \<in> set expected) f t = (Inr ids, t')"
    by (auto simp: publish_transition_def transactionM_ok bindM_ok)
  then show ?thesis by (rule update_publish_kept) (rule assms(2))
qed

lemma row_persists:
  assumes "publish_step t t'" "checked_kept t t'" "map_of t k = Some r"
  obtains r' where "map_of t' k = Some r'" "checked_part r' = checked_part r"
  using assms unfolding publish_step_def checked_kept_def
  by (metis map_option_eq_Some option.inject)

lemma checked_hashes: "checked_part r' = checked_part r \<Longrightarrow> pr_mart_hashes r' = pr_mart_hashes r"
  by (simp add: checked_part_def)

lemma guarantee_table:
  assumes "warehouse_inv en (t, d)" "publish_step t t'"
    and kept: "\<And>k. map_option checked_part (map_of t' k) = map_option checked_part (map_of t k) \<or>
      k = rid \<and> map_of t k = None \<and> (\<exists>r. map_of t' k = Some r \<and> pr_mart_hashes r = None)"
  shows "guarantee en rid (t, d) (t', d)"
proof -
  note inv = assms(1) [unfolded warehouse_inv_def fst_conv snd_conv]
  have origin: "\<exists>r. map_of t k = Some r \<and> checked_part r' = checked_part r \<and> row_forward r r'"
    if "map_of t' k = Some r'" "pr_mart_hashes r' \<noteq> None" for k r'
  proof -
    from kept [of k] that obtain r where r: "map_of t k = Some r" "checked_part r' = checked_part r"
      by (cases "map_of t k") auto
    with assms(2) obtain r2 where "map_of t' k = Some r2" "row_forward r r2" unfolding publish_step_def by blast
    with that(1) r show ?thesis by simp
  qed
  have "published_recorded en (t', d)"
    unfolding published_recorded_def
  proof (clarify)
    fix f assume "file_at d PublishedFile = Some f"
    with inv obtain k r where r: "map_of t k = Some r" "describes en r f" by (auto simp: published_recorded_def)
    then obtain r' where r': "map_of t' k = Some r'" using assms(2) by (auto simp: publish_step_def)
    with kept [of k] r(1) have "checked_part r' = checked_part r" by auto
    with r r' describes_checked show "\<exists>k r. map_of t' k = Some r \<and> describes en r f" by metis
  qed
  moreover have "builds_recorded en (t', d)"
    unfolding builds_recorded_def
  proof (clarify)
    fix k r' f h assume k: "map_of t' k = Some r'" "pr_mart_hashes r' = Some h" "file_at d (BuildFile k) = Some f"
    then obtain r where r: "map_of t k = Some r" "checked_part r' = checked_part r" using origin [of k r'] by auto
    with k checked_hashes [of r' r] inv have "describes en r f" by (auto simp: builds_recorded_def)
    then show "describes en r' f" using describes_checked [OF r(2), of en f] by simp
  qed
  moreover have "pr_mart_hashes r' = None" if r': "map_of t' k = Some r'" "pr_status r' = BUILDING" for k r'
  proof (rule ccontr)
    assume "pr_mart_hashes r' \<noteq> None"
    with origin [OF r'(1)] obtain r where "map_of t k = Some r" "checked_part r' = checked_part r" "row_forward r r'" by blast
    with r'(2) inv \<open>pr_mart_hashes r' \<noteq> None\<close> checked_hashes [of r' r] show False by (auto simp: row_forward_def)
  qed
  moreover have "publish_inv t'" using assms(2) inv by (simp add: publish_step_def)
  ultimately have "warehouse_inv en (t', d)" using inv by (simp add: warehouse_inv_def)
  with assms(2) kept show ?thesis by (fastforce simp: guarantee_def leaves_def)
qed

lemma guarantee_update:
  assumes "warehouse_inv en (t, d)" "publish_step t t'" "checked_kept t t'"
  shows "guarantee en rid (t, d) (t', d)"
  using assms(3) by (intro guarantee_table assms) (simp add: checked_kept_def)

text \<open>The operations that record nothing new about a file.\<close>

lemma kept_ops:
  "touch_publish_run k now t = (x1, t') \<Longrightarrow> checked_kept t t'"
  "close_stale_run k published sb now t = (x1, t') \<Longrightarrow> checked_kept t t'"
  "close_dag_run_building pipeline g now t = (x2, t') \<Longrightarrow> checked_kept t t'"
  "record_dbt_result k i pa fa t = (x3, t') \<Longrightarrow> checked_kept t t'"
  "mark_failed k ty msg path now t = (x3, t') \<Longrightarrow> checked_kept t t'"
  "record_failed_path k fp t = (x3, t') \<Longrightarrow> checked_kept t t'"
  "mark_published k now t = (x3, t') \<Longrightarrow> checked_kept t t'"
  unfolding touch_publish_run_def close_stale_run_def close_dag_run_building_def record_dbt_result_def mark_failed_def
    record_failed_path_def mark_published_def
  by ((auto simp: bindM_def checked_part_def split: prod.splits sum.splits elim!: update_publish_kept)[2],
      (erule update_publish_kept transition_kept, simp add: checked_part_def)+)

section \<open>Steps that record or move a file\<close>

text \<open>A run that has recorded nothing may do as it likes with its own build.\<close>

definition unrecorded :: "uuid \<Rightarrow> 'c shared \<Rightarrow> bool" where
  "unrecorded k x \<longleftrightarrow> (\<forall>r. map_of (fst x) k = Some r \<longrightarrow> pr_mart_hashes r = None)"

lemma guarantee_disk:
  assumes "warehouse_inv en (t, d)" "disk_ok d'" "file_at d' PublishedFile = file_at d PublishedFile"
    and "\<And>k. file_at d' (BuildFile k) = file_at d (BuildFile k) \<or> file_at d' (BuildFile k) = None \<or> k = rid \<and> unrecorded rid (t, d)"
  shows "guarantee en rid (t, d) (t, d')"
proof -
  note inv = assms(1) [unfolded warehouse_inv_def fst_conv snd_conv]
  have "builds_recorded en (t, d')"
    unfolding builds_recorded_def
  proof (clarify)
    fix k r f h assume k: "map_of t k = Some r" "pr_mart_hashes r = Some h" "file_at d' (BuildFile k) = Some f"
    with assms(4) [of k] have "file_at d (BuildFile k) = Some f" by (auto simp: unrecorded_def)
    with k inv show "describes en r f" by (simp add: builds_recorded_def)
  qed
  moreover have "published_recorded en (t, d')" using inv assms(3) by (simp add: published_recorded_def)
  ultimately have "warehouse_inv en (t, d')" using inv assms(2) by (simp add: warehouse_inv_def)
  moreover have "leaves k (t, d) (t, d')" if "k \<noteq> rid" for k using assms(4) [of k] that by (auto simp: leaves_def)
  ultimately show ?thesis by (simp add: guarantee_def publish_order.refl)
qed

lemma guarantee_same_files:
  assumes "warehouse_inv en (t, d)" "dk_files d' = dk_files d"
  shows "guarantee en rid (t, d) (t, d')"
proof -
  have "file_at d' p = file_at d p" for p using assms(2) by (simp add: file_at_def)
  moreover have "disk_ok d'" using assms disk_ok_same_files by (auto simp: warehouse_inv_def)
  ultimately show ?thesis by (intro guarantee_disk assms(1)) simp_all
qed

text \<open>The build of run \<open>rid\<close> as it was hashed, if it is still there.\<close>

definition build_as :: "'c engine \<Rightarrow> uuid \<Rightarrow> (string \<times> string) list \<times> (string \<times> int) list \<Rightarrow> ('c shared \<Rightarrow> bool)" where
  "build_as en rid hc x \<longleftrightarrow> unrecorded rid x \<and>
     (\<forall>f. file_at (snd x) (BuildFile rid) = Some f \<longrightarrow> build_hashes en (sf_content f) = Inr hc)"

definition build_is :: "bool \<Rightarrow> 'c engine \<Rightarrow> uuid \<Rightarrow> (string \<times> string) list \<times> (string \<times> int) list \<Rightarrow> file_identity \<Rightarrow> ('c shared \<Rightarrow> bool)" where
  "build_is sole en rid hc i x \<longleftrightarrow> build_as en rid hc x \<and>
     (\<forall>f. file_at (snd x) (BuildFile rid) = Some f \<longrightarrow> sf_identity f = i) \<and>
     (sole \<longrightarrow> file_at (snd x) (BuildFile rid) \<noteq> None)"

definition recorded_run :: "uuid \<Rightarrow> 'c shared \<Rightarrow> bool" where
  "recorded_run k x \<longleftrightarrow> (\<exists>r. map_of (fst x) k = Some r \<and> pr_mart_hashes r \<noteq> None)"

lemma leaves_row:
  assumes "leaves k x y"
  shows "map_of (fst y) k = Some r' \<Longrightarrow> \<exists>r. map_of (fst x) k = Some r \<and> checked_part r' = checked_part r"
    and "map_of (fst x) k = Some r \<Longrightarrow> \<exists>r'. map_of (fst y) k = Some r' \<and> checked_part r' = checked_part r"
  using assms unfolding leaves_def
  by (cases "map_of (fst x) k"; cases "map_of (fst y) k"; simp)+

lemma leaves_unrecorded: "leaves k x y \<Longrightarrow> unrecorded k x \<Longrightarrow> unrecorded k y"
  unfolding unrecorded_def by (auto dest!: leaves_row(1) checked_hashes)

lemma leaves_recorded: "leaves k x y \<Longrightarrow> recorded_run k x \<Longrightarrow> recorded_run k y"
  unfolding recorded_run_def by (auto dest!: leaves_row(2) checked_hashes)

lemma leaves_build: "leaves k x y \<Longrightarrow> file_at (snd y) (BuildFile k) = Some f \<Longrightarrow> file_at (snd x) (BuildFile k) = Some f"
  by (auto simp: leaves_def)

lemma stable_facts:
  "stable sole en rid (\<lambda>_. True)" "stable sole en rid (unrecorded rid)" "stable sole en rid (recorded_run rid)"
  "stable sole en rid (build_as en rid hc)" "stable sole en rid (build_is sole en rid hc i)"
proof -
  show "stable sole en rid (\<lambda>_. True)" by (simp add: stable_def)
  show "stable sole en rid (unrecorded rid)" using leaves_unrecorded by (auto simp: stable_def rely_def)
  show "stable sole en rid (recorded_run rid)" using leaves_recorded by (auto simp: stable_def rely_def)
  show as: "stable sole en rid (build_as en rid hc)"
    unfolding stable_def rely_def build_as_def using leaves_unrecorded leaves_build by blast
  show "stable sole en rid (build_is sole en rid hc i)"
    using as leaves_build unfolding stable_def rely_def build_is_def by metis
qed

lemma guarantee_mark:
  assumes "warehouse_inv en (t, d)" "build_is sole en rid (hashes, counts) i (t, d)" "mark_publishing rid hashes counts i t = (Inr u, t')"
  shows "guarantee en rid (t, d) (t', d)" (is ?guar)
    and "\<exists>r r'. map_of t rid = Some r \<and> map_of t' = (map_of t)(rid \<mapsto> r') \<and>
      checked_part r' = (Some hashes, Some counts, Some (fi_inode i), Some (fi_mtime_ns i))" (is ?row)
proof -
  note inv = assms(1) [unfolded warehouse_inv_def fst_conv snd_conv]
  have pk: "pk_ok t" using inv by (simp add: publish_inv_def)
  have step: "publish_step t t'" using movesD [OF transitions_move(2) assms(3)] .
  obtain r where r: "map_of t rid = Some r" and t': "map_of t' = (map_of t)(rid \<mapsto>
      r\<lparr>pr_status := PUBLISHING, pr_mart_hashes := Some hashes, pr_mart_row_counts := Some counts,
        pr_published_inode := Some (fi_inode i), pr_published_mtime_ns := Some (fi_mtime_ns i)\<rparr>)"
  proof -
    have "publish_transition rid [BUILDING] (\<lambda>r. r\<lparr>pr_status := PUBLISHING, pr_mart_hashes := Some hashes,
        pr_mart_row_counts := Some counts, pr_published_inode := Some (fi_inode i),
        pr_published_mtime_ns := Some (fi_mtime_ns i)\<rparr>) t = (Inr (), t')"
      using assms(3) by (simp add: mark_publishing_def)
    from transition_row [OF pk this] that show thesis by blast
  qed
  from assms(2) r have old: "pr_mart_hashes r = None" by (auto simp: build_is_def build_as_def unrecorded_def)
  have "published_recorded en (t', d)"
    unfolding published_recorded_def
  proof (clarify)
    fix f assume "file_at d PublishedFile = Some f"
    with inv obtain k s where s: "map_of t k = Some s" "describes en s f" by (auto simp: published_recorded_def)
    with old r have "k \<noteq> rid" by (auto simp: describes_def)
    with s show "\<exists>k r. map_of t' k = Some r \<and> describes en r f" by (auto simp: t')
  qed
  moreover have "builds_recorded en (t', d)"
    using inv assms(2) by (auto simp: builds_recorded_def t' describes_def build_is_def build_as_def)
  moreover have "publish_inv t'" using step inv by (simp add: publish_step_def)
  ultimately have "warehouse_inv en (t', d)" using inv by (auto simp: warehouse_inv_def t')
  with step show ?guar by (auto simp: guarantee_def leaves_def t')
  from r t' show ?row by (auto simp: checked_part_def)
qed

lemma mark_err: "mark_publishing rid hashes counts i t = (Inl e, t') \<Longrightarrow> t' = t"
  by (simp add: mark_publishing_def transition_err)

lemma guarantee_swap:
  assumes "warehouse_inv en (t, d)" "recorded_run rid (t, d)" "os_replace (BuildFile rid) PublishedFile d = (x, d')"
  shows "guarantee en rid (t, d) (t, d')"
proof (cases "file_at d (BuildFile rid)")
  case None
  with assms show ?thesis by (simp add: os_replace_def guarantee_refl)
next
  case (Some f)
  note inv = assms(1) [unfolded warehouse_inv_def fst_conv snd_conv]
  from Some assms(3) have d': "d' = put_file PublishedFile f (drop_file (BuildFile rid) d)" by (simp add: os_replace_def)
  obtain r where r: "map_of t rid = Some r" "pr_mart_hashes r \<noteq> None" using assms(2) by (auto simp: recorded_run_def)
  with inv Some have "describes en r f" by (auto simp: builds_recorded_def)
  with r have "published_recorded en (t, d')" by (auto simp: published_recorded_def d')
  moreover have "builds_recorded en (t, d')" using inv by (auto simp: builds_recorded_def d')
  moreover have "disk_ok d'" using disk_ok_replace [OF _ Some] inv by (simp add: d')
  ultimately have "warehouse_inv en (t, d')" using inv by (simp add: warehouse_inv_def)
  then show ?thesis by (auto simp: guarantee_def leaves_def publish_order.refl d')
qed

section \<open>Turns\<close>

lemma own_step_shared [simp]:
  "shared (own_step x w) = x" "wh_schedule (own_step x w) = wh_schedule w" "wh_steps (own_step x w) = wh_steps w @ [(shared w, x)]"
  "shared (w\<lparr>wh_heartbeat := hb\<rparr>) = shared w" "shared (stop_heartbeat w) = shared w"
  "wh_schedule (stop_heartbeat w) = wh_schedule w" "wh_steps (stop_heartbeat w) = wh_steps w"
  by (simp_all add: shared_def own_step_def stop_heartbeat_def)

lemma holds_step:
  assumes "holds sole en rid p w" "guarantee en rid (shared w) x" "q x"
  shows "holds sole en rid q (own_step x w)"
proof -
  have "trusted sole en rid (own_step x w)"
    using assms(1,2) unfolding trusted_def holds_def own_step_shared by (auto simp: guarantee_def)
  with assms(3) show ?thesis by (simp add: holds_def)
qed

lemma holds_heartbeat [simp]:
  "holds sole en rid p (w\<lparr>wh_heartbeat := hb\<rparr>) = holds sole en rid p w" "holds sole en rid p (stop_heartbeat w) = holds sole en rid p w"
  by (simp_all add: holds_def trusted_def)

lemma holds_weaken: "holds sole en rid p w \<Longrightarrow> (p (shared w) \<Longrightarrow> q (shared w)) \<Longrightarrow> holds sole en rid q w"
  by (simp add: holds_def)

lemma holds_inv: "holds sole en rid p w \<Longrightarrow> warehouse_inv en (shared w)"
  by (simp add: holds_def trusted_def)

text \<open>A step on the table that records nothing leaves every run alone, its own included.\<close>

lemma kept_leaves:
  assumes "checked_kept t t'"
  shows "leaves k (t, d) (t', d)"
  using assms by (simp add: leaves_def checked_kept_def)

lemma stable_kept:
  assumes "stable sole en rid p" "warehouse_inv en (t, d)" "p (t, d)" "publish_step t t'" "checked_kept t t'"
  shows "p (t', d)"
proof -
  have "warehouse_inv en (t', d)" using guarantee_update [OF assms(2,4,5), of rid] by (simp add: guarantee_def)
  then have "rely sole en rid (t, d) (t', d)" using assms(4) kept_leaves [OF assms(5), of rid d] by (simp add: rely_def)
  with assms(1-3) show ?thesis unfolding stable_def by blast
qed

lemma holds_beat:
  assumes "holds sole en rid p w" "stable sole en rid p"
  shows "holds sole en rid p (beat w)"
proof (cases "\<exists>k alive t. wh_heartbeat w = Some (k, False) \<and> touch_publish_run k (wh_clock w) (wh_runs w) = (Inr alive, t)")
  case False
  then have "beat w = w" by (auto simp: beat_def split: option.splits sum.splits bool.splits prod.splits)
  with assms show ?thesis by simp
next
  case True
  then obtain k alive t where b: "wh_heartbeat w = Some (k, False)" "touch_publish_run k (wh_clock w) (wh_runs w) = (Inr alive, t)"
    by blast
  then have beat: "beat w = (own_step (t, wh_disk w) w)\<lparr>wh_heartbeat := Some (k, \<not> alive)\<rparr>" by (simp add: beat_def)
  have kept: "checked_kept (wh_runs w) t" using kept_ops(1) [OF b(2)] .
  have step: "publish_step (wh_runs w) t" using movesD [OF updates_move(1) b(2)] .
  have inv: "warehouse_inv en (wh_runs w, wh_disk w)" "p (wh_runs w, wh_disk w)"
    using assms(1) by (simp_all add: holds_def trusted_def shared_def)
  have "holds sole en rid p (own_step (t, wh_disk w) w)"
    using guarantee_update [OF inv(1) step kept] stable_kept [OF assms(2) inv step kept]
    by (intro holds_step [OF assms(1)]) (simp_all add: shared_def)
  then show ?thesis unfolding beat by simp
qed

lemma holds_other:
  assumes "holds sole en rid p w" "stable sole en rid p" "wh_schedule w = t # ts"
  shows "holds sole en rid p (other_step t w)"
proof -
  have s: "shared (other_step t w) = wt_others t (shared w)" "wh_schedule (other_step t w) = ts" "wh_steps (other_step t w) = wh_steps w"
    using assms(3) by (simp_all add: other_step_def shared_def Let_def)
  have inv: "warehouse_inv en (shared w)" "p (shared w)" using assms(1) by (simp_all add: holds_def trusted_def)
  moreover have "\<forall>t \<in> set (wh_schedule w). \<forall>x. warehouse_inv en x \<longrightarrow> rely sole en rid x (wt_others t x)"
    using assms(1) by (simp add: holds_def trusted_def)
  ultimately have "rely sole en rid (shared w) (wt_others t (shared w))"
    using assms(3) by (metis list.set_intros(1))
  then have "warehouse_inv en (wt_others t (shared w))" "p (wt_others t (shared w))"
    using inv assms(2) unfolding stable_def by (simp add: rely_def, blast)
  with assms(1,3) show ?thesis unfolding holds_def trusted_def s by simp
qed

lemma contact_holds:
  assumes "stable sole en rid p"
  shows "triple (holds sole en rid p) contact (\<lambda>_. holds sole en rid p) (holds sole en rid p)"
proof -
  have "holds sole en rid p (snd (contact w))" if h: "holds sole en rid p w" for w
  proof (cases "wh_schedule w")
    case Nil
    with h show ?thesis by (simp add: contact_def)
  next
    case (Cons t ts)
    from holds_other [OF h assms Cons] holds_beat [OF _ assms] show ?thesis
      by (cases "wt_fault t") (auto simp: contact_def Cons Let_def)
  qed
  then show ?thesis by (intro tripleI) (metis snd_conv)+
qed

text \<open>A call on the table or the disk: the others move first, then the call takes its step.\<close>

lemma contact_then:
  assumes "stable sole en rid p" "\<And>x. p x \<Longrightarrow> e x" "triple (holds sole en rid p) m q (holds sole en rid e)"
  shows "triple (holds sole en rid p) (bindM contact (\<lambda>_. m)) q (holds sole en rid e)"
proof (rule triple_bind [OF _ assms(3)])
  show "triple (holds sole en rid p) contact (\<lambda>_. holds sole en rid p) (holds sole en rid e)"
    by (rule triple_weaken [OF contact_holds [OF assms(1)]]) (simp_all add: holds_def assms(2))
qed

lemma runs_holds:
  assumes "stable sole en rid p" "\<And>x. p x \<Longrightarrow> e x"
    and "\<And>now t d x t'. warehouse_inv en (t, d) \<Longrightarrow> p (t, d) \<Longrightarrow> m now t = (x, t') \<Longrightarrow>
      guarantee en rid (t, d) (t', d) \<and> (case x of Inr v \<Rightarrow> q v (t', d) | Inl _ \<Rightarrow> e (t', d))"
  shows "triple (holds sole en rid p) (on_runs m) (\<lambda>v. holds sole en rid (q v)) (holds sole en rid e)"
  unfolding on_runs_def
proof (rule contact_then [OF assms(1,2)], assumption)
  show "triple (holds sole en rid p) (runs_now m) (\<lambda>v. holds sole en rid (q v)) (holds sole en rid e)"
  proof (rule tripleI)
    fix w v w' assume h: "holds sole en rid p w" and r: "runs_now m w = (Inr v, w')"
    then obtain t where t: "m (wh_clock w) (wh_runs w) = (Inr v, t)" "w' = own_step (t, wh_disk w) w"
      by (auto simp: runs_now_def split: prod.splits)
    from assms(3) [OF _ _ t(1), of "wh_disk w"] h show "holds sole en rid (q v) w'"
      unfolding t(2) by (intro holds_step [OF h]) (simp_all add: holds_def trusted_def shared_def)
  next
    fix w x w' assume h: "holds sole en rid p w" and r: "runs_now m w = (Inl x, w')"
    then obtain t where t: "m (wh_clock w) (wh_runs w) = (Inl x, t)" "w' = own_step (t, wh_disk w) w"
      by (auto simp: runs_now_def split: prod.splits)
    from assms(3) [OF _ _ t(1), of "wh_disk w"] h show "holds sole en rid e w'"
      unfolding t(2) by (intro holds_step [OF h]) (simp_all add: holds_def trusted_def shared_def)
  qed
qed

lemma disk_holds:
  assumes "stable sole en rid p" "\<And>x. p x \<Longrightarrow> e x"
    and "\<And>now t d x d'. warehouse_inv en (t, d) \<Longrightarrow> p (t, d) \<Longrightarrow> m now d = (x, d') \<Longrightarrow>
      guarantee en rid (t, d) (t, d') \<and> (case x of Inr v \<Rightarrow> q v (t, d') | Inl _ \<Rightarrow> e (t, d'))"
  shows "triple (holds sole en rid p) (on_disk m) (\<lambda>v. holds sole en rid (q v)) (holds sole en rid e)"
  unfolding on_disk_def
proof (rule contact_then [OF assms(1,2)], assumption)
  show "triple (holds sole en rid p) (disk_now m) (\<lambda>v. holds sole en rid (q v)) (holds sole en rid e)"
  proof (rule tripleI)
    fix w v w' assume h: "holds sole en rid p w" and r: "disk_now m w = (Inr v, w')"
    then obtain d where d: "m (wh_clock w) (wh_disk w) = (Inr v, d)" "w' = own_step (wh_runs w, d) w"
      by (auto simp: disk_now_def split: prod.splits)
    from assms(3) [OF _ _ d(1), of "wh_runs w"] h show "holds sole en rid (q v) w'"
      unfolding d(2) by (intro holds_step [OF h]) (simp_all add: holds_def trusted_def shared_def)
  next
    fix w x w' assume h: "holds sole en rid p w" and r: "disk_now m w = (Inl x, w')"
    then obtain d where d: "m (wh_clock w) (wh_disk w) = (Inl x, d)" "w' = own_step (wh_runs w, d) w"
      by (auto simp: disk_now_def split: prod.splits)
    from assms(3) [OF _ _ d(1), of "wh_runs w"] h show "holds sole en rid e w'"
      unfolding d(2) by (intro holds_step [OF h]) (simp_all add: holds_def trusted_def shared_def)
  qed
qed

lemma now_holds:
  assumes "stable sole en rid p" "\<And>x. p x \<Longrightarrow> e x"
  shows "triple (holds sole en rid p) now_utc (\<lambda>_. holds sole en rid p) (holds sole en rid e)"
  unfolding now_utc_def by (rule contact_then [OF assms]) (auto intro: tripleI)

text \<open>
  Most calls leave the published file and what the run has recorded alone. \<open>safely p m\<close> says that \<open>m\<close>
  keeps \<open>p\<close>, when \<open>p\<close> is stable and only depends on these two.
\<close>

definition frame :: "uuid \<Rightarrow> 'c shared \<Rightarrow> 'c shared \<Rightarrow> bool" where
  "frame rid x y \<longleftrightarrow> file_at (snd y) PublishedFile = file_at (snd x) PublishedFile \<and>
     map_option checked_part (map_of (fst y) rid) = map_option checked_part (map_of (fst x) rid)"

definition framed :: "'c engine \<Rightarrow> uuid \<Rightarrow> ('c shared \<Rightarrow> bool) \<Rightarrow> bool" where
  "framed en rid p \<longleftrightarrow> (\<forall>x y. warehouse_inv en x \<longrightarrow> p x \<longrightarrow> guarantee en rid x y \<longrightarrow> frame rid x y \<longrightarrow> p y)"

definition safely :: "bool \<Rightarrow> 'c engine \<Rightarrow> uuid \<Rightarrow> ('c shared \<Rightarrow> bool) \<Rightarrow> ('c wh_world, 'a) op \<Rightarrow> bool" where
  "safely sole en rid p m \<longleftrightarrow> (stable sole en rid p \<longrightarrow> framed en rid p \<longrightarrow>
     triple (holds sole en rid p) m (\<lambda>_. holds sole en rid p) (holds sole en rid p))"

lemma safely_basic:
  "safely sole en rid p (returnM x)" "safely sole en rid p (raiseM c msg)" "safely sole en rid p (assertM b c msg)"
  "safely sole en rid p contact" "safely sole en rid p now_utc"
  unfolding safely_def by (auto intro: tripleI contact_holds now_holds)

lemma safely_bind: "safely sole en rid p m \<Longrightarrow> (\<And>x. safely sole en rid p (f x)) \<Longrightarrow> safely sole en rid p (bindM m f)"
  unfolding safely_def by (auto intro: triple_bind)

lemma safely_bind_value:
  assumes "safely sole en rid p m" "\<And>w v w'. m w = (Inr v, w') \<Longrightarrow> c v" "\<And>v. c v \<Longrightarrow> safely sole en rid p (f v)"
  shows "safely sole en rid p (bindM m f)"
  unfolding safely_def
proof (intro impI)
  assume p: "stable sole en rid p" "framed en rid p"
  show "triple (holds sole en rid p) (bindM m f) (\<lambda>_. holds sole en rid p) (holds sole en rid p)"
  proof (rule triple_bind)
    show "triple (holds sole en rid p) m (\<lambda>v w. holds sole en rid p w \<and> c v) (holds sole en rid p)"
      using assms(1,2) p unfolding safely_def by (auto intro!: tripleI dest: triple_ok triple_err)
    show "triple (\<lambda>w. holds sole en rid p w \<and> c v) (f v) (\<lambda>_. holds sole en rid p) (holds sole en rid p)" for v
      using assms(3) [of v] p unfolding safely_def triple_def by blast
  qed
qed

lemma safely_if: "(b \<Longrightarrow> safely sole en rid p m) \<Longrightarrow> (\<not> b \<Longrightarrow> safely sole en rid p n) \<Longrightarrow> safely sole en rid p (if b then m else n)"
  by simp

lemma safely_option:
  "(x = None \<Longrightarrow> safely sole en rid p m) \<Longrightarrow> (\<And>y. x = Some y \<Longrightarrow> safely sole en rid p (f y)) \<Longrightarrow>
     safely sole en rid p (case x of None \<Rightarrow> m | Some y \<Rightarrow> f y)"
  by (cases x) auto

lemma safely_loops: "(\<And>x. safely sole en rid p (f x)) \<Longrightarrow> safely sole en rid p (iterM f xs)"
    "(\<And>x. safely sole en rid p (g x)) \<Longrightarrow> safely sole en rid p (mapM g xs)"
  unfolding safely_def by (auto intro: triple_iter triple_map)

lemma safely_disk:
  assumes "\<And>now t d x d'. warehouse_inv en (t, d) \<Longrightarrow> m now d = (x, d') \<Longrightarrow>
    guarantee en rid (t, d) (t, d') \<and> file_at d' PublishedFile = file_at d PublishedFile"
  shows "safely sole en rid p (on_disk m)"
  unfolding safely_def
proof (intro impI disk_holds)
  fix now t d x d' assume f: "framed en rid p" and a: "warehouse_inv en (t, d)" "p (t, d)" "m now d = (x, d')"
  from assms [OF a(1,3)] have g: "guarantee en rid (t, d) (t, d')" "frame rid (t, d) (t, d')" by (auto simp: frame_def)
  with f a(1,2) have "p (t, d')" unfolding framed_def by blast
  with g show "guarantee en rid (t, d) (t, d') \<and> (case x of Inr v \<Rightarrow> p (t, d') | Inl _ \<Rightarrow> p (t, d'))"
    by (simp split: sum.split)
qed

lemma safely_runs:
  assumes "\<And>now. moves publish_step (m now)" "\<And>now t x t'. m now t = (x, t') \<Longrightarrow> checked_kept t t'"
  shows "safely sole en rid p (on_runs m)"
  unfolding safely_def
proof (intro impI runs_holds)
  fix now t d x t' assume f: "framed en rid p" and a: "warehouse_inv en (t, d)" "p (t, d)" "m now t = (x, t')"
  have g: "guarantee en rid (t, d) (t', d)"
    using guarantee_update [OF a(1) movesD [OF assms(1) a(3)] assms(2) [OF a(3)]] .
  moreover have "frame rid (t, d) (t', d)" using assms(2) [OF a(3)] by (simp add: frame_def checked_kept_def)
  ultimately have "p (t', d)" using f a(1,2) unfolding framed_def by blast
  with g show "guarantee en rid (t, d) (t', d) \<and> (case x of Inr v \<Rightarrow> p (t', d) | Inl _ \<Rightarrow> p (t', d))"
    by (simp split: sum.split)
qed

lemma safely_reads: "safely sole en rid p (on_disk (\<lambda>_. getM f))" "safely sole en rid p (on_runs (\<lambda>_. getM g))"
proof -
  show "safely sole en rid p (on_disk (\<lambda>_. getM f))" by (rule safely_disk) (simp add: guarantee_refl)
  show "safely sole en rid p (on_runs (\<lambda>_. getM g))" by (rule safely_runs) (simp_all add: publish_order.basic checked_kept_def)
qed

lemma safely_files: "(\<And>d. dk_files (f d) = dk_files d) \<Longrightarrow> safely sole en rid p (on_disk (\<lambda>_. modifyM f))"
  by (rule safely_disk) (auto intro: guarantee_same_files simp: file_at_def)

lemmas safely_rules = safely_basic safely_bind safely_if safely_option safely_loops safely_reads

section \<open>Quarantine and recovery\<close>

lemma isolate_move:
  assumes "warehouse_inv en (t, d)" "os_replace (BuildFile k) (FailedFile k) d = (x, d')"
  shows "guarantee en rid (t, d) (t, d') \<and> file_at d' PublishedFile = file_at d PublishedFile"
proof (cases "file_at d (BuildFile k)")
  case None
  with assms show ?thesis by (simp add: os_replace_def guarantee_refl)
next
  case (Some f)
  with assms have d': "d' = put_file (FailedFile k) f (drop_file (BuildFile k) d)" by (simp add: os_replace_def)
  have "disk_ok d'" using disk_ok_replace [OF _ Some] assms(1) by (simp add: d' warehouse_inv_def)
  then show ?thesis by (intro conjI guarantee_disk [OF assms(1)]) (auto simp: d')
qed

lemma utime_move:
  assumes "warehouse_inv en (t, d)" "os_utime (FailedFile k) now d = (x, d')"
  shows "guarantee en rid (t, d) (t, d') \<and> file_at d' PublishedFile = file_at d PublishedFile"
proof (cases "file_at d (FailedFile k)")
  case None
  with assms show ?thesis by (simp add: os_utime_def guarantee_refl)
next
  case (Some f)
  with assms have d': "d' = put_file (FailedFile k) (f\<lparr>sf_identity := (sf_identity f)\<lparr>fi_mtime_ns := now * 1000\<rparr>\<rparr>) d"
    by (simp add: os_utime_def)
  have "disk_ok d'" using disk_ok_utime [OF _ Some] assms(1) by (simp add: d' warehouse_inv_def)
  then show ?thesis by (intro conjI guarantee_disk [OF assms(1)]) (auto simp: d')
qed

lemma unlink_move:
  assumes "warehouse_inv en (t, d)" "unlink p d = (x, d')" "p \<noteq> PublishedFile"
  shows "guarantee en rid (t, d) (t, d') \<and> file_at d' PublishedFile = file_at d PublishedFile"
proof -
  have d': "d' = drop_file p d" using assms(2) by (simp add: unlink_def)
  have "disk_ok d'" using disk_ok_drop assms(1) by (auto simp: d' warehouse_inv_def)
  then show ?thesis using assms(3) by (intro conjI guarantee_disk [OF assms(1)]) (auto simp: d')
qed

lemma safely_moves:
  "safely sole en rid p (on_disk (\<lambda>_. os_replace (BuildFile k) (FailedFile k)))"
  "safely sole en rid p (on_disk (\<lambda>_. os_utime (FailedFile k) now))"
  "f \<noteq> PublishedFile \<Longrightarrow> safely sole en rid p (on_disk (\<lambda>_. unlink f))"
  by (rule safely_disk, erule isolate_move utime_move unlink_move; assumption)+

lemma isolate_safe: "safely sole en rid p (isolate_build en k now)"
  unfolding isolate_build_def file_exists_def wal_exists_def
  by (intro safely_rules safely_files safely_moves) simp_all

lemma prune_build_safe: "f \<noteq> PublishedFile \<Longrightarrow> safely sole en rid p (prune_build f)"
  unfolding prune_build_def by (intro safely_rules safely_files safely_moves) simp_all

lemma failed_builds_failed: "PublishedFile \<notin> set (failed_builds d)"
  by (auto simp: failed_builds_def)

lemma prune_safe: "safely sole en rid p (prune_failed_builds n)"
proof -
  have iter: "safely sole en rid p (iterM prune_build fs)" if "PublishedFile \<notin> set fs" for fs
    using that by (induction fs) (auto intro!: safely_basic safely_bind prune_build_safe)
  show ?thesis
    unfolding prune_failed_builds_def
  proof (rule safely_bind_value [OF safely_reads(1), where c = "\<lambda>fs. PublishedFile \<notin> set fs"])
    show "PublishedFile \<notin> set fs" if "on_disk (\<lambda>_. getM failed_builds) w = (Inr fs, w')" for w w' :: "'a wh_world" and fs
      using that failed_builds_failed by (auto simp: on_disk_def bindM_ok disk_now_def)
    show "safely sole en rid p (iterM prune_build (drop n fs))" if "PublishedFile \<notin> set fs" for fs
      using that set_drop_subset [of n fs] by (intro iter) blast
  qed
qed

text \<open>The calls on the table that record nothing about a file.\<close>

lemma safely_kept:
  "safely sole en rid p (on_runs (\<lambda>now. touch_publish_run k now))"
  "safely sole en rid p (on_runs (\<lambda>_. close_stale_run k published sb now))"
  "safely sole en rid p (on_runs (\<lambda>_. close_dag_run_building pipeline dag now))"
  "safely sole en rid p (on_runs (\<lambda>_. record_dbt_result k invocation passed failures))"
  "safely sole en rid p (on_runs (\<lambda>_. mark_failed k ty msg path now))"
  "safely sole en rid p (on_runs (\<lambda>_. record_failed_path k where_to))"
  "safely sole en rid p (on_runs (\<lambda>_. mark_published k now))"
  by (rule safely_runs, rule publish_moves, erule kept_ops)+

lemma safely_looks:
  "safely sole en rid p (on_runs (\<lambda>_. get_publish_run k))"
  "safely sole en rid p (on_runs (\<lambda>_. stale_active_runs sb))"
  unfolding get_publish_run_def stale_active_runs_def by (rule safely_reads)+

lemma clean_safe: "safely sole en rid p (clean_failed_recovery en now k)"
  unfolding clean_failed_recovery_def remove_target_def
  by (intro safely_rules isolate_safe prune_safe safely_kept safely_files) simp_all

lemma recover_safe: "safely sole en rid p (recover_incomplete_publishes en now reclaim)"
proof -
  have run: "safely sole en rid p (recover_run en now row)" for row
    unfolding recover_run_def Let_def remove_target_def published_identity_matches_def
    by (intro safely_rules clean_safe safely_kept safely_files safely_moves) simp_all
  show ?thesis
    unfolding recover_incomplete_publishes_def reclaim_runs_def
    by (intro safely_rules run clean_safe safely_kept safely_looks)
qed

lemma fail_safe: "safely sole en rid p (fail_run en k ty msg)"
  unfolding fail_run_def remove_target_def
  by (intro safely_rules isolate_safe prune_safe safely_kept safely_files) simp_all

lemma failing_safe: "safely sole en rid p (failing en k e)" "safely sole en rid p (failing_unless_swapped en k e)"
  unfolding failing_def failing_unless_swapped_def file_exists_def by (intro safely_rules fail_safe)+

section \<open>The stages\<close>

lemma kept_holds:
  assumes "stable sole en rid p" "\<And>now. moves publish_step (m now)" "\<And>now t x t'. m now t = (x, t') \<Longrightarrow> checked_kept t t'"
  shows "triple (holds sole en rid p) (on_runs m) (\<lambda>_. holds sole en rid p) (holds sole en rid p)"
proof (rule runs_holds [OF assms(1)])
  fix now t d x t' assume a: "warehouse_inv en (t, d)" "p (t, d)" "m now t = (x, t')"
  note step = movesD [OF assms(2) a(3)] and kept = assms(3) [OF a(3)]
  show "guarantee en rid (t, d) (t', d) \<and> (case x of Inr v \<Rightarrow> p (t', d) | Inl _ \<Rightarrow> p (t', d))"
    using guarantee_update [OF a(1) step kept] stable_kept [OF assms(1) a(1,2) step kept] by (simp split: sum.split)
qed

lemma last_pulse_holds:
  assumes "stable sole en rid p"
  shows "triple (holds sole en rid p) (last_pulse k lost) (\<lambda>_. holds sole en rid p) (holds sole en rid p)"
  unfolding last_pulse_def
proof (intro triple_if triple_suppress)
  show "triple (holds sole en rid p) (bindM (on_runs (\<lambda>now. touch_publish_run k now)) (\<lambda>_. returnM ()))
      (\<lambda>_. holds sole en rid p) (holds sole en rid p)"
    by (rule triple_bind [OF kept_holds [OF assms]]) (auto intro: publish_moves kept_ops triple_return)
qed (auto intro: triple_return)

lemma heartbeat_holds:
  assumes "triple (holds sole en rid p) body (\<lambda>v. holds sole en rid (q v)) (holds sole en rid e)"
    and "\<And>v. stable sole en rid (q v)" "\<And>v x. q v x \<Longrightarrow> e x"
  shows "triple (holds sole en rid p) (publish_heartbeat k body) (\<lambda>v. holds sole en rid (q v)) (holds sole en rid e)"
proof -
  have "triple (holds sole en rid p) (\<lambda>w. case body w of (Inl e, w') \<Rightarrow> (Inl e, stop_heartbeat w')
      | (Inr x, w') \<Rightarrow> bindM (last_pulse k (heartbeat_lost w')) (\<lambda>_. returnM x) (stop_heartbeat w'))
    (\<lambda>v. holds sole en rid (q v)) (holds sole en rid e)"
    unfolding triple_def
  proof (intro allI impI)
    fix w x w' assume h: "holds sole en rid p w" and r: "(case body w of (Inl e, w') \<Rightarrow> (Inl e, stop_heartbeat w')
      | (Inr x, w') \<Rightarrow> bindM (last_pulse k (heartbeat_lost w')) (\<lambda>_. returnM x) (stop_heartbeat w')) = (x, w')"
    obtain y w1 where b: "body w = (y, w1)" by (cases "body w")
    show "case x of Inr v \<Rightarrow> holds sole en rid (q v) w' | Inl _ \<Rightarrow> holds sole en rid e w'"
    proof (cases y)
      case (Inl z)
      with b r triple_err [OF assms(1) h] show ?thesis by auto
    next
      case (Inr v)
      with b triple_ok [OF assms(1) h] have q: "holds sole en rid (q v) (stop_heartbeat w1)" by simp
      have "triple (holds sole en rid (q v)) (bindM (last_pulse k (heartbeat_lost w1)) (\<lambda>_. returnM v))
          (\<lambda>x w. holds sole en rid (q v) w \<and> x = v) (holds sole en rid (q v))"
        by (rule triple_bind [OF last_pulse_holds [OF assms(2)]]) (auto intro: triple_return)
      from this [unfolded triple_def, rule_format, OF q, of x w'] r b Inr assms(3) [of v "shared w'"] show ?thesis
        by (auto split: sum.splits simp: holds_def)
    qed
  qed
  moreover have "triple (holds sole en rid p) (modifyM (\<lambda>w. w\<lparr>wh_heartbeat := Some (k, False)\<rparr>))
      (\<lambda>_. holds sole en rid p) (holds sole en rid e)"
    by (rule tripleI) auto
  ultimately show ?thesis unfolding publish_heartbeat_def by (intro triple_bind)
qed

text \<open>
  What a run has recorded, and that it is published: as the sole publisher it finds its own build in
  place.
\<close>

definition recorded_as ::
    "uuid \<Rightarrow> (string \<times> string) list \<times> (string \<times> int) list \<Rightarrow> file_identity \<Rightarrow> 'c shared \<Rightarrow> bool" where
  "recorded_as rid hc i x \<longleftrightarrow> (\<exists>r. map_of (fst x) rid = Some r \<and>
     checked_part r = (Some (fst hc), Some (snd hc), Some (fi_inode i), Some (fi_mtime_ns i)))"

definition in_place :: "bool \<Rightarrow> 'c engine \<Rightarrow> uuid \<Rightarrow> 'c shared \<Rightarrow> bool" where
  "in_place sole en rid x \<longleftrightarrow> (sole \<longrightarrow> (\<exists>r f. map_of (fst x) rid = Some r \<and> file_at (snd x) PublishedFile = Some f \<and> describes en r f))"

definition published_run :: "uuid \<Rightarrow> 'c shared \<Rightarrow> bool" where
  "published_run rid x \<longleftrightarrow> (\<exists>r. map_of (fst x) rid = Some r \<and> pr_status r = PUBLISHED)"

lemma stable_conj: "stable sole en rid p \<Longrightarrow> stable sole en rid q \<Longrightarrow> stable sole en rid (\<lambda>x. p x \<and> q x)"
  unfolding stable_def by blast

lemma framed_conj: "framed en rid p \<Longrightarrow> framed en rid q \<Longrightarrow> framed en rid (\<lambda>x. p x \<and> q x)"
  unfolding framed_def by blast

lemma published_run_lasts: "publish_step (fst x) (fst y) \<Longrightarrow> published_run rid x \<Longrightarrow> published_run rid y"
proof -
  assume step: "publish_step (fst x) (fst y)" and "published_run rid x"
  then obtain r where r: "map_of (fst x) rid = Some r" "pr_status r = PUBLISHED" by (auto simp: published_run_def)
  with step obtain r' where "map_of (fst y) rid = Some r'" "row_forward r r'" by (auto simp: publish_step_def)
  with r(2) show ?thesis by (auto simp: published_run_def row_forward_def pr_active_def ACTIVE_STATUSES_def)
qed

lemma same_checked:
  assumes "map_option checked_part (map_of t' k) = map_option checked_part (map_of t k)"
  shows "map_of t k = Some r \<Longrightarrow> \<exists>r'. map_of t' k = Some r' \<and> checked_part r' = checked_part r"
    and "map_of t' k = Some r' \<Longrightarrow> \<exists>r. map_of t k = Some r \<and> checked_part r' = checked_part r"
  using assms by (cases "map_of t k"; cases "map_of t' k"; simp)+

lemma recorded_as_checked:
  "map_option checked_part (map_of (fst y) rid) = map_option checked_part (map_of (fst x) rid) \<Longrightarrow>
    recorded_as rid hc i x \<Longrightarrow> recorded_as rid hc i y"
  unfolding recorded_as_def by (auto dest!: same_checked(1))

lemma in_place_checked:
  assumes "map_option checked_part (map_of (fst y) rid) = map_option checked_part (map_of (fst x) rid)"
    and "sole \<Longrightarrow> file_at (snd y) PublishedFile = file_at (snd x) PublishedFile" "in_place sole en rid x"
  shows "in_place sole en rid y"
  unfolding in_place_def
proof
  assume sole: sole
  with assms(3) obtain r f where r: "map_of (fst x) rid = Some r" "file_at (snd x) PublishedFile = Some f" "describes en r f"
    by (auto simp: in_place_def)
  from same_checked(1) [OF assms(1) r(1)] obtain r' where r': "map_of (fst y) rid = Some r'" "checked_part r' = checked_part r"
    by blast
  with describes_checked [OF r'(2), of en f] r(2,3) assms(2) [OF sole]
  show "\<exists>r f. map_of (fst y) rid = Some r \<and> file_at (snd y) PublishedFile = Some f \<and> describes en r f" by auto
qed

lemma stable_published:
  "stable sole en rid (published_run rid)" "stable sole en rid (recorded_as rid hc i)" "stable sole en rid (in_place sole en rid)"
  unfolding stable_def rely_def leaves_def
  using published_run_lasts recorded_as_checked in_place_checked by blast+

lemma framed_facts:
  "framed en rid (\<lambda>_. True)" "framed en rid (unrecorded rid)" "framed en rid (published_run rid)"
  "framed en rid (recorded_as rid hc i)" "framed en rid (in_place sole en rid)"
proof -
  show "framed en rid (\<lambda>_. True)" by (simp add: framed_def)
  show "framed en rid (unrecorded rid)"
    unfolding framed_def frame_def unrecorded_def by (auto dest!: same_checked(2) checked_hashes)
  show "framed en rid (published_run rid)"
    unfolding framed_def guarantee_def using published_run_lasts by blast
  show "framed en rid (recorded_as rid hc i)"
    unfolding framed_def frame_def using recorded_as_checked by blast
  show "framed en rid (in_place sole en rid)"
    unfolding framed_def frame_def using in_place_checked by blast
qed

text \<open>What \<open>mark_publishing\<close> leaves: the record, and the build it describes.\<close>

definition marked ::
    "bool \<Rightarrow> uuid \<Rightarrow> (string \<times> string) list \<times> (string \<times> int) list \<Rightarrow> file_identity \<Rightarrow> 'c shared \<Rightarrow> bool" where
  "marked sole rid hc i x \<longleftrightarrow> recorded_run rid x \<and> recorded_as rid hc i x \<and>
     (sole \<longrightarrow> file_at (snd x) (BuildFile rid) \<noteq> None)"

lemma stable_marked: "stable sole en rid (marked sole rid hc i)"
  using leaves_recorded recorded_as_checked unfolding stable_def rely_def marked_def leaves_def by metis

section \<open>What lasts through a publication\<close>

text \<open>
  A fact that the whole publication of run \<open>rid\<close> keeps, wherever it stops: stable, dependent on the
  published file and the record only, and kept by the three steps that change one of these.
\<close>

locale lasting =
  fixes sole :: bool and en :: "'c engine" and rid :: uuid and g :: "'c shared \<Rightarrow> bool"
  assumes stable: "stable sole en rid g"
    and framed: "framed en rid g"
    and start: "warehouse_inv en (t, d) \<Longrightarrow> g (t, d) \<Longrightarrow> map_of t rid = None \<Longrightarrow>
      map_of t' rid = Some r \<Longrightarrow> pr_published_inode r = None \<Longrightarrow> g (t', d)"
    and mark: "warehouse_inv en (t, d) \<Longrightarrow> g (t, d) \<Longrightarrow> build_is sole en rid hc i (t, d) \<Longrightarrow>
      map_of t rid = Some r0 \<Longrightarrow> map_of t' rid = Some r \<Longrightarrow> pr_published_inode r = Some (fi_inode i) \<Longrightarrow>
      pr_mart_hashes r0 = None \<Longrightarrow> g (t', d)"
    and swap: "warehouse_inv en (t, d) \<Longrightarrow> g (t, d) \<Longrightarrow> map_of t rid = Some r \<Longrightarrow> describes en r f \<Longrightarrow>
      file_at d' PublishedFile = Some f \<Longrightarrow> g (t, d')"
begin

lemma safely_g: "safely sole en rid g m \<Longrightarrow> triple (holds sole en rid g) m (\<lambda>_. holds sole en rid g) (holds sole en rid g)"
  using stable framed by (simp add: safely_def)

lemma safely_and:
  assumes "stable sole en rid q" "framed en rid q" "safely sole en rid (\<lambda>x. g x \<and> q x) m"
  shows "triple (holds sole en rid (\<lambda>x. g x \<and> q x)) m (\<lambda>_. holds sole en rid (\<lambda>x. g x \<and> q x)) (holds sole en rid g)"
proof -
  have "triple (holds sole en rid (\<lambda>x. g x \<and> q x)) m (\<lambda>_. holds sole en rid (\<lambda>x. g x \<and> q x)) (holds sole en rid (\<lambda>x. g x \<and> q x))"
    using assms(3) stable_conj [OF stable assms(1)] framed_conj [OF framed assms(2)] by (simp add: safely_def)
  then show ?thesis by (rule triple_weaken) (simp_all add: holds_def)
qed

abbreviation "fresh \<equiv> holds sole en rid (\<lambda>x. g x \<and> unrecorded rid x)"

lemma stable_fresh: "stable sole en rid (\<lambda>x. g x \<and> unrecorded rid x)"
  by (intro stable_conj stable stable_facts)

lemma start_holds:
  assumes "pub_publish_run_id run = rid"
  shows "triple (holds sole en rid g) (on_runs (\<lambda>_. start_publish_run run now)) (\<lambda>_. fresh) (holds sole en rid g)"
proof (rule runs_holds [OF stable])
  fix t d x t' assume a: "warehouse_inv en (t, d)" "g (t, d)" "start_publish_run run now t = (x, t')"
  show "guarantee en rid (t, d) (t', d) \<and> (case x of Inr v \<Rightarrow> g (t', d) \<and> unrecorded rid (t', d) | Inl _ \<Rightarrow> g (t', d))"
  proof (cases x)
    case (Inl e)
    have "t' = t" using start_publish_run_err [of run now t e t'] a(3) Inl by simp
    with a(1,2) Inl show ?thesis by (simp add: guarantee_refl)
  next
    case (Inr v)
    note new = start_publish_run_ok [OF a(3) [unfolded Inr], unfolded assms]
    define r where "r = new_publish_row run (map_option fst (latest_published t)) now"
    have r: "map_of t' rid = Some r" "pr_mart_hashes r = None" "pr_published_inode r = None"
      using new(1,2) by (simp_all add: r_def new_publish_row_def)
    have "guarantee en rid (t, d) (t', d)"
      using new(1,2) r movesD [OF start_publish_moves a(3)] by (intro guarantee_table [OF a(1)]) (auto split: option.split)
    with start [OF a(1,2) new(2) r(1,3)] r Inr show ?thesis by (simp add: unrecorded_def)
  qed
qed simp

lemma work_holds: "triple fresh (work_on_build en rid work) (\<lambda>_. fresh) (holds sole en rid g)"
  unfolding work_on_build_def
proof (rule disk_holds [OF stable_fresh])
  fix now t d x d'
  assume a: "warehouse_inv en (t, d)" "g (t, d) \<and> unrecorded rid (t, d)"
    and w: "(case work (map_option sf_content (file_at d (BuildFile rid))) of
       (r, None, _) \<Rightarrow> (r, d)
     | (r, Some c, wal) \<Rightarrow> (r, set_wal (BuildFile rid) wal (write_file (en_inode en) now (BuildFile rid) c d))) = (x, d')"
  have d': "d' = d \<or> (\<exists>c wal. d' = set_wal (BuildFile rid) wal (write_file (en_inode en) now (BuildFile rid) c d))"
    using w by (auto split: prod.splits option.splits)
  then have ok: "disk_ok d'" "file_at d' PublishedFile = file_at d PublishedFile"
      "k \<noteq> rid \<Longrightarrow> file_at d' (BuildFile k) = file_at d (BuildFile k)" for k
    using a(1) disk_ok_write [of en] by (auto simp: warehouse_inv_def)
  have g: "guarantee en rid (t, d) (t, d')" using a(2) ok by (intro guarantee_disk [OF a(1)]) blast+
  have "g (t, d')" using framed a g ok(2) unfolding framed_def frame_def by fastforce
  with a(2) g show "guarantee en rid (t, d) (t, d') \<and>
      (case x of Inr v \<Rightarrow> g (t, d') \<and> unrecorded rid (t, d') | Inl _ \<Rightarrow> g (t, d'))"
    by (simp add: unrecorded_def split: sum.split)
qed simp

lemma copy_holds: "triple fresh (copy_published en rid) (\<lambda>_. fresh) (holds sole en rid g)"
  unfolding copy_published_def
proof (rule disk_holds [OF stable_fresh])
  fix now t d x d'
  assume a: "warehouse_inv en (t, d)" "g (t, d) \<and> unrecorded rid (t, d)"
    and w: "(case file_at d PublishedFile of None \<Rightarrow> (Inr (), d)
      | Some f \<Rightarrow> (Inr (), write_file (en_inode en) now (BuildFile rid) (sf_content f) d)) = (x, d')"
  have d': "d' = d \<or> (\<exists>c. d' = write_file (en_inode en) now (BuildFile rid) c d)"
    using w by (auto split: option.splits)
  then have ok: "disk_ok d'" "file_at d' PublishedFile = file_at d PublishedFile"
      "k \<noteq> rid \<Longrightarrow> file_at d' (BuildFile k) = file_at d (BuildFile k)" for k
    using a(1) disk_ok_write [of en] by (auto simp: warehouse_inv_def)
  have g: "guarantee en rid (t, d) (t, d')" using a(2) ok by (intro guarantee_disk [OF a(1)]) blast+
  have "g (t, d')" using framed a g ok(2) unfolding framed_def frame_def by fastforce
  with a(2) g show "guarantee en rid (t, d) (t, d') \<and>
      (case x of Inr v \<Rightarrow> g (t, d') \<and> unrecorded rid (t, d') | Inl _ \<Rightarrow> g (t, d'))"
    by (simp add: unrecorded_def split: sum.split)
qed simp

lemma fresh_safely: "safely sole en rid (\<lambda>x. g x \<and> unrecorded rid x) m \<Longrightarrow> triple fresh m (\<lambda>_. fresh) (holds sole en rid g)"
  by (rule safely_and [OF stable_facts(2) framed_facts(2)])

lemma prepare_build_holds: "triple fresh (prepare_build en rid) (\<lambda>_. fresh) (holds sole en rid g)"
  unfolding prepare_build_def wal_exists_def
  by (rule triple_bind [OF fresh_safely [OF safely_reads(1)]], rule triple_bind [OF fresh_safely [OF safely_basic(3)]],
      rule triple_bind [OF copy_holds], rule work_holds)

lemma prepare_holds:
  assumes "pub_publish_run_id run = rid"
  shows "triple (holds sole en rid g) (prepare_warehouse_build en run) (\<lambda>_. fresh) (holds sole en rid g)"
proof -
  have stage: "triple fresh (bindM (exceptM (prepare_build en rid) (failing en rid)) (\<lambda>_. returnM v)) (\<lambda>_. fresh) (holds sole en rid g)" for v
    by (rule triple_bind [OF triple_except [OF prepare_build_holds safely_g [OF failing_safe(1)]]]) (rule triple_return)
  show ?thesis
    unfolding prepare_warehouse_build_def Let_def assms
    by (rule triple_bind [OF safely_g [OF safely_basic(5)]], rule triple_bind [OF safely_g [OF safely_basic(4)]],
        rule triple_bind [OF safely_g [OF recover_safe]], rule triple_bind [OF start_holds [OF assms]],
        rule heartbeat_holds [OF stage stable_fresh]) simp
qed

lemma run_dbt_holds: "triple fresh (run_dbt en rid) (\<lambda>_. fresh) (holds sole en rid g)"
  unfolding run_dbt_def
  by (rule triple_bind [OF work_holds], rule triple_bind [OF fresh_safely [OF safely_files]], simp,
      rule triple_bind [OF fresh_safely [OF safely_kept(4)]], rule triple_return)

lemma build_holds: "triple fresh (build_warehouse en rid) (\<lambda>_. fresh) (holds sole en rid g)"
  unfolding build_warehouse_def
proof (rule triple_bind)
  show "triple fresh (exceptM (publish_heartbeat rid (run_dbt en rid)) (failing en rid)) (\<lambda>_. fresh) (holds sole en rid g)"
    by (rule triple_except [OF heartbeat_holds [OF run_dbt_holds stable_fresh] safely_g [OF failing_safe(1)]]) simp
  have "triple (holds sole en rid g) (bindM (fail_run en rid ty msg) (\<lambda>_. raiseM c m)) (\<lambda>_. fresh) (holds sole en rid g)" for ty msg c m
    by (rule triple_bind [OF safely_g [OF fail_safe]]) (rule triple_raise)
  then have "triple fresh (bindM (fail_run en rid ty msg) (\<lambda>_. raiseM c m)) (\<lambda>_. fresh) (holds sole en rid g)" for ty msg c m
    by (rule triple_weaken) (simp_all add: holds_def)
  then show "triple fresh (if run_succeeded result then returnM result
      else bindM (fail_run en rid (failure_type result) (failure_summary (failure_type result) result)) (\<lambda>_.
        raiseM (WarehouseBuildError (failure_type result)) (failure_summary (failure_type result) result)))
      (\<lambda>_. fresh) (holds sole en rid g)" for result
    by (intro triple_if triple_return)
qed

abbreviation "ended hc i \<equiv> holds sole en rid (\<lambda>x. g x \<and> published_run rid x \<and> recorded_as rid hc i x \<and> in_place sole en rid x)"

text \<open>The build after its hashing, and after its identity was read.\<close>

lemma hash_holds:
  "triple fresh (on_disk (\<lambda>_. hash_build en rid)) (\<lambda>hc. holds sole en rid (\<lambda>x. g x \<and> build_as en rid hc x)) (holds sole en rid g)"
proof (rule disk_holds [OF stable_fresh])
  fix now t d x d'
  assume a: "warehouse_inv en (t, d)" "g (t, d) \<and> unrecorded rid (t, d)" "hash_build en rid d = (x, d')"
  then show "guarantee en rid (t, d) (t, d') \<and> (case x of Inr hc \<Rightarrow> g (t, d') \<and> build_as en rid hc (t, d') | Inl _ \<Rightarrow> g (t, d'))"
    by (auto simp: hash_build_def guarantee_refl build_as_def split: option.splits sum.split)
qed simp

lemma stable_as: "stable sole en rid (\<lambda>x. g x \<and> build_as en rid hc x)"
  and stable_is: "stable sole en rid (\<lambda>x. g x \<and> build_is sole en rid hc i x)"
  by (intro stable_conj stable stable_facts)+

lemma identity_holds:
  "triple (holds sole en rid (\<lambda>x. g x \<and> build_as en rid hc x)) (on_disk (\<lambda>_. file_identity (BuildFile rid)))
     (\<lambda>i. holds sole en rid (\<lambda>x. g x \<and> build_is sole en rid hc i x)) (holds sole en rid g)"
proof (rule disk_holds [OF stable_as])
  fix now t d x d'
  assume a: "warehouse_inv en (t, d)" "g (t, d) \<and> build_as en rid hc (t, d)" "file_identity (BuildFile rid) d = (x, d')"
  then show "guarantee en rid (t, d) (t, d') \<and> (case x of Inr i \<Rightarrow> g (t, d') \<and> build_is sole en rid hc i (t, d') | Inl _ \<Rightarrow> g (t, d'))"
    by (auto simp: file_identity_def guarantee_refl build_is_def split: option.splits sum.split)
qed simp


lemma mark_holds:
  "triple (holds sole en rid (\<lambda>x. g x \<and> build_is sole en rid hc i x)) (on_runs (\<lambda>_. mark_publishing rid (fst hc) (snd hc) i))
     (\<lambda>_. holds sole en rid (\<lambda>x. g x \<and> marked sole rid hc i x)) (holds sole en rid g)"
proof (rule runs_holds [OF stable_is])
  fix t d x t'
  assume a: "warehouse_inv en (t, d)" "g (t, d) \<and> build_is sole en rid hc i (t, d)"
    and m: "mark_publishing rid (fst hc) (snd hc) i t = (x, t')"
  show "guarantee en rid (t, d) (t', d) \<and> (case x of Inr v \<Rightarrow> g (t', d) \<and> marked sole rid hc i (t', d) | Inl _ \<Rightarrow> g (t', d))"
  proof (cases x)
    case (Inl e)
    with m mark_err have "t' = t" by blast
    with a Inl show ?thesis by (simp add: guarantee_refl)
  next
    case (Inr u)
    have b: "build_is sole en rid (fst hc, snd hc) i (t, d)" using a(2) by simp
    note marking = guarantee_mark [OF a(1) b m [unfolded Inr]]
    from marking(2) obtain r r' where r: "map_of t rid = Some r" "map_of t' rid = Some r'"
        "checked_part r' = (Some (fst hc), Some (snd hc), Some (fi_inode i), Some (fi_mtime_ns i))"
      by (metis fun_upd_same)
    have "pr_mart_hashes r = None" using b r(1) by (simp add: build_is_def build_as_def unrecorded_def)
    moreover have "pr_published_inode r' = Some (fi_inode i)" using r(3) by (simp add: checked_part_def)
    ultimately have "g (t', d)" using a r mark by blast
    moreover have "marked sole rid hc i (t', d)"
      using r(2,3) a(2) by (auto simp: marked_def recorded_run_def recorded_as_def checked_part_def build_is_def)
    ultimately show ?thesis using marking(1) Inr by simp
  qed
qed simp

lemma stable_marked_g: "stable sole en rid (\<lambda>x. g x \<and> marked sole rid hc i x)"
  by (intro stable_conj stable stable_marked)

lemma replace_holds:
  "triple (holds sole en rid (\<lambda>x. g x \<and> marked sole rid hc i x)) (on_disk (\<lambda>_. os_replace (BuildFile rid) PublishedFile))
     (\<lambda>_. holds sole en rid (\<lambda>x. g x \<and> recorded_as rid hc i x \<and> in_place sole en rid x)) (holds sole en rid g)"
proof (rule disk_holds [OF stable_marked_g])
  fix t d x d'
  assume a: "warehouse_inv en (t, d)" "g (t, d) \<and> marked sole rid hc i (t, d)" "os_replace (BuildFile rid) PublishedFile d = (x, d')"
  have guar: "guarantee en rid (t, d) (t, d')"
    using a by (intro guarantee_swap [OF a(1) _ a(3)]) (simp add: marked_def)
  show "guarantee en rid (t, d) (t, d') \<and>
      (case x of Inr v \<Rightarrow> g (t, d') \<and> recorded_as rid hc i (t, d') \<and> in_place sole en rid (t, d') | Inl _ \<Rightarrow> g (t, d'))"
  proof (cases "file_at d (BuildFile rid)")
    case None
    with a guar show ?thesis by (auto simp: os_replace_def)
  next
    case (Some f)
    from a(2) obtain r where r: "map_of t rid = Some r" "pr_mart_hashes r \<noteq> None" "recorded_as rid hc i (t, d)"
      by (auto simp: marked_def recorded_run_def)
    have d': "x = Inr ()" "d' = put_file PublishedFile f (drop_file (BuildFile rid) d)"
      using a(3) Some by (simp_all add: os_replace_def)
    have "builds_recorded en (t, d)" using a(1) by (simp add: warehouse_inv_def)
    then have "describes en r f" using r(1,2) Some unfolding builds_recorded_def prod.case by blast
    moreover from this have "g (t, d')" using a(1,2) r(1) by (rule_tac swap [of t d r f]) (simp_all add: d')
    ultimately show ?thesis using guar r by (auto simp: d' recorded_as_def in_place_def)
  qed
qed (simp add: marked_def)

lemma stable_ended:
  "stable sole en rid (\<lambda>x. g x \<and> recorded_as rid hc i x \<and> in_place sole en rid x)"
  "stable sole en rid (\<lambda>x. g x \<and> published_run rid x \<and> recorded_as rid hc i x \<and> in_place sole en rid x)"
  by (intro stable_conj stable stable_published)+

lemma framed_ended:
  "framed en rid (\<lambda>x. recorded_as rid hc i x \<and> in_place sole en rid x)"
  "framed en rid (\<lambda>x. published_run rid x \<and> recorded_as rid hc i x \<and> in_place sole en rid x)"
  by (intro framed_conj framed_facts)+

lemma published_holds:
  "triple (holds sole en rid (\<lambda>x. g x \<and> recorded_as rid hc i x \<and> in_place sole en rid x)) (on_runs (\<lambda>_. mark_published rid now))
     (\<lambda>_. ended hc i) (holds sole en rid g)"
proof (rule runs_holds [OF stable_ended(1)])
  fix t d x t'
  assume a: "warehouse_inv en (t, d)" "g (t, d) \<and> recorded_as rid hc i (t, d) \<and> in_place sole en rid (t, d)"
    and m: "mark_published rid now t = (x, t')"
  note step = movesD [OF transitions_move(3) m] and kept = kept_ops(7) [OF m]
  have guar: "guarantee en rid (t, d) (t', d)" by (rule guarantee_update [OF a(1) step kept])
  have g: "g (t', d) \<and> recorded_as rid hc i (t', d) \<and> in_place sole en rid (t', d)"
    by (rule stable_kept [OF stable_ended(1) a step kept])
  have "published_run rid (t', d)" if "x = Inr ()"
  proof -
    have "pk_ok t" using a(1) by (simp add: warehouse_inv_def publish_inv_def)
    from transition_row [OF this m [unfolded that mark_published_def]] obtain r where
      "map_of t' = (map_of t)(rid \<mapsto> r\<lparr>pr_status := PUBLISHED, pr_finished_at := Some now\<rparr>)" by blast
    then show ?thesis by (simp add: published_run_def)
  qed
  with guar g show "guarantee en rid (t, d) (t', d) \<and> (case x of
      Inr v \<Rightarrow> g (t', d) \<and> published_run rid (t', d) \<and> recorded_as rid hc i (t', d) \<and> in_place sole en rid (t', d) | Inl _ \<Rightarrow> g (t', d))"
    by (simp split: sum.split)
qed simp

lemma swap_holds:
  "triple fresh (swap_build en rid) (\<lambda>(hs, ns, i). ended (hs, ns) i) (holds sole en rid g)"
proof -
  let ?placed = "\<lambda>hc i. holds sole en rid (\<lambda>x. g x \<and> recorded_as rid hc i x \<and> in_place sole en rid x)"
  have passes: "triple (?placed hc i) m (\<lambda>_. ?placed hc i) (holds sole en rid g)"
    if "safely sole en rid (\<lambda>x. g x \<and> recorded_as rid hc i x \<and> in_place sole en rid x) m" for m :: "('c wh_world, 'z) op" and hc i
    using that by (intro safely_and stable_conj stable_published framed_ended) simp_all
  have last: "triple (?placed hc i) (bindM contact (\<lambda>_. bindM now_utc (\<lambda>now.
      bindM (on_runs (\<lambda>_. mark_published rid now)) (\<lambda>_. returnM (fst hc, snd hc, i)))))
      (\<lambda>(hs, ns, i). ended (hs, ns) i) (holds sole en rid g)" for hc i
    by (rule triple_bind [OF passes [OF safely_basic(4)]], rule triple_bind [OF passes [OF safely_basic(5)]],
        rule triple_bind [OF published_holds], rule triple_return) simp
  show ?thesis
    unfolding swap_build_def wal_exists_def
  proof (rule triple_bind [OF work_holds], rule triple_bind [OF fresh_safely [OF safely_reads(1)]],
      rule triple_bind [OF fresh_safely [OF safely_basic(3)]], rule triple_bind [OF hash_holds])
    show "triple (holds sole en rid (\<lambda>x. g x \<and> build_as en rid hc x)) (case hc of (hashes, counts) \<Rightarrow>
        bindM (on_disk (\<lambda>_. file_identity (BuildFile rid))) (\<lambda>identity.
        bindM (on_runs (\<lambda>_. mark_publishing rid hashes counts identity)) (\<lambda>_.
        bindM (on_disk (\<lambda>_. os_replace (BuildFile rid) PublishedFile)) (\<lambda>_.
        bindM contact (\<lambda>_. bindM now_utc (\<lambda>now. bindM (on_runs (\<lambda>_. mark_published rid now)) (\<lambda>_.
        returnM (hashes, counts, identity)))))))) (\<lambda>(hs, ns, i). ended (hs, ns) i) (holds sole en rid g)" for hc
      unfolding case_prod_beta
      by (rule triple_bind [OF identity_holds], rule triple_bind [OF mark_holds], rule triple_bind [OF replace_holds])
        (rule last [unfolded case_prod_beta])
  qed
qed

lemma ended_safely: "safely sole en rid (\<lambda>x. g x \<and> published_run rid x \<and> recorded_as rid hc i x \<and> in_place sole en rid x) m \<Longrightarrow>
    triple (ended hc i) m (\<lambda>_. ended hc i) (holds sole en rid g)"
  by (intro safely_and stable_conj stable_published framed_ended) simp_all

lemma publish_build_holds:
  "triple fresh (publish_build en rid) (\<lambda>v. ended (po_mart_hashes v, po_mart_row_counts v) (po_published_identity v)) (holds sole en rid g)"
  (is "triple fresh _ ?Q ?E")
proof -
  let ?after = "\<lambda>v x. g x \<and> published_run rid x \<and> recorded_as rid (fst v, fst (snd v)) (snd (snd v)) x \<and> in_place sole en rid x"
  have beating: "triple fresh (exceptM (publish_heartbeat rid (swap_build en rid)) (failing_unless_swapped en rid))
      (\<lambda>v. holds sole en rid (?after v)) ?E"
    by (rule triple_except [OF heartbeat_holds [OF swap_holds [unfolded case_prod_beta] stable_ended(2)] safely_g [OF failing_safe(2)]]) simp
  have tail: "triple (ended (hs, ns) i) (bindM (on_disk (\<lambda>_. remove_target rid)) (\<lambda>_. bindM (previous_hashes row) (\<lambda>earlier.
      returnM \<lparr>po_publish_run_id = rid, po_previous_publish_run_id = rec_previous_publish_run_id row,
        po_mart_hashes = hs, po_mart_row_counts = ns, po_changed_relations = mismatched_relations earlier hs, po_published_identity = i\<rparr>))) ?Q ?E"
    for row hs ns i
  proof (rule triple_bind [OF ended_safely], unfold remove_target_def, rule safely_files, simp, rule triple_bind [OF ended_safely])
    show "safely sole en rid (\<lambda>x. g x \<and> published_run rid x \<and> recorded_as rid (hs, ns) i x \<and> in_place sole en rid x) (previous_hashes row)"
      unfolding previous_hashes_def by (intro safely_rules safely_looks)
  qed (auto intro: triple_return)
  show ?thesis
    unfolding publish_build_def
  proof (rule triple_bind [OF fresh_safely [OF safely_looks(1)]], rule triple_option)
    show "triple fresh (bindM (exceptM (publish_heartbeat rid (swap_build en rid)) (failing_unless_swapped en rid))
        (\<lambda>(hashes, counts, identity). bindM (on_disk (\<lambda>_. remove_target rid)) (\<lambda>_. bindM (previous_hashes row) (\<lambda>earlier.
          returnM \<lparr>po_publish_run_id = rid, po_previous_publish_run_id = rec_previous_publish_run_id row,
            po_mart_hashes = hashes, po_mart_row_counts = counts, po_changed_relations = mismatched_relations earlier hashes,
            po_published_identity = identity\<rparr>)))) ?Q ?E" for row
      unfolding case_prod_beta by (rule triple_bind [OF beating tail])
  qed (rule triple_raise, simp add: holds_def)
qed

theorem publish_holds:
  assumes "pub_publish_run_id run = rid"
  shows "triple (holds sole en rid g) (publish_warehouse en run)
    (\<lambda>v. ended (po_mart_hashes v, po_mart_row_counts v) (po_published_identity v)) (holds sole en rid g)"
  unfolding publish_warehouse_def assms
  by (rule triple_bind [OF prepare_holds [OF assms]], rule triple_bind [OF build_holds], rule publish_build_holds)

end

interpretation publication: lasting sole en rid "\<lambda>_. True" for sole en rid
  by unfold_locales (simp_all add: stable_def framed_def)

text \<open>
  The published file while run \<open>rid\<close> publishes alone: it is the old one, which the run has not recorded
  as its own, or the file that the run's row describes.
\<close>

definition fate :: "'c engine \<Rightarrow> uuid \<Rightarrow> 'c stored_file option \<Rightarrow> 'c shared \<Rightarrow> bool" where
  "fate en rid old x \<longleftrightarrow>
     file_at (snd x) PublishedFile = old \<and> (\<forall>r f. map_of (fst x) rid = Some r \<longrightarrow> old = Some f \<longrightarrow>
       pr_published_inode r \<noteq> Some (fi_inode (sf_identity f))) \<or>
     in_place True en rid x"

lemma fate_checked:
  assumes same: "map_option checked_part (map_of (fst y) rid) = map_option checked_part (map_of (fst x) rid)"
    and disk: "file_at (snd y) PublishedFile = file_at (snd x) PublishedFile" and fate: "fate en rid old x"
  shows "fate en rid old y"
proof (cases "in_place True en rid x")
  case True
  with in_place_checked [OF same disk] show ?thesis by (simp add: fate_def)
next
  case False
  with fate have old: "file_at (snd x) PublishedFile = old" "\<And>r f. map_of (fst x) rid = Some r \<Longrightarrow> old = Some f \<Longrightarrow>
      pr_published_inode r \<noteq> Some (fi_inode (sf_identity f))" by (auto simp: fate_def)
  have "pr_published_inode r' \<noteq> Some (fi_inode (sf_identity f))" if r': "map_of (fst y) rid = Some r'" "old = Some f" for r' f
  proof -
    from same_checked(2) [OF same r'(1)] obtain r where "map_of (fst x) rid = Some r" "checked_part r' = checked_part r" by blast
    with old(2) [of r f] r'(2) show ?thesis by (simp add: checked_part_def)
  qed
  with old(1) disk show ?thesis by (auto simp: fate_def)
qed

lemma inodes_differ:
  assumes "disk_ok d" "file_at d p = Some f" "file_at d q = Some h" "p \<noteq> q"
  shows "fi_inode (sf_identity f) \<noteq> fi_inode (sf_identity h)"
proof
  assume "fi_inode (sf_identity f) = fi_inode (sf_identity h)"
  moreover have "(q, h) \<in> set (dk_files (drop_file p d))"
    using assms(3,4) by (auto simp: file_at_def drop_file_def dest: map_of_SomeD)
  ultimately have "fi_inode (sf_identity f) \<in> set (inodes (drop_file p d))" by (force simp: inodes_def)
  with inode_of_other [OF assms(1,2)] show False by contradiction
qed

interpretation fated: lasting True en rid "fate en rid old" for en :: "'c engine" and rid old
proof unfold_locales
  show "stable True en rid (fate en rid old)"
    unfolding stable_def rely_def leaves_def using fate_checked by blast
  show "framed en rid (fate en rid old)"
    unfolding framed_def frame_def using fate_checked by blast
next
  fix t t' :: publish_table and d :: "'c disk" and r :: publish_row
  assume "fate en rid old (t, d)" "map_of t rid = None" "map_of t' rid = Some r" "pr_published_inode r = None"
  then show "fate en rid old (t', d)" by (auto simp: fate_def in_place_def)
next
  fix t t' :: publish_table and d :: "'c disk" and hc i and r0 r :: publish_row
  assume inv: "warehouse_inv en (t, d)" and f: "fate en rid old (t, d)" and b: "build_is True en rid hc i (t, d)"
    and r: "map_of t rid = Some r0" "map_of t' rid = Some r" "pr_published_inode r = Some (fi_inode i)" "pr_mart_hashes r0 = None"
  have "\<not> in_place True en rid (t, d)" using r(1,4) by (auto simp: in_place_def describes_def)
  with f have old: "file_at d PublishedFile = old" by (auto simp: fate_def)
  obtain h where h: "file_at d (BuildFile rid) = Some h" "sf_identity h = i" using b by (auto simp: build_is_def)
  have "fi_inode (sf_identity f) \<noteq> fi_inode i" if "old = Some f" for f
    using inodes_differ [of d PublishedFile f "BuildFile rid" h] inv old that h by (simp add: warehouse_inv_def)
  with old r(2,3) show "fate en rid old (t', d)" by (force simp: fate_def)
next
  fix t :: publish_table and d d' :: "'c disk" and r f
  assume "map_of t rid = Some r" "describes en r f" "file_at d' PublishedFile = Some f"
  then show "fate en rid old (t, d')" by (simp add: fate_def in_place_def)
qed

end
