(* ===== verification/WarehouseRecovery.thy ===== *)
theory WarehouseRecovery
  imports WarehouseRuns
begin

text \<open>
  Runs of the publication operations that nothing disturbs: every call returns, recovery settles the
  run that was killed, a failed build is quarantined, and the quarantine is bounded.
\<close>

section \<open>Undisturbed runs\<close>

definition calmly :: "('c shared \<Rightarrow> bool) \<Rightarrow> ('c wh_world, 'a) op \<Rightarrow> ('a \<Rightarrow> 'c shared \<Rightarrow> bool) \<Rightarrow> bool" where
  "calmly P m Q \<longleftrightarrow> (\<forall>w. wh_schedule w = [] \<longrightarrow> P (shared w) \<longrightarrow>
     (\<exists>v w'. m w = (Inr v, w') \<and> wh_schedule w' = [] \<and> Q v (shared w')))"

lemma calmlyD:
  assumes "calmly P m Q" "wh_schedule w = []" "P (shared w)"
  obtains v w' where "m w = (Inr v, w')" "wh_schedule w' = []" "Q v (shared w')"
  using assms unfolding calmly_def by blast

lemma calmly_return: "(\<And>x. P x \<Longrightarrow> Q v x) \<Longrightarrow> calmly P (returnM v) Q"
  by (simp add: calmly_def)

lemma calmly_weaken: "calmly P m Q \<Longrightarrow> (\<And>x. P' x \<Longrightarrow> P x) \<Longrightarrow> (\<And>v x. Q v x \<Longrightarrow> Q' v x) \<Longrightarrow> calmly P' m Q'"
  unfolding calmly_def by blast

lemma calmly_bind:
  assumes "calmly P m R" "\<And>v. calmly (R v) (f v) Q"
  shows "calmly P (bindM m f) Q"
  unfolding calmly_def
proof (intro allI impI)
  fix w :: "'a wh_world" assume "wh_schedule w = []" "P (shared w)"
  with assms(1) obtain v w1 where m: "m w = (Inr v, w1)" "wh_schedule w1 = []" "R v (shared w1)" by (rule calmlyD)
  from assms(2) m(2,3) obtain u w2 where "f v w1 = (Inr u, w2)" "wh_schedule w2 = []" "Q u (shared w2)" by (rule calmlyD)
  with m(1) show "\<exists>v w'. bindM m f w = (Inr v, w') \<and> wh_schedule w' = [] \<and> Q v (shared w')"
    by (auto simp: bindM_def)
qed

lemma calmly_if: "(b \<Longrightarrow> calmly P m Q) \<Longrightarrow> (\<not> b \<Longrightarrow> calmly P n Q) \<Longrightarrow> calmly P (if b then m else n) Q"
  by simp

lemma calmly_iter: "(\<And>x. x \<in> set xs \<Longrightarrow> calmly P (f x) (\<lambda>_. P)) \<Longrightarrow> calmly P (iterM f xs) (\<lambda>_. P)"
  by (induction xs) (auto intro: calmly_return calmly_bind)

lemma calmly_prem: "(b \<Longrightarrow> calmly P m Q) \<Longrightarrow> calmly (\<lambda>x. P x \<and> b) m Q"
  unfolding calmly_def by blast

lemma calmly_runs:
  assumes "\<And>now t d. P (t, d) \<Longrightarrow> \<exists>v t'. m now t = (Inr v, t') \<and> Q v (t', d)"
  shows "calmly P (on_runs m) Q"
  unfolding calmly_def
proof (intro allI impI)
  fix w :: "'a wh_world" assume w: "wh_schedule w = []" "P (shared w)"
  with assms [of "wh_runs w" "wh_disk w" "wh_clock w"] obtain v t' where "m (wh_clock w) (wh_runs w) = (Inr v, t')" "Q v (t', wh_disk w)"
    by (auto simp: shared_def)
  with w show "\<exists>v w'. on_runs m w = (Inr v, w') \<and> wh_schedule w' = [] \<and> Q v (shared w')"
    by (simp add: on_runs_def bindM_def contact_def runs_now_def)
qed

lemma calmly_disk:
  assumes "\<And>now t d. P (t, d) \<Longrightarrow> \<exists>v d'. m now d = (Inr v, d') \<and> Q v (t, d')"
  shows "calmly P (on_disk m) Q"
  unfolding calmly_def
proof (intro allI impI)
  fix w :: "'a wh_world" assume w: "wh_schedule w = []" "P (shared w)"
  with assms [of "wh_runs w" "wh_disk w" "wh_clock w"] obtain v d' where "m (wh_clock w) (wh_disk w) = (Inr v, d')" "Q v (wh_runs w, d')"
    by (auto simp: shared_def)
  with w show "\<exists>v w'. on_disk m w = (Inr v, w') \<and> wh_schedule w' = [] \<and> Q v (shared w')"
    by (simp add: on_disk_def bindM_def contact_def disk_now_def)
qed

lemma calmly_reads: "(\<And>t d. P (t, d) \<Longrightarrow> Q (f d) (t, d)) \<Longrightarrow> calmly P (on_disk (\<lambda>_. getM f)) Q"
  by (rule calmly_disk) simp

lemma calmly_writes: "(\<And>t d. P (t, d) \<Longrightarrow> Q () (t, h d)) \<Longrightarrow> calmly P (on_disk (\<lambda>_. modifyM h)) Q"
  by (rule calmly_disk) simp

section \<open>The quarantine\<close>

text \<open>What the table holds, what is published, and that the build of run \<open>k\<close> is gone.\<close>

definition settled :: "uuid \<Rightarrow> (publish_table \<Rightarrow> bool) \<Rightarrow> 'c stored_file option \<Rightarrow> 'c shared \<Rightarrow> bool" where
  "settled k p pub x \<longleftrightarrow> p (fst x) \<and> disk_ok (snd x) \<and> file_at (snd x) PublishedFile = pub \<and> file_at (snd x) (BuildFile k) = None"

definition unsettled :: "(publish_table \<Rightarrow> bool) \<Rightarrow> 'c stored_file option \<Rightarrow> 'c shared \<Rightarrow> bool" where
  "unsettled p pub x \<longleftrightarrow> p (fst x) \<and> disk_ok (snd x) \<and> file_at (snd x) PublishedFile = pub"

definition move_build :: "'c engine \<Rightarrow> uuid \<Rightarrow> time \<Rightarrow> ('c wh_world, string option) op" where
  "move_build en k now =
     bindM (on_disk (\<lambda>_. os_replace (BuildFile k) (FailedFile k))) (\<lambda>_.
     bindM (on_disk (\<lambda>_. wal_exists (BuildFile k))) (\<lambda>wal.
     bindM (if wal then on_disk (\<lambda>_. modifyM (set_wal (FailedFile k) True \<circ> set_wal (BuildFile k) False))
            else returnM ()) (\<lambda>_.
     bindM (on_disk (\<lambda>_. os_utime (FailedFile k) now)) (\<lambda>_.
     returnM (Some (path_string (en_root en) (FailedFile k)))))))"

lemma calmly_move:
  "calmly (\<lambda>x. unsettled p pub x \<and> file_at (snd x) (BuildFile k) \<noteq> None) (move_build en k now) (\<lambda>_. settled k p pub)"
  unfolding move_build_def wal_exists_def
proof -
  let ?moved = "\<lambda>x. settled k p pub x \<and> file_at (snd x) (FailedFile k) \<noteq> None"
  have replace: "calmly (\<lambda>x. unsettled p pub x \<and> file_at (snd x) (BuildFile k) \<noteq> None)
      (on_disk (\<lambda>_. os_replace (BuildFile k) (FailedFile k))) (\<lambda>_. ?moved)"
    by (intro calmly_disk) (auto simp: os_replace_def unsettled_def settled_def disk_ok_replace)
  have look: "calmly ?moved (on_disk (\<lambda>_. getM (\<lambda>d. BuildFile k \<in> set (dk_wals d)))) (\<lambda>_. ?moved)"
    by (rule calmly_reads)
  have wal: "calmly ?moved (if wal then on_disk (\<lambda>_. modifyM (set_wal (FailedFile k) True \<circ> set_wal (BuildFile k) False)) else returnM ())
      (\<lambda>_. ?moved)" for wal
    by (intro calmly_if calmly_writes calmly_return) (auto simp: settled_def)
  have utime: "calmly ?moved (on_disk (\<lambda>_. os_utime (FailedFile k) now)) (\<lambda>_. settled k p pub)"
    by (rule calmly_disk) (auto simp: os_utime_def settled_def disk_ok_utime)
  show "calmly (\<lambda>x. unsettled p pub x \<and> file_at (snd x) (BuildFile k) \<noteq> None)
     (bindM (on_disk (\<lambda>_. os_replace (BuildFile k) (FailedFile k))) (\<lambda>_.
      bindM (on_disk (\<lambda>_. getM (\<lambda>d. BuildFile k \<in> set (dk_wals d)))) (\<lambda>wal.
      bindM (if wal then on_disk (\<lambda>_. modifyM (set_wal (FailedFile k) True \<circ> set_wal (BuildFile k) False)) else returnM ()) (\<lambda>_.
      bindM (on_disk (\<lambda>_. os_utime (FailedFile k) now)) (\<lambda>_.
      returnM (Some (path_string (en_root en) (FailedFile k)))))))) (\<lambda>_. settled k p pub)"
    by (intro calmly_bind [OF replace] calmly_bind [OF look] calmly_bind [OF wal] calmly_bind [OF utime] calmly_return)
qed

lemma calmly_isolate: "calmly (unsettled p pub) (isolate_build en k now) (\<lambda>_. settled k p pub)"
proof -
  have stage: "calmly (\<lambda>x. unsettled p pub x \<and> found = (file_at (snd x) (BuildFile k) \<noteq> None))
      (if \<not> found then returnM None else move_build en k now) (\<lambda>_. settled k p pub)" for found
  proof (cases found)
    case True
    with calmly_move [of p pub k en now] show ?thesis by simp
  next
    case False
    then show ?thesis by (auto simp: settled_def unsettled_def intro: calmly_return)
  qed
  have "calmly (unsettled p pub) (bindM (on_disk (\<lambda>_. file_exists (BuildFile k))) (\<lambda>found.
      if \<not> found then returnM None else move_build en k now)) (\<lambda>_. settled k p pub)"
    unfolding file_exists_def
    by (rule calmly_bind [OF calmly_reads [where Q = "\<lambda>found x. unsettled p pub x \<and> found = (file_at (snd x) (BuildFile k) \<noteq> None)"] stage]) simp
  then show ?thesis by (simp only: isolate_build_def move_build_def)
qed

lemma failed_builds_drop:
  "failed_builds (drop_file p d) = filter (\<lambda>q. q \<noteq> p) (failed_builds d)"
proof -
  have "filter (\<lambda>q. q \<noteq> p) (map fst xs) = map fst (filter (\<lambda>(q, _). q \<noteq> p) xs)" for xs :: "(warehouse_path, 'a stored_file) table"
    by (induction xs) auto
  then show ?thesis
    by (simp add: failed_builds_def drop_file_def filter_sort filter_filter conj_commute case_prod_beta)
qed

lemma failed_builds_wal [simp]: "failed_builds (set_wal p b d) = failed_builds d"
  by (simp add: failed_builds_def)

lemma failed_builds_distinct: "disk_ok d \<Longrightarrow> distinct (failed_builds d)"
proof -
  assume "disk_ok d"
  then have "distinct (map fst (filter P (dk_files d)))" for P
    by (simp add: disk_ok_def pk_ok_def distinct_map_filter)
  moreover have "mset (failed_builds d) = mset (map fst (filter (\<lambda>(p, _). case p of FailedFile _ \<Rightarrow> True | _ \<Rightarrow> False) (dk_files d)))"
    by (simp add: failed_builds_def)
  ultimately show ?thesis by (metis mset_eq_imp_distinct_iff)
qed

text \<open>Pruning keeps the newest builds, in their order, and nothing outside the quarantine changes.\<close>

lemma calmly_unlinks:
  "calmly (\<lambda>x. settled k p pub x \<and> failed_builds (snd x) = keep @ fs \<and> distinct (keep @ fs))
     (iterM prune_build fs) (\<lambda>_ x. settled k p pub x \<and> failed_builds (snd x) = keep)"
proof (induction fs)
  case Nil
  show ?case by (simp add: calmly_def)
next
  case (Cons f fs)
  let ?pre = "\<lambda>fs x. settled k p pub x \<and> failed_builds (snd x) = keep @ fs \<and> distinct (keep @ fs)"
  have "calmly (?pre (f # fs)) (on_disk (\<lambda>_. unlink f)) (\<lambda>_. ?pre fs)"
  proof (rule calmly_disk)
    fix t d assume a: "?pre (f # fs) (t, d)"
    then have "filter (\<lambda>q. q \<noteq> f) keep = keep" "filter (\<lambda>q. q \<noteq> f) fs = fs" by (auto simp: filter_id_conv)
    then have "filter (\<lambda>q. q \<noteq> f) (keep @ f # fs) = keep @ fs" by simp
    with a show "\<exists>v d'. unlink f d = (Inr v, d') \<and> ?pre fs (t, d')"
      using failed_builds_failed [of d] by (auto simp: unlink_def settled_def failed_builds_drop disk_ok_drop)
  qed
  then have "calmly (?pre (f # fs)) (prune_build f) (\<lambda>_. ?pre fs)"
    unfolding prune_build_def by (rule calmly_bind) (rule calmly_writes, simp add: settled_def)
  from calmly_bind [OF this Cons.IH] show ?case by simp
qed

lemma calmly_prune:
  "calmly (\<lambda>x. settled k p pub x \<and> failed_builds (snd x) = fs) (prune_failed_builds n)
     (\<lambda>_ x. settled k p pub x \<and> failed_builds (snd x) = take n fs)"
  unfolding prune_failed_builds_def
proof (rule calmly_bind [OF calmly_reads [where Q = "\<lambda>v x. (settled k p pub x \<and> failed_builds (snd x) = take n fs @ drop n v \<and>
    distinct (take n fs @ drop n v)) \<and> v = fs"]])
  show "(settled k p pub (t, d) \<and> failed_builds (snd (t, d)) = take n fs @ drop n (failed_builds d) \<and>
      distinct (take n fs @ drop n (failed_builds d))) \<and> failed_builds d = fs"
    if "settled k p pub (t, d) \<and> failed_builds (snd (t, d)) = fs" for t d
    using that failed_builds_distinct [of d] by (auto simp: settled_def)
  show "calmly (\<lambda>x. (settled k p pub x \<and> failed_builds (snd x) = take n fs @ drop n v \<and> distinct (take n fs @ drop n v)) \<and> v = fs)
      (iterM prune_build (drop n v)) (\<lambda>_ x. settled k p pub x \<and> failed_builds (snd x) = take n fs)" for v
    by (rule calmly_prem, rule calmly_weaken [OF calmly_unlinks]) auto
qed

section \<open>Recovery of a stale run\<close>

text \<open>A table whose row of run \<open>k\<close> has the given status and meets the constraints.\<close>

definition row_in :: "publish_status \<Rightarrow> uuid \<Rightarrow> publish_table \<Rightarrow> bool" where
  "row_in s k t \<longleftrightarrow> pk_ok t \<and> (\<exists>r. map_of t k = Some r \<and> pr_status r = s \<and> publish_row_fits r \<and> publish_row_ok r)"

text \<open>An update of the row of run \<open>k\<close> whose result fits.\<close>

lemma update_of_row:
  assumes "pk_ok t" "map_of t k = Some r" "c r" "publish_row_fits (f r)" "publish_row_ok (f r)"
  shows "update_publish (\<lambda>k' r. k' = k \<and> c r) f t = (Inr [k], update_rows (\<lambda>k' r. k' = k \<and> c r) f t)"
    and "map_of (update_rows (\<lambda>k' r. k' = k \<and> c r) f t) k = Some (f r)"
    and "pk_ok (update_rows (\<lambda>k' r. k' = k \<and> c r) f t)"
proof -
  show "update_publish (\<lambda>k' r. k' = k \<and> c r) f t = (Inr [k], update_rows (\<lambda>k' r. k' = k \<and> c r) f t)"
    using assms filter_fst_pk [OF assms(1), of k c] map_of_is_SomeI [OF assms(1) [unfolded pk_ok_def], of k]
    by (fastforce simp: update_publish_ok)
  show "map_of (update_rows (\<lambda>k' r. k' = k \<and> c r) f t) k = Some (f r)" using assms(2,3) by (simp add: map_of_update_rows)
  show "pk_ok (update_rows (\<lambda>k' r. k' = k \<and> c r) f t)" using assms(1) by (simp add: pk_ok_update_rows)
qed


lemma transition_of_row:
  assumes "pk_ok t" "map_of t k = Some r" "pr_status r \<in> set expected" "publish_row_fits (f r)" "publish_row_ok (f r)"
  shows "\<exists>t'. publish_transition k expected f t = (Inr (), t') \<and> pk_ok t' \<and> map_of t' k = Some (f r)"
  using transition_ok [OF assms(1), of k expected f] update_of_row [OF assms(1,2), of "\<lambda>r. pr_status r \<in> set expected" f] assms(2-)
  by auto

lemma calmly_path:
  "calmly (settled k (row_in PUBLISH_FAILED k) pub) (on_runs (\<lambda>_. record_failed_path k path)) (\<lambda>_. settled k (row_in PUBLISH_FAILED k) pub)"
proof (rule calmly_runs)
  fix t d assume a: "settled k (row_in PUBLISH_FAILED k) pub (t, d)"
  then obtain r where r: "pk_ok t" "map_of t k = Some r" "pr_status r = PUBLISH_FAILED" "publish_row_fits r" "publish_row_ok r"
    by (auto simp: settled_def row_in_def)
  have fits: "publish_row_fits (r\<lparr>pr_failed_path := Some path\<rparr>)" "publish_row_ok (r\<lparr>pr_failed_path := Some path\<rparr>)"
    using r by (simp_all add: publish_row_fits_def publish_row_ok_def pr_active_def)
  obtain t' where "publish_transition k [PUBLISH_FAILED] (\<lambda>r. r\<lparr>pr_failed_path := Some path\<rparr>) t = (Inr (), t')" "pk_ok t'"
      "map_of t' k = Some (r\<lparr>pr_failed_path := Some path\<rparr>)"
    using transition_of_row [OF r(1,2), of "[PUBLISH_FAILED]" "\<lambda>r. r\<lparr>pr_failed_path := Some path\<rparr>"] r(3) fits by auto
  with a fits r(3) show "\<exists>v t'. record_failed_path k path t = (Inr v, t') \<and> settled k (row_in PUBLISH_FAILED k) pub (t', d)"
    by (auto simp: record_failed_path_def settled_def row_in_def)
qed

lemma calmly_target: "calmly (settled k p pub) (on_disk (\<lambda>_. remove_target k)) (\<lambda>_. settled k p pub)"
  unfolding remove_target_def by (rule calmly_writes) (simp add: settled_def file_at_def disk_ok_def inodes_def)

definition pruned :: "'c shared \<Rightarrow> bool" where
  "pruned x \<longleftrightarrow> length (failed_builds (snd x)) \<le> FAILED_BUILD_RETENTION"

lemma calmly_pruned:
  "calmly (settled k p pub) (bindM (prune_failed_builds FAILED_BUILD_RETENTION) (\<lambda>_. on_disk (\<lambda>_. remove_target k)))
     (\<lambda>_ x. settled k p pub x \<and> pruned x)"
proof (rule calmly_bind)
  have "calmly (\<lambda>x. settled k p pub x \<and> failed_builds (snd x) = fs) (prune_failed_builds n) (\<lambda>_ x. settled k p pub x \<and> length (failed_builds (snd x)) \<le> n)" for fs n
    by (rule calmly_weaken [OF calmly_prune [of k p pub fs n]]) auto
  then show "calmly (settled k p pub) (prune_failed_builds FAILED_BUILD_RETENTION) (\<lambda>_ x. settled k p pub x \<and> pruned x)"
    unfolding calmly_def pruned_def by blast
  show "calmly (\<lambda>x. settled k p pub x \<and> pruned x) (on_disk (\<lambda>_. remove_target k)) (\<lambda>_ x. settled k p pub x \<and> pruned x)"
    unfolding remove_target_def
    by (rule calmly_writes) (simp add: settled_def file_at_def disk_ok_def inodes_def pruned_def failed_builds_def)
qed

lemma calmly_clean:
  "calmly (unsettled (row_in PUBLISH_FAILED k) pub) (clean_failed_recovery en now k)
     (\<lambda>_ x. settled k (row_in PUBLISH_FAILED k) pub x \<and> pruned x)"
  unfolding clean_failed_recovery_def
proof (rule calmly_bind [OF calmly_isolate], rule calmly_bind [OF _ calmly_pruned])
  show "calmly (settled k (row_in PUBLISH_FAILED k) pub)
      (case path of None \<Rightarrow> returnM () | Some p \<Rightarrow> on_runs (\<lambda>_. record_failed_path k p)) (\<lambda>_. settled k (row_in PUBLISH_FAILED k) pub)" for path
    by (cases path) (auto intro: calmly_path calmly_return [where v = "()"])
qed

text \<open>Whether recovery finds the run's own file published.\<close>

definition own_file_published :: "publish_row \<Rightarrow> 'c stored_file option \<Rightarrow> bool" where
  "own_file_published r pub \<longleftrightarrow> pr_status r = PUBLISHING \<and>
     (\<exists>f. pub = Some f \<and> pr_published_inode r = Some (fi_inode (sf_identity f)) \<and>
        pr_published_mtime_ns r = Some (fi_mtime_ns (sf_identity f)))"

definition holds_row :: "uuid \<Rightarrow> publish_row \<Rightarrow> publish_table \<Rightarrow> bool" where
  "holds_row k r t \<longleftrightarrow> pk_ok t \<and> map_of t k = Some r"

lemma match_row:
  assumes "pr_status r = PUBLISHING"
  shows "(rec_published_identity (record_of_row (k, r)) \<noteq> None \<and>
      map_option sf_identity pub = rec_published_identity (record_of_row (k, r))) = own_file_published r pub"
  using assms by (auto simp: own_file_published_def record_of_row_def split: option.splits)

lemma calmly_match:
  "calmly (unsettled (holds_row k r) pub)
     (if pr_status r = PUBLISHING then on_disk (\<lambda>_. published_identity_matches (rec_published_identity (record_of_row (k, r)))) else returnM False)
     (\<lambda>v x. unsettled (holds_row k r) pub x \<and> v = own_file_published r pub)"
proof (rule calmly_if)
  assume "pr_status r = PUBLISHING"
  then show "calmly (unsettled (holds_row k r) pub) (on_disk (\<lambda>_. published_identity_matches (rec_published_identity (record_of_row (k, r)))))
      (\<lambda>v x. unsettled (holds_row k r) pub x \<and> v = own_file_published r pub)"
    unfolding published_identity_matches_def using match_row [of r k pub]
    by (intro calmly_reads) (auto simp: unsettled_def)
qed (auto simp: own_file_published_def intro: calmly_return)

definition closed_row :: "bool \<Rightarrow> time \<Rightarrow> publish_row \<Rightarrow> publish_row" where
  "closed_row published now r = r\<lparr>pr_status := (if published then PUBLISHED else PUBLISH_FAILED), pr_finished_at := Some now,
     pr_error_type := (if published then None else Some UNKNOWN_ERROR),
     pr_error_message := (if published then None else Some ABANDONED_MESSAGE)\<rparr>"

lemma closed_row_ok:
  assumes "publish_row_fits r" "publish_row_ok r" "stale sb r" "published \<Longrightarrow> pr_status r = PUBLISHING"
  shows "publish_row_fits (closed_row published now r)" "publish_row_ok (closed_row published now r)"
  using assms by (auto simp: publish_row_fits_def publish_row_ok_def closed_row_def fits_in_def pr_active_def ACTIVE_STATUSES_def
      UNKNOWN_ERROR_def stale_def split: if_splits)

lemma calmly_close:
  assumes "publish_row_fits r" "publish_row_ok r" "stale sb r" "published \<Longrightarrow> pr_status r = PUBLISHING"
  shows "calmly (unsettled (holds_row k r) pub) (on_runs (\<lambda>_. close_stale_run k published sb now))
    (\<lambda>v x. v \<and> unsettled (holds_row k (closed_row published now r)) pub x)"
proof (rule calmly_runs)
  fix t d assume a: "unsettled (holds_row k r) pub (t, d)"
  then have r: "pk_ok t" "map_of t k = Some r" by (simp_all add: unsettled_def holds_row_def)
  note upd = update_of_row [OF r, where c = "stale sb" and f = "closed_row published now", OF assms(3) closed_row_ok [OF assms]]
  from upd a show "\<exists>v t'. close_stale_run k published sb now t = (Inr v, t') \<and> (v \<and> unsettled (holds_row k (closed_row published now r)) pub (t', d))"
    by (auto simp: close_stale_run_def bindM_def closed_row_def [abs_def] unsettled_def holds_row_def)
qed

definition settled_status :: "publish_row \<Rightarrow> 'c stored_file option \<Rightarrow> publish_status" where
  "settled_status r pub = (if own_file_published r pub then PUBLISHED else PUBLISH_FAILED)"

lemma holds_row_in: "publish_row_fits r \<Longrightarrow> publish_row_ok r \<Longrightarrow> holds_row k r t \<Longrightarrow> row_in (pr_status r) k t"
  by (auto simp: holds_row_def row_in_def)

lemma calmly_recover_run:
  assumes "publish_row_fits r" "publish_row_ok r" "stale (now - PUBLISH_LEASE) r"
  shows "calmly (unsettled (holds_row k r) pub) (recover_run en now (record_of_row (k, r)))
    (\<lambda>_. settled k (row_in (settled_status r pub) k) pub)"
proof -
  have rec: "rec_publish_run_id (record_of_row (k, r)) = k" "rec_status (record_of_row (k, r)) = pr_status r"
    by (simp_all add: record_of_row_def)
  let ?s = "\<lambda>published. if published then PUBLISHED else PUBLISH_FAILED"
  have tidy: "calmly (unsettled (row_in (?s published) k) pub)
      (if published then bindM (on_disk (\<lambda>_. unlink (BuildFile k))) (\<lambda>_. on_disk (\<lambda>_. remove_target k)) else clean_failed_recovery en now k)
      (\<lambda>_. settled k (row_in (?s published) k) pub)" for published
  proof (cases published)
    case True
    have "calmly (unsettled (row_in (?s published) k) pub) (on_disk (\<lambda>_. unlink (BuildFile k))) (\<lambda>_. settled k (row_in (?s published) k) pub)"
      unfolding unlink_def by (rule calmly_writes) (simp add: unsettled_def settled_def disk_ok_drop)
    from calmly_bind [OF this calmly_target] True show ?thesis by simp
  next
    case False
    from calmly_weaken [OF calmly_clean, of _ k pub _ en now] False show ?thesis by auto
  qed
  have close: "calmly (\<lambda>x. unsettled (holds_row k r) pub x \<and> v = own_file_published r pub)
      (bindM (on_runs (\<lambda>_. close_stale_run k v (now - PUBLISH_LEASE) now)) (\<lambda>closed.
       if \<not> closed then returnM [] else
         bindM (if v then bindM (on_disk (\<lambda>_. unlink (BuildFile k))) (\<lambda>_. on_disk (\<lambda>_. remove_target k)) else clean_failed_recovery en now k)
           (\<lambda>_. returnM [k]))) (\<lambda>_. settled k (row_in (settled_status r pub) k) pub)" for v
  proof (rule calmly_prem)
    assume v: "v = own_file_published r pub"
    then have pub: "v \<Longrightarrow> pr_status r = PUBLISHING" by (simp add: own_file_published_def)
    have ok: "publish_row_fits (closed_row v now r)" "publish_row_ok (closed_row v now r)"
      using closed_row_ok [OF assms, of v now] pub by blast+
    have c: "calmly (unsettled (holds_row k r) pub) (on_runs (\<lambda>_. close_stale_run k v (now - PUBLISH_LEASE) now))
        (\<lambda>c x. c \<and> unsettled (holds_row k (closed_row v now r)) pub x)"
      using calmly_close [OF assms, of v k pub now] pub by blast
    have closing: "calmly (unsettled (holds_row k r) pub) (on_runs (\<lambda>_. close_stale_run k v (now - PUBLISH_LEASE) now))
        (\<lambda>c x. unsettled (row_in (?s v) k) pub x \<and> c)"
      by (rule calmly_weaken [OF c])
        (use holds_row_in [OF ok, of k] in \<open>auto simp: unsettled_def closed_row_def\<close>)
    have tail: "calmly (unsettled (row_in (?s v) k) pub)
        (bindM (if v then bindM (on_disk (\<lambda>_. unlink (BuildFile k))) (\<lambda>_. on_disk (\<lambda>_. remove_target k)) else clean_failed_recovery en now k)
          (\<lambda>_. returnM [k])) (\<lambda>_. settled k (row_in (?s v) k) pub)"
      by (rule calmly_bind [OF tidy]) (rule calmly_return)
    have status: "settled_status r pub = ?s v" using v by (simp add: settled_status_def)
    show "calmly (unsettled (holds_row k r) pub) (bindM (on_runs (\<lambda>_. close_stale_run k v (now - PUBLISH_LEASE) now)) (\<lambda>closed.
       if \<not> closed then returnM [] else
         bindM (if v then bindM (on_disk (\<lambda>_. unlink (BuildFile k))) (\<lambda>_. on_disk (\<lambda>_. remove_target k)) else clean_failed_recovery en now k)
           (\<lambda>_. returnM [k]))) (\<lambda>_. settled k (row_in (settled_status r pub) k) pub)"
      unfolding status by (rule calmly_bind [OF closing], rule calmly_prem, rule calmly_if, simp, rule tail)
  qed
  show ?thesis
    unfolding recover_run_def Let_def rec by (rule calmly_bind [OF calmly_match close])
qed

lemma stale_alone:
  assumes "publish_inv t" "map_of t k = Some r" "stale sb r"
  shows "filter (\<lambda>(_, r). stale sb r) t = [(k, r)]"
proof -
  have "(k, r) \<in> set (filter (\<lambda>(_, r). stale sb r) t)" using assms(2,3) by (auto dest: map_of_SomeD)
  moreover have "length (filter (\<lambda>(_, r). stale sb r) t) \<le> length (filter (\<lambda>(_, r). pr_active r) t)"
    by (induction t) (auto simp: stale_def)
  ultimately have "length (filter (\<lambda>(_, r). stale sb r) t) \<le> 1" using assms(1) by (simp add: publish_inv_def)
  with \<open>(k, r) \<in> set (filter (\<lambda>(_, r). stale sb r) t)\<close> show ?thesis
    by (cases "filter (\<lambda>(_, r). stale sb r) t") auto
qed

lemma calmly_recover:
  assumes "publish_row_fits r" "publish_row_ok r" "stale (now - PUBLISH_LEASE) r"
  shows "calmly (\<lambda>x. unsettled (holds_row k r) pub x \<and> publish_inv (fst x)) (recover_incomplete_publishes en now None)
    (\<lambda>_. settled k (row_in (settled_status r pub) k) pub)"
proof -
  have look: "calmly (\<lambda>x. unsettled (holds_row k r) pub x \<and> publish_inv (fst x)) (on_runs (\<lambda>_. stale_active_runs (now - PUBLISH_LEASE)))
      (\<lambda>rs x. unsettled (holds_row k r) pub x \<and> rs = [record_of_row (k, r)])"
  proof (rule calmly_runs)
    fix t d assume "unsettled (holds_row k r) pub (t, d) \<and> publish_inv (fst (t, d))"
    then show "\<exists>v t'. stale_active_runs (now - PUBLISH_LEASE) t = (Inr v, t') \<and>
        (unsettled (holds_row k r) pub (t', d) \<and> v = [record_of_row (k, r)])"
      using stale_alone [of t k r "now - PUBLISH_LEASE"] assms(3) by (simp add: stale_active_runs_def unsettled_def holds_row_def)
  qed
  have run: "calmly (\<lambda>x. unsettled (holds_row k r) pub x \<and> rs = [record_of_row (k, r)]) (bindM (mapM (recover_run en now) rs)
      (\<lambda>recovered. returnM ([] @ concat recovered))) (\<lambda>_. settled k (row_in (settled_status r pub) k) pub)" for rs
  proof (rule calmly_prem)
    assume rs: "rs = [record_of_row (k, r)]"
    have "calmly (unsettled (holds_row k r) pub) (mapM (recover_run en now) rs) (\<lambda>_. settled k (row_in (settled_status r pub) k) pub)"
      unfolding rs mapM.simps by (intro calmly_bind [OF calmly_recover_run [OF assms]] calmly_bind [OF calmly_return] calmly_return)
    then show "calmly (unsettled (holds_row k r) pub) (bindM (mapM (recover_run en now) rs) (\<lambda>recovered. returnM ([] @ concat recovered)))
        (\<lambda>_. settled k (row_in (settled_status r pub) k) pub)"
      by (rule calmly_bind) (rule calmly_return)
  qed
  have returns: "bindM (returnM []) f = f []" for f :: "uuid list \<Rightarrow> ('b wh_world, uuid list) op"
    by (simp add: bindM_def returnM_def)
  have "recover_incomplete_publishes en now None = bindM (on_runs (\<lambda>_. stale_active_runs (now - PUBLISH_LEASE)))
      (\<lambda>rs. bindM (mapM (recover_run en now) rs) (\<lambda>recovered. returnM ([] @ concat recovered)))"
    by (simp only: recover_incomplete_publishes_def reclaim_runs_def option.case returns)
  then show ?thesis using calmly_bind [OF look run] by (simp only:)
qed

section \<open>A failed build\<close>

lemma calmly_heartbeat:
  assumes "calmly P body Q" "\<And>v. calmly (Q v) (on_runs (\<lambda>now. touch_publish_run k now)) (\<lambda>_. Q v)"
  shows "calmly P (publish_heartbeat k body) Q"
  unfolding calmly_def
proof (intro allI impI)
  fix w :: "'a wh_world" assume w: "wh_schedule w = []" "P (shared w)"
  let ?w = "w\<lparr>wh_heartbeat := Some (k, False)\<rparr>"
  from assms(1) w obtain v w1 where b: "body ?w = (Inr v, w1)" "wh_schedule w1 = []" "Q v (shared w1)"
    by (auto elim!: calmlyD [where w = ?w])
  have "calmly (Q v) (last_pulse k lost) (\<lambda>_. Q v)" for lost
  proof -
    have "calmly (Q v) (bindM (on_runs (\<lambda>now. touch_publish_run k now)) (\<lambda>_. returnM ())) (\<lambda>_. Q v)"
      by (rule calmly_bind [OF assms(2) calmly_return])
    then have "calmly (Q v) (suppress_exceptions (bindM (on_runs (\<lambda>now. touch_publish_run k now)) (\<lambda>_. returnM ()))) (\<lambda>_. Q v)"
      unfolding calmly_def suppress_exceptions_def by fastforce
    then show ?thesis by (simp add: last_pulse_def calmly_return)
  qed
  then have "calmly (Q v) (bindM (last_pulse k lost) (\<lambda>_. returnM v)) (\<lambda>u x. Q v x \<and> u = v)" for lost
    by (rule calmly_bind) (simp add: calmly_return)
  from calmlyD [OF this [of "heartbeat_lost w1"], of "stop_heartbeat w1"] b(2,3)
  obtain w2 where "bindM (last_pulse k (heartbeat_lost w1)) (\<lambda>_. returnM v) (stop_heartbeat w1) = (Inr v, w2)"
      "wh_schedule w2 = []" "Q v (shared w2)" by auto
  with b(1) show "\<exists>v w'. publish_heartbeat k body w = (Inr v, w') \<and> wh_schedule w' = [] \<and> Q v (shared w')"
    by (auto simp: publish_heartbeat_def bindM_def modifyM_def)
qed

lemma calmly_touch:
  "calmly (unsettled (row_in BUILDING k) pub) (on_runs (\<lambda>now. touch_publish_run k now)) (\<lambda>_. unsettled (row_in BUILDING k) pub)"
proof (rule calmly_runs)
  fix now t d assume a: "unsettled (row_in BUILDING k) pub (t, d)"
  then obtain r where r: "pk_ok t" "map_of t k = Some r" "pr_status r = BUILDING" "publish_row_fits r" "publish_row_ok r"
    by (auto simp: unsettled_def row_in_def)
  have f: "pr_active r" "publish_row_fits (r\<lparr>pr_heartbeat_at := Some now\<rparr>)" "publish_row_ok (r\<lparr>pr_heartbeat_at := Some now\<rparr>)"
    using r by (simp_all add: publish_row_fits_def publish_row_ok_def pr_active_def ACTIVE_STATUSES_def)
  show "\<exists>v t'. touch_publish_run k now t = (Inr v, t') \<and> unsettled (row_in BUILDING k) pub (t', d)"
    using update_of_row [OF r(1,2), of pr_active "\<lambda>r. r\<lparr>pr_heartbeat_at := Some now\<rparr>", OF f] a f r(3)
    by (auto simp: touch_publish_run_def bindM_def unsettled_def row_in_def)
qed

text \<open>A row the run has closed as failed, with what it recorded of the failure.\<close>

definition failed_as :: "uuid \<Rightarrow> string \<Rightarrow> string \<Rightarrow> publish_table \<Rightarrow> bool" where
  "failed_as k ty msg t \<longleftrightarrow> row_in PUBLISH_FAILED k t \<and>
     (\<exists>r. map_of t k = Some r \<and> pr_error_type r = Some ty \<and> pr_error_message r = Some (take ERROR_MESSAGE_LIMIT msg))"

lemma calmly_fail:
  assumes "ty \<noteq> []" "length ty \<le> 64" "msg \<noteq> []"
  shows "calmly (unsettled (row_in BUILDING k) pub) (fail_run en k ty msg) (\<lambda>_ x. settled k (failed_as k ty msg) pub x \<and> pruned x)"
proof -
  have mark: "calmly (settled k (row_in BUILDING k) pub) (on_runs (\<lambda>_. mark_failed k ty (if msg = [] then ty else msg) path now))
      (\<lambda>_. settled k (failed_as k ty msg) pub)" for path now
  proof (rule calmly_runs)
    fix t d assume a: "settled k (row_in BUILDING k) pub (t, d)"
    then obtain r where r: "pk_ok t" "map_of t k = Some r" "pr_status r = BUILDING" "publish_row_fits r" "publish_row_ok r"
      by (auto simp: settled_def row_in_def)
    let ?f = "\<lambda>r. r\<lparr>pr_status := PUBLISH_FAILED, pr_error_type := Some ty, pr_error_message := Some (take ERROR_MESSAGE_LIMIT msg),
      pr_failed_path := path, pr_finished_at := Some now\<rparr>"
    have f: "pr_status r \<in> set ACTIVE_STATUSES" "publish_row_fits (?f r)" "publish_row_ok (?f r)"
      using r assms by (simp_all add: publish_row_fits_def publish_row_ok_def pr_active_def ACTIVE_STATUSES_def fits_in_def)
    from transition_of_row [OF r(1,2), of ACTIVE_STATUSES ?f, OF f] a f assms(3)
    show "\<exists>v t'. mark_failed k ty (if msg = [] then ty else msg) path now t = (Inr v, t') \<and> settled k (failed_as k ty msg) pub (t', d)"
      by (auto simp: mark_failed_def settled_def failed_as_def row_in_def)
  qed
  have now: "calmly (unsettled (row_in BUILDING k) pub) now_utc (\<lambda>_. unsettled (row_in BUILDING k) pub)"
    by (simp add: calmly_def now_utc_def contact_def bindM_def)
  show ?thesis
    unfolding fail_run_def by (rule calmly_bind [OF now calmly_bind [OF calmly_isolate calmly_bind [OF mark calmly_pruned]]])
qed

text \<open>dbt came to the given result on the build of run \<open>k\<close>.\<close>

definition dbt_gives :: "'c engine \<Rightarrow> uuid \<Rightarrow> dbt_run_result \<Rightarrow> 'c disk \<Rightarrow> bool" where
  "dbt_gives en k res d \<longleftrightarrow> fst (en_dbt en (map_option sf_content (file_at d (BuildFile k)))) = Inr res"

definition dbt_result_fits :: "dbt_run_result \<Rightarrow> bool" where
  "dbt_result_fits res \<longleftrightarrow> fits_in 64 (dr_invocation_id res) \<and> int_fits 32 (dr_tests_passed res) \<and> int_fits 32 (dr_tests_failed res) \<and>
     0 \<le> dr_tests_passed res \<and> 0 \<le> dr_tests_failed res \<and> length (failure_type res) \<le> 64"

lemma calmly_run_dbt:
  assumes "engine_ok en" "dbt_result_fits res"
  shows "calmly (\<lambda>x. unsettled (row_in BUILDING k) pub x \<and> dbt_gives en k res (snd x)) (run_dbt en k)
    (\<lambda>v x. unsettled (row_in BUILDING k) pub x \<and> v = res)"
proof -
  have work: "calmly (\<lambda>x. unsettled (row_in BUILDING k) pub x \<and> dbt_gives en k res (snd x)) (work_on_build en k (en_dbt en))
      (\<lambda>v x. unsettled (row_in BUILDING k) pub x \<and> v = res)"
    unfolding work_on_build_def
  proof (rule calmly_disk)
    fix now t d assume a: "unsettled (row_in BUILDING k) pub (t, d) \<and> dbt_gives en k res (snd (t, d))"
    then obtain c wal where g: "en_dbt en (map_option sf_content (file_at d (BuildFile k))) = (Inr res, c, wal)"
      by (cases "en_dbt en (map_option sf_content (file_at d (BuildFile k)))") (auto simp: dbt_gives_def)
    from a show "\<exists>v d'. (case en_dbt en (map_option sf_content (file_at d (BuildFile k))) of (r, None, _) \<Rightarrow> (r, d)
        | (r, Some c, wal) \<Rightarrow> (r, set_wal (BuildFile k) wal (write_file (en_inode en) now (BuildFile k) c d))) = (Inr v, d') \<and>
        (unsettled (row_in BUILDING k) pub (t, d') \<and> v = res)"
      by (cases c) (auto simp: g unsettled_def disk_ok_write [OF assms(1)])
  qed
  have target: "calmly (unsettled (row_in BUILDING k) pub) (on_disk (\<lambda>_. modifyM (\<lambda>d. d\<lparr>dk_targets := List.insert k (dk_targets d)\<rparr>)))
      (\<lambda>_. unsettled (row_in BUILDING k) pub)"
    by (rule calmly_writes) (simp add: unsettled_def file_at_def disk_ok_def inodes_def)
  have log: "calmly (unsettled (row_in BUILDING k) pub)
      (on_runs (\<lambda>_. record_dbt_result k (dr_invocation_id res) (dr_tests_passed res) (dr_tests_failed res)))
      (\<lambda>_. unsettled (row_in BUILDING k) pub)"
  proof (rule calmly_runs)
    fix t d assume a: "unsettled (row_in BUILDING k) pub (t, d)"
    then obtain r where r: "pk_ok t" "map_of t k = Some r" "pr_status r = BUILDING" "publish_row_fits r" "publish_row_ok r"
      by (auto simp: unsettled_def row_in_def)
    let ?f = "\<lambda>r. r\<lparr>pr_dbt_invocation_id := dr_invocation_id res, pr_tests_passed := dr_tests_passed res, pr_tests_failed := dr_tests_failed res\<rparr>"
    have f: "pr_status r \<in> set [BUILDING]" "publish_row_fits (?f r)" "publish_row_ok (?f r)"
      using r assms(2) by (simp_all add: publish_row_fits_def publish_row_ok_def pr_active_def dbt_result_fits_def)
    from transition_of_row [OF r(1,2), of "[BUILDING]" ?f, OF f] a f r(3)
    show "\<exists>v t'. record_dbt_result k (dr_invocation_id res) (dr_tests_passed res) (dr_tests_failed res) t = (Inr v, t') \<and>
        unsettled (row_in BUILDING k) pub (t', d)"
      by (auto simp: record_dbt_result_def unsettled_def row_in_def)
  qed
  show ?thesis
    unfolding run_dbt_def
  proof (rule calmly_bind [OF work], rule calmly_prem)
    show "calmly (unsettled (row_in BUILDING k) pub) (bindM (on_disk (\<lambda>_. modifyM (\<lambda>d. d\<lparr>dk_targets := List.insert k (dk_targets d)\<rparr>))) (\<lambda>_.
        bindM (on_runs (\<lambda>_. record_dbt_result k (dr_invocation_id v) (dr_tests_passed v) (dr_tests_failed v))) (\<lambda>_. returnM v)))
        (\<lambda>v x. unsettled (row_in BUILDING k) pub x \<and> v = res)" if "v = res" for v
      unfolding that by (rule calmly_bind [OF target calmly_bind [OF log calmly_return]]) simp
  qed
qed

lemma failed_build:
  assumes "engine_ok en" "dbt_result_fits res" "\<not> run_succeeded res"
    and "wh_schedule w = []" "unsettled (row_in BUILDING k) pub (shared w)" "dbt_gives en k res (wh_disk w)"
  obtains w' where "build_warehouse en k w = (Inl (Exn (WarehouseBuildError (failure_type res)) (failure_summary (failure_type res) res)), w')"
    "settled k (failed_as k (failure_type res) (failure_summary (failure_type res) res)) pub (shared w')" "pruned (shared w')"
proof -
  have touch: "calmly (\<lambda>x. unsettled (row_in BUILDING k) pub x \<and> v = res) (on_runs (\<lambda>now. touch_publish_run k now))
      (\<lambda>_ x. unsettled (row_in BUILDING k) pub x \<and> v = res)" for v
    using calmly_touch [of k pub] unfolding calmly_def by blast
  have "(\<lambda>x. unsettled (row_in BUILDING k) pub x \<and> dbt_gives en k res (snd x)) (shared w)"
    using assms(5,6) by (simp add: shared_def)
  then obtain w1 where w1: "publish_heartbeat k (run_dbt en k) w = (Inr res, w1)" "wh_schedule w1 = []"
      "unsettled (row_in BUILDING k) pub (shared w1)"
    by (rule calmlyD [OF calmly_heartbeat [OF calmly_run_dbt [OF assms(1,2)] touch] assms(4)]) simp
  have texts: "failure_type res \<noteq> []" "length (failure_type res) \<le> 64" "failure_summary (failure_type res) res \<noteq> []"
    using assms(2) by (auto simp: failure_type_def dbt_result_fits_def failure_summary_def DBT_BUILD_ERROR_def split: option.splits)
  obtain u w' where w': "fail_run en k (failure_type res) (failure_summary (failure_type res) res) w1 = (Inr u, w')"
      "settled k (failed_as k (failure_type res) (failure_summary (failure_type res) res)) pub (shared w')" "pruned (shared w')"
    using calmlyD [OF calmly_fail [OF texts] w1(2,3)] by blast
  from w1(1) have "exceptM (publish_heartbeat k (run_dbt en k)) (failing en k) w = (Inr res, w1)" by (simp add: exceptM_def)
  with w'(1) assms(3) have "build_warehouse en k w = (Inl (Exn (WarehouseBuildError (failure_type res)) (failure_summary (failure_type res) res)), w')"
    by (simp add: build_warehouse_def bindM_def raiseM_def)
  from this w'(2,3) show thesis by (rule that)
qed

end
