(* ===== verification/WarehouseProperties.thy ===== *)
theory WarehouseProperties
  imports WarehouseRecovery
begin

text \<open>
  The properties of the warehouse publication and of the hashes it records: what is published is
  always recorded and verified, a returned outcome describes the published file, a killed run is
  settled by the next recovery, and a failed build never reaches the published path.
\<close>

section \<open>The setting of a publication\<close>

text \<open>
  The state is sound, the other processes behave as \<open>rely\<close> says, and this process has made no step
  yet. Which turns interrupt it, and which one kills it, is up to the schedule.
\<close>

definition publish_setting :: "bool \<Rightarrow> 'c engine \<Rightarrow> uuid \<Rightarrow> 'c wh_world \<Rightarrow> bool" where
  "publish_setting sole en rid w \<longleftrightarrow> warehouse_inv en (shared w) \<and> wh_steps w = [] \<and>
     (\<forall>t \<in> set (wh_schedule w). \<forall>x. warehouse_inv en x \<longrightarrow> rely sole en rid x (wt_others t x))"

lemma setting_holds: "publish_setting sole en rid w \<Longrightarrow> p (shared w) \<Longrightarrow> holds sole en rid p w"
  by (simp add: publish_setting_def holds_def trusted_def)

text \<open>
  A warehouse whose contents are one number: dbt adds ten to it, and fails at a negative one.
\<close>

definition demo_dbt :: "dbt_run_result" where
  "demo_dbt = parse_run_results (Some \<lparr>rr_invocation_id = Some ''i1'', rr_results =
     [\<lparr>dn_unique_id = ''model.a'', dn_status = ''success''\<rparr>, \<lparr>dn_unique_id = ''test.b'', dn_status = ''pass''\<rparr>]\<rparr>) 0 ''ok''"

definition demo_failure :: "dbt_run_result" where
  "demo_failure = parse_run_results (Some \<lparr>rr_invocation_id = Some ''i2'', rr_results =
     [\<lparr>dn_unique_id = ''model.a'', dn_status = ''success''\<rparr>, \<lparr>dn_unique_id = ''test.b'', dn_status = ''fail''\<rparr>]\<rparr>) 1 ''bad''"

definition demo_engine :: "int engine" where
  "demo_engine = \<lparr>en_root = ''wh'', en_inode = (\<lambda>used. foldr max used 0 + 1),
     en_sync = (\<lambda>c. (None, case c of None \<Rightarrow> 0 | Some n \<Rightarrow> n, False)),
     en_dbt = (\<lambda>c. case c of Some n \<Rightarrow> (Inr (if n < 0 then demo_failure else demo_dbt), Some (n + 10), False) | None \<Rightarrow> (Inr demo_failure, None, False)),
     en_checkpoint = (\<lambda>c. (None, case c of None \<Rightarrow> 0 | Some n \<Rightarrow> n, False)),
     en_query = (\<lambda>n t. Inr ([''n''], [[MInt n]])), en_sha = (\<lambda>s. s), en_targets = [mart_target ''facts'' ''fct_order'' [''order_id'']]\<rparr>"

lemma demo_engine_ok: "engine_ok demo_engine"
proof -
  have le: "x \<in> set used \<Longrightarrow> x \<le> foldr max used 0" for x :: int and used by (induction used) auto
  show ?thesis unfolding engine_ok_def
  proof (intro allI notI)
    fix used assume "en_inode demo_engine used \<in> set used"
    from le [OF this] show False by (simp add: demo_engine_def)
  qed
qed

definition demo_run :: publish_run where
  "demo_run = \<lparr>pub_publish_run_id = 0, pub_pipeline_name = ''p'', pub_batch_id = None, pub_dag_run_id = None\<rparr>"

definition demo_turn :: "exn option \<Rightarrow> int wh_turn" where
  "demo_turn fault = \<lparr>wt_others = (\<lambda>x. x), wt_clock = 1000, wt_beat = True, wt_fault = fault\<rparr>"

definition demo_warehouse :: "int wh_turn list \<Rightarrow> int wh_world" where
  "demo_warehouse ts = \<lparr>wh_runs = [], wh_disk = \<lparr>dk_files = [], dk_wals = [], dk_targets = []\<rparr>, wh_clock = 1000,
     wh_heartbeat = None, wh_schedule = ts, wh_steps = []\<rparr>"

lemma demo_setting: "set ts \<subseteq> range demo_turn \<Longrightarrow> publish_setting sole demo_engine rid (demo_warehouse ts)"
  by (auto simp: publish_setting_def demo_warehouse_def shared_def warehouse_inv_def demo_engine_ok publish_inv_def pk_ok_def disk_ok_def
      inodes_def published_recorded_def builds_recorded_def file_at_def demo_turn_def rely_def leaves_refl publish_order.refl)

section \<open>What is published\<close>

text \<open>
  C28: The published warehouse file is at every moment one whose marts were hashed and whose hashes,
  row counts and identity a run had recorded before it was put in place: after every single step of
  a publication, whatever the other processes do between the steps, whatever interrupts it, and
  wherever it is killed. Each of its steps is one that every other run may rely on, so runs compose.
\<close>

theorem published_file_always_recorded:
  assumes "publish_setting False en (pub_publish_run_id run) w" "publish_warehouse en run w = (x, w')"
  shows "published_recorded en (shared w') \<and>
    (\<forall>(a, b) \<in> set (wh_steps w'). published_recorded en b \<and> (\<forall>k. k \<noteq> pub_publish_run_id run \<longrightarrow> rely False en k a b))"
proof -
  note triple = publication.publish_holds [OF refl, of False en run]
  have "holds False en (pub_publish_run_id run) (\<lambda>_. True) w'"
    using triple_ok [OF triple setting_holds [OF assms(1)]] triple_err [OF triple setting_holds [OF assms(1)]] assms(2)
    by (cases x) (auto simp: holds_def)
  then have inv: "warehouse_inv en (shared w')"
      and steps: "\<And>a b. (a, b) \<in> set (wh_steps w') \<Longrightarrow> guarantee en (pub_publish_run_id run) a b"
    by (auto simp: holds_def trusted_def)
  show ?thesis
  proof (intro conjI ballI, use inv in \<open>simp add: warehouse_inv_def\<close>, clarify)
    fix t d t' d' assume "((t, d), (t', d')) \<in> set (wh_steps w')"
    then have g: "guarantee en (pub_publish_run_id run) (t, d) (t', d')" by (rule steps)
    then show "published_recorded en (t', d') \<and> (\<forall>k. k \<noteq> pub_publish_run_id run \<longrightarrow> rely False en k (t, d) (t', d'))"
      using guarantee_gives_rely [OF g] by (simp add: guarantee_def warehouse_inv_def)
  qed
qed

theorem published_file_always_recorded_witness:
  "let w = snd (publish_warehouse demo_engine demo_run
       (demo_warehouse (replicate 20 (demo_turn None) @ [demo_turn (Some interrupt)]))) in
   published_recorded demo_engine (shared w) \<and>
    (\<forall>(a, b) \<in> set (wh_steps w). published_recorded demo_engine b \<and>
      (\<forall>k. k \<noteq> pub_publish_run_id demo_run \<longrightarrow> rely False demo_engine k a b))"
  unfolding Let_def by (rule published_file_always_recorded [OF demo_setting prod.collapse [symmetric]]) auto

text \<open>
  C29: When the publication of a run that is the only publisher returns, its row is PUBLISHED, and the
  published file is the one it built: the file has the returned identity, the contents hash to the
  returned hashes and row counts, and these are the ones the row records.
\<close>

theorem outcome_describes_published_file:
  assumes "publish_setting True en (pub_publish_run_id run) w" "publish_warehouse en run w = (Inr v, w')"
  shows "\<exists>r f. map_of (wh_runs w') (pub_publish_run_id run) = Some r \<and> pr_status r = PUBLISHED \<and>
    pr_mart_hashes r = Some (po_mart_hashes v) \<and> pr_mart_row_counts r = Some (po_mart_row_counts v) \<and>
    file_at (wh_disk w') PublishedFile = Some f \<and> sf_identity f = po_published_identity v \<and>
    build_hashes en (sf_content f) = Inr (po_mart_hashes v, po_mart_row_counts v)"
proof -
  have "published_run (pub_publish_run_id run) (shared w')"
      "recorded_as (pub_publish_run_id run) (po_mart_hashes v, po_mart_row_counts v) (po_published_identity v) (shared w')"
      "in_place True en (pub_publish_run_id run) (shared w')"
    using triple_ok [OF publication.publish_holds [OF refl] setting_holds [OF assms(1)] assms(2)] by (auto simp: holds_def)
  then obtain r f where "map_of (wh_runs w') (pub_publish_run_id run) = Some r" "pr_status r = PUBLISHED"
      "checked_part r = (Some (po_mart_hashes v), Some (po_mart_row_counts v), Some (fi_inode (po_published_identity v)),
        Some (fi_mtime_ns (po_published_identity v)))"
      "file_at (wh_disk w') PublishedFile = Some f" "describes en r f"
    by (auto simp: published_run_def recorded_as_def in_place_def shared_def)
  then show ?thesis by (auto simp: checked_part_def describes_def intro: file_identity.equality)
qed

lemma demo_returns: "\<not> isl (fst (publish_warehouse demo_engine demo_run (demo_warehouse [demo_turn None])))"
  by code_simp

theorem outcome_describes_published_file_witness:
  "let v = projr (fst (publish_warehouse demo_engine demo_run (demo_warehouse [demo_turn None])));
       w = snd (publish_warehouse demo_engine demo_run (demo_warehouse [demo_turn None])) in
   \<exists>r f. map_of (wh_runs w) (pub_publish_run_id demo_run) = Some r \<and> pr_status r = PUBLISHED \<and>
     pr_mart_hashes r = Some (po_mart_hashes v) \<and> pr_mart_row_counts r = Some (po_mart_row_counts v) \<and>
     file_at (wh_disk w) PublishedFile = Some f \<and> sf_identity f = po_published_identity v \<and>
     build_hashes demo_engine (sf_content f) = Inr (po_mart_hashes v, po_mart_row_counts v)"
  unfolding Let_def
proof (rule outcome_describes_published_file)
  show "publish_setting True demo_engine (pub_publish_run_id demo_run) (demo_warehouse [demo_turn None])"
    by (rule demo_setting) simp
  show "publish_warehouse demo_engine demo_run (demo_warehouse [demo_turn None]) =
      (Inr (projr (fst (publish_warehouse demo_engine demo_run (demo_warehouse [demo_turn None])))),
       snd (publish_warehouse demo_engine demo_run (demo_warehouse [demo_turn None])))"
    by (simp add: sum.collapse(2) [OF demo_returns])
qed

section \<open>Killed runs\<close>

lemma fate_own_file:
  assumes "fate en rid old x" "warehouse_inv en x" "map_of (fst x) rid = Some r" "pr_active r"
  shows "if own_file_published r (file_at (snd x) PublishedFile)
    then \<exists>f. file_at (snd x) PublishedFile = Some f \<and> describes en r f
    else file_at (snd x) PublishedFile = old"
proof (cases "in_place True en rid x")
  case True
  then obtain f where f: "file_at (snd x) PublishedFile = Some f" "describes en r f" using assms(3) by (auto simp: in_place_def)
  then have "pr_mart_hashes r \<noteq> None" by (auto simp: describes_def split: option.splits)
  with assms(2-4) have "pr_status r = PUBLISHING" by (auto simp: warehouse_inv_def pr_active_def ACTIVE_STATUSES_def)
  with f show ?thesis by (simp add: own_file_published_def describes_def)
next
  case False
  with assms(1,3) show ?thesis by (auto simp: fate_def own_file_published_def)
qed

text \<open>
  C30: A run that was the only publisher and stopped anywhere - it raised, was interrupted or was
  killed at any call - and whose row is still active is settled by the next recovery once its lease
  has run out: the recovery returns, the row becomes PUBLISHED exactly when the run's own build is
  the published file, and FAILED with the previous file untouched otherwise; its build is gone.
\<close>

theorem killed_run_is_settled:
  assumes "publish_setting True en (pub_publish_run_id run) w" "map_of (wh_runs w) (pub_publish_run_id run) = None"
    and "publish_warehouse en run w = (x, w1)" "map_of (wh_runs w1) (pub_publish_run_id run) = Some r"
    and "stale (now - PUBLISH_LEASE) r"
  shows "\<exists>ids w2 r2. recover_incomplete_publishes en now None (w1\<lparr>wh_schedule := [], wh_heartbeat := None\<rparr>) = (Inr ids, w2) \<and>
    map_of (wh_runs w2) (pub_publish_run_id run) = Some r2 \<and> file_at (wh_disk w2) (BuildFile (pub_publish_run_id run)) = None \<and>
    file_at (wh_disk w2) PublishedFile = file_at (wh_disk w1) PublishedFile \<and>
    (pr_status r2 = PUBLISHED \<and> (\<exists>f. file_at (wh_disk w1) PublishedFile = Some f \<and> describes en r f) \<or>
     pr_status r2 = PUBLISH_FAILED \<and> file_at (wh_disk w1) PublishedFile = file_at (wh_disk w) PublishedFile)"
proof -
  let ?k = "pub_publish_run_id run" and ?old = "file_at (wh_disk w) PublishedFile" and ?pub = "file_at (wh_disk w1) PublishedFile"
  have start: "holds True en ?k (fate en ?k ?old) w"
    using assms(1,2) by (intro setting_holds) (simp_all add: fate_def shared_def)
  note triple = fated.publish_holds [OF refl, of en run ?old]
  have h: "holds True en ?k (fate en ?k ?old) w1"
    using triple_ok [OF triple start] triple_err [OF triple start] assms(3) by (cases x) (auto simp: holds_def)
  then have inv: "warehouse_inv en (shared w1)" and fate: "fate en ?k ?old (shared w1)" by (auto simp: holds_def trusted_def)
  have table: "publish_inv (wh_runs w1)" "disk_ok (wh_disk w1)" using inv by (simp_all add: warehouse_inv_def shared_def)
  have row: "publish_row_fits r" "publish_row_ok r"
    using table(1) map_of_SomeD [OF assms(4)] by (auto simp: publish_inv_def list_all_iff)
  let ?w = "w1\<lparr>wh_schedule := [], wh_heartbeat := None\<rparr>"
  have "unsettled (holds_row ?k r) ?pub (shared ?w) \<and> publish_inv (fst (shared ?w))"
    using table assms(4) by (simp add: unsettled_def holds_row_def shared_def publish_inv_def)
  then obtain ids w2 where w2: "recover_incomplete_publishes en now None ?w = (Inr ids, w2)"
      "settled ?k (row_in (settled_status r ?pub) ?k) ?pub (shared w2)"
    by (rule calmlyD [OF calmly_recover [OF row assms(5)], rotated]) simp_all
  have own: "if own_file_published r ?pub then \<exists>f. ?pub = Some f \<and> describes en r f else ?pub = ?old"
    using fate_own_file [OF fate inv, of r] assms(4,5) unfolding shared_def fst_conv snd_conv stale_def by blast
  obtain r2 where "map_of (wh_runs w2) ?k = Some r2" "pr_status r2 = settled_status r ?pub"
    using w2(2) by (auto simp: settled_def row_in_def shared_def)
  with w2 own show ?thesis
    by (intro exI [of _ ids] exI [of _ w2] exI [of _ r2]) (auto simp: settled_def shared_def settled_status_def split: if_splits)
qed

text \<open>Killed between the swap and \<open>mark_published\<close>.\<close>

definition demo_stopped :: "int wh_world" where
  "demo_stopped = snd (publish_warehouse demo_engine demo_run (demo_warehouse (replicate 19 (demo_turn None) @ [demo_turn (Some interrupt)])))"

lemma demo_stopped_row:
  "case map_of (wh_runs demo_stopped) 0 of None \<Rightarrow> False
    | Some r \<Rightarrow> pr_status r = PUBLISHING \<and> stale (1000000000 - PUBLISH_LEASE) r"
  by code_simp

theorem killed_run_is_settled_witness:
  "let r = the (map_of (wh_runs demo_stopped) (pub_publish_run_id demo_run)) in
   \<exists>ids w2 r2. recover_incomplete_publishes demo_engine 1000000000 None (demo_stopped\<lparr>wh_schedule := [], wh_heartbeat := None\<rparr>) = (Inr ids, w2) \<and>
    map_of (wh_runs w2) (pub_publish_run_id demo_run) = Some r2 \<and> file_at (wh_disk w2) (BuildFile (pub_publish_run_id demo_run)) = None \<and>
    file_at (wh_disk w2) PublishedFile = file_at (wh_disk demo_stopped) PublishedFile \<and>
    (pr_status r2 = PUBLISHED \<and> (\<exists>f. file_at (wh_disk demo_stopped) PublishedFile = Some f \<and> describes demo_engine r f) \<or>
     pr_status r2 = PUBLISH_FAILED \<and> file_at (wh_disk demo_stopped) PublishedFile =
       file_at (wh_disk (demo_warehouse (replicate 19 (demo_turn None) @ [demo_turn (Some interrupt)]))) PublishedFile)"
  unfolding Let_def
proof (rule killed_run_is_settled)
  have k: "pub_publish_run_id demo_run = 0" by (simp add: demo_run_def)
  let ?ts = "replicate 19 (demo_turn None) @ [demo_turn (Some interrupt)]"
  show "publish_setting True demo_engine (pub_publish_run_id demo_run) (demo_warehouse ?ts)" by (rule demo_setting) auto
  show "map_of (wh_runs (demo_warehouse ?ts)) (pub_publish_run_id demo_run) = None" by (simp add: demo_warehouse_def)
  show "publish_warehouse demo_engine demo_run (demo_warehouse ?ts) = (fst (publish_warehouse demo_engine demo_run (demo_warehouse ?ts)), demo_stopped)"
    by (simp add: demo_stopped_def)
  show "map_of (wh_runs demo_stopped) (pub_publish_run_id demo_run) = Some (the (map_of (wh_runs demo_stopped) (pub_publish_run_id demo_run)))"
    "stale (1000000000 - PUBLISH_LEASE) (the (map_of (wh_runs demo_stopped) (pub_publish_run_id demo_run)))"
    using demo_stopped_row unfolding k by (auto split: option.splits)
qed

section \<open>Failed builds\<close>


definition demo_failing :: "int wh_world" where
  "demo_failing = (demo_warehouse [])\<lparr>wh_runs := [(0, new_publish_row demo_run None 1000)], wh_disk := \<lparr>dk_files =
     [(PublishedFile, \<lparr>sf_identity = \<lparr>fi_inode = 1, fi_mtime_ns = 5\<rparr>, sf_content = 3\<rparr>),
      (BuildFile 0, \<lparr>sf_identity = \<lparr>fi_inode = 2, fi_mtime_ns = 6\<rparr>, sf_content = - 4\<rparr>)], dk_wals = [], dk_targets = []\<rparr>\<rparr>"


text \<open>
  Recovery looks at the published file before it closes the row. When the owner is still alive and
  swaps its build in between, the row ends as FAILED although it describes the published file.
\<close>

definition demo_overtaken :: "int wh_world" where
  "demo_overtaken = (demo_warehouse [demo_turn None, demo_turn None,
       (demo_turn None)\<lparr>wt_others := (\<lambda>(t, d). (t, snd (os_replace (BuildFile 0) PublishedFile d)))\<rparr>])\<lparr>
     wh_runs := [(0, (new_publish_row demo_run None 1000)\<lparr>pr_status := PUBLISHING,
       pr_mart_hashes := Some [(''facts.fct_order'', ''{\"n\":3}'' @ [CHR 0x0A])], pr_mart_row_counts := Some [(''facts.fct_order'', 1)],
       pr_published_inode := Some 2, pr_published_mtime_ns := Some 6\<rparr>)],
     wh_disk := \<lparr>dk_files = [(PublishedFile, \<lparr>sf_identity = \<lparr>fi_inode = 1, fi_mtime_ns = 5\<rparr>, sf_content = 1\<rparr>),
       (BuildFile 0, \<lparr>sf_identity = \<lparr>fi_inode = 2, fi_mtime_ns = 6\<rparr>, sf_content = 3\<rparr>)], dk_wals = [], dk_targets = []\<rparr>\<rparr>"

lemma recovery_overtaken:
  "case snd (recover_incomplete_publishes demo_engine 1000000000 None demo_overtaken) of w \<Rightarrow>
     (case (map_of (wh_runs w) 0, file_at (wh_disk w) PublishedFile) of
        (Some r, Some f) \<Rightarrow> pr_status r = PUBLISH_FAILED \<and> describes demo_engine r f | _ \<Rightarrow> False)"
  by code_simp

section \<open>Mart hashes\<close>

text \<open>
  C34: The hash and row count of a mart do not depend on how its rows are fetched: for every positive
  batch size the loop ends and feeds the digest exactly the canonical lines of all rows in order, and
  it raises exactly when one of the rows has no canonical form.
\<close>

theorem mart_hash_independent_of_batches:
  assumes "0 < batch_size"
  shows "hash_cursor_rows sha batch_size (names, rows) = (case row_lines names rows of
     Inl e \<Rightarrow> Inl e | Inr text \<Rightarrow> Inr (sha text, length rows))"
  by (cases "row_lines names rows") (simp_all add: hash_cursor_rows_lines [OF assms])

lemma demo_lines: "row_lines [''n''] [[MInt 1], [MInt 2], [MNone]] =
    Inr (concat (map (\<lambda>t. t @ [CHR 0x0A]) [''{\"n\":1}'', ''{\"n\":2}'', ''{\"n\":null}'']))"
  by code_simp

theorem mart_hash_independent_of_batches_witness:
  "hash_cursor_rows (\<lambda>s. s) 2 ([''n''], [[MInt 1], [MInt 2], [MNone]]) =
     Inr (concat (map (\<lambda>t. t @ [CHR 0x0A]) [''{\"n\":1}'', ''{\"n\":2}'', ''{\"n\":null}'']), length [[MInt 1], [MInt 2], [MNone]])"
  by (subst mart_hash_independent_of_batches) (simp_all only: demo_lines sum.case zero_less_numeral)

end
