(* ===== verification/Serving.thy ===== *)
theory Serving
  imports Warehouse
begin

text \<open>
  The serving file (src/serving/export.py): the export copies the marts of the published warehouse
  into a file of its own and swaps it in while the published file is the one its caller asked for.
  Two exports into one directory at the same time are not modelled.
\<close>

section \<open>Files and contents\<close>

text \<open>
  \<open>ServingPaths\<close>: the serving file, one build and one version per export. A DuckDB file holds schemas,
  relations with their rows, and in an export one row per manifest.
\<close>

datatype serving_path = ServingFile | ServingBuild uuid | ExportFile uuid

definition SERVING_FILE_NAME :: string where "SERVING_FILE_NAME = ''mart.duckdb''"
definition SERVING_SCHEMAS :: "string list" where "SERVING_SCHEMAS = [''dimensions'', ''facts'', ''metrics'']"
definition STORAGE_VERSION :: string where "STORAGE_VERSION = ''v1.0.0''"

definition serving_path_string :: "string \<Rightarrow> serving_path \<Rightarrow> string" where
  "serving_path_string root p = (case p of
      ServingFile \<Rightarrow> root @ ''/'' @ SERVING_FILE_NAME
    | ServingBuild k \<Rightarrow> root @ ''/build/'' @ uuid_str k @ ''.duckdb''
    | ExportFile k \<Rightarrow> root @ ''/exports/'' @ uuid_str k @ ''.duckdb'')"

record serving_manifest =
  sm_export_id :: uuid
  sm_publish_run_id :: uuid
  sm_exported_at :: time
  sm_storage_version :: string
  sm_mart_result_hashes :: "(string \<times> string) list"
  sm_row_counts :: "(string \<times> int) list"

type_synonym 'r relations = "(string \<times> string, 'r list) table"

record 'r serving_content =
  sc_schemas :: "string list"
  sc_relations :: "'r relations"
  sc_manifest :: "serving_manifest list option"

record 'r serving_file =
  vf_inode :: int
  vf_mtime_ns :: int
  vf_content :: "'r serving_content"

record 'r serving_disk =
  sd_files :: "(serving_path, 'r serving_file) table"
  sd_wals :: "serving_path list"

definition serving_at :: "'r serving_disk \<Rightarrow> serving_path \<Rightarrow> 'r serving_file option" where
  "serving_at d p = map_of (sd_files d) p"

definition remove_serving :: "serving_path \<Rightarrow> 'r serving_disk \<Rightarrow> 'r serving_disk" where
  "remove_serving p d = d\<lparr>sd_files := filter (\<lambda>(q, _). q \<noteq> p) (sd_files d)\<rparr>"

definition place_serving :: "serving_path \<Rightarrow> 'r serving_file \<Rightarrow> 'r serving_disk \<Rightarrow> 'r serving_disk" where
  "place_serving p f d = d\<lparr>sd_files := (p, f) # sd_files (remove_serving p d)\<rparr>"

definition drop_serving_wal :: "serving_path \<Rightarrow> 'r serving_disk \<Rightarrow> 'r serving_disk" where
  "drop_serving_wal p d = d\<lparr>sd_wals := removeAll p (sd_wals d)\<rparr>"

section \<open>The world of an export\<close>

text \<open>
  A process that exports meets the publisher at each contact: it may have put another file in the
  published place. A turn may also interrupt the export or kill it.
\<close>

record 'r serving_turn =
  vt_published :: "'r relations stored_file option \<Rightarrow> 'r relations stored_file option"
  vt_clock :: time
  vt_fault :: "exn option"

record 'r serving_world =
  vw_published :: "'r relations stored_file option"
  vw_disk :: "'r serving_disk"
  vw_clock :: time
  vw_schedule :: "'r serving_turn list"

definition serving_contact :: "('r serving_world, unit) op" where
  "serving_contact = (\<lambda>w. case vw_schedule w of
      [] \<Rightarrow> (Inr (), w)
    | t # ts \<Rightarrow> (case vt_fault t of None \<Rightarrow> Inr () | Some e \<Rightarrow> Inl e,
        w\<lparr>vw_published := vt_published t (vw_published w), vw_clock := vt_clock t, vw_schedule := ts\<rparr>))"

definition serving_step :: "('r serving_world \<Rightarrow> 'a result \<times> 'r serving_disk) \<Rightarrow> ('r serving_world, 'a) op" where
  "serving_step m = bindM serving_contact (\<lambda>_ w. case m w of (x, d) \<Rightarrow> (x, w\<lparr>vw_disk := d\<rparr>))"

definition serving_missing :: "serving_path \<Rightarrow> exn" where
  "serving_missing p = Exn FileNotFoundError (serving_path_string [] p)"

text \<open>Work of DuckDB on the build: the contents it leaves, in a file that keeps its inode.\<close>

definition rewrite_build :: "(int list \<Rightarrow> int) \<Rightarrow> uuid \<Rightarrow> ('r serving_content option \<Rightarrow> 'a result \<times> 'r serving_content) \<Rightarrow> ('r serving_world, 'a) op" where
  "rewrite_build fresh k work = serving_step (\<lambda>w.
     (let d = vw_disk w; old = serving_at d (ServingBuild k) in
      case work (map_option vf_content old) of
        (x, c) \<Rightarrow> (x, place_serving (ServingBuild k) \<lparr>vf_inode = (case old of Some f \<Rightarrow> vf_inode f
             | None \<Rightarrow> fresh (map (vf_inode \<circ> snd) (sd_files d))), vf_mtime_ns = vw_clock w * 1000, vf_content = c\<rparr> d)))"

section \<open>The export\<close>

definition require_identity :: "file_identity \<Rightarrow> uuid \<Rightarrow> ('r serving_world, unit) op" where
  "require_identity expected rid = serving_step (\<lambda>w. (case vw_published w of
      None \<Rightarrow> Inl (missing_file PublishedFile)
    | Some f \<Rightarrow> if sf_identity f = expected then Inr ()
        else Inl (Exn ValueError (''Published warehouse identity does not match publish run '' @ uuid_str rid)), vw_disk w))"

definition relation_name :: "string \<times> string \<Rightarrow> string" where
  "relation_name r = fst r @ ''.'' @ snd r"

text \<open>\<open>ATTACH\<close> creates the build and holds the published file open: a later swap does not change what is read.\<close>

definition attach_published :: "(int list \<Rightarrow> int) \<Rightarrow> uuid \<Rightarrow> ('r serving_world, 'r relations) op" where
  "attach_published fresh k =
     bindM (rewrite_build fresh k (\<lambda>_. (Inr (), \<lparr>sc_schemas = [], sc_relations = [], sc_manifest = None\<rparr>))) (\<lambda>_.
     serving_step (\<lambda>w. (case vw_published w of
         None \<Rightarrow> Inl (Exn (OtherError ''IOException'') (path_string [] PublishedFile))
       | Some f \<Rightarrow> Inr (sf_content f), vw_disk w)))"

definition empty_content :: "'r serving_content" where
  "empty_content = \<lparr>sc_schemas = [], sc_relations = [], sc_manifest = None\<rparr>"

definition on_content :: "(int list \<Rightarrow> int) \<Rightarrow> uuid \<Rightarrow> ('r serving_content \<Rightarrow> 'r serving_content) \<Rightarrow> ('r serving_world, unit) op" where
  "on_content fresh k f = rewrite_build fresh k (\<lambda>old. (Inr (), f (case old of None \<Rightarrow> empty_content | Some c \<Rightarrow> c)))"

definition copy_relation :: "(int list \<Rightarrow> int) \<Rightarrow> uuid \<Rightarrow> 'r relations \<Rightarrow> string \<times> string \<Rightarrow> ('r serving_world, string \<times> int) op" where
  "copy_relation fresh k published r = (let rows = (case map_of published r of None \<Rightarrow> [] | Some rows \<Rightarrow> rows) in
     bindM (on_content fresh k (\<lambda>c. c\<lparr>sc_relations := sc_relations c @ [(r, rows)]\<rparr>)) (\<lambda>_.
     bindM serving_contact (\<lambda>_.
     returnM (relation_name r, int (length rows)))))"

text \<open>
  The tables and views of a schema by name; the contacts after them and after a copy stand for the
  statements that only read (\<open>SELECT count(*)\<close>, \<open>DETACH\<close>):
  \<open>SELECT table_name FROM information_schema.tables WHERE table_schema = ? ORDER BY table_name\<close>.\<close>

definition tables_of :: "string \<Rightarrow> 'r relations \<Rightarrow> (string \<times> string) list" where
  "tables_of s published = sort_key snd (filter (\<lambda>r. fst r = s) (map fst published))"

definition copy_schema :: "(int list \<Rightarrow> int) \<Rightarrow> uuid \<Rightarrow> 'r relations \<Rightarrow> string \<Rightarrow> ('r serving_world, (string \<times> int) list) op" where
  "copy_schema fresh k published s =
     bindM (on_content fresh k (\<lambda>c. c\<lparr>sc_schemas := sc_schemas c @ [s]\<rparr>)) (\<lambda>_.
     bindM serving_contact (\<lambda>_.
     mapM (copy_relation fresh k published) (tables_of s published)))"

definition copy_mart_objects :: "(int list \<Rightarrow> int) \<Rightarrow> uuid \<Rightarrow> ('r serving_world, (string \<times> int) list) op" where
  "copy_mart_objects fresh k =
     bindM (attach_published fresh k) (\<lambda>published.
     bindM (mapM (copy_schema fresh k published) SERVING_SCHEMAS) (\<lambda>counts.
     bindM serving_contact (\<lambda>_.
     bindM serving_contact (\<lambda>_.
     returnM (concat counts)))))"

definition record_manifest :: "(int list \<Rightarrow> int) \<Rightarrow> uuid \<Rightarrow> serving_manifest \<Rightarrow> ('r serving_world, unit) op" where
  "record_manifest fresh k m =
     bindM (on_content fresh k (\<lambda>c. c\<lparr>sc_manifest := Some []\<rparr>)) (\<lambda>_.
     on_content fresh k (\<lambda>c. c\<lparr>sc_manifest := map_option (\<lambda>ms. ms @ [m]) (sc_manifest c)\<rparr>))"

text \<open>Tables of the schema \<open>main\<close> other than the manifest: relations of a schema of that name.\<close>

definition CHECKED_SCHEMAS :: "string list" where
  "CHECKED_SCHEMAS = SERVING_SCHEMAS @ [''control'', ''staging'', ''intermediate'']"

definition main_tables :: "'r serving_content \<Rightarrow> string list" where
  "main_tables c = sort ((if sc_manifest c = None then [] else [''serving_manifest'']) @
     map snd (filter (\<lambda>r. fst r = ''main'') (map fst (sc_relations c))))"

definition validate_serving :: "'r serving_content \<Rightarrow> unit result" where
  "validate_serving c =
     seq (require (set (filter (\<lambda>s. s \<in> set CHECKED_SCHEMAS) (sc_schemas c)) = set SERVING_SCHEMAS) ''Serving schema boundary is invalid'')
         (require (main_tables c = [''serving_manifest'']) ''Serving main schema is invalid'')"

definition validate_serving_file :: "uuid \<Rightarrow> ('r serving_world, unit) op" where
  "validate_serving_file k = serving_step (\<lambda>w. (case serving_at (vw_disk w) (ServingBuild k) of
      None \<Rightarrow> Inl (serving_missing (ServingBuild k)) | Some f \<Rightarrow> validate_serving (vf_content f), vw_disk w))"

text \<open>\<open>checkpoint\<close> writes the contents out; whether a WAL stays behind is DuckDB's.\<close>

definition checkpoint_build :: "(int list \<Rightarrow> int) \<Rightarrow> uuid \<Rightarrow> bool \<Rightarrow> ('r serving_world, unit) op" where
  "checkpoint_build fresh k wal =
     bindM (on_content fresh k (\<lambda>c. c)) (\<lambda>_.
     bindM (serving_step (\<lambda>w. (Inr (), if wal then (vw_disk w)\<lparr>sd_wals := ServingBuild k # sd_wals (vw_disk w)\<rparr> else vw_disk w))) (\<lambda>_.
     bindM (serving_step (\<lambda>w. (Inr (ServingBuild k \<in> set (sd_wals (vw_disk w))), vw_disk w))) (\<lambda>left.
     assertM (\<not> left) ValueError ''Serving build has a WAL'')))"

definition os_link :: "serving_path \<Rightarrow> serving_path \<Rightarrow> 'r serving_disk \<Rightarrow> unit result \<times> 'r serving_disk" where
  "os_link p q d = (case serving_at d p of
      None \<Rightarrow> (Inl (serving_missing p), d)
    | Some f \<Rightarrow> if serving_at d q = None then (Inr (), place_serving q f d)
        else (Inl (Exn FileExistsError (serving_path_string [] q)), d))"

definition replace_serving :: "serving_path \<Rightarrow> serving_path \<Rightarrow> 'r serving_disk \<Rightarrow> unit result \<times> 'r serving_disk" where
  "replace_serving p q d = (case serving_at d p of
      None \<Rightarrow> (Inl (serving_missing p), d)
    | Some f \<Rightarrow> (Inr (), place_serving q f (remove_serving p d)))"

definition unlink_serving :: "serving_path \<Rightarrow> ('r serving_world, unit) op" where
  "unlink_serving p = serving_step (\<lambda>w. (Inr (), remove_serving p (vw_disk w)))"

definition discard_build :: "uuid \<Rightarrow> ('r serving_world, unit) op" where
  "discard_build k =
     bindM (unlink_serving (ServingBuild k)) (\<lambda>_. serving_step (\<lambda>w. (Inr (), drop_serving_wal (ServingBuild k) (vw_disk w))))"

record serving_result =
  vr_export_id :: uuid
  vr_row_counts :: "(string \<times> int) list"

record export_request =
  er_publish_run_id :: uuid
  er_mart_hashes :: "(string \<times> string) list"
  er_published_identity :: file_identity
  er_now :: time

text \<open>Everything up to the choice of the versioned path; the two directories are made on the way.\<close>

definition build_export :: "(int list \<Rightarrow> int) \<Rightarrow> bool \<Rightarrow> uuid \<Rightarrow> export_request \<Rightarrow> ('r serving_world, (string \<times> int) list) op" where
  "build_export fresh wal k req =
     bindM (copy_mart_objects fresh k) (\<lambda>counts.
     bindM (record_manifest fresh k \<lparr>sm_export_id = k, sm_publish_run_id = er_publish_run_id req, sm_exported_at = er_now req,
        sm_storage_version = STORAGE_VERSION, sm_mart_result_hashes = er_mart_hashes req, sm_row_counts = counts\<rparr>) (\<lambda>_.
     bindM (validate_serving_file k) (\<lambda>_.
     bindM (checkpoint_build fresh k wal) (\<lambda>_.
     bindM serving_contact (\<lambda>_.
     returnM counts)))))"

definition swap_export :: "uuid \<Rightarrow> export_request \<Rightarrow> ('r serving_world, unit) op" where
  "swap_export k req =
     bindM (require_identity (er_published_identity req) (er_publish_run_id req)) (\<lambda>_.
     bindM (serving_step (\<lambda>w. os_link (ServingBuild k) (ExportFile k) (vw_disk w))) (\<lambda>_.
     bindM (serving_step (\<lambda>w. replace_serving (ServingBuild k) ServingFile (vw_disk w))) (\<lambda>_.
     bindM serving_contact (\<lambda>_. serving_contact))))"

definition export_serving_mart :: "(int list \<Rightarrow> int) \<Rightarrow> bool \<Rightarrow> uuid \<Rightarrow> export_request \<Rightarrow> ('r serving_world, serving_result) op" where
  "export_serving_mart fresh wal k req =
     bindM (require_identity (er_published_identity req) (er_publish_run_id req)) (\<lambda>_.
     bindM serving_contact (\<lambda>_.
     bindM (exceptM (build_export fresh wal k req) (\<lambda>e. if py_exception e then discard_build k else returnM ())) (\<lambda>counts.
     bindM (exceptM (swap_export k req)
        (\<lambda>e. if py_exception e then bindM (discard_build k) (\<lambda>_. unlink_serving (ExportFile k)) else returnM ())) (\<lambda>_.
     returnM \<lparr>vr_export_id = k, vr_row_counts = counts\<rparr>))))"

end
