(* ===== verification/Metabase.thy ===== *)
theory Metabase
  imports Serving Publish Validation
begin

text \<open>
  Metabase and the serving file: pointing its database to a new export and removing old exports
  (src/serving/metabase_repoint.py), the settings of the connection (metabase_settings.py), the
  comparison with the latest publication (freshness.py) and the two commands (cli.py). Metabase is a
  state of its own that answers requests as a parameter says; the messages printed are not modelled.
\<close>

section \<open>Settings\<close>

definition DEFAULT_HOST_METABASE_URL :: string where "DEFAULT_HOST_METABASE_URL = ''http://localhost:3000''"

definition environment_value :: "(string \<times> string) list \<Rightarrow> string \<Rightarrow> string" where
  "environment_value env name = strip (case map_of env name of None \<Rightarrow> [] | Some v \<Rightarrow> v)"

text \<open>\<open>line.partition("=")[2]\<close>; the settings file is the list of its lines, when there is one.\<close>

definition after_equals :: "string \<Rightarrow> string" where
  "after_equals line = drop 1 (dropWhile (\<lambda>c. c \<noteq> CHR ''='') line)"

definition metabase_setting :: "(string \<times> string) list \<Rightarrow> string list option \<Rightarrow> string \<Rightarrow> string" where
  "metabase_setting env dotenv name =
     (if environment_value env name \<noteq> [] then environment_value env name
      else case dotenv of
          None \<Rightarrow> []
        | Some ls \<Rightarrow> (case List.find (starts_with (name @ ''='')) ls of None \<Rightarrow> [] | Some l \<Rightarrow> strip (after_equals l)))"

definition require_metabase_setting :: "(string \<times> string) list \<Rightarrow> string list option \<Rightarrow> string \<Rightarrow> string result" where
  "require_metabase_setting env dotenv name =
     (let v = metabase_setting env dotenv name in
      if v = [] then Inl (Exn RuntimeError (name @ '' is required'')) else Inr v)"

text \<open>\<open>s.rstrip("/")\<close>.\<close>

definition without_slashes :: "string \<Rightarrow> string" where
  "without_slashes s = rev (dropWhile (\<lambda>c. c = CHR ''/'') (rev s))"

definition host_metabase_url :: "(string \<times> string) list \<Rightarrow> string" where
  "host_metabase_url env = (let u = without_slashes (environment_value env ''METABASE_URL'') in
     if u = [] then DEFAULT_HOST_METABASE_URL else u)"

section \<open>Requests\<close>

text \<open>
  A request names its method, its address, the key in its header and its body. What \<open>urlopen\<close> and
  \<open>json.load\<close> make of the answer, a JSON value or an exception, is Metabase's: \<open>api\<close>. The log
  keeps the requests and their outcomes in order.
\<close>

datatype payload = NoPayload | DetailsPayload "(json \<times> json) list" | QueryPayload int string

record metabase_request =
  mr_method :: string
  mr_url :: string
  mr_key :: string
  mr_payload :: payload

record 'm metabase =
  mb_server :: 'm
  mb_log :: "(metabase_request \<times> json result) list"

type_synonym 'm metabase_api = "metabase_request \<Rightarrow> 'm \<Rightarrow> json result \<times> 'm"

definition request_json :: "'m metabase_api \<Rightarrow> string \<Rightarrow> string \<Rightarrow> string \<Rightarrow> payload \<Rightarrow> ('m metabase, json) op" where
  "request_json api url key verb body = (\<lambda>w.
     (let r = \<lparr>mr_method = verb, mr_url = url, mr_key = key, mr_payload = body\<rparr> in
      case api r (mb_server w) of (x, m) \<Rightarrow> (x, w\<lparr>mb_server := m, mb_log := mb_log w @ [(r, x)]\<rparr>)))"

text \<open>\<open>_API_ERRORS\<close>: the operating system's errors, those of \<open>urllib\<close> and \<open>http\<close>, and malformed data.\<close>

definition OS_ERRORS :: "error_class set" where
  "OS_ERRORS = {FileExistsError, FileNotFoundError, ConnectionError, TimeoutError,
     OtherError ''OSError'', OtherError ''URLError'', OtherError ''HTTPError''}"

definition API_ERRORS :: "error_class set" where
  "API_ERRORS = OS_ERRORS \<union> {OtherError ''HTTPException'', ValueError, TypeError, OtherError ''KeyError''}"

definition api_error :: "exn \<Rightarrow> bool" where
  "api_error e \<longleftrightarrow> exn_class e \<in> API_ERRORS"

text \<open>\<open>try: ... except _API_ERRORS: return value\<close>, and what comes after it.\<close>

definition tryM :: "('s, 'a) op \<Rightarrow> ('s, 'b) op \<Rightarrow> ('a \<Rightarrow> ('s, 'b) op) \<Rightarrow> ('s, 'b) op" where
  "tryM m handler next_step = (\<lambda>w. case m w of
      (Inl e, w') \<Rightarrow> if api_error e then handler w' else (Inl e, w')
    | (Inr v, w') \<Rightarrow> next_step v w')"

text \<open>\<open>value[name]\<close> of a JSON value.\<close>

definition json_item :: "string \<Rightarrow> json \<Rightarrow> json result" where
  "json_item name j = (case j of
      JObj ms \<Rightarrow> (case map_of ms name of None \<Rightarrow> Inl (Exn (OtherError ''KeyError'') name) | Some v \<Rightarrow> Inr v)
    | _ \<Rightarrow> Inl (Exn TypeError ''indices must be integers or slices, not str''))"

text \<open>\<open>dict(value)\<close>: an object as it is, anything else as an iterable of pairs whose first half is hashable.\<close>

definition items_of :: "json \<Rightarrow> json list result" where
  "items_of j = (case j of
      JObj ms \<Rightarrow> Inr (map (JStr \<circ> fst) ms)
    | JList xs \<Rightarrow> Inr xs
    | JStr s \<Rightarrow> Inr (map (\<lambda>c. JStr [c]) s)
    | _ \<Rightarrow> Inl (Exn TypeError ''object is not iterable''))"

definition hashable :: "json \<Rightarrow> bool" where
  "hashable j = (case j of JList _ \<Rightarrow> False | JObj _ \<Rightarrow> False | _ \<Rightarrow> True)"

definition pair_of :: "json \<Rightarrow> (json \<times> json) result" where
  "pair_of j = (case items_of j of
      Inl e \<Rightarrow> Inl e
    | Inr [k, v] \<Rightarrow> if hashable k then Inr (k, v) else Inl (Exn TypeError ''unhashable type'')
    | Inr _ \<Rightarrow> Inl (Exn ValueError ''dictionary update sequence element has the wrong length''))"

text \<open>\<open>True == 1\<close>: equal keys keep the first spelling and take the last value.\<close>

definition dict_key :: "json \<Rightarrow> json" where
  "dict_key k = (case k of JBool b \<Rightarrow> JInt (if b then 1 else 0) | _ \<Rightarrow> k)"

definition dict_put :: "json \<Rightarrow> json \<Rightarrow> (json \<times> json) list \<Rightarrow> (json \<times> json) list" where
  "dict_put k v d = (if dict_key k \<in> set (map (dict_key \<circ> fst) d)
     then map (\<lambda>(k', v'). (k', if dict_key k' = dict_key k then v else v')) d else d @ [(k, v)])"

fun put_pairs :: "(json \<times> json) list \<Rightarrow> json list \<Rightarrow> (json \<times> json) list result" where
  "put_pairs d [] = Inr d"
| "put_pairs d (j # js) = (case pair_of j of Inl e \<Rightarrow> Inl e | Inr (k, v) \<Rightarrow> put_pairs (dict_put k v d) js)"

definition dict_of :: "json \<Rightarrow> (json \<times> json) list result" where
  "dict_of j = (case j of
      JObj ms \<Rightarrow> Inr (map (\<lambda>(k, v). (JStr k, v)) ms)
    | _ \<Rightarrow> (case items_of j of Inl e \<Rightarrow> Inl e | Inr js \<Rightarrow> put_pairs [] js))"

section \<open>The manifest Metabase reads\<close>

definition LIVE_MANIFEST_QUERY :: string where
  "LIVE_MANIFEST_QUERY = ''SELECT CAST(export_id AS VARCHAR), CAST(publish_run_id AS VARCHAR) FROM serving_manifest''"

definition manifest_rows :: "json \<Rightarrow> (json \<times> json) result" where
  "manifest_rows result = (case result of
      JObj ms \<Rightarrow>
        if map_of ms ''status'' = Some (JStr ''failed'') then Inl (Exn ValueError ''Metabase serving manifest query failed'')
        else (case json_item ''data'' result of
            Inl e \<Rightarrow> Inl e
          | Inr d \<Rightarrow> (case json_item ''rows'' d of
              Inl e \<Rightarrow> Inl e
            | Inr (JList [JList [k, p]]) \<Rightarrow> Inr (k, p)
            | Inr _ \<Rightarrow> Inl (Exn ValueError ''Serving manifest must have exactly one row'')))
    | _ \<Rightarrow> Inl (Exn (OtherError ''AttributeError'') ''object has no attribute get''))"

definition read_live_serving_manifest :: "'m metabase_api \<Rightarrow> string \<Rightarrow> string \<Rightarrow> int \<Rightarrow> ('m metabase, json \<times> json) op" where
  "read_live_serving_manifest api url key db =
     bindM (request_json api (without_slashes url @ ''/api/dataset'') key ''POST'' (QueryPayload db LIVE_MANIFEST_QUERY)) (\<lambda>result.
     liftM (manifest_rows result))"

section \<open>Pointing Metabase to an export\<close>

definition database_url :: "string \<Rightarrow> int \<Rightarrow> string" where
  "database_url base db = base @ ''/api/database/'' @ show_int db"

definition export_file_setting :: "string \<Rightarrow> json" where
  "export_file_setting export_id = JStr (''/serving/exports/'' @ export_id @ ''.duckdb'')"

definition find_database :: "'m metabase_api \<Rightarrow> string \<Rightarrow> string \<Rightarrow> string \<Rightarrow> ('m metabase, int \<times> json) op" where
  "find_database api base key database_id =
     (case py_int database_id of
        None \<Rightarrow> raiseM ValueError ''invalid literal for int() with base 10''
      | Some db \<Rightarrow> bindM (request_json api (database_url base db) key ''GET'' NoPayload) (\<lambda>database. returnM (db, database)))"

definition put_export :: "'m metabase_api \<Rightarrow> string \<Rightarrow> string \<Rightarrow> string \<Rightarrow> int \<Rightarrow> json \<Rightarrow> ('m metabase, bool) op" where
  "put_export api base key export_id db database =
     bindM (liftM (case json_item ''details'' database of Inl e \<Rightarrow> Inl e | Inr d \<Rightarrow> dict_of d)) (\<lambda>details.
     bindM (request_json api (database_url base db) key ''PUT''
        (DetailsPayload (dict_put (JStr ''database_file'') (export_file_setting export_id) details))) (\<lambda>_.
     bindM (read_live_serving_manifest api base key db) (\<lambda>(live, _).
     returnM (live = JStr export_id))))"

definition repoint_metabase_serving :: "'m metabase_api \<Rightarrow> string \<Rightarrow> string \<Rightarrow> string \<Rightarrow> string \<Rightarrow> ('m metabase, string) op" where
  "repoint_metabase_serving api export_id url key database_id =
     (if url = [] \<or> key = [] \<or> database_id = [] then returnM ''SKIPPED''
      else let base = without_slashes url in
        tryM (find_database api base key database_id) (returnM ''FAILED'') (\<lambda>(db, database).
        tryM (put_export api base key export_id db database) (returnM ''FAILED'') (\<lambda>live.
        if \<not> live then returnM ''FAILED''
        else tryM (request_json api (database_url base db @ ''/sync_schema'') key ''POST'' NoPayload)
               (returnM ''SUCCESS'') (\<lambda>_. returnM ''SUCCESS''))))"

section \<open>Old exports\<close>

definition SERVING_EXPORT_RETENTION :: nat where "SERVING_EXPORT_RETENTION = 3"

definition is_export :: "serving_path \<Rightarrow> bool" where
  "is_export p = (case p of ExportFile _ \<Rightarrow> True | _ \<Rightarrow> False)"

definition export_versions :: "'r serving_disk \<Rightarrow> serving_path list" where
  "export_versions d = map fst (sort_key (\<lambda>(_, f). - vf_mtime_ns f) (filter (\<lambda>(p, _). is_export p) (sd_files d)))"

definition unlink_version :: "serving_path \<Rightarrow> ('r serving_world, unit) op" where
  "unlink_version p = serving_step (\<lambda>w. let d = vw_disk w in
     if serving_at d p = None then (Inl (serving_missing p), d) else (Inr (), remove_serving p d))"

definition prune_serving_exports :: "nat \<Rightarrow> ('r serving_world, unit) op" where
  "prune_serving_exports keep =
     bindM (serving_step (\<lambda>w. (Inr (export_versions (vw_disk w)), vw_disk w))) (\<lambda>versions.
     bindM (iterM unlink_version (drop keep versions)) (\<lambda>_.
     serving_contact))"

text \<open>A process that talks to Metabase and works on the serving files.\<close>

record ('m, 'r) serving_session =
  ss_metabase :: "'m metabase"
  ss_serving :: "'r serving_world"

definition on_metabase :: "('m metabase, 'a) op \<Rightarrow> (('m, 'r) serving_session, 'a) op" where
  "on_metabase m = (\<lambda>s. case m (ss_metabase s) of (x, w) \<Rightarrow> (x, s\<lparr>ss_metabase := w\<rparr>))"

definition on_serving :: "('r serving_world, 'a) op \<Rightarrow> (('m, 'r) serving_session, 'a) op" where
  "on_serving m = (\<lambda>s. case m (ss_serving s) of (x, w) \<Rightarrow> (x, s\<lparr>ss_serving := w\<rparr>))"

definition repoint_and_prune_serving :: "'m metabase_api \<Rightarrow> string \<Rightarrow> string \<Rightarrow> string \<Rightarrow> string \<Rightarrow> (('m, 'r) serving_session, string) op" where
  "repoint_and_prune_serving api export_id url key database_id =
     bindM (on_metabase (repoint_metabase_serving api export_id url key database_id)) (\<lambda>status.
     bindM (if status \<in> {''SUCCESS'', ''SKIPPED''} then on_serving (prune_serving_exports SERVING_EXPORT_RETENTION) else returnM ()) (\<lambda>_.
     returnM status))"

definition metabase_repoint_summary_status :: "'a option \<Rightarrow> string option \<Rightarrow> string" where
  "metabase_repoint_summary_status serving_export status =
     (case serving_export of
        None \<Rightarrow> ''NOT_REQUESTED''
      | Some _ \<Rightarrow> (case status of None \<Rightarrow> ''FAILED'' | Some s \<Rightarrow> if s = [] then ''FAILED'' else s))"

section \<open>Freshness\<close>

text \<open>The two identifiers are what Metabase answers, of whatever type.\<close>

record serving_freshness =
  fr_database_id :: int
  fr_live_export_id :: json
  fr_live_publish_run_id :: json
  fr_latest_publish_run_id :: "string option"

definition fresh_serving :: "serving_freshness \<Rightarrow> bool" where
  "fresh_serving f \<longleftrightarrow> fr_latest_publish_run_id f \<noteq> None \<and>
     fr_live_publish_run_id f = JStr (the (fr_latest_publish_run_id f))"

text \<open>\<open>latest\<close> is the outcome of \<open>get_latest_publish_run\<close>, a failure of the database included.\<close>

definition check_serving_freshness :: "publish_record option result \<Rightarrow> 'm metabase_api \<Rightarrow> string \<Rightarrow> string \<Rightarrow> int \<Rightarrow> ('m metabase, serving_freshness) op" where
  "check_serving_freshness latest api url key db =
     bindM (liftM latest) (\<lambda>run.
     bindM (read_live_serving_manifest api url key db) (\<lambda>(live_export, live_run).
     returnM \<lparr>fr_database_id = db, fr_live_export_id = live_export, fr_live_publish_run_id = live_run,
       fr_latest_publish_run_id = map_option (uuid_str \<circ> rec_publish_run_id) run\<rparr>))"

section \<open>The commands\<close>

text \<open>\<open>_export\<close> returns the exit code; the clock and the new identifier are read by the caller.\<close>

definition export_request_of :: "publish_record option \<Rightarrow> time \<Rightarrow> export_request result" where
  "export_request_of latest now = (case latest of
      None \<Rightarrow> Inl (Exn ValueError ''No published mart run with recorded hashes exists'')
    | Some r \<Rightarrow> (case rec_mart_hashes r of
        None \<Rightarrow> Inl (Exn ValueError ''No published mart run with recorded hashes exists'')
      | Some hashes \<Rightarrow> (case rec_published_identity r of
          None \<Rightarrow> Inl (Exn ValueError (''Publish run '' @ uuid_str (rec_publish_run_id r) @
            '' has no recorded file identity; run a new publish''))
        | Some i \<Rightarrow> Inr \<lparr>er_publish_run_id = rec_publish_run_id r, er_mart_hashes = hashes, er_published_identity = i, er_now = now\<rparr>)))"

definition export_command :: "'m metabase_api \<Rightarrow> (string \<times> string) list \<Rightarrow> string list option \<Rightarrow> publish_record option result \<Rightarrow>
    (int list \<Rightarrow> int) \<Rightarrow> bool \<Rightarrow> uuid \<Rightarrow> time \<Rightarrow> (('m, 'r) serving_session, int) op" where
  "export_command api env dotenv latest fresh wal k now =
     bindM (liftM latest) (\<lambda>run.
     bindM (liftM (export_request_of run now)) (\<lambda>req.
     bindM (on_serving (export_serving_mart fresh wal k req)) (\<lambda>result.
     bindM (repoint_and_prune_serving api (uuid_str (vr_export_id result)) (host_metabase_url env)
        (metabase_setting env dotenv ''METABASE_API_KEY'') (metabase_setting env dotenv ''METABASE_SERVING_DATABASE_ID'')) (\<lambda>status.
     returnM (if status = ''FAILED'' then 1 else 0)))))"

text \<open>\<open>_status\<close>: the errors it reports by its exit code; others, \<open>TypeError\<close> among them, leave it.\<close>

definition status_error :: "exn \<Rightarrow> bool" where
  "status_error e \<longleftrightarrow> exn_class e \<in> OS_ERRORS \<union> {RuntimeError, ValueError, OtherError ''KeyError'', OperationalError}"

definition read_status :: "'m metabase_api \<Rightarrow> (string \<times> string) list \<Rightarrow> string list option \<Rightarrow> publish_record option result \<Rightarrow> ('m metabase, int) op" where
  "read_status api env dotenv latest =
     bindM (liftM (require_metabase_setting env dotenv ''METABASE_SERVING_DATABASE_ID'')) (\<lambda>text.
     bindM (liftM (case py_int text of None \<Rightarrow> Inl (Exn ValueError ''invalid literal for int() with base 10'') | Some db \<Rightarrow> Inr db)) (\<lambda>db.
     bindM (liftM (require_metabase_setting env dotenv ''METABASE_API_KEY'')) (\<lambda>key.
     bindM (check_serving_freshness latest api (host_metabase_url env) key db) (\<lambda>f.
     returnM (if fresh_serving f then 0 else 1)))))"

definition status_command :: "'m metabase_api \<Rightarrow> (string \<times> string) list \<Rightarrow> string list option \<Rightarrow> publish_record option result \<Rightarrow> ('m metabase, int) op" where
  "status_command api env dotenv latest = (\<lambda>w. case read_status api env dotenv latest w of
      (Inl e, w') \<Rightarrow> (if status_error e then Inr 1 else Inl e, w') | r \<Rightarrow> r)"

section \<open>What repointing leaves in the log\<close>

lemma tryM_Inr:
  "tryM m h f w = (Inr v, w') \<longleftrightarrow> (\<exists>x w1. m w = (Inr x, w1) \<and> f x w1 = (Inr v, w')) \<or>
     (\<exists>e w1. m w = (Inl e, w1) \<and> api_error e \<and> h w1 = (Inr v, w'))"
  by (auto simp: tryM_def split: prod.splits sum.splits if_splits)

lemma request_json_ok:
  "request_json api url key verb body w = (Inr x, w') \<Longrightarrow>
     mb_log w' = mb_log w @ [(\<lparr>mr_method = verb, mr_url = url, mr_key = key, mr_payload = body\<rparr>, Inr x)]"
  by (auto simp: request_json_def Let_def split: prod.splits)

lemma request_json_logs:
  "request_json api url key verb body w = (x, w') \<Longrightarrow>
     mb_log w' = mb_log w @ [(\<lparr>mr_method = verb, mr_url = url, mr_key = key, mr_payload = body\<rparr>, x)]"
  by (auto simp: request_json_def Let_def split: prod.splits)

lemma dict_put_text: "map_of (dict_put (JStr s) v d) (JStr s) = Some v"
proof -
  have key: "dict_key j = JStr s \<longleftrightarrow> j = JStr s" for j by (cases j) (auto simp: dict_key_def)
  have up: "map_of (map (\<lambda>(k', v'). (k', if k' = JStr s then v else v')) d) (JStr s) = Some v" if "JStr s \<in> fst ` set d"
    using that by (induction d) auto
  have new: "map_of d (JStr s) = None" if "JStr s \<notin> fst ` set d" using that by (simp add: map_of_eq_None_iff)
  have own: "dict_key (JStr s) = JStr s" by (simp add: key)
  show ?thesis
  proof (cases "JStr s \<in> fst ` set d")
    case True
    then have "dict_key (JStr s) \<in> set (map (dict_key \<circ> fst) d)" by force
    with up [OF True] show ?thesis by (simp add: dict_put_def own key)
  next
    case False
    have "dict_key (JStr s) \<notin> set (map (dict_key \<circ> fst) d)"
    proof
      assume "dict_key (JStr s) \<in> set (map (dict_key \<circ> fst) d)"
      then obtain x where "x \<in> set d" "dict_key (fst x) = JStr s" by (auto simp: own)
      with False show False by (auto simp: key image_iff)
    qed
    then show ?thesis using new [OF False] by (simp add: dict_put_def map_add_def)
  qed
qed

text \<open>The four exchanges of a confirmed change: what was put and what Metabase then read.\<close>

definition confirms :: "string \<Rightarrow> string \<Rightarrow> (metabase_request \<times> json result) list \<Rightarrow> bool" where
  "confirms base export_id exchanges = (case exchanges of
      [_, (put, Inr _), (query, Inr answer), _] \<Rightarrow>
        mr_method put = ''PUT'' \<and>
        (case mr_payload put of DetailsPayload d \<Rightarrow> map_of d (JStr ''database_file'') = Some (export_file_setting export_id) | _ \<Rightarrow> False) \<and>
        (case mr_payload query of QueryPayload db q \<Rightarrow> mr_url put = database_url base db \<and> q = LIVE_MANIFEST_QUERY | _ \<Rightarrow> False) \<and>
        (case manifest_rows answer of Inr (live, _) \<Rightarrow> live = JStr export_id | _ \<Rightarrow> False)
    | _ \<Rightarrow> False)"

lemma put_export_confirms:
  assumes "put_export api base key export_id db database w = (Inr True, w')"
  obtains put put_answer query answer where
    "mb_log w' = mb_log w @ [(put, Inr put_answer), (query, Inr answer)]"
    "\<And>a b. confirms base export_id [a, (put, Inr put_answer), (query, Inr answer), b]"
  using assms
  by (auto simp: put_export_def bindM_ok liftM_def read_live_serving_manifest_def confirms_def dict_put_text
      returnM_def dest!: request_json_ok split: prod.splits)

lemma find_database_logs:
  "find_database api base key database_id w = (Inr x, w') \<Longrightarrow> \<exists>a. mb_log w' = mb_log w @ [a]"
  by (auto simp: find_database_def bindM_ok raiseM_def returnM_def dest!: request_json_ok split: option.splits)

text \<open>The status tells what happened: \<open>SUCCESS\<close> is a confirmed change, \<open>SKIPPED\<close> no request at all.\<close>

lemma repoint_status:
  assumes "repoint_metabase_serving api export_id url key database_id w = (Inr status, w')"
  shows "status = ''SUCCESS'' \<and> (\<exists>es. mb_log w' = mb_log w @ es \<and> confirms (without_slashes url) export_id es) \<or>
    status = ''SKIPPED'' \<and> (url = [] \<or> key = [] \<or> database_id = []) \<and> w' = w \<or> status = ''FAILED''"
proof (cases "url = [] \<or> key = [] \<or> database_id = []")
  case True
  with assms show ?thesis by (auto simp: repoint_metabase_serving_def)
next
  case False
  show ?thesis
  proof (cases "status = ''FAILED''")
    case other: False
    let ?base = "without_slashes url"
    from assms False other obtain db database w1 w2 where
      find: "find_database api ?base key database_id w = (Inr (db, database), w1)" and
      put: "put_export api ?base key export_id db database w1 = (Inr True, w2)" and
      sync: "tryM (request_json api (database_url ?base db @ ''/sync_schema'') key ''POST'' NoPayload)
               (returnM ''SUCCESS'') (\<lambda>_. returnM ''SUCCESS'') w2 = (Inr status, w')"
      by (auto simp: repoint_metabase_serving_def tryM_Inr [of "find_database api ?base key database_id"]
          tryM_Inr [of "put_export api ?base key export_id db database" for db database] Let_def returnM_def split: if_splits prod.splits)
    from find_database_logs [OF find] obtain a where a: "mb_log w1 = mb_log w @ [a]" by blast
    from put_export_confirms [OF put] obtain p pa q qa where
      b: "mb_log w2 = mb_log w1 @ [(p, Inr pa), (q, Inr qa)]" "\<And>a b. confirms ?base export_id [a, (p, Inr pa), (q, Inr qa), b]" by metis
    from sync obtain c where c: "status = ''SUCCESS''" "mb_log w' = mb_log w2 @ [c]"
      by (auto simp: tryM_Inr returnM_def dest!: request_json_logs)
    show ?thesis using a b c by auto
  qed simp
qed

end
