(* ===== verification/ServingRuns.thy ===== *)
theory ServingRuns
  imports Metabase WarehouseRuns
begin

text \<open>
  What an export leaves behind: the serving file is the old one or a complete copy of the marts of the
  very file its caller named, whatever the publisher does meanwhile and wherever the export stops.
\<close>

section \<open>The published file meanwhile\<close>

text \<open>
  Identities are not reused: once the published file \<open>f0\<close> is gone from its place, no file with its
  identity comes back. While \<open>f0\<close> is live, what the export has read is known to be \<open>f0\<close>'s.
\<close>

definition never_again :: "'r relations stored_file \<Rightarrow> 'r serving_turn \<Rightarrow> bool" where
  "never_again f0 t \<longleftrightarrow> (\<forall>p. vt_published t p = p \<or> (\<forall>f. vt_published t p = Some f \<longrightarrow> sf_identity f \<noteq> sf_identity f0))"

definition source_kept :: "'r relations stored_file \<Rightarrow> 'r serving_world \<Rightarrow> bool" where
  "source_kept f0 w \<longleftrightarrow> (\<forall>f. vw_published w = Some f \<longrightarrow> sf_identity f = sf_identity f0 \<longrightarrow> f = f0) \<and>
     (\<forall>t \<in> set (vw_schedule w). never_again f0 t)"

definition during :: "'r relations stored_file \<Rightarrow> ('r serving_disk \<Rightarrow> bool) \<Rightarrow> bool \<Rightarrow> 'r serving_world \<Rightarrow> bool" where
  "during f0 P s w \<longleftrightarrow> source_kept f0 w \<and> P (vw_disk w) \<and> (vw_published w = Some f0 \<longrightarrow> s)"

lemma during_weaken: "during f0 P s w \<Longrightarrow> (\<And>d. P d \<Longrightarrow> Q d) \<Longrightarrow> (s \<Longrightarrow> s') \<Longrightarrow> during f0 Q s' w"
  by (auto simp: during_def)

lemma contact_during:
  assumes "\<And>d. P d \<Longrightarrow> E d"
  shows "triple (during f0 P s) serving_contact (\<lambda>_. during f0 P s) (during f0 E True)"
proof -
  have "during f0 P s (snd (serving_contact w))" if w: "during f0 P s w" for w
  proof (cases "vw_schedule w")
    case Nil
    with w show ?thesis by (simp add: serving_contact_def)
  next
    case (Cons t ts)
    with w have t: "never_again f0 t" "\<forall>t \<in> set ts. never_again f0 t" by (auto simp: during_def source_kept_def)
    then consider "vt_published t (vw_published w) = vw_published w"
      | "\<forall>f. vt_published t (vw_published w) = Some f \<longrightarrow> sf_identity f \<noteq> sf_identity f0"
      unfolding never_again_def by blast
    then show ?thesis
      using w t(2) by cases (auto simp: serving_contact_def Cons during_def source_kept_def)
  qed
  then show ?thesis
    using assms by (intro tripleI) (metis during_weaken snd_conv)+
qed

lemma step_during:
  assumes "\<And>d. P d \<Longrightarrow> E d"
    and "\<And>w. during f0 P s w \<Longrightarrow> (case m w of
      (Inr v, d) \<Rightarrow> Q v d \<and> (vw_published w = Some f0 \<longrightarrow> s' v) | (Inl _, d) \<Rightarrow> E d)"
  shows "triple (during f0 P s) (serving_step m) (\<lambda>v. during f0 (Q v) (s' v)) (during f0 E True)"
  unfolding serving_step_def
proof (rule triple_bind [OF contact_during [OF assms(1)]], assumption)
  show "triple (during f0 P s) (\<lambda>w. case m w of (x, d) \<Rightarrow> (x, w\<lparr>vw_disk := d\<rparr>)) (\<lambda>v. during f0 (Q v) (s' v)) (during f0 E True)"
  proof (rule tripleI)
    fix w v w' assume w: "during f0 P s w" and r: "(case m w of (x, d) \<Rightarrow> (x, w\<lparr>vw_disk := d\<rparr>)) = (Inr v, w')"
    then obtain d where "m w = (Inr v, d)" "w' = w\<lparr>vw_disk := d\<rparr>" by (auto split: prod.splits)
    with assms(2) [OF w] w show "during f0 (Q v) (s' v) w'" by (simp add: during_def source_kept_def)
  next
    fix w v w' assume w: "during f0 P s w" and r: "(case m w of (x, d) \<Rightarrow> (x, w\<lparr>vw_disk := d\<rparr>)) = (Inl v, w')"
    then obtain d where "m w = (Inl v, d)" "w' = w\<lparr>vw_disk := d\<rparr>" by (auto split: prod.splits)
    with assms(2) [OF w] w show "during f0 E True w'" by (simp add: during_def source_kept_def)
  qed
qed

lemma triple_pure: "(b \<Longrightarrow> triple P m Q E) \<Longrightarrow> triple (\<lambda>w. P w \<and> b) m Q E"
  by (auto simp: triple_def)

section \<open>The build\<close>

lemma serving_at_changes [simp]:
  "serving_at (remove_serving p d) q = (if q = p then None else serving_at d q)"
  "serving_at (place_serving p f d) q = (if q = p then Some f else serving_at d q)"
  "serving_at (drop_serving_wal p d) q = serving_at d q" "serving_at (d\<lparr>sd_wals := ws\<rparr>) q = serving_at d q"
  by (auto simp: serving_at_def remove_serving_def place_serving_def drop_serving_wal_def map_of_filter_key)

text \<open>What is not the export's own: the serving file and the earlier versions.\<close>

definition untouched :: "uuid \<Rightarrow> 'r serving_disk \<Rightarrow> 'r serving_disk \<Rightarrow> bool" where
  "untouched k d0 d \<longleftrightarrow> serving_at d ServingFile = serving_at d0 ServingFile \<and>
     (\<forall>j. serving_at d (ExportFile j) = serving_at d0 (ExportFile j))"

definition building :: "uuid \<Rightarrow> 'r serving_disk \<Rightarrow> 'r serving_content \<Rightarrow> 'r serving_disk \<Rightarrow> bool" where
  "building k d0 c d \<longleftrightarrow> untouched k d0 d \<and> map_option vf_content (serving_at d (ServingBuild k)) = Some c"

lemma building_untouched: "building k d0 c d \<Longrightarrow> untouched k d0 d"
  by (simp add: building_def)

lemma content_step:
  "triple (during f0 (building k d0 c) s) (on_content fresh k g) (\<lambda>_. during f0 (building k d0 (g c)) s) (during f0 (untouched k d0) True)"
  unfolding on_content_def rewrite_build_def
  by (rule step_during [OF building_untouched], assumption)
    (auto simp: during_def building_def untouched_def Let_def split: option.splits)

lemma building_contact:
  "triple (during f0 (building k d0 c) s) serving_contact (\<lambda>_. during f0 (building k d0 c) s) (during f0 (untouched k d0) True)"
  by (rule contact_during [OF building_untouched])

definition rows_of :: "'r relations \<Rightarrow> string \<times> string \<Rightarrow> 'r list" where
  "rows_of published r = (case map_of published r of None \<Rightarrow> [] | Some rows \<Rightarrow> rows)"

lemma relation_step:
  "triple (during f0 (building k d0 c) s) (copy_relation fresh k published r)
     (\<lambda>v w. during f0 (building k d0 (c\<lparr>sc_relations := sc_relations c @ [(r, rows_of published r)]\<rparr>)) s w \<and>
        v = (relation_name r, int (length (rows_of published r))))
     (during f0 (untouched k d0) True)"
  unfolding copy_relation_def Let_def rows_of_def [symmetric]
  by (rule triple_bind [OF content_step], rule triple_bind [OF building_contact], rule triple_return) simp

lemma relations_step:
  "triple (during f0 (building k d0 c) s) (mapM (copy_relation fresh k published) rs)
     (\<lambda>v w. during f0 (building k d0 (c\<lparr>sc_relations := sc_relations c @ map (\<lambda>r. (r, rows_of published r)) rs\<rparr>)) s w \<and>
        v = map (\<lambda>r. (relation_name r, int (length (rows_of published r)))) rs)
     (during f0 (untouched k d0) True)"
proof (induction rs arbitrary: c)
  case Nil
  show ?case by (simp add: triple_def)
next
  case (Cons r rs)
  show ?case
    unfolding mapM.simps
  proof (rule triple_bind [OF relation_step], rule triple_pure)
    fix v assume v: "v = (relation_name r, int (length (rows_of published r)))"
    show "triple (during f0 (building k d0 (c\<lparr>sc_relations := sc_relations c @ [(r, rows_of published r)]\<rparr>)) s)
        (bindM (mapM (copy_relation fresh k published) rs) (\<lambda>ys. returnM (v # ys)))
        (\<lambda>v w. during f0 (building k d0 (c\<lparr>sc_relations := sc_relations c @ map (\<lambda>r. (r, rows_of published r)) (r # rs)\<rparr>)) s w \<and>
          v = map (\<lambda>r. (relation_name r, int (length (rows_of published r)))) (r # rs)) (during f0 (untouched k d0) True)"
      by (rule triple_bind [OF Cons.IH], rule triple_return) (simp add: v)
  qed
qed

definition relations_from :: "'r relations \<Rightarrow> string list \<Rightarrow> 'r relations" where
  "relations_from published ss = concat (map (\<lambda>s. map (\<lambda>r. (r, rows_of published r)) (tables_of s published)) ss)"

definition counts_from :: "'r relations \<Rightarrow> string list \<Rightarrow> (string \<times> int) list" where
  "counts_from published ss = map (\<lambda>(r, rows). (relation_name r, int (length rows))) (relations_from published ss)"

lemma schemas_step:
  "triple (during f0 (building k d0 c) s) (mapM (copy_schema fresh k published) ss)
     (\<lambda>v w. during f0 (building k d0 (c\<lparr>sc_schemas := sc_schemas c @ ss, sc_relations := sc_relations c @ relations_from published ss\<rparr>)) s w \<and>
        concat v = counts_from published ss)
     (during f0 (untouched k d0) True)"
proof (induction ss arbitrary: c)
  case Nil
  show ?case by (simp add: triple_def relations_from_def counts_from_def)
next
  case (Cons a ss)
  let ?c = "c\<lparr>sc_schemas := sc_schemas c @ [a]\<rparr>"
  let ?c' = "?c\<lparr>sc_relations := sc_relations ?c @ map (\<lambda>r. (r, rows_of published r)) (tables_of a published)\<rparr>"
  have one: "triple (during f0 (building k d0 c) s) (copy_schema fresh k published a)
     (\<lambda>v w. during f0 (building k d0 ?c') s w \<and> v = map (\<lambda>r. (relation_name r, int (length (rows_of published r)))) (tables_of a published))
     (during f0 (untouched k d0) True)"
    unfolding copy_schema_def by (rule triple_bind [OF content_step triple_bind [OF building_contact relations_step]])
  show ?case
    unfolding mapM.simps
  proof (rule triple_bind [OF one], rule triple_pure)
    fix v assume v: "v = map (\<lambda>r. (relation_name r, int (length (rows_of published r)))) (tables_of a published)"
    have "triple (during f0 (building k d0 ?c') s) (bindM (mapM (copy_schema fresh k published) ss) (\<lambda>ys. returnM (v # ys)))
        (\<lambda>v w. during f0 (building k d0 (?c'\<lparr>sc_schemas := sc_schemas ?c' @ ss, sc_relations := sc_relations ?c' @ relations_from published ss\<rparr>)) s w \<and>
           concat v = counts_from published (a # ss)) (during f0 (untouched k d0) True)"
      by (rule triple_bind [OF Cons.IH], rule triple_return) (simp add: v counts_from_def relations_from_def)
    then show "triple (during f0 (building k d0 ?c') s) (bindM (mapM (copy_schema fresh k published) ss) (\<lambda>ys. returnM (v # ys)))
        (\<lambda>v w. during f0 (building k d0 (c\<lparr>sc_schemas := sc_schemas c @ a # ss, sc_relations := sc_relations c @ relations_from published (a # ss)\<rparr>)) s w \<and>
           concat v = counts_from published (a # ss)) (during f0 (untouched k d0) True)"
      by (simp add: relations_from_def)
  qed
qed

text \<open>What is read is \<open>f0\<close>'s as long as \<open>f0\<close> is live.\<close>

lemma attach_step:
  "triple (during f0 (untouched k d0) True) (attach_published fresh k)
     (\<lambda>v. during f0 (building k d0 empty_content) (v = sf_content f0)) (during f0 (untouched k d0) True)"
proof -
  have create: "triple (during f0 (untouched k d0) True)
      (rewrite_build fresh k (\<lambda>_. (Inr (), \<lparr>sc_schemas = [], sc_relations = [], sc_manifest = None\<rparr>)))
      (\<lambda>_. during f0 (building k d0 empty_content) True) (during f0 (untouched k d0) True)"
    unfolding rewrite_build_def
    by (rule step_during, assumption)
      (auto simp: during_def building_def untouched_def empty_content_def Let_def split: option.splits)
  have look: "triple (during f0 (building k d0 empty_content) True) (serving_step (\<lambda>w. (case vw_published w of
         None \<Rightarrow> Inl (Exn (OtherError ''IOException'') (path_string [] PublishedFile)) | Some f \<Rightarrow> Inr (sf_content f), vw_disk w)))
      (\<lambda>v. during f0 (building k d0 empty_content) (v = sf_content f0)) (during f0 (untouched k d0) True)"
    by (rule step_during [OF building_untouched], assumption) (auto simp: during_def building_def split: option.splits)
  show ?thesis unfolding attach_published_def by (rule triple_bind [OF create look])
qed

definition exported :: "uuid \<Rightarrow> export_request \<Rightarrow> 'r relations \<Rightarrow> 'r serving_content" where
  "exported k req published = \<lparr>sc_schemas = SERVING_SCHEMAS, sc_relations = relations_from published SERVING_SCHEMAS,
     sc_manifest = Some [\<lparr>sm_export_id = k, sm_publish_run_id = er_publish_run_id req, sm_exported_at = er_now req,
       sm_storage_version = STORAGE_VERSION, sm_mart_result_hashes = er_mart_hashes req,
       sm_row_counts = counts_from published SERVING_SCHEMAS\<rparr>]\<rparr>"

lemma copy_step:
  "triple (during f0 (untouched k d0) True) (copy_mart_objects fresh k)
     (\<lambda>v w. \<exists>c. during f0 (building k d0 \<lparr>sc_schemas = SERVING_SCHEMAS, sc_relations = relations_from c SERVING_SCHEMAS,
        sc_manifest = None\<rparr>) (c = sf_content f0) w \<and> v = counts_from c SERVING_SCHEMAS)
     (during f0 (untouched k d0) True)"
  unfolding copy_mart_objects_def
proof (rule triple_bind [OF attach_step], rule triple_bind [OF schemas_step], rule triple_pure)
  fix c :: "'a relations" and counts :: "(string \<times> int) list list" assume v: "concat counts = counts_from c SERVING_SCHEMAS"
  let ?e = "empty_content :: 'a serving_content"
  let ?c = "?e\<lparr>sc_schemas := sc_schemas ?e @ SERVING_SCHEMAS,
     sc_relations := sc_relations ?e @ relations_from c SERVING_SCHEMAS\<rparr>"
  have result: "?c = \<lparr>sc_schemas = SERVING_SCHEMAS, sc_relations = relations_from c SERVING_SCHEMAS, sc_manifest = None\<rparr>"
    by (simp add: empty_content_def)
  show "triple (during f0 (building k d0 ?c) (c = sf_content f0))
      (bindM serving_contact (\<lambda>_. bindM serving_contact (\<lambda>_. returnM (concat counts))))
      (\<lambda>v w. \<exists>c. during f0 (building k d0 \<lparr>sc_schemas = SERVING_SCHEMAS, sc_relations = relations_from c SERVING_SCHEMAS,
        sc_manifest = None\<rparr>) (c = sf_content f0) w \<and> v = counts_from c SERVING_SCHEMAS) (during f0 (untouched k d0) True)"
    unfolding result v
    by (rule triple_bind [OF building_contact], rule triple_bind [OF building_contact], rule triple_return) auto
qed

lemma triple_ex: "(\<And>c. triple (P c) m Q E) \<Longrightarrow> triple (\<lambda>w. \<exists>c. P c w) m Q E"
  by (auto simp: triple_def)

lemma build_step:
  "triple (during f0 (untouched k d0) True) (build_export fresh wal k req)
     (\<lambda>v w. \<exists>c. during f0 (building k d0 (exported k req c)) (c = sf_content f0) w \<and> v = counts_from c SERVING_SCHEMAS)
     (during f0 (untouched k d0) True)"
  unfolding build_export_def
proof (rule triple_bind [OF copy_step], rule triple_ex, rule triple_pure)
  fix v and c :: "'a relations" assume v: "v = counts_from c SERVING_SCHEMAS"
  let ?m = "\<lparr>sm_export_id = k, sm_publish_run_id = er_publish_run_id req, sm_exported_at = er_now req,
        sm_storage_version = STORAGE_VERSION, sm_mart_result_hashes = er_mart_hashes req, sm_row_counts = v\<rparr>"
  let ?b = "during f0 (building k d0 (exported k req c)) (c = sf_content f0)" and ?e = "during f0 (untouched k d0) True"
  have manifest: "triple (during f0 (building k d0 \<lparr>sc_schemas = SERVING_SCHEMAS, sc_relations = relations_from c SERVING_SCHEMAS,
      sc_manifest = None\<rparr>) (c = sf_content f0)) (record_manifest fresh k ?m) (\<lambda>_. ?b) ?e"
  proof -
    let ?add = "\<lambda>c. c\<lparr>sc_manifest := map_option (\<lambda>ms. ms @ [?m]) (sc_manifest c)\<rparr>" and ?new = "\<lambda>c. c\<lparr>sc_manifest := Some []\<rparr>"
    have result: "exported k req c = ?add (?new \<lparr>sc_schemas = SERVING_SCHEMAS, sc_relations = relations_from c SERVING_SCHEMAS, sc_manifest = None\<rparr>)"
      by (simp add: exported_def v)
    show ?thesis unfolding record_manifest_def result by (rule triple_bind [OF content_step content_step])
  qed
  have step: "triple ?b (serving_step m) (\<lambda>_. ?b) ?e"
    if "\<And>w. case m w of (Inr _, d) \<Rightarrow> serving_at d = serving_at (vw_disk w) | (Inl _, d) \<Rightarrow> serving_at d = serving_at (vw_disk w)" for m :: "'a serving_world \<Rightarrow> 'z result \<times> 'a serving_disk"
  proof (rule step_during [OF building_untouched], assumption)
    fix w assume w: "?b w"
    from that [of w] w show "case m w of (Inr v, d) \<Rightarrow> building k d0 (exported k req c) d \<and> (vw_published w = Some f0 \<longrightarrow> c = sf_content f0)
        | (Inl _, d) \<Rightarrow> untouched k d0 d"
      by (auto simp: during_def building_def untouched_def split: prod.splits sum.splits)
  qed
  have validate: "triple ?b (validate_serving_file k) (\<lambda>_. ?b) ?e"
    unfolding validate_serving_file_def by (rule step) (auto split: sum.split)
  have checkpoint: "triple ?b (checkpoint_build fresh k wal) (\<lambda>_. ?b) ?e"
    unfolding checkpoint_build_def
  proof (rule triple_bind [OF content_step [where g = "\<lambda>c. c"]], rule triple_bind)
    show "triple ?b (serving_step (\<lambda>w. (Inr (), if wal then (vw_disk w)\<lparr>sd_wals := ServingBuild k # sd_wals (vw_disk w)\<rparr> else vw_disk w))) (\<lambda>_. ?b) ?e"
      by (rule step) (simp add: fun_eq_iff)
    show "triple ?b (bindM (serving_step (\<lambda>w. (Inr (ServingBuild k \<in> set (sd_wals (vw_disk w))), vw_disk w)))
        (\<lambda>left. assertM (\<not> left) ValueError ''Serving build has a WAL'')) (\<lambda>_. ?b) ?e"
    proof (rule triple_bind)
      show "triple ?b (serving_step (\<lambda>w. (Inr (ServingBuild k \<in> set (sd_wals (vw_disk w))), vw_disk w))) (\<lambda>_. ?b) ?e"
        by (rule step) simp
      show "triple ?b (assertM (\<not> left) ValueError ''Serving build has a WAL'') (\<lambda>_. ?b) ?e" for left
        by (cases left) (auto simp: triple_def assertM_def returnM_def raiseM_def elim!: during_weaken intro: building_untouched)
    qed
  qed
  show "triple (during f0 (building k d0 \<lparr>sc_schemas = SERVING_SCHEMAS, sc_relations = relations_from c SERVING_SCHEMAS,
      sc_manifest = None\<rparr>) (c = sf_content f0))
    (bindM (record_manifest fresh k ?m) (\<lambda>_. bindM (validate_serving_file k) (\<lambda>_. bindM (checkpoint_build fresh k wal) (\<lambda>_.
       bindM serving_contact (\<lambda>_. returnM v)))))
    (\<lambda>v w. \<exists>c. during f0 (building k d0 (exported k req c)) (c = sf_content f0) w \<and> v = counts_from c SERVING_SCHEMAS) ?e"
    by (rule triple_bind [OF manifest], rule triple_bind [OF validate], rule triple_bind [OF checkpoint],
        rule triple_bind [OF contact_during [OF building_untouched]], assumption, rule triple_return) (auto simp: v)
qed

section \<open>The swap\<close>

text \<open>What an export that stops may leave: the serving file as it was, or the finished export.\<close>

definition served :: "uuid \<Rightarrow> 'r serving_disk \<Rightarrow> 'r serving_content \<Rightarrow> 'r serving_disk \<Rightarrow> bool" where
  "served k d0 c d \<longleftrightarrow> (\<forall>j. j \<noteq> k \<longrightarrow> serving_at d (ExportFile j) = serving_at d0 (ExportFile j)) \<and>
     (serving_at d ServingFile = serving_at d0 ServingFile \<or> map_option vf_content (serving_at d ServingFile) = Some c)"

definition finished :: "uuid \<Rightarrow> 'r serving_disk \<Rightarrow> 'r serving_content \<Rightarrow> 'r serving_disk \<Rightarrow> bool" where
  "finished k d0 c d \<longleftrightarrow> served k d0 c d \<and> map_option vf_content (serving_at d ServingFile) = Some c \<and>
     serving_at d (ExportFile k) = serving_at d ServingFile \<and> serving_at d (ServingBuild k) = None"

lemma untouched_served: "untouched k d0 d \<Longrightarrow> served k d0 c d"
  by (simp add: untouched_def served_def)

lemma building_served: "building k d0 c' d \<Longrightarrow> served k d0 c d"
  by (simp add: building_def untouched_served)

lemma finished_served: "finished k d0 c d \<Longrightarrow> served k d0 c d"
  by (simp add: finished_def)

text \<open>Linked: the export has its versioned name, the serving file is still the old one.\<close>

definition linked :: "uuid \<Rightarrow> 'r serving_disk \<Rightarrow> 'r serving_content \<Rightarrow> 'r serving_disk \<Rightarrow> bool" where
  "linked k d0 c d \<longleftrightarrow> served k d0 c d \<and> serving_at d ServingFile = serving_at d0 ServingFile \<and>
     map_option vf_content (serving_at d (ServingBuild k)) = Some c \<and> serving_at d (ExportFile k) = serving_at d (ServingBuild k)"

lemma identity_step:
  assumes "\<And>d. P d \<Longrightarrow> E d" "er_published_identity req = sf_identity f0"
  shows "triple (during f0 P s) (require_identity (er_published_identity req) rid)
    (\<lambda>_ w. during f0 P s w \<and> s) (during f0 E True)"
proof -
  have "triple (during f0 P s) (require_identity (er_published_identity req) rid)
      (\<lambda>_. during f0 (\<lambda>d. P d \<and> s) s) (during f0 E True)"
    unfolding require_identity_def
    by (rule step_during [OF assms(1)], assumption)
      (auto simp: during_def source_kept_def assms split: option.splits)
  then show ?thesis by (rule triple_weaken) (auto simp: during_def)
qed

lemma swap_step:
  assumes "er_published_identity req = sf_identity f0" "serving_at d0 (ExportFile k) = None"
  shows "triple (during f0 (building k d0 (exported k req c)) (c = sf_content f0)) (swap_export k req)
    (\<lambda>_ w. during f0 (finished k d0 (exported k req (sf_content f0))) True w \<and> c = sf_content f0)
    (during f0 (served k d0 (exported k req (sf_content f0))) True)"
proof -
  let ?c = "exported k req (sf_content f0)"
  let ?e = "during f0 (served k d0 ?c) True"
  have link: "triple (during f0 (building k d0 ?c) True) (serving_step (\<lambda>w. os_link (ServingBuild k) (ExportFile k) (vw_disk w)))
      (\<lambda>_. during f0 (linked k d0 ?c) True) ?e"
    by (rule step_during [OF building_served], assumption)
      (auto simp: during_def building_def untouched_def served_def linked_def os_link_def assms(2) split: option.splits)
  have replace: "triple (during f0 (linked k d0 ?c) True) (serving_step (\<lambda>w. replace_serving (ServingBuild k) ServingFile (vw_disk w)))
      (\<lambda>_. during f0 (finished k d0 ?c) True) ?e"
    by (rule step_during) (auto simp: during_def served_def linked_def finished_def replace_serving_def split: option.splits)
  have sync: "triple (during f0 (finished k d0 ?c) True) serving_contact (\<lambda>_. during f0 (finished k d0 ?c) True) ?e"
    by (rule contact_during [OF finished_served])
  have sync_last: "triple (during f0 (finished k d0 ?c) True) serving_contact
      (\<lambda>_ w. during f0 (finished k d0 ?c) True w \<and> c = sf_content f0) ?e" if "c = sf_content f0"
    using sync that by simp
  show ?thesis
    unfolding swap_export_def
  proof (rule triple_bind [OF identity_step [OF building_served assms(1)]], assumption, rule triple_pure)
    assume c: "c = sf_content f0"
    have "triple (during f0 (building k d0 ?c) True) (bindM (serving_step (\<lambda>w. os_link (ServingBuild k) (ExportFile k) (vw_disk w))) (\<lambda>_.
        bindM (serving_step (\<lambda>w. replace_serving (ServingBuild k) ServingFile (vw_disk w))) (\<lambda>_. bindM serving_contact (\<lambda>_. serving_contact))))
        (\<lambda>_ w. during f0 (finished k d0 ?c) True w \<and> c = sf_content f0) ?e"
      by (rule triple_bind [OF link], rule triple_bind [OF replace], rule triple_bind [OF sync sync_last [OF c]])
    with c show "triple (during f0 (building k d0 (exported k req c)) (c = sf_content f0))
        (bindM (serving_step (\<lambda>w. os_link (ServingBuild k) (ExportFile k) (vw_disk w))) (\<lambda>_.
        bindM (serving_step (\<lambda>w. replace_serving (ServingBuild k) ServingFile (vw_disk w))) (\<lambda>_. bindM serving_contact (\<lambda>_. serving_contact))))
        (\<lambda>_ w. during f0 (finished k d0 ?c) True w \<and> c = sf_content f0) ?e"
      by simp
  qed
qed

lemma served_step:
  assumes "\<And>d. served k d0 c d \<Longrightarrow> served k d0 c (g d)"
  shows "triple (during f0 (served k d0 c) True) (serving_step (\<lambda>w. (Inr (), g (vw_disk w)))) (\<lambda>_. during f0 (served k d0 c) True)
    (during f0 (served k d0 c) True)"
  by (rule step_during [where P = "served k d0 c"], assumption) (simp add: during_def assms)

lemma unlink_served:
  assumes "p \<in> {ServingBuild k, ExportFile k}"
  shows "triple (during f0 (served k d0 c) True) (unlink_serving p) (\<lambda>_. during f0 (served k d0 c) True) (during f0 (served k d0 c) True)"
  unfolding unlink_serving_def by (rule served_step) (use assms in \<open>auto simp: served_def\<close>)

lemma discard_served:
  "triple (during f0 (served k d0 c) True) (discard_build k) (\<lambda>_. during f0 (served k d0 c) True) (during f0 (served k d0 c) True)"
  unfolding discard_build_def
  by (rule triple_bind [OF unlink_served]) (simp, rule served_step, simp add: served_def)

theorem export_triple:
  fixes f0 :: "'r relations stored_file"
  assumes "er_published_identity req = sf_identity f0" "serving_at d0 (ExportFile k) = None"
  shows "triple (during f0 (\<lambda>d. d = d0) True) (export_serving_mart fresh wal k req)
    (\<lambda>v w. during f0 (finished k d0 (exported k req (sf_content f0))) True w \<and>
       v = \<lparr>vr_export_id = k, vr_row_counts = counts_from (sf_content f0) SERVING_SCHEMAS\<rparr>)
    (during f0 (served k d0 (exported k req (sf_content f0))) True)"
proof -
  let ?c = "exported k req (sf_content f0)"
  let ?e = "during f0 (served k d0 ?c) True"
  have start: "triple (during f0 (\<lambda>d. d = d0) True) (require_identity (er_published_identity req) (er_publish_run_id req))
      (\<lambda>_. during f0 (untouched k d0) True) ?e"
    by (rule triple_weaken [OF identity_step [where P = "\<lambda>d. d = d0" and E = "served k d0 ?c" and s = True, OF _ assms(1)]])
      (auto simp: served_def untouched_def elim: during_weaken)
  have clean: "triple ?e (if py_exception e then discard_build k else returnM ()) (\<lambda>_. ?e) ?e"
      "triple ?e (if py_exception e then bindM (discard_build k) (\<lambda>_. unlink_serving (ExportFile k)) else returnM ()) (\<lambda>_. ?e) ?e" for e
    by (rule triple_if [OF discard_served triple_return], assumption)
      (rule triple_if [OF triple_bind [OF discard_served unlink_served] triple_return], simp, assumption)
  have build: "triple (during f0 (untouched k d0) True) (build_export fresh wal k req)
     (\<lambda>v w. \<exists>c. during f0 (building k d0 (exported k req c)) (c = sf_content f0) w \<and> v = counts_from c SERVING_SCHEMAS) ?e"
    by (rule triple_weaken [OF build_step]) (auto elim: during_weaken intro: untouched_served)
  have swap: "triple (\<lambda>w. \<exists>c. during f0 (building k d0 (exported k req c)) (c = sf_content f0) w \<and> v = counts_from c SERVING_SCHEMAS)
      (exceptM (swap_export k req) (\<lambda>e. if py_exception e then bindM (discard_build k) (\<lambda>_. unlink_serving (ExportFile k)) else returnM ()))
      (\<lambda>_ w. during f0 (finished k d0 ?c) True w \<and> v = counts_from (sf_content f0) SERVING_SCHEMAS) ?e" for v
  proof (rule triple_except [OF _ clean(2)], rule triple_ex, rule triple_pure)
    fix c :: "'r relations" assume v: "v = counts_from c SERVING_SCHEMAS"
    show "triple (during f0 (building k d0 (exported k req c)) (c = sf_content f0)) (swap_export k req)
        (\<lambda>_ w. during f0 (finished k d0 ?c) True w \<and> v = counts_from (sf_content f0) SERVING_SCHEMAS) ?e"
      by (rule triple_weaken [OF swap_step [OF assms, of c]]) (auto simp: v)
  qed
  have contact: "triple (during f0 (untouched k d0) True) serving_contact (\<lambda>_. during f0 (untouched k d0) True) ?e"
    by (rule contact_during [OF untouched_served])
  show ?thesis
    unfolding export_serving_mart_def
    by (rule triple_bind [OF start], rule triple_bind [OF contact], rule triple_bind [OF triple_except [OF build clean(1)]],
        rule triple_bind [OF swap], rule triple_return) simp
qed

section \<open>What pruning removes\<close>

text \<open>Other exports at least as new as the one at a path.\<close>

definition newer_exports :: "'r serving_disk \<Rightarrow> serving_path \<Rightarrow> (serving_path \<times> 'r serving_file) list" where
  "newer_exports d p = filter (\<lambda>(q, f). is_export q \<and> q \<noteq> p \<and>
     (case serving_at d p of None \<Rightarrow> False | Some g \<Rightarrow> vf_mtime_ns g \<le> vf_mtime_ns f)) (sd_files d)"

lemma length_filter_take: "length (filter P (take n ys)) \<le> length (filter P ys)"
proof -
  have "filter P ys = filter P (take n ys) @ filter P (drop n ys)" by (simp flip: filter_append)
  then have "length (filter P ys) = length (filter P (take n ys)) + length (filter P (drop n ys))" by (metis length_append)
  then show ?thesis by simp
qed

lemma sorted_drop_later:
  assumes "distinct (map fst xs)" "x \<in> set (drop n (sort_key k xs))"
  shows "n \<le> length (filter (\<lambda>y. fst y \<noteq> fst x \<and> k y \<le> k x) xs)"
proof -
  let ?ys = "sort_key k xs" and ?p = "\<lambda>y. fst y \<noteq> fst x \<and> k y \<le> k x"
  have "sorted (map k (take n ?ys) @ map k (drop n ?ys))" by (simp flip: map_append)
  then have below: "a \<le> b" if "a \<in> set (map k (take n ?ys))" "b \<in> set (map k (drop n ?ys))" for a b
    using that unfolding sorted_append by blast
  have "distinct (map fst ?ys)"
    using assms(1) by (metis distinct_map distinct_sort inj_on_def set_sort)
  then have "distinct (map fst (take n ?ys) @ map fst (drop n ?ys))" by (simp flip: map_append)
  then have apart: "set (map fst (take n ?ys)) \<inter> set (map fst (drop n ?ys)) = {}"
    unfolding distinct_append by blast
  have "?p y" if y: "y \<in> set (take n ?ys)" for y
  proof
    have "fst y \<in> set (map fst (take n ?ys))" "fst x \<in> set (map fst (drop n ?ys))" using y assms(2) by auto
    with apart show "fst y \<noteq> fst x" by fastforce
    show "k y \<le> k x" by (rule below) (use y assms(2) in auto)
  qed
  then have "filter ?p (take n ?ys) = take n ?ys" by (simp add: filter_id_conv)
  moreover have "length (filter ?p (take n ?ys)) \<le> length (filter ?p ?ys)"
    by (rule length_filter_take)
  moreover have "length (take n ?ys) = n"
    using assms(2) by (cases "n \<le> length ?ys") auto
  moreover have "length (filter ?p ?ys) = length (filter ?p xs)"
    by (rule mset_eq_length) (simp add: mset_filter)
  ultimately show ?thesis by simp
qed

lemma dropped_superseded:
  assumes "pk_ok (sd_files d)" "p \<in> set (drop n (export_versions d))"
  shows "is_export p \<and> n \<le> length (newer_exports d p)"
proof -
  let ?xs = "filter (\<lambda>(p, _). is_export p) (sd_files d)" and ?k = "\<lambda>(_ :: serving_path, f). - vf_mtime_ns f"
  from assms(2) obtain f where x: "(p, f) \<in> set (drop n (sort_key ?k ?xs))"
    by (auto simp: export_versions_def drop_map)
  then have mem: "(p, f) \<in> set ?xs" by (metis in_set_dropD set_sort)
  with assms(1) have at: "serving_at d p = Some f" by (auto simp: serving_at_def pk_ok_def)
  have "distinct (map fst ?xs)" using assms(1) by (simp add: pk_ok_def distinct_map_filter)
  from sorted_drop_later [OF this x]
  have "n \<le> length (filter (\<lambda>y. fst y \<noteq> p \<and> ?k y \<le> - vf_mtime_ns f) ?xs)" by simp
  also have "filter (\<lambda>y. fst y \<noteq> p \<and> ?k y \<le> - vf_mtime_ns f) ?xs = newer_exports d p"
    unfolding newer_exports_def filter_filter by (rule filter_cong) (auto simp: at)
  finally show ?thesis using mem by simp
qed

text \<open>Wherever pruning stops, a path that changed was to be removed and is gone.\<close>

lemma serving_contact_disk: "serving_contact w = (x, w') \<Longrightarrow> vw_disk w' = vw_disk w"
  by (auto simp: serving_contact_def split: list.splits option.splits)

definition only_removed :: "serving_path set \<Rightarrow> 'r serving_disk \<Rightarrow> 'r serving_disk \<Rightarrow> bool" where
  "only_removed ps d0 d \<longleftrightarrow> (\<forall>p. serving_at d p = serving_at d0 p \<or> p \<in> ps \<and> serving_at d p = None)"

lemma unlink_removes:
  assumes "unlink_version p w = (x, w')"
  shows "only_removed {p} (vw_disk w) (vw_disk w')" "x = Inr () \<Longrightarrow> serving_at (vw_disk w') p = None"
  using assms
  by (auto simp: unlink_version_def serving_step_def bindM_def only_removed_def Let_def
      dest: serving_contact_disk split: prod.splits sum.splits if_splits)

lemma unlinks_remove:
  assumes "iterM unlink_version ps w = (x, w')"
  shows "only_removed (set ps) (vw_disk w) (vw_disk w')" "x = Inr () \<Longrightarrow> p \<in> set ps \<Longrightarrow> serving_at (vw_disk w') p = None"
proof -
  have "only_removed (set ps) (vw_disk w) (vw_disk w') \<and> (x = Inr () \<longrightarrow> (\<forall>p \<in> set ps. serving_at (vw_disk w') p = None))"
    using assms
  proof (induction ps arbitrary: w)
    case Nil
    then show ?case by (simp add: returnM_def only_removed_def)
  next
    case (Cons q ps)
    obtain y w1 where one: "unlink_version q w = (y, w1)" by fastforce
    note first = unlink_removes [OF one]
    show ?case
    proof (cases y)
      case (Inl e)
      with Cons.prems one first(1) show ?thesis by (auto simp: bindM_def only_removed_def)
    next
      case (Inr u)
      with Cons.prems one have "iterM unlink_version ps w1 = (x, w')" by (simp add: bindM_def)
      from Cons.IH [OF this] first Inr show ?thesis by (auto simp: only_removed_def) metis+
    qed
  qed
  then show "only_removed (set ps) (vw_disk w) (vw_disk w')" "x = Inr () \<Longrightarrow> p \<in> set ps \<Longrightarrow> serving_at (vw_disk w') p = None"
    by auto
qed

lemma prune_removes:
  assumes "prune_serving_exports keep w = (x, w')"
  defines "ps \<equiv> set (drop keep (export_versions (vw_disk w)))"
  shows "only_removed ps (vw_disk w) (vw_disk w')" "x = Inr () \<Longrightarrow> p \<in> ps \<Longrightarrow> serving_at (vw_disk w') p = None"
proof -
  obtain y w1 where look: "serving_contact w = (y, w1)" by fastforce
  note disk1 = serving_contact_disk [OF look]
  show "only_removed ps (vw_disk w) (vw_disk w')"
  proof (cases y)
    case (Inl e)
    with assms(1) look disk1 show ?thesis by (auto simp: prune_serving_exports_def serving_step_def bindM_def only_removed_def)
  next
    case (Inr u)
    obtain z w2 where un: "iterM unlink_version (drop keep (export_versions (vw_disk w))) w1 = (z, w2)" by fastforce
    have "vw_disk w' = vw_disk w2"
      using assms(1) look disk1 Inr un
      by (auto simp: prune_serving_exports_def serving_step_def bindM_def dest: serving_contact_disk split: sum.splits)
    with unlinks_remove(1) [OF un] disk1 show ?thesis by (simp add: ps_def)
  qed
  show "serving_at (vw_disk w') p = None" if "x = Inr ()" "p \<in> ps"
  proof -
    from assms(1) look disk1 that(1) obtain w2 where
      un: "iterM unlink_version (drop keep (export_versions (vw_disk w))) w1 = (Inr (), w2)" and "serving_contact w2 = (Inr (), w')"
      by (auto simp: prune_serving_exports_def serving_step_def bindM_ok)
    then have "vw_disk w' = vw_disk w2" by (blast dest: serving_contact_disk)
    with unlinks_remove(2) [OF un] that(2) show ?thesis by (simp add: ps_def)
  qed
qed

end
