(* ===== verification/ServingProperties.thy ===== *)
theory ServingProperties
  imports ServingRuns
begin

text \<open>
  The properties of the serving side: what an export leaves in place of the serving file, and which
  exports are removed once Metabase reads the new one.
\<close>

section \<open>The serving file\<close>

text \<open>
  C32: The serving file is never a partial or mixed copy. Whatever the publisher swaps in meanwhile,
  whatever fails, and wherever the export is interrupted or killed, the file at the serving path is
  the one that was there, or one whose schemas, relations, rows and manifest are those of the very
  published file the caller named; the versions of other exports stay as they were. When the export
  returns, the serving file and the version with its identifier are that copy, its build file is
  gone, and the returned counts are those of the copied relations. (The file system does not give the
  identity of the named file to another one.)
\<close>

theorem serving_file_complete:
  assumes "source_kept f0 w" "er_published_identity req = sf_identity f0" "serving_at (vw_disk w) (ExportFile k) = None"
    and "export_serving_mart fresh wal k req w = (x, w')"
  shows "case x of
      Inr v \<Rightarrow> finished k (vw_disk w) (exported k req (sf_content f0)) (vw_disk w') \<and>
        v = \<lparr>vr_export_id = k, vr_row_counts = counts_from (sf_content f0) SERVING_SCHEMAS\<rparr>
    | Inl _ \<Rightarrow> served k (vw_disk w) (exported k req (sf_content f0)) (vw_disk w')"
proof -
  note triple = export_triple [OF assms(2,3), of fresh wal]
  have start: "during f0 (\<lambda>d. d = vw_disk w) True w" using assms(1) by (simp add: during_def)
  show ?thesis
  proof (cases x)
    case (Inl e)
    from triple_err [OF triple start assms(4) [unfolded Inl]] show ?thesis by (simp add: Inl during_def)
  next
    case (Inr v)
    from triple_ok [OF triple start assms(4) [unfolded Inr]] show ?thesis by (simp add: Inr during_def)
  qed
qed

definition demo_published :: "int relations stored_file" where
  "demo_published = \<lparr>sf_identity = \<lparr>fi_inode = 7, fi_mtime_ns = 70\<rparr>, sf_content =
     [((''metrics'', ''daily''), [5]), ((''facts'', ''orders''), [1, 2]), ((''staging'', ''raw''), [9])]\<rparr>"

definition demo_successor :: "int relations stored_file" where
  "demo_successor = \<lparr>sf_identity = \<lparr>fi_inode = 8, fi_mtime_ns = 80\<rparr>, sf_content = []\<rparr>"

definition demo_export_request :: export_request where
  "demo_export_request = \<lparr>er_publish_run_id = 0, er_mart_hashes = [], er_published_identity = \<lparr>fi_inode = 7, fi_mtime_ns = 70\<rparr>, er_now = 0\<rparr>"

definition demo_serving_turn :: "bool \<Rightarrow> int serving_turn" where
  "demo_serving_turn swap = \<lparr>vt_published = (\<lambda>p. if swap then Some demo_successor else p), vt_clock = 1, vt_fault = None\<rparr>"

definition demo_serving :: "nat \<Rightarrow> int serving_world" where
  "demo_serving n = \<lparr>vw_published = Some demo_published, vw_disk = \<lparr>sd_files = [], sd_wals = []\<rparr>, vw_clock = 0,
     vw_schedule = replicate n (demo_serving_turn False) @ [demo_serving_turn True]\<rparr>"

definition demo_inode :: "int list \<Rightarrow> int" where
  "demo_inode used = foldr max used 0 + 1"

lemma demo_source_kept: "source_kept demo_published (demo_serving n)"
  by (auto simp: source_kept_def demo_serving_def never_again_def demo_serving_turn_def demo_published_def demo_successor_def)

lemma demo_export_runs:
  "\<not> isl (fst (export_serving_mart demo_inode False 0 demo_export_request (demo_serving 40)))"
  "isl (fst (export_serving_mart demo_inode False 0 demo_export_request (demo_serving 6)))"
  by code_simp+

theorem serving_file_complete_witness:
  "(let w' = snd (export_serving_mart demo_inode False 0 demo_export_request (demo_serving 40)) in
     finished 0 (vw_disk (demo_serving 40)) (exported 0 demo_export_request (sf_content demo_published)) (vw_disk w')) \<and>
   (let w' = snd (export_serving_mart demo_inode False 0 demo_export_request (demo_serving 6)) in
     served 0 (vw_disk (demo_serving 6)) (exported 0 demo_export_request (sf_content demo_published)) (vw_disk w'))"
proof -
  have kept: "er_published_identity demo_export_request = sf_identity demo_published" "serving_at (vw_disk (demo_serving n)) (ExportFile 0) = None" for n
    by (simp_all add: demo_export_request_def demo_published_def demo_serving_def serving_at_def)
  note run = serving_file_complete [OF demo_source_kept kept prod.collapse [symmetric], where fresh = demo_inode and wal = False]
  show ?thesis
    using run [of 40] run [of 6] demo_export_runs by (auto simp: Let_def isl_def split: sum.splits)
qed

section \<open>Old exports\<close>

text \<open>
  C33: Pointing Metabase to a new export and removing old ones. \<open>SUCCESS\<close> means that the setting with
  the path of the new export was accepted and that Metabase, asked afterwards for the manifest it
  reads, answered with exactly this export. A file is removed only after that, or when no connection
  is configured at all, and only an export that at least three others are as new as: the serving file
  and the builds stay, and so does everything when Metabase reads another export or does not answer.
  After \<open>SUCCESS\<close> and \<open>SKIPPED\<close> all exports beyond the newest three are gone.
\<close>

theorem only_superseded_exports_removed:
  assumes "pk_ok (sd_files (vw_disk (ss_serving s)))"
    and "repoint_and_prune_serving api export_id url key database_id s = (x, s')"
  defines "confirmed \<equiv> \<exists>es. mb_log (ss_metabase s') = mb_log (ss_metabase s) @ es \<and> confirms (without_slashes url) export_id es"
    and "d \<equiv> vw_disk (ss_serving s)" and "d' \<equiv> vw_disk (ss_serving s')"
  shows "(x = Inr ''SUCCESS'' \<longrightarrow> confirmed) \<and>
    (\<forall>p. serving_at d' p \<noteq> serving_at d p \<longrightarrow> serving_at d' p = None \<and> is_export p \<and> 3 \<le> length (newer_exports d p) \<and>
       (confirmed \<or> url = [] \<or> key = [] \<or> database_id = [])) \<and>
    (x \<in> {Inr ''SUCCESS'', Inr ''SKIPPED''} \<longrightarrow> (\<forall>p \<in> set (drop 3 (export_versions d)). serving_at d' p = None))"
proof -
  let ?repoint = "repoint_metabase_serving api export_id url key database_id"
  obtain y m where repoint: "?repoint (ss_metabase s) = (y, m)" by fastforce
  show ?thesis
  proof (cases "\<exists>status. y = Inr status \<and> status \<in> {''SUCCESS'', ''SKIPPED''}")
    case False
    then have "x = y" "ss_serving s' = ss_serving s"
      using assms(2) repoint
      by (auto simp: repoint_and_prune_serving_def on_metabase_def bindM_def returnM_def split: sum.splits)
    with False have "d' = d" "x \<noteq> Inr ''SUCCESS''" "x \<noteq> Inr ''SKIPPED''" by (auto simp: d_def d'_def)
    then show ?thesis by simp
  next
    case True
    then obtain status where status: "y = Inr status" "status \<in> {''SUCCESS'', ''SKIPPED''}" by blast
    obtain z v where prune: "prune_serving_exports SERVING_EXPORT_RETENTION (ss_serving s) = (z, v)" by fastforce
    have after: "d' = vw_disk v" "ss_metabase s' = m" "(x = Inr status \<and> z = Inr ()) \<or> isl x"
      using assms(2) repoint status prune
      by (auto simp: repoint_and_prune_serving_def on_metabase_def on_serving_def bindM_def returnM_def d'_def split: sum.splits)
    have told: "(status = ''SUCCESS'' \<longrightarrow> confirmed) \<and> (confirmed \<or> url = [] \<or> key = [] \<or> database_id = [])"
      using repoint_status [of api export_id url key database_id "ss_metabase s" status m] repoint status after(2)
      by (auto simp: confirmed_def)
    note removed = prune_removes [OF prune, folded d_def, unfolded SERVING_EXPORT_RETENTION_def]
    have "only_removed (set (drop 3 (export_versions d))) d d'" using removed(1) after(1) by simp
    then have "serving_at d' p = None \<and> is_export p \<and> 3 \<le> length (newer_exports d p)" if "serving_at d' p \<noteq> serving_at d p" for p
      using that dropped_superseded [OF assms(1) [folded d_def], of p 3] by (auto simp: only_removed_def)
    with told after removed(2) show ?thesis by auto
  qed
qed

text \<open>A Metabase whose state is the file it is pointed to; it answers with the identifier in its name.\<close>

definition demo_api :: "string metabase_api" where
  "demo_api r m = (case mr_payload r of
      NoPayload \<Rightarrow> (Inr (JObj [(''details'', JObj [])]), m)
    | DetailsPayload d \<Rightarrow> (Inr (JObj []), case map_of d (JStr ''database_file'') of Some (JStr f) \<Rightarrow> f | _ \<Rightarrow> m)
    | QueryPayload _ _ \<Rightarrow> (Inr (JObj [(''data'', JObj [(''rows'', JList [JList [JStr (take 36 (drop 17 m)), JNull]])])]), m))"

definition demo_version :: "nat \<Rightarrow> serving_path \<times> int serving_file" where
  "demo_version n = (ExportFile n, \<lparr>vf_inode = int n, vf_mtime_ns = int n, vf_content = empty_content\<rparr>)"

definition demo_session :: "(string, int) serving_session" where
  "demo_session = \<lparr>ss_metabase = \<lparr>mb_server = [], mb_log = []\<rparr>, ss_serving = \<lparr>vw_published = None,
     vw_disk = \<lparr>sd_files = map demo_version [0, 1, 2, 3], sd_wals = []\<rparr>, vw_clock = 0, vw_schedule = []\<rparr>\<rparr>"

lemma demo_repoint:
  "fst (repoint_and_prune_serving demo_api (uuid_str 3) ''http://m/'' ''key'' ''1'' demo_session) = Inr ''SUCCESS''"
  "drop 3 (export_versions (vw_disk (ss_serving demo_session))) = [ExportFile 0]"
  by code_simp+

theorem only_superseded_exports_removed_witness:
  "let s' = snd (repoint_and_prune_serving demo_api (uuid_str 3) ''http://m/'' ''key'' ''1'' demo_session) in
   (\<exists>es. mb_log (ss_metabase s') = mb_log (ss_metabase demo_session) @ es \<and> confirms (without_slashes ''http://m/'') (uuid_str 3) es) \<and>
   serving_at (vw_disk (ss_serving s')) (ExportFile 0) = None"
proof -
  have "pk_ok (sd_files (vw_disk (ss_serving demo_session)))" by (simp add: demo_session_def demo_version_def pk_ok_def)
  from only_superseded_exports_removed [OF this prod.collapse [symmetric], of demo_api "uuid_str 3" "''http://m/''" "''key''" "''1''"]
  show ?thesis by (simp add: Let_def demo_repoint)
qed

end
