(* ===== verification/Spec2Isabelle.thy ===== *)
theory Spec2Isabelle
  imports IngestProperties GeneratorProperties DataProperties WarehouseProperties ServingProperties
begin

text \<open>
  A verification library for the commerce data platform (Python sources under src/): a source
  database is changed by a generator, its tables are ingested into immutable Bronze objects, and a
  DuckDB warehouse is built from them and published.

  \<^bold>\<open>Parts and how they meet.\<close>
  The generator (src/generator) applies one batch of orders and subscription changes to the source
  database in one transaction, closed by a commit row, and records the run in the metadata
  database. Ingestion (src/ingestion) extracts one table per run past a watermark, validates and
  quarantines rows, uploads the batch with its manifest, and commits object, run and watermark in
  one metadata transaction. The two exclude each other by the source mutation lease
  (src/common/lease.py); ingestion runs of one table exclude each other by a lease in the watermark
  row. The warehouse (src/warehouse) copies the published file, lets dbt bring the copy up to date,
  hashes it, records hashes and file identity, and renames it over the published path. The serving
  export (src/serving) copies its marts into a file for Metabase and points Metabase to it.

  \<^bold>\<open>Theories.\<close>
  \<^item> Foundations: \<open>Prelude\<close> (exceptions as values, operations on a state, SQL tables as association
    lists, the shared simplification rules), \<open>Effects\<close> (operations that move the state along a
    preorder), \<open>Fencing\<close> (locales of fencing registers and exclusive leases), \<open>Killable\<close> (faults that
    are not exceptions, and kills), \<open>Pytime\<close> (datetimes, UUIDs, formatting), \<open>Errors\<close> (classification
    and retry decisions).
  \<^item> Contracts and data: \<open>Contract\<close> (ingestion/contract), \<open>Batch\<close> (control/batch.py), \<open>Extract\<close>
    (extraction/extract.py), \<open>Validation\<close> (validation, references, corruption, quarantine), \<open>Bronze\<close>
    (bronze/storage, bronze, manifest).
  \<^item> Control: \<open>Metadata\<close> and \<open>Commits\<close> (control/metadata.py), \<open>SourceLease\<close>, \<open>TableLease\<close> (the two leases
    and the heartbeat), \<open>ControlPlane\<close> (all of them as one transition system), \<open>Recovery\<close> (catalog,
    verification, orphans, rewind).
  \<^item> Ingestion runs: \<open>Ingest\<close> (service.py), \<open>IngestTrace\<close> (a run as steps of the control plane),
    \<open>IngestFailure\<close>, \<open>IngestFrames\<close>, \<open>IngestOutcome\<close>, \<open>IngestProgress\<close> (what runs leave behind, cannot
    touch, mean by their results, and that they return).
  \<^item> Generator: \<open>GeneratorCore\<close> (core), \<open>SourceDb\<close> (the source tables and their constraints), \<open>Orders\<close>,
    \<open>OrderProgress\<close>, \<open>OrderBundles\<close> (orders), \<open>Customers\<close>, \<open>Subscriptions\<close>, \<open>Profiles\<close> (customers),
    \<open>GeneratorService\<close> (service.py), \<open>GeneratorRuns\<close>, \<open>OrderRuns\<close>, \<open>ContractRuns\<close>, \<open>Stamps\<close> (whole runs).
  \<^item> Warehouse: \<open>Publish\<close> (publish_metadata.py), \<open>Marts\<close> (row_hash, mart_hash, dbt_vars, dbt_runner),
    \<open>Warehouse\<close> (publish.py, duckdb_files.py, publish_heartbeat.py), \<open>WarehouseRuns\<close> (rely and guarantee
    over whole publications), \<open>WarehouseRecovery\<close> (undisturbed runs and recovery).
  \<^item> Serving: \<open>Serving\<close> (export.py), \<open>Metabase\<close> (metabase_repoint.py, metabase_settings.py, freshness.py,
    cli.py), \<open>ServingRuns\<close> (what an export and a pruning leave, in the Hoare triples of \<open>WarehouseRuns\<close>).
  \<^item> Properties: \<open>ControlProperties\<close>, \<open>IngestProperties\<close>, \<open>GeneratorProperties\<close>, \<open>DataProperties\<close>,
    \<open>WarehouseProperties\<close>, \<open>ServingProperties\<close>, each with the concrete states its witnesses run on.

  \<^bold>\<open>How the code is modelled.\<close>
  A record or dataclass is a \<open>record\<close>, an enumeration a \<open>datatype\<close>, a table an association list from
  key to row with its constraints checked where the statement runs. Every function that touches a
  database, a bucket or a disk is an operation \<open>'s \<Rightarrow> (exn + 'a) \<times> 's\<close>; a transaction that raises gives
  back the state it began in. Times are integers in microseconds. A run that talks to several
  services carries a schedule: at each point of contact it says what other processes have done
  since, what the clock reads, whether a heartbeat beats, and which fault strikes. The theorems
  quantify over all schedules, so over interleavings, faults and kills.

  \<^bold>\<open>What the lemma groups show.\<close>
  Leases exclude and fence; no interleaving of transactions breaks a constraint, commits a batch
  twice, or moves a watermark without its object; an ingestion run refines those transactions and
  commits all or nothing; pages are complete and in order; stored cursors and manifests are read
  back; hashes depend on content only. A generator run applies its inputs once or not at all, keeps
  orders, payments and contracts in agreement, and handles all that is due. The published warehouse
  file is always one that a run hashed and recorded, a killed publication is settled by the next
  recovery, and a failed build is quarantined. The serving file is a complete copy of the published
  file its caller named, and only superseded exports are removed.

  \<^bold>\<open>Loops and bounds.\<close>
  Loops are structural recursions or have a measure: rows left in a cursor, objects left in a
  listing. The page loop alone is a partial function, whose value is \<open>None\<close> where it does not end, and
  is proved to end on every snapshot. Integers of the database are checked against the width of their column.

  \<^bold>\<open>Parameters.\<close>
  SHA-256, UUIDv5, Parquet, Arrow conversion, the S3 service, DuckDB, dbt, Metabase's answers and the file
  system's choice of inodes are arguments; what is relied on is stated as hypotheses (\<open>s3_laws\<close>, \<open>engine_ok\<close>, injective
  digests where named).

  \<^bold>\<open>Not modelled.\<close>
  Argument parsing and printing; connection settings from the environment; the waiting of heartbeat
  threads (their interleaving is modelled); a file copy that stops half way; the human-readable
  difference of two warehouses; two serving exports at once; the seed loader, the run reports, the
  benchmarks, the Airflow DAGs, the operator scripts and the dbt models.
\<close>

end
